(* ===== verification/Prelude.thy ===== *)
theory Prelude
  imports Complex_Main "HOL-Library.AList" "HOL-Library.Char_ord" "HOL-Library.List_Lexorder"
    "HOL-Library.Product_Lexorder" "HOL-Library.Sublist" "HOL-Library.Multiset"
begin

section \<open>Shared vocabulary of the Night Scout model\<close>

text \<open>
  What the component theories share:
  \<^item> Python values: \<open>string\<close> is a list of code points below 256, a \<open>float\<close> is an exact \<open>rat\<close>
    (rounding is not modelled), a \<open>datetime\<close> and a \<open>timedelta\<close> are \<open>int\<close> numbers of microseconds
    (the resolution of Python's own types; every timestamp of the code is timezone-aware);
  \<^item> exceptions as the datatype \<open>py_error\<close>, fallible functions as \<open>py_error + 'a\<close>, methods that
    mutate a store and may raise as \<open>('s, 'a) op\<close>: the state after a raise is part of the result,
    because the code may have mutated it before raising;
  \<^item> insertion-ordered dictionaries as association lists with distinct keys;
  \<^item> the string, slice and sort functions of the standard library that the code uses.
\<close>

named_theorems res_simps \<open>evaluation of fallible functions\<close>
named_theorems store_simps \<open>effect of store operations on the fields of a store\<close>

subsection \<open>Exceptions and fallible functions\<close>

datatype py_error =
    KeyError string
  | ValueError string
  | ValidationError string \<comment> \<open>pydantic's, a subclass of ValueError\<close>
  | DuplicateRouteRuleError string \<comment> \<open>a subclass of ValueError\<close>
  | DuplicateScopeRuleError string \<comment> \<open>a subclass of ValueError\<close>
  | SeedPlanningError string \<comment> \<open>a subclass of ValueError\<close>
  | TypeError string
  | RuntimeError string
  | AssertionError
  | CancelledError \<comment> \<open>asyncio's, a BaseException\<close>

text \<open>Which exceptions \<open>except ValueError\<close> and \<open>except (KeyError, ValueError)\<close> catch.\<close>

fun is_value_error :: "py_error \<Rightarrow> bool" where
  "is_value_error (ValueError _) = True"
| "is_value_error (ValidationError _) = True"
| "is_value_error (DuplicateRouteRuleError _) = True"
| "is_value_error (DuplicateScopeRuleError _) = True"
| "is_value_error (SeedPlanningError _) = True"
| "is_value_error _ = False"

fun is_key_error :: "py_error \<Rightarrow> bool" where
  "is_key_error (KeyError _) = True"
| "is_key_error _ = False"

type_synonym 'a res = "py_error + 'a"

type_synonym ('s, 'a) op = "'s \<Rightarrow> 'a res \<times> 's"

definition bind_res :: "'a res \<Rightarrow> ('a \<Rightarrow> 'b res) \<Rightarrow> 'b res" where
  "bind_res r k = (case r of Inl e \<Rightarrow> Inl e | Inr x \<Rightarrow> k x)"

lemma bind_res_simps [simp, res_simps]:
  "bind_res (Inl e) k = Inl e"
  "bind_res (Inr x) k = k x"
  by (simp_all add: bind_res_def)

lemma bind_res_Inr_iff: "bind_res r k = Inr y \<longleftrightarrow> (\<exists>x. r = Inr x \<and> k x = Inr y)"
  by (cases r) auto

lemma bind_res_cong [fundef_cong]:
  "r = r' \<Longrightarrow> (\<And>x. r' = Inr x \<Longrightarrow> k x = k' x) \<Longrightarrow> bind_res r k = bind_res r' k'"
  by (cases r') auto

definition bind_op :: "('s, 'a) op \<Rightarrow> ('a \<Rightarrow> ('s, 'b) op) \<Rightarrow> ('s, 'b) op" where
  "bind_op m k = (\<lambda>s. case m s of (Inl e, s') \<Rightarrow> (Inl e, s') | (Inr x, s') \<Rightarrow> k x s')"

definition lift_res :: "'a res \<Rightarrow> ('s, 'a) op" where
  "lift_res r = (\<lambda>s. (r, s))"

lemma lift_res_apply [simp, res_simps]: "lift_res r s = (r, s)"
  by (simp add: lift_res_def)

lemma bind_op_lift [simp, res_simps]:
  "bind_op (lift_res (Inl e)) k s = (Inl e, s)"
  "bind_op (lift_res (Inr x)) k s = k x s"
  by (simp_all add: bind_op_def lift_res_def)

lemma bind_op_Inr_iff:
  "bind_op m k s = (Inr y, t) \<longleftrightarrow> (\<exists>x u. m s = (Inr x, u) \<and> k x u = (Inr y, t))"
  by (auto simp: bind_op_def split: prod.splits sum.splits)

subsection \<open>Dictionaries: association lists in insertion order\<close>

type_synonym ('k, 'v) dict = "('k \<times> 'v) list"

abbreviation dict_get :: "('k, 'v) dict \<Rightarrow> 'k \<Rightarrow> 'v option" where
  "dict_get \<equiv> map_of"

abbreviation dict_set :: "'k \<Rightarrow> 'v \<Rightarrow> ('k, 'v) dict \<Rightarrow> ('k, 'v) dict" where
  "dict_set \<equiv> AList.update"

abbreviation dict_pop :: "'k \<Rightarrow> ('k, 'v) dict \<Rightarrow> ('k, 'v) dict" where
  "dict_pop \<equiv> AList.delete"

abbreviation dict_values :: "('k, 'v) dict \<Rightarrow> 'v list" where
  "dict_values d \<equiv> map snd d"

abbreviation dict_ok :: "('k, 'v) dict \<Rightarrow> bool" where
  "dict_ok d \<equiv> distinct (map fst d)"

definition dict_default :: "('k, 'v) dict \<Rightarrow> 'k \<Rightarrow> 'v \<Rightarrow> 'v" where
  "dict_default d k v = (case dict_get d k of None \<Rightarrow> v | Some x \<Rightarrow> x)"

lemma dict_get_set [simp]: "dict_get (dict_set k v d) = (dict_get d)(k \<mapsto> v)"
  by (rule AList.update_conv')

lemma dict_get_pop [simp]: "dict_get (dict_pop k d) = (dict_get d)(k := None)"
  by (rule AList.delete_conv')

lemma dict_default_set [simp]:
  "dict_default (dict_set k v d) k' u = (if k' = k then v else dict_default d k' u)"
  by (simp add: dict_default_def)

lemma dict_default_pop [simp]:
  "dict_default (dict_pop k d) k' u = (if k' = k then u else dict_default d k' u)"
  by (simp add: dict_default_def)

lemma dict_ok_set [simp]: "dict_ok d \<Longrightarrow> dict_ok (dict_set k v d)"
  by (simp add: AList.distinct_update)

lemma dict_ok_pop [simp]: "dict_ok d \<Longrightarrow> dict_ok (dict_pop k d)"
  by (simp add: AList.distinct_delete)

lemma dict_mem_get: "dict_ok d \<Longrightarrow> (k, v) \<in> set d \<longleftrightarrow> dict_get d k = Some v"
  by (simp add: map_of_eq_Some_iff)

lemma dict_values_get:
  assumes ok: "dict_ok d"
  shows "v \<in> set (dict_values d) \<longleftrightarrow> (\<exists>k. dict_get d k = Some v)"
proof
  assume "v \<in> set (dict_values d)"
  then obtain k where "(k, v) \<in> set d" by auto
  with ok show "\<exists>k. dict_get d k = Some v" by auto
next
  assume "\<exists>k. dict_get d k = Some v"
  then show "v \<in> set (dict_values d)" by (force dest: map_of_SomeD)
qed

lemma dict_set_fresh: "dict_get d k = None \<Longrightarrow> dict_set k v d = d @ [(k, v)]"
  by (induction d) (auto split: if_splits)

lemma dict_set_same: "dict_get d k = Some v \<Longrightarrow> dict_set k v d = d"
  by (induction d) (auto split: if_splits)

lemma dict_set_set [simp]: "dict_set k v (dict_set k u d) = dict_set k v d"
  by (induction d) auto

lemma dict_keys_set: "map fst (dict_set k v d) = (if k \<in> set (map fst d) then map fst d else map fst d @ [k])"
  by (rule AList.update_keys)

lemma dict_values_set_subset: "set (dict_values (dict_set k v d)) \<subseteq> insert v (set (dict_values d))"
  by (induction d) auto

subsection \<open>Strings\<close>

text \<open>\<open>str.strip\<close>, \<open>str.lower\<close> and \<open>str.upper\<close> on code points below 256. The three code points
  whose upper case leaves the range (0xB5, 0xFF) or grows (0xDF) are kept by \<open>upper\<close>.\<close>

definition is_space :: "char \<Rightarrow> bool" where
  "is_space c = (let n = (of_char c :: nat)
     in (9 \<le> n \<and> n \<le> 13) \<or> (28 \<le> n \<and> n \<le> 32) \<or> n = 133 \<or> n = 160)"

definition strip :: "string \<Rightarrow> string" where
  "strip s = rev (dropWhile is_space (rev (dropWhile is_space s)))"

definition lower_char :: "char \<Rightarrow> char" where
  "lower_char c = (let n = (of_char c :: nat)
     in if (65 \<le> n \<and> n \<le> 90) \<or> (192 \<le> n \<and> n \<le> 222 \<and> n \<noteq> 215) then char_of (n + 32) else c)"

definition lower :: "string \<Rightarrow> string" where
  "lower s = map lower_char s"

definition upper_char :: "char \<Rightarrow> char" where
  "upper_char c = (let n = (of_char c :: nat)
     in if (97 \<le> n \<and> n \<le> 122) \<or> (224 \<le> n \<and> n \<le> 254 \<and> n \<noteq> 247) then char_of (n - 32) else c)"

definition upper :: "string \<Rightarrow> string" where
  "upper s = map upper_char s"

lemma strip_Nil [simp]: "strip [] = []"
  by (simp add: strip_def)

lemma strip_hd: "strip s \<noteq> [] \<Longrightarrow> \<not> is_space (hd (strip s))"
proof -
  assume ne: "strip s \<noteq> []"
  define u where "u = dropWhile is_space s"
  have "rev (strip s) = dropWhile is_space (rev u)" by (simp add: strip_def u_def)
  then obtain ys where ys: "rev u = ys @ rev (strip s)"
    by (metis takeWhile_dropWhile_id)
  then have "u = strip s @ rev ys" by (metis rev_append rev_rev_ident)
  with ne have "hd u = hd (strip s)" and "u \<noteq> []" by auto
  then show ?thesis using hd_dropWhile[of is_space s] u_def by simp
qed

lemma strip_last: "strip s \<noteq> [] \<Longrightarrow> \<not> is_space (last (strip s))"
  using hd_dropWhile[of is_space "rev (dropWhile is_space s)"]
  by (auto simp: strip_def last_rev)

lemma strip_idem [simp]: "strip (strip s) = strip s"
proof (cases "strip s = []")
  case True
  then show ?thesis by simp
next
  case False
  let ?t = "strip s"
  have 1: "dropWhile is_space ?t = ?t"
    using strip_hd[OF False] False by (cases ?t) auto
  have "dropWhile is_space (rev ?t) = rev ?t"
    using strip_last[OF False] False by (cases ?t rule: rev_cases) auto
  with 1 show ?thesis by (simp add: strip_def[of ?t])
qed

text \<open>\<open>value.strip() or None\<close>, the normalisation of optional text fields.\<close>

definition opt_text :: "string option \<Rightarrow> string option" where
  "opt_text v = (case v of None \<Rightarrow> None | Some s \<Rightarrow> if strip s = [] then None else Some (strip s))"

lemma opt_text_idem [simp]: "opt_text (opt_text v) = opt_text v"
  by (auto simp: opt_text_def split: option.splits)

lemma opt_text_None [simp]: "opt_text None = None"
  by (simp add: opt_text_def)

text \<open>A required text field: stripped, and refused when blank.\<close>

definition not_blank :: "string \<Rightarrow> string \<Rightarrow> string res" where
  "not_blank msg v = (if strip v = [] then Inl (ValidationError msg) else Inr (strip v))"

lemma not_blank_Inr: "not_blank m v = Inr w \<longleftrightarrow> w = strip v \<and> w \<noteq> []"
  by (auto simp: not_blank_def)

text \<open>\<open>sub in s\<close> for strings.\<close>

fun contains :: "string \<Rightarrow> string \<Rightarrow> bool" where
  "contains sub [] = (sub = [])"
| "contains sub (c # s) = (prefix sub (c # s) \<or> contains sub s)"

text \<open>\<open>sep.join(parts)\<close>.\<close>

fun join :: "string \<Rightarrow> string list \<Rightarrow> string" where
  "join sep [] = []"
| "join sep [x] = x"
| "join sep (x # y # xs) = x @ sep @ join sep (y # xs)"

text \<open>\<open>repr\<close> of a string: quotes, backslashes and unprintable code points are escaped.\<close>

definition hex_digit :: "nat \<Rightarrow> char" where
  "hex_digit n = (if n < 10 then char_of (48 + n) else char_of (87 + n))"

definition repr_char :: "char \<Rightarrow> char \<Rightarrow> string" where
  "repr_char q c = (let n = (of_char c :: nat) in
     if c = q \<or> n = 92 then [char_of (92::nat), c]
     else if n = 9 then [char_of (92::nat), CHR ''t'']
     else if n = 10 then [char_of (92::nat), CHR ''n'']
     else if n = 13 then [char_of (92::nat), CHR ''r'']
     else if n < 32 \<or> (127 \<le> n \<and> n \<le> 160) \<or> n = 173
     then [char_of (92::nat), CHR ''x'', hex_digit (n div 16), hex_digit (n mod 16)]
     else [c])"

definition py_repr :: "string \<Rightarrow> string" where
  "py_repr s =
     (let a = char_of (39::nat); d = char_of (34::nat);
          q = (if a \<in> set s \<and> d \<notin> set s then d else a)
      in [q] @ concat (map (repr_char q) s) @ [q])"

text \<open>\<open>str(exc)\<close>: a \<open>KeyError\<close> shows the \<open>repr\<close> of its argument.\<close>

fun exc_str :: "py_error \<Rightarrow> string" where
  "exc_str (KeyError m) = py_repr m"
| "exc_str (ValueError m) = m"
| "exc_str (ValidationError m) = m"
| "exc_str (DuplicateRouteRuleError m) = m"
| "exc_str (DuplicateScopeRuleError m) = m"
| "exc_str (SeedPlanningError m) = m"
| "exc_str (TypeError m) = m"
| "exc_str (RuntimeError m) = m"
| "exc_str AssertionError = []"
| "exc_str CancelledError = []"

fun exc_name :: "py_error \<Rightarrow> string" where
  "exc_name (KeyError _) = ''KeyError''"
| "exc_name (ValueError _) = ''ValueError''"
| "exc_name (ValidationError _) = ''ValidationError''"
| "exc_name (DuplicateRouteRuleError _) = ''DuplicateRouteRuleError''"
| "exc_name (DuplicateScopeRuleError _) = ''DuplicateScopeRuleError''"
| "exc_name (SeedPlanningError _) = ''SeedPlanningError''"
| "exc_name (TypeError _) = ''TypeError''"
| "exc_name (RuntimeError _) = ''RuntimeError''"
| "exc_name AssertionError = ''AssertionError''"
| "exc_name CancelledError = ''CancelledError''"

text \<open>\<open>uuid4().hex\<close>: the 32 lower-case digits of a 128-bit number drawn by the environment.\<close>

definition uuid_hex :: "nat \<Rightarrow> string" where
  "uuid_hex n = map (\<lambda>i. hex_digit (n div 16 ^ i mod 16)) (rev [0..<32])"

lemma hex_digit_not_space: "n < 16 \<Longrightarrow> \<not> is_space (hex_digit n)"
  by (auto simp: hex_digit_def is_space_def Let_def)

lemma uuid_hex_not_space: "c \<in> set (uuid_hex n) \<Longrightarrow> \<not> is_space c"
  by (auto simp: uuid_hex_def intro!: hex_digit_not_space)

lemma strip_no_space: "\<forall>c \<in> set s. \<not> is_space c \<Longrightarrow> strip s = s"
proof -
  assume a: "\<forall>c \<in> set s. \<not> is_space c"
  then have 1: "dropWhile is_space s = s" by (cases s) auto
  from a have "dropWhile is_space (rev s) = rev s" by (cases s rule: rev_cases) auto
  with 1 show ?thesis by (simp add: strip_def)
qed

subsection \<open>Time\<close>

type_synonym time = int
type_synonym timedelta = int

text \<open>\<open>timedelta(seconds=x)\<close> rounds to the nearest microsecond, ties to even;
  \<open>total_seconds()\<close> goes back.\<close>

definition round_half_even :: "rat \<Rightarrow> int" where
  "round_half_even x =
     (let f = \<lfloor>x\<rfloor>; d = x - of_int f
      in if d < 1/2 then f else if d > 1/2 then f + 1 else if even f then f else f + 1)"

definition timedelta_seconds :: "rat \<Rightarrow> timedelta" where
  "timedelta_seconds x = round_half_even (x * 1000000)"

definition total_seconds :: "timedelta \<Rightarrow> rat" where
  "total_seconds d = of_int d / 1000000"

lemma round_half_even_of_int [simp]: "round_half_even (of_int n) = n"
  by (simp add: round_half_even_def)

lemma round_half_even_nonneg: "0 \<le> x \<Longrightarrow> 0 \<le> round_half_even x"
  by (simp add: round_half_even_def Let_def add_increasing2)

lemma round_half_even_mono:
  assumes "x \<le> y"
  shows "round_half_even x \<le> round_half_even y"
proof (cases "\<lfloor>x\<rfloor> = \<lfloor>y\<rfloor>")
  case True
  then show ?thesis using assms by (simp add: round_half_even_def Let_def)
next
  case False
  with floor_mono[OF assms] have "\<lfloor>x\<rfloor> + 1 \<le> \<lfloor>y\<rfloor>" by simp
  moreover have "round_half_even x \<le> \<lfloor>x\<rfloor> + 1" "\<lfloor>y\<rfloor> \<le> round_half_even y"
    by (simp_all add: round_half_even_def Let_def)
  ultimately show ?thesis by linarith
qed

lemma timedelta_seconds_nonneg: "0 \<le> x \<Longrightarrow> 0 \<le> timedelta_seconds x"
  by (simp add: timedelta_seconds_def round_half_even_nonneg)

lemma timedelta_seconds_total: "timedelta_seconds (total_seconds d) = d"
  by (simp add: timedelta_seconds_def total_seconds_def)

lemma timedelta_seconds_0 [simp]: "timedelta_seconds 0 = 0"
  by (simp add: timedelta_seconds_def round_half_even_def)

lemma total_seconds_mono: "a \<le> b \<Longrightarrow> total_seconds a \<le> total_seconds b"
  by (simp add: total_seconds_def divide_right_mono)

subsection \<open>Lists: slices, stable sorts, ordered deduplication\<close>

text \<open>\<open>xs[:n]\<close>: a negative bound counts from the end.\<close>

definition slice_to :: "'a list \<Rightarrow> int \<Rightarrow> 'a list" where
  "slice_to xs n = (if 0 \<le> n then take (nat n) xs else take (length xs - nat (- n)) xs)"

lemma set_slice_to: "set (slice_to xs n) \<subseteq> set xs"
  by (auto simp: slice_to_def dest: in_set_takeD)

text \<open>\<open>xs.sort(key=f, reverse=True)\<close>: stable, so equal elements keep their order.\<close>

definition sort_desc :: "('a \<Rightarrow> 'k::linorder) \<Rightarrow> 'a list \<Rightarrow> 'a list" where
  "sort_desc f xs = rev (sort_key f (rev xs))"

lemma set_sort_desc [simp]: "set (sort_desc f xs) = set xs"
  by (simp add: sort_desc_def)

lemma length_sort_desc [simp]: "length (sort_desc f xs) = length xs"
  by (simp add: sort_desc_def)

lemma mset_sort_desc [simp]: "mset (sort_desc f xs) = mset xs"
  by (simp add: sort_desc_def)

lemma sort_desc_Nil_iff [simp]: "sort_desc f xs = [] \<longleftrightarrow> xs = []"
  by (metis length_0_conv length_sort_desc)

lemma sort_desc_hd_max:
  assumes "x \<in> set xs"
  shows "f x \<le> f (hd (sort_desc f xs))"
proof -
  let ?s = "sort_key f (rev xs)"
  have "x \<in> set ?s" using assms by simp
  then obtain i where i: "i < length ?s" "?s ! i = x" unfolding in_set_conv_nth by blast
  have ne: "?s \<noteq> []" using i(1) by (metis length_0_conv not_less_zero)
  have "map f ?s ! i \<le> map f ?s ! (length ?s - 1)"
    by (rule sorted_nth_mono[OF sorted_sort_key]) (use i in auto)
  with i ne have "f x \<le> f (last ?s)" by (simp add: last_conv_nth)
  then show ?thesis using ne by (simp add: sort_desc_def hd_rev)
qed

lemma sort_desc_hd_mem: "xs \<noteq> [] \<Longrightarrow> hd (sort_desc f xs) \<in> set xs"
  by (metis hd_in_set set_sort_desc sort_desc_Nil_iff)

lemma sort_key_hd_min:
  assumes "x \<in> set xs"
  shows "f (hd (sort_key f xs)) \<le> f x"
proof -
  have "x \<in> set (sort_key f xs)" using assms by simp
  then obtain i where i: "i < length (sort_key f xs)" "sort_key f xs ! i = x"
    unfolding in_set_conv_nth by blast
  have "map f (sort_key f xs) ! 0 \<le> map f (sort_key f xs) ! i"
    by (rule sorted_nth_mono[OF sorted_sort_key]) (use i in auto)
  with i show ?thesis by (metis hd_conv_nth length_0_conv length_greater_0_conv not_less_zero nth_map order_le_less_trans zero_le)
qed

text \<open>\<open>dict.fromkeys(xs)\<close> as a sequence: the first occurrence of every element, in order.\<close>

fun dedupe :: "'a list \<Rightarrow> 'a list" where
  "dedupe [] = []"
| "dedupe (x # xs) = x # filter (\<lambda>y. y \<noteq> x) (dedupe xs)"

lemma set_dedupe [simp]: "set (dedupe xs) = set xs"
  by (induction xs) auto

lemma distinct_dedupe [simp]: "distinct (dedupe xs)"
  by (induction xs) auto

lemma set_remove1_subset_sum: "x \<in> set xs \<Longrightarrow> sum_list (map f xs) = (f x :: 'a::ab_group_add) + sum_list (map f (remove1 x xs))"
  by (induction xs) (auto simp: algebra_simps)

end
