(* ===== verification/Tasks.thy ===== *)
theory Tasks
  imports Prelude
begin

section \<open>Tasks (recon/core/queue.py: TaskStatus, Task)\<close>

text \<open>
  The unit of scheduled work: its fields, the field and model validators that pydantic runs when a
  \<open>Task\<close> is built or an attribute is assigned, and the derived properties. \<open>task_wf\<close> is the type
  invariant every value of the class satisfies; \<open>validate_task_wf\<close> and \<open>validate_task_eq\<close> relate it
  to the validators.
\<close>

datatype task_status =
    PENDING | RUNNING | DEFERRED
  | SUCCEEDED | FAILED | CANCELLED
  | BLOCKED | REVIEW

fun status_value :: "task_status \<Rightarrow> string" where
  "status_value PENDING = ''PENDING''"
| "status_value RUNNING = ''RUNNING''"
| "status_value DEFERRED = ''DEFERRED''"
| "status_value SUCCEEDED = ''SUCCEEDED''"
| "status_value FAILED = ''FAILED''"
| "status_value CANCELLED = ''CANCELLED''"
| "status_value BLOCKED = ''BLOCKED''"
| "status_value REVIEW = ''REVIEW''"

definition TERMINAL_TASK_STATUSES :: "task_status set" where
  "TERMINAL_TASK_STATUSES = {SUCCEEDED, FAILED, CANCELLED, BLOCKED}"

record task =
  t_task_id :: string
  t_worker :: string
  t_action :: string
  t_input_event_id :: string
  t_input_identity_key :: "string option"
  t_branch_id :: "string option"
  t_route_rule_id :: "string option"
  t_routing_reason :: "string option"
  t_status :: task_status
  t_priority :: rat
  t_attempts :: int
  t_max_attempts :: int
  t_created_at :: time
  t_updated_at :: time
  t_available_at :: time
  t_started_at :: "time option"
  t_finished_at :: "time option"
  t_lease_expires_at :: "time option"
  t_claim_token :: "string option"
  t_last_error :: "string option"
  t_search_tier :: "string option"
  t_candidate_limit_hint :: "int option"

definition new_task_id :: "nat \<Rightarrow> string" where
  "new_task_id n = ''tsk_'' @ uuid_hex n"

definition new_claim_token :: "nat \<Rightarrow> string" where
  "new_claim_token n = ''clm_'' @ uuid_hex n"

definition is_terminal :: "task \<Rightarrow> bool" where
  "is_terminal t \<longleftrightarrow> t_status t \<in> TERMINAL_TASK_STATUSES"

text \<open>The key joins the worker, the action and the logical input: the identity key when it is
  present and not empty, else the event id.\<close>

definition logical_key :: "string \<Rightarrow> string \<Rightarrow> string option \<Rightarrow> string \<Rightarrow> string" where
  "logical_key w a identity event =
     w @ '':'' @ a @ '':'' @
     (case identity of Some k \<Rightarrow> if k = [] then event else k | None \<Rightarrow> event)"

definition dedupe_key :: "task \<Rightarrow> string" where
  "dedupe_key t =
     logical_key (t_worker t) (t_action t) (t_input_identity_key t) (t_input_event_id t)"

definition retries_remaining :: "task \<Rightarrow> int" where
  "retries_remaining t = max (t_max_attempts t - t_attempts t) 0"

subsection \<open>Validators\<close>

definition at_least :: "int \<Rightarrow> int \<Rightarrow> unit res" where
  "at_least lo x = (if x < lo then Inl (ValidationError ''out of range'') else Inr ())"

definition normalize_search_tier :: "string option \<Rightarrow> string option" where
  "normalize_search_tier v =
     (case v of None \<Rightarrow> None
      | Some s \<Rightarrow> let u = upper (strip s) in if u = [] then None else Some u)"

definition normalize_claim_token :: "string option \<Rightarrow> string option res" where
  "normalize_claim_token v =
     (case v of None \<Rightarrow> Inr None
      | Some s \<Rightarrow> bind_res (not_blank ''claim_token must not be blank'' s) (\<lambda>t. Inr (Some t)))"

definition validate_lifecycle :: "task \<Rightarrow> task res" where
  "validate_lifecycle t =
     (if t_max_attempts t < t_attempts t
      then Inl (ValidationError ''attempts cannot exceed max_attempts'')
      else if t_finished_at t \<noteq> None \<and> t_status t \<notin> TERMINAL_TASK_STATUSES
      then Inl (ValidationError ''finished_at is only valid for terminal task states'')
      else if t_status t = RUNNING \<and> t_started_at t = None
      then Inl (ValidationError ''RUNNING tasks require started_at'')
      else if t_status t = RUNNING \<and> t_claim_token t = None
      then Inl (ValidationError ''RUNNING tasks require a claim_token'')
      else if t_status t \<noteq> RUNNING \<and> t_lease_expires_at t \<noteq> None
      then Inl (ValidationError ''only RUNNING tasks may hold a lease'')
      else if t_status t \<noteq> RUNNING \<and> t_claim_token t \<noteq> None
      then Inl (ValidationError ''only RUNNING tasks may hold a claim_token'')
      else Inr t)"

definition validate_task :: "task \<Rightarrow> task res" where
  "validate_task t =
     bind_res (not_blank ''must not be blank'' (t_worker t)) (\<lambda>w.
     bind_res (not_blank ''must not be blank'' (t_action t)) (\<lambda>a.
     bind_res (not_blank ''must not be blank'' (t_input_event_id t)) (\<lambda>i.
     bind_res (at_least 0 (t_attempts t)) (\<lambda>_.
     bind_res (at_least 1 (t_max_attempts t)) (\<lambda>_.
     bind_res (normalize_claim_token (t_claim_token t)) (\<lambda>c.
     bind_res (case t_candidate_limit_hint t of None \<Rightarrow> Inr () | Some h \<Rightarrow> at_least 1 h) (\<lambda>_.
       validate_lifecycle
         (t\<lparr>t_worker := w, t_action := a, t_input_event_id := i,
            t_input_identity_key := opt_text (t_input_identity_key t),
            t_route_rule_id := opt_text (t_route_rule_id t),
            t_routing_reason := opt_text (t_routing_reason t),
            t_claim_token := c,
            t_search_tier := normalize_search_tier (t_search_tier t)\<rparr>))))))))"

text \<open>\<open>Task(...)\<close> with the defaults the code leaves to pydantic.\<close>

definition default_task :: "nat \<Rightarrow> time \<Rightarrow> string \<Rightarrow> string \<Rightarrow> string \<Rightarrow> task" where
  "default_task uuid now w a i =
     \<lparr>t_task_id = new_task_id uuid, t_worker = w, t_action = a, t_input_event_id = i,
      t_input_identity_key = None, t_branch_id = None, t_route_rule_id = None,
      t_routing_reason = None, t_status = PENDING, t_priority = 0, t_attempts = 0,
      t_max_attempts = 3, t_created_at = now, t_updated_at = now, t_available_at = now,
      t_started_at = None, t_finished_at = None, t_lease_expires_at = None,
      t_claim_token = None, t_last_error = None, t_search_tier = None,
      t_candidate_limit_hint = None\<rparr>"

subsection \<open>The type invariant\<close>

definition fields_ok :: "task \<Rightarrow> bool" where
  "fields_ok t \<longleftrightarrow>
     strip (t_worker t) = t_worker t \<and> t_worker t \<noteq> [] \<and>
     strip (t_action t) = t_action t \<and> t_action t \<noteq> [] \<and>
     strip (t_input_event_id t) = t_input_event_id t \<and> t_input_event_id t \<noteq> [] \<and>
     0 \<le> t_attempts t \<and> 1 \<le> t_max_attempts t \<and>
     opt_text (t_input_identity_key t) = t_input_identity_key t \<and>
     opt_text (t_route_rule_id t) = t_route_rule_id t \<and>
     opt_text (t_routing_reason t) = t_routing_reason t \<and>
     opt_text (t_claim_token t) = t_claim_token t \<and>
     normalize_search_tier (t_search_tier t) = t_search_tier t \<and>
     (\<forall>h. t_candidate_limit_hint t = Some h \<longrightarrow> 1 \<le> h)"

definition lifecycle_ok :: "task \<Rightarrow> bool" where
  "lifecycle_ok t \<longleftrightarrow>
     t_attempts t \<le> t_max_attempts t \<and>
     (t_finished_at t \<noteq> None \<longrightarrow> t_status t \<in> TERMINAL_TASK_STATUSES) \<and>
     (t_status t = RUNNING \<longrightarrow> t_started_at t \<noteq> None \<and> t_claim_token t \<noteq> None) \<and>
     (t_status t \<noteq> RUNNING \<longrightarrow> t_lease_expires_at t = None \<and> t_claim_token t = None)"

definition task_wf :: "task \<Rightarrow> bool" where
  "task_wf t \<longleftrightarrow> fields_ok t \<and> lifecycle_ok t"

text \<open>Fields the queue updates do not touch the normalised ones.\<close>

lemma fields_ok_update [simp]:
  "fields_ok (t\<lparr>t_status := st\<rparr>) = fields_ok t"
  "fields_ok (t\<lparr>t_available_at := i\<rparr>) = fields_ok t"
  "fields_ok (t\<lparr>t_updated_at := i\<rparr>) = fields_ok t"
  "fields_ok (t\<lparr>t_started_at := oi\<rparr>) = fields_ok t"
  "fields_ok (t\<lparr>t_finished_at := oi\<rparr>) = fields_ok t"
  "fields_ok (t\<lparr>t_lease_expires_at := oi\<rparr>) = fields_ok t"
  "fields_ok (t\<lparr>t_last_error := os\<rparr>) = fields_ok t"
  by (simp_all add: fields_ok_def)

lemma fields_ok_token [simp]:
  "fields_ok t \<Longrightarrow> opt_text c = c \<Longrightarrow> fields_ok (t\<lparr>t_claim_token := c\<rparr>)"
  "fields_ok t \<Longrightarrow> 0 \<le> a \<Longrightarrow> fields_ok (t\<lparr>t_attempts := a\<rparr>)"
  by (simp_all add: fields_ok_def)

lemma dedupe_key_update [simp]:
  "dedupe_key (t\<lparr>t_status := st\<rparr>) = dedupe_key t"
  "dedupe_key (t\<lparr>t_available_at := i\<rparr>) = dedupe_key t"
  "dedupe_key (t\<lparr>t_updated_at := i\<rparr>) = dedupe_key t"
  "dedupe_key (t\<lparr>t_started_at := oi\<rparr>) = dedupe_key t"
  "dedupe_key (t\<lparr>t_finished_at := oi\<rparr>) = dedupe_key t"
  "dedupe_key (t\<lparr>t_lease_expires_at := oi\<rparr>) = dedupe_key t"
  "dedupe_key (t\<lparr>t_last_error := os\<rparr>) = dedupe_key t"
  "dedupe_key (t\<lparr>t_claim_token := os\<rparr>) = dedupe_key t"
  "dedupe_key (t\<lparr>t_attempts := a\<rparr>) = dedupe_key t"
  by (simp_all add: dedupe_key_def)

lemma validate_lifecycle_iff: "validate_lifecycle t = Inr u \<longleftrightarrow> u = t \<and> lifecycle_ok t"
  by (auto simp: validate_lifecycle_def lifecycle_ok_def)

lemma opt_text_Some: "opt_text v = Some s \<Longrightarrow> strip s = s \<and> s \<noteq> []"
  by (auto simp: opt_text_def split: option.splits if_splits)

lemma normalize_claim_token_eq:
  "opt_text v = v \<Longrightarrow> normalize_claim_token v = Inr v"
  by (auto simp: normalize_claim_token_def not_blank_def opt_text_def split: option.splits if_splits)

text \<open>On normalised fields pydantic's validation is exactly the lifecycle check.\<close>

lemma validate_task_eq: "fields_ok t \<Longrightarrow> validate_task t = validate_lifecycle t"
  by (cases "t_candidate_limit_hint t")
    (simp_all add: validate_task_def fields_ok_def not_blank_def at_least_def normalize_claim_token_eq)

lemma task_wf_validate: "task_wf t \<Longrightarrow> validate_task t = Inr t"
  by (simp add: validate_task_eq task_wf_def validate_lifecycle_iff)

lemma validate_task_fields_ok: "fields_ok t \<Longrightarrow> validate_task t = Inr u \<longleftrightarrow> u = t \<and> task_wf t"
  by (auto simp: validate_task_eq validate_lifecycle_iff task_wf_def)

lemma upper_char_idem [simp]: "upper_char (upper_char c) = upper_char c"
proof -
  have "n - 32 < 256" if "n \<le> 254" for n :: nat using that by simp
  then show ?thesis by (auto simp: upper_char_def Let_def)
qed

lemma upper_char_space: "is_space (upper_char c) \<longleftrightarrow> is_space c"
proof -
  have "n - 32 < 256" if "n \<le> 254" for n :: nat using that by simp
  then show ?thesis by (auto simp: upper_char_def is_space_def Let_def)
qed

lemma strip_upper: "strip (upper s) = upper (strip s)"
proof -
  have "dropWhile is_space (map upper_char xs) = map upper_char (dropWhile is_space xs)" for xs
    by (induction xs) (simp_all add: upper_char_space)
  then show ?thesis by (simp add: strip_def upper_def rev_map)
qed

lemma upper_idem [simp]: "upper (upper s) = upper s"
  by (simp add: upper_def)

lemma normalize_search_tier_idem [simp]:
  "normalize_search_tier (normalize_search_tier v) = normalize_search_tier v"
  by (auto simp: normalize_search_tier_def Let_def strip_upper split: option.splits)

lemma normalize_claim_token_Inr:
  "normalize_claim_token v = Inr c \<Longrightarrow> opt_text c = c"
  by (auto simp: normalize_claim_token_def bind_res_Inr_iff not_blank_Inr opt_text_def split: option.splits)

text \<open>What the constructor returns satisfies the type invariant, whatever it was given.\<close>

lemma validate_task_wf: "validate_task t = Inr u \<Longrightarrow> task_wf u"
  by (auto simp: validate_task_def bind_res_Inr_iff not_blank_Inr at_least_def validate_lifecycle_iff
      task_wf_def fields_ok_def normalize_claim_token_Inr split: if_splits option.splits)

lemma default_task_simps [simp]:
  "t_task_id (default_task n now w a i) = new_task_id n"
  "t_worker (default_task n now w a i) = w"
  "t_action (default_task n now w a i) = a"
  "t_input_event_id (default_task n now w a i) = i"
  "t_status (default_task n now w a i) = PENDING"
  "t_attempts (default_task n now w a i) = 0"
  "t_max_attempts (default_task n now w a i) = 3"
  "t_claim_token (default_task n now w a i) = None"
  "t_lease_expires_at (default_task n now w a i) = None"
  "t_finished_at (default_task n now w a i) = None"
  by (simp_all add: default_task_def)

lemma strip_token: "strip (new_claim_token n) = new_claim_token n"
proof (rule strip_no_space)
  show "\<forall>c\<in>set (new_claim_token n). \<not> is_space c"
    by (auto simp: new_claim_token_def is_space_def[of "CHR ''c''"] is_space_def[of "CHR ''l''"]
        is_space_def[of "CHR ''m''"] is_space_def[of "CHR ''_''"] dest: uuid_hex_not_space)
qed

lemma new_claim_token_ok [simp]: "opt_text (Some (new_claim_token n)) = Some (new_claim_token n)"
  by (simp add: opt_text_def strip_token) (simp add: new_claim_token_def)

text \<open>The status after which nothing is expected, spelled out.\<close>

lemma terminal_iff [simp]:
  "s \<in> TERMINAL_TASK_STATUSES \<longleftrightarrow> s = SUCCEEDED \<or> s = FAILED \<or> s = CANCELLED \<or> s = BLOCKED"
  by (cases s) (simp_all add: TERMINAL_TASK_STATUSES_def)

end
