(* ===== verification/Cas_Store.thy ===== *)
theory Cas_Store
  imports Prelude
begin

section \<open>The contract of a compare-and-swap store\<close>

text \<open>
  What \<open>TaskQueue\<close> relies on in its \<open>TaskStore\<close> (recon/core/queue.py): a lookup, and a save that
  succeeds only when the stored version is the one the caller read, and otherwise raises and changes
  nothing. The lemmas are about any client that reads, computes and saves; the task store provides
  the contract with the version \<open>(status, claim_token)\<close>.
\<close>

locale cas_store =
  fixes lookup :: "'s \<Rightarrow> 'k \<Rightarrow> 'v option"
    and key :: "'v \<Rightarrow> 'k"
    and ver :: "'v \<Rightarrow> 'n"
    and cas :: "'v \<Rightarrow> 'n \<Rightarrow> 's \<Rightarrow> 'v res \<times> 's"
    and inv :: "'s \<Rightarrow> bool"
    and succ :: "'v \<Rightarrow> 'v \<Rightarrow> bool"
  assumes cas_hit: "inv s \<Longrightarrow> lookup s (key v) = Some p \<Longrightarrow> succ p v \<Longrightarrow>
      fst (cas v (ver p) s) = Inr v \<and> inv (snd (cas v (ver p) s))
      \<and> lookup (snd (cas v (ver p) s)) = (lookup s)(key v \<mapsto> v)"
    and cas_stale: "inv s \<Longrightarrow> lookup s (key v) = Some p \<Longrightarrow> ver p \<noteq> n \<Longrightarrow>
      \<exists>e. cas v n s = (Inl e, s)"
    and cas_missing: "inv s \<Longrightarrow> lookup s (key v) = None \<Longrightarrow> \<exists>e. cas v n s = (Inl e, s)"
    and succ_key: "succ p v \<Longrightarrow> key v = key p"
    and lookup_key: "inv s \<Longrightarrow> lookup s k = Some p \<Longrightarrow> key p = k"
begin

text \<open>A read-modify-write: the successor is computed from the value read, then saved.\<close>

definition rmw :: "'k \<Rightarrow> ('v \<Rightarrow> 'v option) \<Rightarrow> 's \<Rightarrow> 'v option \<times> 's" where
  "rmw k f s =
     (case lookup s k of
        None \<Rightarrow> (None, s)
      | Some p \<Rightarrow>
          (case f p of
             None \<Rightarrow> (None, s)
           | Some v \<Rightarrow> (case cas v (ver p) s of (Inl e, s') \<Rightarrow> (None, s') | (Inr x, s') \<Rightarrow> (Some x, s'))))"

lemma rmw_hit:
  assumes "inv s" and "lookup s k = Some p" and "f p = Some v" and "succ p v"
  shows "fst (rmw k f s) = Some v" and "inv (snd (rmw k f s))"
    and "lookup (snd (rmw k f s)) = (lookup s)(k \<mapsto> v)"
proof -
  from assms have k: "key v = k" by (metis lookup_key succ_key)
  note h = cas_hit[OF assms(1) _ assms(4)]
  obtain r s' where c: "cas v (ver p) s = (r, s')" by (cases "cas v (ver p) s")
  with h k assms(2) have "r = Inr v" "inv s'" "lookup s' = (lookup s)(k \<mapsto> v)" by auto
  with c assms(2,3) show "fst (rmw k f s) = Some v" and "inv (snd (rmw k f s))"
    and "lookup (snd (rmw k f s)) = (lookup s)(k \<mapsto> v)"
    by (simp_all add: rmw_def)
qed

lemma rmw_refused: "lookup s k = None \<or> (\<exists>p. lookup s k = Some p \<and> f p = None) \<Longrightarrow> rmw k f s = (None, s)"
  by (auto simp: rmw_def)

text \<open>
  Two writers that read the same value: once the first has saved a value of another version, the
  second one's save is refused and changes nothing.
\<close>

lemma second_writer_refused:
  assumes "inv s" and "lookup s (key v) = Some p" and "succ p v" and "ver v \<noteq> ver p"
    and "key w = key v"
  shows "\<exists>e. cas w (ver p) (snd (cas v (ver p) s)) = (Inl e, snd (cas v (ver p) s))"
proof -
  from cas_hit[OF assms(1-3)] have "inv (snd (cas v (ver p) s))"
    and "lookup (snd (cas v (ver p) s)) (key w) = Some v"
    using assms(5) by auto
  then show ?thesis using cas_stale assms(4) by blast
qed

end

end
