(* ===== verification/Task_Store.thy ===== *)
theory Task_Store
  imports Tasks Cas_Store
begin

section \<open>The task store (recon/core/queue.py: TaskStore, InMemoryTaskStore)\<close>

text \<open>
  The three dictionaries of the store and its methods. Every method runs under the store's lock, so
  it is one function on the state. \<open>save_task\<close> mutates the store before its last check can raise,
  as the code does. \<open>store_inv\<close> is what the methods keep: keys are ids, tasks are well formed, and
  the two indexes agree with the tasks.
\<close>

record task_store =
  ts_tasks :: "(string, task) dict"
  ts_active :: "(string, string) dict"
  ts_known :: "(string, string) dict"

definition empty_store :: task_store where
  "empty_store = \<lparr>ts_tasks = [], ts_active = [], ts_known = []\<rparr>"

definition put_task :: "task \<Rightarrow> task_store \<Rightarrow> bool \<times> task_store" where
  "put_task t s =
     (if dict_get (ts_known s) (dedupe_key t) \<noteq> None then (False, s)
      else
        (let blocked =
               (case dict_get (ts_active s) (dedupe_key t) of
                  None \<Rightarrow> False
                | Some existing_id \<Rightarrow>
                    (case dict_get (ts_tasks s) existing_id of
                       None \<Rightarrow> False
                     | Some existing \<Rightarrow> \<not> is_terminal existing))
         in if blocked then (False, s)
            else
              (let active1 = (if dict_get (ts_active s) (dedupe_key t) \<noteq> None
                              then dict_pop (dedupe_key t) (ts_active s) else ts_active s);
                   s1 = s\<lparr>ts_active := active1,
                         ts_tasks := dict_set (t_task_id t) t (ts_tasks s),
                         ts_known := dict_set (dedupe_key t) (t_task_id t) (ts_known s)\<rparr>;
                   s2 = (if \<not> is_terminal t
                         then s1\<lparr>ts_active := dict_set (dedupe_key t) (t_task_id t) (ts_active s1)\<rparr>
                         else s1)
               in (True, s2))))"

definition get_task :: "string \<Rightarrow> task_store \<Rightarrow> task option" where
  "get_task tid s = dict_get (ts_tasks s) tid"

definition save_task ::
  "task \<Rightarrow> task_status \<Rightarrow> string option \<Rightarrow> time option \<Rightarrow> (task_store, task) op" where
  "save_task t expected_status expected_claim_token expected_lease s =
     (case dict_get (ts_tasks s) (t_task_id t) of
        None \<Rightarrow> (Inl (KeyError (''unknown task_id: '' @ t_task_id t)), s)
      | Some previous \<Rightarrow>
          if t_status previous \<noteq> expected_status
          then (Inl (ValueError (''task '' @ t_task_id t @ '' changed from expected ''
                  @ status_value expected_status @ '' to '' @ status_value (t_status previous))), s)
          else if t_claim_token previous \<noteq> expected_claim_token
          then (Inl (ValueError (''task '' @ t_task_id t @ '' claim token is stale'')), s)
          else if expected_lease \<noteq> None \<and> t_lease_expires_at previous \<noteq> expected_lease
          then (Inl (ValueError (''task '' @ t_task_id t @ '' lease changed concurrently'')), s)
          else
            (let active1 = (if dict_get (ts_active s) (dedupe_key previous) = Some (t_task_id t)
                            then dict_pop (dedupe_key previous) (ts_active s) else ts_active s);
                 s1 = s\<lparr>ts_active := active1, ts_tasks := dict_set (t_task_id t) t (ts_tasks s)\<rparr>
             in if is_terminal t then (Inr t, s1)
                else
                  (case dict_get (ts_active s1) (dedupe_key t) of
                     Some active_id \<Rightarrow>
                       if active_id \<noteq> t_task_id t
                       then (Inl (ValueError (''active task already exists for dedupe key: ''
                               @ dedupe_key t)), s1)
                       else (Inr t, s1\<lparr>ts_active := dict_set (dedupe_key t) (t_task_id t) (ts_active s1)\<rparr>)
                   | None \<Rightarrow>
                       (Inr t, s1\<lparr>ts_active := dict_set (dedupe_key t) (t_task_id t) (ts_active s1)\<rparr>))))"

definition claim_task :: "nat \<Rightarrow> string \<Rightarrow> time \<Rightarrow> time \<Rightarrow> (task_store, task) op" where
  "claim_task uuid tid now lease_expires_at s =
     (case dict_get (ts_tasks s) tid of
        None \<Rightarrow> (Inl (KeyError (''unknown task_id: '' @ tid)), s)
      | Some current \<Rightarrow>
          if t_status current \<notin> {PENDING, DEFERRED}
          then (Inl (ValueError (''task '' @ tid @ '' is not claimable from ''
                  @ status_value (t_status current))), s)
          else if now < t_available_at current
          then (Inl (ValueError (''task '' @ tid @ '' is not available yet'')), s)
          else if t_max_attempts current \<le> t_attempts current
          then (Inl (ValueError (''task '' @ tid @ '' has exhausted its retry budget'')), s)
          else
            (let claimed = current\<lparr>t_attempts := t_attempts current + 1, t_started_at := Some now,
                   t_finished_at := None, t_status := RUNNING,
                   t_lease_expires_at := Some lease_expires_at,
                   t_claim_token := Some (new_claim_token uuid),
                   t_updated_at := now, t_last_error := None\<rparr>
             in (Inr claimed, s\<lparr>ts_tasks := dict_set tid claimed (ts_tasks s)\<rparr>)))"

subsection \<open>The ready list\<close>

definition runnable :: "time \<Rightarrow> task \<Rightarrow> bool" where
  "runnable now t \<longleftrightarrow> t_status t \<in> {PENDING, DEFERRED} \<and> t_available_at t \<le> now
     \<and> t_attempts t < t_max_attempts t"

definition priority_key :: "task \<Rightarrow> rat \<times> time \<times> time \<times> string" where
  "priority_key t = (- t_priority t, t_available_at t, t_created_at t, t_task_id t)"

definition fair_lane_limits :: "int \<Rightarrow> int \<times> int \<times> int \<times> int" where
  "fair_lane_limits limit =
     (if limit \<le> 0 then (0, 0, 0, 0)
      else let top = max 1 (limit div 2);
               oldest = (limit - top) div 2;
               exploration = (limit - top - oldest) div 2;
               tail = limit - top - oldest - exploration
           in (top, oldest, exploration, tail))"

definition exploration_text :: "task \<Rightarrow> string" where
  "exploration_text t =
     lower (join '' '' (filter (\<lambda>x. x \<noteq> [])
       [t_action t, case t_route_rule_id t of None \<Rightarrow> [] | Some r \<Rightarrow> r,
        case t_routing_reason t of None \<Rightarrow> [] | Some r \<Rightarrow> r]))"

definition fair_lanes :: "int \<Rightarrow> task list \<Rightarrow> task list list" where
  "fair_lanes limit candidates =
     (case fair_lane_limits limit of (top_count, oldest_count, exploration_count, tail_count) \<Rightarrow>
        [slice_to candidates top_count,
         slice_to (sort_key (\<lambda>t. (t_created_at t, t_task_id t)) candidates) oldest_count,
         slice_to (filter (\<lambda>t. contains ''exploration'' (exploration_text t)) candidates)
           exploration_count,
         slice_to (sort_key (\<lambda>t. (t_priority t, t_created_at t, t_task_id t)) candidates) tail_count,
         candidates])"

text \<open>The nested loop over the lanes: \<open>seen\<close> is the set of ids of \<open>selected\<close>.\<close>

fun take_lane :: "int \<Rightarrow> task list \<Rightarrow> task list \<Rightarrow> task list" where
  "take_lane limit selected [] = selected"
| "take_lane limit selected (t # lane) =
     (if t_task_id t \<in> set (map t_task_id selected) then take_lane limit selected lane
      else let selected' = selected @ [t]
           in if limit \<le> int (length selected') then selected'
              else take_lane limit selected' lane)"

fun take_lanes :: "int \<Rightarrow> task list \<Rightarrow> task list list \<Rightarrow> task list" where
  "take_lanes limit selected [] = selected"
| "take_lanes limit selected (lane # lanes) =
     (let selected' = take_lane limit selected lane
      in if limit \<le> int (length selected') then selected'
         else take_lanes limit selected' lanes)"

definition ready_tasks :: "time \<Rightarrow> int option \<Rightarrow> bool \<Rightarrow> task_store \<Rightarrow> task list" where
  "ready_tasks now limit fair s =
     (let candidates = sort_key priority_key (filter (runnable now) (dict_values (ts_tasks s)))
      in case limit of
           None \<Rightarrow> candidates
         | Some n \<Rightarrow> if fair then take_lanes n [] (fair_lanes n candidates)
                     else slice_to candidates n)"

definition next_ready_at :: "task_store \<Rightarrow> time option" where
  "next_ready_at s =
     (let values = map t_available_at
            (filter (\<lambda>t. t_status t \<in> {PENDING, DEFERRED} \<and> t_attempts t < t_max_attempts t)
              (dict_values (ts_tasks s)))
      in if values = [] then None else Some (Min (set values)))"

definition active_by_dedupe_key :: "string \<Rightarrow> task_store \<Rightarrow> task option \<times> task_store" where
  "active_by_dedupe_key k s =
     (case dict_get (ts_active s) k of
        None \<Rightarrow> (None, s)
      | Some tid \<Rightarrow>
          (case dict_get (ts_tasks s) tid of
             None \<Rightarrow> (None, s\<lparr>ts_active := dict_pop k (ts_active s)\<rparr>)
           | Some t \<Rightarrow>
               if is_terminal t then (None, s\<lparr>ts_active := dict_pop k (ts_active s)\<rparr>)
               else (Some t, s)))"

definition all_tasks :: "task_store \<Rightarrow> task list" where
  "all_tasks s = dict_values (ts_tasks s)"

subsection \<open>The store invariant, and the contract the store provides\<close>

definition store_inv :: "task_store \<Rightarrow> bool" where
  "store_inv s \<longleftrightarrow>
     dict_ok (ts_tasks s) \<and> dict_ok (ts_active s) \<and>
     (\<forall>tid t. dict_get (ts_tasks s) tid = Some t \<longrightarrow> t_task_id t = tid \<and> task_wf t) \<and>
     (\<forall>k tid. dict_get (ts_known s) k = Some tid \<longleftrightarrow>
        (\<exists>t. dict_get (ts_tasks s) tid = Some t \<and> dedupe_key t = k)) \<and>
     (\<forall>k tid. dict_get (ts_active s) k = Some tid \<longleftrightarrow>
        (\<exists>t. dict_get (ts_tasks s) tid = Some t \<and> dedupe_key t = k \<and> \<not> is_terminal t))"

lemma store_inv_empty: "store_inv empty_store"
  by (simp add: store_inv_def empty_store_def)

lemma store_invD:
  assumes "store_inv s"
  shows "dict_ok (ts_tasks s)" and "dict_ok (ts_active s)"
    and "dict_get (ts_tasks s) tid = Some t \<Longrightarrow> t_task_id t = tid"
    and "dict_get (ts_tasks s) tid = Some t \<Longrightarrow> task_wf t"
    and "dict_get (ts_known s) k = Some tid \<longleftrightarrow>
        (\<exists>t. dict_get (ts_tasks s) tid = Some t \<and> dedupe_key t = k)"
    and "dict_get (ts_active s) k = Some tid \<longleftrightarrow>
        (\<exists>t. dict_get (ts_tasks s) tid = Some t \<and> dedupe_key t = k \<and> \<not> is_terminal t)"
  using assms by (auto simp: store_inv_def)

lemma store_ids: "store_inv s \<Longrightarrow> map t_task_id (dict_values (ts_tasks s)) = map fst (ts_tasks s)"
  using store_invD(3) dict_mem_get[OF store_invD(1)] by fastforce

text \<open>One task per logical unit of work.\<close>

lemma store_inv_unique:
  assumes "store_inv s" and "dict_get (ts_tasks s) i = Some t" and "dict_get (ts_tasks s) j = Some u"
    and "dedupe_key t = dedupe_key u"
  shows "i = j"
  using store_invD(5)[OF assms(1)] assms(2-4) by (metis option.inject)

text \<open>The dictionary update a successful save performs.\<close>

definition with_task :: "task \<Rightarrow> task_store \<Rightarrow> task_store" where
  "with_task t s =
     s\<lparr>ts_tasks := dict_set (t_task_id t) t (ts_tasks s),
       ts_active := (if is_terminal t then dict_pop (dedupe_key t) (ts_active s)
                     else dict_set (dedupe_key t) (t_task_id t) (dict_pop (dedupe_key t) (ts_active s)))\<rparr>"

lemma get_with_task [store_simps]:
  "get_task i (with_task t s) = (if i = t_task_id t then Some t else get_task i s)"
  by (simp add: with_task_def get_task_def)

lemma with_task_inv:
  assumes inv: "store_inv s" and p: "get_task (t_task_id t) s = Some p"
    and dk: "dedupe_key t = dedupe_key p" and wf: "task_wf t" and live: "\<not> is_terminal p"
  shows "store_inv (with_task t s)"
proof -
  note d = store_invD[OF inv]
  have u: "j = t_task_id t" if "dict_get (ts_tasks s) j = Some x" "dedupe_key x = dedupe_key t" for j x
    using store_inv_unique[OF inv that(1)] p that(2) dk by (auto simp: get_task_def)
  have known: "dict_get (ts_known (with_task t s)) k = Some tid \<longleftrightarrow>
      (\<exists>x. dict_get (ts_tasks (with_task t s)) tid = Some x \<and> dedupe_key x = k)" for k tid
  proof (cases "tid = t_task_id t")
    case True
    with p dk d(5)[of k tid] show ?thesis by (simp add: with_task_def get_task_def)
  next
    case False
    with d(5)[of k tid] show ?thesis by (simp add: with_task_def)
  qed
  have active: "dict_get (ts_active (with_task t s)) k = Some tid \<longleftrightarrow>
      (\<exists>x. dict_get (ts_tasks (with_task t s)) tid = Some x \<and> dedupe_key x = k \<and> \<not> is_terminal x)" for k tid
  proof (cases "tid = t_task_id t")
    case True
    with p dk d(6)[of k tid] show ?thesis by (simp add: with_task_def get_task_def)
  next
    case False
    with u[of tid] d(6)[of k tid] show ?thesis by (simp add: with_task_def) blast
  qed
  have wfs: "t_task_id x = tid \<and> task_wf x" if "dict_get (ts_tasks (with_task t s)) tid = Some x" for tid x
    using that d(3)[of tid x] d(4)[of tid x] wf by (simp add: with_task_def split: if_splits)
  have oks: "dict_ok (ts_tasks (with_task t s))" "dict_ok (ts_active (with_task t s))"
    using d(1,2) by (simp_all add: with_task_def)
  show ?thesis unfolding store_inv_def using known active wfs oks by blast
qed

lemma save_task_hit:
  assumes inv: "store_inv s" and p: "get_task (t_task_id t) s = Some p"
    and dk: "dedupe_key t = dedupe_key p" and live: "\<not> is_terminal p"
    and l: "l = None \<or> l = t_lease_expires_at p"
  shows "save_task t (t_status p) (t_claim_token p) l s = (Inr t, with_task t s)"
proof -
  have a: "dict_get (ts_active s) (dedupe_key p) = Some (t_task_id t)"
    using store_invD(6)[OF inv] p live by (auto simp: get_task_def)
  show ?thesis
    using p dk l a by (auto simp: save_task_def get_task_def with_task_def Let_def)
qed

lemma save_task_stale:
  assumes p: "get_task (t_task_id t) s = Some p"
    and st: "t_status p \<noteq> st \<or> t_claim_token p \<noteq> c \<or> (l \<noteq> None \<and> t_lease_expires_at p \<noteq> l)"
  shows "\<exists>m. save_task t st c l s = (Inl (ValueError m), s)"
  using assms by (auto simp: save_task_def get_task_def)

definition task_version :: "task \<Rightarrow> task_status \<times> string option" where
  "task_version t = (t_status t, t_claim_token t)"

definition task_cas :: "task \<Rightarrow> task_status \<times> string option \<Rightarrow> (task_store, task) op" where
  "task_cas t v = save_task t (fst v) (snd v) None"

definition task_succ :: "task \<Rightarrow> task \<Rightarrow> bool" where
  "task_succ p t \<longleftrightarrow> t_task_id t = t_task_id p \<and> dedupe_key t = dedupe_key p \<and> task_wf t \<and> \<not> is_terminal p"

interpretation tasks: cas_store "\<lambda>s k. get_task k s" t_task_id task_version task_cas store_inv task_succ
proof unfold_locales
  fix s :: task_store and v p :: task
  assume "store_inv s" "get_task (t_task_id v) s = Some p" "task_succ p v"
  then show "fst (task_cas v (task_version p) s) = Inr v \<and> store_inv (snd (task_cas v (task_version p) s))
      \<and> (\<lambda>k. get_task k (snd (task_cas v (task_version p) s))) = (\<lambda>k. get_task k s)(t_task_id v \<mapsto> v)"
    by (auto simp: task_cas_def task_version_def task_succ_def save_task_hit with_task_inv get_with_task)
next
  fix s :: task_store and v p :: task and n
  assume "store_inv s" "get_task (t_task_id v) s = Some p" "task_version p \<noteq> n"
  then show "\<exists>e. task_cas v n s = (Inl e, s)"
    using save_task_stale[of v s p "fst n" "snd n" None]
    by (auto simp: task_cas_def task_version_def prod_eq_iff)
next
  fix s :: task_store and v :: task and n
  assume "store_inv s" "get_task (t_task_id v) s = None"
  then show "\<exists>e. task_cas v n s = (Inl e, s)"
    by (simp add: task_cas_def save_task_def get_task_def)
qed (auto simp: task_succ_def get_task_def store_invD)

end
