(* ===== verification/Task_Queue.thy ===== *)
theory Task_Queue
  imports Task_Store
begin

section \<open>The task queue (recon/core/queue.py: TaskQueue)\<close>

text \<open>
  The methods of \<open>TaskQueue\<close> over the store. A method reads the task, computes its successor through
  pydantic's validation and writes it with a compare-and-swap; \<open>now\<close> is the reading of \<open>utc_now()\<close>
  the method takes. Attribute assignment is validated too (\<open>validate_assignment=True\<close>), one
  assignment after the other.
\<close>

definition require_task :: "string \<Rightarrow> (task_store, task) op" where
  "require_task tid s =
     (case get_task tid s of
        None \<Rightarrow> (Inl (KeyError (''unknown task_id: '' @ tid)), s)
      | Some t \<Rightarrow> (Inr t, s))"

definition require_running :: "string \<Rightarrow> (task_store, task) op" where
  "require_running tid =
     bind_op (require_task tid) (\<lambda>t.
       lift_res (if t_status t \<noteq> RUNNING
                 then Inl (ValueError (''task '' @ tid @ '' is not RUNNING'')) else Inr t))"

definition require_claim_token :: "task \<Rightarrow> string \<Rightarrow> unit res" where
  "require_claim_token t claim_token =
     (let normalized = strip claim_token
      in if normalized = [] \<or> t_claim_token t \<noteq> Some normalized
         then Inl (ValueError (''task '' @ t_task_id t @ '' claim token is stale''))
         else Inr ())"

definition queue_enqueue :: "time \<Rightarrow> task \<Rightarrow> (task_store, bool) op" where
  "queue_enqueue now t =
     (if t_status t \<notin> {PENDING, DEFERRED}
      then lift_res (Inl (ValueError ''newly enqueued tasks must be PENDING or DEFERRED''))
      else bind_op (lift_res (validate_lifecycle (t\<lparr>t_updated_at := now\<rparr>)))
             (\<lambda>t'. \<lambda>s. let (inserted, s') = put_task t' s in (Inr inserted, s')))"

text \<open>Each \<open>enqueue\<close> of the loop takes its own reading \<open>clk k\<close>; an exception leaves the tasks inserted
  so far in the store.\<close>

fun queue_enqueue_many :: "(nat \<Rightarrow> time) \<Rightarrow> nat \<Rightarrow> task list \<Rightarrow> (task_store, nat) op" where
  "queue_enqueue_many clk k [] = lift_res (Inr 0)"
| "queue_enqueue_many clk k (t # ts) =
     bind_op (queue_enqueue (clk k) t) (\<lambda>b.
     bind_op (queue_enqueue_many clk (Suc k) ts) (\<lambda>n. lift_res (Inr (if b then Suc n else n))))"

definition queue_ready :: "time \<Rightarrow> int option \<Rightarrow> bool \<Rightarrow> task_store \<Rightarrow> task list res" where
  "queue_ready now limit fair s =
     (if (case limit of None \<Rightarrow> False | Some n \<Rightarrow> n < 1)
      then Inl (ValueError ''limit must be >= 1'')
      else Inr (ready_tasks now limit fair s))"

definition queue_claim :: "nat \<Rightarrow> time \<Rightarrow> string \<Rightarrow> timedelta \<Rightarrow> (task_store, task) op" where
  "queue_claim uuid now tid lease_for =
     (if lease_for \<le> 0 then lift_res (Inl (ValueError ''lease_for must be positive''))
      else claim_task uuid tid now (now + lease_for))"

definition queue_heartbeat ::
  "time \<Rightarrow> string \<Rightarrow> string \<Rightarrow> timedelta \<Rightarrow> (task_store, task) op" where
  "queue_heartbeat now tid claim_token lease_for =
     (if lease_for \<le> 0 then lift_res (Inl (ValueError ''lease_for must be positive''))
      else
        bind_op (require_task tid) (\<lambda>t.
        if t_status t \<noteq> RUNNING
        then lift_res (Inl (ValueError ''only RUNNING tasks can be heartbeated''))
        else
          bind_op (lift_res (require_claim_token t claim_token)) (\<lambda>_.
          bind_op (lift_res (validate_lifecycle (t\<lparr>t_lease_expires_at := Some (now + lease_for)\<rparr>))) (\<lambda>t1.
          bind_op (lift_res (validate_lifecycle (t1\<lparr>t_updated_at := now\<rparr>))) (\<lambda>t2.
            save_task t2 RUNNING (Some claim_token) None)))))"

definition finish_task ::
  "time \<Rightarrow> string \<Rightarrow> task_status \<Rightarrow> string option \<Rightarrow> bool \<Rightarrow> string option \<Rightarrow> (task_store, task) op" where
  "finish_task now tid status error require_run claim_token =
     (if status \<notin> TERMINAL_TASK_STATUSES
      then lift_res (Inl (ValueError ''_finish requires a terminal task status''))
      else
        bind_op (require_task tid) (\<lambda>t.
        if require_run \<and> t_status t \<noteq> RUNNING
        then lift_res (Inl (ValueError ''task must be RUNNING before completion''))
        else
          bind_op (lift_res
              (if require_run then
                 (case claim_token of
                    None \<Rightarrow> Inl (ValueError ''claim_token is required to complete a RUNNING task'')
                  | Some c \<Rightarrow> require_claim_token t c)
               else Inr ())) (\<lambda>_.
          if is_terminal t then lift_res (Inl (ValueError ''task is already terminal''))
          else
            bind_op (lift_res (validate_task
                ((case error of
                    None \<Rightarrow> t
                  | Some e \<Rightarrow> t\<lparr>t_last_error := opt_text (Some e)\<rparr>)
                 \<lparr>t_lease_expires_at := None, t_claim_token := None, t_status := status,
                  t_updated_at := now, t_finished_at := Some now\<rparr>))) (\<lambda>t'.
              save_task t' (t_status t) (t_claim_token t) None))))"

definition queue_succeed :: "time \<Rightarrow> string \<Rightarrow> string \<Rightarrow> (task_store, task) op" where
  "queue_succeed now tid claim_token = finish_task now tid SUCCEEDED None True (Some claim_token)"

definition queue_block :: "time \<Rightarrow> string \<Rightarrow> string \<Rightarrow> (task_store, task) op" where
  "queue_block now tid reason = finish_task now tid BLOCKED (Some reason) False None"

definition queue_cancel :: "time \<Rightarrow> string \<Rightarrow> string option \<Rightarrow> (task_store, task) op" where
  "queue_cancel now tid reason = finish_task now tid CANCELLED reason False None"

definition queue_fail ::
  "time \<Rightarrow> string \<Rightarrow> string \<Rightarrow> string \<Rightarrow> timedelta option \<Rightarrow> (task_store, task) op" where
  "queue_fail now tid claim_token error retry_delay =
     (let normalized_error = (if strip error = [] then ''unknown error'' else strip error) in
        bind_op (require_running tid) (\<lambda>t.
        bind_op (lift_res (require_claim_token t claim_token)) (\<lambda>_.
        bind_op (lift_res
            (case retry_delay of
               Some d \<Rightarrow>
                 if t_attempts t < t_max_attempts t then
                   (if d < 0 then Inl (ValueError ''retry_delay cannot be negative'')
                    else Inr (t\<lparr>t_status := DEFERRED, t_available_at := now + d,
                                t_started_at := None, t_finished_at := None\<rparr>))
                 else Inr (t\<lparr>t_status := FAILED, t_finished_at := Some now\<rparr>)
             | None \<Rightarrow> Inr (t\<lparr>t_status := FAILED, t_finished_at := Some now\<rparr>))) (\<lambda>t1.
        bind_op (lift_res (validate_task (t1\<lparr>t_last_error := Some normalized_error,
            t_lease_expires_at := None, t_claim_token := None, t_updated_at := now\<rparr>))) (\<lambda>t2.
          save_task t2 RUNNING (Some claim_token) None)))))"

definition queue_defer ::
  "time \<Rightarrow> string \<Rightarrow> timedelta \<Rightarrow> string option \<Rightarrow> (task_store, task) op" where
  "queue_defer now tid delay reason =
     (if delay < 0 then lift_res (Inl (ValueError ''delay cannot be negative''))
      else
        bind_op (require_task tid) (\<lambda>t.
        if t_status t \<notin> {PENDING, DEFERRED}
        then lift_res (Inl (ValueError ''only PENDING or DEFERRED tasks can be deferred''))
        else
          bind_op (lift_res (validate_lifecycle (t\<lparr>t_status := DEFERRED\<rparr>))) (\<lambda>t1.
          bind_op (lift_res (validate_lifecycle (t1\<lparr>t_available_at := now + delay\<rparr>))) (\<lambda>t2.
          bind_op (lift_res (validate_lifecycle (t2\<lparr>t_updated_at := now\<rparr>))) (\<lambda>t3.
          bind_op (lift_res
              (case reason of
                 None \<Rightarrow> Inr t3
               | Some r \<Rightarrow> if r = [] then Inr t3
                           else validate_lifecycle (t3\<lparr>t_last_error := opt_text (Some r)\<rparr>))) (\<lambda>t4.
            save_task t4 (t_status t) None None))))))"

definition queue_send_to_review :: "time \<Rightarrow> string \<Rightarrow> string \<Rightarrow> (task_store, task) op" where
  "queue_send_to_review now tid reason =
     bind_op (require_task tid) (\<lambda>t.
     if is_terminal t then lift_res (Inl (ValueError ''terminal tasks cannot be sent to review''))
     else
       bind_op (lift_res (validate_task (t\<lparr>t_lease_expires_at := None, t_claim_token := None,
           t_status := REVIEW, t_started_at := None, t_finished_at := None, t_updated_at := now,
           t_last_error := Some (if strip reason = [] then ''manual review required''
                                 else strip reason)\<rparr>))) (\<lambda>t'.
         save_task t' (t_status t) (t_claim_token t) None))"

definition queue_release_review :: "time \<Rightarrow> string \<Rightarrow> timedelta \<Rightarrow> (task_store, task) op" where
  "queue_release_review now tid delay =
     (if delay < 0 then lift_res (Inl (ValueError ''delay cannot be negative''))
      else
        bind_op (require_task tid) (\<lambda>t.
        if t_status t \<noteq> REVIEW then lift_res (Inl (ValueError ''only REVIEW tasks can be released''))
        else
          bind_op (lift_res (validate_lifecycle (t\<lparr>t_available_at := now + delay\<rparr>))) (\<lambda>t1.
          bind_op (lift_res (validate_lifecycle (t1\<lparr>t_updated_at := now\<rparr>))) (\<lambda>t2.
          bind_op (lift_res (validate_lifecycle (t2\<lparr>t_last_error := None\<rparr>))) (\<lambda>t3.
          bind_op (lift_res (validate_lifecycle
              (t3\<lparr>t_status := (if delay = 0 then PENDING else DEFERRED)\<rparr>))) (\<lambda>t4.
          bind_op (lift_res (validate_lifecycle (t4\<lparr>t_started_at := None\<rparr>))) (\<lambda>t5.
            save_task t5 REVIEW None None)))))))"

fun recover_loop :: "time \<Rightarrow> timedelta \<Rightarrow> task list \<Rightarrow> (task_store, task list) op" where
  "recover_loop now retry_delay [] s = (Inr [], s)"
| "recover_loop now retry_delay (t # ts) s =
     (if t_status t \<noteq> RUNNING \<or> t_lease_expires_at t = None
         \<or> (case t_lease_expires_at t of None \<Rightarrow> False | Some e \<Rightarrow> now < e)
      then recover_loop now retry_delay ts s
      else if t_claim_token t = None then (Inl AssertionError, s)
      else
        (let t1 = (if t_attempts t < t_max_attempts t
                   then t\<lparr>t_status := DEFERRED, t_started_at := None,
                          t_available_at := now + retry_delay, t_finished_at := None\<rparr>
                   else t\<lparr>t_status := FAILED, t_finished_at := Some now\<rparr>)
         in case validate_task (t1\<lparr>t_lease_expires_at := None, t_claim_token := None,
                   t_updated_at := now, t_last_error := Some ''worker lease expired''\<rparr>) of
              Inl e \<Rightarrow> (Inl e, s)
            | Inr t2 \<Rightarrow>
                (case save_task t2 RUNNING (t_claim_token t) (t_lease_expires_at t) s of
                   (Inl e, s') \<Rightarrow>
                     if is_value_error e then recover_loop now retry_delay ts s' else (Inl e, s')
                 | (Inr stored, s') \<Rightarrow>
                     (case recover_loop now retry_delay ts s' of
                        (Inl e, s'') \<Rightarrow> (Inl e, s'')
                      | (Inr rs, s'') \<Rightarrow> (Inr (stored # rs), s'')))))"

definition queue_recover_expired_leases :: "time \<Rightarrow> timedelta \<Rightarrow> (task_store, task list) op" where
  "queue_recover_expired_leases now retry_delay s =
     (if retry_delay < 0 then (Inl (ValueError ''retry_delay cannot be negative''), s)
      else recover_loop now retry_delay (all_tasks s) s)"

end
