(* ===== verification/Queue_Refinement.thy ===== *)
theory Queue_Refinement
  imports Task_Queue
begin

section \<open>The queue refines independent task state machines\<close>

text \<open>
  \<open>task_step\<close> specifies what the events of the queue do to one task; \<open>queue_refines\<close> shows that every
  method of \<open>TaskQueue\<close> applies its event to the task it names and to no other, keeps the store
  invariant, and raises without effect exactly when the specification refuses. \<open>recover_spec\<close> does
  the same for the crash-recovery sweep over all tasks.
\<close>

text \<open>
  The abstract specification: one task as a state machine. \<open>None\<close> is a refused event.
\<close>

datatype task_event =
    Claim nat timedelta
  | Heartbeat string timedelta
  | Succeed string
  | Fail string string "timedelta option"
  | Defer timedelta "string option"
  | Block string
  | Cancel "string option"
  | SendToReview string
  | ReleaseReview timedelta

fun task_step :: "time \<Rightarrow> task_event \<Rightarrow> task \<Rightarrow> task option" where
  "task_step now (Claim uuid l) t =
     (if 0 < l \<and> runnable now t
      then Some (t\<lparr>t_attempts := t_attempts t + 1, t_started_at := Some now, t_finished_at := None,
                   t_status := RUNNING, t_lease_expires_at := Some (now + l),
                   t_claim_token := Some (new_claim_token uuid), t_updated_at := now,
                   t_last_error := None\<rparr>)
      else None)"
| "task_step now (Heartbeat tok l) t =
     (if 0 < l \<and> t_status t = RUNNING \<and> t_claim_token t = Some tok
      then Some (t\<lparr>t_lease_expires_at := Some (now + l), t_updated_at := now\<rparr>) else None)"
| "task_step now (Succeed tok) t =
     (if t_status t = RUNNING \<and> t_claim_token t = Some (strip tok)
      then Some (t\<lparr>t_lease_expires_at := None, t_claim_token := None, t_status := SUCCEEDED,
                   t_updated_at := now, t_finished_at := Some now\<rparr>) else None)"
| "task_step now (Fail tok err d) t =
     (if t_status t = RUNNING \<and> t_claim_token t = Some tok
      then let e = (if strip err = [] then ''unknown error'' else strip err)
           in if d \<noteq> None \<and> t_attempts t < t_max_attempts t
              then if the d < 0 then None
                   else Some (t\<lparr>t_status := DEFERRED, t_available_at := now + the d,
                                t_started_at := None, t_finished_at := None,
                                t_last_error := Some e, t_lease_expires_at := None,
                                t_claim_token := None, t_updated_at := now\<rparr>)
              else Some (t\<lparr>t_status := FAILED, t_finished_at := Some now,
                           t_last_error := Some e, t_lease_expires_at := None,
                           t_claim_token := None, t_updated_at := now\<rparr>)
      else None)"
| "task_step now (Defer d r) t =
     (if 0 \<le> d \<and> t_status t \<in> {PENDING, DEFERRED}
      then Some (t\<lparr>t_status := DEFERRED, t_available_at := now + d, t_updated_at := now,
                   t_last_error := (if r = None \<or> r = Some [] then t_last_error t else opt_text r)\<rparr>)
      else None)"
| "task_step now (Block r) t =
     (if is_terminal t then None
      else Some (t\<lparr>t_last_error := opt_text (Some r), t_lease_expires_at := None,
                   t_claim_token := None, t_status := BLOCKED, t_updated_at := now,
                   t_finished_at := Some now\<rparr>))"
| "task_step now (Cancel r) t =
     (if is_terminal t then None
      else let t1 = (if r = None then t else t\<lparr>t_last_error := opt_text r\<rparr>)
           in Some (t1\<lparr>t_lease_expires_at := None, t_claim_token := None, t_status := CANCELLED,
                      t_updated_at := now, t_finished_at := Some now\<rparr>))"
| "task_step now (SendToReview r) t =
     (if is_terminal t then None
      else Some (t\<lparr>t_lease_expires_at := None, t_claim_token := None, t_status := REVIEW,
                   t_started_at := None, t_finished_at := None, t_updated_at := now,
                   t_last_error := Some (if strip r = [] then ''manual review required'' else strip r)\<rparr>))"
| "task_step now (ReleaseReview d) t =
     (if 0 \<le> d \<and> t_status t = REVIEW
      then Some (t\<lparr>t_available_at := now + d, t_updated_at := now, t_last_error := None,
                   t_status := (if d = 0 then PENDING else DEFERRED), t_started_at := None\<rparr>) else None)"

text \<open>The method of \<open>TaskQueue\<close> behind each event.\<close>

fun queue_apply :: "time \<Rightarrow> string \<Rightarrow> task_event \<Rightarrow> (task_store, task) op" where
  "queue_apply now tid (Claim uuid l) = queue_claim uuid now tid l"
| "queue_apply now tid (Heartbeat tok l) = queue_heartbeat now tid tok l"
| "queue_apply now tid (Succeed tok) = queue_succeed now tid tok"
| "queue_apply now tid (Fail tok err d) = queue_fail now tid tok err d"
| "queue_apply now tid (Defer d r) = queue_defer now tid d r"
| "queue_apply now tid (Block r) = queue_block now tid r"
| "queue_apply now tid (Cancel r) = queue_cancel now tid r"
| "queue_apply now tid (SendToReview r) = queue_send_to_review now tid r"
| "queue_apply now tid (ReleaseReview d) = queue_release_review now tid d"

lemma task_step_frame:
  "task_step now ev t = Some u \<Longrightarrow>
     t_task_id u = t_task_id t \<and> dedupe_key u = dedupe_key t \<and> \<not> is_terminal t"
  by (cases ev) (auto simp: is_terminal_def Let_def runnable_def split: if_splits)

lemma fields_ok_attempts: "fields_ok t \<Longrightarrow> 0 \<le> t_attempts t"
  by (simp add: fields_ok_def)

lemma task_step_fields: "task_step now ev t = Some u \<Longrightarrow> fields_ok t \<Longrightarrow> fields_ok u"
  by (cases ev) (auto simp: Let_def fields_ok_attempts split: if_splits)

lemma lifecycle_ok_running:
  "t_status t = RUNNING \<Longrightarrow> t_finished_at t = None \<Longrightarrow> t_attempts t \<le> t_max_attempts t
   \<Longrightarrow> t_started_at t \<noteq> None \<Longrightarrow> t_claim_token t \<noteq> None \<Longrightarrow> lifecycle_ok t"
  by (simp add: lifecycle_ok_def)

lemma lifecycle_ok_idle:
  "t_status t \<noteq> RUNNING \<Longrightarrow> t_lease_expires_at t = None \<Longrightarrow> t_claim_token t = None
   \<Longrightarrow> t_attempts t \<le> t_max_attempts t \<Longrightarrow> t_finished_at t = None \<or> is_terminal t \<Longrightarrow> lifecycle_ok t"
  by (auto simp add: lifecycle_ok_def is_terminal_def)

lemma lifecycle_okD:
  assumes "lifecycle_ok t"
  shows "t_attempts t \<le> t_max_attempts t"
    and "\<not> is_terminal t \<Longrightarrow> t_finished_at t = None"
    and "t_status t = RUNNING \<Longrightarrow> t_started_at t \<noteq> None"
    and "t_status t = RUNNING \<Longrightarrow> t_claim_token t \<noteq> None"
    and "t_status t \<noteq> RUNNING \<Longrightarrow> t_lease_expires_at t = None"
    and "t_status t \<noteq> RUNNING \<Longrightarrow> t_claim_token t = None"
  using assms unfolding lifecycle_ok_def is_terminal_def by blast+

lemma task_step_lifecycle:
  assumes st: "task_step now ev t = Some u" and ok: "lifecycle_ok t"
  shows "lifecycle_ok u"
proof -
  note d = lifecycle_okD[OF ok]
  have nt: "\<not> is_terminal t" using task_step_frame[OF st] by simp
  show ?thesis
  proof (cases "t_status u = RUNNING")
    case True
    show ?thesis
      by (rule lifecycle_ok_running[OF True])
        (use True st d nt in \<open>cases ev; auto simp: runnable_def Let_def split: if_splits\<close>)+
  next
    case False
    show ?thesis
      by (rule lifecycle_ok_idle[OF False])
        (use False st d nt in \<open>cases ev; auto simp: runnable_def is_terminal_def Let_def split: if_splits\<close>)+
  qed
qed

lemma task_step_wf: "task_step now ev t = Some u \<Longrightarrow> task_wf t \<Longrightarrow> task_wf u"
  using task_step_fields task_step_lifecycle by (auto simp: task_wf_def)

lemma task_step_succ: "task_step now ev t = Some u \<Longrightarrow> task_wf t \<Longrightarrow> task_succ t u"
  using task_step_frame task_step_wf by (auto simp: task_succ_def)

lemma tok_norm: "task_wf t \<Longrightarrow> t_claim_token t = Some c \<Longrightarrow> strip c = c \<and> c \<noteq> []"
  using opt_text_Some[of "Some c" c] by (simp add: task_wf_def fields_ok_def)

lemma require_claim_token_wf:
  "task_wf t \<Longrightarrow> require_claim_token t c = (if t_claim_token t = Some (strip c) then Inr ()
     else Inl (ValueError (''task '' @ t_task_id t @ '' claim token is stale'')))"
  using tok_norm[of t "strip c"] by (auto simp: require_claim_token_def Let_def)

lemma validate_task_ok: "task_wf u \<Longrightarrow> validate_task u = Inr u"
  by (rule task_wf_validate)

lemma validate_lifecycle_ok: "lifecycle_ok u \<Longrightarrow> validate_lifecycle u = Inr u"
  by (simp add: validate_lifecycle_iff)

lemma require_task_some: "get_task tid s = Some t \<Longrightarrow> require_task tid s = (Inr t, s)"
  by (simp add: require_task_def)

text \<open>A refused operation raises and leaves the state as it was.\<close>

definition refused :: "'s \<Rightarrow> 'a res \<times> 's \<Rightarrow> bool" where
  "refused s r \<longleftrightarrow> (\<exists>e. r = (Inl e, s))"

lemma refused_simps [simp]: "refused s (Inl e, s)" "\<not> refused s (Inr x, s')"
  by (simp_all add: refused_def)

lemma refused_lift [simp]: "refused s (lift_res r s) \<longleftrightarrow> (\<forall>x. r \<noteq> Inr x)"
  by (cases r) (simp_all add: refused_def)

lemma refused_bind_lift [simp]:
  "refused s (bind_op (lift_res r) k s) \<longleftrightarrow> (\<forall>x. r = Inr x \<longrightarrow> refused s (k x s))"
  by (cases r) simp_all

lemma bind_op_Some: "m s = (Inr x, u) \<Longrightarrow> bind_op m k s = k x u"
  by (simp add: bind_op_def)

lemma bind_require_task: "get_task tid s = Some t \<Longrightarrow> bind_op (require_task tid) k s = k t s"
  by (simp add: bind_op_Some require_task_some)

lemma bind_require_running:
  "get_task tid s = Some t \<Longrightarrow> t_status t = RUNNING \<Longrightarrow> bind_op (require_running tid) k s = k t s"
  by (simp add: bind_op_Some require_running_def bind_require_task)

lemma refused_require_running:
  "get_task tid s = Some t \<Longrightarrow> t_status t \<noteq> RUNNING \<Longrightarrow> refused s (bind_op (require_running tid) k s)"
  unfolding bind_op_def[of "require_running tid"] by (simp add: require_running_def bind_require_task)

lemmas queue_op_simps = bind_require_task bind_require_running refused_require_running

lemma validate_lifecycle_id: "validate_lifecycle t = Inr u \<Longrightarrow> u = t"
  by (simp add: validate_lifecycle_iff)

lemma validate_task_id: "validate_task t = Inr u \<Longrightarrow> t_task_id u = t_task_id t"
  by (auto simp: validate_task_def bind_res_Inr_iff validate_lifecycle_iff)

lemma save_refused:
  "get_task (t_task_id t) s = Some p \<Longrightarrow> t_status p \<noteq> st \<or> t_claim_token p \<noteq> c
   \<Longrightarrow> refused s (save_task t st c l s)"
  using save_task_stale[of t s p st c l] by (auto simp: refused_def)

lemma store_inv_cong:
  assumes "store_inv s" and "ts_tasks s' = ts_tasks s" and "ts_known s' = ts_known s"
    and "dict_ok (ts_active s')" and "dict_get (ts_active s') = dict_get (ts_active s)"
  shows "store_inv s'"
  using assms by (simp add: store_inv_def)

text \<open>
  Every method refines its event on the one task it names: it raises and leaves the store alone
  exactly when the specification refuses, and else returns and stores the specified successor.
\<close>

definition step_refined :: "task_store \<Rightarrow> task res \<times> task_store \<Rightarrow> task option \<Rightarrow> bool" where
  "step_refined s r spec \<longleftrightarrow>
     (case spec of
        None \<Rightarrow> refused s r
      | Some u \<Rightarrow> fst r = Inr u \<and> store_inv (snd r) \<and> ts_known (snd r) = ts_known s
          \<and> (\<forall>i. get_task i (snd r) = (if i = t_task_id u then Some u else get_task i s)))"

lemma step_refinedI:
  assumes "store_inv s" and t: "get_task tid s = Some t" and st: "task_step now ev t = Some u"
    and r: "r = (Inr u, with_task u s)"
  shows "step_refined s r (task_step now ev t)"
proof -
  have "task_wf t" and tid: "t_task_id t = tid"
    using store_invD[OF assms(1)] t by (auto simp: get_task_def)
  then have "store_inv (with_task u s)"
    using with_task_inv[OF assms(1), of u t] task_step_frame[OF st] task_step_wf[OF st] t by auto
  with st r show ?thesis by (simp add: step_refined_def get_with_task) (simp add: with_task_def)
qed

lemma step_saved:
  assumes "store_inv s" and "get_task tid s = Some t" and "task_step now ev t = Some u"
  shows "save_task u (t_status t) (t_claim_token t) None s = (Inr u, with_task u s)"
proof -
  have "t_task_id t = tid" using store_invD[OF assms(1)] assms(2) by (auto simp: get_task_def)
  then show ?thesis
    using save_task_hit[OF assms(1), of u t None] task_step_frame[OF assms(3)] assms(2) by simp
qed

lemma step_valid:
  assumes "store_inv s" and "get_task tid s = Some t" and "task_step now ev t = Some u"
  shows "validate_task u = Inr u" and "validate_lifecycle u = Inr u"
proof -
  have "task_wf t" using store_invD[OF assms(1)] assms(2) by (auto simp: get_task_def)
  then have "task_wf u" by (rule task_step_wf[OF assms(3)])
  then show "validate_task u = Inr u" and "validate_lifecycle u = Inr u"
    by (auto simp: task_wf_validate validate_lifecycle_iff task_wf_def)
qed

lemma step_refined_None: "step_refined s r None = refused s r"
  by (simp add: step_refined_def)

lemma claim_refined:
  assumes inv: "store_inv s" and t: "get_task tid s = Some t"
  shows "step_refined s (queue_claim uuid now tid l s) (task_step now (Claim uuid l) t)"
proof (cases "task_step now (Claim uuid l) t")
  case None
  with t show ?thesis
    by (auto simp: step_refined_None queue_claim_def claim_task_def get_task_def runnable_def split: if_splits)
next
  case (Some u)
  have tid: "t_task_id t = tid" using store_invD[OF inv] t by (auto simp: get_task_def)
  let ?s = "s\<lparr>ts_tasks := dict_set tid u (ts_tasks s)\<rparr>"
  have c: "queue_claim uuid now tid l s = (Inr u, ?s)"
    using Some t by (auto simp: queue_claim_def claim_task_def get_task_def runnable_def Let_def split: if_splits)
  have "step_refined s (Inr u, with_task u s) (task_step now (Claim uuid l) t)"
    by (rule step_refinedI[OF inv t Some refl])
  then have w: "store_inv (with_task u s)" unfolding Some by (simp add: step_refined_def)
  have nt: "\<not> is_terminal u" using Some by (auto simp: is_terminal_def split: if_splits)
  have u: "t_task_id u = tid" "dedupe_key u = dedupe_key t" using task_step_frame[OF Some] tid by auto
  have act: "dict_get (ts_active s) (dedupe_key u) = Some tid"
    using store_invD(6)[OF inv] t u task_step_frame[OF Some] by (auto simp: get_task_def)
  have "store_inv ?s"
    by (rule store_inv_cong[OF w])
      (use nt act u store_invD(2)[OF inv] in \<open>simp_all add: with_task_def fun_upd_idem\<close>)
  with u show ?thesis unfolding Some c by (simp add: step_refined_def) (simp add: get_task_def)
qed

lemma defer_refined:
  assumes inv: "store_inv s" and t: "get_task tid s = Some t"
  shows "step_refined s (queue_defer now tid d r s) (task_step now (Defer d r) t)"
proof (cases "task_step now (Defer d r) t")
  case None
  with t show ?thesis by (auto simp: step_refined_None queue_defer_def queue_op_simps split: if_splits)
next
  case (Some u)
  have wf: "task_wf t" using store_invD[OF inv] t by (auto simp: get_task_def)
  show ?thesis
    by (rule step_refinedI[OF inv t Some])
      (use Some t wf step_saved[OF inv t Some] in \<open>cases r; auto simp: queue_defer_def queue_op_simps
        validate_lifecycle_ok lifecycle_ok_def task_wf_def split: if_splits\<close>)
qed

lemma heartbeat_refined:
  assumes inv: "store_inv s" and t: "get_task tid s = Some t"
  shows "step_refined s (queue_heartbeat now tid tok l s) (task_step now (Heartbeat tok l) t)"
proof (cases "task_step now (Heartbeat tok l) t")
  case None
  have tid: "t_task_id t = tid" using store_invD[OF inv] t by (auto simp: get_task_def)
  show ?thesis
    unfolding None step_refined_None
    using None t tid
    by (auto simp: queue_heartbeat_def queue_op_simps dest!: validate_lifecycle_id
        intro!: save_refused split: if_splits)
next
  case (Some u)
  have wf: "task_wf t" using store_invD[OF inv] t by (auto simp: get_task_def)
  show ?thesis
    by (rule step_refinedI[OF inv t Some])
      (use Some t wf tok_norm[OF wf] step_saved[OF inv t Some] in \<open>auto simp: queue_heartbeat_def queue_op_simps
        validate_lifecycle_ok lifecycle_ok_def task_wf_def require_claim_token_wf[OF wf] split: if_splits\<close>)
qed

lemma fail_refined:
  assumes inv: "store_inv s" and t: "get_task tid s = Some t"
  shows "step_refined s (queue_fail now tid tok err d s) (task_step now (Fail tok err d) t)"
proof (cases "task_step now (Fail tok err d) t")
  case (Some u)
  have wf: "task_wf t" using store_invD[OF inv] t by (auto simp: get_task_def)
  have c: "t_status t = RUNNING" "t_claim_token t = Some tok" "strip tok = tok"
    using Some tok_norm[OF wf] by (auto split: if_splits)
  show ?thesis
    by (rule step_refinedI[OF inv t Some])
      (use Some c t step_saved[OF inv t Some] step_valid[OF inv t Some] in \<open>auto simp: queue_fail_def
        queue_op_simps require_claim_token_wf[OF wf] Let_def split: if_splits option.splits\<close>)
next
  case None
  have wf: "task_wf t" and tid: "t_task_id t = tid" using store_invD[OF inv] t by (auto simp: get_task_def)
  show ?thesis
  proof (cases "t_status t = RUNNING")
    case False
    with t show ?thesis unfolding None step_refined_None
      by (auto simp: queue_fail_def queue_op_simps Let_def)
  next
    case True
    then show ?thesis
      unfolding None step_refined_None
      using None t tid tok_norm[OF wf]
      by (auto simp: queue_fail_def queue_op_simps require_claim_token_wf[OF wf] Let_def
          dest!: validate_task_id intro!: save_refused split: if_splits option.splits)
  qed
qed


lemma finish_refined:
  assumes inv: "store_inv s" and t: "get_task tid s = Some t"
    and spec: "spec = task_step now ev t"
    and ok: "\<And>u. spec = Some u \<Longrightarrow>
      u = (case error of None \<Rightarrow> t | Some e \<Rightarrow> t\<lparr>t_last_error := opt_text (Some e)\<rparr>)
          \<lparr>t_lease_expires_at := None, t_claim_token := None, t_status := status,
           t_updated_at := now, t_finished_at := Some now\<rparr>
      \<and> (run \<longrightarrow> t_status t = RUNNING \<and> (\<exists>c. tok = Some c \<and> t_claim_token t = Some (strip c)))"
    and no: "spec = None \<Longrightarrow> is_terminal t
      \<or> run \<and> (t_status t \<noteq> RUNNING \<or> (\<forall>c. tok = Some c \<longrightarrow> t_claim_token t \<noteq> Some (strip c)))"
    and st: "status \<in> TERMINAL_TASK_STATUSES"
  shows "step_refined s (finish_task now tid status error run tok s) spec"
proof (cases spec)
  case None
  have wf: "task_wf t" using store_invD[OF inv] t by (auto simp: get_task_def)
  show ?thesis unfolding None step_refined_None
    using no[OF None] st t
    by (auto simp: finish_task_def queue_op_simps require_claim_token_wf[OF wf] split: if_splits option.splits)
next
  case (Some u)
  have wf: "task_wf t" using store_invD[OF inv] t by (auto simp: get_task_def)
  have step: "task_step now ev t = Some u" using Some spec by simp
  have live: "\<not> is_terminal t" using task_step_frame[OF step] by simp
  have "finish_task now tid status error run tok s = (Inr u, with_task u s)"
    using ok[OF Some] t st live step_saved[OF inv t step] step_valid[OF inv t step]
    by (auto simp: finish_task_def queue_op_simps require_claim_token_wf[OF wf] simp del: terminal_iff)
  then show ?thesis unfolding spec by (rule step_refinedI[OF inv t step])
qed

lemma succeed_refined:
  assumes "store_inv s" and "get_task tid s = Some t"
  shows "step_refined s (queue_succeed now tid tok s) (task_step now (Succeed tok) t)"
  unfolding queue_succeed_def
  by (rule finish_refined[OF assms refl]) (auto simp: is_terminal_def split: if_splits)

lemma block_refined:
  assumes "store_inv s" and "get_task tid s = Some t"
  shows "step_refined s (queue_block now tid r s) (task_step now (Block r) t)"
  unfolding queue_block_def
  by (rule finish_refined[OF assms refl]) (auto split: if_splits)

lemma cancel_refined:
  assumes "store_inv s" and "get_task tid s = Some t"
  shows "step_refined s (queue_cancel now tid r s) (task_step now (Cancel r) t)"
  unfolding queue_cancel_def
  by (rule finish_refined[OF assms refl]) (auto simp: Let_def split: if_splits option.splits)

lemma review_refined:
  assumes inv: "store_inv s" and t: "get_task tid s = Some t"
  shows "step_refined s (queue_send_to_review now tid r s) (task_step now (SendToReview r) t)"
proof (cases "task_step now (SendToReview r) t")
  case None
  with t show ?thesis
    by (auto simp: step_refined_None queue_send_to_review_def queue_op_simps split: if_splits)
next
  case (Some u)
  show ?thesis
    by (rule step_refinedI[OF inv t Some])
      (use Some t step_saved[OF inv t Some] step_valid[OF inv t Some] in
        \<open>auto simp: queue_send_to_review_def queue_op_simps split: if_splits\<close>)
qed

lemma release_refined:
  assumes inv: "store_inv s" and t: "get_task tid s = Some t"
  shows "step_refined s (queue_release_review now tid d s) (task_step now (ReleaseReview d) t)"
proof (cases "task_step now (ReleaseReview d) t")
  case None
  with t show ?thesis
    by (auto simp: step_refined_None queue_release_review_def queue_op_simps split: if_splits)
next
  case (Some u)
  have wf: "task_wf t" using store_invD[OF inv] t by (auto simp: get_task_def)
  show ?thesis
    by (rule step_refinedI[OF inv t Some])
      (use Some t wf step_saved[OF inv t Some] in \<open>auto simp: queue_release_review_def queue_op_simps
        validate_lifecycle_ok lifecycle_ok_def task_wf_def split: if_splits\<close>)
qed

theorem queue_refines:
  assumes "store_inv s" and "get_task tid s = Some t"
  shows "step_refined s (queue_apply now tid ev s) (task_step now ev t)"
  using assms
  by (cases ev) (simp_all only: queue_apply.simps claim_refined heartbeat_refined succeed_refined
      fail_refined defer_refined block_refined cancel_refined review_refined release_refined)

lemma queue_unknown:
  "get_task tid s = None \<Longrightarrow> refused s (queue_apply now tid ev s)"
  by (cases ev) (auto simp: queue_claim_def claim_task_def queue_heartbeat_def queue_succeed_def queue_fail_def
    queue_defer_def queue_block_def queue_cancel_def queue_send_to_review_def queue_release_review_def
    finish_task_def require_running_def require_task_def bind_op_def get_task_def Let_def)

declare task_step.simps [simp del]

subsection \<open>Insertion\<close>

lemma put_task_new:
  assumes inv: "store_inv s" and new: "dict_get (ts_known s) (dedupe_key t) = None"
  shows "put_task t s = (True, s\<lparr>ts_active := (if is_terminal t then ts_active s
            else dict_set (dedupe_key t) (t_task_id t) (ts_active s)),
          ts_tasks := dict_set (t_task_id t) t (ts_tasks s),
          ts_known := dict_set (dedupe_key t) (t_task_id t) (ts_known s)\<rparr>)"
proof -
  have "dict_get (ts_active s) (dedupe_key t) = None"
    using store_invD(5,6)[OF inv, of "dedupe_key t"] new by (metis option.exhaust option.distinct(1))
  with new show ?thesis by (simp add: put_task_def)
qed

lemma put_task_known: "dict_get (ts_known s) (dedupe_key t) \<noteq> None \<Longrightarrow> put_task t s = (False, s)"
  by (simp add: put_task_def)

lemma put_task_inv:
  assumes inv: "store_inv s" and wf: "task_wf t" and fresh: "get_task (t_task_id t) s = None"
  shows "store_inv (snd (put_task t s))"
proof (cases "dict_get (ts_known s) (dedupe_key t)")
  case (Some i)
  then show ?thesis using inv by (simp add: put_task_known)
next
  case None
  note d = store_invD[OF inv]
  have nodup: "dedupe_key x \<noteq> dedupe_key t" if "dict_get (ts_tasks s) i = Some x" for i x
    using d(5)[of "dedupe_key t" i] None that by auto
  let ?s = "snd (put_task t s)"
  have known: "dict_get (ts_known ?s) k = Some tid \<longleftrightarrow>
      (\<exists>x. dict_get (ts_tasks ?s) tid = Some x \<and> dedupe_key x = k)" for k tid
    using d(5)[of k tid] fresh nodup[of tid] by (auto simp: put_task_new[OF inv None] get_task_def)
  have active: "dict_get (ts_active ?s) k = Some tid \<longleftrightarrow>
      (\<exists>x. dict_get (ts_tasks ?s) tid = Some x \<and> dedupe_key x = k \<and> \<not> is_terminal x)" for k tid
    using d(6)[of k tid] fresh nodup[of tid] by (auto simp: put_task_new[OF inv None] get_task_def)
  have wfs: "t_task_id x = tid \<and> task_wf x" if "dict_get (ts_tasks ?s) tid = Some x" for tid x
    using that d(3)[of tid x] d(4)[of tid x] wf by (simp add: put_task_new[OF inv None] split: if_splits)
  have oks: "dict_ok (ts_tasks ?s)" "dict_ok (ts_active ?s)"
    using d(1,2) by (simp_all add: put_task_new[OF inv None])
  show ?thesis unfolding store_inv_def using known active wfs oks by blast
qed

lemma enqueue_result:
  assumes wf: "task_wf t"
  shows "queue_enqueue now t s =
    (if t_status t \<in> {PENDING, DEFERRED}
     then (Inr (fst (put_task (t\<lparr>t_updated_at := now\<rparr>) s)), snd (put_task (t\<lparr>t_updated_at := now\<rparr>) s))
     else (Inl (ValueError ''newly enqueued tasks must be PENDING or DEFERRED''), s))"
  using wf by (auto simp: queue_enqueue_def validate_lifecycle_ok lifecycle_ok_def task_wf_def split: prod.splits)

lemma enqueue_inv:
  assumes "store_inv s" and wf: "task_wf t" and "get_task (t_task_id t) s = None"
  shows "store_inv (snd (queue_enqueue now t s))"
proof -
  have "task_wf (t\<lparr>t_updated_at := now\<rparr>)" using wf by (simp add: task_wf_def lifecycle_ok_def)
  then show ?thesis using assms put_task_inv[of s "t\<lparr>t_updated_at := now\<rparr>"]
    by (simp add: enqueue_result[OF wf])
qed

subsection \<open>Lease recovery\<close>

definition expired :: "time \<Rightarrow> task \<Rightarrow> bool" where
  "expired now t \<longleftrightarrow> t_status t = RUNNING \<and> (\<exists>e. t_lease_expires_at t = Some e \<and> e \<le> now)"

definition expire_task :: "time \<Rightarrow> timedelta \<Rightarrow> task \<Rightarrow> task" where
  "expire_task now d t =
     (if t_attempts t < t_max_attempts t
      then t\<lparr>t_status := DEFERRED, t_started_at := None, t_available_at := now + d, t_finished_at := None\<rparr>
      else t\<lparr>t_status := FAILED, t_finished_at := Some now\<rparr>)
     \<lparr>t_lease_expires_at := None, t_claim_token := None, t_updated_at := now,
      t_last_error := Some ''worker lease expired''\<rparr>"

lemma expire_task_frame [simp]:
  "t_task_id (expire_task now d t) = t_task_id t"
  "dedupe_key (expire_task now d t) = dedupe_key t"
  "\<not> expired now' (expire_task now d t)"
  "t_claim_token (expire_task now d t) = None"
  "t_attempts (expire_task now d t) = t_attempts t"
  "t_max_attempts (expire_task now d t) = t_max_attempts t"
  by (simp_all add: expire_task_def expired_def)

lemma expire_task_wf: "task_wf t \<Longrightarrow> expired now t \<Longrightarrow> task_wf (expire_task now d t)"
  by (auto simp: task_wf_def expired_def lifecycle_ok_def expire_task_def)

lemma recover_loop_Cons:
  "recover_loop now d (t # ts) s =
     (if \<not> expired now t then recover_loop now d ts s
      else if t_claim_token t = None then (Inl AssertionError, s)
      else case validate_task (expire_task now d t) of
             Inl e \<Rightarrow> (Inl e, s)
           | Inr t2 \<Rightarrow>
               (case save_task t2 RUNNING (t_claim_token t) (t_lease_expires_at t) s of
                  (Inl e, s') \<Rightarrow>
                    if is_value_error e then recover_loop now d ts s' else (Inl e, s')
                | (Inr stored, s') \<Rightarrow>
                    (case recover_loop now d ts s' of
                       (Inl e, s'') \<Rightarrow> (Inl e, s'')
                     | (Inr rs, s'') \<Rightarrow> (Inr (stored # rs), s''))))"
proof -
  have c: "(t_status t \<noteq> RUNNING \<or> t_lease_expires_at t = None
      \<or> (case t_lease_expires_at t of None \<Rightarrow> False | Some e \<Rightarrow> now < e)) \<longleftrightarrow> \<not> expired now t"
    by (auto simp: expired_def split: option.splits)
  show ?thesis by (simp only: recover_loop.simps Let_def expire_task_def c)
qed

declare recover_loop.simps(2) [simp del]

lemma recover_loop_spec:
  assumes "store_inv s" and "distinct (map t_task_id ts)"
    and "\<forall>t \<in> set ts. get_task (t_task_id t) s = Some t"
  shows "\<exists>s'. recover_loop now d ts s = (Inr (map (expire_task now d) (filter (expired now) ts)), s')
     \<and> store_inv s' \<and> ts_known s' = ts_known s
     \<and> (\<forall>i. get_task i s' = map_option (\<lambda>t. if t \<in> set ts \<and> expired now t then expire_task now d t else t)
              (get_task i s))"
  using assms
proof (induction ts arbitrary: s)
  case Nil
  then show ?case by (simp add: option.map_ident)
next
  case (Cons t ts)
  have cur: "get_task (t_task_id t) s = Some t" using Cons.prems(3) by simp
  show ?case
  proof (cases "expired now t")
    case False
    then have skip: "recover_loop now d (t # ts) s = recover_loop now d ts s"
      by (simp add: recover_loop_Cons)
    obtain s' where s': "recover_loop now d ts s = (Inr (map (expire_task now d) (filter (expired now) ts)), s')"
      "store_inv s'" "ts_known s' = ts_known s"
      "\<forall>i. get_task i s' = map_option (\<lambda>t. if t \<in> set ts \<and> expired now t then expire_task now d t else t)
              (get_task i s)"
      using Cons.IH[of s] Cons.prems by auto
    show ?thesis
      using s' False skip by (auto intro!: exI[of _ s'] map_option_cong)
  next
    case True
    let ?u = "expire_task now d t" and ?s = "with_task (expire_task now d t) s"
    have wf: "task_wf t" using store_invD(4)[OF Cons.prems(1)] cur by (auto simp: get_task_def)
    have live: "\<not> is_terminal t" "t_status t = RUNNING" using True by (auto simp: expired_def is_terminal_def)
    obtain c where tok: "t_claim_token t = Some c" using wf live by (auto simp: task_wf_def lifecycle_ok_def)
    have inv': "store_inv ?s"
      by (rule with_task_inv[OF Cons.prems(1)]) (use cur wf True live expire_task_wf in auto)
    have saved: "save_task ?u RUNNING (t_claim_token t) (t_lease_expires_at t) s = (Inr ?u, ?s)"
      using save_task_hit[OF Cons.prems(1), of ?u t "t_lease_expires_at t"] cur live by simp
    have valid: "validate_task ?u = Inr ?u"
      by (rule task_wf_validate) (rule expire_task_wf[OF wf True])
    have go: "recover_loop now d (t # ts) s =
       (case recover_loop now d ts ?s of (Inl e, s'') \<Rightarrow> (Inl e, s'') | (Inr rs, s'') \<Rightarrow> (Inr (?u # rs), s''))"
      using saved by (simp add: recover_loop_Cons True tok valid)
    have cur': "\<forall>x\<in>set ts. get_task (t_task_id x) ?s = Some x"
    proof
      fix x
      assume x: "x \<in> set ts"
      have "t_task_id t \<notin> t_task_id ` set ts" using Cons.prems(2) by simp
      with x have "t_task_id x \<noteq> t_task_id t" by (metis imageI)
      with Cons.prems(3) x show "get_task (t_task_id x) ?s = Some x" by (simp add: get_with_task)
    qed
    obtain s' where s': "recover_loop now d ts ?s = (Inr (map (expire_task now d) (filter (expired now) ts)), s')"
      "store_inv s'" "ts_known s' = ts_known ?s"
      "\<forall>i. get_task i s' = map_option (\<lambda>t. if t \<in> set ts \<and> expired now t then expire_task now d t else t)
              (get_task i ?s)"
      using Cons.IH[OF inv' _ cur'] Cons.prems(2) by auto
    have "get_task i s' = map_option (\<lambda>x. if x \<in> set (t # ts) \<and> expired now x then expire_task now d x else x)
        (get_task i s)" for i
    proof (cases "i = t_task_id t")
      case True
      with s'(4) cur \<open>expired now t\<close> show ?thesis by (simp add: get_with_task)
    next
      case False
      then have "x \<noteq> t" if "get_task i s = Some x" for x
        using that store_invD(3)[OF Cons.prems(1)] by (auto simp: get_task_def)
      with False s'(4) show ?thesis by (auto simp: get_with_task intro!: map_option_cong)
    qed
    moreover have "recover_loop now d (t # ts) s
        = (Inr (map (expire_task now d) (filter (expired now) (t # ts))), s')"
      using go s'(1) True by simp
    moreover have "ts_known s' = ts_known s" using s'(3) by (simp add: with_task_def)
    ultimately show ?thesis using s'(2) by blast
  qed
qed

theorem recover_spec:
  assumes inv: "store_inv s" and d: "0 \<le> d"
  shows "\<exists>s'. queue_recover_expired_leases now d s =
       (Inr (map (expire_task now d) (filter (expired now) (all_tasks s))), s')
     \<and> store_inv s' \<and> ts_known s' = ts_known s
     \<and> (\<forall>i. get_task i s' = map_option (\<lambda>t. if expired now t then expire_task now d t else t) (get_task i s))"
proof -
  note dd = store_invD[OF inv]
  have mem: "t \<in> set (all_tasks s) \<longleftrightarrow> get_task (t_task_id t) s = Some t" for t
    using dict_values_get[OF dd(1), of t] dd(3) by (auto simp: all_tasks_def get_task_def)
  have "map t_task_id (all_tasks s) = map fst (ts_tasks s)"
    unfolding all_tasks_def by (rule store_ids[OF inv])
  with dd(1) have dist: "distinct (map t_task_id (all_tasks s))" by simp
  have all: "t \<in> set (all_tasks s)" if "get_task i s = Some t" for i t
    using that mem dd(3) by (auto simp: get_task_def)
  from recover_loop_spec[OF inv dist, of now d] mem
  obtain s' where "recover_loop now d (all_tasks s) s =
      (Inr (map (expire_task now d) (filter (expired now) (all_tasks s))), s')"
    "store_inv s'" "ts_known s' = ts_known s"
    "\<forall>i. get_task i s' = map_option (\<lambda>t. if t \<in> set (all_tasks s) \<and> expired now t then expire_task now d t else t)
              (get_task i s)" by blast
  moreover from this(4) have "\<forall>i. get_task i s' = map_option (\<lambda>t. if expired now t then expire_task now d t else t)
              (get_task i s)"
    using all by (auto intro!: map_option_cong)
  ultimately show ?thesis using d by (auto simp: queue_recover_expired_leases_def)
qed

end
