(* ===== verification/Queue_Machine.thy ===== *)
theory Queue_Machine
  imports Queue_Refinement
begin

section \<open>Every run of the queue\<close>

text \<open>
  The queue as a transition system over the store, reachable stores, and the guarantees that hold in
  all of them: the store invariant, one task per logical unit of work, terminal states that stay,
  bounded attempts, and fencing of workers whose claim was lost. Then the ready list the scheduler
  reads: sound, complete, ordered, and fair to the oldest task.
\<close>

text \<open>
  \<open>U\<close> is the set of random numbers that claims may draw for their tokens. Enqueued tasks are values of
  the class \<open>Task\<close> under a fresh id.
\<close>

inductive queue_step :: "nat set \<Rightarrow> task_store \<Rightarrow> task_store \<Rightarrow> bool" for U where
  enqueue: "task_wf t \<Longrightarrow> get_task (t_task_id t) s = None \<Longrightarrow>
     queue_step U s (snd (queue_enqueue now t s))"
| event: "(\<And>uuid l. ev = Claim uuid l \<Longrightarrow> uuid \<in> U) \<Longrightarrow>
     queue_step U s (snd (queue_apply now tid ev s))"
| recover: "queue_step U s (snd (queue_recover_expired_leases now d s))"

inductive queue_reachable :: "task_store \<Rightarrow> bool" where
  start: "queue_reachable empty_store"
| step: "queue_reachable s \<Longrightarrow> queue_step UNIV s s' \<Longrightarrow> queue_reachable s'"

text \<open>What an event does to any task of the store, named by it or not.\<close>

lemma apply_cases:
  assumes inv: "store_inv s"
  obtains (refused) "snd (queue_apply now tid ev s) = s"
  | (stepped) t u where "get_task tid s = Some t" and "task_step now ev t = Some u"
      and "t_task_id u = tid" and "store_inv (snd (queue_apply now tid ev s))"
      and "ts_known (snd (queue_apply now tid ev s)) = ts_known s"
      and "\<And>i. get_task i (snd (queue_apply now tid ev s)) = (if i = tid then Some u else get_task i s)"
proof (cases "get_task tid s")
  case None
  from queue_unknown[OF None, of now ev] show ?thesis by (intro refused) (auto simp: refused_def)
next
  case (Some t)
  note r = queue_refines[OF inv Some, of now ev]
  show ?thesis
  proof (cases "task_step now ev t")
    case None
    with r show ?thesis by (intro refused) (auto simp: step_refined_def refused_def)
  next
    case (Some u)
    have "t_task_id t = tid" using store_invD[OF inv] \<open>get_task tid s = Some t\<close> by (auto simp: get_task_def)
    then have id: "t_task_id u = tid" using task_step_frame[OF Some] by simp
    show ?thesis
      by (rule stepped[OF \<open>get_task tid s = Some t\<close> Some id])
        (use r id Some in \<open>auto simp: step_refined_def\<close>)
  qed
qed

lemma recover_cases:
  assumes inv: "store_inv s"
  obtains (refused) "snd (queue_recover_expired_leases now d s) = s"
  | (stepped) "store_inv (snd (queue_recover_expired_leases now d s))"
      and "ts_known (snd (queue_recover_expired_leases now d s)) = ts_known s"
      and "\<And>i. get_task i (snd (queue_recover_expired_leases now d s))
           = map_option (\<lambda>t. if expired now t then expire_task now d t else t) (get_task i s)"
proof (cases "d < 0")
  case True
  then show ?thesis by (intro refused) (simp add: queue_recover_expired_leases_def)
next
  case False
  then obtain s' where "queue_recover_expired_leases now d s =
       (Inr (map (expire_task now d) (filter (expired now) (all_tasks s))), s')"
     "store_inv s'" "ts_known s' = ts_known s"
     "\<forall>i. get_task i s' = map_option (\<lambda>t. if expired now t then expire_task now d t else t) (get_task i s)"
    using recover_spec[OF inv, of d now] by auto
  then show ?thesis by (intro stepped) auto
qed

lemma queue_step_inv: "queue_step U s s' \<Longrightarrow> store_inv s \<Longrightarrow> store_inv s'"
proof (induction rule: queue_step.induct)
  case (enqueue t s now)
  then show ?case by (simp add: enqueue_inv)
next
  case (event ev s now tid)
  show ?case by (rule apply_cases[OF event(2), of now tid ev]) (use event(2) in auto)
next
  case (recover s now d)
  show ?case by (rule recover_cases[OF recover, of now d]) (use recover in auto)
qed

lemma queue_steps_inv: "(queue_step U)\<^sup>*\<^sup>* s s' \<Longrightarrow> store_inv s \<Longrightarrow> store_inv s'"
  by (induction rule: rtranclp_induct) (auto intro: queue_step_inv)

lemma queue_reachable_inv: "queue_reachable s \<Longrightarrow> store_inv s"
  by (induction rule: queue_reachable.induct) (auto simp: store_inv_empty intro: queue_step_inv)

text \<open>How one step can change one task; no step removes a task.\<close>

definition task_moves :: "nat set \<Rightarrow> task \<Rightarrow> task \<Rightarrow> bool" where
  "task_moves U t u \<longleftrightarrow> u = t
     \<or> (\<exists>now ev. task_step now ev t = Some u \<and> (\<forall>uuid l. ev = Claim uuid l \<longrightarrow> uuid \<in> U))
     \<or> (\<exists>now d. expired now t \<and> u = expire_task now d t)"

lemma get_put_other:
  "store_inv s \<Longrightarrow> get_task (t_task_id t) s = None \<Longrightarrow> get_task i s = Some x
   \<Longrightarrow> get_task i (snd (put_task t s)) = Some x"
  by (cases "dict_get (ts_known s) (dedupe_key t)") (auto simp: put_task_known put_task_new get_task_def)

lemma queue_step_moves:
  assumes step: "queue_step U s s'" and inv: "store_inv s" and t: "get_task i s = Some t"
  shows "\<exists>u. get_task i s' = Some u \<and> task_moves U t u"
  using step
proof cases
  case (enqueue x now)
  then have "get_task i s' = Some t"
    using get_put_other[OF inv, of "x\<lparr>t_updated_at := now\<rparr>" i t] t by (simp add: enqueue_result)
  then show ?thesis by (auto simp: task_moves_def)
next
  case (event ev now tid)
  show ?thesis
  proof (rule apply_cases[OF inv, of now tid ev])
    assume "snd (queue_apply now tid ev s) = s"
    with event(1) t show ?thesis by (auto simp: task_moves_def)
  next
    fix t0 u
    assume "get_task tid s = Some t0" "task_step now ev t0 = Some u" "t_task_id u = tid"
      "\<And>i. get_task i (snd (queue_apply now tid ev s)) = (if i = tid then Some u else get_task i s)"
    with event t show ?thesis unfolding task_moves_def by (cases "i = tid") auto
  qed
next
  case (recover now d)
  show ?thesis
    by (rule recover_cases[OF inv, of now d]) (use recover t in \<open>auto simp: task_moves_def\<close>)
qed

lemma task_moves_terminal: "task_moves U t u \<Longrightarrow> is_terminal t \<Longrightarrow> u = t"
  using task_step_frame by (auto simp: task_moves_def expired_def is_terminal_def)

lemma task_moves_key: "task_moves U t u \<Longrightarrow> dedupe_key u = dedupe_key t \<and> t_task_id u = t_task_id t"
  using task_step_frame by (auto simp: task_moves_def)

text \<open>Only a claim installs a token, and it installs the one it drew.\<close>

lemma task_step_token:
  "task_step now ev t = Some u \<Longrightarrow> t_claim_token u = t_claim_token t \<or> t_claim_token u = None
     \<or> (\<exists>uuid l. ev = Claim uuid l \<and> t_claim_token u = Some (new_claim_token uuid))"
  by (cases ev) (auto simp: task_step.simps Let_def split: if_splits)

lemma task_step_attempts:
  "task_step now ev t = Some u \<Longrightarrow> t_max_attempts u = t_max_attempts t
     \<and> t_attempts u = t_attempts t + (case ev of Claim _ _ \<Rightarrow> 1 | _ \<Rightarrow> 0)"
  by (cases ev) (auto simp: task_step.simps Let_def split: if_splits)

lemma queue_steps_terminal:
  assumes "(queue_step U)\<^sup>*\<^sup>* s s'" and "store_inv s" and "get_task i s = Some t" and "is_terminal t"
  shows "get_task i s' = Some t"
  using assms(1)
proof (induction rule: rtranclp_induct)
  case base
  show ?case by (rule assms(3))
next
  case (step y z)
  then have "store_inv y" using queue_steps_inv[OF step(1) assms(2)] by simp
  with step queue_step_moves[of U y z i t] task_moves_terminal[of U t] assms(4) show ?case by auto
qed

lemma queue_steps_token:
  assumes "(queue_step {n. new_claim_token n \<noteq> tok})\<^sup>*\<^sup>* s s'" and "store_inv s"
    and "get_task i s = Some t" and "t_claim_token t \<noteq> Some tok"
  shows "\<exists>u. get_task i s' = Some u \<and> t_claim_token u \<noteq> Some tok"
  using assms(1)
proof (induction rule: rtranclp_induct)
  case base
  show ?case using assms(3,4) by auto
next
  case (step y z)
  then obtain u where u: "get_task i y = Some u" "t_claim_token u \<noteq> Some tok" by auto
  have "store_inv y" using queue_steps_inv[OF step(1) assms(2)] .
  from queue_step_moves[OF step(2) this u(1)]
  obtain v where v: "get_task i z = Some v" "task_moves {n. new_claim_token n \<noteq> tok} u v" by auto
  have "t_claim_token v \<noteq> Some tok"
    using v(2) u(2) unfolding task_moves_def by (auto dest: task_step_token)
  with v show ?case by auto
qed

text \<open>A worker whose token is not the current one can neither renew nor finish the task.\<close>

lemma stale_token_refused:
  assumes inv: "store_inv s" and t: "get_task tid s = Some t"
    and tok: "t_claim_token t \<noteq> Some tok" and norm: "strip tok = tok"
  shows "refused s (queue_heartbeat now tid tok l s)" and "refused s (queue_succeed now tid tok s)"
    and "refused s (queue_fail now tid tok err d s)"
proof -
  have *: "task_step now (Heartbeat tok l) t = None" "task_step now (Succeed tok) t = None"
    "task_step now (Fail tok err d) t = None"
    using tok norm by (simp_all add: task_step.simps)
  show "refused s (queue_heartbeat now tid tok l s)"
    using heartbeat_refined[OF inv t, of now tok l] by (simp add: * step_refined_None)
  show "refused s (queue_succeed now tid tok s)"
    using succeed_refined[OF inv t, of now tok] by (simp add: * step_refined_None)
  show "refused s (queue_fail now tid tok err d s)"
    using fail_refined[OF inv t, of now tok err d] by (simp add: * step_refined_None)
qed

subsection \<open>Counting claims\<close>

type_synonym queue_trace = "(time \<times> string \<times> task_event) list"

text \<open>The number of successful claims of one task in a run of events.\<close>

fun count_claims :: "string \<Rightarrow> queue_trace \<Rightarrow> task_store \<Rightarrow> nat" where
  "count_claims tid [] s = 0"
| "count_claims tid ((now, i, ev) # evs) s =
     (let r = queue_apply now i ev s
      in (if i = tid \<and> (case ev of Claim _ _ \<Rightarrow> \<not> isl (fst r) | _ \<Rightarrow> False) then 1 else 0)
         + count_claims tid evs (snd r))"

lemma count_claims_bound:
  assumes "store_inv s" and "get_task tid s = Some t"
  shows "int (count_claims tid evs s) \<le> t_max_attempts t - t_attempts t"
  using assms
proof (induction evs arbitrary: s t)
  case Nil
  then have "task_wf t" using store_invD(4) by (auto simp: get_task_def)
  then show ?case by (simp add: task_wf_def lifecycle_ok_def)
next
  case (Cons e evs)
  obtain now i ev where e: "e = (now, i, ev)" by (cases e) auto
  let ?q = "queue_apply now i ev s"
  show ?case
  proof (cases "fst ?q")
    case (Inl x)
    have "snd ?q = s"
    proof (cases "get_task i s")
      case None
      then show ?thesis using queue_unknown[OF None, of now ev] by (auto simp: refused_def)
    next
      case (Some v)
      then show ?thesis using queue_refines[OF Cons.prems(1) Some, of now ev] Inl
        by (auto simp: step_refined_def refused_def split: option.splits)
    qed
    then show ?thesis using Cons.IH[OF Cons.prems] Inl by (auto simp: e Let_def split: task_event.splits)
  next
    case (Inr u)
    obtain v where v: "get_task i s = Some v"
      using Inr queue_unknown[of i s now ev] by (cases "get_task i s") (auto simp: refused_def)
    have r: "task_step now ev v = Some u" "store_inv (snd ?q)"
      "\<And>j. get_task j (snd ?q) = (if j = t_task_id u then Some u else get_task j s)"
      using queue_refines[OF Cons.prems(1) v, of now ev] Inr
      by (auto simp: step_refined_def refused_def split: option.splits)
    have id: "t_task_id u = i"
      using task_step_frame[OF r(1)] store_invD(3)[OF Cons.prems(1)] v by (auto simp: get_task_def)
    show ?thesis
    proof (cases "i = tid")
      case True
      then have "get_task tid (snd ?q) = Some u" "v = t" using r(3) id v Cons.prems(2) by auto
      with Cons.IH[OF r(2) this(1)] task_step_attempts[OF r(1)] True Inr show ?thesis
        by (cases ev) (auto simp: e Let_def)
    next
      case False
      then have "get_task tid (snd ?q) = Some t" using r(3)[of tid] id Cons.prems(2) by auto
      with Cons.IH[OF r(2) this] False show ?thesis by (auto simp: e Let_def)
    qed
  qed
qed

end
