(* ===== verification/Ready_List.thy ===== *)
theory Ready_List
  imports Queue_Machine
begin

section \<open>The ready list\<close>

text \<open>
  Lemmas on \<open>ready_tasks\<close>: the lane merge keeps ids distinct, stays within the limit, fills it when
  there is enough work, and always takes the head of a lane that still has room.
\<close>

definition ready_candidates :: "time \<Rightarrow> task_store \<Rightarrow> task list" where
  "ready_candidates now s = sort_key priority_key (filter (runnable now) (dict_values (ts_tasks s)))"

lemma ready_candidates_iff:
  assumes "store_inv s"
  shows "t \<in> set (ready_candidates now s) \<longleftrightarrow> get_task (t_task_id t) s = Some t \<and> runnable now t"
  using dict_values_get[OF store_invD(1)[OF assms], of t] store_invD(3)[OF assms]
  by (auto simp: ready_candidates_def get_task_def)

lemma ready_candidates_distinct:
  assumes "store_inv s"
  shows "distinct (map t_task_id (ready_candidates now s))"
proof -
  have "distinct (map t_task_id (dict_values (ts_tasks s)))"
    using store_invD(1)[OF assms] unfolding store_ids[OF assms] .
  then have "distinct (map t_task_id (filter (runnable now) (dict_values (ts_tasks s))))"
    by (rule distinct_map_filter)
  moreover have "mset (map t_task_id (sort_key priority_key xs)) = mset (map t_task_id xs)" for xs
    by simp
  ultimately show ?thesis unfolding ready_candidates_def by (metis mset_eq_imp_distinct_iff)
qed

subsection \<open>One lane\<close>

lemma take_lane_prefix: "\<exists>ys. take_lane n sel lane = sel @ ys \<and> set ys \<subseteq> set lane \<and> length ys \<le> length lane"
proof (induction n sel lane rule: take_lane.induct)
  case (2 n sel t lane)
  show ?case
  proof (cases "t_task_id t \<in> set (map t_task_id sel)")
    case True
    with 2(1) show ?thesis by fastforce
  next
    case False
    show ?thesis
    proof (cases "n \<le> int (length (sel @ [t]))")
      case True
      with False show ?thesis by (auto intro: exI[of _ "[t]"])
    next
      case n: False
      from 2(2)[OF False refl n] obtain ys where
        "take_lane n (sel @ [t]) lane = (sel @ [t]) @ ys" "set ys \<subseteq> set lane" "length ys \<le> length lane" by auto
      with False n show ?thesis by (auto intro!: exI[of _ "t # ys"])
    qed
  qed
qed simp

lemma take_lane_distinct:
  "distinct (map t_task_id sel) \<Longrightarrow> distinct (map t_task_id (take_lane n sel lane))"
  by (induction n sel lane rule: take_lane.induct) (auto simp: Let_def)

lemma take_lane_length: "int (length sel) < n \<Longrightarrow> int (length (take_lane n sel lane)) \<le> n"
  by (induction n sel lane rule: take_lane.induct) (auto simp: Let_def)

lemma take_lane_short:
  "int (length (take_lane n sel lane)) < n \<Longrightarrow>
     t_task_id ` set lane \<subseteq> t_task_id ` set (take_lane n sel lane)"
proof (induction n sel lane rule: take_lane.induct)
  case (2 n sel t lane)
  show ?case
  proof (cases "t_task_id t \<in> set (map t_task_id sel)")
    case True
    with 2(1)[OF True] 2(3) take_lane_prefix[of n sel lane] show ?thesis by auto
  next
    case False
    with 2(3) have n: "\<not> n \<le> int (length (sel @ [t]))" by (auto simp: Let_def split: if_splits)
    with 2(2)[OF False refl n] 2(3) take_lane_prefix[of n "sel @ [t]" lane] False show ?thesis
      by auto
  qed
qed simp

lemma take_lane_head:
  "int (length sel) < n \<Longrightarrow> t_task_id t \<in> t_task_id ` set (take_lane n sel (t # lane))"
  using take_lane_prefix[of n "sel @ [t]" lane] take_lane_prefix[of n sel lane] by (auto simp: Let_def)

subsection \<open>All lanes\<close>

lemma take_lanes_prefix: "\<exists>ys. take_lanes n sel lanes = sel @ ys \<and> set ys \<subseteq> \<Union> (set ` set lanes)"
proof (induction n sel lanes rule: take_lanes.induct)
  case (2 n sel lane lanes)
  obtain ys where ys: "take_lane n sel lane = sel @ ys" "set ys \<subseteq> set lane"
    using take_lane_prefix[of n sel lane] by auto
  show ?case
  proof (cases "n \<le> int (length (take_lane n sel lane))")
    case True
    with ys show ?thesis by (auto simp: Let_def)
  next
    case False
    from 2[OF refl False] obtain zs where "take_lanes n (take_lane n sel lane) lanes = take_lane n sel lane @ zs"
      "set zs \<subseteq> \<Union> (set ` set lanes)" by auto
    with ys False show ?thesis by (auto simp: Let_def intro!: exI[of _ "ys @ zs"])
  qed
qed simp

lemma take_lanes_distinct:
  "distinct (map t_task_id sel) \<Longrightarrow> distinct (map t_task_id (take_lanes n sel lanes))"
  by (induction n sel lanes rule: take_lanes.induct) (auto simp: Let_def take_lane_distinct)

lemma take_lanes_length:
  "int (length sel) < n \<Longrightarrow> int (length (take_lanes n sel lanes)) \<le> n"
  by (induction n sel lanes rule: take_lanes.induct) (auto simp: Let_def take_lane_length)

lemma take_lanes_short:
  "int (length (take_lanes n sel lanes)) < n \<Longrightarrow> lane \<in> set lanes \<Longrightarrow>
     t_task_id ` set lane \<subseteq> t_task_id ` set (take_lanes n sel lanes)"
proof (induction n sel lanes rule: take_lanes.induct)
  case (2 n sel l lanes)
  from 2(2) have n: "\<not> n \<le> int (length (take_lane n sel l))"
    by (auto simp: Let_def)
  then have eq: "take_lanes n sel (l # lanes) = take_lanes n (take_lane n sel l) lanes" by (simp add: Let_def)
  show ?case
  proof (cases "lane = l")
    case True
    have "t_task_id ` set l \<subseteq> t_task_id ` set (take_lane n sel l)" using n by (intro take_lane_short) simp
    with take_lanes_prefix[of n "take_lane n sel l" lanes] True eq show ?thesis by auto
  next
    case False
    with 2(1)[OF refl n] 2(2,3) eq show ?thesis by simp
  qed
qed simp

lemma fair_lane_limits_sum:
  assumes "fair_lane_limits n = (a, b, c, d)"
  shows "0 \<le> a" and "0 \<le> b" and "0 \<le> c" and "0 \<le> d" and "0 < n \<Longrightarrow> a + b + c + d = n" and "0 < n \<Longrightarrow> 1 \<le> a"
    and "3 \<le> n \<Longrightarrow> 1 \<le> b" and "3 \<le> n \<Longrightarrow> a < n"
proof -
  have half: "2 * (x div 2) \<le> x \<and> x \<le> 2 * (x div 2) + 1" for x :: int by presburger
  have zero: "a = 0 \<and> b = 0 \<and> c = 0 \<and> d = 0" if "n \<le> 0"
    using assms that by (simp add: fair_lane_limits_def)
  have pos: "a = max 1 (n div 2) \<and> b = (n - a) div 2 \<and> c = (n - a - b) div 2 \<and> d = n - a - b - c" if "0 < n"
    using assms that unfolding fair_lane_limits_def Let_def by (clarsimp simp del: max_def)
  have bounds: "1 \<le> a \<and> a \<le> n \<and> 0 \<le> b \<and> 0 \<le> c \<and> 0 \<le> d \<and> (3 \<le> n \<longrightarrow> 1 \<le> b \<and> a < n)" if n: "0 < n"
  proof -
    have a: "1 \<le> a" "a \<le> n" "3 \<le> n \<Longrightarrow> a + 2 \<le> n"
      using pos[OF n] half[of n] n by (auto simp: max_def)
    have b: "2 * b \<le> n - a" "n - a \<le> 2 * b + 1" using pos[OF n] half[of "n - a"] by auto
    have c: "2 * c \<le> n - a - b" "n - a - b \<le> 2 * c + 1" using pos[OF n] half[of "n - a - b"] by auto
    have d: "d = n - a - b - c" using pos[OF n] by simp
    have "3 \<le> n \<longrightarrow> 1 \<le> b \<and> a < n" using a(3) b by linarith
    moreover have "0 \<le> b" "0 \<le> c" "0 \<le> d" using a b c d by linarith+
    ultimately show ?thesis using a by simp
  qed
  have sum: "a + b + c + d = n" if "0 < n" using pos[OF that] by linarith
  show "0 \<le> a" and "0 \<le> b" and "0 \<le> c" and "0 \<le> d"
    using bounds zero by (cases "0 < n"; force)+
  show "0 < n \<Longrightarrow> a + b + c + d = n" by (rule sum)
  show "0 < n \<Longrightarrow> 1 \<le> a" and "3 \<le> n \<Longrightarrow> 1 \<le> b" and "3 \<le> n \<Longrightarrow> a < n"
    using bounds by auto
qed

lemma length_slice_to: "0 \<le> n \<Longrightarrow> int (length (slice_to xs n)) \<le> n"
  by (simp add: slice_to_def)

lemma fair_lanes_subset: "lane \<in> set (fair_lanes n cs) \<Longrightarrow> set lane \<subseteq> set cs"
  using set_slice_to[of cs] set_slice_to[of "sort_key (\<lambda>t. (t_created_at t, t_task_id t)) cs"]
    set_slice_to[of "filter (\<lambda>t. contains ''exploration'' (exploration_text t)) cs"]
    set_slice_to[of "sort_key (\<lambda>t. (t_priority t, t_created_at t, t_task_id t)) cs"]
  by (fastforce simp: fair_lanes_def split: prod.splits)

lemma ready_tasks_fair: "ready_tasks now (Some n) True s = take_lanes n [] (fair_lanes n (ready_candidates now s))"
  by (simp add: ready_tasks_def ready_candidates_def Let_def)

lemma ready_tasks_subset: "set (ready_tasks now lm fair s) \<subseteq> set (ready_candidates now s)"
proof -
  let ?c = "ready_candidates now s"
  have "set (take_lanes n [] (fair_lanes n ?c)) \<subseteq> set ?c" for n
    using take_lanes_prefix[of n "[]" "fair_lanes n ?c"] fair_lanes_subset[of _ n ?c] by auto
  then show ?thesis using set_slice_to[of ?c]
    by (cases lm) (auto simp: ready_tasks_def ready_candidates_def Let_def)
qed

lemma ready_fair_length:
  assumes inv: "store_inv s" and n: "1 \<le> n"
  shows "int (length (ready_tasks now (Some n) True s)) = min n (int (length (ready_candidates now s)))"
proof -
  let ?c = "ready_candidates now s" and ?r = "ready_tasks now (Some n) True s"
  have le: "int (length ?r) \<le> n" using n by (simp add: ready_tasks_fair take_lanes_length)
  have dr: "distinct (map t_task_id ?r)" by (simp add: ready_tasks_fair take_lanes_distinct)
  have dc: "distinct (map t_task_id ?c)" by (rule ready_candidates_distinct[OF inv])
  have sub: "t_task_id ` set ?r \<subseteq> t_task_id ` set ?c" using ready_tasks_subset by fastforce
  have rlen: "card (t_task_id ` set ?r) = length ?r" using dr by (metis distinct_card length_map set_map)
  have clen: "card (t_task_id ` set ?c) = length ?c" using dc by (metis distinct_card length_map set_map)
  have up: "length ?r \<le> length ?c" using card_mono[OF _ sub] rlen clen by simp
  show ?thesis
  proof (cases "int (length ?r) < n")
    case True
    have "?c \<in> set (fair_lanes n ?c)" by (cases "fair_lane_limits n") (simp add: fair_lanes_def)
    then have "t_task_id ` set ?c \<subseteq> t_task_id ` set ?r"
      using take_lanes_short[of n "[]" "fair_lanes n ?c" ?c] True by (simp add: ready_tasks_fair)
    then have "length ?c \<le> length ?r" using card_mono[of "t_task_id ` set ?r" "t_task_id ` set ?c"] rlen clen by simp
    with up True show ?thesis by simp
  next
    case False
    with le up show ?thesis by simp
  qed
qed

lemma ready_fair_oldest:
  assumes inv: "store_inv s" and n: "3 \<le> n" and t: "t \<in> set (ready_candidates now s)"
    and old: "\<forall>u \<in> set (ready_candidates now s). (t_created_at t, t_task_id t) \<le> (t_created_at u, t_task_id u)"
  shows "t \<in> set (ready_tasks now (Some n) True s)"
proof -
  let ?c = "ready_candidates now s" and ?r = "ready_tasks now (Some n) True s"
  obtain a b c d where l: "fair_lane_limits n = (a, b, c, d)" by (cases "fair_lane_limits n") auto
  have ab: "1 \<le> b" "a < n" "0 \<le> a"
    using fair_lane_limits_sum[OF l] n by auto
  let ?k = "\<lambda>t. (t_created_at t, t_task_id t)"
  let ?o = "sort_key ?k ?c"
  have ne: "?o \<noteq> []" using t by (metis list.set(1) empty_iff set_sort)
  have hd: "hd ?o = t"
  proof -
    have mem: "hd ?o \<in> set ?c" using hd_in_set[OF ne] by (simp only: set_sort)
    have "?k (hd ?o) \<le> ?k t" by (rule sort_key_hd_min[OF t])
    moreover have "?k t \<le> ?k (hd ?o)" using old mem by blast
    ultimately have "?k (hd ?o) = ?k t" by (rule order_antisym)
    then have "t_task_id (hd ?o) = t_task_id t" by simp
    with mem t show ?thesis using ready_candidates_iff[OF inv] by (metis option.inject)
  qed
  have lane2: "slice_to ?o b = t # tl (slice_to ?o b)"
  proof -
    have "0 < nat b" using ab by simp
    then obtain m where "nat b = Suc m" using gr0_implies_Suc by blast
    with ne hd ab show ?thesis by (cases ?o) (auto simp: slice_to_def)
  qed
  let ?s1 = "take_lane n [] (slice_to ?c a)"
  obtain ls where lanes: "fair_lanes n ?c = slice_to ?c a # slice_to ?o b # ls"
    by (auto simp: fair_lanes_def l)
  have s1: "int (length ?s1) < n"
    using take_lane_prefix[of n "[]" "slice_to ?c a"] length_slice_to[of a ?c] ab by auto
  let ?s2 = "take_lane n ?s1 (slice_to ?o b)"
  have "t_task_id t \<in> t_task_id ` set ?s2" using take_lane_head[OF s1, of t "tl (slice_to ?o b)"] lane2 by simp
  moreover have "set ?s2 \<subseteq> set ?r"
    using s1 take_lanes_prefix[of n ?s2 ls] by (auto simp: ready_tasks_fair lanes Let_def)
  ultimately obtain u where u: "u \<in> set ?r" "t_task_id u = t_task_id t" by auto
  then have "u \<in> set ?c" using ready_tasks_subset by blast
  with u t show ?thesis using ready_candidates_iff[OF inv] by (metis option.inject)
qed

end
