(* ===== verification/Queue_Properties.thy ===== *)
theory Queue_Properties
  imports Ready_List
begin

section \<open>What the task queue guarantees\<close>

text \<open>
  The properties of recon/core/queue.py, for every store the queue can reach, and a small concrete
  run (one task enqueued, claimed, expired, claimed again) on which they are instantiated.
\<close>

definition sample_task :: task where
  "sample_task = (default_task 0 0 ''dns'' ''resolve'' ''evt_1'')\<lparr>t_task_id := ''tsk_1''\<rparr>"

definition sample_store :: task_store where
  "sample_store = snd (queue_enqueue 5 sample_task empty_store)"

lemma sample_task_wf: "task_wf sample_task"
  by (simp add: task_wf_def fields_ok_def lifecycle_ok_def sample_task_def default_task_def strip_def
      is_space_def normalize_search_tier_def)

lemma sample_reachable: "queue_reachable sample_store"
  unfolding sample_store_def
  by (rule queue_reachable.step[OF queue_reachable.start], rule queue_step.enqueue[OF sample_task_wf])
    (simp add: empty_store_def get_task_def)

lemma sample_store_eq:
  "sample_store = \<lparr>ts_tasks = [(''tsk_1'', sample_task\<lparr>t_updated_at := 5\<rparr>)],
     ts_active = [(''dns:resolve:evt_1'', ''tsk_1'')], ts_known = [(''dns:resolve:evt_1'', ''tsk_1'')]\<rparr>"
  unfolding sample_store_def enqueue_result[OF sample_task_wf]
  by (simp add: put_task_def sample_task_def default_task_def empty_store_def dedupe_key_def
      logical_key_def is_terminal_def)

lemma sample_get: "get_task ''tsk_1'' sample_store = Some (sample_task\<lparr>t_updated_at := 5\<rparr>)"
  by (simp add: sample_store_eq get_task_def)

lemma sample_fields [simp]:
  "t_status sample_task = PENDING" "t_attempts sample_task = 0" "t_max_attempts sample_task = 3"
  "t_available_at sample_task = 0" "t_task_id sample_task = ''tsk_1''" "t_claim_token sample_task = None"
  "t_created_at sample_task = 0" "t_priority sample_task = 0" "t_lease_expires_at sample_task = None"
  by (simp_all add: sample_task_def default_task_def)

text \<open>The sample store after a first claim (lease 10) and after it has expired and been recovered.\<close>

definition sample_claimed :: task_store where
  "sample_claimed = snd (queue_apply 10 ''tsk_1'' (Claim 1 10) sample_store)"

definition sample_recovered :: task_store where
  "sample_recovered = snd (queue_recover_expired_leases 30 0 sample_claimed)"

lemma sample_claimed_reachable: "queue_reachable sample_claimed"
  unfolding sample_claimed_def
  by (rule queue_reachable.step[OF sample_reachable], rule queue_step.event) simp

lemma sample_claimed_get:
  "get_task ''tsk_1'' sample_claimed = Some (sample_task\<lparr>t_attempts := 1, t_started_at := Some 10,
     t_finished_at := None, t_status := RUNNING, t_lease_expires_at := Some 20,
     t_claim_token := Some (new_claim_token 1), t_updated_at := 10, t_last_error := None\<rparr>)"
  by (simp add: sample_claimed_def sample_store_eq queue_claim_def claim_task_def get_task_def Let_def)

lemma methods_refine:
  assumes "queue_reachable s" and "get_task tid s = Some t"
  shows "case task_step now ev t of
      None \<Rightarrow> (\<exists>e. queue_apply now tid ev s = (Inl e, s))
    | Some u \<Rightarrow> (\<exists>s'. queue_apply now tid ev s = (Inr u, s')
        \<and> (\<forall>i. get_task i s' = (if i = tid then Some u else get_task i s)))"
proof -
  have inv: "store_inv s" by (rule queue_reachable_inv[OF assms(1)])
  have tid: "t_task_id t = tid" using store_invD[OF inv] assms(2) by (auto simp: get_task_def)
  note r = queue_refines[OF inv assms(2), of now ev]
  show ?thesis
  proof (cases "task_step now ev t")
    case None
    with r show ?thesis by (simp add: step_refined_def refused_def)
  next
    case (Some u)
    then have "t_task_id u = tid" using task_step_frame[OF Some] tid by simp
    with r Some show ?thesis by (cases "queue_apply now tid ev s") (auto simp: step_refined_def)
  qed
qed

lemma sample_claim_result:
  "\<exists>s'. queue_apply 10 ''tsk_1'' (Claim 1 10) sample_store
      = (Inr (sample_task\<lparr>t_attempts := 1, t_started_at := Some 10, t_finished_at := None,
          t_status := RUNNING, t_lease_expires_at := Some 20,
          t_claim_token := Some (new_claim_token 1), t_updated_at := 10, t_last_error := None\<rparr>), s')"
  using methods_refine[OF sample_reachable sample_get, of 10 "Claim 1 10"]
  by (auto simp: task_step.simps runnable_def)

subsection \<open>Refinement and invariants\<close>

text \<open>C1: in every reachable store, each method of \<open>TaskQueue\<close> applied to a stored task does what the
  task state machine \<open>task_step\<close> says: when the machine refuses the event the method raises and the
  store is unchanged, and otherwise it returns the successor and stores it, touching no other task.\<close>

theorem queue_methods_refine:
  assumes "queue_reachable s" and "get_task tid s = Some t"
  shows "case task_step now ev t of
      None \<Rightarrow> (\<exists>e. queue_apply now tid ev s = (Inl e, s))
    | Some u \<Rightarrow> (\<exists>s'. queue_apply now tid ev s = (Inr u, s')
        \<and> (\<forall>i. get_task i s' = (if i = tid then Some u else get_task i s)))"
  by (rule methods_refine[OF assms])

theorem queue_methods_refine_witness:
  "\<exists>s'. queue_apply 10 ''tsk_1'' (Claim 1 10) sample_store
      = (Inr (sample_task\<lparr>t_attempts := 1, t_started_at := Some 10, t_finished_at := None,
          t_status := RUNNING, t_lease_expires_at := Some 20,
          t_claim_token := Some (new_claim_token 1), t_updated_at := 10, t_last_error := None\<rparr>), s')"
  using queue_methods_refine[OF sample_reachable sample_get, of 10 "Claim 1 10"]
  by (auto simp: task_step.simps runnable_def)

text \<open>Every reachable store satisfies the store invariant: each stored task passes all of its
  class's validators, ids and keys agree, and no two tasks are for the same logical work.\<close>

theorem queue_invariant:
  assumes "queue_reachable s"
  shows "(\<forall>i t. get_task i s = Some t \<longrightarrow> t_task_id t = i \<and> validate_task t = Inr t)
    \<and> (\<forall>i j t u. get_task i s = Some t \<and> get_task j s = Some u \<and> dedupe_key t = dedupe_key u \<longrightarrow> i = j)"
  using queue_reachable_inv[OF assms] store_invD(3,4) store_inv_unique task_wf_validate
  unfolding get_task_def by blast

theorem queue_invariant_witness:
  "validate_task (sample_task\<lparr>t_updated_at := 5\<rparr>) = Inr (sample_task\<lparr>t_updated_at := 5\<rparr>)"
  using queue_invariant[OF sample_reachable] sample_get by blast

text \<open>A task that has reached a terminal status is never changed again, by any sequence of queue
  operations.\<close>

theorem terminal_tasks_stay:
  assumes "queue_reachable s" and "(queue_step UNIV)\<^sup>*\<^sup>* s s'"
    and "get_task tid s = Some t" and "is_terminal t"
  shows "get_task tid s' = Some t"
  by (rule queue_steps_terminal[OF assms(2) queue_reachable_inv[OF assms(1)] assms(3,4)])

theorem terminal_tasks_stay_witness:
  "\<exists>t. get_task ''tsk_1'' (snd (queue_apply 9 ''tsk_1'' (Defer 1 None)
          (snd (queue_apply 6 ''tsk_1'' (Cancel None) sample_store)))) = Some t
     \<and> t_status t = CANCELLED"
proof -
  let ?s = "snd (queue_apply 6 ''tsk_1'' (Cancel None) sample_store)"
  let ?s' = "snd (queue_apply 9 ''tsk_1'' (Defer 1 None) ?s)"
  have s: "queue_reachable ?s"
    by (rule queue_reachable.step[OF sample_reachable], rule queue_step.event) simp
  have s': "(queue_step UNIV)\<^sup>*\<^sup>* ?s ?s'"
    by (rule r_into_rtranclp, rule queue_step.event) simp
  obtain u where u: "get_task ''tsk_1'' ?s = Some u" "t_status u = CANCELLED"
    using methods_refine[OF sample_reachable sample_get, of 6 "Cancel None"]
    by (auto simp: task_step.simps is_terminal_def Let_def)
  have "get_task ''tsk_1'' ?s' = Some u"
    by (rule terminal_tasks_stay[OF s s' u(1)]) (simp add: is_terminal_def u(2))
  with u show ?thesis by blast
qed

subsection \<open>Leases and claims\<close>

text \<open>C2: fencing. A worker whose lease expired loses the task for good: once the recovery sweep has
  run, and whatever happens afterwards (other workers may claim the task, under other tokens), its
  heartbeat, success report and failure report are all refused without effect.\<close>

theorem expired_worker_fenced:
  assumes "queue_reachable s" and "get_task tid s = Some t"
    and "t_claim_token t = Some tok" and "expired now t" and "0 \<le> d"
    and "(queue_step {n. new_claim_token n \<noteq> tok})\<^sup>*\<^sup>* (snd (queue_recover_expired_leases now d s)) s'"
  shows "(\<exists>e. queue_heartbeat now' tid tok l s' = (Inl e, s'))
    \<and> (\<exists>e. queue_succeed now' tid tok s' = (Inl e, s'))
    \<and> (\<exists>e. queue_fail now' tid tok err rd s' = (Inl e, s'))"
proof -
  have inv: "store_inv s" by (rule queue_reachable_inv[OF assms(1)])
  have "task_wf t" using store_invD[OF inv] assms(2) by (auto simp: get_task_def)
  then have norm: "strip tok = tok" using tok_norm assms(3) by blast
  let ?r = "snd (queue_recover_expired_leases now d s)"
  from recover_spec[OF inv assms(5), of now]
  have r: "store_inv ?r" "get_task tid ?r = Some (expire_task now d t)" using assms(2,4) by auto
  obtain u where u: "get_task tid s' = Some u" "t_claim_token u \<noteq> Some tok"
    using queue_steps_token[OF assms(6) r] by auto
  show ?thesis
    using stale_token_refused[OF queue_steps_inv[OF assms(6) r(1)] u norm] by (simp add: refused_def)
qed

lemma strip_sample_token: "new_claim_token 2 \<noteq> new_claim_token 1"
  by (simp add: new_claim_token_def uuid_hex_def upt_rec hex_digit_def)

theorem expired_worker_fenced_witness:
  "\<exists>e. queue_succeed 40 ''tsk_1'' (new_claim_token 1)
      (snd (queue_apply 35 ''tsk_1'' (Claim 2 10) sample_recovered))
    = (Inl e, snd (queue_apply 35 ''tsk_1'' (Claim 2 10) sample_recovered))"
proof -
  have steps: "(queue_step {n. new_claim_token n \<noteq> new_claim_token 1})\<^sup>*\<^sup>* sample_recovered
      (snd (queue_apply 35 ''tsk_1'' (Claim 2 10) sample_recovered))"
    by (rule r_into_rtranclp, rule queue_step.event) (use strip_sample_token in auto)
  let ?s = "snd (queue_apply 35 ''tsk_1'' (Claim 2 10) sample_recovered)"
  have "(\<exists>e. queue_heartbeat 40 ''tsk_1'' (new_claim_token 1) 5 ?s = (Inl e, ?s))
    \<and> (\<exists>e. queue_succeed 40 ''tsk_1'' (new_claim_token 1) ?s = (Inl e, ?s))
    \<and> (\<exists>e. queue_fail 40 ''tsk_1'' (new_claim_token 1) [] None ?s = (Inl e, ?s))"
  proof (rule expired_worker_fenced[OF sample_claimed_reachable sample_claimed_get])
    show "(queue_step {n. new_claim_token n \<noteq> new_claim_token 1})\<^sup>*\<^sup>*
        (snd (queue_recover_expired_leases 30 0 sample_claimed)) ?s"
      using steps by (simp only: sample_recovered_def)
  qed (simp_all add: expired_def)
  then show ?thesis by blast
qed

text \<open>C40: crash recovery is exact. In every reachable store the sweep never fails; it returns and moves every RUNNING task whose lease has
  run out to DEFERRED, or to FAILED when its attempts are used up, clearing lease and token, and
  leaves every other task as it was; no expired lease is left.\<close>

theorem recovery_exact:
  assumes "queue_reachable s" and "0 \<le> d"
  shows "\<exists>s'. queue_recover_expired_leases now d s
      = (Inr (map (expire_task now d) (filter (expired now) (all_tasks s))), s')
    \<and> (\<forall>i. get_task i s' = map_option (\<lambda>t. if expired now t then expire_task now d t else t) (get_task i s))
    \<and> (\<forall>i t. get_task i s' = Some t \<longrightarrow> \<not> expired now t)"
proof -
  from recover_spec[OF queue_reachable_inv[OF assms(1)] assms(2), of now]
  obtain s' where s': "queue_recover_expired_leases now d s =
      (Inr (map (expire_task now d) (filter (expired now) (all_tasks s))), s')"
    "\<forall>i. get_task i s' = map_option (\<lambda>t. if expired now t then expire_task now d t else t) (get_task i s)"
    by auto
  then have "\<forall>i t. get_task i s' = Some t \<longrightarrow> \<not> expired now t"
    by (auto simp: map_option_case split: option.splits if_splits)
  with s' show ?thesis by blast
qed

theorem recovery_exact_witness:
  "\<exists>t. get_task ''tsk_1'' sample_recovered = Some t \<and> t_status t = DEFERRED \<and> t_available_at t = 30"
proof -
  obtain s' where s': "queue_recover_expired_leases 30 0 sample_claimed
      = (Inr (map (expire_task 30 0) (filter (expired 30) (all_tasks sample_claimed))), s')"
    "\<forall>i. get_task i s' = map_option (\<lambda>t. if expired 30 t then expire_task 30 0 t else t)
        (get_task i sample_claimed)"
    using recovery_exact[OF sample_claimed_reachable, of 0 30] by auto
  have "snd (queue_recover_expired_leases 30 0 sample_claimed) = s'" unfolding s'(1) by simp
  with s'(2) show ?thesis
    by (simp add: sample_recovered_def sample_claimed_get expired_def expire_task_def)
qed

text \<open>bounded work. Whatever the order of operations, a task is claimed for execution at most
  \<open>max_attempts - attempts\<close> more times.\<close>

theorem claims_bounded:
  assumes "queue_reachable s" and "get_task tid s = Some t"
  shows "int (count_claims tid evs s) \<le> retries_remaining t"
  using count_claims_bound[OF queue_reachable_inv[OF assms(1)] assms(2), of evs]
  by (simp add: retries_remaining_def)

theorem claims_bounded_witness:
  "int (count_claims ''tsk_1'' [(10, ''tsk_1'', Claim 1 10), (12, ''tsk_1'', Claim 2 10)] sample_store) \<le> 3"
proof -
  have "retries_remaining (sample_task\<lparr>t_updated_at := 5\<rparr>) = 3" by (simp add: retries_remaining_def)
  then show ?thesis using claims_bounded[OF sample_reachable sample_get] by metis
qed

text \<open>A write that races with a claim is refused. When a method has read a task and a claim of that
  task gets in before its save, the compare-and-swap raises and changes nothing.\<close>

theorem claim_beats_stale_save:
  assumes "queue_reachable s" and "get_task tid s = Some t"
    and "queue_claim uuid now tid l s = (Inr c, s')" and "t_task_id u = tid"
  shows "\<exists>e. save_task u (t_status t) (t_claim_token t) None s' = (Inl e, s')"
proof -
  have inv: "store_inv s" by (rule queue_reachable_inv[OF assms(1)])
  have r: "task_step now (Claim uuid l) t = Some c" "get_task (t_task_id u) s' = Some c"
    using claim_refined[OF inv assms(2), of uuid now l] assms(3,4)
      task_step_frame[of now "Claim uuid l" t] store_invD(3)[OF inv] assms(2)
    by (auto simp: step_refined_def refused_def get_task_def split: option.splits)
  then have "t_status c \<noteq> t_status t" by (auto simp: task_step.simps runnable_def split: if_splits)
  then show ?thesis using save_refused[OF r(2)] by (auto simp: refused_def)
qed

theorem claim_beats_stale_save_witness:
  "\<exists>e. save_task (sample_task\<lparr>t_status := BLOCKED\<rparr>) PENDING None None sample_claimed
      = (Inl e, sample_claimed)"
proof -
  have "queue_claim 1 10 ''tsk_1'' 10 sample_store
      = (fst (queue_claim 1 10 ''tsk_1'' 10 sample_store), sample_claimed)"
    by (simp add: sample_claimed_def)
  then show ?thesis
    using claim_beats_stale_save[OF sample_reachable sample_get, of 1 10 10 _ sample_claimed
        "sample_task\<lparr>t_status := BLOCKED\<rparr>"] sample_claim_result
    by auto
qed

subsection \<open>Deduplication and the ready list\<close>

text \<open>Logical work that the store has ever seen is not inserted again, even when the earlier task
  has long reached a terminal state; the enqueue returns False and changes nothing.\<close>

theorem known_work_not_requeued:
  assumes "queue_reachable s" and "get_task i s = Some t" and "dedupe_key u = dedupe_key t"
    and "validate_task u = Inr u" and "t_status u = PENDING"
  shows "queue_enqueue now u s = (Inr False, s)"
proof -
  have "task_wf u" by (rule validate_task_wf[OF assms(4)])
  moreover have "dict_get (ts_known s) (dedupe_key u) \<noteq> None"
    using store_invD(5)[OF queue_reachable_inv[OF assms(1)], of "dedupe_key u" i] assms(2,3)
    by (auto simp: get_task_def)
  ultimately show ?thesis using assms(5) by (simp add: enqueue_result put_task_known)
qed

theorem known_work_not_requeued_witness:
  "queue_enqueue 9 (sample_task\<lparr>t_task_id := ''tsk_2''\<rparr>)
      (snd (queue_apply 6 ''tsk_1'' (Cancel None) sample_store))
    = (Inr False, snd (queue_apply 6 ''tsk_1'' (Cancel None) sample_store))"
proof -
  let ?s = "snd (queue_apply 6 ''tsk_1'' (Cancel None) sample_store)"
  have s: "queue_reachable ?s"
    by (rule queue_reachable.step[OF sample_reachable], rule queue_step.event) simp
  obtain u where u: "get_task ''tsk_1'' ?s = Some u" "dedupe_key u = dedupe_key sample_task"
    using methods_refine[OF sample_reachable sample_get, of 6 "Cancel None"]
    by (auto simp: task_step.simps is_terminal_def Let_def)
  have "task_wf (sample_task\<lparr>t_task_id := ''tsk_2''\<rparr>)"
    using sample_task_wf by (simp add: task_wf_def fields_ok_def lifecycle_ok_def)
  then show ?thesis
    using known_work_not_requeued[OF s u(1), of "sample_task\<lparr>t_task_id := ''tsk_2''\<rparr>" 9] u(2)
    by (simp add: task_wf_validate dedupe_key_def)
qed

text \<open>The ready list is sound and claimable. Every task it returns is stored, runnable now, and a
  claim of it at that moment succeeds; no task is listed twice.\<close>

theorem ready_sound:
  assumes "queue_reachable s" and "queue_ready now lm fair s = Inr ts" and "0 < l"
  shows "(\<forall>t \<in> set ts. get_task (t_task_id t) s = Some t \<and> runnable now t
      \<and> (\<exists>c s'. queue_claim uuid now (t_task_id t) l s = (Inr c, s')))"
proof
  have inv: "store_inv s" by (rule queue_reachable_inv[OF assms(1)])
  fix t
  assume "t \<in> set ts"
  then have "t \<in> set (ready_candidates now s)"
    using assms(2) subsetD[OF ready_tasks_subset[of now lm fair s]]
    by (auto simp: queue_ready_def split: if_splits)
  then have t: "get_task (t_task_id t) s = Some t" "runnable now t"
    using ready_candidates_iff[OF inv] by auto
  have "\<exists>c s'. queue_claim uuid now (t_task_id t) l s = (Inr c, s')"
    using methods_refine[OF assms(1) t(1), of now "Claim uuid l"] t(2) assms(3)
    by (auto simp: task_step.simps)
  with t show "get_task (t_task_id t) s = Some t \<and> runnable now t
      \<and> (\<exists>c s'. queue_claim uuid now (t_task_id t) l s = (Inr c, s'))" by blast
qed

theorem ready_sound_witness:
  "\<exists>c s'. queue_claim 1 10 ''tsk_1'' 10 sample_store = (Inr c, s')"
proof -
  have r: "queue_ready 10 None False sample_store = Inr [sample_task\<lparr>t_updated_at := 5\<rparr>]"
    by (simp add: queue_ready_def ready_tasks_def sample_store_eq runnable_def)
  show ?thesis using ready_sound[OF sample_reachable r, of 10 1] by simp
qed

text \<open>Fairness. A bounded fair shortlist has exactly \<open>min limit (number of runnable tasks)\<close>
  entries with distinct ids, and from a limit of 3 on it always contains the oldest runnable task, so
  a stream of high-priority work cannot starve it.\<close>

theorem ready_fair:
  assumes "queue_reachable s" and "3 \<le> n"
    and "get_task (t_task_id t) s = Some t" and "runnable now t"
    and "\<forall>u. get_task (t_task_id u) s = Some u \<and> runnable now u
           \<longrightarrow> (t_created_at t, t_task_id t) \<le> (t_created_at u, t_task_id u)"
  shows "t \<in> set (ready_tasks now (Some n) True s)
    \<and> distinct (map t_task_id (ready_tasks now (Some n) True s))
    \<and> int (length (ready_tasks now (Some n) True s))
        = min n (int (length (ready_tasks now None True s)))"
proof -
  have inv: "store_inv s" by (rule queue_reachable_inv[OF assms(1)])
  have all: "ready_tasks now None True s = ready_candidates now s"
    by (simp add: ready_tasks_def ready_candidates_def)
  have "distinct (map t_task_id (ready_tasks now (Some n) True s))"
    by (simp add: ready_tasks_fair take_lanes_distinct)
  moreover have "int (length (ready_tasks now (Some n) True s)) = min n (int (length (ready_candidates now s)))"
    using assms(2) by (intro ready_fair_length[OF inv]) simp
  moreover have "t \<in> set (ready_tasks now (Some n) True s)"
    by (rule ready_fair_oldest[OF inv assms(2)]) (use assms(3-5) ready_candidates_iff[OF inv] in auto)
  ultimately show ?thesis by (simp add: all)
qed

theorem ready_fair_witness:
  "sample_task\<lparr>t_updated_at := 5\<rparr> \<in> set (ready_tasks 10 (Some 3) True sample_store)"
proof -
  have only: "u = sample_task\<lparr>t_updated_at := 5\<rparr>" if "get_task (t_task_id u) sample_store = Some u" for u
    using that by (auto simp: sample_store_eq get_task_def split: if_splits)
  let ?t = "sample_task\<lparr>t_updated_at := 5\<rparr>"
  have "\<forall>u. get_task (t_task_id u) sample_store = Some u \<and> runnable 10 u
      \<longrightarrow> (t_created_at ?t, t_task_id ?t) \<le> (t_created_at u, t_task_id u)"
    using only by blast
  then show ?thesis
    using ready_fair[OF sample_reachable, of 3 ?t 10] sample_get by (simp add: runnable_def)
qed

end
