(* ===== verification/Budgets.thy ===== *)
theory Budgets
  imports Tasks
begin

section \<open>Budgets: data (recon/core/budgets.py)\<close>

text \<open>
  Metrics, classes and lanes, the configured caps, the demand of a task, and the compilation of a
  profile into the checks of one reservation (\<open>_checks_for_caps\<close>, \<open>_merge_checks\<close>,
  \<open>BudgetManager._compile_checks\<close>). A \<open>frozenset\<close> is a set, enumerated by the code in sorted order.
\<close>

datatype budget_metric =
  M_TASKS | M_COST | M_REQUESTS | M_CANDIDATES | M_RUNTIME_SECONDS | M_CONCURRENT_TASKS

fun metric_value :: "budget_metric \<Rightarrow> string" where
  "metric_value M_TASKS = ''TASKS''"
| "metric_value M_COST = ''COST''"
| "metric_value M_REQUESTS = ''REQUESTS''"
| "metric_value M_CANDIDATES = ''CANDIDATES''"
| "metric_value M_RUNTIME_SECONDS = ''RUNTIME_SECONDS''"
| "metric_value M_CONCURRENT_TASKS = ''CONCURRENT_TASKS''"

definition is_capacity :: "budget_metric \<Rightarrow> bool" where
  "is_capacity m \<longleftrightarrow> m = M_CONCURRENT_TASKS"

datatype budget_class = SOFT | HARD

fun class_value :: "budget_class \<Rightarrow> string" where
  "class_value SOFT = ''SOFT''"
| "class_value HARD = ''HARD''"

datatype budget_outcome = B_ALLOW | B_DEFER | B_DENY

datatype budget_lane = L_NORMAL | L_EXPLORATION

datatype reservation_state = R_ACTIVE | R_COMMITTED | R_RELEASED | R_EXPIRED

record budget_caps =
  cap_tasks :: "rat option"
  cap_cost :: "rat option"
  cap_requests :: "rat option"
  cap_candidates :: "rat option"
  cap_runtime_seconds :: "rat option"
  cap_concurrent_tasks :: "rat option"

definition no_caps :: budget_caps where
  "no_caps = \<lparr>cap_tasks = None, cap_cost = None, cap_requests = None, cap_candidates = None,
     cap_runtime_seconds = None, cap_concurrent_tasks = None\<rparr>"

definition as_metric_limits :: "budget_caps \<Rightarrow> (budget_metric \<times> rat) list" where
  "as_metric_limits c =
     [(m, the v). (m, v) \<leftarrow> [(M_TASKS, cap_tasks c), (M_COST, cap_cost c),
        (M_REQUESTS, cap_requests c), (M_CANDIDATES, cap_candidates c),
        (M_RUNTIME_SECONDS, cap_runtime_seconds c), (M_CONCURRENT_TASKS, cap_concurrent_tasks c)],
      v \<noteq> None]"

record budget_profile =
  soft_global_limits :: budget_caps
  soft_branch_limits :: budget_caps
  soft_resource_limits :: budget_caps
  soft_worker_limits :: "(string, budget_caps) dict"
  hard_global_limits :: budget_caps
  hard_branch_limits :: budget_caps
  hard_resource_limits :: budget_caps
  hard_worker_limits :: "(string, budget_caps) dict"
  soft_max_branch_depth :: "int option"
  hard_max_branch_depth :: "int option"
  exploration_reserve_fraction :: rat

definition default_profile :: budget_profile where
  "default_profile = \<lparr>soft_global_limits = no_caps, soft_branch_limits = no_caps,
     soft_resource_limits = no_caps, soft_worker_limits = [], hard_global_limits = no_caps,
     hard_branch_limits = no_caps, hard_resource_limits = no_caps, hard_worker_limits = [],
     soft_max_branch_depth = None, hard_max_branch_depth = None,
     exploration_reserve_fraction = 20 / 100\<rparr>"

fun normalize_worker_limits ::
  "(string \<times> budget_caps) list \<Rightarrow> (string, budget_caps) dict \<Rightarrow> (string, budget_caps) dict res" where
  "normalize_worker_limits [] result = Inr result"
| "normalize_worker_limits ((worker, caps) # rest) result =
     (let name = strip worker
      in if name = [] then Inl (ValidationError ''worker budget name must not be blank'')
         else if dict_get result name \<noteq> None
         then Inl (ValidationError (''duplicate worker budget: '' @ name))
         else normalize_worker_limits rest (dict_set name caps result))"

definition validate_profile :: "budget_profile \<Rightarrow> budget_profile res" where
  "validate_profile p =
     bind_res (normalize_worker_limits (soft_worker_limits p) []) (\<lambda>sw.
     bind_res (normalize_worker_limits (hard_worker_limits p) []) (\<lambda>hw.
       if (case (soft_max_branch_depth p, hard_max_branch_depth p) of
             (Some s, Some h) \<Rightarrow> h < s | _ \<Rightarrow> False)
       then Inl (ValidationError ''soft_max_branch_depth cannot exceed hard_max_branch_depth'')
       else if \<not> (0 \<le> exploration_reserve_fraction p \<and> exploration_reserve_fraction p < 1)
       then Inl (ValidationError ''exploration_reserve_fraction'')
       else Inr (p\<lparr>soft_worker_limits := sw, hard_worker_limits := hw\<rparr>)))"

record budget_demand =
  d_tasks :: rat
  d_cost :: rat
  d_requests :: rat
  d_candidates :: rat
  d_runtime_seconds :: rat
  d_concurrent_tasks :: rat

definition default_demand :: budget_demand where
  "default_demand = \<lparr>d_tasks = 1, d_cost = 0, d_requests = 0, d_candidates = 0,
     d_runtime_seconds = 0, d_concurrent_tasks = 1\<rparr>"

definition as_metric_amounts :: "budget_demand \<Rightarrow> (budget_metric, rat) dict" where
  "as_metric_amounts d =
     filter (\<lambda>(m, a). 0 < a)
       [(M_TASKS, d_tasks d), (M_COST, d_cost d), (M_REQUESTS, d_requests d),
        (M_CANDIDATES, d_candidates d), (M_RUNTIME_SECONDS, d_runtime_seconds d),
        (M_CONCURRENT_TASKS, d_concurrent_tasks d)]"

record budget_context =
  branch_depth :: int
  bc_resource_keys :: "string set"
  lane :: budget_lane
  branch_soft_multiplier :: rat

definition default_context :: budget_context where
  "default_context = \<lparr>branch_depth = 0, bc_resource_keys = {}, lane = L_NORMAL,
     branch_soft_multiplier = 1\<rparr>"

definition normalize_resource_keys :: "string set \<Rightarrow> string set" where
  "normalize_resource_keys ks = (\<lambda>k. lower (strip k)) ` {k \<in> ks. strip k \<noteq> []}"

type_synonym budget_key = "string \<times> budget_class \<times> budget_metric"

record budget_check =
  c_bucket_key :: string
  c_metric :: budget_metric
  c_class :: budget_class
  c_requested :: rat
  c_configured_limit :: rat
  c_effective_limit :: rat

record reservation_item =
  i_bucket_key :: string
  i_metric :: budget_metric
  i_class :: budget_class
  i_amount :: rat

record budget_reservation =
  r_id :: string
  r_task_id :: string
  r_items :: "reservation_item list"
  r_created_at :: time
  r_expires_at :: time
  r_state :: reservation_state

record budget_violation =
  v_bucket_key :: string
  v_metric :: budget_metric
  v_class :: budget_class
  v_committed :: rat
  v_reserved :: rat
  v_requested :: rat
  v_configured_limit :: rat
  v_effective_limit :: rat

record budget_decision =
  bd_outcome :: budget_outcome
  bd_task_id :: string
  bd_reservation :: "budget_reservation option"
  bd_violations :: "budget_violation list"
  bd_checked_limits :: "budget_check list"
  bd_reason :: "string option"
  bd_retry_after_seconds :: "rat option"

definition new_reservation_id :: "nat \<Rightarrow> string" where
  "new_reservation_id n = ''bgt_'' @ uuid_hex n"

definition check_key :: "budget_check \<Rightarrow> budget_key" where
  "check_key c = (c_bucket_key c, c_class c, c_metric c)"

definition item_key :: "reservation_item \<Rightarrow> budget_key" where
  "item_key i = (i_bucket_key i, i_class i, i_metric i)"

subsection \<open>Compiling checks\<close>

definition checks_for_caps ::
  "string \<Rightarrow> budget_caps \<Rightarrow> (budget_metric, rat) dict \<Rightarrow> budget_class \<Rightarrow> budget_context
    \<Rightarrow> rat \<Rightarrow> rat \<Rightarrow> budget_check list" where
  "checks_for_caps bucket_key caps amounts cls ctx reserve_fraction multiplier =
     [let configured_limit = configured * multiplier
      in \<lparr>c_bucket_key = bucket_key, c_metric = metric, c_class = cls,
          c_requested = the (dict_get amounts metric), c_configured_limit = configured_limit,
          c_effective_limit =
            (if cls = SOFT \<and> lane ctx = L_NORMAL then configured_limit * (1 - reserve_fraction)
             else configured_limit)\<rparr>.
      (metric, configured) \<leftarrow> as_metric_limits caps, dict_get amounts metric \<noteq> None]"

fun merge_loop :: "budget_check list \<Rightarrow> (budget_key, budget_check) dict \<Rightarrow> (budget_key, budget_check) dict res" where
  "merge_loop [] merged = Inr merged"
| "merge_loop (c # cs) merged =
     (case dict_get merged (check_key c) of
        None \<Rightarrow> merge_loop cs (dict_set (check_key c) c merged)
      | Some existing \<Rightarrow>
          if c_configured_limit existing \<noteq> c_configured_limit c
             \<or> c_effective_limit existing \<noteq> c_effective_limit c
          then Inl (ValueError ''conflicting budget limits'')
          else merge_loop cs
                 (dict_set (check_key c) (c\<lparr>c_requested := c_requested existing + c_requested c\<rparr>) merged))"

definition check_sort_key :: "budget_key \<Rightarrow> string \<times> string \<times> string" where
  "check_sort_key k = (case k of (b, c, m) \<Rightarrow> (b, class_value c, metric_value m))"

definition merge_checks :: "budget_check list \<Rightarrow> budget_check list res" where
  "merge_checks cs =
     bind_res (merge_loop cs [])
       (\<lambda>merged. Inr (map (\<lambda>k. the (dict_get merged k)) (sort_key check_sort_key (map fst merged))))"

definition class_checks ::
  "budget_profile \<Rightarrow> task \<Rightarrow> (budget_metric, rat) dict \<Rightarrow> budget_context \<Rightarrow> budget_class \<Rightarrow> budget_check list" where
  "class_checks p t amounts ctx cls =
     (let global_caps = (if cls = HARD then hard_global_limits p else soft_global_limits p);
          branch_caps = (if cls = HARD then hard_branch_limits p else soft_branch_limits p);
          resource_caps = (if cls = HARD then hard_resource_limits p else soft_resource_limits p);
          worker_caps = (if cls = HARD then dict_get (hard_worker_limits p) (t_worker t)
                         else dict_get (soft_worker_limits p) (t_worker t));
          f = exploration_reserve_fraction p
      in checks_for_caps ''global'' global_caps amounts cls ctx f 1
         @ (case worker_caps of None \<Rightarrow> []
            | Some wc \<Rightarrow> checks_for_caps (''worker:'' @ t_worker t) wc amounts cls ctx f 1)
         @ (case t_branch_id t of None \<Rightarrow> []
            | Some b \<Rightarrow> checks_for_caps (''branch:'' @ b) branch_caps amounts cls ctx f
                         (if cls = SOFT then branch_soft_multiplier ctx else 1))
         @ concat (map (\<lambda>rk. checks_for_caps (''resource:'' @ rk) resource_caps amounts cls ctx f 1)
                     (sorted_list_of_set (bc_resource_keys ctx))))"

definition compile_checks ::
  "budget_profile \<Rightarrow> task \<Rightarrow> budget_demand \<Rightarrow> budget_context \<Rightarrow> budget_check list res" where
  "compile_checks p t demand ctx =
     merge_checks (concat (map (class_checks p t (as_metric_amounts demand) ctx) [HARD, SOFT]))"

subsection \<open>The compiled checks\<close>

lemma as_metric_limits_distinct: "distinct (map fst (as_metric_limits c))"
  by (auto simp: as_metric_limits_def)

lemma checks_for_caps_keys:
  "map check_key (checks_for_caps b c a cls ctx f m)
     = map (\<lambda>x. (b, cls, x)) (filter (\<lambda>x. dict_get a x \<noteq> None) (map fst (as_metric_limits c)))"
proof -
  have "map check_key [let l = v * m in \<lparr>c_bucket_key = b, c_metric = x, c_class = cls,
          c_requested = the (dict_get a x), c_configured_limit = l,
          c_effective_limit = (if cls = SOFT \<and> lane ctx = L_NORMAL then l * (1 - f) else l)\<rparr>.
        (x, v) \<leftarrow> xs, dict_get a x \<noteq> None]
     = map (\<lambda>x. (b, cls, x)) (filter (\<lambda>x. dict_get a x \<noteq> None) (map fst xs))" for xs
    by (induction xs) (auto simp: check_key_def Let_def)
  then show ?thesis by (simp add: checks_for_caps_def)
qed

lemma checks_for_caps_distinct: "distinct (map check_key (checks_for_caps b c a cls ctx f m))"
proof -
  have "distinct (filter (\<lambda>x. dict_get a x \<noteq> None) (map fst (as_metric_limits c)))"
    by (rule distinct_filter[OF as_metric_limits_distinct])
  then show ?thesis unfolding checks_for_caps_keys by (subst distinct_map) (auto intro: inj_onI simp del: filter_map)
qed

lemma check_key_caps: "k \<in> check_key ` set (checks_for_caps b c a cls ctx f m) \<Longrightarrow> fst k = b \<and> fst (snd k) = cls"
  using arg_cong[OF checks_for_caps_keys[of b c a cls ctx f m], of set] by auto

lemma class_checks_distinct: "distinct (map check_key (class_checks p t a ctx cls))"
proof -
  have r: "distinct (map check_key (concat (map (\<lambda>rk. checks_for_caps (''resource:'' @ rk) rc a cls ctx f 1) ks)))"
    if "distinct ks" for ks rc f
    using that
  proof (induction ks)
    case (Cons x ks)
    have "check_key ` set (checks_for_caps (''resource:'' @ x) rc a cls ctx f 1)
        \<inter> check_key ` set (concat (map (\<lambda>rk. checks_for_caps (''resource:'' @ rk) rc a cls ctx f 1) ks)) = {}"
      using Cons.prems by (auto dest!: check_key_caps[OF imageI])
    with Cons show ?case by (simp add: checks_for_caps_distinct)
  qed simp
  show ?thesis
    unfolding class_checks_def Let_def
    using r[OF sorted_list_of_set.distinct_sorted_key_list_of_set]
    by (auto simp: checks_for_caps_distinct split: option.splits dest!: check_key_caps[OF imageI])
qed

end
