(* ===== verification/Dict_Sum.thy ===== *)
theory Dict_Sum
  imports Prelude
begin

section \<open>Sums over the values of a dictionary\<close>

text \<open>
  Both lease stores keep a counter per bucket beside the dictionary of leases; the counter is the sum
  of what the leases hold. The lemmas say how the sum changes when an entry is set or removed.
\<close>

lemma dict_pop_fresh: "k \<notin> fst ` set d \<Longrightarrow> dict_pop k d = d"
  by (induction d) auto

lemma set_values_dict_set:
  "x \<in> set (dict_set k v d) \<Longrightarrow> x = (k, v) \<or> x \<in> set d"
  by (induction d) (auto split: if_splits)

lemma set_dict_pop: "\<forall>x \<in> set d. P x \<Longrightarrow> \<forall>x \<in> set (dict_pop k d). P x"
  by (auto simp: AList.delete_eq)

definition dict_sum :: "('v \<Rightarrow> 'n::comm_monoid_add) \<Rightarrow> ('k, 'v) dict \<Rightarrow> 'n" where
  "dict_sum f d = sum_list (map (\<lambda>(_, v). f v) d)"

lemma dict_sum_simps [simp]:
  "dict_sum f [] = 0"
  "dict_sum f ((k, v) # d) = f v + dict_sum f d"
  by (simp_all add: dict_sum_def)

lemma dict_sum_append: "dict_sum f (d @ e) = dict_sum f d + dict_sum f e"
  by (simp add: dict_sum_def)

lemma dict_sum_pop:
  "dict_ok d \<Longrightarrow> dict_get d k = Some v \<Longrightarrow> dict_sum f d = f v + dict_sum f (dict_pop k d)"
proof (induction d)
  case (Cons x d)
  obtain a b where x: "x = (a, b)" by force
  show ?case
  proof (cases "a = k")
    case True
    with Cons.prems x have "k \<notin> fst ` set d" by auto
    then have "dict_pop k d = d" by (rule dict_pop_fresh)
    then show ?thesis using Cons.prems x True by simp
  next
    case False
    then show ?thesis using Cons x by (simp add: add.left_commute)
  qed
qed simp

lemma dict_sum_set:
  "dict_ok d \<Longrightarrow> dict_sum f (dict_set k v d) = f v + dict_sum f (dict_pop k d)"
proof (induction d)
  case (Cons x d)
  obtain a b where x: "x = (a, b)" by force
  show ?case
  proof (cases "a = k")
    case True
    with Cons.prems x have "k \<notin> fst ` set d" by auto
    then have "dict_pop k d = d" by (rule dict_pop_fresh)
    then show ?thesis using x True by simp
  next
    case False
    then show ?thesis using Cons x by (simp add: add.left_commute)
  qed
qed simp

lemma dict_sum_nonneg:
  fixes f :: "'v \<Rightarrow> 'n::ordered_comm_monoid_add"
  shows "\<forall>x \<in> set d. 0 \<le> f (snd x) \<Longrightarrow> 0 \<le> dict_sum f d"
  by (induction d) (auto simp: add_nonneg_nonneg)

end
