(* ===== verification/Budget_Store.thy ===== *)
theory Budget_Store
  imports Budgets Dict_Sum
begin

section \<open>InMemoryBudgetStore (recon/core/budgets.py)\<close>

text \<open>
  The store of budget reservations: the amounts committed and reserved per bucket, class and metric,
  and every reservation ever made. Each method runs under the store's lock and is one step here; what
  a method has mutated before it raises stays mutated. \<open>utc_now\<close> is the argument \<open>now\<close>. The
  invariant says that the reserved amount of a bucket is exactly what the ACTIVE reservations hold;
  it makes the \<open>RuntimeError\<close> of \<open>_subtract_reserved\<close> unreachable. The message of that exception is
  modelled up to the \<open>repr\<close> of the bucket.
\<close>

declare split_paired_All [simp del] split_paired_Ex [simp del]

definition tolerance :: rat where
  "tolerance = 1 / 1000000000"

record budget_store =
  bs_committed :: "(budget_key, rat) dict"
  bs_reserved :: "(budget_key, rat) dict"
  bs_reservations :: "(string, budget_reservation) dict"

definition empty_budget_store :: budget_store where
  "empty_budget_store = \<lparr>bs_committed = [], bs_reserved = [], bs_reservations = []\<rparr>"

abbreviation committed :: "budget_store \<Rightarrow> budget_key \<Rightarrow> rat" where
  "committed s k \<equiv> dict_default (bs_committed s) k 0"

abbreviation reserved :: "budget_store \<Rightarrow> budget_key \<Rightarrow> rat" where
  "reserved s k \<equiv> dict_default (bs_reserved s) k 0"

definition exceeds :: "budget_store \<Rightarrow> budget_check \<Rightarrow> bool" where
  "exceeds s c \<longleftrightarrow> committed s (check_key c) + reserved s (check_key c) + c_requested c
                     > c_effective_limit c + tolerance"

definition violation_of :: "budget_store \<Rightarrow> budget_check \<Rightarrow> budget_violation" where
  "violation_of s c = \<lparr>v_bucket_key = c_bucket_key c, v_metric = c_metric c, v_class = c_class c,
     v_committed = committed s (check_key c), v_reserved = reserved s (check_key c),
     v_requested = c_requested c, v_configured_limit = c_configured_limit c,
     v_effective_limit = c_effective_limit c\<rparr>"

fun add_items :: "reservation_item list \<Rightarrow> budget_store \<Rightarrow> budget_store" where
  "add_items [] s = s"
| "add_items (i # is) s =
     add_items is (s\<lparr>bs_reserved :=
       dict_set (item_key i) (reserved s (item_key i) + i_amount i) (bs_reserved s)\<rparr>)"

definition try_reserve ::
  "budget_reservation \<Rightarrow> budget_check list \<Rightarrow> (budget_store, bool \<times> budget_violation list) op" where
  "try_reserve r checks s =
     (if dict_get (bs_reservations s) (r_id r) \<noteq> None
      then (Inl (ValueError (''reservation already exists: '' @ r_id r)), s)
      else let violations = map (violation_of s) (filter (exceeds s) checks)
           in if violations \<noteq> [] then (Inr (False, violations), s)
              else (Inr (True, []),
                    add_items (r_items r)
                      (s\<lparr>bs_reservations := dict_set (r_id r) r (bs_reservations s)\<rparr>)))"

definition require_active :: "string \<Rightarrow> budget_store \<Rightarrow> budget_reservation res" where
  "require_active rid s =
     (case dict_get (bs_reservations s) rid of
        None \<Rightarrow> Inl (KeyError (''unknown budget reservation: '' @ rid))
      | Some r \<Rightarrow> if r_state r \<noteq> R_ACTIVE
                  then Inl (ValueError (''reservation '' @ rid @ '' is not ACTIVE''))
                  else Inr r)"

definition subtract_reserved :: "budget_key \<Rightarrow> rat \<Rightarrow> (budget_store, unit) op" where
  "subtract_reserved key amount s =
     (let updated = reserved s key - amount
      in if updated < - tolerance then (Inl (RuntimeError ''reserved budget underflow''), s)
         else if updated \<le> tolerance
         then (Inr (), s\<lparr>bs_reserved := dict_pop key (bs_reserved s)\<rparr>)
         else (Inr (), s\<lparr>bs_reserved := dict_set key updated (bs_reserved s)\<rparr>))"

fun commit_items :: "reservation_item list \<Rightarrow> (budget_store, unit) op" where
  "commit_items [] s = (Inr (), s)"
| "commit_items (i # is) s =
     bind_op (subtract_reserved (item_key i) (i_amount i))
       (\<lambda>_ s1. commit_items is
          (if is_capacity (i_metric i) then s1
           else s1\<lparr>bs_committed :=
             dict_set (item_key i) (committed s1 (item_key i) + i_amount i) (bs_committed s1)\<rparr>)) s"

fun release_items :: "reservation_item list \<Rightarrow> (budget_store, unit) op" where
  "release_items [] s = (Inr (), s)"
| "release_items (i # is) s =
     bind_op (subtract_reserved (item_key i) (i_amount i)) (\<lambda>_. release_items is) s"

definition set_reservation :: "string \<Rightarrow> budget_reservation \<Rightarrow> (budget_store, budget_reservation) op" where
  "set_reservation rid r s = (Inr r, s\<lparr>bs_reservations := dict_set rid r (bs_reservations s)\<rparr>)"

definition commit_reservation :: "string \<Rightarrow> (budget_store, budget_reservation) op" where
  "commit_reservation rid s =
     (case require_active rid s of
        Inl e \<Rightarrow> (Inl e, s)
      | Inr r \<Rightarrow> bind_op (commit_items (r_items r))
                  (\<lambda>_. set_reservation rid (r\<lparr>r_state := R_COMMITTED\<rparr>)) s)"

definition release_reservation :: "string \<Rightarrow> (budget_store, budget_reservation) op" where
  "release_reservation rid s =
     (case require_active rid s of
        Inl e \<Rightarrow> (Inl e, s)
      | Inr r \<Rightarrow> bind_op (release_items (r_items r))
                  (\<lambda>_. set_reservation rid (r\<lparr>r_state := R_RELEASED\<rparr>)) s)"

definition renew_reservation :: "string \<Rightarrow> time \<Rightarrow> time \<Rightarrow> (budget_store, budget_reservation) op" where
  "renew_reservation rid expires_at now s =
     (case require_active rid s of
        Inl e \<Rightarrow> (Inl e, s)
      | Inr r \<Rightarrow> if expires_at \<le> now then (Inl (ValueError ''expires_at must be in the future''), s)
                 else set_reservation rid (r\<lparr>r_expires_at := expires_at\<rparr>) s)"

fun reap_loop ::
  "time \<Rightarrow> (string \<times> budget_reservation) list \<Rightarrow> (budget_store, budget_reservation list) op" where
  "reap_loop now [] s = (Inr [], s)"
| "reap_loop now ((rid, r) # rest) s =
     (if r_state r \<noteq> R_ACTIVE \<or> r_expires_at r > now then reap_loop now rest s
      else bind_op (release_items (r_items r))
             (\<lambda>_. bind_op (set_reservation rid (r\<lparr>r_state := R_EXPIRED\<rparr>))
                (\<lambda>u. bind_op (reap_loop now rest) (\<lambda>us s1. (Inr (u # us), s1)))) s)"

definition reap_expired :: "time \<Rightarrow> (budget_store, budget_reservation list) op" where
  "reap_expired now s = reap_loop now (bs_reservations s) s"

definition usage :: "budget_key \<Rightarrow> budget_store \<Rightarrow> rat \<times> rat" where
  "usage k s = (committed s k, reserved s k)"

definition get_reservation :: "string \<Rightarrow> budget_store \<Rightarrow> budget_reservation option" where
  "get_reservation rid s = dict_get (bs_reservations s) rid"

subsection \<open>The amounts held by ACTIVE reservations\<close>

definition on_key :: "reservation_item list \<Rightarrow> budget_key \<Rightarrow> rat" where
  "on_key is k = sum_list (map i_amount (filter (\<lambda>i. item_key i = k) is))"

definition held :: "budget_reservation \<Rightarrow> budget_key \<Rightarrow> rat" where
  "held r k = (if r_state r = R_ACTIVE then on_key (r_items r) k else 0)"

definition total_held :: "(string, budget_reservation) dict \<Rightarrow> budget_key \<Rightarrow> rat" where
  "total_held d k = dict_sum (\<lambda>r. held r k) d"

definition items_ok :: "reservation_item list \<Rightarrow> bool" where
  "items_ok is \<longleftrightarrow> (\<forall>i \<in> set is. tolerance < i_amount i)"

definition budget_inv :: "budget_store \<Rightarrow> bool" where
  "budget_inv s \<longleftrightarrow> dict_ok (bs_reservations s)
     \<and> (\<forall>(rid, r) \<in> set (bs_reservations s). r_id r = rid \<and> items_ok (r_items r))
     \<and> (\<forall>k. reserved s k = total_held (bs_reservations s) k)"

lemma tolerance_pos: "0 < tolerance"
  by (simp add: tolerance_def)

text \<open>What a set of items contributes to a bucket is nothing or above the tolerance.\<close>

definition chunky :: "rat \<Rightarrow> bool" where
  "chunky x \<longleftrightarrow> x = 0 \<or> tolerance < x"

lemma chunky_0 [simp]: "chunky 0" by (simp add: chunky_def)

lemma chunky_add: "chunky x \<Longrightarrow> chunky y \<Longrightarrow> chunky (x + y)"
  using tolerance_pos by (auto simp: chunky_def)

lemma chunky_nonneg: "chunky x \<Longrightarrow> 0 \<le> x"
  using tolerance_pos by (auto simp: chunky_def)

lemma on_key_simps [simp]:
  "on_key [] k = 0"
  "on_key (i # is) k = (if item_key i = k then i_amount i else 0) + on_key is k"
  by (simp_all add: on_key_def)

lemma items_ok_simps [simp]:
  "items_ok []" "items_ok (i # is) \<longleftrightarrow> tolerance < i_amount i \<and> items_ok is"
  by (simp_all add: items_ok_def)

lemma on_key_chunky: "items_ok is \<Longrightarrow> chunky (on_key is k)"
proof (induction "is")
  case (Cons i "is")
  have "chunky (if item_key i = k then i_amount i else 0)" using Cons.prems by (simp add: chunky_def)
  with Cons show ?case using chunky_add by simp
qed simp

lemma held_chunky: "items_ok (r_items r) \<Longrightarrow> chunky (held r k)"
  by (simp add: held_def on_key_chunky)

lemma total_held_simps [simp]:
  "total_held [] k = 0"
  "total_held ((rid, r) # d) k = held r k + total_held d k"
  by (simp_all add: total_held_def)

lemma total_held_append: "total_held (d @ e) k = total_held d k + total_held e k"
  by (simp add: total_held_def dict_sum_append)

lemma total_held_chunky: "\<forall>(rid, r) \<in> set d. items_ok (r_items r) \<Longrightarrow> chunky (total_held d k)"
  by (induction d) (auto intro!: chunky_add intro: held_chunky)

lemma total_held_pop:
  "dict_ok d \<Longrightarrow> dict_get d rid = Some r \<Longrightarrow> total_held d k = held r k + total_held (dict_pop rid d) k"
  by (simp add: total_held_def dict_sum_pop)

lemma total_held_set:
  "dict_ok d \<Longrightarrow> total_held (dict_set rid r' d) k = held r' k + total_held (dict_pop rid d) k"
  by (simp add: total_held_def dict_sum_set)

subsection \<open>The store operations\<close>

lemma reservations_pop_ok:
  "\<forall>(rid, r) \<in> set d. items_ok (r_items r) \<Longrightarrow> \<forall>(rid, r) \<in> set (dict_pop i d). items_ok (r_items r)"
  by (rule set_dict_pop)

lemma budget_invD:
  assumes "budget_inv s"
  shows "dict_ok (bs_reservations s)"
    and "dict_get (bs_reservations s) rid = Some r \<Longrightarrow> r_id r = rid \<and> items_ok (r_items r)"
    and "reserved s k = total_held (bs_reservations s) k"
    and "chunky (total_held (dict_pop i (bs_reservations s)) k)"
    and "0 \<le> reserved s k"
proof -
  show 1: "dict_ok (bs_reservations s)" and r: "reserved s k = total_held (bs_reservations s) k"
    using assms by (auto simp: budget_inv_def)
  show "dict_get (bs_reservations s) rid = Some r \<Longrightarrow> r_id r = rid \<and> items_ok (r_items r)"
    using assms map_of_SomeD unfolding budget_inv_def by fastforce
  have ok: "\<forall>(rid, r) \<in> set (bs_reservations s). items_ok (r_items r)"
    using assms by (auto simp: budget_inv_def)
  show "chunky (total_held (dict_pop i (bs_reservations s)) k)"
    by (rule total_held_chunky[OF reservations_pop_ok[OF ok]])
  show "0 \<le> reserved s k"
    unfolding r by (rule chunky_nonneg[OF total_held_chunky[OF ok]])
qed

lemma subtract_reserved_spec:
  assumes "reserved s k = x + a" and "chunky x"
  shows "\<exists>s'. subtract_reserved k a s = (Inr (), s') \<and> bs_committed s' = bs_committed s
    \<and> bs_reservations s' = bs_reservations s \<and> (\<forall>j. reserved s' j = (if j = k then x else reserved s j))"
  using assms tolerance_pos by (auto simp: subtract_reserved_def Let_def chunky_def)

lemma release_items_spec:
  assumes "items_ok is" and "\<forall>k. chunky (g k)" and "\<forall>k. reserved s k = g k + on_key is k"
  shows "\<exists>s'. release_items is s = (Inr (), s') \<and> bs_committed s' = bs_committed s
    \<and> bs_reservations s' = bs_reservations s \<and> (\<forall>k. reserved s' k = g k)"
  using assms
proof (induction "is" arbitrary: s)
  case (Cons i "is")
  let ?k = "item_key i"
  have "reserved s ?k = (g ?k + on_key is ?k) + i_amount i" using Cons.prems(3) by simp
  moreover have "chunky (g ?k + on_key is ?k)"
    using Cons.prems by (intro chunky_add on_key_chunky) auto
  ultimately obtain s1 where s1: "subtract_reserved ?k (i_amount i) s = (Inr (), s1)"
    "bs_committed s1 = bs_committed s" "bs_reservations s1 = bs_reservations s"
    "\<forall>j. reserved s1 j = (if j = ?k then g ?k + on_key is ?k else reserved s j)"
    using subtract_reserved_spec by metis
  have "\<forall>k. reserved s1 k = g k + on_key is k" using s1(4) Cons.prems(3) by simp
  with Cons.IH[of s1] Cons.prems(1,2) s1 show ?case by (simp add: bind_op_def)
qed simp

lemma commit_items_spec:
  assumes "items_ok is" and "\<forall>k. chunky (g k)" and "\<forall>k. reserved s k = g k + on_key is k"
  shows "\<exists>s'. commit_items is s = (Inr (), s') \<and> bs_reservations s' = bs_reservations s
    \<and> (\<forall>k. reserved s' k = g k)
    \<and> (\<forall>k. committed s' k = committed s k + (if is_capacity (snd (snd k)) then 0 else on_key is k))"
  using assms
proof (induction "is" arbitrary: s)
  case (Cons i "is")
  let ?k = "item_key i"
  have "reserved s ?k = (g ?k + on_key is ?k) + i_amount i" using Cons.prems(3) by simp
  moreover have "chunky (g ?k + on_key is ?k)"
    using Cons.prems by (intro chunky_add on_key_chunky) auto
  ultimately obtain s1 where s1: "subtract_reserved ?k (i_amount i) s = (Inr (), s1)"
    "bs_committed s1 = bs_committed s" "bs_reservations s1 = bs_reservations s"
    "\<forall>j. reserved s1 j = (if j = ?k then g ?k + on_key is ?k else reserved s j)"
    using subtract_reserved_spec by metis
  define s2 where "s2 = (if is_capacity (i_metric i) then s1 else s1\<lparr>bs_committed :=
    dict_set ?k (committed s1 ?k + i_amount i) (bs_committed s1)\<rparr>)"
  have r: "\<forall>k. reserved s2 k = g k + on_key is k"
    using s1(4) Cons.prems(3) by (simp add: s2_def)
  have c: "\<forall>k. committed s2 k = committed s k + (if is_capacity (snd (snd k)) \<or> k \<noteq> ?k then 0 else i_amount i)"
    using s1(2) by (auto simp: s2_def item_key_def)
  have "commit_items (i # is) s = commit_items is s2"
    using s1(1) by (simp add: bind_op_def s2_def)
  with Cons.IH[of s2] Cons.prems(1,2) r c s1(3) show ?case by (auto simp: s2_def)
qed simp

definition with_state :: "reservation_state \<Rightarrow> budget_reservation \<Rightarrow> budget_reservation" where
  "with_state st r = r\<lparr>r_state := st\<rparr>"

lemma with_state_simps [simp]:
  "r_items (with_state st r) = r_items r" "r_id (with_state st r) = r_id r"
  "r_state (with_state st r) = st"
  by (simp_all add: with_state_def)

lemma held_closed [simp]: "st \<noteq> R_ACTIVE \<Longrightarrow> held (with_state st r) k = 0"
  by (simp add: held_def)

lemma closed_inv:
  assumes inv: "budget_inv s" and r: "dict_get (bs_reservations s) rid = Some r"
    and st: "st \<noteq> R_ACTIVE"
    and s': "bs_reservations s' = dict_set rid (with_state st r) (bs_reservations s)"
      "\<forall>k. reserved s' k = total_held (dict_pop rid (bs_reservations s)) k"
  shows "budget_inv s'"
proof -
  have "total_held (bs_reservations s') k = total_held (dict_pop rid (bs_reservations s)) k" for k
    unfolding s'(1) total_held_set[OF budget_invD(1)[OF inv]] using st by simp
  moreover have "dict_ok (bs_reservations s')" unfolding s'(1) by (rule dict_ok_set[OF budget_invD(1)[OF inv]])
  moreover have "\<forall>(i, q) \<in> set (bs_reservations s'). r_id q = i \<and> items_ok (r_items q)"
  proof (clarify)
    fix i q
    assume "(i, q) \<in> set (bs_reservations s')"
    then have "(i, q) = (rid, with_state st r) \<or> (i, q) \<in> set (bs_reservations s)"
      unfolding s'(1) by (rule set_values_dict_set)
    then show "r_id q = i \<and> items_ok (r_items q)"
      using budget_invD(2)[OF inv r] inv unfolding budget_inv_def by auto
  qed
  ultimately show ?thesis using s'(2) by (simp add: budget_inv_def)
qed

lemma reserved_split:
  assumes inv: "budget_inv s" and r: "dict_get (bs_reservations s) rid = Some r" "r_state r = R_ACTIVE"
  shows "reserved s k = total_held (dict_pop rid (bs_reservations s)) k + on_key (r_items r) k"
  using budget_invD(3)[OF inv] total_held_pop[OF budget_invD(1)[OF inv] r(1)] r(2)
  by (simp add: held_def)

lemma require_active_Inr:
  "require_active rid s = Inr r \<longleftrightarrow> get_reservation rid s = Some r \<and> r_state r = R_ACTIVE"
  by (auto simp: require_active_def get_reservation_def split: option.splits)

lemma require_active_Inl:
  "\<not> (\<exists>r. get_reservation rid s = Some r \<and> r_state r = R_ACTIVE) \<Longrightarrow> \<exists>e. require_active rid s = Inl e"
  by (cases "require_active rid s") (auto simp: require_active_Inr)

text \<open>What commit, release and a reap do to one ACTIVE reservation.\<close>

definition closes :: "reservation_state \<Rightarrow> budget_reservation \<Rightarrow> budget_store \<Rightarrow> budget_store \<Rightarrow> bool" where
  "closes st r s s' \<longleftrightarrow> budget_inv s'
     \<and> bs_reservations s' = dict_set (r_id r) (with_state st r) (bs_reservations s)
     \<and> (\<forall>k. reserved s' k = reserved s k - on_key (r_items r) k)
     \<and> (\<forall>k. committed s' k = committed s k
          + (if st = R_COMMITTED \<and> \<not> is_capacity (snd (snd k)) then on_key (r_items r) k else 0))"

lemma commit_spec:
  assumes inv: "budget_inv s" and r: "get_reservation rid s = Some r" "r_state r = R_ACTIVE"
  shows "\<exists>s'. commit_reservation rid s = (Inr (with_state R_COMMITTED r), s') \<and> closes R_COMMITTED r s s'"
proof -
  let ?g = "total_held (dict_pop rid (bs_reservations s))"
  note r' = r(1)[unfolded get_reservation_def]
  have id: "r_id r = rid" and ok: "items_ok (r_items r)" using budget_invD(2)[OF inv r'] by auto
  note sp = reserved_split[OF inv r' r(2)]
  obtain s1 where s1: "commit_items (r_items r) s = (Inr (), s1)" "bs_reservations s1 = bs_reservations s"
    "\<forall>k. reserved s1 k = ?g k"
    "\<forall>k. committed s1 k = committed s k + (if is_capacity (snd (snd k)) then 0 else on_key (r_items r) k)"
    using commit_items_spec[OF ok, of ?g s] sp budget_invD(4)[OF inv] by blast
  let ?s = "s1\<lparr>bs_reservations := dict_set rid (with_state R_COMMITTED r) (bs_reservations s1)\<rparr>"
  have "commit_reservation rid s = (Inr (with_state R_COMMITTED r), ?s)"
    using r s1(1) by (simp add: commit_reservation_def require_active_Inr[THEN iffD2] bind_op_def
        set_reservation_def with_state_def)
  moreover have "budget_inv ?s" using s1(2,3) by (intro closed_inv[OF inv r']) auto
  ultimately show ?thesis using s1 id sp by (auto simp: closes_def)
qed

lemma release_spec:
  assumes inv: "budget_inv s" and r: "get_reservation rid s = Some r" "r_state r = R_ACTIVE"
    and st: "st \<noteq> R_ACTIVE" "st \<noteq> R_COMMITTED"
  shows "\<exists>s1. release_items (r_items r) s = (Inr (), s1)
    \<and> closes st r s (s1\<lparr>bs_reservations := dict_set rid (with_state st r) (bs_reservations s1)\<rparr>)"
proof -
  let ?g = "total_held (dict_pop rid (bs_reservations s))"
  note r' = r(1)[unfolded get_reservation_def]
  have id: "r_id r = rid" and ok: "items_ok (r_items r)" using budget_invD(2)[OF inv r'] by auto
  note sp = reserved_split[OF inv r' r(2)]
  obtain s1 where s1: "release_items (r_items r) s = (Inr (), s1)" "bs_reservations s1 = bs_reservations s"
    "\<forall>k. reserved s1 k = ?g k" "bs_committed s1 = bs_committed s"
    using release_items_spec[OF ok, of ?g s] sp budget_invD(4)[OF inv] by blast
  let ?s = "s1\<lparr>bs_reservations := dict_set rid (with_state st r) (bs_reservations s1)\<rparr>"
  have "budget_inv ?s" using s1(2,3) st by (intro closed_inv[OF inv r', of st]) auto
  then show ?thesis using s1 id sp st by (auto simp: closes_def)
qed

lemma release_reservation_spec:
  assumes inv: "budget_inv s" and r: "get_reservation rid s = Some r" "r_state r = R_ACTIVE"
  shows "\<exists>s'. release_reservation rid s = (Inr (with_state R_RELEASED r), s') \<and> closes R_RELEASED r s s'"
  using release_spec[OF assms, of R_RELEASED] r
  by (auto simp: release_reservation_def require_active_Inr[THEN iffD2] bind_op_def
      set_reservation_def with_state_def)

lemma close_refused:
  assumes "\<not> (\<exists>r. get_reservation rid s = Some r \<and> r_state r = R_ACTIVE)"
  shows "\<exists>e. commit_reservation rid s = (Inl e, s)" and "\<exists>e. release_reservation rid s = (Inl e, s)"
    and "\<exists>e. renew_reservation rid x now s = (Inl e, s)"
  using require_active_Inl[OF assms]
  by (auto simp: commit_reservation_def release_reservation_def renew_reservation_def)

end
