(* ===== verification/Budget_Manager.thy ===== *)
theory Budget_Manager
  imports Budget_Store
begin

section \<open>BudgetManager (recon/core/budgets.py)\<close>

text \<open>
  The manager over the in-memory store: \<open>reserve\<close> with its depth limits, its compiled checks and its
  three outcomes, and the methods that finish, extend and reap reservations. Clock readings are
  arguments, as is the number the reservation id is drawn from. The class validators make every
  constructed value of \<open>reserve\<close> valid: requested amounts are positive by \<open>as_metric_amounts\<close>, and
  the lease is positive.
\<close>

record budget_manager =
  bm_profile :: budget_profile
  bm_capacity_retry_after :: timedelta

definition make_budget_manager :: "budget_profile option \<Rightarrow> timedelta \<Rightarrow> budget_manager res" where
  "make_budget_manager profile retry =
     (if retry < 0 then Inl (ValueError ''capacity_retry_after cannot be negative'')
      else Inr \<lparr>bm_profile = (case profile of None \<Rightarrow> default_profile | Some p \<Rightarrow> p),
                bm_capacity_retry_after = retry\<rparr>)"

definition too_deep :: "int option \<Rightarrow> budget_context \<Rightarrow> bool" where
  "too_deep limit ctx = (case limit of None \<Rightarrow> False | Some d \<Rightarrow> branch_depth ctx > d)"

definition plain_decision :: "budget_outcome \<Rightarrow> task \<Rightarrow> string \<Rightarrow> budget_decision" where
  "plain_decision out t reason = \<lparr>bd_outcome = out, bd_task_id = t_task_id t, bd_reservation = None,
     bd_violations = [], bd_checked_limits = [], bd_reason = Some reason,
     bd_retry_after_seconds = None\<rparr>"

definition make_reservation ::
  "nat \<Rightarrow> task \<Rightarrow> budget_check list \<Rightarrow> time \<Rightarrow> timedelta \<Rightarrow> budget_reservation" where
  "make_reservation uuid t checks now lease_for =
     \<lparr>r_id = new_reservation_id uuid, r_task_id = t_task_id t,
      r_items = map (\<lambda>c. \<lparr>i_bucket_key = c_bucket_key c, i_metric = c_metric c,
                           i_class = c_class c, i_amount = c_requested c\<rparr>) checks,
      r_created_at = now, r_expires_at = now + lease_for, r_state = R_ACTIVE\<rparr>"

definition refusal ::
  "budget_manager \<Rightarrow> task \<Rightarrow> budget_check list \<Rightarrow> budget_violation list \<Rightarrow> budget_decision" where
  "refusal m t checks violations =
     (let permanent = filter (\<lambda>v. \<not> is_capacity (v_metric v)) violations
      in if permanent \<noteq> []
         then \<lparr>bd_outcome = B_DENY, bd_task_id = t_task_id t, bd_reservation = None,
               bd_violations = violations, bd_checked_limits = checks,
               bd_reason = Some (if \<exists>v \<in> set permanent. v_class v = HARD
                 then ''hard cumulative budget limit would be exceeded''
                 else ''soft exploration budget exhausted; close frontier task''),
               bd_retry_after_seconds = None\<rparr>
         else \<lparr>bd_outcome = B_DEFER, bd_task_id = t_task_id t, bd_reservation = None,
               bd_violations = violations, bd_checked_limits = checks,
               bd_reason = Some (if \<exists>v \<in> set violations. v_class v = HARD
                 then ''hard execution capacity exhausted; preserve task in frontier''
                 else ''soft execution capacity exhausted; preserve task until capacity is released''),
               bd_retry_after_seconds = Some (total_seconds (bm_capacity_retry_after m))\<rparr>)"

definition budget_reserve ::
  "budget_manager \<Rightarrow> nat \<Rightarrow> time \<Rightarrow> task \<Rightarrow> budget_demand \<Rightarrow> budget_context \<Rightarrow> timedelta
    \<Rightarrow> (budget_store, budget_decision) op" where
  "budget_reserve m uuid now t demand ctx lease_for s =
     (if lease_for \<le> 0 then (Inl (ValueError ''lease_for must be positive''), s)
      else if too_deep (hard_max_branch_depth (bm_profile m)) ctx
      then (Inr (plain_decision B_DENY t ''branch depth exceeds hard maximum''), s)
      else if too_deep (soft_max_branch_depth (bm_profile m)) ctx
      then (Inr (plain_decision B_DENY t ''soft exploration depth exhausted; close frontier task''), s)
      else (case compile_checks (bm_profile m) t demand ctx of
              Inl e \<Rightarrow> (Inl e, s)
            | Inr checks \<Rightarrow>
                if checks = [] then (Inr (plain_decision B_ALLOW t ''no matching budget limits''), s)
                else let r = make_reservation uuid t checks now lease_for
                     in (case try_reserve r checks s of
                           (Inl e, s1) \<Rightarrow> (Inl e, s1)
                         | (Inr (allowed, violations), s1) \<Rightarrow>
                             (Inr (if allowed
                                   then \<lparr>bd_outcome = B_ALLOW, bd_task_id = t_task_id t,
                                         bd_reservation = Some r, bd_violations = [],
                                         bd_checked_limits = checks, bd_reason = None,
                                         bd_retry_after_seconds = None\<rparr>
                                   else refusal m t checks violations), s1))))"

definition budget_commit :: "string \<Rightarrow> (budget_store, budget_reservation) op" where
  "budget_commit rid = commit_reservation rid"

definition budget_release :: "string \<Rightarrow> (budget_store, budget_reservation) op" where
  "budget_release rid = release_reservation rid"

definition budget_renew ::
  "string \<Rightarrow> timedelta \<Rightarrow> time \<Rightarrow> time \<Rightarrow> (budget_store, budget_reservation) op" where
  "budget_renew rid lease_for now now' s =
     (if lease_for \<le> 0 then (Inl (ValueError ''lease_for must be positive''), s)
      else renew_reservation rid (now + lease_for) now' s)"

definition budget_reap :: "time \<Rightarrow> (budget_store, budget_reservation list) op" where
  "budget_reap now = reap_expired now"

subsection \<open>The compiled checks of a request\<close>

lemma merge_loop_distinct:
  "distinct (map fst merged @ map check_key cs) \<Longrightarrow>
   merge_loop cs merged = Inr (merged @ map (\<lambda>c. (check_key c, c)) cs)"
proof (induction cs arbitrary: merged)
  case (Cons c cs)
  then have "dict_get merged (check_key c) = None" by (auto simp: map_of_eq_None_iff)
  moreover from this have "dict_set (check_key c) c merged = merged @ [(check_key c, c)]"
    by (rule dict_set_fresh)
  ultimately show ?case using Cons by simp
qed simp

definition all_checks ::
  "budget_profile \<Rightarrow> task \<Rightarrow> budget_demand \<Rightarrow> budget_context \<Rightarrow> budget_check list" where
  "all_checks p t demand ctx = concat (map (class_checks p t (as_metric_amounts demand) ctx) [HARD, SOFT])"

lemma class_checks_class: "c \<in> set (class_checks p t a ctx cls) \<Longrightarrow> c_class c = cls"
  by (auto simp: class_checks_def checks_for_caps_def Let_def split: option.splits)

lemma all_checks_distinct: "distinct (map check_key (all_checks p t demand ctx))"
proof -
  have "check_key ` set (class_checks p t a ctx HARD) \<inter> check_key ` set (class_checks p t a ctx SOFT) = {}" for a
    by (auto simp: check_key_def dest!: class_checks_class)
  then show ?thesis by (simp add: all_checks_def class_checks_distinct)
qed

lemma compile_checks_spec:
  obtains cs where "compile_checks p t demand ctx = Inr cs" and "distinct (map check_key cs)"
    and "set cs = set (all_checks p t demand ctx)"
proof -
  let ?a = "all_checks p t demand ctx"
  let ?m = "map (\<lambda>c. (check_key c, c)) ?a"
  let ?k = "sort_key check_sort_key (map check_key ?a)"
  have fst: "map fst ?m = map check_key ?a" by simp
  have look: "dict_get ?m (check_key c) = Some c" if "c \<in> set ?a" for c
    using that all_checks_distinct[of p t demand ctx] by (intro map_of_is_SomeI) (auto simp: comp_def)
  let ?cs = "map (\<lambda>k. the (dict_get ?m k)) ?k"
  have 1: "compile_checks p t demand ctx = Inr ?cs"
  proof -
    have "merge_loop ?a [] = Inr ?m"
      using merge_loop_distinct[of "[]" ?a] all_checks_distinct[of p t demand ctx] by simp
    then show ?thesis
      unfolding compile_checks_def merge_checks_def all_checks_def[symmetric] by (simp add: comp_def)
  qed
  have "check_key (the (dict_get ?m k)) = k" if "k \<in> set ?k" for k
    using that look by auto
  then have "map check_key ?cs = ?k" unfolding map_map by (intro map_idI) (simp only: comp_apply)
  moreover have "distinct ?k" using all_checks_distinct[of p t demand ctx] by simp
  ultimately have 2: "distinct (map check_key ?cs)" by simp
  have "set ?cs = (\<lambda>c. the (dict_get ?m (check_key c))) ` set ?a" by (simp add: image_image)
  also have "\<dots> = set ?a" using look by force
  finally show thesis by (rule that[OF 1 2])
qed

subsection \<open>What a granted reservation adds\<close>

lemma add_items_spec:
  "bs_committed (add_items is s) = bs_committed s" "bs_reservations (add_items is s) = bs_reservations s"
  "reserved (add_items is s) k = reserved s k + on_key is k"
  by (induction "is" arbitrary: s) auto

lemma on_key_other: "k \<notin> item_key ` set is \<Longrightarrow> on_key is k = 0"
  by (induction "is") auto

lemma on_key_distinct: "distinct (map item_key is) \<Longrightarrow> i \<in> set is \<Longrightarrow> on_key is (item_key i) = i_amount i"
  by (induction "is") (auto simp: on_key_other)

abbreviation items_of :: "budget_check list \<Rightarrow> reservation_item list" where
  "items_of \<equiv> map (\<lambda>c. \<lparr>i_bucket_key = c_bucket_key c, i_metric = c_metric c,
     i_class = c_class c, i_amount = c_requested c\<rparr>)"

lemma on_items_of:
  assumes "distinct (map check_key cs)"
  shows "c \<in> set cs \<Longrightarrow> on_key (items_of cs) (check_key c) = c_requested c"
    and "k \<notin> check_key ` set cs \<Longrightarrow> on_key (items_of cs) k = 0"
  using assms by (induction cs) (auto simp: on_key_other check_key_def item_key_def image_image)

lemma try_reserve_granted:
  assumes inv: "budget_inv s" and ok: "items_ok (r_items r)" "r_state r = R_ACTIVE"
    and new: "get_reservation (r_id r) s = None" and fits: "\<forall>c \<in> set cs. \<not> exceeds s c"
  shows "\<exists>s'. try_reserve r cs s = (Inr (True, []), s') \<and> budget_inv s'
    \<and> bs_committed s' = bs_committed s
    \<and> bs_reservations s' = dict_set (r_id r) r (bs_reservations s)
    \<and> (\<forall>k. reserved s' k = reserved s k + on_key (r_items r) k)"
proof -
  let ?s = "add_items (r_items r) (s\<lparr>bs_reservations := dict_set (r_id r) r (bs_reservations s)\<rparr>)"
  note new' = new[unfolded get_reservation_def]
  have "filter (exceeds s) cs = []" using fits by (simp add: filter_empty_conv)
  then have t: "try_reserve r cs s = (Inr (True, []), ?s)" using new' by (simp add: try_reserve_def)
  have "budget_inv ?s"
    unfolding budget_inv_def
  proof (intro conjI allI)
    show "dict_ok (bs_reservations ?s)" using budget_invD(1)[OF inv] by (simp add: add_items_spec)
    show "\<forall>(rid, q) \<in> set (bs_reservations ?s). r_id q = rid \<and> items_ok (r_items q)"
      using inv ok(1) by (auto simp: add_items_spec budget_inv_def dest!: set_values_dict_set)
    show "reserved ?s k = total_held (bs_reservations ?s) k" for k
      using budget_invD(3)[OF inv] new' ok(2)
      by (simp add: add_items_spec dict_set_fresh total_held_append held_def)
  qed
  with t show ?thesis by (simp add: add_items_spec)
qed

lemma try_reserve_refused:
  "c \<in> set cs \<Longrightarrow> exceeds s c \<Longrightarrow> get_reservation (r_id r) s = None \<Longrightarrow>
   try_reserve r cs s = (Inr (False, map (violation_of s) (filter (exceeds s) cs)), s)"
  by (auto simp: try_reserve_def get_reservation_def filter_empty_conv Let_def)

end
