(* ===== verification/Lease_Store.thy ===== *)
theory Lease_Store
  imports Prelude
begin

section \<open>The contract of a lease store\<close>

text \<open>
  Night Scout hands out two kinds of lease that a crashed worker may never give back: budget
  reservations (recon/core/budgets.py) and rate leases (recon/policy/rate_limit.py). Both stores
  promise the same: closing an ACTIVE lease succeeds and closes only it, closing any other id raises
  and changes nothing, and a reap closes exactly the expired ACTIVE leases. The lemmas are what the
  callers rely on, whatever they interleave.
\<close>

datatype ('c, 'i) lease_act = Close 'c 'i | Reap time

locale lease_store =
  fixes active :: "'s \<Rightarrow> 'i \<Rightarrow> bool"
    and lapsed :: "time \<Rightarrow> 's \<Rightarrow> 'i \<Rightarrow> bool"
    and close :: "'c \<Rightarrow> 'i \<Rightarrow> 's \<Rightarrow> 'r res \<times> 's"
    and reap :: "time \<Rightarrow> 's \<Rightarrow> 'r list res \<times> 's"
    and inv :: "'s \<Rightarrow> bool"
  assumes close_active: "inv s \<Longrightarrow> active s i \<Longrightarrow>
      (\<exists>r. fst (close c i s) = Inr r) \<and> inv (snd (close c i s))
      \<and> active (snd (close c i s)) = (active s)(i := False)"
    and close_inactive: "inv s \<Longrightarrow> \<not> active s i \<Longrightarrow> \<exists>e. close c i s = (Inl e, s)"
    and reap_lapsed: "inv s \<Longrightarrow> (\<exists>rs. fst (reap now s) = Inr rs) \<and> inv (snd (reap now s))
      \<and> (\<forall>i. active (snd (reap now s)) i \<longleftrightarrow> active s i \<and> \<not> lapsed now s i)"
begin

fun act :: "('c, 'i) lease_act \<Rightarrow> 's \<Rightarrow> 's" where
  "act (Close c i) s = snd (close c i s)"
| "act (Reap now) s = snd (reap now s)"

text \<open>How often the sequence of actions closed the lease \<open>i\<close> with success.\<close>

fun closings :: "'i \<Rightarrow> ('c, 'i) lease_act list \<Rightarrow> 's \<Rightarrow> nat" where
  "closings i [] s = 0"
| "closings i (Close c j # as) s =
     (if j = i \<and> (\<exists>r. fst (close c j s) = Inr r) then 1 else 0) + closings i as (snd (close c j s))"
| "closings i (Reap now # as) s = closings i as (snd (reap now s))"

lemma act_inv: "inv s \<Longrightarrow> inv (act a s)"
proof (cases a)
  case (Close c i)
  assume inv: "inv s"
  show ?thesis
  proof (cases "active s i")
    case True
    with close_active[OF inv, of i c] show ?thesis using Close by simp
  next
    case False
    with close_inactive[OF inv, of i c] inv show ?thesis using Close by auto
  qed
next
  case (Reap now)
  then show "inv s \<Longrightarrow> ?thesis" using reap_lapsed[of s now] by simp
qed

lemma act_never_revives: "inv s \<Longrightarrow> \<not> active s i \<Longrightarrow> \<not> active (act a s) i"
proof (cases a)
  case (Close c j)
  assume inv: "inv s" and i: "\<not> active s i"
  show ?thesis
  proof (cases "active s j")
    case True
    with close_active[OF inv, of j c] i show ?thesis using Close by auto
  next
    case False
    with close_inactive[OF inv, of j c] i show ?thesis using Close by auto
  qed
next
  case (Reap now)
  then show "inv s \<Longrightarrow> \<not> active s i \<Longrightarrow> ?thesis" using reap_lapsed[of s now] by simp
qed

lemma closings_inactive: "inv s \<Longrightarrow> \<not> active s i \<Longrightarrow> closings i as s = 0"
proof (induction i as s rule: closings.induct)
  case (2 i c j as s)
  have "\<not> (j = i \<and> (\<exists>r. fst (close c j s) = Inr r))"
    using close_inactive[OF 2(2), of i c] 2(3) by auto
  with 2 act_inv[OF 2(2), of "Close c j"] act_never_revives[OF 2(2,3), of "Close c j"] show ?case by simp
next
  case (3 i now as s)
  with act_inv[OF 3(2), of "Reap now"] act_never_revives[OF 3(2,3), of "Reap now"] show ?case by simp
qed simp

text \<open>Whatever is interleaved, a lease is given back at most once.\<close>

lemma closed_at_most_once: "inv s \<Longrightarrow> closings i as s \<le> 1"
proof (induction i as s rule: closings.induct)
  case (2 i c j as s)
  note inv' = act_inv[OF 2(2), of "Close c j"]
  show ?case
  proof (cases "j = i \<and> (\<exists>r. fst (close c j s) = Inr r)")
    case True
    then have "active s i" using close_inactive[OF 2(2), of i c] by (cases "active s i") auto
    then have "\<not> active (snd (close c j s)) i" using close_active[OF 2(2)] True by auto
    with closings_inactive[of "snd (close c j s)" i as] inv' show ?thesis by simp
  next
    case False
    with 2(1)[OF _] inv' show ?thesis by auto
  qed
next
  case (3 i now as s)
  with act_inv[OF 3(2), of "Reap now"] show ?case by simp
qed simp

text \<open>And an ACTIVE lease that its holder closes before it is reaped is given back exactly once.\<close>

lemma closed_exactly_once:
  assumes "inv s" and "active s i" and "\<forall>a \<in> set as. \<exists>c j. a = Close c j"
    and "\<exists>c. Close c i \<in> set as"
  shows "closings i as s = 1"
  using assms
proof (induction i as s rule: closings.induct)
  case (2 i c j as s)
  note inv' = act_inv[OF 2(2), of "Close c j"]
  show ?case
  proof (cases "j = i")
    case True
    with close_active[OF 2(2), of i c] 2(3) closings_inactive[of "snd (close c j s)" i as] inv'
    show ?thesis by auto
  next
    case False
    have "active (snd (close c j s)) i"
    proof (cases "active s j")
      case True
      with close_active[OF 2(2), of j c] 2(3) False show ?thesis by auto
    next
      case False
      with close_inactive[OF 2(2), of j c] 2(3) show ?thesis by auto
    qed
    with 2(1)[OF _ _] 2(4,5) inv' False show ?thesis by auto
  qed
qed auto

end

end
