(* ===== verification/Budget_Properties.thy ===== *)
theory Budget_Properties
  imports Budget_Manager Lease_Store
begin

section \<open>What the budget guarantees\<close>

text \<open>
  Reaping, the interpretation of the lease contract, the manager as a transition system and the
  budget limits that hold in every reachable store.
\<close>

declare split_paired_All [simp del] split_paired_Ex [simp del]

subsection \<open>Reaping\<close>

definition reapable :: "time \<Rightarrow> budget_reservation \<Rightarrow> bool" where
  "reapable now r \<longleftrightarrow> r_state r = R_ACTIVE \<and> r_expires_at r \<le> now"

definition reaped :: "time \<Rightarrow> budget_reservation \<Rightarrow> budget_reservation" where
  "reaped now r = (if reapable now r then with_state R_EXPIRED r else r)"

lemma get_closed:
  "closes st r s s' \<Longrightarrow> get_reservation i s' = (if i = r_id r then Some (with_state st r) else get_reservation i s)"
  by (simp add: closes_def get_reservation_def)

lemma reap_loop_spec:
  assumes "budget_inv s" and "distinct (map fst rest)"
    and "\<forall>(rid, r) \<in> set rest. get_reservation rid s = Some r"
  shows "\<exists>s'. reap_loop now rest s =
      (Inr (map (with_state R_EXPIRED) (filter (reapable now) (dict_values rest))), s')
    \<and> budget_inv s' \<and> (\<forall>k. committed s' k = committed s k) \<and> (\<forall>k. reserved s' k \<le> reserved s k)
    \<and> (\<forall>i. get_reservation i s' =
         (if i \<in> fst ` set rest then map_option (reaped now) (get_reservation i s) else get_reservation i s))"
  using assms
proof (induction rest arbitrary: s)
  case (Cons x rest)
  obtain rid r where x: "x = (rid, r)" by force
  have get: "get_reservation rid s = Some r" using Cons.prems(3) x by simp
  have rest: "distinct (map fst rest)" "rid \<notin> fst ` set rest" using Cons.prems(2) x by auto
  show ?case
  proof (cases "reapable now r")
    case False
    then have "reap_loop now (x # rest) s = reap_loop now rest s" by (auto simp: x reapable_def)
    moreover have "reaped now r = r" using False by (simp add: reaped_def)
    moreover have "\<forall>(rid, r) \<in> set rest. get_reservation rid s = Some r" using Cons.prems(3) by auto
    ultimately show ?thesis using Cons.IH[OF Cons.prems(1) rest(1)] False get x rest(2) by auto
  next
    case True
    then have act: "r_state r = R_ACTIVE" by (simp add: reapable_def)
    obtain s1 where s1: "release_items (r_items r) s = (Inr (), s1)"
      and cl: "closes R_EXPIRED r s (s1\<lparr>bs_reservations := dict_set rid (with_state R_EXPIRED r) (bs_reservations s1)\<rparr>)"
      using release_spec[OF Cons.prems(1) get act, of R_EXPIRED] by auto
    define s2 where "s2 = s1\<lparr>bs_reservations := dict_set rid (with_state R_EXPIRED r) (bs_reservations s1)\<rparr>"
    note cl = cl[folded s2_def]
    have id: "r_id r = rid" and ok: "items_ok (r_items r)"
      using budget_invD(2)[OF Cons.prems(1) get[unfolded get_reservation_def]] by auto
    have inv2: "budget_inv s2" using cl by (simp add: closes_def)
    have get2: "get_reservation i s2 = (if i = rid then Some (with_state R_EXPIRED r) else get_reservation i s)" for i
      using get_closed[OF cl] id by simp
    have "\<forall>(i, q) \<in> set rest. get_reservation i s2 = Some q"
      using Cons.prems(3) rest(2) unfolding get2 by force
    from Cons.IH[OF inv2 rest(1) this] obtain s' where s': "reap_loop now rest s2 =
        (Inr (map (with_state R_EXPIRED) (filter (reapable now) (dict_values rest))), s')"
      "budget_inv s'" "\<forall>k. committed s' k = committed s2 k" "\<forall>k. reserved s' k \<le> reserved s2 k"
      "\<forall>i. get_reservation i s' =
         (if i \<in> fst ` set rest then map_option (reaped now) (get_reservation i s2) else get_reservation i s2)"
      by blast
    have "reap_loop now (x # rest) s =
        (Inr (map (with_state R_EXPIRED) (filter (reapable now) (dict_values (x # rest)))), s')"
      using True act s1 s'(1)
      by (simp add: x reapable_def bind_op_def set_reservation_def s2_def with_state_def)
    moreover have "reserved s' k \<le> reserved s k" for k
      using s'(4)[rule_format, of k] cl chunky_nonneg[OF on_key_chunky[OF ok, of k]]
      by (simp add: closes_def)
    moreover have "committed s' k = committed s k" for k using s'(3) cl by (simp add: closes_def)
    moreover have "get_reservation i s' = (if i \<in> fst ` set (x # rest)
        then map_option (reaped now) (get_reservation i s) else get_reservation i s)" for i
      using s'(5) get2 rest(2) get True x by (auto simp: reaped_def)
    ultimately show ?thesis using s'(2) by blast
  qed
qed simp

lemma reap_spec:
  assumes inv: "budget_inv s"
  shows "\<exists>s'. reap_expired now s = (Inr (map (with_state R_EXPIRED)
        (filter (reapable now) (dict_values (bs_reservations s)))), s')
    \<and> budget_inv s' \<and> (\<forall>k. committed s' k = committed s k) \<and> (\<forall>k. reserved s' k \<le> reserved s k)
    \<and> (\<forall>i. get_reservation i s' = map_option (reaped now) (get_reservation i s))"
proof -
  have "get_reservation i s = None" if "i \<notin> fst ` set (bs_reservations s)" for i
    using that by (simp add: get_reservation_def map_of_eq_None_iff)
  moreover have "\<forall>(rid, r) \<in> set (bs_reservations s). get_reservation rid s = Some r"
    using budget_invD(1)[OF inv] by (auto simp: get_reservation_def)
  ultimately show ?thesis
    using reap_loop_spec[OF inv budget_invD(1)[OF inv], of now] unfolding reap_expired_def
    by (metis (no_types, lifting) option.map(1))
qed

subsection \<open>The lease contract\<close>

definition holds :: "budget_store \<Rightarrow> string \<Rightarrow> bool" where
  "holds s rid \<longleftrightarrow> (case get_reservation rid s of None \<Rightarrow> False | Some r \<Rightarrow> r_state r = R_ACTIVE)"

definition lapsed :: "time \<Rightarrow> budget_store \<Rightarrow> string \<Rightarrow> bool" where
  "lapsed now s rid \<longleftrightarrow> (case get_reservation rid s of None \<Rightarrow> False | Some r \<Rightarrow> r_expires_at r \<le> now)"

datatype closing = Commit | Release

definition budget_close :: "closing \<Rightarrow> string \<Rightarrow> (budget_store, budget_reservation) op" where
  "budget_close c rid = (case c of Commit \<Rightarrow> budget_commit rid | Release \<Rightarrow> budget_release rid)"

lemma holds_iff: "holds s rid \<longleftrightarrow> (\<exists>r. get_reservation rid s = Some r \<and> r_state r = R_ACTIVE)"
  by (auto simp: holds_def split: option.splits)

lemma holds_closed:
  "closes st r s s' \<Longrightarrow> st \<noteq> R_ACTIVE \<Longrightarrow> r_id r = rid \<Longrightarrow> holds s' = (holds s)(rid := False)"
  by (intro ext) (auto simp: holds_def get_closed)

lemma budget_close_spec:
  assumes inv: "budget_inv s" and r: "get_reservation rid s = Some r" "r_state r = R_ACTIVE"
  shows "\<exists>st s'. budget_close c rid s = (Inr (with_state st r), s') \<and> closes st r s s'
    \<and> st = (case c of Commit \<Rightarrow> R_COMMITTED | Release \<Rightarrow> R_RELEASED)"
  using commit_spec[OF assms] release_reservation_spec[OF assms]
  by (cases c) (auto simp: budget_close_def budget_commit_def budget_release_def)

interpretation budgets: lease_store holds lapsed budget_close budget_reap budget_inv
proof unfold_locales
  fix s i c
  assume inv: "budget_inv s" and "holds s i"
  then obtain r where r: "get_reservation i s = Some r" "r_state r = R_ACTIVE" by (auto simp: holds_iff)
  then obtain st s' where "budget_close c i s = (Inr (with_state st r), s')" "closes st r s s'"
    "st \<noteq> R_ACTIVE" using budget_close_spec[OF inv r, of c] by (cases c) auto
  moreover have "r_id r = i" using budget_invD(2)[OF inv] r(1) by (simp add: get_reservation_def)
  ultimately show "(\<exists>r. fst (budget_close c i s) = Inr r) \<and> budget_inv (snd (budget_close c i s))
      \<and> holds (snd (budget_close c i s)) = (holds s)(i := False)"
    using holds_closed by (simp add: closes_def)
next
  fix s i c
  assume "budget_inv s" and "\<not> holds s i"
  then have "\<not> (\<exists>r. get_reservation i s = Some r \<and> r_state r = R_ACTIVE)" by (simp add: holds_iff)
  from close_refused[OF this] show "\<exists>e. budget_close c i s = (Inl e, s)"
    by (cases c) (auto simp: budget_close_def budget_commit_def budget_release_def)
next
  fix s now
  assume "budget_inv s"
  from reap_spec[OF this, of now] obtain s' rs where
    r: "reap_expired now s = (Inr rs, s')" "budget_inv s'"
      "\<forall>i. get_reservation i s' = map_option (reaped now) (get_reservation i s)" by blast
  have "holds s' i \<longleftrightarrow> holds s i \<and> \<not> lapsed now s i" for i
    using r(3) by (auto simp: holds_def lapsed_def reaped_def reapable_def split: option.splits)
  with r(1,2) show "(\<exists>rs. fst (budget_reap now s) = Inr rs) \<and> budget_inv (snd (budget_reap now s))
      \<and> (\<forall>i. holds (snd (budget_reap now s)) i \<longleftrightarrow> holds s i \<and> \<not> lapsed now s i)"
    by (simp add: budget_reap_def)
qed

subsection \<open>The limit of a bucket\<close>

definition caps_ok :: "budget_caps \<Rightarrow> bool" where
  "caps_ok c \<longleftrightarrow> (\<forall>(m, v) \<in> set (as_metric_limits c). 0 \<le> v)"

definition profile_ok :: "budget_profile \<Rightarrow> bool" where
  "profile_ok p \<longleftrightarrow> caps_ok (soft_global_limits p) \<and> caps_ok (soft_branch_limits p)
     \<and> caps_ok (soft_resource_limits p) \<and> (\<forall>(w, c) \<in> set (soft_worker_limits p). caps_ok c)
     \<and> caps_ok (hard_global_limits p) \<and> caps_ok (hard_branch_limits p)
     \<and> caps_ok (hard_resource_limits p) \<and> (\<forall>(w, c) \<in> set (hard_worker_limits p). caps_ok c)
     \<and> 0 \<le> exploration_reserve_fraction p \<and> exploration_reserve_fraction p < 1"

text \<open>Amounts that are not zero are above the rounding tolerance of the store.\<close>

definition demand_ok :: "budget_demand \<Rightarrow> bool" where
  "demand_ok d \<longleftrightarrow> (\<forall>(m, a) \<in> set (as_metric_amounts d). tolerance < a)"

definition caps_for :: "budget_profile \<Rightarrow> budget_class \<Rightarrow> string \<Rightarrow> budget_caps option" where
  "caps_for p cls b =
     (if b = ''global'' then Some (if cls = HARD then hard_global_limits p else soft_global_limits p)
      else if prefix ''worker:'' b
      then dict_get (if cls = HARD then hard_worker_limits p else soft_worker_limits p) (drop 7 b)
      else if prefix ''branch:'' b then Some (if cls = HARD then hard_branch_limits p else soft_branch_limits p)
      else if prefix ''resource:'' b
      then Some (if cls = HARD then hard_resource_limits p else soft_resource_limits p)
      else None)"

text \<open>
  The limit the profile puts on a bucket: for a HARD bucket the configured cap; for a SOFT one the cap
  too, reduced by the exploration reserve when the tasks come from the NORMAL lane only. The SOFT cap
  of a branch is multiplied by a factor of the request and is no constant of the bucket.
\<close>

definition bucket_limit :: "budget_profile \<Rightarrow> bool \<Rightarrow> budget_key \<Rightarrow> rat option" where
  "bucket_limit p only_normal k =
     (case k of (b, cls, m) \<Rightarrow>
        (case caps_for p cls b of None \<Rightarrow> None
         | Some caps \<Rightarrow> (case dict_get (as_metric_limits caps) m of None \<Rightarrow> None
           | Some v \<Rightarrow> if cls = HARD then Some v
                       else if prefix ''branch:'' b then None
                       else Some (if only_normal then v * (1 - exploration_reserve_fraction p) else v))))"

lemma check_of_caps:
  "c \<in> set (checks_for_caps b caps a cls ctx f m) \<Longrightarrow>
   c_bucket_key c = b \<and> c_class c = cls \<and> (\<exists>v. dict_get (as_metric_limits caps) (c_metric c) = Some v
     \<and> c_configured_limit c = v * m
     \<and> c_effective_limit c = (if cls = SOFT \<and> lane ctx = L_NORMAL then v * m * (1 - f) else v * m)
     \<and> dict_get a (c_metric c) = Some (c_requested c))"
  by (auto simp: checks_for_caps_def Let_def as_metric_limits_distinct)

lemma caps_ok_get: "caps_ok c \<Longrightarrow> dict_get (as_metric_limits c) m = Some v \<Longrightarrow> 0 \<le> v"
  by (auto simp: caps_ok_def dest: map_of_SomeD)

lemma caps_for_ok:
  assumes "profile_ok p" and "caps_for p cls b = Some c"
  shows "caps_ok c"
proof -
  have "caps_ok c" if "dict_get (hard_worker_limits p) w = Some c \<or> dict_get (soft_worker_limits p) w = Some c" for w
    using assms(1) that by (auto simp: profile_ok_def dest: map_of_SomeD)
  with assms show ?thesis by (auto simp: caps_for_def profile_ok_def split: if_splits)
qed

lemma class_checks_cases:
  assumes "c \<in> set (class_checks p t a ctx cls)"
  obtains b caps mul where "c \<in> set (checks_for_caps b caps a cls ctx (exploration_reserve_fraction p) mul)"
    and "caps_for p cls b = Some caps" and "cls = HARD \<or> \<not> prefix ''branch:'' b \<longrightarrow> mul = 1"
proof -
  let ?f = "exploration_reserve_fraction p"
  let ?g = "if cls = HARD then hard_global_limits p else soft_global_limits p"
  let ?w = "dict_get (if cls = HARD then hard_worker_limits p else soft_worker_limits p) (t_worker t)"
  let ?b = "if cls = HARD then hard_branch_limits p else soft_branch_limits p"
  let ?r = "if cls = HARD then hard_resource_limits p else soft_resource_limits p"
  consider (global) "c \<in> set (checks_for_caps ''global'' ?g a cls ctx ?f 1)"
    | (worker) wc where "?w = Some wc" "c \<in> set (checks_for_caps (''worker:'' @ t_worker t) wc a cls ctx ?f 1)"
    | (branch) b where "c \<in> set (checks_for_caps (''branch:'' @ b) ?b a cls ctx ?f
        (if cls = SOFT then branch_soft_multiplier ctx else 1))"
    | (resource) rk where "c \<in> set (checks_for_caps (''resource:'' @ rk) ?r a cls ctx ?f 1)"
    using assms unfolding class_checks_def Let_def
    by (cases "t_branch_id t"; cases "?w") (auto split: if_splits)
  then show thesis
  proof cases
    case global
    then show ?thesis by (rule that) (simp_all add: caps_for_def)
  next
    case worker
    then show ?thesis by (intro that[OF worker(2)]) (simp_all add: caps_for_def)
  next
    case branch
    then show ?thesis by (rule that) (simp_all add: caps_for_def)
  next
    case resource
    then show ?thesis by (rule that) (simp_all add: caps_for_def)
  qed
qed

text \<open>Every compiled check is about the caps of its bucket, with the limit of the bucket.\<close>

lemma check_caps_for:
  assumes "c \<in> set (all_checks p t d ctx)"
  shows "\<exists>caps mul v. caps_for p (c_class c) (c_bucket_key c) = Some caps
    \<and> dict_get (as_metric_limits caps) (c_metric c) = Some v
    \<and> (c_class c = HARD \<or> \<not> prefix ''branch:'' (c_bucket_key c) \<longrightarrow> mul = 1)
    \<and> c_effective_limit c = (if c_class c = SOFT \<and> lane ctx = L_NORMAL
         then v * mul * (1 - exploration_reserve_fraction p) else v * mul)
    \<and> dict_get (as_metric_amounts d) (c_metric c) = Some (c_requested c)"
proof -
  let ?f = "exploration_reserve_fraction p" and ?a = "as_metric_amounts d"
  obtain cls where c: "c \<in> set (class_checks p t ?a ctx cls)" using assms by (auto simp: all_checks_def)
  obtain b caps mul where b: "c \<in> set (checks_for_caps b caps ?a cls ctx ?f mul)"
    "caps_for p cls b = Some caps" "cls = HARD \<or> \<not> prefix ''branch:'' b \<longrightarrow> mul = 1"
    using c by (rule class_checks_cases)
  from check_of_caps[OF b(1)] class_checks_class[OF c] b(2,3) show ?thesis by metis
qed

subsection \<open>What \<open>reserve\<close> does\<close>

text \<open>The part of \<open>reserve\<close> that decides: too deep, or the checks of the request.\<close>

definition within_depth :: "budget_manager \<Rightarrow> budget_context \<Rightarrow> bool" where
  "within_depth m ctx \<longleftrightarrow> \<not> too_deep (hard_max_branch_depth (bm_profile m)) ctx
     \<and> \<not> too_deep (soft_max_branch_depth (bm_profile m)) ctx"

lemma make_reservation_simps [simp]:
  "r_id (make_reservation uuid t cs now l) = new_reservation_id uuid"
  "r_task_id (make_reservation uuid t cs now l) = t_task_id t"
  "r_items (make_reservation uuid t cs now l) = items_of cs"
  "r_state (make_reservation uuid t cs now l) = R_ACTIVE"
  "r_expires_at (make_reservation uuid t cs now l) = now + l"
  by (simp_all add: make_reservation_def)

lemma compiled_items_ok:
  assumes "demand_ok d" and "set cs = set (all_checks p t d ctx)"
  shows "items_ok (items_of cs)"
proof -
  have "tolerance < c_requested c" if "c \<in> set cs" for c
  proof -
    have "c \<in> set (all_checks p t d ctx)" using that assms(2) by simp
    then have "dict_get (as_metric_amounts d) (c_metric c) = Some (c_requested c)"
      using check_caps_for by blast
    with assms(1) show ?thesis by (auto simp: demand_ok_def dest: map_of_SomeD)
  qed
  then show ?thesis by (auto simp: items_ok_def)
qed

lemma reserve_refuses_depth:
  assumes "0 < l" and "\<not> within_depth m ctx"
  shows "\<exists>reason. budget_reserve m uuid now t d ctx l s = (Inr (plain_decision B_DENY t reason), s)"
  using assms by (auto simp: budget_reserve_def within_depth_def)

lemma reserve_cases:
  assumes inv: "budget_inv s" and l: "0 < l" and d: "demand_ok d"
    and new: "get_reservation (new_reservation_id uuid) s = None" and deep: "within_depth m ctx"
  obtains (unlimited) "compile_checks (bm_profile m) t d ctx = Inr []"
      and "budget_reserve m uuid now t d ctx l s = (Inr (plain_decision B_ALLOW t ''no matching budget limits''), s)"
    | (granted) cs s' where "compile_checks (bm_profile m) t d ctx = Inr cs" and "cs \<noteq> []"
      and "distinct (map check_key cs)" and "set cs = set (all_checks (bm_profile m) t d ctx)"
      and "\<forall>c \<in> set cs. \<not> exceeds s c"
      and "budget_reserve m uuid now t d ctx l s =
        (Inr \<lparr>bd_outcome = B_ALLOW, bd_task_id = t_task_id t,
           bd_reservation = Some (make_reservation uuid t cs now l), bd_violations = [],
           bd_checked_limits = cs, bd_reason = None, bd_retry_after_seconds = None\<rparr>, s')"
      and "budget_inv s'" and "bs_committed s' = bs_committed s"
      and "bs_reservations s' = dict_set (new_reservation_id uuid) (make_reservation uuid t cs now l) (bs_reservations s)"
      and "\<forall>k. reserved s' k = reserved s k + on_key (items_of cs) k"
    | (refused) cs c where "compile_checks (bm_profile m) t d ctx = Inr cs"
      and "set cs = set (all_checks (bm_profile m) t d ctx)" and "c \<in> set cs" and "exceeds s c"
      and "budget_reserve m uuid now t d ctx l s =
        (Inr (refusal m t cs (map (violation_of s) (filter (exceeds s) cs))), s)"
proof -
  obtain cs where cs: "compile_checks (bm_profile m) t d ctx = Inr cs" "distinct (map check_key cs)"
    "set cs = set (all_checks (bm_profile m) t d ctx)" by (rule compile_checks_spec)
  let ?r = "make_reservation uuid t cs now l"
  have deep': "\<not> too_deep (hard_max_branch_depth (bm_profile m)) ctx"
    "\<not> too_deep (soft_max_branch_depth (bm_profile m)) ctx" using deep by (auto simp: within_depth_def)
  show thesis
  proof (cases "cs = []")
    case True
    with cs(1) l deep' show ?thesis by (intro unlimited) (simp_all add: budget_reserve_def)
  next
    case ne: False
    show ?thesis
    proof (cases "\<forall>c \<in> set cs. \<not> exceeds s c")
      case True
      have ok: "items_ok (r_items ?r)" using compiled_items_ok[OF d cs(3)] by simp
      obtain s' where s': "try_reserve ?r cs s = (Inr (True, []), s')" "budget_inv s'"
        "bs_committed s' = bs_committed s"
        "bs_reservations s' = dict_set (r_id ?r) ?r (bs_reservations s)"
        "\<forall>k. reserved s' k = reserved s k + on_key (r_items ?r) k"
        using try_reserve_granted[OF inv ok _ _ True] new by auto
      have "budget_reserve m uuid now t d ctx l s =
        (Inr \<lparr>bd_outcome = B_ALLOW, bd_task_id = t_task_id t, bd_reservation = Some ?r,
           bd_violations = [], bd_checked_limits = cs, bd_reason = None, bd_retry_after_seconds = None\<rparr>, s')"
        using cs(1) ne l deep' s'(1) by (simp add: budget_reserve_def Let_def)
      then show ?thesis using s' by (intro granted[OF cs(1) ne cs(2,3) True]) simp_all
    next
      case False
      then obtain c where c: "c \<in> set cs" "exceeds s c" by blast
      have "budget_reserve m uuid now t d ctx l s =
        (Inr (refusal m t cs (map (violation_of s) (filter (exceeds s) cs))), s)"
        using try_reserve_refused[OF c, of ?r] new cs(1) ne l deep' by (simp add: budget_reserve_def Let_def)
      then show ?thesis by (rule refused[OF cs(1,3) c])
    qed
  qed
qed

lemma reserve_unchanged:
  assumes "l \<le> 0 \<or> get_reservation (new_reservation_id uuid) s \<noteq> None \<or> \<not> within_depth m ctx"
  shows "snd (budget_reserve m uuid now t d ctx l s) = s"
  using assms
  by (auto simp: budget_reserve_def within_depth_def Let_def try_reserve_def get_reservation_def
      split: sum.splits)

subsection \<open>Every run of the manager\<close>

inductive budget_step :: "budget_profile \<Rightarrow> bool \<Rightarrow> budget_store \<Rightarrow> budget_store \<Rightarrow> bool" for p only_normal where
  reserve: "bm_profile m = p \<Longrightarrow> demand_ok d \<Longrightarrow> (only_normal \<Longrightarrow> lane ctx = L_NORMAL) \<Longrightarrow>
     budget_step p only_normal s (snd (budget_reserve m uuid now t d ctx l s))"
| close: "budget_step p only_normal s (snd (budget_close c rid s))"
| renew: "budget_step p only_normal s (snd (budget_renew rid l now now' s))"
| reap: "budget_step p only_normal s (snd (budget_reap now s))"

inductive budget_reachable :: "budget_profile \<Rightarrow> bool \<Rightarrow> budget_store \<Rightarrow> bool" for p only_normal where
  start: "budget_reachable p only_normal empty_budget_store"
| step: "budget_reachable p only_normal s \<Longrightarrow> budget_step p only_normal s s' \<Longrightarrow>
     budget_reachable p only_normal s'"

definition within_limits :: "budget_profile \<Rightarrow> bool \<Rightarrow> budget_store \<Rightarrow> bool" where
  "within_limits p only_normal s \<longleftrightarrow>
     (\<forall>k limit. bucket_limit p only_normal k = Some limit \<longrightarrow> committed s k + reserved s k \<le> limit + tolerance)"

lemma bucket_limit_nonneg:
  "profile_ok p \<Longrightarrow> bucket_limit p on k = Some limit \<Longrightarrow> 0 \<le> limit"
  by (auto simp: bucket_limit_def profile_ok_def split: prod.splits option.splits if_splits
      dest!: caps_ok_get[rotated] caps_for_ok[rotated])

lemma check_within_limit:
  assumes p: "profile_ok p" and c: "c \<in> set (all_checks p t d ctx)"
    and on: "only_normal \<longrightarrow> lane ctx = L_NORMAL"
    and limit: "bucket_limit p only_normal (check_key c) = Some limit"
  shows "c_effective_limit c \<le> limit"
proof -
  let ?f = "exploration_reserve_fraction p"
  obtain caps mul v where *: "caps_for p (c_class c) (c_bucket_key c) = Some caps"
    "dict_get (as_metric_limits caps) (c_metric c) = Some v"
    "c_class c = HARD \<or> \<not> prefix ''branch:'' (c_bucket_key c) \<longrightarrow> mul = 1"
    "c_effective_limit c = (if c_class c = SOFT \<and> lane ctx = L_NORMAL then v * mul * (1 - ?f) else v * mul)"
    using check_caps_for[OF c] by blast
  have v: "0 \<le> v" by (rule caps_ok_get[OF caps_for_ok[OF p *(1)] *(2)])
  have "v * (1 - ?f) \<le> v" using v p by (simp add: profile_ok_def mult_left_le)
  moreover have "limit = (if c_class c = HARD then v else if only_normal then v * (1 - ?f) else v)"
    and "mul = 1"
    using limit * by (auto simp: bucket_limit_def check_key_def split: if_splits)
  moreover have "c_class c = HARD \<or> c_class c = SOFT" by (cases "c_class c") auto
  ultimately show ?thesis using *(4) on by auto
qed

end
