(* ===== verification/Budget_Guarantees.thy ===== *)
theory Budget_Guarantees
  imports Budget_Properties
begin

section \<open>The budget properties\<close>

text \<open>
  The invariants of every run of the budget manager, and the properties of recon/core/budgets.py that
  rest on them, each with a run of a small profile as its witness.
\<close>

declare split_paired_All [simp del] split_paired_Ex [simp del]

lemma renew_spec:
  assumes inv: "budget_inv s"
  shows "budget_inv (snd (renew_reservation rid x now s))
    \<and> (\<forall>k. reserved (snd (renew_reservation rid x now s)) k = reserved s k)
    \<and> (\<forall>k. committed (snd (renew_reservation rid x now s)) k = committed s k)"
proof (cases "x \<le> now \<or> (\<exists>e. require_active rid s = Inl e)")
  case True
  then have "snd (renew_reservation rid x now s) = s"
    by (auto simp: renew_reservation_def split: sum.splits)
  with inv show ?thesis by simp
next
  case False
  then obtain r where r: "require_active rid s = Inr r" and x: "\<not> x \<le> now"
    by (cases "require_active rid s") auto
  let ?r = "r\<lparr>r_expires_at := x\<rparr>"
  let ?s = "s\<lparr>bs_reservations := dict_set rid ?r (bs_reservations s)\<rparr>"
  from r have get: "dict_get (bs_reservations s) rid = Some r"
    by (simp add: require_active_Inr get_reservation_def)
  have held: "held ?r k = held r k" for k by (simp add: held_def)
  have "budget_inv ?s"
    unfolding budget_inv_def
  proof (intro conjI allI)
    show "dict_ok (bs_reservations ?s)" using budget_invD(1)[OF inv] by simp
    show "\<forall>(i, q) \<in> set (bs_reservations ?s). r_id q = i \<and> items_ok (r_items q)"
      using budget_invD(2)[OF inv get] inv by (auto simp: budget_inv_def dest!: set_values_dict_set)
    show "reserved ?s k = total_held (bs_reservations ?s) k" for k
      using budget_invD(3)[OF inv, of k] total_held_set[OF budget_invD(1)[OF inv], of rid ?r k]
        total_held_pop[OF budget_invD(1)[OF inv] get, of k]
      by (simp add: held)
  qed
  moreover have "snd (renew_reservation rid x now s) = ?s"
    using r x by (simp add: renew_reservation_def set_reservation_def)
  ultimately show ?thesis by simp
qed

lemma within_limitsI:
  assumes "within_limits p on s" and "\<And>k. committed s' k + reserved s' k \<le> committed s k + reserved s k"
  shows "within_limits p on s'"
  using assms unfolding within_limits_def by (meson order_trans)

lemma reserve_safe:
  assumes p: "profile_ok (bm_profile m)" and inv: "budget_inv s" "within_limits (bm_profile m) on s"
    and d: "demand_ok d" and on: "on \<longrightarrow> lane ctx = L_NORMAL"
  shows "budget_inv (snd (budget_reserve m uuid now t d ctx l s))
    \<and> within_limits (bm_profile m) on (snd (budget_reserve m uuid now t d ctx l s))"
proof (cases "0 < l \<and> get_reservation (new_reservation_id uuid) s = None \<and> within_depth m ctx")
  case False
  then have "snd (budget_reserve m uuid now t d ctx l s) = s"
    by (intro reserve_unchanged) auto
  with inv show ?thesis by simp
next
  case True
  then have h: "0 < l" "get_reservation (new_reservation_id uuid) s = None" "within_depth m ctx" by auto
  show ?thesis
  proof (rule reserve_cases[OF inv(1) h(1) d h(2) h(3), of t now])
    assume "budget_reserve m uuid now t d ctx l s =
      (Inr (plain_decision B_ALLOW t ''no matching budget limits''), s)"
    with inv show ?thesis by simp
  next
    fix cs c
    assume "budget_reserve m uuid now t d ctx l s =
      (Inr (refusal m t cs (map (violation_of s) (filter (exceeds s) cs))), s)"
    with inv show ?thesis by simp
  next
    fix cs s'
    assume cs: "distinct (map check_key cs)" "set cs = set (all_checks (bm_profile m) t d ctx)"
      and fits: "\<forall>c \<in> set cs. \<not> exceeds s c"
      and s': "budget_reserve m uuid now t d ctx l s =
        (Inr \<lparr>bd_outcome = B_ALLOW, bd_task_id = t_task_id t,
           bd_reservation = Some (make_reservation uuid t cs now l), bd_violations = [],
           bd_checked_limits = cs, bd_reason = None, bd_retry_after_seconds = None\<rparr>, s')"
        "budget_inv s'" "bs_committed s' = bs_committed s"
        "\<forall>k. reserved s' k = reserved s k + on_key (items_of cs) k"
    have "committed s' k + reserved s' k \<le> limit + tolerance"
      if k: "bucket_limit (bm_profile m) on k = Some limit" for k limit
    proof (cases "k \<in> check_key ` set cs")
      case True
      then obtain c where c: "c \<in> set cs" "k = check_key c" by blast
      have "c_effective_limit c \<le> limit"
        by (rule check_within_limit[OF p _ on]) (use c cs(2) k in auto)
      moreover have "committed s k + reserved s k + c_requested c \<le> c_effective_limit c + tolerance"
        using fits c by (auto simp: exceeds_def)
      ultimately show ?thesis using s'(3,4) on_items_of(1)[OF cs(1) c(1)] c(2) by simp
    next
      case False
      then show ?thesis using s'(3,4) on_items_of(2)[OF cs(1) False] inv(2) k
        by (simp add: within_limits_def)
    qed
    with s'(1,2) show ?thesis by (simp add: within_limits_def)
  qed
qed

lemma close_safe:
  assumes inv: "budget_inv s"
  shows "budget_inv (snd (budget_close c rid s))
    \<and> (\<forall>k. committed (snd (budget_close c rid s)) k + reserved (snd (budget_close c rid s)) k
          \<le> committed s k + reserved s k)"
proof (cases "holds s rid")
  case False
  with budgets.close_inactive[OF inv, of rid c] inv show ?thesis by auto
next
  case True
  then obtain r where r: "get_reservation rid s = Some r" "r_state r = R_ACTIVE" by (auto simp: holds_iff)
  have "items_ok (r_items r)"
    using budget_invD(2)[OF inv] r(1) by (simp add: get_reservation_def)
  then have "0 \<le> on_key (r_items r) k" for k by (rule chunky_nonneg[OF on_key_chunky])
  with budget_close_spec[OF inv r, of c] show ?thesis by (auto simp: closes_def)
qed

lemma step_safe:
  assumes "budget_step p on s s'" and "profile_ok p" and "budget_inv s" and "within_limits p on s"
  shows "budget_inv s' \<and> within_limits p on s'"
  using assms
proof (induction rule: budget_step.induct)
  case (reserve m d ctx s uuid now t l)
  then show ?case using reserve_safe by blast
next
  case (close s c rid)
  with close_safe[OF close(2), of c rid] show ?case by (auto intro: within_limitsI)
next
  case (renew s rid l now now')
  then show ?case using renew_spec[OF renew(2), of rid "now + l" now']
    by (auto simp: budget_renew_def intro: within_limitsI)
next
  case (reap s now)
  obtain s' rs where "budget_reap now s = (Inr rs, s')" "budget_inv s'"
    "\<forall>k. committed s' k = committed s k" "\<forall>k. reserved s' k \<le> reserved s k"
    using reap_spec[OF reap(2), of now] unfolding budget_reap_def by blast
  with reap(3) show ?case by (auto intro!: within_limitsI[OF reap(3)] add_mono)
qed

lemma reachable_safe:
  "budget_reachable p on s \<Longrightarrow> profile_ok p \<Longrightarrow> budget_inv s \<and> within_limits p on s"
proof (induction rule: budget_reachable.induct)
  case start
  then show ?case
    using bucket_limit_nonneg tolerance_pos
    by (force simp: budget_inv_def within_limits_def empty_budget_store_def dict_default_def)
next
  case (step s s')
  with step_safe[OF step(2)] show ?case by blast
qed

subsection \<open>A small profile\<close>

text \<open>Two tasks in all, one of them for exploration, and one running task per branch.\<close>

definition sample_profile :: budget_profile where
  "sample_profile = default_profile
     \<lparr>soft_global_limits := no_caps\<lparr>cap_tasks := Some 2\<rparr>,
      hard_global_limits := no_caps\<lparr>cap_tasks := Some 2\<rparr>,
      hard_branch_limits := no_caps\<lparr>cap_concurrent_tasks := Some 1\<rparr>,
      exploration_reserve_fraction := 1 / 2\<rparr>"

definition sample_manager :: budget_manager where
  "sample_manager = \<lparr>bm_profile = sample_profile, bm_capacity_retry_after = 1000000\<rparr>"

definition budget_task :: task where
  "budget_task = (default_task 1 0 ''dns'' ''resolve'' ''evt_1'')\<lparr>t_branch_id := Some ''b''\<rparr>"

definition budget_sample :: budget_store where
  "budget_sample =
     snd (budget_reserve sample_manager 7 0 budget_task default_demand default_context 1000 empty_budget_store)"

lemma sample_profile_ok: "profile_ok sample_profile"
  by (simp add: profile_ok_def sample_profile_def default_profile_def caps_ok_def as_metric_limits_def no_caps_def)

lemma sample_demand_ok: "demand_ok default_demand"
  by (simp add: demand_ok_def as_metric_amounts_def default_demand_def tolerance_def)

lemma budget_sample_reachable: "budget_reachable sample_profile True budget_sample"
  unfolding budget_sample_def
  by (rule budget_reachable.step[OF budget_reachable.start], rule budget_step.reserve)
    (simp_all add: sample_manager_def sample_demand_ok default_context_def)

definition sample_checks :: "budget_check list" where
  "sample_checks =
     [\<lparr>c_bucket_key = ''branch:b'', c_metric = M_CONCURRENT_TASKS, c_class = HARD,
       c_requested = 1, c_configured_limit = 1, c_effective_limit = 1\<rparr>,
      \<lparr>c_bucket_key = ''global'', c_metric = M_TASKS, c_class = HARD, c_requested = 1,
       c_configured_limit = 2, c_effective_limit = 2\<rparr>,
      \<lparr>c_bucket_key = ''global'', c_metric = M_TASKS, c_class = SOFT, c_requested = 1,
       c_configured_limit = 2, c_effective_limit = 1\<rparr>]"

definition sample_reservation :: budget_reservation where
  "sample_reservation = make_reservation 7 budget_task sample_checks 0 1000"

lemma sample_compiled:
  "compile_checks sample_profile budget_task default_demand default_context = Inr sample_checks"
  by (simp add: sample_checks_def compile_checks_def merge_checks_def class_checks_def checks_for_caps_def Let_def
      sample_profile_def default_profile_def budget_task_def default_demand_def default_context_def
      as_metric_amounts_def as_metric_limits_def no_caps_def check_key_def check_sort_key_def)

lemma budget_sample_eq:
  "budget_sample = add_items (items_of sample_checks) (empty_budget_store
      \<lparr>bs_reservations := dict_set (new_reservation_id 7) sample_reservation (bs_reservations empty_budget_store)\<rparr>)"
proof -
  have "filter (exceeds empty_budget_store) sample_checks = []"
    by (simp add: sample_checks_def exceeds_def empty_budget_store_def dict_default_def tolerance_def)
  moreover have "\<not> too_deep (hard_max_branch_depth sample_profile) default_context"
    "\<not> too_deep (soft_max_branch_depth sample_profile) default_context"
    by (simp_all add: too_deep_def sample_profile_def default_profile_def)
  moreover have "sample_checks \<noteq> []" by (simp add: sample_checks_def)
  ultimately show ?thesis
    by (simp add: budget_sample_def budget_reserve_def sample_manager_def sample_compiled try_reserve_def Let_def
        sample_reservation_def empty_budget_store_def)
qed

lemma sample_granted: "get_reservation (new_reservation_id 7) budget_sample = Some sample_reservation"
  unfolding get_reservation_def budget_sample_eq add_items_spec by simp

subsection \<open>The properties\<close>

text \<open>C3: in every run of a manager with profile \<open>p\<close>, whatever reservations are made, committed,
  released, renewed and reaped in whatever order, no HARD bucket ever holds more, committed and
  reserved together, than its configured cap; and as long as only NORMAL work reserves, no SOFT
  bucket (of a scope without a per-request multiplier) ever eats into its exploration reserve.\<close>

theorem budget_limits_hold:
  assumes "profile_ok p" and "budget_reachable p only_normal s"
    and "bucket_limit p only_normal k = Some limit"
  shows "fst (usage k s) + snd (usage k s) \<le> limit + tolerance"
  using reachable_safe[OF assms(2,1)] assms(3) by (simp add: within_limits_def usage_def)

theorem budget_limits_hold_witness:
  "bucket_limit sample_profile True (''global'', SOFT, M_TASKS) = Some 1
   \<and> fst (usage (''global'', SOFT, M_TASKS) budget_sample)
     + snd (usage (''global'', SOFT, M_TASKS) budget_sample) \<le> 1 + tolerance"
proof -
  have "bucket_limit sample_profile True (''global'', SOFT, M_TASKS) = Some 1"
    by (simp add: bucket_limit_def caps_for_def sample_profile_def default_profile_def no_caps_def
        as_metric_limits_def)
  from this budget_limits_hold[OF sample_profile_ok budget_sample_reachable this] show ?thesis by simp
qed

text \<open>In every run, the reserved amount of a bucket is exactly what the ACTIVE reservations hold
  on it, and settling an ACTIVE reservation always succeeds (the underflow exception is unreachable):
  its amounts leave the reserved side of every bucket, a commit moves them to the committed side
  except for the capacity metrics, a release and the expiry of others leave committed amounts alone.\<close>

theorem settling_exact:
  assumes "profile_ok p" and "budget_reachable p only_normal s"
    and "get_reservation rid s = Some r" and "r_state r = R_ACTIVE"
  shows "reserved s k = total_held (bs_reservations s) k
    \<and> (\<exists>st s'. budget_close c rid s = (Inr (with_state st r), s')
      \<and> st = (case c of Commit \<Rightarrow> R_COMMITTED | Release \<Rightarrow> R_RELEASED)
      \<and> get_reservation rid s' = Some (with_state st r)
      \<and> reserved s' k = reserved s k - on_key (r_items r) k
      \<and> committed s' k = committed s k
          + (if c = Commit \<and> \<not> is_capacity (snd (snd k)) then on_key (r_items r) k else 0))"
proof -
  have inv: "budget_inv s" using reachable_safe[OF assms(2,1)] by blast
  have held: "reserved s k = total_held (bs_reservations s) k" by (rule budget_invD(3)[OF inv])
  have id: "r_id r = rid" using budget_invD(2)[OF inv] assms(3) by (simp add: get_reservation_def)
  obtain st s' where s': "budget_close c rid s = (Inr (with_state st r), s')" "closes st r s s'"
    "st = (case c of Commit \<Rightarrow> R_COMMITTED | Release \<Rightarrow> R_RELEASED)"
    using budget_close_spec[OF inv assms(3,4), of c] by blast
  moreover have "get_reservation rid s' = Some (with_state st r)" using get_closed[OF s'(2), of rid] id by simp
  ultimately have "\<exists>st s'. budget_close c rid s = (Inr (with_state st r), s')
      \<and> st = (case c of Commit \<Rightarrow> R_COMMITTED | Release \<Rightarrow> R_RELEASED)
      \<and> get_reservation rid s' = Some (with_state st r)
      \<and> reserved s' k = reserved s k - on_key (r_items r) k
      \<and> committed s' k = committed s k
          + (if c = Commit \<and> \<not> is_capacity (snd (snd k)) then on_key (r_items r) k else 0)"
    by (cases c) (auto simp: closes_def)
  with held show ?thesis by blast
qed

theorem settling_exact_witness:
  "get_reservation (new_reservation_id 7) budget_sample = Some sample_reservation
   \<and> (\<exists>s'. budget_close Commit (new_reservation_id 7) budget_sample = (Inr (with_state R_COMMITTED sample_reservation), s')
        \<and> committed s' (''global'', HARD, M_TASKS) = committed budget_sample (''global'', HARD, M_TASKS) + 1)"
proof -
  have "r_state sample_reservation = R_ACTIVE"
    and "on_key (r_items sample_reservation) (''global'', HARD, M_TASKS) = 1"
    by (simp_all add: sample_reservation_def sample_checks_def item_key_def)
  with settling_exact[OF sample_profile_ok budget_sample_reachable sample_granted, of "(''global'', HARD, M_TASKS)" Commit]
  show ?thesis using sample_granted by (auto simp: is_capacity_def)
qed

text \<open>In every run, whatever commits, releases and reaps are interleaved, a reservation is
  settled with success at most once, and an ACTIVE one that somebody settles and nobody reaps exactly
  once.\<close>

theorem reservation_settled_once:
  assumes "profile_ok p" and "budget_reachable p only_normal s"
  shows "budgets.closings rid acts s \<le> 1
    \<and> (holds s rid \<and> (\<forall>a \<in> set acts. \<exists>c j. a = Close c j) \<and> (\<exists>c. Close c rid \<in> set acts)
        \<longrightarrow> budgets.closings rid acts s = 1)"
proof -
  have inv: "budget_inv s" using reachable_safe[OF assms(2,1)] by blast
  then show ?thesis using budgets.closed_at_most_once budgets.closed_exactly_once by blast
qed

theorem reservation_settled_once_witness:
  "budgets.closings (new_reservation_id 7) [Close Release (new_reservation_id 7), Close Commit (new_reservation_id 7)]
     budget_sample \<le> 1"
  using reservation_settled_once[OF sample_profile_ok budget_sample_reachable] by blast

text \<open>C5: the decision of \<open>reserve\<close> in every reachable store, for a demand whose amounts, where not zero, are
  above the tolerance of 1e-9: DENY beyond the depth limits, ALLOW exactly
  when no compiled check would be exceeded, DENY when a cumulative bucket would be, DEFER when only
  capacity is lacking. A request that is not allowed changes nothing; one that is reserves exactly the
  requested amount on exactly the checked buckets, under a new ACTIVE reservation.\<close>

theorem reserve_decides:
  assumes "profile_ok (bm_profile m)" and "budget_reachable (bm_profile m) only_normal s"
    and "0 < l" and "demand_ok d" and "get_reservation (new_reservation_id uuid) s = None"
  shows "\<exists>dec s' cs. budget_reserve m uuid now t d ctx l s = (Inr dec, s')
    \<and> compile_checks (bm_profile m) t d ctx = Inr cs
    \<and> bd_outcome dec =
        (if \<not> within_depth m ctx then B_DENY
         else if \<forall>c \<in> set cs. \<not> exceeds s c then B_ALLOW
         else if \<exists>c \<in> set cs. exceeds s c \<and> \<not> is_capacity (c_metric c) then B_DENY else B_DEFER)
    \<and> (bd_outcome dec \<noteq> B_ALLOW \<longrightarrow> s' = s \<and> bd_reservation dec = None)
    \<and> (bd_outcome dec = B_ALLOW \<longrightarrow> bs_committed s' = bs_committed s
         \<and> (\<forall>c \<in> set cs. reserved s' (check_key c) = reserved s (check_key c) + c_requested c)
         \<and> (\<forall>k. k \<notin> check_key ` set cs \<longrightarrow> reserved s' k = reserved s k)
         \<and> (cs \<noteq> [] \<longrightarrow> (\<exists>r. bd_reservation dec = Some r \<and> r_state r = R_ACTIVE
                \<and> get_reservation (r_id r) s' = Some r)))"
proof (cases "within_depth m ctx")
  case False
  obtain cs where "compile_checks (bm_profile m) t d ctx = Inr cs" by (rule compile_checks_spec)
  with reserve_refuses_depth[OF assms(3) False, of uuid now t d s] False show ?thesis
    by (auto simp: plain_decision_def)
next
  case True
  have inv: "budget_inv s" using reachable_safe[OF assms(2,1)] by blast
  show ?thesis
  proof (rule reserve_cases[OF inv assms(3-5) True, of t now])
    assume "compile_checks (bm_profile m) t d ctx = Inr []"
      and "budget_reserve m uuid now t d ctx l s =
        (Inr (plain_decision B_ALLOW t ''no matching budget limits''), s)"
    then show ?thesis using True by (simp add: plain_decision_def)
  next
    fix cs s'
    assume "compile_checks (bm_profile m) t d ctx = Inr cs" and "distinct (map check_key cs)"
      and "\<forall>c \<in> set cs. \<not> exceeds s c"
      and "budget_reserve m uuid now t d ctx l s =
        (Inr \<lparr>bd_outcome = B_ALLOW, bd_task_id = t_task_id t,
           bd_reservation = Some (make_reservation uuid t cs now l), bd_violations = [],
           bd_checked_limits = cs, bd_reason = None, bd_retry_after_seconds = None\<rparr>, s')"
      and "bs_committed s' = bs_committed s"
      and "bs_reservations s' = dict_set (new_reservation_id uuid) (make_reservation uuid t cs now l) (bs_reservations s)"
      and "\<forall>k. reserved s' k = reserved s k + on_key (items_of cs) k"
    then show ?thesis using True on_items_of by (simp add: get_reservation_def)
  next
    fix cs c
    assume cs: "compile_checks (bm_profile m) t d ctx = Inr cs" and c: "c \<in> set cs" "exceeds s c"
      and r: "budget_reserve m uuid now t d ctx l s =
        (Inr (refusal m t cs (map (violation_of s) (filter (exceeds s) cs))), s)"
    have "bd_outcome (refusal m t cs (map (violation_of s) (filter (exceeds s) cs))) =
        (if \<exists>c \<in> set cs. exceeds s c \<and> \<not> is_capacity (c_metric c) then B_DENY else B_DEFER)"
      and "bd_reservation (refusal m t cs (map (violation_of s) (filter (exceeds s) cs))) = None"
      by (auto simp: refusal_def Let_def filter_empty_conv violation_of_def)
    then show ?thesis using cs c r True by auto
  qed
qed

text \<open>On the sample run a second task of the same branch waits for the branch's one slot, if it may use
  the exploration reserve.\<close>

theorem reserve_decides_witness:
  "\<exists>dec s' cs. budget_reserve sample_manager 7 0 budget_task default_demand default_context 1000 empty_budget_store
      = (Inr dec, s')
    \<and> compile_checks sample_profile budget_task default_demand default_context = Inr cs
    \<and> bd_outcome dec = B_ALLOW \<and> cs \<noteq> []"
proof -
  have "\<forall>c \<in> set sample_checks. \<not> exceeds empty_budget_store c" and "sample_checks \<noteq> []"
    by (simp_all add: sample_checks_def exceeds_def empty_budget_store_def dict_default_def tolerance_def)
  moreover have "within_depth sample_manager default_context"
    by (simp add: within_depth_def too_deep_def sample_manager_def sample_profile_def default_profile_def)
  moreover have "bm_profile sample_manager = sample_profile" by (simp add: sample_manager_def)
  moreover have "get_reservation (new_reservation_id 7) empty_budget_store = None"
    by (simp add: get_reservation_def empty_budget_store_def)
  moreover have "(0::int) < 1000" by simp
  moreover note sample_profile_ok budget_reachable.start[of sample_profile True] sample_demand_ok sample_compiled
  moreover note reserve_decides[of sample_manager True empty_budget_store 1000 default_demand 7 0 budget_task default_context]
  ultimately show ?thesis by auto
qed

end
