(* ===== verification/Fnmatch.thy ===== *)
theory Fnmatch
  imports Prelude
begin

section \<open>fnmatch.fnmatchcase\<close>

text \<open>
  The shell patterns of the standard library that the rate-limit and restriction rules use:
  \<open>*\<close>, \<open>?\<close>, \<open>[seq]\<close> and \<open>[!seq]\<close>, everything else literal. A bracket without its closing bracket is
  a literal; in a sequence a reversed range contributes nothing, and the negation mark is looked for
  after such ranges have been dropped, as \<open>fnmatch.translate\<close> does.
\<close>

datatype set_item = Single char | Range char char

datatype pat_token = Star | AnyChar | Lit char | OneOf bool "set_item list"

fun set_items :: "string \<Rightarrow> set_item list" where
  "set_items (a # m # b # cs) =
     (if m = CHR ''-'' then Range a b # set_items cs else Single a # set_items (m # b # cs))"
| "set_items (a # cs) = Single a # set_items cs"
| "set_items [] = []"

definition code :: "char \<Rightarrow> nat" where "code c = of_char c"

fun in_item :: "char \<Rightarrow> set_item \<Rightarrow> bool" where
  "in_item c (Single a) \<longleftrightarrow> c = a"
| "in_item c (Range a b) \<longleftrightarrow> code a \<le> code c \<and> code c \<le> code b"

definition nonempty_item :: "set_item \<Rightarrow> bool" where
  "nonempty_item i = (case i of Single _ \<Rightarrow> True | Range a b \<Rightarrow> code a \<le> code b)"

definition starts :: "char \<Rightarrow> string \<Rightarrow> bool" where
  "starts c s \<longleftrightarrow> s \<noteq> [] \<and> hd s = c"

definition set_token :: "string \<Rightarrow> pat_token" where
  "set_token stuff =
     (if starts CHR ''!'' stuff then OneOf True (filter nonempty_item (set_items (tl stuff)))
      else (case filter nonempty_item (set_items stuff) of
              [] \<Rightarrow> OneOf False []
            | Single a # is \<Rightarrow> if a = CHR ''!'' then OneOf True is else OneOf False (Single a # is)
            | Range a b # is \<Rightarrow>
                if a = CHR ''!'' then OneOf True (Single CHR ''-'' # Single b # is)
                else OneOf False (Range a b # is)))"

text \<open>The content of a bracket and what follows it, given what follows the opening bracket. A closing
  bracket in the first place (after the negation mark) belongs to the content.\<close>

definition bracket_skip :: "string \<Rightarrow> nat" where
  "bracket_skip p =
     (let neg = (if starts CHR ''!'' p then 1 else 0)
      in if starts CHR '']'' (drop neg p) then neg + 1 else neg)"

definition bracket :: "string \<Rightarrow> (string \<times> string) option" where
  "bracket p =
     (let rest = drop (bracket_skip p) p;
          body = takeWhile (\<lambda>c. c \<noteq> CHR '']'') rest
      in if length body = length rest then None
         else Some (take (bracket_skip p) p @ body, drop (length body + 1) rest))"

lemma bracket_shorter: "bracket p = Some (stuff, rest) \<Longrightarrow> length rest < length p"
proof -
  let ?d = "drop (bracket_skip p) p"
  assume "bracket p = Some (stuff, rest)"
  then have "length (takeWhile (\<lambda>c. c \<noteq> CHR '']'') ?d) \<noteq> length ?d"
    and r: "rest = drop (length (takeWhile (\<lambda>c. c \<noteq> CHR '']'') ?d) + 1) ?d"
    unfolding bracket_def Let_def by (simp_all split: if_split_asm)
  moreover have "length (takeWhile (\<lambda>c. c \<noteq> CHR '']'') ?d) \<le> length ?d" by (rule length_takeWhile_le)
  ultimately show ?thesis unfolding r by simp
qed

function pat_tokens :: "string \<Rightarrow> pat_token list" where
  "pat_tokens [] = []"
| "pat_tokens (c # p) =
     (if c = CHR ''*'' then Star # pat_tokens p
      else if c = CHR ''?'' then AnyChar # pat_tokens p
      else if c = CHR ''['' then
        (case bracket p of
           None \<Rightarrow> Lit c # pat_tokens p
         | Some (stuff, rest) \<Rightarrow> set_token stuff # pat_tokens rest)
      else Lit c # pat_tokens p)"
  by pat_completeness auto
termination
  by (relation "measure length") (auto dest: bracket_shorter)

fun token_match :: "pat_token \<Rightarrow> char \<Rightarrow> bool" where
  "token_match (Lit a) c \<longleftrightarrow> c = a"
| "token_match AnyChar c \<longleftrightarrow> True"
| "token_match (OneOf neg is) c \<longleftrightarrow> (\<exists>i \<in> set is. in_item c i) \<noteq> neg"
| "token_match Star c \<longleftrightarrow> True"

fun match_tokens :: "pat_token list \<Rightarrow> string \<Rightarrow> bool" where
  "match_tokens [] s \<longleftrightarrow> s = []"
| "match_tokens (Star # ts) [] \<longleftrightarrow> match_tokens ts []"
| "match_tokens (Star # ts) (c # s) \<longleftrightarrow> match_tokens ts (c # s) \<or> match_tokens (Star # ts) s"
| "match_tokens (t # ts) s \<longleftrightarrow> (case s of [] \<Rightarrow> False | c # s' \<Rightarrow> token_match t c \<and> match_tokens ts s')"

definition fnmatchcase :: "string \<Rightarrow> string \<Rightarrow> bool" where
  "fnmatchcase name pat = match_tokens (pat_tokens pat) name"

lemma match_star [simp]: "match_tokens [Star] s"
  by (induction s) auto

lemma fnmatch_star [simp]: "fnmatchcase s ''*''"
  by (simp add: fnmatchcase_def)

definition plain :: "string \<Rightarrow> bool" where
  "plain p \<longleftrightarrow> (\<forall>c \<in> set p. c \<notin> {CHR ''*'', CHR ''?'', CHR ''[''})"

text \<open>A pattern without wildcards matches itself only.\<close>

lemma fnmatch_plain: "plain p \<Longrightarrow> fnmatchcase s p \<longleftrightarrow> s = p"
proof -
  have "plain p \<Longrightarrow> pat_tokens p = map Lit p" by (induction p) (auto simp: plain_def)
  moreover have "match_tokens (map Lit p) s \<longleftrightarrow> s = p" for s
    by (induction p arbitrary: s) (auto split: list.splits)
  ultimately show "plain p \<Longrightarrow> ?thesis" by (simp add: fnmatchcase_def)
qed

end
