(* ===== verification/Rate_Limits.thy ===== *)
theory Rate_Limits
  imports Tasks Fnmatch
begin

section \<open>Rate limits: data and store (recon/policy/rate_limit.py)\<close>

text \<open>
  Rules, profiles and demands with their validators, and \<open>InMemoryRateLimitStore\<close>: token buckets with
  a concurrency count and the leases that hold the concurrency. Each store method runs under the
  lock and is one step; \<open>now\<close> is the clock reading it is given. The \<open>repr\<close> of a bucket key in an
  exception message is not modelled.
\<close>

datatype rate_scope = RS_GLOBAL | RS_PER_RESOURCE

datatype rate_outcome = RL_ALLOW | RL_DEFER | RL_DENY

datatype lease_state = LS_ACTIVE | LS_RELEASED | LS_EXPIRED

record rate_rule =
  rr_id :: string
  rr_scope :: rate_scope
  rr_pattern :: string
  rr_rps :: "rat option"
  rr_burst :: "rat option"
  rr_max_concurrency :: "int option"
  rr_workers :: "string set"
  rr_reason :: "string option"

definition validate_rate_rule :: "rate_rule \<Rightarrow> rate_rule res" where
  "validate_rate_rule r =
     bind_res (not_blank ''must not be blank'' (rr_id r)) (\<lambda>rid.
     bind_res (not_blank ''must not be blank'' (rr_pattern r)) (\<lambda>pattern.
       if (\<exists>x. rr_rps r = Some x \<and> x \<le> 0) then Inl (ValidationError ''requests_per_second'')
       else if (\<exists>x. rr_burst r = Some x \<and> x \<le> 0) then Inl (ValidationError ''burst'')
       else if (\<exists>x. rr_max_concurrency r = Some x \<and> x < 1) then Inl (ValidationError ''max_concurrency'')
       else if rr_rps r = None \<and> rr_max_concurrency r = None
       then Inl (ValidationError ''rate-limit rule must configure requests_per_second, max_concurrency, or both'')
       else if rr_burst r \<noteq> None \<and> rr_rps r = None
       then Inl (ValidationError ''burst requires requests_per_second'')
       else Inr (r\<lparr>rr_id := rid, rr_pattern := pattern,
              rr_burst := (if rr_burst r = None then rr_rps r else rr_burst r),
              rr_workers := strip ` {w \<in> rr_workers r. strip w \<noteq> []},
              rr_reason := opt_text (rr_reason r)\<rparr>)))"

definition matches_worker :: "rate_rule \<Rightarrow> string \<Rightarrow> bool" where
  "matches_worker r worker \<longleftrightarrow> rr_workers r = {} \<or> worker \<in> rr_workers r"

definition matches_resource :: "rate_rule \<Rightarrow> string \<Rightarrow> bool" where
  "matches_resource r resource_key = fnmatchcase resource_key (lower (rr_pattern r))"

record rate_profile =
  rp_rules :: "rate_rule list"
  rp_require_matching_rule :: bool
  rp_default_retry_after_seconds :: rat

fun first_duplicate :: "string set \<Rightarrow> string list \<Rightarrow> string option" where
  "first_duplicate seen [] = None"
| "first_duplicate seen (x # xs) = (if x \<in> seen then Some x else first_duplicate (insert x seen) xs)"

definition validate_rate_profile :: "rate_profile \<Rightarrow> rate_profile res" where
  "validate_rate_profile p =
     (if rp_default_retry_after_seconds p < 0 then Inl (ValidationError ''default_retry_after_seconds'')
      else case first_duplicate {} (map rr_id (rp_rules p)) of
             Some rid \<Rightarrow> Inl (ValidationError (''duplicate rate-limit rule_id: '' @ rid))
           | None \<Rightarrow> Inr p)"

definition normalize_rate_keys :: "string set \<Rightarrow> string set" where
  "normalize_rate_keys ks = (\<lambda>k. lower (strip k)) ` {k \<in> ks. strip k \<noteq> []}"

record rate_demand =
  rd_requests :: rat
  rd_concurrency :: int

definition default_rate_demand :: rate_demand where
  "default_rate_demand = \<lparr>rd_requests = 1, rd_concurrency = 1\<rparr>"

definition validate_rate_demand :: "rate_demand \<Rightarrow> rate_demand res" where
  "validate_rate_demand d =
     (if rd_requests d < 0 then Inl (ValidationError ''requests'')
      else if rd_concurrency d < 0 then Inl (ValidationError ''concurrency'')
      else if rd_requests d = 0 \<and> rd_concurrency d = 0
      then Inl (ValidationError ''rate-limit demand must request tokens, concurrency, or both'')
      else Inr d)"

record rate_plan =
  pl_task_id :: string
  pl_resource_keys :: "string list"
  pl_matched_rule_ids :: "string list"
  pl_aggregate_rps_ceiling :: "rat option"
  pl_safe_rps_hint :: "rat option"
  pl_max_concurrency_hint :: "int option"
  pl_matched :: bool

type_synonym bucket_id = "string \<times> string"

record rate_check =
  rc_rule_id :: string
  rc_bucket_key :: string
  rc_requests :: rat
  rc_concurrency :: int
  rc_rps :: "rat option"
  rc_burst :: "rat option"
  rc_max_concurrency :: "int option"

definition rc_key :: "rate_check \<Rightarrow> bucket_id" where
  "rc_key c = (rc_rule_id c, rc_bucket_key c)"

record rate_violation =
  rv_rule_id :: string
  rv_bucket_key :: string
  rv_kind :: string
  rv_reason :: string
  rv_retry_after_seconds :: rat

record lease_item =
  li_rule_id :: string
  li_bucket_key :: string
  li_concurrency :: int

definition li_key :: "lease_item \<Rightarrow> bucket_id" where
  "li_key i = (li_rule_id i, li_bucket_key i)"

record rate_lease =
  rl_id :: string
  rl_task_id :: string
  rl_items :: "lease_item list"
  rl_created_at :: time
  rl_expires_at :: time
  rl_state :: lease_state

record rate_decision =
  rdec_outcome :: rate_outcome
  rdec_task_id :: string
  rdec_lease :: "rate_lease option"
  rdec_violations :: "rate_violation list"
  rdec_checked_buckets :: "rate_check list"
  rdec_reason :: "string option"
  rdec_retry_after_seconds :: "rat option"

record rate_bucket =
  tokens :: rat
  last_refill_at :: time
  active_concurrency :: int

record rate_store =
  rs_buckets :: "(bucket_id, rate_bucket) dict"
  rs_leases :: "(string, rate_lease) dict"

definition empty_rate_store :: rate_store where
  "empty_rate_store = \<lparr>rs_buckets = [], rs_leases = []\<rparr>"

definition new_rate_lease_id :: "nat \<Rightarrow> string" where
  "new_rate_lease_id n = ''rtl_'' @ uuid_hex n"

definition rate_tolerance :: rat where
  "rate_tolerance = 1 / 1000000000"

subsection \<open>Acquiring\<close>

definition current_bucket :: "rate_check \<Rightarrow> time \<Rightarrow> rate_store \<Rightarrow> rate_bucket" where
  "current_bucket c now s =
     (case dict_get (rs_buckets s) (rc_key c) of
        None \<Rightarrow> \<lparr>tokens = (case rc_burst c of None \<Rightarrow> 0 | Some b \<Rightarrow> b), last_refill_at = now,
                 active_concurrency = 0\<rparr>
      | Some b \<Rightarrow>
          (case (rc_rps c, rc_burst c) of
             (Some rps, Some burst) \<Rightarrow>
               b\<lparr>tokens := min burst (tokens b + max (total_seconds (now - last_refill_at b)) 0 * rps),
                 last_refill_at := now\<rparr>
           | _ \<Rightarrow> b))"

definition holding :: "string \<Rightarrow> string \<Rightarrow> rate_lease \<Rightarrow> bool" where
  "holding rule_id bucket_key l \<longleftrightarrow> rl_state l = LS_ACTIVE
     \<and> (\<exists>i \<in> set (rl_items l). li_rule_id i = rule_id \<and> li_bucket_key i = bucket_key \<and> li_concurrency i > 0)"

definition earliest_concurrency_release :: "string \<Rightarrow> string \<Rightarrow> time \<Rightarrow> rate_store \<Rightarrow> rat" where
  "earliest_concurrency_release rule_id bucket_key now s =
     (case map rl_expires_at (filter (holding rule_id bucket_key) (dict_values (rs_leases s))) of
        [] \<Rightarrow> 1 / 1000
      | e # es \<Rightarrow> max (total_seconds (fold min es e - now)) (1 / 1000))"

definition paced :: "rate_check \<Rightarrow> bool" where
  "paced c \<longleftrightarrow> rc_requests c > 0 \<and> rc_rps c \<noteq> None \<and> rc_burst c \<noteq> None"

definition over_burst :: "rate_check \<Rightarrow> bool" where
  "over_burst c \<longleftrightarrow> paced c \<and> rc_requests c > the (rc_burst c) + rate_tolerance"

definition token_retry :: "rate_check \<Rightarrow> rate_bucket \<Rightarrow> rat" where
  "token_retry c b =
     (if paced c \<and> tokens b + rate_tolerance < rc_requests c
      then (rc_requests c - tokens b) / the (rc_rps c) else 0)"

definition counted :: "rate_check \<Rightarrow> bool" where
  "counted c \<longleftrightarrow> rc_concurrency c > 0 \<and> rc_max_concurrency c \<noteq> None"

definition concurrency_retry :: "rate_check \<Rightarrow> rate_bucket \<Rightarrow> time \<Rightarrow> rate_store \<Rightarrow> rat" where
  "concurrency_retry c b now s =
     (if counted c \<and> active_concurrency b + rc_concurrency c > the (rc_max_concurrency c)
      then earliest_concurrency_release (rc_rule_id c) (rc_bucket_key c) now s else 0)"

definition rate_violation_of :: "rate_check \<Rightarrow> rate_bucket \<Rightarrow> time \<Rightarrow> rate_store \<Rightarrow> rate_violation" where
  "rate_violation_of c b now s =
     \<lparr>rv_rule_id = rc_rule_id c, rv_bucket_key = rc_bucket_key c,
      rv_kind = (if token_retry c b > 0 \<and> concurrency_retry c b now s > 0 then ''TOKENS_AND_CONCURRENCY''
                 else if token_retry c b > 0 then ''TOKENS'' else ''CONCURRENCY''),
      rv_reason = ''shared rate/concurrency capacity is temporarily unavailable'',
      rv_retry_after_seconds = max (token_retry c b) (concurrency_retry c b now s)\<rparr>"

definition consume :: "rate_check \<Rightarrow> rate_bucket \<Rightarrow> rate_bucket" where
  "consume c b =
     (let b1 = (if rc_requests c > 0 \<and> rc_rps c \<noteq> None then b\<lparr>tokens := tokens b - rc_requests c\<rparr> else b)
      in if counted c then b1\<lparr>active_concurrency := active_concurrency b1 + rc_concurrency c\<rparr> else b1)"

fun acquire_loop ::
  "time \<Rightarrow> rate_store \<Rightarrow> rate_check list \<Rightarrow> rate_violation list \<Rightarrow> (bucket_id, rate_bucket) dict
    \<Rightarrow> (rate_violation list \<times> (bucket_id, rate_bucket) dict) res" where
  "acquire_loop now s [] violations projected = Inr (violations, projected)"
| "acquire_loop now s (c # cs) violations projected =
     (let b = current_bucket c now s
      in if over_burst c
         then Inl (ValueError (''single rate-limit acquisition requests more tokens than bucket burst for ''
                @ rc_rule_id c @ ''; split the demand into smaller acquisitions''))
         else if max (token_retry c b) (concurrency_retry c b now s) > 0
         then acquire_loop now s cs (violations @ [rate_violation_of c b now s]) projected
         else acquire_loop now s cs violations (dict_set (rc_key c) (consume c b) projected))"

definition lease_items :: "rate_check list \<Rightarrow> lease_item list" where
  "lease_items cs =
     map (\<lambda>c. \<lparr>li_rule_id = rc_rule_id c, li_bucket_key = rc_bucket_key c, li_concurrency = rc_concurrency c\<rparr>)
       (filter counted cs)"

definition try_acquire ::
  "nat \<Rightarrow> string \<Rightarrow> rate_check list \<Rightarrow> timedelta \<Rightarrow> time \<Rightarrow> (rate_store, rate_decision) op" where
  "try_acquire uuid task_id checks lease_for now s =
     (if lease_for \<le> 0 then (Inl (ValueError ''lease_for must be positive''), s)
      else case acquire_loop now s checks [] [] of
        Inl e \<Rightarrow> (Inl e, s)
      | Inr (violations, projected) \<Rightarrow>
          if violations \<noteq> [] then
            (Inr \<lparr>rdec_outcome = RL_DEFER, rdec_task_id = task_id, rdec_lease = None,
                  rdec_violations = violations, rdec_checked_buckets = checks,
                  rdec_reason = Some ''shared rate-limit capacity is temporarily exhausted'',
                  rdec_retry_after_seconds =
                    Some (fold max (map rv_retry_after_seconds (tl violations))
                            (rv_retry_after_seconds (hd violations)))\<rparr>, s)
          else
            let s1 = s\<lparr>rs_buckets := fold (\<lambda>(k, b) d. dict_set k b d) projected (rs_buckets s)\<rparr>;
                items = lease_items checks;
                lease = \<lparr>rl_id = new_rate_lease_id uuid, rl_task_id = task_id, rl_items = items,
                         rl_created_at = now, rl_expires_at = now + lease_for, rl_state = LS_ACTIVE\<rparr>
            in (Inr \<lparr>rdec_outcome = RL_ALLOW, rdec_task_id = task_id,
                     rdec_lease = (if items = [] then None else Some lease), rdec_violations = [],
                     rdec_checked_buckets = checks, rdec_reason = None,
                     rdec_retry_after_seconds = None\<rparr>,
                if items = [] then s1
                else s1\<lparr>rs_leases := dict_set (rl_id lease) lease (rs_leases s1)\<rparr>))"

subsection \<open>Giving leases back\<close>

definition lease_state_name :: "lease_state \<Rightarrow> string" where
  "lease_state_name st = (case st of LS_ACTIVE \<Rightarrow> ''ACTIVE'' | LS_RELEASED \<Rightarrow> ''RELEASED'' | LS_EXPIRED \<Rightarrow> ''EXPIRED'')"

definition require_active_lease :: "string \<Rightarrow> rate_store \<Rightarrow> rate_lease res" where
  "require_active_lease lid s =
     (case dict_get (rs_leases s) lid of
        None \<Rightarrow> Inl (KeyError (''unknown rate-limit lease: '' @ lid))
      | Some l \<Rightarrow>
          if rl_state l \<noteq> LS_ACTIVE
          then Inl (ValueError (''rate-limit lease '' @ lid @ '' is not ACTIVE (state=''
                 @ lease_state_name (rl_state l) @ '')''))
          else Inr l)"

fun release_lease_items :: "lease_item list \<Rightarrow> (rate_store, unit) op" where
  "release_lease_items [] s = (Inr (), s)"
| "release_lease_items (i # is) s =
     (if li_concurrency i = 0 then release_lease_items is s
      else case dict_get (rs_buckets s) (li_key i) of
        None \<Rightarrow> (Inl (RuntimeError ''missing bucket while releasing rate lease''), s)
      | Some b \<Rightarrow>
          (let updated = active_concurrency b - li_concurrency i
           in if updated < 0 then (Inl (RuntimeError ''rate-limit concurrency underflow''), s)
              else release_lease_items is
                (s\<lparr>rs_buckets := dict_set (li_key i) (b\<lparr>active_concurrency := updated\<rparr>) (rs_buckets s)\<rparr>)))"

definition set_lease :: "string \<Rightarrow> rate_lease \<Rightarrow> (rate_store, rate_lease) op" where
  "set_lease lid l s = (Inr l, s\<lparr>rs_leases := dict_set lid l (rs_leases s)\<rparr>)"

definition release_lease :: "string \<Rightarrow> (rate_store, rate_lease) op" where
  "release_lease lid s =
     (case require_active_lease lid s of
        Inl e \<Rightarrow> (Inl e, s)
      | Inr l \<Rightarrow> bind_op (release_lease_items (rl_items l))
                  (\<lambda>_. set_lease lid (l\<lparr>rl_state := LS_RELEASED\<rparr>)) s)"

definition renew_lease :: "string \<Rightarrow> time \<Rightarrow> time \<Rightarrow> (rate_store, rate_lease) op" where
  "renew_lease lid expires_at now s =
     (case require_active_lease lid s of
        Inl e \<Rightarrow> (Inl e, s)
      | Inr l \<Rightarrow> if expires_at \<le> now then (Inl (ValueError ''expires_at must be in the future''), s)
                 else set_lease lid (l\<lparr>rl_expires_at := expires_at\<rparr>) s)"

fun reap_leases_loop :: "time \<Rightarrow> (string \<times> rate_lease) list \<Rightarrow> (rate_store, rate_lease list) op" where
  "reap_leases_loop now [] s = (Inr [], s)"
| "reap_leases_loop now ((lid, l) # rest) s =
     (if rl_state l \<noteq> LS_ACTIVE \<or> rl_expires_at l > now then reap_leases_loop now rest s
      else bind_op (release_lease_items (rl_items l))
             (\<lambda>_. bind_op (set_lease lid (l\<lparr>rl_state := LS_EXPIRED\<rparr>))
                (\<lambda>u. bind_op (reap_leases_loop now rest) (\<lambda>us s1. (Inr (u # us), s1)))) s)"

definition reap_leases :: "time \<Rightarrow> (rate_store, rate_lease list) op" where
  "reap_leases now s = reap_leases_loop now (rs_leases s) s"

definition get_lease :: "string \<Rightarrow> rate_store \<Rightarrow> rate_lease option" where
  "get_lease lid s = dict_get (rs_leases s) lid"

text \<open>\<open>bucket_state\<close> builds a \<open>RateBucketState\<close>, whose validators refuse negative numbers.\<close>

definition bucket_state :: "bucket_id \<Rightarrow> rate_store \<Rightarrow> rate_bucket option res" where
  "bucket_state k s =
     (case dict_get (rs_buckets s) k of
        None \<Rightarrow> Inr None
      | Some b \<Rightarrow> if tokens b < 0 then Inl (ValidationError ''tokens'')
                 else if active_concurrency b < 0 then Inl (ValidationError ''active_concurrency'')
                 else Inr (Some b))"

end
