(* ===== verification/Rate_Limiter.thy ===== *)
theory Rate_Limiter
  imports Rate_Limits
begin

section \<open>RateLimiter (recon/policy/rate_limit.py)\<close>

text \<open>
  Matching the rules of the profile against a task's resources, the conservative plan for tools that
  pace themselves, the checks of one acquisition, and the methods over the in-memory store. Waiting
  (\<open>await_acquire\<close>) takes as argument what the loop observes in each round: the clock reading of the
  attempt, the time waited so far, and what other workers have done to the store by the next round.
\<close>

definition matching_rule_resources ::
  "rate_profile \<Rightarrow> task \<Rightarrow> string set \<Rightarrow> (rate_rule \<times> string option) list" where
  "matching_rule_resources p t keys =
     concat (map (\<lambda>rule.
       if \<not> matches_worker rule (t_worker t) then []
       else if rr_scope rule = RS_GLOBAL then
         (if keys \<noteq> {} then (if \<exists>k \<in> keys. matches_resource rule k then [(rule, None)] else [])
          else if rr_pattern rule = ''*'' then [(rule, None)] else [])
       else map (\<lambda>k. (rule, Some k)) (filter (matches_resource rule) (sorted_list_of_set keys)))
     (rp_rules p))"

definition min_of :: "'a::linorder list \<Rightarrow> 'a option" where
  "min_of xs = (case xs of [] \<Rightarrow> None | y # ys \<Rightarrow> Some (fold min ys y))"

definition matched_rules :: "(rate_rule \<times> string option) list \<Rightarrow> (string, rate_rule) dict" where
  "matched_rules ms = fold (\<lambda>(rule, _) d. dict_set (rr_id rule) rule d) ms []"

definition safe_rps :: "rate_rule \<Rightarrow> rat option" where
  "safe_rps rule =
     (case rr_rps rule of None \<Rightarrow> None
      | Some rps \<Rightarrow> Some (case rr_max_concurrency rule of None \<Rightarrow> rps | Some n \<Rightarrow> rps / of_int n))"

definition some_values :: "'a option list \<Rightarrow> 'a list" where
  "some_values xs = map the (filter (\<lambda>x. x \<noteq> None) xs)"

definition rate_plan_for :: "rate_profile \<Rightarrow> task \<Rightarrow> string set \<Rightarrow> rate_plan" where
  "rate_plan_for p t keys =
     (let ms = matching_rule_resources p t keys
      in if ms = [] then
           \<lparr>pl_task_id = t_task_id t, pl_resource_keys = sorted_list_of_set keys,
            pl_matched_rule_ids = [], pl_aggregate_rps_ceiling = None, pl_safe_rps_hint = None,
            pl_max_concurrency_hint = None, pl_matched = False\<rparr>
         else let d = matched_rules ms; rules = dict_values d in
           \<lparr>pl_task_id = t_task_id t, pl_resource_keys = sorted_list_of_set keys,
            pl_matched_rule_ids = sort (map fst d),
            pl_aggregate_rps_ceiling = min_of (some_values (map rr_rps rules)),
            pl_safe_rps_hint = min_of (some_values (map safe_rps rules)),
            pl_max_concurrency_hint = min_of (some_values (map rr_max_concurrency rules)),
            pl_matched = True\<rparr>)"

definition check_of :: "rate_demand \<Rightarrow> rate_rule \<times> string option \<Rightarrow> rate_check" where
  "check_of d m =
     (case m of (rule, rk) \<Rightarrow>
       \<lparr>rc_rule_id = rr_id rule,
        rc_bucket_key = (if rr_scope rule = RS_GLOBAL then ''global''
                         else ''resource:'' @ (case rk of None \<Rightarrow> ''None'' | Some k \<Rightarrow> k)),
        rc_requests = rd_requests d, rc_concurrency = rd_concurrency d, rc_rps = rr_rps rule,
        rc_burst = rr_burst rule, rc_max_concurrency = rr_max_concurrency rule\<rparr>)"

definition add_check ::
  "rate_demand \<Rightarrow> rate_rule \<times> string option \<Rightarrow> (bucket_id, rate_check) dict \<Rightarrow> (bucket_id, rate_check) dict" where
  "add_check d m checks =
     (let c = check_of d m
      in if dict_get checks (rc_key c) \<noteq> None then checks else dict_set (rc_key c) c checks)"

definition rate_compile_checks :: "(rate_rule \<times> string option) list \<Rightarrow> rate_demand \<Rightarrow> rate_check list" where
  "rate_compile_checks ms d =
     (let checks = fold (add_check d) ms []
      in map (\<lambda>k. the (dict_get checks k)) (sort (map fst checks)))"

definition plain_rate_decision :: "rate_outcome \<Rightarrow> task \<Rightarrow> string \<Rightarrow> rate_decision" where
  "plain_rate_decision out t reason = \<lparr>rdec_outcome = out, rdec_task_id = t_task_id t, rdec_lease = None,
     rdec_violations = [], rdec_checked_buckets = [], rdec_reason = Some reason,
     rdec_retry_after_seconds = None\<rparr>"

definition rate_acquire ::
  "rate_profile \<Rightarrow> nat \<Rightarrow> time \<Rightarrow> task \<Rightarrow> string set \<Rightarrow> rate_demand \<Rightarrow> timedelta
    \<Rightarrow> (rate_store, rate_decision) op" where
  "rate_acquire p uuid now t keys d lease_for s =
     (if lease_for \<le> 0 then (Inl (ValueError ''lease_for must be positive''), s)
      else let ms = matching_rule_resources p t keys
        in if ms = [] then
             (if rp_require_matching_rule p \<and> (rd_requests d > 0 \<or> rd_concurrency d > 0)
              then (Inr (plain_rate_decision RL_DENY t
                      ''network request demand has no matching rate-limit rule; fail closed''), s)
              else (Inr (plain_rate_decision RL_ALLOW t ''no matching rate-limit rule required''), s))
           else try_acquire uuid (t_task_id t) (rate_compile_checks ms d) lease_for now s)"

type_synonym wait_round = "time \<times> rat \<times> (rate_store \<Rightarrow> rate_store)"

fun await_loop ::
  "rate_profile \<Rightarrow> nat \<Rightarrow> task \<Rightarrow> string set \<Rightarrow> rate_demand \<Rightarrow> timedelta \<Rightarrow> rat option
    \<Rightarrow> wait_round list \<Rightarrow> (rate_store, rate_decision option) op" where
  "await_loop p uuid t keys d lease_for max_wait [] s = (Inr None, s)"
| "await_loop p uuid t keys d lease_for max_wait ((now, elapsed, others) # rounds) s =
     bind_op (rate_acquire p uuid now t keys d lease_for)
       (\<lambda>dec s1.
          if rdec_outcome dec \<noteq> RL_DEFER then (Inr (Some dec), s1)
          else if (case max_wait of None \<Rightarrow> False | Some w \<Rightarrow> w - elapsed \<le> 0)
          then (Inr (Some dec), s1)
          else await_loop p uuid t keys d lease_for max_wait rounds (others s1)) s"

definition await_acquire ::
  "rate_profile \<Rightarrow> nat \<Rightarrow> task \<Rightarrow> string set \<Rightarrow> rate_demand \<Rightarrow> timedelta \<Rightarrow> rat option
    \<Rightarrow> wait_round list \<Rightarrow> (rate_store, rate_decision option) op" where
  "await_acquire p uuid t keys d lease_for max_wait rounds s =
     (if (case max_wait of None \<Rightarrow> False | Some w \<Rightarrow> w < 0)
      then (Inl (ValueError ''max_wait_seconds cannot be negative''), s)
      else await_loop p uuid t keys d lease_for max_wait rounds s)"

definition rate_release :: "string \<Rightarrow> (rate_store, rate_lease) op" where
  "rate_release lid = release_lease lid"

definition rate_renew :: "string \<Rightarrow> timedelta \<Rightarrow> time \<Rightarrow> time \<Rightarrow> (rate_store, rate_lease) op" where
  "rate_renew lid lease_for now now' s =
     (if lease_for \<le> 0 then (Inl (ValueError ''lease_for must be positive''), s)
      else renew_lease lid (now + lease_for) now' s)"

definition rate_reap :: "time \<Rightarrow> (rate_store, rate_lease list) op" where
  "rate_reap now = reap_leases now"

definition tool_integer_rps_hint :: "rate_plan \<Rightarrow> int option" where
  "tool_integer_rps_hint pl =
     (case pl_safe_rps_hint pl of None \<Rightarrow> None
      | Some x \<Rightarrow> if \<lfloor>x\<rfloor> \<ge> 1 then Some \<lfloor>x\<rfloor> else None)"

subsection \<open>The checks of an acquisition\<close>

definition keyed :: "rate_check set \<Rightarrow> (bucket_id, rate_check) dict \<Rightarrow> bool" where
  "keyed C acc \<longleftrightarrow> dict_ok acc \<and> (\<forall>e \<in> set acc. rc_key (snd e) = fst e \<and> snd e \<in> C)"

lemma keyed_add: "keyed C acc \<Longrightarrow> check_of d m \<in> C \<Longrightarrow> keyed C (add_check d m acc)"
  by (auto simp: keyed_def add_check_def Let_def dict_set_fresh map_of_eq_None_iff)

lemma keyed_fold: "keyed C acc \<Longrightarrow> check_of d ` set ms \<subseteq> C \<Longrightarrow> keyed C (fold (add_check d) ms acc)"
  by (induction ms arbitrary: acc) (simp_all add: keyed_add)

lemma keys_add: "fst ` set (add_check d m acc) = insert (rc_key (check_of d m)) (fst ` set acc)"
  by (cases "dict_get acc (rc_key (check_of d m))")
    (auto simp: add_check_def Let_def dict_set_fresh simp del: dict_get_set intro: rev_image_eqI[OF map_of_SomeD])

lemma keys_fold:
  "fst ` set (fold (add_check d) ms acc) = fst ` set acc \<union> (\<lambda>m. rc_key (check_of d m)) ` set ms"
  by (induction ms arbitrary: acc) (auto simp: keys_add)

lemma rate_compile_checks_spec:
  shows "distinct (map rc_key (rate_compile_checks ms d))"
    and "set (rate_compile_checks ms d) \<subseteq> check_of d ` set ms"
    and "rc_key ` set (rate_compile_checks ms d) = (\<lambda>m. rc_key (check_of d m)) ` set ms"
proof -
  define D where "D = fold (add_check d) ms []"
  have K: "keyed (check_of d ` set ms) D" unfolding D_def by (rule keyed_fold) (simp_all add: keyed_def)
  then have D: "dict_ok D" "\<forall>e \<in> set D. rc_key (snd e) = fst e \<and> snd e \<in> check_of d ` set ms"
    by (auto simp: keyed_def)
  have keys: "fst ` set D = (\<lambda>m. rc_key (check_of d m)) ` set ms" by (simp add: D_def keys_fold)
  have r: "rate_compile_checks ms d = map (\<lambda>k. the (dict_get D k)) (sort (map fst D))"
    by (simp add: rate_compile_checks_def D_def Let_def)
  have look: "\<exists>c. dict_get D k = Some c \<and> rc_key c = k \<and> c \<in> check_of d ` set ms" if "k \<in> fst ` set D" for k
  proof -
    from that obtain c where "(k, c) \<in> set D" by auto
    with D(1,2) show ?thesis by fastforce
  qed
  have k: "map rc_key (rate_compile_checks ms d) = sort (map fst D)"
    unfolding r map_map by (rule map_idI) (use look in force)
  show "distinct (map rc_key (rate_compile_checks ms d))" unfolding k using D(1) by simp
  show "set (rate_compile_checks ms d) \<subseteq> check_of d ` set ms" unfolding r using look by force
  show "rc_key ` set (rate_compile_checks ms d) = (\<lambda>m. rc_key (check_of d m)) ` set ms"
    using arg_cong[OF k, of set] keys by simp
qed

end
