(* ===== verification/Rate_Store_Proofs.thy ===== *)
theory Rate_Store_Proofs
  imports Rate_Limiter Lease_Store Dict_Sum
begin

section \<open>The rate store: invariant and operations\<close>

text \<open>
  The invariant of \<open>InMemoryRateLimitStore\<close>: the concurrency counter of a bucket is exactly what the
  ACTIVE leases hold on it. What an acquisition does to the buckets, what giving a lease back does,
  and the lease contract.
\<close>

declare split_paired_All [simp del] split_paired_Ex [simp del]

definition conc_on :: "lease_item list \<Rightarrow> bucket_id \<Rightarrow> int" where
  "conc_on is k = sum_list (map li_concurrency (filter (\<lambda>i. li_key i = k) is))"

definition lease_conc :: "bucket_id \<Rightarrow> rate_lease \<Rightarrow> int" where
  "lease_conc k l = (if rl_state l = LS_ACTIVE then conc_on (rl_items l) k else 0)"

definition total_conc :: "rate_store \<Rightarrow> bucket_id \<Rightarrow> int" where
  "total_conc s k = dict_sum (lease_conc k) (rs_leases s)"

definition active_at :: "rate_store \<Rightarrow> bucket_id \<Rightarrow> int" where
  "active_at s k = (case dict_get (rs_buckets s) k of None \<Rightarrow> 0 | Some b \<Rightarrow> active_concurrency b)"

definition items_positive :: "lease_item list \<Rightarrow> bool" where
  "items_positive is \<longleftrightarrow> (\<forall>i \<in> set is. 0 < li_concurrency i)"

definition lease_inv :: "rate_store \<Rightarrow> bool" where
  "lease_inv s \<longleftrightarrow> dict_ok (rs_leases s)
     \<and> (\<forall>e \<in> set (rs_leases s). rl_id (snd e) = fst e \<and> items_positive (rl_items (snd e)))
     \<and> (\<forall>k. active_at s k = total_conc s k)"

lemma conc_on_simps [simp]:
  "conc_on [] k = 0"
  "conc_on (i # is) k = (if li_key i = k then li_concurrency i else 0) + conc_on is k"
  by (simp_all add: conc_on_def)

lemma items_positive_simps [simp]:
  "items_positive []" "items_positive (i # is) \<longleftrightarrow> 0 < li_concurrency i \<and> items_positive is"
  by (simp_all add: items_positive_def)

lemma conc_on_nonneg: "items_positive is \<Longrightarrow> 0 \<le> conc_on is k"
  by (induction "is") auto

lemma lease_conc_nonneg: "items_positive (rl_items l) \<Longrightarrow> 0 \<le> lease_conc k l"
  by (simp add: lease_conc_def conc_on_nonneg)

lemma lease_invD:
  assumes "lease_inv s"
  shows "dict_ok (rs_leases s)"
    and "get_lease lid s = Some l \<Longrightarrow> rl_id l = lid \<and> items_positive (rl_items l)"
    and "active_at s k = total_conc s k"
    and "0 \<le> dict_sum (lease_conc k) (dict_pop i (rs_leases s))"
proof -
  show "dict_ok (rs_leases s)" and "active_at s k = total_conc s k" using assms by (auto simp: lease_inv_def)
  show "get_lease lid s = Some l \<Longrightarrow> rl_id l = lid \<and> items_positive (rl_items l)"
    using assms unfolding lease_inv_def get_lease_def by (force dest: map_of_SomeD)
  have "\<forall>x \<in> set (rs_leases s). 0 \<le> lease_conc k (snd x)"
    using assms by (auto simp: lease_inv_def lease_conc_nonneg)
  then show "0 \<le> dict_sum (lease_conc k) (dict_pop i (rs_leases s))"
    by (intro dict_sum_nonneg set_dict_pop)
qed

subsection \<open>Giving back\<close>

text \<open>Token counts and refill times are not touched by the lease operations.\<close>

definition same_tokens :: "rate_store \<Rightarrow> rate_store \<Rightarrow> bool" where
  "same_tokens s s' \<longleftrightarrow> (\<forall>k. map_option (\<lambda>b. (tokens b, last_refill_at b)) (dict_get (rs_buckets s') k)
      = map_option (\<lambda>b. (tokens b, last_refill_at b)) (dict_get (rs_buckets s) k))"

lemma same_tokens_refl [simp]: "same_tokens s s" by (simp add: same_tokens_def)

lemma same_tokens_trans: "same_tokens s s' \<Longrightarrow> same_tokens s' s'' \<Longrightarrow> same_tokens s s''"
  by (simp add: same_tokens_def)

lemma release_lease_items_spec:
  assumes "items_positive is" and "\<forall>k. 0 \<le> g k" and "\<forall>k. active_at s k = g k + conc_on is k"
  shows "\<exists>s'. release_lease_items is s = (Inr (), s') \<and> rs_leases s' = rs_leases s
    \<and> (\<forall>k. active_at s' k = g k) \<and> same_tokens s s'"
  using assms
proof (induction "is" arbitrary: s)
  case (Cons i "is")
  let ?k = "li_key i"
  have i: "0 < li_concurrency i" and ok: "items_positive is" using Cons.prems(1) by auto
  have a: "active_at s ?k = g ?k + conc_on is ?k + li_concurrency i" using Cons.prems(3) by simp
  have ge: "0 \<le> g ?k + conc_on is ?k" using Cons.prems(2) conc_on_nonneg[OF ok] by simp
  then obtain b where b: "dict_get (rs_buckets s) ?k = Some b"
    using a i by (cases "dict_get (rs_buckets s) ?k") (auto simp: active_at_def)
  let ?s = "s\<lparr>rs_buckets := dict_set ?k (b\<lparr>active_concurrency := active_concurrency b - li_concurrency i\<rparr>) (rs_buckets s)\<rparr>"
  have r: "release_lease_items (i # is) s = release_lease_items is ?s"
    using i a ge b by (simp add: active_at_def)
  have "\<forall>k. active_at ?s k = g k + conc_on is k"
    using Cons.prems(3) a b by (auto simp: active_at_def)
  from Cons.IH[OF ok Cons.prems(2) this] obtain s' where
    "release_lease_items is ?s = (Inr (), s')" "rs_leases s' = rs_leases ?s"
    "\<forall>k. active_at s' k = g k" "same_tokens ?s s'" by blast
  moreover have "same_tokens s ?s" using b by (auto simp: same_tokens_def)
  ultimately show ?case using r same_tokens_trans by auto
qed simp

definition with_lease_state :: "lease_state \<Rightarrow> rate_lease \<Rightarrow> rate_lease" where
  "with_lease_state st l = l\<lparr>rl_state := st\<rparr>"

lemma with_lease_state_simps [simp]:
  "rl_items (with_lease_state st l) = rl_items l" "rl_id (with_lease_state st l) = rl_id l"
  "rl_state (with_lease_state st l) = st"
  by (simp_all add: with_lease_state_def)

lemma lease_conc_closed [simp]: "st \<noteq> LS_ACTIVE \<Longrightarrow> lease_conc k (with_lease_state st l) = 0"
  by (simp add: lease_conc_def)

definition lease_holds :: "rate_store \<Rightarrow> string \<Rightarrow> bool" where
  "lease_holds s lid \<longleftrightarrow> (case get_lease lid s of None \<Rightarrow> False | Some l \<Rightarrow> rl_state l = LS_ACTIVE)"

lemma lease_holds_iff: "lease_holds s lid \<longleftrightarrow> (\<exists>l. get_lease lid s = Some l \<and> rl_state l = LS_ACTIVE)"
  by (auto simp: lease_holds_def split: option.splits)

text \<open>What giving an ACTIVE lease back does.\<close>

definition gives_back :: "lease_state \<Rightarrow> rate_lease \<Rightarrow> rate_store \<Rightarrow> rate_store \<Rightarrow> bool" where
  "gives_back st l s s' \<longleftrightarrow> lease_inv s'
     \<and> rs_leases s' = dict_set (rl_id l) (with_lease_state st l) (rs_leases s)
     \<and> (\<forall>k. active_at s' k = active_at s k - conc_on (rl_items l) k) \<and> same_tokens s s'"

lemma give_back_spec:
  assumes inv: "lease_inv s" and l: "get_lease lid s = Some l" "rl_state l = LS_ACTIVE" and st: "st \<noteq> LS_ACTIVE"
  shows "\<exists>s1. release_lease_items (rl_items l) s = (Inr (), s1)
    \<and> gives_back st l s (s1\<lparr>rs_leases := dict_set lid (with_lease_state st l) (rs_leases s1)\<rparr>)"
proof -
  let ?g = "\<lambda>k. dict_sum (lease_conc k) (dict_pop lid (rs_leases s))"
  note l' = l(1)[unfolded get_lease_def] and ok = lease_invD(1)[OF inv]
  have id: "rl_id l = lid" "items_positive (rl_items l)" using lease_invD(2)[OF inv l(1)] by auto
  have split: "active_at s k = ?g k + conc_on (rl_items l) k" for k
    using lease_invD(3)[OF inv, of k] dict_sum_pop[OF ok l', of "lease_conc k"] l(2)
    by (simp add: total_conc_def lease_conc_def)
  obtain s1 where s1: "release_lease_items (rl_items l) s = (Inr (), s1)" "rs_leases s1 = rs_leases s"
    "\<forall>k. active_at s1 k = ?g k" "same_tokens s s1"
    using release_lease_items_spec[OF id(2), of ?g s] split lease_invD(4)[OF inv] by blast
  let ?s = "s1\<lparr>rs_leases := dict_set lid (with_lease_state st l) (rs_leases s1)\<rparr>"
  have act: "active_at ?s k = ?g k" for k using s1(3) by (simp add: active_at_def)
  have "lease_inv ?s"
    unfolding lease_inv_def
  proof (intro conjI allI)
    show "dict_ok (rs_leases ?s)" using ok s1(2) by simp
    show "\<forall>e \<in> set (rs_leases ?s). rl_id (snd e) = fst e \<and> items_positive (rl_items (snd e))"
      using inv id s1(2) by (auto simp: lease_inv_def dest!: set_values_dict_set)
    show "active_at ?s k = total_conc ?s k" for k
      using act[of k] dict_sum_set[OF ok, of "lease_conc k" lid "with_lease_state st l"] st s1(2)
      by (simp add: total_conc_def)
  qed
  moreover have "same_tokens s ?s" using s1(4) by (simp add: same_tokens_def)
  ultimately show ?thesis using s1 id act split by (auto simp: gives_back_def)
qed

lemma require_active_lease_Inr:
  "require_active_lease lid s = Inr l \<longleftrightarrow> get_lease lid s = Some l \<and> rl_state l = LS_ACTIVE"
  by (auto simp: require_active_lease_def get_lease_def split: option.splits)

lemma release_lease_spec:
  assumes "lease_inv s" and "get_lease lid s = Some l" and "rl_state l = LS_ACTIVE"
  shows "\<exists>s'. release_lease lid s = (Inr (with_lease_state LS_RELEASED l), s') \<and> gives_back LS_RELEASED l s s'"
  using give_back_spec[OF assms, of LS_RELEASED] assms(2,3)
  by (auto simp: release_lease_def require_active_lease_Inr[THEN iffD2] bind_op_def set_lease_def
      with_lease_state_def)

lemma not_holding:
  assumes "\<not> lease_holds s lid"
  shows "\<exists>e. release_lease lid s = (Inl e, s)" and "\<exists>e. renew_lease lid x now s = (Inl e, s)"
proof -
  from assms have "\<exists>e. require_active_lease lid s = Inl e"
    by (cases "require_active_lease lid s") (auto simp: require_active_lease_Inr lease_holds_iff)
  then show "\<exists>e. release_lease lid s = (Inl e, s)" and "\<exists>e. renew_lease lid x now s = (Inl e, s)"
    by (auto simp: release_lease_def renew_lease_def)
qed

lemma gives_back_get:
  "gives_back st l s s' \<Longrightarrow>
   get_lease i s' = (if i = rl_id l then Some (with_lease_state st l) else get_lease i s)"
  by (simp add: gives_back_def get_lease_def)

subsection \<open>Reaping\<close>

definition lease_reapable :: "time \<Rightarrow> rate_lease \<Rightarrow> bool" where
  "lease_reapable now l \<longleftrightarrow> rl_state l = LS_ACTIVE \<and> rl_expires_at l \<le> now"

definition lease_reaped :: "time \<Rightarrow> rate_lease \<Rightarrow> rate_lease" where
  "lease_reaped now l = (if lease_reapable now l then with_lease_state LS_EXPIRED l else l)"

lemma reap_leases_loop_spec:
  assumes "lease_inv s" and "distinct (map fst rest)"
    and "\<forall>e \<in> set rest. get_lease (fst e) s = Some (snd e)"
  shows "\<exists>rs s'. reap_leases_loop now rest s = (Inr rs, s') \<and> lease_inv s' \<and> same_tokens s s'
    \<and> (\<forall>k. active_at s' k \<le> active_at s k)
    \<and> (\<forall>i. get_lease i s' =
         (if i \<in> fst ` set rest then map_option (lease_reaped now) (get_lease i s) else get_lease i s))"
  using assms
proof (induction rest arbitrary: s)
  case (Cons x rest)
  obtain lid l where x: "x = (lid, l)" by force
  have get: "get_lease lid s = Some l" using Cons.prems(3) x by simp
  have rest: "distinct (map fst rest)" "lid \<notin> fst ` set rest" using Cons.prems(2) x by auto
  show ?case
  proof (cases "lease_reapable now l")
    case False
    then have "reap_leases_loop now (x # rest) s = reap_leases_loop now rest s"
      by (auto simp: x lease_reapable_def)
    moreover have "lease_reaped now l = l" using False by (simp add: lease_reaped_def)
    moreover have "\<forall>e \<in> set rest. get_lease (fst e) s = Some (snd e)" using Cons.prems(3) by auto
    ultimately show ?thesis using Cons.IH[OF Cons.prems(1) rest(1)] get x rest(2) by fastforce
  next
    case True
    then have act: "rl_state l = LS_ACTIVE" by (simp add: lease_reapable_def)
    obtain s1 where s1: "release_lease_items (rl_items l) s = (Inr (), s1)"
      and gb: "gives_back LS_EXPIRED l s (s1\<lparr>rs_leases := dict_set lid (with_lease_state LS_EXPIRED l) (rs_leases s1)\<rparr>)"
      using give_back_spec[OF Cons.prems(1) get act, of LS_EXPIRED] by auto
    define s2 where "s2 = s1\<lparr>rs_leases := dict_set lid (with_lease_state LS_EXPIRED l) (rs_leases s1)\<rparr>"
    note gb = gb[folded s2_def]
    have id: "rl_id l = lid" and ok: "items_positive (rl_items l)" using lease_invD(2)[OF Cons.prems(1) get] by auto
    have inv2: "lease_inv s2" using gb by (simp add: gives_back_def)
    have get2: "get_lease i s2 = (if i = lid then Some (with_lease_state LS_EXPIRED l) else get_lease i s)" for i
      using gives_back_get[OF gb] id by simp
    have "\<forall>e \<in> set rest. get_lease (fst e) s2 = Some (snd e)"
      using Cons.prems(3) rest(2) unfolding get2 by force
    from Cons.IH[OF inv2 rest(1) this] obtain rs s' where s': "reap_leases_loop now rest s2 = (Inr rs, s')"
      "lease_inv s'" "same_tokens s2 s'" "\<forall>k. active_at s' k \<le> active_at s2 k"
      "\<forall>i. get_lease i s' =
         (if i \<in> fst ` set rest then map_option (lease_reaped now) (get_lease i s2) else get_lease i s2)" by blast
    have "reap_leases_loop now (x # rest) s = (Inr (with_lease_state LS_EXPIRED l # rs), s')"
      using True act s1 s'(1)
      by (simp add: x lease_reapable_def bind_op_def set_lease_def s2_def with_lease_state_def)
    moreover have "same_tokens s s'" using gb s'(3) same_tokens_trans by (auto simp: gives_back_def)
    moreover have "active_at s' k \<le> active_at s k" for k
      using s'(4)[rule_format, of k] gb conc_on_nonneg[OF ok, of k] by (simp add: gives_back_def)
    moreover have "get_lease i s' = (if i \<in> fst ` set (x # rest)
        then map_option (lease_reaped now) (get_lease i s) else get_lease i s)" for i
      using s'(5) get2 rest(2) get True x by (auto simp: lease_reaped_def)
    ultimately show ?thesis using s'(2) by blast
  qed
qed simp

lemma reap_leases_spec:
  assumes inv: "lease_inv s"
  shows "\<exists>rs s'. reap_leases now s = (Inr rs, s') \<and> lease_inv s' \<and> same_tokens s s'
    \<and> (\<forall>k. active_at s' k \<le> active_at s k)
    \<and> (\<forall>i. get_lease i s' = map_option (lease_reaped now) (get_lease i s))"
proof -
  have "get_lease i s = None" if "i \<notin> fst ` set (rs_leases s)" for i
    using that by (simp add: get_lease_def map_of_eq_None_iff)
  moreover have "\<forall>e \<in> set (rs_leases s). get_lease (fst e) s = Some (snd e)"
    using lease_invD(1)[OF inv] by (auto simp: get_lease_def)
  ultimately show ?thesis
    using reap_leases_loop_spec[OF inv lease_invD(1)[OF inv], of now] unfolding reap_leases_def
    by (metis (no_types, lifting) option.map(1))
qed

subsection \<open>The lease contract\<close>

definition lease_lapsed :: "time \<Rightarrow> rate_store \<Rightarrow> string \<Rightarrow> bool" where
  "lease_lapsed now s lid \<longleftrightarrow> (case get_lease lid s of None \<Rightarrow> False | Some l \<Rightarrow> rl_expires_at l \<le> now)"

definition rate_close :: "unit \<Rightarrow> string \<Rightarrow> (rate_store, rate_lease) op" where
  "rate_close u lid = rate_release lid"

interpretation rates: lease_store lease_holds lease_lapsed rate_close rate_reap lease_inv
proof unfold_locales
  fix s i c
  assume inv: "lease_inv s" and "lease_holds s i"
  then obtain l where l: "get_lease i s = Some l" "rl_state l = LS_ACTIVE" by (auto simp: lease_holds_iff)
  then obtain s' where s': "rate_close c i s = (Inr (with_lease_state LS_RELEASED l), s')" "gives_back LS_RELEASED l s s'"
    using release_lease_spec[OF inv l] by (auto simp: rate_close_def rate_release_def)
  have "lease_holds s' = (lease_holds s)(i := False)"
    using lease_invD(2)[OF inv l(1)] by (intro ext) (auto simp: lease_holds_def gives_back_get[OF s'(2)])
  with s' show "(\<exists>r. fst (rate_close c i s) = Inr r) \<and> lease_inv (snd (rate_close c i s))
      \<and> lease_holds (snd (rate_close c i s)) = (lease_holds s)(i := False)"
    by (simp add: gives_back_def)
next
  fix s i c
  assume "\<not> lease_holds s i"
  from not_holding(1)[OF this] show "\<exists>e. rate_close c i s = (Inl e, s)"
    by (auto simp: rate_close_def rate_release_def)
next
  fix s now
  assume "lease_inv s"
  from reap_leases_spec[OF this, of now] obtain rs s' where
    r: "reap_leases now s = (Inr rs, s')" "lease_inv s'"
      "\<forall>i. get_lease i s' = map_option (lease_reaped now) (get_lease i s)" by blast
  have "lease_holds s' i \<longleftrightarrow> lease_holds s i \<and> \<not> lease_lapsed now s i" for i
    using r(3) by (auto simp: lease_holds_def lease_lapsed_def lease_reaped_def lease_reapable_def split: option.splits)
  with r(1,2) show "(\<exists>rs. fst (rate_reap now s) = Inr rs) \<and> lease_inv (snd (rate_reap now s))
      \<and> (\<forall>i. lease_holds (snd (rate_reap now s)) i \<longleftrightarrow> lease_holds s i \<and> \<not> lease_lapsed now s i)"
    by (simp add: rate_reap_def)
qed

end
