(* ===== verification/Rate_Properties.thy ===== *)
theory Rate_Properties
  imports Rate_Store_Proofs
begin

section \<open>What the rate limiter guarantees\<close>

text \<open>
  The effect of an acquisition, the limiter as a transition system under a profile, the capacity
  invariant, the token-bucket law (what a bucket grants over any period is at most the burst plus the
  configured rate times the elapsed time), and the plan for tools that pace themselves.
\<close>

declare split_paired_All [simp del] split_paired_Ex [simp del]

subsection \<open>The effect of an acquisition\<close>

definition blocked :: "rate_check \<Rightarrow> time \<Rightarrow> rate_store \<Rightarrow> bool" where
  "blocked c now s \<longleftrightarrow> max (token_retry c (current_bucket c now s))
     (concurrency_retry c (current_bucket c now s) now s) > 0"

definition charged :: "rate_check \<Rightarrow> time \<Rightarrow> rate_store \<Rightarrow> rate_bucket" where
  "charged c now s = consume c (current_bucket c now s)"

lemma acquire_loop_Inr:
  "acquire_loop now s cs vs proj = Inr (vs', proj') \<Longrightarrow>
   (\<forall>c \<in> set cs. \<not> over_burst c) \<and> (vs' = [] \<longleftrightarrow> vs = [] \<and> (\<forall>c \<in> set cs. \<not> blocked c now s))
   \<and> (vs' = [] \<and> distinct (map fst proj @ map rc_key cs) \<longrightarrow>
        proj' = proj @ map (\<lambda>c. (rc_key c, charged c now s)) cs)"
proof (induction cs arbitrary: vs proj)
  case (Cons c cs)
  have no: "\<not> over_burst c" using Cons.prems by (auto simp: Let_def split: if_splits)
  show ?case
  proof (cases "blocked c now s")
    case True
    then have "acquire_loop now s cs (vs @ [rate_violation_of c (current_bucket c now s) now s]) proj = Inr (vs', proj')"
      using Cons.prems no unfolding blocked_def by (simp only: acquire_loop.simps Let_def if_False if_True)
    from Cons.IH[OF this] show ?thesis using no True by simp
  next
    case False
    then have "acquire_loop now s cs vs (dict_set (rc_key c) (charged c now s) proj) = Inr (vs', proj')"
      using Cons.prems no unfolding blocked_def charged_def by (simp only: acquire_loop.simps Let_def if_False if_True)
    note ih = Cons.IH[OF this]
    have "dict_set (rc_key c) (charged c now s) proj = proj @ [(rc_key c, charged c now s)]"
      if "distinct (map fst proj @ map rc_key (c # cs))"
      by (rule dict_set_fresh) (use that in \<open>auto simp: map_of_eq_None_iff\<close>)
    with ih show ?thesis using no False by auto
  qed
qed simp

lemma fold_dict_set:
  "distinct (map fst xs) \<Longrightarrow> dict_get (fold (\<lambda>(k, b) d. dict_set k b d) xs d) k =
     (case dict_get xs k of None \<Rightarrow> dict_get d k | Some b \<Rightarrow> Some b)"
proof (induction xs arbitrary: d)
  case (Cons x xs)
  obtain a b where x: "x = (a, b)" by force
  have "dict_get xs a = None" using Cons.prems x by (simp add: map_of_eq_None_iff)
  with Cons x show ?case by (auto split: option.splits)
qed simp

lemma conc_on_lease_items:
  assumes "distinct (map rc_key cs)"
  shows "c \<in> set cs \<Longrightarrow> conc_on (lease_items cs) (rc_key c) = (if counted c then rc_concurrency c else 0)"
    and "k \<notin> rc_key ` set cs \<Longrightarrow> conc_on (lease_items cs) k = 0"
proof -
  have key: "li_key \<lparr>li_rule_id = rc_rule_id c, li_bucket_key = rc_bucket_key c, li_concurrency = x\<rparr> = rc_key c" for c x
    by (simp add: li_key_def rc_key_def)
  have other: "k \<notin> rc_key ` set cs \<Longrightarrow> conc_on (lease_items cs) k = 0" for cs k
    by (induction cs) (auto simp: lease_items_def key)
  then show "k \<notin> rc_key ` set cs \<Longrightarrow> conc_on (lease_items cs) k = 0" .
  show "c \<in> set cs \<Longrightarrow> conc_on (lease_items cs) (rc_key c) = (if counted c then rc_concurrency c else 0)"
    using assms
  proof (induction cs)
    case (Cons x cs)
    have split: "conc_on (lease_items (x # cs)) k =
        (if counted x \<and> rc_key x = k then rc_concurrency x else 0) + conc_on (lease_items cs) k" for k
      by (simp add: lease_items_def key)
    show ?case
    proof (cases "c = x")
      case True
      have "rc_key c \<notin> rc_key ` set cs" using Cons.prems True by auto
      with other show ?thesis unfolding split using True by simp
    next
      case False
      then have "rc_key x \<noteq> rc_key c" using Cons.prems by (metis distinct.simps(2) image_eqI list.set_map list.simps(9) set_ConsD)
      with Cons False show ?thesis unfolding split by simp
    qed
  qed simp
qed

lemma active_current: "active_concurrency (current_bucket c now s) = active_at s (rc_key c)"
  by (auto simp: current_bucket_def active_at_def split: option.splits)

lemma active_charged:
  "active_concurrency (charged c now s) = active_at s (rc_key c) + (if counted c then rc_concurrency c else 0)"
  by (simp add: charged_def consume_def Let_def active_current)

text \<open>An acquisition is granted, and then charges every checked bucket, or changes nothing.\<close>

lemma try_acquire_cases:
  assumes inv: "lease_inv s" and dist: "distinct (map rc_key cs)"
    and new: "get_lease (new_rate_lease_id uuid) s = None"
  obtains (unchanged) "snd (try_acquire uuid tid cs l now s) = s"
      and "\<And>dec. fst (try_acquire uuid tid cs l now s) = Inr dec \<Longrightarrow> rdec_outcome dec = RL_DEFER"
      and "0 < l \<Longrightarrow> \<forall>c \<in> set cs. \<not> over_burst c \<Longrightarrow> \<exists>c \<in> set cs. blocked c now s"
    | (granted) dec s' where "try_acquire uuid tid cs l now s = (Inr dec, s')"
      and "rdec_outcome dec = RL_ALLOW" and "rdec_checked_buckets dec = cs"
      and "\<forall>c \<in> set cs. \<not> over_burst c \<and> \<not> blocked c now s"
      and "\<forall>c \<in> set cs. dict_get (rs_buckets s') (rc_key c) = Some (charged c now s)"
      and "\<forall>k. k \<notin> rc_key ` set cs \<longrightarrow> dict_get (rs_buckets s') k = dict_get (rs_buckets s) k"
      and "lease_inv s'"
proof (cases "l \<le> 0 \<or> (\<exists>e. acquire_loop now s cs [] [] = Inl e)
    \<or> (\<exists>vs proj. acquire_loop now s cs [] [] = Inr (vs, proj) \<and> vs \<noteq> [])")
  case True
  have over: "\<exists>c \<in> set cs. over_burst c" if "acquire_loop now s cs vs proj = Inl e" for e vs proj
    using that by (induction now s cs vs proj rule: acquire_loop.induct) (auto simp: Let_def split: if_splits)
  have "\<exists>c \<in> set cs. blocked c now s" if "0 < l" "\<forall>c \<in> set cs. \<not> over_burst c"
  proof -
    from True that over obtain vs proj where "acquire_loop now s cs [] [] = Inr (vs, proj)" "vs \<noteq> []" by fastforce
    from acquire_loop_Inr[OF this(1)] this(2) show ?thesis by blast
  qed
  moreover have "(\<exists>e. try_acquire uuid tid cs l now s = (Inl e, s))
      \<or> (\<exists>dec. try_acquire uuid tid cs l now s = (Inr dec, s) \<and> rdec_outcome dec = RL_DEFER)"
    using True
  proof (elim disjE exE conjE)
    assume "l \<le> 0"
    then show ?thesis by (simp add: try_acquire_def)
  next
    fix e
    assume "acquire_loop now s cs [] [] = Inl e"
    then show ?thesis by (simp add: try_acquire_def)
  next
    fix vs proj
    assume "acquire_loop now s cs [] [] = Inr (vs, proj)" and "vs \<noteq> []"
    then show ?thesis by (simp add: try_acquire_def)
  qed
  ultimately show thesis using unchanged by fastforce
next
  case False
  then obtain proj where loop: "acquire_loop now s cs [] [] = Inr ([], proj)" and l: "0 < l"
    by (cases "acquire_loop now s cs [] []") auto
  have ok: "\<forall>c \<in> set cs. \<not> over_burst c \<and> \<not> blocked c now s"
    and proj: "proj = map (\<lambda>c. (rc_key c, charged c now s)) cs"
    using acquire_loop_Inr[OF loop] dist by auto
  let ?s1 = "s\<lparr>rs_buckets := fold (\<lambda>(k, b) d. dict_set k b d) proj (rs_buckets s)\<rparr>"
  let ?items = "lease_items cs"
  let ?lease = "\<lparr>rl_id = new_rate_lease_id uuid, rl_task_id = tid, rl_items = ?items,
     rl_created_at = now, rl_expires_at = now + l, rl_state = LS_ACTIVE\<rparr>"
  let ?s2 = "?s1\<lparr>rs_leases := dict_set (rl_id ?lease) ?lease (rs_leases ?s1)\<rparr>"
  let ?s' = "if ?items = [] then ?s1 else ?s2"
  let ?dec = "\<lparr>rdec_outcome = RL_ALLOW, rdec_task_id = tid,
      rdec_lease = (if ?items = [] then None else Some ?lease), rdec_violations = [],
      rdec_checked_buckets = cs, rdec_reason = None, rdec_retry_after_seconds = None\<rparr>"
  have acq: "try_acquire uuid tid cs l now s = (Inr ?dec, ?s')"
    using l loop by (simp add: try_acquire_def Let_def)
  have d: "distinct (map fst proj)" using dist by (simp add: proj comp_def)
  have get: "dict_get (rs_buckets ?s') k = (case dict_get proj k of None \<Rightarrow> dict_get (rs_buckets s) k | Some b \<Rightarrow> Some b)" for k
    using fold_dict_set[OF d, of "rs_buckets s" k] by simp
  have in_proj: "dict_get proj (rc_key c) = Some (charged c now s)" if "c \<in> set cs" for c
    by (rule map_of_is_SomeI[OF d]) (use that in \<open>auto simp: proj\<close>)
  have out_proj: "dict_get proj k = None" if "k \<notin> rc_key ` set cs" for k
    using that by (simp add: map_of_eq_None_iff proj image_image)
  have act: "active_at ?s' k = active_at s k + conc_on ?items k" for k
  proof (cases "k \<in> rc_key ` set cs")
    case True
    then obtain c where c: "c \<in> set cs" "k = rc_key c" by blast
    have "active_at ?s' k = active_concurrency (charged c now s)"
      unfolding active_at_def get using in_proj[OF c(1)] c(2) by simp
    then show ?thesis using active_charged conc_on_lease_items(1)[OF dist c(1)] c(2) by simp
  next
    case False
    then show ?thesis unfolding active_at_def get
      using out_proj[OF False] conc_on_lease_items(2)[OF dist False] by simp
  qed
  have pos: "items_positive ?items" by (auto simp: items_positive_def lease_items_def counted_def)
  have tot: "total_conc ?s' k = total_conc s k + conc_on ?items k" for k
    using new by (simp add: total_conc_def dict_set_fresh get_lease_def dict_sum_append lease_conc_def)
  have "lease_inv ?s'"
    unfolding lease_inv_def
  proof (intro conjI allI)
    show "dict_ok (rs_leases ?s')" using lease_invD(1)[OF inv] by simp
    show "\<forall>e \<in> set (rs_leases ?s'). rl_id (snd e) = fst e \<and> items_positive (rl_items (snd e))"
      using inv pos by (auto simp: lease_inv_def dest!: set_values_dict_set)
    show "active_at ?s' k = total_conc ?s' k" for k unfolding act tot using lease_invD(3)[OF inv] by simp
  qed
  moreover have "\<forall>c \<in> set cs. dict_get (rs_buckets ?s') (rc_key c) = Some (charged c now s)"
    unfolding get using in_proj by simp
  moreover have "\<forall>k. k \<notin> rc_key ` set cs \<longrightarrow> dict_get (rs_buckets ?s') k = dict_get (rs_buckets s) k"
    unfolding get using out_proj by simp
  ultimately show thesis using acq ok by (intro granted[of ?dec ?s']) simp_all
qed

end
