(* ===== verification/Rate_Guarantees.thy ===== *)
theory Rate_Guarantees
  imports Rate_Properties
begin

section \<open>The rate-limit properties\<close>

text \<open>
  The limiter as a transition system under a validated profile, its capacity invariant, the token
  bucket law, and the properties of recon/policy/rate_limit.py with their witnesses.
\<close>

declare split_paired_All [simp del] split_paired_Ex [simp del]

subsection \<open>Validated profiles and the checks they compile to\<close>

definition rule_ok :: "rate_rule \<Rightarrow> bool" where
  "rule_ok r \<longleftrightarrow> (\<forall>x. rr_rps r = Some x \<longrightarrow> 0 < x) \<and> (\<forall>x. rr_burst r = Some x \<longrightarrow> 0 < x)
     \<and> (\<forall>n. rr_max_concurrency r = Some n \<longrightarrow> 1 \<le> n) \<and> (rr_burst r = None \<longleftrightarrow> rr_rps r = None)"

definition rates_ok :: "rate_profile \<Rightarrow> bool" where
  "rates_ok p \<longleftrightarrow> (\<forall>r \<in> set (rp_rules p). rule_ok r) \<and> distinct (map rr_id (rp_rules p))"

definition rate_demand_ok :: "rate_demand \<Rightarrow> bool" where
  "rate_demand_ok d \<longleftrightarrow> 0 \<le> rd_requests d \<and> 0 \<le> rd_concurrency d"

lemma validated_rule_ok: "validate_rate_rule r = Inr r' \<Longrightarrow> rule_ok r'"
  by (auto simp: validate_rate_rule_def rule_ok_def bind_res_Inr_iff not_le not_less split: if_splits)

lemma first_duplicate_None: "first_duplicate seen xs = None \<longleftrightarrow> distinct xs \<and> set xs \<inter> seen = {}"
  by (induction xs arbitrary: seen) auto

lemma validated_profile_ok:
  "validate_rate_profile p = Inr p' \<Longrightarrow> \<forall>r \<in> set (rp_rules p). \<exists>raw. validate_rate_rule raw = Inr r \<Longrightarrow> rates_ok p'"
  by (auto simp: validate_rate_profile_def rates_ok_def first_duplicate_None validated_rule_ok
      split: if_splits option.splits)

lemma matching_rules: "m \<in> set (matching_rule_resources p t keys) \<Longrightarrow> fst m \<in> set (rp_rules p)"
  by (auto simp: matching_rule_resources_def split: if_splits)

lemma check_of_simps [simp]:
  "rc_rule_id (check_of d m) = rr_id (fst m)" "rc_requests (check_of d m) = rd_requests d"
  "rc_concurrency (check_of d m) = rd_concurrency d" "rc_rps (check_of d m) = rr_rps (fst m)"
  "rc_burst (check_of d m) = rr_burst (fst m)" "rc_max_concurrency (check_of d m) = rr_max_concurrency (fst m)"
  "fst (rc_key (check_of d m)) = rr_id (fst m)"
  by (simp_all add: check_of_def rc_key_def split: prod.splits)

text \<open>A check of a bucket carries the settings of the rule that names the bucket.\<close>

lemma compiled_check_rule:
  assumes p: "rates_ok p" and c: "c \<in> set (rate_compile_checks (matching_rule_resources p t keys) d)"
    and rule: "rule \<in> set (rp_rules p)" "rr_id rule = rc_rule_id c"
  shows "rc_rps c = rr_rps rule \<and> rc_burst c = rr_burst rule \<and> rc_max_concurrency c = rr_max_concurrency rule
    \<and> rc_requests c = rd_requests d \<and> rc_concurrency c = rd_concurrency d"
proof -
  obtain m where m: "m \<in> set (matching_rule_resources p t keys)" "c = check_of d m"
    using rate_compile_checks_spec(2) c by blast
  have "fst m = rule"
    using p rule m matching_rules[OF m(1)] by (auto simp: rates_ok_def distinct_map inj_on_def)
  with m(2) show ?thesis by simp
qed

lemma compiled_check_ok:
  assumes "rates_ok p" and "c \<in> set (rate_compile_checks (matching_rule_resources p t keys) d)"
  shows "\<exists>rule \<in> set (rp_rules p). rr_id rule = rc_rule_id c \<and> rule_ok rule"
proof -
  obtain m where m: "m \<in> set (matching_rule_resources p t keys)" "c = check_of d m"
    using rate_compile_checks_spec(2) assms(2) by blast
  then have "fst m \<in> set (rp_rules p)" and "rr_id (fst m) = rc_rule_id c" by (simp_all add: matching_rules)
  with assms(1) show ?thesis by (auto simp: rates_ok_def)
qed

subsection \<open>Runs\<close>

definition granted_on :: "bucket_id \<Rightarrow> rate_decision \<Rightarrow> rat" where
  "granted_on k dec = (if rdec_outcome dec = RL_ALLOW
     then sum_list (map rc_requests (filter (\<lambda>c. rc_key c = k) (rdec_checked_buckets dec))) else 0)"

definition acquired_on :: "bucket_id \<Rightarrow> rate_decision res \<Rightarrow> rat" where
  "acquired_on k r = (case r of Inl _ \<Rightarrow> 0 | Inr dec \<Rightarrow> granted_on k dec)"

text \<open>
  A run from an empty store at time \<open>t0\<close>: the store, the clock (which does not go back), and the
  requests granted on the bucket \<open>k\<close> so far. Lease ids are fresh.
\<close>

inductive rate_run :: "rate_profile \<Rightarrow> bucket_id \<Rightarrow> time \<Rightarrow> rate_store \<Rightarrow> time \<Rightarrow> rat \<Rightarrow> bool" for p k t0 where
  start: "rate_run p k t0 empty_rate_store t0 0"
| acquire: "rate_run p k t0 s now n \<Longrightarrow> now \<le> now' \<Longrightarrow> rate_demand_ok d \<Longrightarrow>
     get_lease (new_rate_lease_id uuid) s = None \<Longrightarrow>
     rate_acquire p uuid now' t keys d l s = (r, s') \<Longrightarrow>
     rate_run p k t0 s' now' (n + acquired_on k r)"
| release: "rate_run p k t0 s now n \<Longrightarrow> rate_run p k t0 (snd (rate_release lid s)) now n"
| renew: "rate_run p k t0 s now n \<Longrightarrow> rate_run p k t0 (snd (rate_renew lid l now1 now2 s)) now n"
| reap: "rate_run p k t0 s now n \<Longrightarrow> rate_run p k t0 (snd (rate_reap now1 s)) now n"

definition within_rates :: "rate_profile \<Rightarrow> rate_store \<Rightarrow> bool" where
  "within_rates p s \<longleftrightarrow> (\<forall>k b. dict_get (rs_buckets s) k = Some b \<longrightarrow> - rate_tolerance \<le> tokens b
     \<and> (\<forall>rule \<in> set (rp_rules p). rr_id rule = fst k \<longrightarrow>
          (\<forall>burst. rr_burst rule = Some burst \<longrightarrow> tokens b \<le> burst)
        \<and> (\<forall>n. rr_max_concurrency rule = Some n \<longrightarrow> active_concurrency b \<le> n)))"

text \<open>The account of one bucket: what was granted plus what is left never exceeds burst plus refill.\<close>

definition account :: "rat \<Rightarrow> rat \<Rightarrow> bucket_id \<Rightarrow> time \<Rightarrow> rate_store \<Rightarrow> time \<Rightarrow> rat \<Rightarrow> bool" where
  "account rps burst k t0 s now n \<longleftrightarrow> t0 \<le> now
     \<and> (case dict_get (rs_buckets s) k of None \<Rightarrow> n = 0
        | Some b \<Rightarrow> t0 \<le> last_refill_at b \<and> last_refill_at b \<le> now
            \<and> n + tokens b \<le> burst + rps * total_seconds (last_refill_at b - t0))"

lemma rate_acquire_cases:
  assumes inv: "lease_inv s" and new: "get_lease (new_rate_lease_id uuid) s = None"
    and r: "rate_acquire p uuid now t keys d l s = (r, s')"
  obtains (unchanged) "s' = s" and "\<And>k. acquired_on k r = 0"
    | (granted) dec cs where "r = Inr dec" and "rdec_outcome dec = RL_ALLOW" and "rdec_checked_buckets dec = cs"
      and "cs = rate_compile_checks (matching_rule_resources p t keys) d"
      and "\<forall>c \<in> set cs. \<not> over_burst c \<and> \<not> blocked c now s"
      and "\<forall>c \<in> set cs. dict_get (rs_buckets s') (rc_key c) = Some (charged c now s)"
      and "\<forall>k. k \<notin> rc_key ` set cs \<longrightarrow> dict_get (rs_buckets s') k = dict_get (rs_buckets s) k"
      and "lease_inv s'"
proof (cases "l \<le> 0 \<or> matching_rule_resources p t keys = []")
  case True
  with r have "s' = s" and "acquired_on k r = 0" for k
    by (auto simp: rate_acquire_def acquired_on_def granted_on_def plain_rate_decision_def Let_def split: if_splits)
  then show thesis by (rule unchanged)
next
  case False
  let ?cs = "rate_compile_checks (matching_rule_resources p t keys) d"
  have try': "try_acquire uuid (t_task_id t) ?cs l now s = (r, s')"
    using r False by (simp add: rate_acquire_def Let_def)
  note dist = rate_compile_checks_spec(1)[of "matching_rule_resources p t keys" d]
  show thesis
  proof (rule try_acquire_cases[OF inv dist new, of "t_task_id t" l now])
    assume u: "snd (try_acquire uuid (t_task_id t) ?cs l now s) = s"
      and "\<And>dec. fst (try_acquire uuid (t_task_id t) ?cs l now s) = Inr dec \<Longrightarrow> rdec_outcome dec = RL_DEFER"
    then have "acquired_on k r = 0" for k
      unfolding try' by (auto simp: acquired_on_def granted_on_def split: sum.splits)
    then show thesis by (rule unchanged[rotated]) (use u try' in simp)
  next
    fix dec s''
    assume g: "try_acquire uuid (t_task_id t) ?cs l now s = (Inr dec, s'')" "rdec_outcome dec = RL_ALLOW"
      "rdec_checked_buckets dec = ?cs" "\<forall>c \<in> set ?cs. \<not> over_burst c \<and> \<not> blocked c now s"
      "\<forall>c \<in> set ?cs. dict_get (rs_buckets s'') (rc_key c) = Some (charged c now s)"
      "\<forall>k. k \<notin> rc_key ` set ?cs \<longrightarrow> dict_get (rs_buckets s'') k = dict_get (rs_buckets s) k" "lease_inv s''"
    from g(1) try' have "r = Inr dec" "s'' = s'" by auto
    with g show thesis by (intro granted[of dec ?cs]) simp_all
  qed
qed

subsection \<open>One charge\<close>

lemma rate_tolerance_pos: "0 < rate_tolerance"
  by (simp add: rate_tolerance_def)

lemma earliest_pos: "0 < earliest_concurrency_release rid bk now s"
  by (auto simp: earliest_concurrency_release_def less_max_iff_disj split: list.splits)

lemma not_blocked:
  assumes "\<not> blocked c now s"
  shows "counted c \<Longrightarrow> active_at s (rc_key c) + rc_concurrency c \<le> the (rc_max_concurrency c)"
    and "paced c \<Longrightarrow> 0 < the (rc_rps c) \<Longrightarrow> rc_requests c \<le> tokens (current_bucket c now s) + rate_tolerance"
proof -
  from assms have t: "token_retry c (current_bucket c now s) \<le> 0"
    and k: "concurrency_retry c (current_bucket c now s) now s \<le> 0"
    by (auto simp: blocked_def)
  show "active_at s (rc_key c) + rc_concurrency c \<le> the (rc_max_concurrency c)" if "counted c"
    using k that earliest_pos[of "rc_rule_id c" "rc_bucket_key c" now s]
    by (auto simp: concurrency_retry_def active_current split: if_splits)
  show "rc_requests c \<le> tokens (current_bucket c now s) + rate_tolerance" if "paced c" "0 < the (rc_rps c)"
  proof (rule ccontr)
    assume "\<not> ?thesis"
    then have lt: "tokens (current_bucket c now s) + rate_tolerance < rc_requests c" by simp
    then have "0 < (rc_requests c - tokens (current_bucket c now s)) / the (rc_rps c)"
      using rate_tolerance_pos that(2) by simp
    with t lt that(1) show False by (simp add: token_retry_def)
  qed
qed

lemma current_tokens:
  assumes "\<forall>b. dict_get (rs_buckets s) (rc_key c) = Some b \<longrightarrow> - rate_tolerance \<le> tokens b
      \<and> (\<forall>x. rc_burst c = Some x \<longrightarrow> tokens b \<le> x)"
    and "\<forall>x. rc_burst c = Some x \<longrightarrow> 0 < x" and "\<forall>x. rc_rps c = Some x \<longrightarrow> 0 < x"
  shows "- rate_tolerance \<le> tokens (current_bucket c now s)
    \<and> (\<forall>x. rc_burst c = Some x \<longrightarrow> tokens (current_bucket c now s) \<le> x)"
proof (cases "dict_get (rs_buckets s) (rc_key c)")
  case None
  with assms(2) rate_tolerance_pos show ?thesis
    by (auto simp: current_bucket_def split: option.splits)
next
  case (Some b)
  note b = assms(1)[rule_format, OF Some]
  have nn: "0 \<le> max (total_seconds (now - last_refill_at b)) 0 * x" if "rc_rps c = Some x" for x
    using assms(3) that by (intro mult_nonneg_nonneg) auto
  show ?thesis
  proof (cases "rc_rps c = None \<or> rc_burst c = None")
    case True
    then show ?thesis using Some b by (auto simp: current_bucket_def split: option.splits)
  next
    case False
    then obtain x y where xy: "rc_rps c = Some x" "rc_burst c = Some y" by auto
    have "tokens (current_bucket c now s)
        = min y (tokens b + max (total_seconds (now - last_refill_at b)) 0 * x)"
      using Some xy by (simp add: current_bucket_def)
    moreover have "0 < y" using assms(2) xy by simp
    ultimately show ?thesis using nn[OF xy(1)] b xy(2) rate_tolerance_pos by simp
  qed
qed

lemma charged_tokens:
  "tokens (charged c now s) =
     tokens (current_bucket c now s) - (if rc_requests c > 0 \<and> rc_rps c \<noteq> None then rc_requests c else 0)"
  by (simp add: charged_def consume_def Let_def)

lemma charged_within:
  assumes p: "rates_ok p" and w: "within_rates p s" and d: "rate_demand_ok d"
    and c: "c \<in> set (rate_compile_checks (matching_rule_resources p t keys) d)" and nb: "\<not> blocked c now s"
    and rule: "rule \<in> set (rp_rules p)" "rr_id rule = rc_rule_id c"
  shows "- rate_tolerance \<le> tokens (charged c now s)
    \<and> (\<forall>burst. rr_burst rule = Some burst \<longrightarrow> tokens (charged c now s) \<le> burst)
    \<and> (\<forall>n. rr_max_concurrency rule = Some n \<longrightarrow> active_concurrency (charged c now s) \<le> n)"
proof -
  have cr: "rc_rps c = rr_rps rule" "rc_burst c = rr_burst rule" "rc_max_concurrency c = rr_max_concurrency rule"
    "rc_requests c = rd_requests d" "rc_concurrency c = rd_concurrency d"
    using compiled_check_rule[OF p c rule] by auto
  have ro: "rule_ok rule" using p rule(1) by (simp add: rates_ok_def)
  have key: "fst (rc_key c) = rr_id rule" using rule(2) by (simp add: rc_key_def)
  have old: "- rate_tolerance \<le> tokens b \<and> (\<forall>x. rr_burst rule = Some x \<longrightarrow> tokens b \<le> x)
      \<and> (\<forall>n. rr_max_concurrency rule = Some n \<longrightarrow> active_concurrency b \<le> n)"
    if "dict_get (rs_buckets s) (rc_key c) = Some b" for b
    using w that rule(1) key[symmetric] unfolding within_rates_def by blast
  have cur: "- rate_tolerance \<le> tokens (current_bucket c now s)
      \<and> (\<forall>x. rr_burst rule = Some x \<longrightarrow> tokens (current_bucket c now s) \<le> x)"
    using current_tokens[of s c now] old ro cr by (simp add: rule_ok_def)
  have req: "0 \<le> rc_requests c" and conc: "0 \<le> rc_concurrency c" using d cr by (auto simp: rate_demand_ok_def)
  have "rc_requests c \<le> tokens (current_bucket c now s) + rate_tolerance"
    if "rc_requests c > 0" "rc_rps c \<noteq> None"
    using not_blocked(2)[OF nb] that ro cr by (auto simp: paced_def rule_ok_def)
  then have "- rate_tolerance \<le> tokens (charged c now s)"
    using cur by (auto simp: charged_tokens)
  moreover have "tokens (charged c now s) \<le> x" if "rr_burst rule = Some x" for x
    using cur that by (force simp: charged_tokens)
  moreover have "active_concurrency (charged c now s) \<le> n" if n: "rr_max_concurrency rule = Some n" for n
  proof (cases "counted c")
    case True
    with not_blocked(1)[OF nb] cr n show ?thesis by (simp add: active_charged)
  next
    case False
    have "active_at s (rc_key c) \<le> n"
      using old n ro by (force simp: active_at_def rule_ok_def split: option.splits)
    with False show ?thesis by (simp add: active_charged)
  qed
  ultimately show ?thesis by blast
qed

subsection \<open>The invariants of a run\<close>

lemma renew_lease_spec:
  assumes inv: "lease_inv s"
  shows "lease_inv (snd (renew_lease lid x now s)) \<and> rs_buckets (snd (renew_lease lid x now s)) = rs_buckets s"
proof (cases "x \<le> now \<or> (\<exists>e. require_active_lease lid s = Inl e)")
  case True
  then have "snd (renew_lease lid x now s) = s" by (auto simp: renew_lease_def split: sum.splits)
  with inv show ?thesis by simp
next
  case False
  then obtain l where l: "require_active_lease lid s = Inr l" and x: "\<not> x \<le> now"
    by (cases "require_active_lease lid s") auto
  let ?l = "l\<lparr>rl_expires_at := x\<rparr>"
  let ?s = "s\<lparr>rs_leases := dict_set lid ?l (rs_leases s)\<rparr>"
  from l have get: "get_lease lid s = Some l" by (simp add: require_active_lease_Inr)
  have "lease_inv ?s"
    unfolding lease_inv_def
  proof (intro conjI allI)
    show "dict_ok (rs_leases ?s)" using lease_invD(1)[OF inv] by simp
    show "\<forall>e \<in> set (rs_leases ?s). rl_id (snd e) = fst e \<and> items_positive (rl_items (snd e))"
      using lease_invD(2)[OF inv get] inv by (auto simp: lease_inv_def dest!: set_values_dict_set)
    show "active_at ?s k = total_conc ?s k" for k
    proof -
      have "lease_conc k ?l = lease_conc k l" by (simp add: lease_conc_def)
      then show ?thesis
        using lease_invD(3)[OF inv, of k] dict_sum_set[OF lease_invD(1)[OF inv], of "lease_conc k" lid ?l]
          dict_sum_pop[OF lease_invD(1)[OF inv] get[unfolded get_lease_def], of "lease_conc k"]
        by (simp add: total_conc_def active_at_def)
    qed
  qed
  moreover have "snd (renew_lease lid x now s) = ?s" using l x by (simp add: renew_lease_def set_lease_def)
  ultimately show ?thesis by simp
qed

text \<open>What release, renew and reap may do to the buckets.\<close>

definition calmer :: "rate_store \<Rightarrow> rate_store \<Rightarrow> bool" where
  "calmer s s' \<longleftrightarrow> same_tokens s s' \<and> (\<forall>k. active_at s' k \<le> active_at s k)"

lemma calmer_bucket:
  assumes "calmer s s'" and "dict_get (rs_buckets s') k = Some b'"
  shows "\<exists>b. dict_get (rs_buckets s) k = Some b \<and> tokens b' = tokens b
    \<and> last_refill_at b' = last_refill_at b \<and> active_concurrency b' \<le> active_concurrency b"
proof -
  have "map_option (\<lambda>b. (tokens b, last_refill_at b)) (dict_get (rs_buckets s') k)
      = map_option (\<lambda>b. (tokens b, last_refill_at b)) (dict_get (rs_buckets s) k)"
    using assms(1) unfolding calmer_def same_tokens_def by blast
  then have "map_option (\<lambda>b. (tokens b, last_refill_at b)) (dict_get (rs_buckets s) k)
      = Some (tokens b', last_refill_at b')" by (simp add: assms(2))
  then obtain b where b: "dict_get (rs_buckets s) k = Some b" "tokens b' = tokens b"
    "last_refill_at b' = last_refill_at b" by auto
  have "active_at s' k \<le> active_at s k" using assms(1) by (simp add: calmer_def)
  with b assms(2) show ?thesis by (simp add: active_at_def)
qed

lemma calmer_none: "calmer s s' \<Longrightarrow> dict_get (rs_buckets s') k = None \<Longrightarrow> dict_get (rs_buckets s) k = None"
  unfolding calmer_def same_tokens_def by (metis (no_types) map_option_is_None)

lemma calmer_within:
  assumes "calmer s s'" and w: "within_rates p s"
  shows "within_rates p s'"
  unfolding within_rates_def
proof (intro allI impI)
  fix k b'
  assume "dict_get (rs_buckets s') k = Some b'"
  from calmer_bucket[OF assms(1) this] obtain b where b: "dict_get (rs_buckets s) k = Some b"
    "tokens b' = tokens b" "active_concurrency b' \<le> active_concurrency b" by blast
  have "- rate_tolerance \<le> tokens b \<and> (\<forall>rule \<in> set (rp_rules p). rr_id rule = fst k \<longrightarrow>
      (\<forall>burst. rr_burst rule = Some burst \<longrightarrow> tokens b \<le> burst)
    \<and> (\<forall>n. rr_max_concurrency rule = Some n \<longrightarrow> active_concurrency b \<le> n))"
    using w b(1) unfolding within_rates_def by blast
  with b(2,3) show "- rate_tolerance \<le> tokens b' \<and> (\<forall>rule \<in> set (rp_rules p). rr_id rule = fst k \<longrightarrow>
      (\<forall>burst. rr_burst rule = Some burst \<longrightarrow> tokens b' \<le> burst)
    \<and> (\<forall>n. rr_max_concurrency rule = Some n \<longrightarrow> active_concurrency b' \<le> n))"
    by (auto intro: order_trans)
qed

lemma calmer_account:
  assumes "calmer s s'" and "account rps burst k t0 s now n"
  shows "account rps burst k t0 s' now n"
proof (cases "dict_get (rs_buckets s') k")
  case None
  with calmer_none[OF assms(1)] assms(2) show ?thesis by (simp add: account_def)
next
  case (Some b')
  with calmer_bucket[OF assms(1) Some] assms(2) show ?thesis by (auto simp: account_def)
qed

lemma lease_ops_calm:
  assumes inv: "lease_inv s"
  shows "lease_inv (snd (rate_release lid s)) \<and> calmer s (snd (rate_release lid s))"
    and "lease_inv (snd (rate_renew lid l now now' s)) \<and> calmer s (snd (rate_renew lid l now now' s))"
    and "lease_inv (snd (rate_reap now s)) \<and> calmer s (snd (rate_reap now s))"
proof -
  show "lease_inv (snd (rate_release lid s)) \<and> calmer s (snd (rate_release lid s))"
  proof (cases "lease_holds s lid")
    case True
    then obtain l where l: "get_lease lid s = Some l" "rl_state l = LS_ACTIVE" by (auto simp: lease_holds_iff)
    have "0 \<le> conc_on (rl_items l) k" for k using lease_invD(2)[OF inv l(1)] conc_on_nonneg by blast
    with release_lease_spec[OF inv l] show ?thesis
      by (auto simp: rate_release_def calmer_def gives_back_def)
  next
    case False
    with not_holding(1)[OF False] inv show ?thesis by (auto simp: rate_release_def calmer_def)
  qed
  show "lease_inv (snd (rate_renew lid l now now' s)) \<and> calmer s (snd (rate_renew lid l now now' s))"
    using renew_lease_spec[OF inv, of lid "now + l" now'] inv
    by (auto simp: rate_renew_def calmer_def same_tokens_def active_at_def)
  show "lease_inv (snd (rate_reap now s)) \<and> calmer s (snd (rate_reap now s))"
    using reap_leases_spec[OF inv, of now] by (auto simp: rate_reap_def calmer_def)
qed

lemma rate_run_safe: "rate_run p k t0 s now n \<Longrightarrow> rates_ok p \<Longrightarrow> lease_inv s \<and> within_rates p s"
proof (induction rule: rate_run.induct)
  case start
  show ?case by (simp add: lease_inv_def within_rates_def empty_rate_store_def active_at_def total_conc_def)
next
  case (acquire s now n now' d uuid t keys l r s')
  then have inv: "lease_inv s" and w: "within_rates p s" by auto
  show ?case
  proof (rule rate_acquire_cases[OF inv acquire(4,5)])
    assume "s' = s"
    with inv w show ?thesis by simp
  next
    fix cs
    assume cs: "cs = rate_compile_checks (matching_rule_resources p t keys) d"
      "\<forall>c \<in> set cs. \<not> over_burst c \<and> \<not> blocked c now' s"
      "\<forall>c \<in> set cs. dict_get (rs_buckets s') (rc_key c) = Some (charged c now' s)"
      "\<forall>k. k \<notin> rc_key ` set cs \<longrightarrow> dict_get (rs_buckets s') k = dict_get (rs_buckets s) k" "lease_inv s'"
    have "within_rates p s'"
      unfolding within_rates_def
    proof (intro allI impI)
      fix k b
      assume b: "dict_get (rs_buckets s') k = Some b"
      show "- rate_tolerance \<le> tokens b \<and> (\<forall>rule \<in> set (rp_rules p). rr_id rule = fst k \<longrightarrow>
          (\<forall>burst. rr_burst rule = Some burst \<longrightarrow> tokens b \<le> burst)
        \<and> (\<forall>n. rr_max_concurrency rule = Some n \<longrightarrow> active_concurrency b \<le> n))"
      proof (cases "k \<in> rc_key ` set cs")
        case True
        then obtain c where c: "c \<in> set cs" "k = rc_key c" by blast
        with b cs(3) have bc: "b = charged c now' s" by simp
        have nb: "\<not> blocked c now' s" using cs(2) c(1) by simp
        note ch = charged_within[OF acquire(7) w acquire(3) c(1)[unfolded cs(1)] nb]
        obtain rule where "rule \<in> set (rp_rules p)" "rr_id rule = rc_rule_id c"
          using compiled_check_ok[OF acquire(7) c(1)[unfolded cs(1)]] by blast
        from ch[OF this] have "- rate_tolerance \<le> tokens b" by (simp add: bc)
        moreover have "fst k = rc_rule_id c" by (simp add: c(2) rc_key_def)
        ultimately show ?thesis using ch by (simp add: bc)
      next
        case False
        then have "dict_get (rs_buckets s) k = Some b" using b cs(4) by simp
        with w show ?thesis unfolding within_rates_def by blast
      qed
    qed
    with cs(5) show ?thesis by simp
  qed
next
  case (release s now n lid)
  with lease_ops_calm(1)[of s lid] calmer_within show ?case by blast
next
  case (renew s now n lid l now1 now2)
  with lease_ops_calm(2)[of s lid l now1 now2] calmer_within show ?case by blast
next
  case (reap s now n now1)
  with lease_ops_calm(3)[of s now1] calmer_within show ?case by blast
qed

lemma filter_key: "distinct (map f cs) \<Longrightarrow> c \<in> set cs \<Longrightarrow> filter (\<lambda>x. f x = f c) cs = [c]"
proof (induction cs)
  case (Cons x cs)
  have "filter (\<lambda>y. f y = f c) cs = []" if "f x = f c"
    using Cons.prems(1) that by (auto simp: filter_empty_conv) (metis image_eqI)
  with Cons show ?case by (cases "x = c") force+
qed simp

lemma refill_account:
  assumes acc: "account x burst k t0 s now n" and "now \<le> now'" and "0 \<le> x"
    and c: "rc_key c = k" "rc_rps c = Some x" "rc_burst c = Some burst"
  shows "last_refill_at (current_bucket c now' s) = now'
    \<and> n + tokens (current_bucket c now' s) \<le> burst + x * total_seconds (now' - t0)"
proof (cases "dict_get (rs_buckets s) k")
  case None
  have "0 \<le> x * total_seconds (now' - t0)"
    using assms(2,3) acc by (intro mult_nonneg_nonneg) (auto simp: account_def total_seconds_def)
  with None acc c show ?thesis by (simp add: account_def current_bucket_def)
next
  case (Some b)
  have a: "n + tokens b \<le> burst + x * total_seconds (last_refill_at b - t0)" "last_refill_at b \<le> now"
    using acc Some by (auto simp: account_def)
  have "0 \<le> total_seconds (now' - last_refill_at b)" using a(2) assms(2) by (simp add: total_seconds_def)
  moreover have "x * total_seconds (last_refill_at b - t0) + total_seconds (now' - last_refill_at b) * x
      = x * total_seconds (now' - t0)"
    by (simp add: total_seconds_def field_simps)
  ultimately show ?thesis using Some c a by (auto simp: current_bucket_def min_le_iff_disj)
qed

lemma charged_refill: "last_refill_at (charged c now s) = last_refill_at (current_bucket c now s)"
  by (simp add: charged_def consume_def Let_def)

lemma rate_run_account:
  assumes "rate_run p k t0 s now n" and p: "rates_ok p"
    and rule: "rule \<in> set (rp_rules p)" "rr_id rule = fst k" "rr_rps rule = Some x" "rr_burst rule = Some burst"
  shows "account x burst k t0 s now n"
  using assms(1)
proof (induction rule: rate_run.induct)
  case start
  show ?case by (simp add: account_def empty_rate_store_def)
next
  case (acquire s now n now' d uuid t keys l r s')
  then have acc: "account x burst k t0 s now n" by simp
  have inv: "lease_inv s" using rate_run_safe[OF acquire(1) p] by simp
  have x: "0 \<le> x" using p rule by (force simp: rates_ok_def rule_ok_def)
  show ?case
  proof (rule rate_acquire_cases[OF inv acquire(4,5)])
    assume "s' = s" and "\<And>k. acquired_on k r = 0"
    with acc acquire(2) show ?thesis by (auto simp: account_def split: option.splits)
  next
    fix dec cs
    assume dec: "r = Inr dec" "rdec_outcome dec = RL_ALLOW" "rdec_checked_buckets dec = cs"
      and cs: "cs = rate_compile_checks (matching_rule_resources p t keys) d"
      and get: "\<forall>c \<in> set cs. dict_get (rs_buckets s') (rc_key c) = Some (charged c now' s)"
        "\<forall>k. k \<notin> rc_key ` set cs \<longrightarrow> dict_get (rs_buckets s') k = dict_get (rs_buckets s) k"
    note dist = rate_compile_checks_spec(1)[of "matching_rule_resources p t keys" d, folded cs]
    show ?thesis
    proof (cases "k \<in> rc_key ` set cs")
      case False
      then have "filter (\<lambda>c. rc_key c = k) cs = []" by (auto simp: filter_empty_conv)
      then have "acquired_on k r = 0" by (simp add: dec acquired_on_def granted_on_def)
      with acc acquire(2) get(2) False show ?thesis by (auto simp: account_def split: option.splits)
    next
      case True
      then obtain c where c: "c \<in> set cs" "rc_key c = k" by blast
      have "rc_rule_id c = fst k" using c(2) by (auto simp: rc_key_def)
      then have cr: "rc_rps c = Some x" "rc_burst c = Some burst" "rc_requests c = rd_requests d"
        using compiled_check_rule[OF p c(1)[unfolded cs] rule(1)] rule by auto
      have "filter (\<lambda>y. rc_key y = k) cs = [c]" using filter_key[OF dist c(1)] c(2) by simp
      then have n: "acquired_on k r = rd_requests d" using cr by (simp add: dec acquired_on_def granted_on_def)
      have "tokens (charged c now' s) = tokens (current_bucket c now' s) - rd_requests d"
        using acquire(3) cr by (auto simp: charged_tokens rate_demand_ok_def)
      then show ?thesis
        using refill_account[OF acc acquire(2) x c(2) cr(1,2)] get(1) c n acquire(2) acc
        by (auto simp: account_def charged_refill split: option.splits)
    qed
  qed
next
  case (release s now n lid)
  then show ?case using lease_ops_calm(1)[of s lid] rate_run_safe[OF release(1) p] calmer_account by blast
next
  case (renew s now n lid l now1 now2)
  then show ?case using lease_ops_calm(2)[of s lid l now1 now2] rate_run_safe[OF renew(1) p] calmer_account by blast
next
  case (reap s now n now1)
  then show ?case using lease_ops_calm(3)[of s now1] rate_run_safe[OF reap(1) p] calmer_account by blast
qed

subsection \<open>A sample profile\<close>

text \<open>Two requests a second, at most one worker per host.\<close>

definition sample_rule :: rate_rule where
  "sample_rule = \<lparr>rr_id = ''r1'', rr_scope = RS_PER_RESOURCE, rr_pattern = ''*'', rr_rps = Some 2,
     rr_burst = Some 2, rr_max_concurrency = Some 1, rr_workers = {}, rr_reason = None\<rparr>"

definition sample_rates :: rate_profile where
  "sample_rates = \<lparr>rp_rules = [sample_rule], rp_require_matching_rule = True,
     rp_default_retry_after_seconds = 1\<rparr>"

definition rate_task :: task where
  "rate_task = default_task 1 0 ''dns'' ''resolve'' ''evt_1''"

definition sample_bucket :: bucket_id where
  "sample_bucket = (''r1'', ''resource:host:a'')"

abbreviation sample_acquire :: "nat \<Rightarrow> time \<Rightarrow> (rate_store, rate_decision) op" where
  "sample_acquire uuid now \<equiv> rate_acquire sample_rates uuid now rate_task {''host:a''} default_rate_demand 1000"

definition rate_sample :: rate_store where
  "rate_sample = snd (sample_acquire 7 0 empty_rate_store)"

lemma sample_rates_ok: "rates_ok sample_rates"
  by (simp add: rates_ok_def sample_rates_def sample_rule_def rule_ok_def)

lemma default_rate_demand_ok: "rate_demand_ok default_rate_demand"
  by (simp add: rate_demand_ok_def default_rate_demand_def)

lemma sample_matching: "matching_rule_resources sample_rates rate_task {''host:a''} = [(sample_rule, Some ''host:a'')]"
  by (simp add: matching_rule_resources_def sample_rates_def sample_rule_def matches_worker_def
      matches_resource_def lower_def lower_char_def)

definition sample_check :: rate_check where
  "sample_check = check_of default_rate_demand (sample_rule, Some ''host:a'')"

lemma sample_checks_compiled:
  "rate_compile_checks (matching_rule_resources sample_rates rate_task {''host:a''}) default_rate_demand = [sample_check]"
  by (simp add: sample_matching rate_compile_checks_def add_check_def sample_check_def Let_def)

lemma sample_acquired:
  "\<exists>dec. sample_acquire 7 0 empty_rate_store = (Inr dec, rate_sample) \<and> rdec_outcome dec = RL_ALLOW
     \<and> rdec_checked_buckets dec = [sample_check]"
proof -
  have e: "sample_acquire 7 0 empty_rate_store =
      try_acquire 7 (t_task_id rate_task) [sample_check] 1000 0 empty_rate_store"
    using sample_checks_compiled sample_matching by (simp add: rate_acquire_def Let_def)
  have f: "sample_check = \<lparr>rc_rule_id = ''r1'', rc_bucket_key = ''resource:host:a'', rc_requests = 1,
      rc_concurrency = 1, rc_rps = Some 2, rc_burst = Some 2, rc_max_concurrency = Some 1\<rparr>"
    by (simp add: sample_check_def check_of_def sample_rule_def default_rate_demand_def)
  show ?thesis
    unfolding rate_sample_def e f
    by (simp add: try_acquire_def over_burst_def paced_def token_retry_def concurrency_retry_def counted_def
        current_bucket_def empty_rate_store_def rate_tolerance_def lease_items_def Let_def)
qed

lemma sample_run: "rate_run sample_rates sample_bucket 0 rate_sample 0 1"
proof -
  obtain dec where dec: "sample_acquire 7 0 empty_rate_store = (Inr dec, rate_sample)"
    "rdec_outcome dec = RL_ALLOW" "rdec_checked_buckets dec = [sample_check]" using sample_acquired by blast
  have "rc_key sample_check = sample_bucket" and "rc_requests sample_check = 1"
    by (simp_all add: sample_check_def check_of_def sample_rule_def sample_bucket_def rc_key_def default_rate_demand_def)
  then have "acquired_on sample_bucket (Inr dec) = 1" using dec by (simp add: acquired_on_def granted_on_def)
  then show ?thesis
    using rate_run.acquire[OF rate_run.start _ default_rate_demand_ok _ dec(1), of 0 sample_bucket]
    by (simp add: get_lease_def empty_rate_store_def)
qed

subsection \<open>The properties\<close>

text \<open>C4: the token-bucket law. In every run whose clock does not go back, whatever workers acquire,
  release, renew and reap in whatever order, the requests granted on a bucket since \<open>t0\<close> are at most
  the burst of its rule plus its rate times the elapsed seconds.\<close>

theorem token_bucket_law:
  assumes "rate_run p k t0 s now granted" and "rates_ok p"
    and "rule \<in> set (rp_rules p)" and "rr_id rule = fst k"
    and "rr_rps rule = Some rps" and "rr_burst rule = Some burst"
  shows "granted \<le> burst + rps * total_seconds (now - t0) + rate_tolerance"
proof -
  have acc: "account rps burst k t0 s now granted" by (rule rate_run_account[OF assms])
  have pos: "0 < rps" "0 < burst" using assms(2,3,5,6) by (auto simp: rates_ok_def rule_ok_def)
  have "0 \<le> rps * total_seconds (now - t0)"
    using acc pos by (intro mult_nonneg_nonneg) (auto simp: account_def total_seconds_def)
  show ?thesis
  proof (cases "dict_get (rs_buckets s) k")
    case None
    with acc \<open>0 \<le> rps * total_seconds (now - t0)\<close> pos rate_tolerance_pos show ?thesis by (simp add: account_def)
  next
    case (Some b)
    have "- rate_tolerance \<le> tokens b"
      using rate_run_safe[OF assms(1,2)] Some unfolding within_rates_def by blast
    moreover have "granted + tokens b \<le> burst + rps * total_seconds (last_refill_at b - t0)"
      and "last_refill_at b \<le> now" using acc Some by (auto simp: account_def)
    moreover have "rps * total_seconds (last_refill_at b - t0) \<le> rps * total_seconds (now - t0)"
      using \<open>last_refill_at b \<le> now\<close> pos by (intro mult_left_mono total_seconds_mono) auto
    ultimately show ?thesis by linarith
  qed
qed

theorem token_bucket_law_witness:
  "rate_run sample_rates sample_bucket 0 rate_sample 0 1
   \<and> (1::rat) \<le> 2 + 2 * total_seconds (0 - 0) + rate_tolerance"
  using token_bucket_law[OF sample_run sample_rates_ok, of sample_rule 2 2] sample_run
  by (simp add: sample_rates_def sample_rule_def sample_bucket_def)

text \<open>In every run no bucket has more active concurrency than the maximum of its rule, the count
  is exactly what the ACTIVE leases hold on the bucket, and its tokens stay between zero (up to the
  rounding tolerance) and the burst.\<close>

theorem rate_capacity_holds:
  assumes "rate_run p k t0 s now granted" and "rates_ok p"
    and "dict_get (rs_buckets s) key = Some b"
    and "rule \<in> set (rp_rules p)" and "rr_id rule = fst key"
  shows "active_concurrency b = total_conc s key
    \<and> (case rr_max_concurrency rule of None \<Rightarrow> True | Some n \<Rightarrow> active_concurrency b \<le> n)
    \<and> - rate_tolerance \<le> tokens b
    \<and> (case rr_burst rule of None \<Rightarrow> True | Some burst \<Rightarrow> tokens b \<le> burst)"
proof -
  have "lease_inv s" and w: "within_rates p s" using rate_run_safe[OF assms(1,2)] by auto
  then have "active_at s key = total_conc s key" using lease_invD(3) by blast
  then have "active_concurrency b = total_conc s key" using assms(3) by (simp add: active_at_def)
  moreover have "- rate_tolerance \<le> tokens b
     \<and> (\<forall>burst. rr_burst rule = Some burst \<longrightarrow> tokens b \<le> burst)
     \<and> (\<forall>n. rr_max_concurrency rule = Some n \<longrightarrow> active_concurrency b \<le> n)"
    using w assms(3-5) unfolding within_rates_def by blast
  ultimately show ?thesis by (auto split: option.splits)
qed

theorem rate_capacity_holds_witness:
  "\<exists>b. dict_get (rs_buckets rate_sample) sample_bucket = Some b
     \<and> active_concurrency b \<le> 1 \<and> tokens b \<le> 2"
proof -
  obtain dec where "sample_acquire 7 0 empty_rate_store = (Inr dec, rate_sample)"
    "rdec_outcome dec = RL_ALLOW" "rdec_checked_buckets dec = [sample_check]" using sample_acquired by blast
  note acq = this
  have inv: "lease_inv empty_rate_store" and new: "get_lease (new_rate_lease_id 7) empty_rate_store = None"
    by (simp_all add: lease_inv_def empty_rate_store_def active_at_def total_conc_def get_lease_def)
  have key: "rc_key sample_check = sample_bucket"
    by (simp add: sample_check_def check_of_def sample_rule_def sample_bucket_def rc_key_def)
  have "acquired_on sample_bucket (Inr dec) \<noteq> 0"
    using acq key by (simp add: acquired_on_def granted_on_def sample_check_def default_rate_demand_def)
  then obtain b where b: "dict_get (rs_buckets rate_sample) sample_bucket = Some b"
    by (rule_tac rate_acquire_cases[OF inv new acq(1)]) (use key sample_checks_compiled acq in auto)
  with rate_capacity_holds[OF sample_run sample_rates_ok b, of sample_rule] show ?thesis
    by (simp add: sample_rates_def sample_rule_def sample_bucket_def)
qed

text \<open>What a granted acquisition does to the bucket of a rule, written out from the rule and the demand:
  the bucket has the demanded concurrency more, within the maximum of the rule, and a rule with a rate
  had the demanded tokens (up to the rounding tolerance) after the refill and has lost exactly those.\<close>

definition rule_charged :: "rate_rule \<Rightarrow> rate_demand \<Rightarrow> time \<Rightarrow> rate_bucket option \<Rightarrow> rate_bucket \<Rightarrow> bool" where
  "rule_charged rule d now old new \<longleftrightarrow>
     active_concurrency new = (case old of None \<Rightarrow> 0 | Some b \<Rightarrow> active_concurrency b)
        + (if rr_max_concurrency rule = None then 0 else max 0 (rd_concurrency d))
   \<and> (\<forall>n. rr_max_concurrency rule = Some n \<and> 0 < rd_concurrency d \<longrightarrow> active_concurrency new \<le> n)
   \<and> (\<forall>rps burst. rr_rps rule = Some rps \<and> rr_burst rule = Some burst \<longrightarrow>
        (let available = (case old of None \<Rightarrow> burst
           | Some b \<Rightarrow> min burst (tokens b + max (total_seconds (now - last_refill_at b)) 0 * rps))
         in tokens new = available - max 0 (rd_requests d) \<and> last_refill_at new = now
           \<and> (0 < rd_requests d \<longrightarrow> rd_requests d \<le> available + rate_tolerance)))"

lemma charged_active:
  "active_concurrency (charged c now s) = active_at s (rc_key c) + (if counted c then rc_concurrency c else 0)"
  using active_current[of c now s] by (simp add: charged_def consume_def Let_def)

lemma charged_bucket_tokens:
  assumes "rc_rps c = Some rps" and "rc_burst c = Some burst"
  shows "tokens (charged c now s) = tokens (current_bucket c now s) - max 0 (rc_requests c)"
    and "last_refill_at (charged c now s) = now"
    and "tokens (current_bucket c now s) = (case dict_get (rs_buckets s) (rc_key c) of None \<Rightarrow> burst
           | Some b \<Rightarrow> min burst (tokens b + max (total_seconds (now - last_refill_at b)) 0 * rps))"
  using assms by (simp_all add: charged_def consume_def current_bucket_def Let_def split: option.splits)

lemma charged_rule:
  assumes "\<not> blocked (check_of d m) now s" and "rule_ok (fst m)"
  shows "rule_charged (fst m) d now (dict_get (rs_buckets s) (rc_key (check_of d m))) (charged (check_of d m) now s)"
proof -
  let ?c = "check_of d m"
  have act: "(case dict_get (rs_buckets s) (rc_key ?c) of None \<Rightarrow> 0 | Some b \<Rightarrow> active_concurrency b) = active_at s (rc_key ?c)"
    by (simp add: active_at_def)
  have cnt: "counted ?c \<longleftrightarrow> 0 < rd_concurrency d \<and> rr_max_concurrency (fst m) \<noteq> None" by (auto simp: counted_def)
  have "active_concurrency (charged ?c now s) \<le> n" if "rr_max_concurrency (fst m) = Some n" "0 < rd_concurrency d" for n
    using not_blocked(1)[OF assms(1)] that cnt by (simp add: charged_active)
  moreover have "rd_requests d \<le> tokens (current_bucket ?c now s) + rate_tolerance"
    if "rr_rps (fst m) = Some rps" "rr_burst (fst m) = Some burst" "0 < rd_requests d" for rps burst
    using not_blocked(2)[OF assms(1)] that assms(2) by (simp add: paced_def rule_ok_def)
  ultimately show ?thesis
    using charged_bucket_tokens[of ?c _ _ now s] cnt unfolding rule_charged_def act
    by (auto simp: charged_active Let_def)
qed

lemma matching_check_unique:
  assumes "rates_ok p" and "m \<in> set (matching_rule_resources p t keys)" and "m' \<in> set (matching_rule_resources p t keys)"
    and "rc_key (check_of d m') = rc_key (check_of d m)"
  shows "check_of d m' = check_of d m"
proof -
  have "rr_id (fst m') = rr_id (fst m)" using assms(4) check_of_simps(7) by metis
  then have "fst m' = fst m"
    using assms(1) matching_rules[OF assms(2)] matching_rules[OF assms(3)]
    by (auto simp: rates_ok_def distinct_map inj_on_def)
  moreover have "rc_bucket_key (check_of d m') = rc_bucket_key (check_of d m)" using assms(4) by (simp add: rc_key_def)
  ultimately show ?thesis by (cases m; cases m') (simp add: check_of_def)
qed

lemma matching_bucket:
  "m \<in> set (matching_rule_resources p t keys) \<Longrightarrow>
     rc_key (check_of d m)
       = (rr_id (fst m), if rr_scope (fst m) = RS_GLOBAL then ''global'' else ''resource:'' @ the (snd m))"
  by (auto simp: matching_rule_resources_def check_of_def rc_key_def split: if_splits)

text \<open>C6: an acquisition is all or nothing over every bucket of every rule that matches the task: it is
  granted and every such bucket (the global one of the rule, or the one of the resource) is charged with
  the demand under the limits of that very rule, and no other bucket changes, or the store is exactly as
  before. Work with a demand that no rule matches is refused when the profile requires a rule, and when
  one does match, it is granted only if no matching bucket is short: each held the demanded tokens after
  its refill at the rate of its rule up to the burst, and its concurrency stays within the maximum.\<close>

theorem acquire_all_or_nothing:
  assumes "rate_run p k t0 s now0 granted" and "rates_ok p"
    and "get_lease (new_rate_lease_id uuid) s = None" and "0 < l"
    and "rate_acquire p uuid now t keys d l s = (Inr dec, s')"
  shows "(matching_rule_resources p t keys = [] \<longrightarrow> s' = s \<and>
            (rp_require_matching_rule p \<and> (rd_requests d > 0 \<or> rd_concurrency d > 0) \<longleftrightarrow> rdec_outcome dec = RL_DENY))
    \<and> (matching_rule_resources p t keys \<noteq> [] \<longrightarrow>
         (rdec_outcome dec = RL_DEFER \<and> s' = s)
       \<or> (rdec_outcome dec = RL_ALLOW
          \<and> (\<forall>m \<in> set (matching_rule_resources p t keys).
               rc_key (check_of d m) = (rr_id (fst m),
                 if rr_scope (fst m) = RS_GLOBAL then ''global'' else ''resource:'' @ the (snd m))
             \<and> \<not> blocked (check_of d m) now s
             \<and> dict_get (rs_buckets s') (rc_key (check_of d m)) = Some (charged (check_of d m) now s)
             \<and> rule_charged (fst m) d now (dict_get (rs_buckets s) (rc_key (check_of d m)))
                 (charged (check_of d m) now s))
          \<and> (\<forall>key. key \<notin> (\<lambda>m. rc_key (check_of d m)) ` set (matching_rule_resources p t keys) \<longrightarrow>
               dict_get (rs_buckets s') key = dict_get (rs_buckets s) key)))"
proof (cases "matching_rule_resources p t keys = []")
  case True
  with assms(4,5) show ?thesis by (auto simp: rate_acquire_def plain_rate_decision_def Let_def split: if_splits)
next
  case False
  let ?ms = "matching_rule_resources p t keys"
  let ?cs = "rate_compile_checks ?ms d"
  have inv: "lease_inv s" using rate_run_safe[OF assms(1,2)] by simp
  have acq: "try_acquire uuid (t_task_id t) ?cs l now s = (Inr dec, s')"
    using assms(4,5) False by (simp add: rate_acquire_def Let_def)
  note spec = rate_compile_checks_spec[where ms = ?ms and d = d]
  show ?thesis
  proof (rule try_acquire_cases[OF inv spec(1) assms(3), of "t_task_id t" l now])
    assume "snd (try_acquire uuid (t_task_id t) ?cs l now s) = s"
      and "\<And>dec. fst (try_acquire uuid (t_task_id t) ?cs l now s) = Inr dec \<Longrightarrow> rdec_outcome dec = RL_DEFER"
    with acq False show ?thesis by simp
  next
    fix dec' s''
    assume "try_acquire uuid (t_task_id t) ?cs l now s = (Inr dec', s'')"
    then have eq: "dec' = dec" "s'' = s'" using acq by auto
    assume g: "rdec_outcome dec' = RL_ALLOW" "\<forall>c \<in> set ?cs. \<not> over_burst c \<and> \<not> blocked c now s"
      "\<forall>c \<in> set ?cs. dict_get (rs_buckets s'') (rc_key c) = Some (charged c now s)"
      "\<forall>k. k \<notin> rc_key ` set ?cs \<longrightarrow> dict_get (rs_buckets s'') k = dict_get (rs_buckets s) k"
    have "check_of d m \<in> set ?cs" if "m \<in> set ?ms" for m
    proof -
      have "rc_key (check_of d m) \<in> rc_key ` set ?cs" unfolding spec(3) using that by simp
      then obtain c where c: "c \<in> set ?cs" "rc_key c = rc_key (check_of d m)" by auto
      moreover obtain m' where "m' \<in> set ?ms" "c = check_of d m'" using spec(2) c(1) by blast
      ultimately show ?thesis using matching_check_unique[OF assms(2) that] by metis
    qed
    then have "\<not> blocked (check_of d m) now s
        \<and> dict_get (rs_buckets s') (rc_key (check_of d m)) = Some (charged (check_of d m) now s)" if "m \<in> set ?ms" for m
      using g(2,3) eq that by blast
    moreover have "rule_ok (fst m)" if "m \<in> set ?ms" for m
      using assms(2) matching_rules[OF that] by (simp add: rates_ok_def)
    moreover have "dict_get (rs_buckets s') key = dict_get (rs_buckets s) key"
      if "key \<notin> (\<lambda>m. rc_key (check_of d m)) ` set ?ms" for key
      using g(4) that eq unfolding spec(3) by simp
    ultimately show ?thesis using g(1) eq False matching_bucket charged_rule by blast
  qed
qed

theorem acquire_all_or_nothing_witness:
  "\<exists>dec b. sample_acquire 7 0 empty_rate_store = (Inr dec, rate_sample) \<and> rdec_outcome dec = RL_ALLOW
     \<and> dict_get (rs_buckets rate_sample) sample_bucket = Some b \<and> tokens b = 1 \<and> active_concurrency b = 1"
proof -
  obtain dec where dec: "sample_acquire 7 0 empty_rate_store = (Inr dec, rate_sample)"
    "rdec_outcome dec = RL_ALLOW" using sample_acquired by blast
  have key: "rc_key sample_check = sample_bucket"
    by (simp add: sample_check_def check_of_def sample_rule_def sample_bucket_def rc_key_def)
  have "get_lease (new_rate_lease_id 7) empty_rate_store = None" and "(0::int) < 1000"
    by (simp_all add: empty_rate_store_def get_lease_def)
  from acquire_all_or_nothing[OF rate_run.start[of sample_rates sample_bucket 0] sample_rates_ok this dec(1)]
  have "\<exists>b. dict_get (rs_buckets rate_sample) (rc_key sample_check) = Some b
      \<and> rule_charged sample_rule default_rate_demand 0 (dict_get (rs_buckets empty_rate_store) (rc_key sample_check)) b"
    using dec(2) by (auto simp: sample_matching sample_check_def)
  then obtain b where b: "dict_get (rs_buckets rate_sample) sample_bucket = Some b"
    and ch: "rule_charged sample_rule default_rate_demand 0 None b"
    by (auto simp: key empty_rate_store_def)
  then have "tokens b = 1 \<and> active_concurrency b = 1"
    by (simp add: rule_charged_def sample_rule_def default_rate_demand_def)
  with dec b show ?thesis by blast
qed

text \<open>In every run, whatever releases and reaps are interleaved, a rate lease gives its concurrency
  back with success at most once, and exactly once when its holder releases it before it is reaped.\<close>

theorem lease_released_once:
  assumes "rate_run p k t0 s now granted" and "rates_ok p"
  shows "rates.closings lid acts s \<le> 1
    \<and> (lease_holds s lid \<and> (\<forall>a \<in> set acts. \<exists>c j. a = Close c j) \<and> (\<exists>c. Close c lid \<in> set acts)
        \<longrightarrow> rates.closings lid acts s = 1)"
  using rates.closed_at_most_once rates.closed_exactly_once rate_run_safe[OF assms] by blast

theorem lease_released_once_witness:
  "rates.closings (new_rate_lease_id 7) [Close () (new_rate_lease_id 7), Reap 5] rate_sample \<le> 1"
  using lease_released_once[OF sample_run sample_rates_ok] by blast

subsection \<open>The plan for tools that pace themselves\<close>

lemma min_of_le: "x \<in> set xs \<Longrightarrow> \<exists>y. min_of xs = Some y \<and> y \<le> x"
proof -
  assume x: "x \<in> set xs"
  then obtain z zs where xs: "xs = z # zs" by (cases xs) auto
  have "fold min zs z = Min (set xs)" by (simp add: xs Min.set_eq_fold[symmetric])
  then show ?thesis using x xs by (auto simp: min_of_def)
qed

lemma in_some_values: "Some x \<in> set xs \<Longrightarrow> x \<in> set (some_values xs)"
  by (force simp: some_values_def)

lemma matched_rules_get:
  assumes p: "distinct (map rr_id (rp_rules p))" and ms: "\<forall>m \<in> set ms. fst m \<in> set (rp_rules p)"
    and m: "m \<in> set ms"
  shows "dict_get (matched_rules ms) (rr_id (fst m)) = Some (fst m)"
  using ms m
proof (induction ms rule: rev_induct)
  case (snoc x ms)
  have r: "matched_rules (ms @ [x]) = dict_set (rr_id (fst x)) (fst x) (matched_rules ms)"
    by (simp add: matched_rules_def split: prod.splits)
  show ?case
  proof (cases "rr_id (fst m) = rr_id (fst x)")
    case True
    have "fst m = fst x"
      using p snoc.prems True by (auto simp: distinct_map inj_on_def)
    then show ?thesis by (simp add: r)
  next
    case False
    then have "m \<in> set ms" using snoc.prems(2) by auto
    with snoc False show ?thesis by (simp add: r)
  qed
qed simp

text \<open>The plan is safe for tools that only know their own process: the hinted rate is at most the
  rate of every matching rule, and a rule's maximum number of processes, each running at the hint,
  stay together within the rule; the integer hint never rounds up. A matching rule with a rate always
  yields a hint.\<close>

theorem plan_within_rules:
  assumes "rates_ok p" and "(rule, rk) \<in> set (matching_rule_resources p t keys)" and "rr_rps rule = Some rps"
  shows "\<exists>h. pl_safe_rps_hint (rate_plan_for p t keys) = Some h \<and> h \<le> rps
    \<and> (case rr_max_concurrency rule of None \<Rightarrow> True | Some n \<Rightarrow> of_int n * h \<le> rps)
    \<and> (\<forall>i. tool_integer_rps_hint (rate_plan_for p t keys) = Some i \<longrightarrow> 1 \<le> i \<and> of_int i \<le> h)"
proof -
  let ?ms = "matching_rule_resources p t keys"
  let ?rules = "dict_values (matched_rules ?ms)"
  have "dict_get (matched_rules ?ms) (rr_id rule) = Some rule"
    using matched_rules_get[of p ?ms "(rule, rk)"] assms(1,2) matching_rules by (auto simp: rates_ok_def)
  then have "rule \<in> set ?rules" by (force dest: map_of_SomeD)
  then have "safe_rps rule \<in> set (map safe_rps ?rules)" unfolding set_map by (rule imageI)
  moreover have "safe_rps rule = Some (the (safe_rps rule))" using assms(3) by (simp add: safe_rps_def)
  ultimately have "the (safe_rps rule) \<in> set (some_values (map safe_rps ?rules))"
    by (metis in_some_values)
  then obtain h where h: "min_of (some_values (map safe_rps ?rules)) = Some h" "h \<le> the (safe_rps rule)"
    using min_of_le by blast
  have hint: "pl_safe_rps_hint (rate_plan_for p t keys) = Some h"
    using h(1) assms(2) by (auto simp: rate_plan_for_def Let_def)
  have "rule_ok rule" using assms(1,2) matching_rules by (force simp: rates_ok_def)
  then have "0 < rps" and n: "rr_max_concurrency rule = Some n \<Longrightarrow> 1 \<le> n" for n
    using assms(3) by (auto simp: rule_ok_def)
  have "h \<le> rps \<and> (case rr_max_concurrency rule of None \<Rightarrow> True | Some n \<Rightarrow> of_int n * h \<le> rps)"
  proof (cases "rr_max_concurrency rule")
    case None
    with h(2) assms(3) show ?thesis by (simp add: safe_rps_def)
  next
    case (Some k)
    have k: "1 \<le> (of_int k :: rat)" using n[OF Some] by simp
    have "h \<le> rps / of_int k" using h(2) assms(3) Some by (simp add: safe_rps_def)
    then have "of_int k * h \<le> rps" using k by (simp add: field_simps)
    moreover have "rps / of_int k \<le> rps" using k \<open>0 < rps\<close> by (simp add: field_simps)
    ultimately show ?thesis using Some \<open>h \<le> rps / of_int k\<close> by simp
  qed
  moreover have "1 \<le> i \<and> of_int i \<le> h" if "tool_integer_rps_hint (rate_plan_for p t keys) = Some i" for i
    using that hint by (auto simp: tool_integer_rps_hint_def split: if_splits)
  ultimately show ?thesis using hint by blast
qed

theorem plan_within_rules_witness:
  "\<exists>h. pl_safe_rps_hint (rate_plan_for sample_rates rate_task {''host:a''}) = Some h \<and> of_int 1 * h \<le> 2"
  using plan_within_rules[OF sample_rates_ok, of sample_rule "Some ''host:a''" rate_task "{''host:a''}" 2]
  by (auto simp: sample_matching sample_rule_def)

subsection \<open>A clock that goes back\<close>

text \<open>
  The token-bucket law needs a clock that does not go back. \<open>_current_bucket\<close> sets \<open>last_refill_at\<close> to
  the reading it is given even when that lies before the last refill, so the interval that the wall
  clock repeats is credited again.
\<close>

theorem clock_step_back_refills_again:
  assumes "dict_get (rs_buckets s) (rc_key c) = Some b" and "rc_rps c = Some rps" and "rc_burst c = Some burst"
    and "tokens b \<le> burst" and "now' \<le> last_refill_at b"
    and "dict_get (rs_buckets s') (rc_key c) = Some (current_bucket c now' s)"
  shows "tokens (current_bucket c (last_refill_at b) s')
    = min burst (tokens b + total_seconds (last_refill_at b - now') * rps)"
  using assms by (simp add: current_bucket_def total_seconds_def)

end
