(* ===== verification/Events.thy ===== *)
theory Events
  imports Prelude
begin

section \<open>Events (recon/core/events.py)\<close>

text \<open>
  The normalised discovery every worker reports. \<open>metadata\<close> is a JSON object. The tags are a set of
  strings; \<open>touch\<close> and \<open>add_tag\<close> return the updated event. Assigning to a field runs its validators
  again, which the updates here pass.
\<close>

datatype json =
  J_null | J_bool bool | J_number rat | J_string string | J_list "json list" | J_object "(string \<times> json) list"

datatype event_type =
  EV_ROOT_DOMAIN | EV_DNS_NAME | EV_DNS_RECORD | EV_IP_ADDRESS | EV_ASN | EV_CIDR | EV_URL
  | EV_URL_PATH | EV_HTTP_SERVICE | EV_HTTP_RESPONSE | EV_CERTIFICATE | EV_CERT_SAN | EV_FAVICON
  | EV_TECHNOLOGY | EV_FINGERPRINT | EV_JAVASCRIPT | EV_API_ENDPOINT | EV_PARAMETER_NAME
  | EV_ARTIFACT | EV_MOBILE_ARTIFACT | EV_PROJECT_NAME | EV_VOCAB_TOKEN | EV_NAMING_PATTERN
  | EV_VULNERABILITY_CANDIDATE | EV_VULNERABILITY_FINDING | EV_RELATIONSHIP | EV_POLICY_BLOCK
  | EV_HUMAN_REVIEW

fun event_type_value :: "event_type \<Rightarrow> string" where
  "event_type_value EV_ROOT_DOMAIN = ''ROOT_DOMAIN''"
| "event_type_value EV_DNS_NAME = ''DNS_NAME''"
| "event_type_value EV_DNS_RECORD = ''DNS_RECORD''"
| "event_type_value EV_IP_ADDRESS = ''IP_ADDRESS''"
| "event_type_value EV_ASN = ''ASN''"
| "event_type_value EV_CIDR = ''CIDR''"
| "event_type_value EV_URL = ''URL''"
| "event_type_value EV_URL_PATH = ''URL_PATH''"
| "event_type_value EV_HTTP_SERVICE = ''HTTP_SERVICE''"
| "event_type_value EV_HTTP_RESPONSE = ''HTTP_RESPONSE''"
| "event_type_value EV_CERTIFICATE = ''CERTIFICATE''"
| "event_type_value EV_CERT_SAN = ''CERT_SAN''"
| "event_type_value EV_FAVICON = ''FAVICON''"
| "event_type_value EV_TECHNOLOGY = ''TECHNOLOGY''"
| "event_type_value EV_FINGERPRINT = ''FINGERPRINT''"
| "event_type_value EV_JAVASCRIPT = ''JAVASCRIPT''"
| "event_type_value EV_API_ENDPOINT = ''API_ENDPOINT''"
| "event_type_value EV_PARAMETER_NAME = ''PARAMETER_NAME''"
| "event_type_value EV_ARTIFACT = ''ARTIFACT''"
| "event_type_value EV_MOBILE_ARTIFACT = ''MOBILE_ARTIFACT''"
| "event_type_value EV_PROJECT_NAME = ''PROJECT_NAME''"
| "event_type_value EV_VOCAB_TOKEN = ''VOCAB_TOKEN''"
| "event_type_value EV_NAMING_PATTERN = ''NAMING_PATTERN''"
| "event_type_value EV_VULNERABILITY_CANDIDATE = ''VULNERABILITY_CANDIDATE''"
| "event_type_value EV_VULNERABILITY_FINDING = ''VULNERABILITY_FINDING''"
| "event_type_value EV_RELATIONSHIP = ''RELATIONSHIP''"
| "event_type_value EV_POLICY_BLOCK = ''POLICY_BLOCK''"
| "event_type_value EV_HUMAN_REVIEW = ''HUMAN_REVIEW''"

definition all_event_types :: "event_type list" where
  "all_event_types =
    [EV_ROOT_DOMAIN, EV_DNS_NAME, EV_DNS_RECORD, EV_IP_ADDRESS, EV_ASN, EV_CIDR, EV_URL
      , EV_URL_PATH, EV_HTTP_SERVICE, EV_HTTP_RESPONSE, EV_CERTIFICATE, EV_CERT_SAN, EV_FAVICON
      , EV_TECHNOLOGY, EV_FINGERPRINT, EV_JAVASCRIPT, EV_API_ENDPOINT, EV_PARAMETER_NAME
      , EV_ARTIFACT, EV_MOBILE_ARTIFACT, EV_PROJECT_NAME, EV_VOCAB_TOKEN, EV_NAMING_PATTERN
      , EV_VULNERABILITY_CANDIDATE, EV_VULNERABILITY_FINDING, EV_RELATIONSHIP, EV_POLICY_BLOCK
      , EV_HUMAN_REVIEW]"

datatype scope_state = SC_UNKNOWN | SC_IN_SCOPE | SC_OUT_OF_SCOPE | SC_PASSIVE_ONLY | SC_AMBIGUOUS

record event =
  event_id :: string
  ev_type :: event_type
  ev_value :: string
  ev_source :: string
  parent_event_id :: "string option"
  first_seen :: time
  last_seen :: time
  ev_scope_state :: scope_state
  ev_confidence :: rat
  ev_novelty :: rat
  ev_depth :: int
  ev_tags :: "string set"
  ev_metadata :: "(string, json) dict"

definition new_event_id :: "nat \<Rightarrow> string" where
  "new_event_id n = ''evt_'' @ uuid_hex n"

text \<open>\<open>Event(...)\<close> with the defaults the code leaves to pydantic.\<close>

definition default_event :: "nat \<Rightarrow> time \<Rightarrow> event_type \<Rightarrow> string \<Rightarrow> string \<Rightarrow> event" where
  "default_event uuid now ty v source =
     \<lparr>event_id = new_event_id uuid, ev_type = ty, ev_value = v, ev_source = source,
      parent_event_id = None, first_seen = now, last_seen = now, ev_scope_state = SC_UNKNOWN,
      ev_confidence = 0, ev_novelty = 0, ev_depth = 0, ev_tags = {}, ev_metadata = []\<rparr>"

definition unit_interval :: "string \<Rightarrow> rat \<Rightarrow> unit res" where
  "unit_interval field x = (if 0 \<le> x \<and> x \<le> 1 then Inr () else Inl (ValidationError field))"

definition validate_event :: "event \<Rightarrow> event res" where
  "validate_event e =
     bind_res (not_blank ''must not be blank'' (ev_value e)) (\<lambda>v.
     bind_res (not_blank ''must not be blank'' (ev_source e)) (\<lambda>source.
     bind_res (unit_interval ''confidence'' (ev_confidence e)) (\<lambda>_.
     bind_res (unit_interval ''novelty'' (ev_novelty e)) (\<lambda>_.
       if ev_depth e < 0 then Inl (ValidationError ''depth'')
       else Inr (e\<lparr>ev_value := v, ev_source := source\<rparr>)))))"

definition identity_key :: "event \<Rightarrow> string" where
  "identity_key e = event_type_value (ev_type e) @ '':'' @ ev_value e"

definition touch :: "time option \<Rightarrow> time \<Rightarrow> event \<Rightarrow> event" where
  "touch seen_at now e = e\<lparr>last_seen := (case seen_at of None \<Rightarrow> now | Some x \<Rightarrow> x)\<rparr>"

definition add_tag :: "string \<Rightarrow> event \<Rightarrow> event" where
  "add_tag tag e =
     (let n = lower (strip tag) in if n = [] then e else e\<lparr>ev_tags := insert n (ev_tags e)\<rparr>)"

text \<open>Two event types never share a value, and the value contains no colon, so the identity key
  determines the type and the value.\<close>

lemma event_type_value_inj: "event_type_value a = event_type_value b \<Longrightarrow> a = b"
  by (cases a; cases b; simp)

lemma event_type_no_colon: "CHR '':'' \<notin> set (event_type_value a)"
  by (cases a) simp_all

lemma colon_split:
  "CHR '':'' \<notin> set a \<Longrightarrow> CHR '':'' \<notin> set b \<Longrightarrow> a @ '':'' @ x = b @ '':'' @ y \<Longrightarrow> a = b \<and> x = y"
proof (induction a arbitrary: b)
  case Nil
  then show ?case by (cases b) auto
next
  case (Cons c a)
  then show ?case by (cases b) auto
qed

lemma identity_key_inj:
  "identity_key e = identity_key f \<longleftrightarrow> ev_type e = ev_type f \<and> ev_value e = ev_value f"
proof
  assume "identity_key e = identity_key f"
  then have "event_type_value (ev_type e) = event_type_value (ev_type f) \<and> ev_value e = ev_value f"
    unfolding identity_key_def by (intro colon_split event_type_no_colon)
  then show "ev_type e = ev_type f \<and> ev_value e = ev_value f" using event_type_value_inj by blast
qed (simp add: identity_key_def)

end
