(* ===== verification/Router.thy ===== *)
theory Router
  imports Events Tasks
begin

section \<open>Routing events to tasks (recon/core/router.py)\<close>

text \<open>
  Route rules, the registry with its index by event type, and the expansion of an event into candidate
  tasks. A rule's predicate is a function parameter of the rule (worker code, assumed total). The
  contract of the index is a scan of the registered rules in registration order; the invariant says
  that the index agrees with it after every registration and removal.
\<close>

record routing_context =
  rt_branch_id :: "string option"
  rt_priority_bias :: rat
  rt_disabled_workers :: "string set"
  rt_disabled_rules :: "string set"

definition default_routing_context :: routing_context where
  "default_routing_context = \<lparr>rt_branch_id = None, rt_priority_bias = 0, rt_disabled_workers = {},
     rt_disabled_rules = {}\<rparr>"

definition worker_enabled :: "routing_context \<Rightarrow> string \<Rightarrow> bool" where
  "worker_enabled ctx worker \<longleftrightarrow> worker \<notin> rt_disabled_workers ctx"

definition rule_enabled :: "routing_context \<Rightarrow> string \<Rightarrow> bool" where
  "rule_enabled ctx rule_id \<longleftrightarrow> rule_id \<notin> rt_disabled_rules ctx"

record route_rule =
  ru_id :: string
  ru_accepts :: "event_type set"
  ru_worker :: string
  ru_action :: string
  ru_reason :: "string option"
  ru_base_priority :: rat
  ru_required_tags :: "string set"
  ru_excluded_tags :: "string set"
  ru_predicate :: "(event \<Rightarrow> routing_context \<Rightarrow> bool) option"

definition normalize_tags :: "string set \<Rightarrow> string set" where
  "normalize_tags tags = {v \<in> (\<lambda>t. lower (strip t)) ` tags. v \<noteq> []}"

definition make_route_rule :: "route_rule \<Rightarrow> route_rule res" where
  "make_route_rule r =
     (let rule_id = strip (ru_id r); worker = strip (ru_worker r); action = strip (ru_action r);
          req = normalize_tags (ru_required_tags r); exc = normalize_tags (ru_excluded_tags r)
      in if rule_id = [] then Inl (ValueError ''rule_id must not be blank'')
         else if worker = [] then Inl (ValueError ''worker must not be blank'')
         else if action = [] then Inl (ValueError ''action must not be blank'')
         else if ru_accepts r = {} then Inl (ValueError ''accepts must contain at least one EventType'')
         else if req \<inter> exc \<noteq> {}
         then Inl (ValueError (''required_tags and excluded_tags overlap: ''
                @ join '', '' (sorted_list_of_set (req \<inter> exc))))
         else Inr (r\<lparr>ru_id := rule_id, ru_worker := worker, ru_action := action,
                ru_reason := opt_text (ru_reason r), ru_required_tags := req, ru_excluded_tags := exc\<rparr>))"

definition rule_matches :: "route_rule \<Rightarrow> event \<Rightarrow> routing_context \<Rightarrow> bool" where
  "rule_matches r e ctx \<longleftrightarrow>
     ev_type e \<in> ru_accepts r \<and> rule_enabled ctx (ru_id r) \<and> worker_enabled ctx (ru_worker r)
     \<and> ru_required_tags r \<subseteq> normalize_tags (ev_tags e)
     \<and> ru_excluded_tags r \<inter> normalize_tags (ev_tags e) = {}
     \<and> (case ru_predicate r of None \<Rightarrow> True | Some p \<Rightarrow> p e ctx)"

definition build_task :: "nat \<Rightarrow> time \<Rightarrow> route_rule \<Rightarrow> event \<Rightarrow> routing_context \<Rightarrow> task res" where
  "build_task uuid now r e ctx =
     (let auto = event_type_value (ev_type e) @ '' event matched route '' @ ru_worker r @ '':'' @ ru_action r;
          reason = (case ru_reason r of None \<Rightarrow> auto | Some x \<Rightarrow> if x = [] then auto else x)
      in validate_task ((default_task uuid now (ru_worker r) (ru_action r) (event_id e))
           \<lparr>t_input_identity_key := Some (identity_key e), t_branch_id := rt_branch_id ctx,
            t_route_rule_id := Some (ru_id r), t_routing_reason := Some reason,
            t_priority := ru_base_priority r + rt_priority_bias ctx\<rparr>))"

record router =
  rt_rules :: "(string, route_rule) dict"
  rt_by_event_type :: "event_type \<Rightarrow> string list"

definition empty_router :: router where
  "empty_router = \<lparr>rt_rules = [], rt_by_event_type = (\<lambda>_. [])\<rparr>"

definition register :: "route_rule \<Rightarrow> (router, unit) op" where
  "register rule rt =
     (if dict_get (rt_rules rt) (ru_id rule) \<noteq> None
      then (Inl (DuplicateRouteRuleError (''route rule already registered: '' @ ru_id rule)), rt)
      else (Inr (), rt\<lparr>rt_rules := dict_set (ru_id rule) rule (rt_rules rt),
        rt_by_event_type := (\<lambda>ty. if ty \<in> ru_accepts rule then rt_by_event_type rt ty @ [ru_id rule]
                                   else rt_by_event_type rt ty)\<rparr>))"

fun check_batch :: "string set \<Rightarrow> router \<Rightarrow> route_rule list \<Rightarrow> unit res" where
  "check_batch seen rt [] = Inr ()"
| "check_batch seen rt (rule # rules) =
     (if ru_id rule \<in> seen
      then Inl (DuplicateRouteRuleError (''duplicate route rule in batch: '' @ ru_id rule))
      else if dict_get (rt_rules rt) (ru_id rule) \<noteq> None
      then Inl (DuplicateRouteRuleError (''route rule already registered: '' @ ru_id rule))
      else check_batch (insert (ru_id rule) seen) rt rules)"

fun register_all :: "route_rule list \<Rightarrow> (router, unit) op" where
  "register_all [] rt = (Inr (), rt)"
| "register_all (rule # rules) rt = bind_op (register rule) (\<lambda>_. register_all rules) rt"

definition register_many :: "route_rule list \<Rightarrow> (router, unit) op" where
  "register_many rules rt =
     (case check_batch {} rt rules of Inl e \<Rightarrow> (Inl e, rt) | Inr _ \<Rightarrow> register_all rules rt)"

definition make_router :: "route_rule list \<Rightarrow> router res" where
  "make_router rules =
     (case register_many rules empty_router of (Inl e, _) \<Rightarrow> Inl e | (Inr _, rt) \<Rightarrow> Inr rt)"

definition unregister :: "string \<Rightarrow> (router, route_rule) op" where
  "unregister rule_id rt =
     (let n = strip rule_id
      in if n = [] then (Inl (ValueError ''rule_id must not be blank''), rt)
         else case dict_get (rt_rules rt) n of
           None \<Rightarrow> (Inl (KeyError (''unknown route rule: '' @ n)), rt)
         | Some rule \<Rightarrow> (Inr rule, rt\<lparr>rt_rules := dict_pop n (rt_rules rt),
             rt_by_event_type := (\<lambda>ty. if ty \<in> ru_accepts rule then remove1 (ru_id rule) (rt_by_event_type rt ty)
                                        else rt_by_event_type rt ty)\<rparr>))"

definition get_rule :: "string \<Rightarrow> router \<Rightarrow> route_rule option" where
  "get_rule rule_id rt = dict_get (rt_rules rt) rule_id"

text \<open>\<open>None\<close> is the \<open>KeyError\<close> of a dangling index entry.\<close>

definition rules_for :: "event_type \<Rightarrow> router \<Rightarrow> route_rule list option" where
  "rules_for ty rt = those (map (dict_get (rt_rules rt)) (rt_by_event_type rt ty))"

definition matching_rules :: "event \<Rightarrow> routing_context \<Rightarrow> router \<Rightarrow> route_rule list option" where
  "matching_rules e ctx rt = map_option (filter (\<lambda>r. rule_matches r e ctx)) (rules_for (ev_type e) rt)"

fun build_tasks ::
  "(nat \<Rightarrow> nat) \<Rightarrow> (nat \<Rightarrow> time) \<Rightarrow> nat \<Rightarrow> event \<Rightarrow> routing_context \<Rightarrow> route_rule list \<Rightarrow> task list res" where
  "build_tasks uuid clk k e ctx [] = Inr []"
| "build_tasks uuid clk k e ctx (r # rs) =
     bind_res (build_task (uuid k) (clk k) r e ctx)
       (\<lambda>t. bind_res (build_tasks uuid clk (Suc k) e ctx rs) (\<lambda>ts. Inr (t # ts)))"

definition expand ::
  "(nat \<Rightarrow> nat) \<Rightarrow> (nat \<Rightarrow> time) \<Rightarrow> event \<Rightarrow> routing_context \<Rightarrow> router \<Rightarrow> task list res" where
  "expand uuid clk e ctx rt =
     (case matching_rules e ctx rt of
        None \<Rightarrow> Inl (KeyError ''rule_id'')
      | Some rs \<Rightarrow> build_tasks uuid clk 0 e ctx rs)"

definition rule_count :: "router \<Rightarrow> nat" where
  "rule_count rt = length (rt_rules rt)"

subsection \<open>The index is a scan\<close>

definition scan :: "event_type \<Rightarrow> router \<Rightarrow> route_rule list" where
  "scan ty rt = filter (\<lambda>r. ty \<in> ru_accepts r) (dict_values (rt_rules rt))"

definition router_inv :: "router \<Rightarrow> bool" where
  "router_inv rt \<longleftrightarrow> dict_ok (rt_rules rt) \<and> (\<forall>(i, r) \<in> set (rt_rules rt). ru_id r = i)
     \<and> (\<forall>ty. rt_by_event_type rt ty = map ru_id (scan ty rt))"

lemma empty_router_inv: "router_inv empty_router"
  by (simp add: router_inv_def empty_router_def scan_def)

lemma register_inv:
  assumes "router_inv rt"
  shows "router_inv (snd (register rule rt))"
  using assms by (auto simp: router_inv_def register_def scan_def dict_set_fresh map_of_eq_None_iff)

lemma register_all_inv: "router_inv rt \<Longrightarrow> router_inv (snd (register_all rules rt))"
proof (induction rules arbitrary: rt)
  case (Cons r rules)
  then show ?case
    using register_inv[OF Cons.prems, of r] by (auto simp: bind_op_def split: prod.splits sum.splits)
qed simp

lemma register_many_inv: "router_inv rt \<Longrightarrow> router_inv (snd (register_many rules rt))"
  using register_all_inv by (auto simp: register_many_def split: sum.splits)

lemma remove1_map_filter:
  "distinct (map fst d) \<Longrightarrow> \<forall>(i, r) \<in> set d. f r = i \<Longrightarrow> P x \<Longrightarrow> dict_get d i = Some x \<Longrightarrow>
   remove1 i (map f (filter P (map snd d))) = map f (filter P (map snd (dict_pop i d)))"
proof (induction d)
  case (Cons e d)
  obtain a b where e: "e = (a, b)" by force
  show ?case
  proof (cases "a = i")
    case True
    have "i \<notin> fst ` set d" using Cons.prems e True by auto
    then have "dict_pop i d = d" by (induction d) auto
    then show ?thesis using Cons.prems e True by auto
  next
    case False
    then show ?thesis using Cons e by auto
  qed
qed simp

lemma filter_pop_other:
  "distinct (map fst d) \<Longrightarrow> dict_get d i = Some x \<Longrightarrow> \<not> P x \<Longrightarrow>
   filter P (map snd (dict_pop i d)) = filter P (map snd d)"
proof (induction d)
  case (Cons e d)
  obtain a b where e: "e = (a, b)" by force
  show ?case
  proof (cases "a = i")
    case True
    have "i \<notin> fst ` set d" using Cons.prems e True by auto
    then have "dict_pop i d = d" by (induction d) auto
    then show ?thesis using Cons.prems e True by auto
  next
    case False
    then show ?thesis using Cons e by auto
  qed
qed simp

lemma unregister_inv:
  assumes inv: "router_inv rt"
  shows "router_inv (snd (unregister i rt))"
proof (cases "dict_get (rt_rules rt) (strip i)")
  case None
  with inv show ?thesis by (simp add: unregister_def Let_def)
next
  case (Some rule)
  have ok: "dict_ok (rt_rules rt)" "\<forall>(i, r) \<in> set (rt_rules rt). ru_id r = i"
    and ix: "\<And>ty. rt_by_event_type rt ty = map ru_id (scan ty rt)" using inv by (auto simp: router_inv_def)
  have id: "ru_id rule = strip i" using ok(2) Some by (auto dest: map_of_SomeD)
  have pop: "\<forall>(i, r) \<in> set (dict_pop (strip i) (rt_rules rt)). ru_id r = i"
    using ok(2) by (auto simp: AList.delete_eq)
  show ?thesis
    using Some ok pop id ix remove1_map_filter[OF ok(1), of ru_id _ rule "strip i"]
      filter_pop_other[OF ok(1) Some]
    by (auto simp: router_inv_def unregister_def Let_def scan_def)
qed

lemma rules_for_scan:
  assumes "router_inv rt"
  shows "rules_for ty rt = Some (scan ty rt)"
proof -
  have "those (map (dict_get (rt_rules rt)) (map ru_id rs)) = Some rs"
    if "\<forall>r \<in> set rs. dict_get (rt_rules rt) (ru_id r) = Some r" for rs
    using that by (induction rs) auto
  moreover have "\<forall>r \<in> set (scan ty rt). dict_get (rt_rules rt) (ru_id r) = Some r"
    using assms by (auto simp: router_inv_def scan_def)
  moreover have "rt_by_event_type rt ty = map ru_id (scan ty rt)" using assms by (simp add: router_inv_def)
  ultimately show ?thesis by (simp add: rules_for_def)
qed

end
