(* ===== verification/Router_Properties.thy ===== *)
theory Router_Properties
  imports Router
begin

section \<open>The routing properties\<close>

text \<open>
  Routers as a transition system (registrations, batches and removals of validated rules), the
  equivalence of the indexed lookup with a scan of the rules, atomic batches, and what an event
  expands to.
\<close>

inductive router_reachable :: "router \<Rightarrow> bool" where
  start: "router_reachable empty_router"
| register: "router_reachable rt \<Longrightarrow> make_route_rule raw = Inr rule \<Longrightarrow> router_reachable (snd (register rule rt))"
| register_many: "router_reachable rt \<Longrightarrow> \<forall>rule \<in> set rules. \<exists>raw. make_route_rule raw = Inr rule \<Longrightarrow>
     router_reachable (snd (register_many rules rt))"
| unregister: "router_reachable rt \<Longrightarrow> router_reachable (snd (unregister i rt))"

lemma reachable_router_inv: "router_reachable rt \<Longrightarrow> router_inv rt"
  by (induction rule: router_reachable.induct)
    (auto intro: empty_router_inv register_inv register_many_inv unregister_inv)

definition rule_wf :: "route_rule \<Rightarrow> bool" where
  "rule_wf r \<longleftrightarrow> strip (ru_worker r) = ru_worker r \<and> ru_worker r \<noteq> [] \<and> strip (ru_action r) = ru_action r
     \<and> ru_action r \<noteq> [] \<and> strip (ru_id r) = ru_id r \<and> ru_id r \<noteq> [] \<and> ru_accepts r \<noteq> {}
     \<and> ru_required_tags r \<inter> ru_excluded_tags r = {}"

lemma made_rule_wf: "make_route_rule raw = Inr rule \<Longrightarrow> rule_wf rule"
  by (auto simp: make_route_rule_def Let_def rule_wf_def split: if_splits)

lemma register_values: "set (dict_values (rt_rules (snd (register r rt)))) \<subseteq> insert r (set (dict_values (rt_rules rt)))"
  using dict_values_set_subset[of "ru_id r" r "rt_rules rt"]
  by (cases "dict_get (rt_rules rt) (ru_id r)") (simp_all add: register_def subset_insertI)

lemma register_all_values:
  "set (dict_values (rt_rules (snd (register_all rules rt)))) \<subseteq> set rules \<union> set (dict_values (rt_rules rt))"
proof (induction rules arbitrary: rt)
  case (Cons r rules)
  obtain x rt1 where r: "register r rt = (x, rt1)" by force
  have one: "set (dict_values (rt_rules rt1)) \<subseteq> insert r (set (dict_values (rt_rules rt)))"
    using register_values[of r rt] r by simp
  show ?case
  proof (cases x)
    case (Inl e)
    with r one show ?thesis by (auto simp: bind_op_def)
  next
    case (Inr u)
    have "register_all (r # rules) rt = register_all rules rt1" using r Inr by (simp add: bind_op_def)
    then show ?thesis using Cons.IH[of rt1] one by auto
  qed
qed simp

lemma reachable_rules_wf: "router_reachable rt \<Longrightarrow> r \<in> set (dict_values (rt_rules rt)) \<Longrightarrow> rule_wf r"
proof (induction arbitrary: r rule: router_reachable.induct)
  case start
  then show ?case by (simp add: empty_router_def)
next
  case (register rt raw rule)
  then have "r = rule \<or> r \<in> set (dict_values (rt_rules rt))" using register_values[of rule rt] by blast
  with register made_rule_wf show ?case by blast
next
  case (register_many rt rules)
  then have "r \<in> set rules \<or> r \<in> set (dict_values (rt_rules rt))"
    using register_all_values[of rules rt] by (auto simp: register_many_def split: sum.splits)
  with register_many made_rule_wf show ?case by blast
next
  case (unregister rt i)
  then have "r \<in> set (dict_values (rt_rules rt))"
    by (auto simp: unregister_def Let_def AList.delete_eq split: option.splits if_splits)
  with unregister show ?case by blast
qed

text \<open>The registration of a batch.\<close>

lemma check_batch_iff:
  "check_batch seen rt rules = Inr () \<longleftrightarrow>
     distinct (map ru_id rules) \<and> set (map ru_id rules) \<inter> seen = {}
     \<and> (\<forall>r \<in> set rules. dict_get (rt_rules rt) (ru_id r) = None)"
  by (induction seen rt rules rule: check_batch.induct) auto

lemma register_all_ok:
  "distinct (map ru_id rules) \<Longrightarrow> \<forall>r \<in> set rules. dict_get (rt_rules rt) (ru_id r) = None \<Longrightarrow>
   fst (register_all rules rt) = Inr ()
   \<and> rt_rules (snd (register_all rules rt)) = rt_rules rt @ map (\<lambda>r. (ru_id r, r)) rules"
proof (induction rules arbitrary: rt)
  case (Cons r rules)
  let ?rt = "snd (register r rt)"
  have r: "register r rt = (Inr (), ?rt)" and rr: "rt_rules ?rt = rt_rules rt @ [(ru_id r, r)]"
    using Cons.prems(2) by (simp_all add: register_def dict_set_fresh)
  have "\<forall>q \<in> set rules. dict_get (rt_rules ?rt) (ru_id q) = None"
    using Cons.prems by (auto simp: rr) (metis image_eqI)
  with Cons.IH[of ?rt] Cons.prems(1) rr show ?case
    by (simp add: bind_op_def split: prod.splits sum.splits) (metis r fst_conv snd_conv sum.distinct(1) Inr_inject)
qed simp

lemma check_batch_total: "check_batch seen rt rules = Inr () \<or> (\<exists>e. check_batch seen rt rules = Inl e)"
  by (cases "check_batch seen rt rules") auto

lemma matching_rules_scan:
  assumes "router_inv rt"
  shows "matching_rules e ctx rt = Some (filter (\<lambda>r. rule_matches r e ctx) (dict_values (rt_rules rt)))"
proof -
  have "filter (\<lambda>r. rule_matches r e ctx) (scan (ev_type e) rt) =
      filter (\<lambda>r. rule_matches r e ctx) (dict_values (rt_rules rt))"
    unfolding scan_def filter_filter by (rule filter_cong) (auto simp: rule_matches_def)
  then show ?thesis by (simp add: matching_rules_def rules_for_scan[OF assms])
qed

subsection \<open>The properties\<close>

text \<open>C28: in every reachable router the indexed lookup is the scan: the rules matching an event are
  exactly the registered rules that match it, in registration order, and the index never dangles.\<close>

theorem routing_index_is_scan:
  assumes "router_reachable rt"
  shows "matching_rules e ctx rt = Some (filter (\<lambda>r. rule_matches r e ctx) (dict_values (rt_rules rt)))"
  by (rule matching_rules_scan[OF reachable_router_inv[OF assms]])

text \<open>A batch is registered as a whole, in order, exactly when its ids are distinct and new; a batch
  that is refused leaves the router as it was.\<close>

theorem batch_registration_atomic:
  "(if distinct (map ru_id rules) \<and> list_all (\<lambda>r. get_rule (ru_id r) rt = None) rules
    then fst (register_many rules rt) = Inr ()
       \<and> rt_rules (snd (register_many rules rt)) = rt_rules rt @ map (\<lambda>r. (ru_id r, r)) rules
    else \<exists>e. register_many rules rt = (Inl e, rt))"
proof (cases "check_batch {} rt rules")
  case (Inl e)
  then have "check_batch {} rt rules \<noteq> Inr ()" by simp
  with Inl show ?thesis unfolding check_batch_iff by (auto simp: register_many_def get_rule_def list_all_iff)
next
  case (Inr u)
  then have "check_batch {} rt rules = Inr ()" by simp
  with Inr show ?thesis unfolding check_batch_iff
    using register_all_ok[of rules rt] by (simp add: register_many_def get_rule_def list_all_iff)
qed

lemma strip_not_blank: "strip x = x \<Longrightarrow> x \<noteq> [] \<Longrightarrow> not_blank m x = Inr x"
  by (simp add: not_blank_def)

text \<open>The task a rule stands for.\<close>

definition routed :: "event \<Rightarrow> routing_context \<Rightarrow> route_rule \<Rightarrow> task \<Rightarrow> bool" where
  "routed e ctx r t \<longleftrightarrow> task_wf t \<and> t_status t = PENDING \<and> t_attempts t = 0
     \<and> t_worker t = ru_worker r \<and> t_action t = ru_action r \<and> t_input_event_id t = event_id e
     \<and> t_input_identity_key t = opt_text (Some (identity_key e)) \<and> t_branch_id t = rt_branch_id ctx
     \<and> t_route_rule_id t = Some (ru_id r) \<and> t_priority t = ru_base_priority r + rt_priority_bias ctx"

lemma build_task_ok:
  assumes r: "rule_wf r" and e: "strip (event_id e) = event_id e" "event_id e \<noteq> []"
  shows "\<exists>t. build_task uuid now r e ctx = Inr t \<and> routed e ctx r t"
proof -
  have id: "opt_text (Some (ru_id r)) = Some (ru_id r)" using r by (simp add: rule_wf_def opt_text_def)
  obtain reason where b: "build_task uuid now r e ctx =
      validate_task ((default_task uuid now (ru_worker r) (ru_action r) (event_id e))
        \<lparr>t_input_identity_key := Some (identity_key e), t_branch_id := rt_branch_id ctx,
         t_route_rule_id := Some (ru_id r), t_routing_reason := Some reason,
         t_priority := ru_base_priority r + rt_priority_bias ctx\<rparr>)"
    unfolding build_task_def Let_def by blast
  let ?t = "(default_task uuid now (ru_worker r) (ru_action r) (event_id e))
        \<lparr>t_input_identity_key := opt_text (Some (identity_key e)), t_branch_id := rt_branch_id ctx,
         t_route_rule_id := Some (ru_id r), t_routing_reason := opt_text (Some reason),
         t_priority := ru_base_priority r + rt_priority_bias ctx\<rparr>"
  have "build_task uuid now r e ctx = Inr ?t"
    unfolding b using r e id
    by (simp add: validate_task_def rule_wf_def strip_not_blank at_least_def normalize_claim_token_def
        normalize_search_tier_def validate_lifecycle_def default_task_def)
  moreover from this have "task_wf ?t" unfolding b by (rule validate_task_wf)
  ultimately show ?thesis by (simp add: routed_def default_task_def)
qed

lemma build_tasks_ok:
  assumes "\<forall>r \<in> set rs. rule_wf r" and e: "strip (event_id e) = event_id e" "event_id e \<noteq> []"
  shows "\<exists>ts. build_tasks uuid clk k e ctx rs = Inr ts \<and> list_all2 (routed e ctx) rs ts"
  using assms(1)
proof (induction rs arbitrary: k)
  case (Cons r rs)
  obtain t where "build_task (uuid k) (clk k) r e ctx = Inr t" "routed e ctx r t"
    using build_task_ok[OF _ e, of r "uuid k" "clk k" ctx] Cons.prems by auto
  with Cons.IH[of "Suc k"] Cons.prems show ?case by auto
qed simp

text \<open>C27: in every reachable router an event with an id expands to one valid PENDING task per matching
  rule, in registration order, carrying the rule's worker and action, the event, and the branch and
  priority of the context; a disabled worker or rule never gets a task.\<close>

theorem expansion_exact:
  assumes "router_reachable rt" and "strip (event_id e) = event_id e" and "event_id e \<noteq> []"
  shows "\<exists>ts. expand uuid clk e ctx rt = Inr ts
    \<and> list_all2 (routed e ctx)
      (filter (\<lambda>r. rule_matches r e ctx) (dict_values (rt_rules rt))) ts
    \<and> (\<forall>t \<in> set ts. t_worker t \<notin> rt_disabled_workers ctx)"
proof -
  define rs where "rs = filter (\<lambda>r. rule_matches r e ctx) (dict_values (rt_rules rt))"
  have m: "matching_rules e ctx rt = Some rs"
    unfolding rs_def by (rule matching_rules_scan[OF reachable_router_inv[OF assms(1)]])
  have "\<forall>r \<in> set rs. rule_wf r" using reachable_rules_wf[OF assms(1)] by (simp add: rs_def)
  from build_tasks_ok[OF this assms(2,3), of uuid clk 0 ctx] obtain ts where
    ts: "build_tasks uuid clk 0 e ctx rs = Inr ts" "list_all2 (routed e ctx) rs ts" by blast
  have "t_worker t \<notin> rt_disabled_workers ctx" if "t \<in> set ts" for t
  proof -
    from that ts(2) obtain r where "r \<in> set rs" "routed e ctx r t"
      unfolding list_all2_conv_all_nth in_set_conv_nth by metis
    then show ?thesis by (simp add: rs_def rule_matches_def worker_enabled_def routed_def)
  qed
  with ts m show ?thesis unfolding rs_def[symmetric] by (simp add: expand_def)
qed

subsection \<open>A router\<close>

definition dns_rule :: route_rule where
  "dns_rule = \<lparr>ru_id = ''dns'', ru_accepts = {EV_DNS_NAME}, ru_worker = ''dnsx'', ru_action = ''resolve'',
     ru_reason = None, ru_base_priority = 1, ru_required_tags = {}, ru_excluded_tags = {}, ru_predicate = None\<rparr>"

definition dns_router :: router where
  "dns_router = snd (register dns_rule empty_router)"

definition dns_event :: event where
  "dns_event = default_event 1 0 EV_DNS_NAME ''a.example'' ''seed''"

lemma dns_rule_made: "make_route_rule dns_rule = Inr dns_rule"
  by (simp add: make_route_rule_def dns_rule_def normalize_tags_def strip_def is_space_def Let_def)

lemma dns_router_reachable: "router_reachable dns_router"
  unfolding dns_router_def by (rule router_reachable.register[OF router_reachable.start dns_rule_made])

lemma dns_router_rules: "dict_values (rt_rules dns_router) = [dns_rule]"
  by (simp add: dns_router_def register_def empty_router_def)

lemma dns_matches: "rule_matches dns_rule dns_event default_routing_context"
  by (simp add: rule_matches_def dns_rule_def dns_event_def default_event_def rule_enabled_def worker_enabled_def
      default_routing_context_def normalize_tags_def)

theorem routing_index_is_scan_witness:
  "matching_rules dns_event default_routing_context dns_router = Some [dns_rule]"
  using routing_index_is_scan[OF dns_router_reachable, of dns_event default_routing_context]
  by (simp add: dns_router_rules dns_matches)

theorem expansion_exact_witness:
  "\<exists>t. expand (\<lambda>_. 5) (\<lambda>_. 0) dns_event default_routing_context dns_router = Inr [t]
     \<and> t_worker t = ''dnsx'' \<and> t_input_event_id t = new_event_id 1"
proof -
  have id: "event_id dns_event = new_event_id 1" by (simp add: dns_event_def default_event_def)
  have "\<forall>c \<in> set (new_event_id 1). \<not> is_space c"
    by (auto simp: new_event_id_def is_space_def[of "CHR ''e''"] is_space_def[of "CHR ''v''"]
        is_space_def[of "CHR ''t''"] is_space_def[of "CHR ''_''"] dest: uuid_hex_not_space)
  then have "strip (event_id dns_event) = event_id dns_event" unfolding id by (rule strip_no_space)
  moreover have "event_id dns_event \<noteq> []" by (simp add: id new_event_id_def)
  ultimately obtain ts where "expand (\<lambda>_. 5) (\<lambda>_. 0) dns_event default_routing_context dns_router = Inr ts"
    "list_all2 (routed dns_event default_routing_context) [dns_rule] ts"
    using expansion_exact[OF dns_router_reachable, of dns_event "\<lambda>_. 5" "\<lambda>_. 0" default_routing_context]
    by (auto simp: dns_router_rules dns_matches)
  then show ?thesis by (auto simp: list_all2_Cons1 routed_def dns_rule_def id)
qed

end
