(* ===== verification/Scheduler.thy ===== *)
theory Scheduler
  imports Task_Queue
begin

section \<open>Ranking and dispatch batches (recon/core/scheduler.py)\<close>

text \<open>
  The score of a task, the ranking of the ready list, and the selection of a dispatch batch in fair
  worker rounds. The signal provider and \<open>math.log1p\<close> are parameters: the first is the intelligence
  layer (assumed not to raise), the second a real function. The sort key is the tuple of the code.
\<close>

record scheduling_signals =
  sg_confidence :: rat
  sg_novelty :: rat
  sg_expected_yield :: rat
  sg_information_gain :: rat
  sg_estimated_cost :: rat

definition default_signals :: scheduling_signals where
  "default_signals = \<lparr>sg_confidence = 1/2, sg_novelty = 1/2, sg_expected_yield = 1/2,
     sg_information_gain = 1/2, sg_estimated_cost = 1\<rparr>"

definition signals_ok :: "scheduling_signals \<Rightarrow> bool" where
  "signals_ok g \<longleftrightarrow> 0 \<le> sg_confidence g \<and> sg_confidence g \<le> 1 \<and> 0 \<le> sg_novelty g \<and> sg_novelty g \<le> 1
     \<and> 0 \<le> sg_expected_yield g \<and> sg_expected_yield g \<le> 1
     \<and> 0 \<le> sg_information_gain g \<and> sg_information_gain g \<le> 1 \<and> 0 < sg_estimated_cost g"

record scheduler_config =
  route_priority_weight :: rat
  confidence_weight :: rat
  novelty_weight :: rat
  expected_yield_weight :: rat
  information_gain_weight :: rat
  cost_weight :: rat
  retry_penalty_weight :: rat
  age_boost_per_minute :: rat
  max_age_boost :: rat
  candidate_limit :: int
  signal_concurrency :: int

definition default_scheduler_config :: scheduler_config where
  "default_scheduler_config = \<lparr>route_priority_weight = 1, confidence_weight = 3, novelty_weight = 4,
     expected_yield_weight = 3, information_gain_weight = 3, cost_weight = 2, retry_penalty_weight = 1,
     age_boost_per_minute = 1/100, max_age_boost = 3, candidate_limit = 256, signal_concurrency = 32\<rparr>"

text \<open>YAML \<open>null\<close> means the bounded default.\<close>

definition bounded_default_candidate_limit :: "int option \<Rightarrow> int" where
  "bounded_default_candidate_limit v = (case v of None \<Rightarrow> 256 | Some n \<Rightarrow> n)"

definition validate_scheduler_config :: "scheduler_config \<Rightarrow> scheduler_config res" where
  "validate_scheduler_config c =
     (if age_boost_per_minute c < 0 then Inl (ValidationError ''age_boost_per_minute'')
      else if max_age_boost c < 0 then Inl (ValidationError ''max_age_boost'')
      else if candidate_limit c < 1 \<or> candidate_limit c > 10000 then Inl (ValidationError ''candidate_limit'')
      else if signal_concurrency c < 1 then Inl (ValidationError ''signal_concurrency'')
      else Inr c)"

record score_breakdown =
  sb_route_priority :: rat
  sb_confidence :: rat
  sb_novelty :: rat
  sb_expected_yield :: rat
  sb_information_gain :: rat
  sb_age_boost :: rat
  sb_cost_penalty :: rat
  sb_retry_penalty :: rat
  sb_total :: rat

record schedule_decision =
  sd_task_id :: string
  sd_worker :: string
  sd_action :: string
  sd_input_event_id :: string
  sd_branch_id :: "string option"
  sd_score :: rat
  sd_breakdown :: score_breakdown
  sd_signals :: scheduling_signals
  sd_evaluated_at :: time
  sd_route_rule_id :: "string option"
  sd_routing_reason :: "string option"

definition build_breakdown ::
  "(rat \<Rightarrow> rat) \<Rightarrow> scheduler_config \<Rightarrow> task \<Rightarrow> scheduling_signals \<Rightarrow> time \<Rightarrow> score_breakdown" where
  "build_breakdown log1p cfg t g evaluated_at =
     (let age_minutes = max (total_seconds (evaluated_at - t_created_at t) / 60) 0;
          age_boost = min (age_minutes * age_boost_per_minute cfg) (max_age_boost cfg);
          route = t_priority t * route_priority_weight cfg;
          conf = sg_confidence g * confidence_weight cfg;
          nov = sg_novelty g * novelty_weight cfg;
          yld = sg_expected_yield g * expected_yield_weight cfg;
          gain = sg_information_gain g * information_gain_weight cfg;
          cost = log1p (sg_estimated_cost g) * cost_weight cfg;
          retry = of_int (t_attempts t) * retry_penalty_weight cfg
      in \<lparr>sb_route_priority = route, sb_confidence = conf, sb_novelty = nov, sb_expected_yield = yld,
          sb_information_gain = gain, sb_age_boost = age_boost, sb_cost_penalty = cost,
          sb_retry_penalty = retry,
          sb_total = route + conf + nov + yld + gain + age_boost - cost - retry\<rparr>)"

definition build_decision ::
  "(rat \<Rightarrow> rat) \<Rightarrow> scheduler_config \<Rightarrow> task \<Rightarrow> scheduling_signals \<Rightarrow> time \<Rightarrow> schedule_decision" where
  "build_decision log1p cfg t g evaluated_at =
     (let b = build_breakdown log1p cfg t g evaluated_at
      in \<lparr>sd_task_id = t_task_id t, sd_worker = t_worker t, sd_action = t_action t,
          sd_input_event_id = t_input_event_id t, sd_branch_id = t_branch_id t, sd_score = sb_total b,
          sd_breakdown = b, sd_signals = g, sd_evaluated_at = evaluated_at,
          sd_route_rule_id = t_route_rule_id t, sd_routing_reason = t_routing_reason t\<rparr>)"

definition explain_task ::
  "(rat \<Rightarrow> rat) \<Rightarrow> scheduler_config \<Rightarrow> (task \<Rightarrow> scheduling_signals) \<Rightarrow> time \<Rightarrow> task \<Rightarrow> schedule_decision" where
  "explain_task log1p cfg signals_for now t = build_decision log1p cfg t (signals_for t) now"

definition score_tasks ::
  "(rat \<Rightarrow> rat) \<Rightarrow> scheduler_config \<Rightarrow> (task \<Rightarrow> scheduling_signals) \<Rightarrow> time \<Rightarrow> task list \<Rightarrow> schedule_decision list" where
  "score_tasks log1p cfg signals_for evaluated_at ts =
     map (\<lambda>t. build_decision log1p cfg t (signals_for t) evaluated_at) ts"

definition decision_sort_key ::
  "(string, task) dict \<Rightarrow> schedule_decision \<Rightarrow> rat \<times> rat \<times> time \<times> time \<times> string" where
  "decision_sort_key task_by_id d =
     (let t = the (dict_get task_by_id (sd_task_id d))
      in (- sd_score d, - t_priority t, t_available_at t, t_created_at t, t_task_id t))"

definition task_by_id :: "task list \<Rightarrow> (string, task) dict" where
  "task_by_id ts = fold (\<lambda>t d. dict_set (t_task_id t) t d) ts []"

definition rank_ready ::
  "(rat \<Rightarrow> rat) \<Rightarrow> scheduler_config \<Rightarrow> (task \<Rightarrow> scheduling_signals) \<Rightarrow> time \<Rightarrow> time \<Rightarrow> task_store
    \<Rightarrow> schedule_decision list res" where
  "rank_ready log1p cfg signals_for now evaluated_at s =
     bind_res (queue_ready now (Some (candidate_limit cfg)) True s) (\<lambda>tasks.
       if tasks = [] then Inr []
       else Inr (sort_key (decision_sort_key (task_by_id tasks))
                   (score_tasks log1p cfg signals_for evaluated_at tasks)))"

definition select_next ::
  "(rat \<Rightarrow> rat) \<Rightarrow> scheduler_config \<Rightarrow> (task \<Rightarrow> scheduling_signals) \<Rightarrow> time \<Rightarrow> time \<Rightarrow> string set
    \<Rightarrow> task_store \<Rightarrow> schedule_decision option res" where
  "select_next log1p cfg signals_for now evaluated_at excluded s =
     bind_res (rank_ready log1p cfg signals_for now evaluated_at s)
       (\<lambda>ranked. Inr (find (\<lambda>d. sd_worker d \<notin> excluded) ranked))"

subsection \<open>Fair worker rounds\<close>

record batch_state =
  b_queues :: "(string, schedule_decision list) dict"
  b_selected :: "schedule_decision list"
  b_count :: "(string, int) dict"
  b_progressed :: bool

text \<open>The queues of the workers that are not excluded, in the order of their first decision.\<close>

fun group_by_worker ::
  "string set \<Rightarrow> schedule_decision list \<Rightarrow> (string, schedule_decision list) dict
    \<Rightarrow> (string, schedule_decision list) dict" where
  "group_by_worker excluded [] queues = queues"
| "group_by_worker excluded (d # ds) queues =
     (if sd_worker d \<in> excluded then group_by_worker excluded ds queues
      else group_by_worker excluded ds
             (dict_set (sd_worker d) (dict_default queues (sd_worker d) [] @ [d]) queues))"

definition at_capacity :: "(string, int) dict \<Rightarrow> batch_state \<Rightarrow> string \<Rightarrow> bool" where
  "at_capacity capacities st w \<longleftrightarrow>
     (case dict_get capacities w of None \<Rightarrow> False | Some c \<Rightarrow> dict_default (b_count st) w 0 \<ge> c)"

definition take_one :: "string \<Rightarrow> schedule_decision \<Rightarrow> schedule_decision list \<Rightarrow> batch_state \<Rightarrow> batch_state" where
  "take_one w d rest st =
     st\<lparr>b_queues := dict_set w rest (b_queues st), b_selected := b_selected st @ [d],
        b_count := dict_set w (dict_default (b_count st) w 0 + 1) (b_count st), b_progressed := True\<rparr>"

fun batch_round :: "(string, int) dict \<Rightarrow> int \<Rightarrow> string list \<Rightarrow> batch_state \<Rightarrow> batch_state" where
  "batch_round capacities limit [] st = st"
| "batch_round capacities limit (w # ws) st =
     (if at_capacity capacities st w then batch_round capacities limit ws st
      else case dict_default (b_queues st) w [] of
        [] \<Rightarrow> batch_round capacities limit ws st
      | d # rest \<Rightarrow>
          let st1 = take_one w d rest st
          in if int (length (b_selected st1)) \<ge> limit then st1
             else batch_round capacities limit ws st1)"

lemma batch_round_length:
  "length (b_selected st) \<le> length (b_selected (batch_round capacities limit ws st))
   \<and> (b_progressed (batch_round capacities limit ws st) \<and> \<not> b_progressed st \<longrightarrow>
        length (b_selected st) < length (b_selected (batch_round capacities limit ws st)))"
proof (induction capacities limit ws st rule: batch_round.induct)
  case (2 capacities limit w ws st)
  show ?case
  proof (cases "at_capacity capacities st w \<or> dict_default (b_queues st) w [] = []")
    case True
    with 2 show ?thesis by auto
  next
    case False
    then obtain d rest where q: "dict_default (b_queues st) w [] = d # rest" and c: "\<not> at_capacity capacities st w"
      by (cases "dict_default (b_queues st) w []") auto
    have l: "length (b_selected (take_one w d rest st)) = length (b_selected st) + 1" by (simp add: take_one_def)
    show ?thesis
    proof (cases "int (length (b_selected (take_one w d rest st))) \<ge> limit")
      case True
      with q c l show ?thesis by (simp add: Let_def)
    next
      case False
      with 2(3)[OF c q refl False] q c l show ?thesis by (simp add: Let_def)
    qed
  qed
qed simp

function batch_loop :: "(string, int) dict \<Rightarrow> int \<Rightarrow> string list \<Rightarrow> batch_state \<Rightarrow> batch_state" where
  "batch_loop capacities limit order st =
     (if int (length (b_selected st)) < limit then
        let st1 = batch_round capacities limit order (st\<lparr>b_progressed := False\<rparr>)
        in if \<not> b_progressed st1 then st1 else batch_loop capacities limit order st1
      else st)"
  by pat_completeness auto
termination
proof (relation "measure (\<lambda>(capacities, limit, order, st). nat (limit - int (length (b_selected st))))", goal_cases)
  case (2 capacities limit order st st1)
  then show ?case
    using batch_round_length[of "st\<lparr>b_progressed := False\<rparr>" capacities limit order] by auto
qed simp

declare batch_loop.simps [simp del]

definition select_ranked_batch ::
  "schedule_decision list \<Rightarrow> int \<Rightarrow> string set \<Rightarrow> (string, int) dict \<Rightarrow> schedule_decision list" where
  "select_ranked_batch ranked limit excluded capacities =
     (let queues = group_by_worker excluded ranked []
      in b_selected (batch_loop capacities limit (map fst queues)
           \<lparr>b_queues = queues, b_selected = [], b_count = [], b_progressed = False\<rparr>))"

definition select_batch ::
  "(rat \<Rightarrow> rat) \<Rightarrow> scheduler_config \<Rightarrow> (task \<Rightarrow> scheduling_signals) \<Rightarrow> time \<Rightarrow> time \<Rightarrow> int \<Rightarrow> string set
    \<Rightarrow> (string, int) dict \<Rightarrow> task_store \<Rightarrow> schedule_decision list res" where
  "select_batch log1p cfg signals_for now evaluated_at limit excluded capacities s =
     (if limit < 1 then Inr []
      else bind_res (rank_ready log1p cfg signals_for now evaluated_at s)
             (\<lambda>ranked. Inr (select_ranked_batch ranked limit excluded capacities)))"

end
