(* ===== verification/Scheduler_Properties.thy ===== *)
theory Scheduler_Properties
  imports Scheduler Ready_List
begin

section \<open>The scheduler properties\<close>

text \<open>
  Invariants of the round-robin selection (every worker's decisions are taken in order, counts are
  exact, workers with work left never fall more than one behind), the ranking as an ordered
  permutation of the ready list, and the monotonicity of the score.
\<close>

declare split_paired_All [simp del] split_paired_Ex [simp del]

subsection \<open>Grouping\<close>

abbreviation of_worker :: "string \<Rightarrow> schedule_decision list \<Rightarrow> schedule_decision list" where
  "of_worker w \<equiv> filter (\<lambda>d. sd_worker d = w)"

abbreviation wqueue :: "(string, schedule_decision list) dict \<Rightarrow> string \<Rightarrow> schedule_decision list" where
  "wqueue q w \<equiv> dict_default q w []"

lemma group_queue:
  "wqueue (group_by_worker ex ds q) w = wqueue q w @ (if w \<in> ex then [] else of_worker w ds)"
  by (induction ex ds q rule: group_by_worker.induct) auto

lemma group_ok: "dict_ok q \<Longrightarrow> dict_ok (group_by_worker ex ds q)"
  by (induction ex ds q rule: group_by_worker.induct) auto

lemma wqueue_mem: "wqueue q w \<noteq> [] \<Longrightarrow> w \<in> set (map fst q)"
  by (auto simp: dict_default_def dest: map_of_SomeD split: option.splits) (force dest: map_of_SomeD)

subsection \<open>Invariants of the rounds\<close>

abbreviation cnt :: "batch_state \<Rightarrow> string \<Rightarrow> int" where
  "cnt st w \<equiv> dict_default (b_count st) w 0"

definition open_worker :: "(string, int) dict \<Rightarrow> batch_state \<Rightarrow> string \<Rightarrow> bool" where
  "open_worker cap st w \<longleftrightarrow> wqueue (b_queues st) w \<noteq> [] \<and> \<not> at_capacity cap st w"

definition batch_inv ::
  "(string, schedule_decision list) dict \<Rightarrow> (string, int) dict \<Rightarrow> batch_state \<Rightarrow> bool" where
  "batch_inv Q cap st \<longleftrightarrow>
     (\<forall>w. of_worker w (b_selected st) @ wqueue (b_queues st) w = wqueue Q w)
     \<and> (\<forall>w. cnt st w = int (length (of_worker w (b_selected st))))
     \<and> (\<forall>w c. dict_get cap w = Some c \<longrightarrow> cnt st w \<le> max c 0)"

lemma take_one_other:
  "v \<noteq> w \<Longrightarrow> cnt (take_one w d rest st) v = cnt st v
     \<and> (open_worker cap (take_one w d rest st) v \<longleftrightarrow> open_worker cap st v)"
  by (simp add: take_one_def open_worker_def at_capacity_def split: option.splits)

definition queues_ok :: "(string, schedule_decision list) dict \<Rightarrow> bool" where
  "queues_ok Q \<longleftrightarrow> (\<forall>w. \<forall>d \<in> set (wqueue Q w). sd_worker d = w)"

lemma take_one_inv:
  assumes ok: "queues_ok Q" and inv: "batch_inv Q cap st"
    and q: "wqueue (b_queues st) w = d # rest" and c: "\<not> at_capacity cap st w"
  shows "batch_inv Q cap (take_one w d rest st)"
proof -
  let ?st = "take_one w d rest st"
  have sel: "of_worker v (b_selected st) @ wqueue (b_queues st) v = wqueue Q v" for v
    using inv by (simp add: batch_inv_def)
  have "d \<in> set (wqueue Q w)" using sel[of w] q by (metis in_set_conv_decomp)
  then have dw: "sd_worker d = w" using ok by (simp add: queues_ok_def)
  have n: "cnt st v = int (length (of_worker v (b_selected st)))" for v using inv by (simp add: batch_inv_def)
  have le: "cnt ?st v \<le> max m 0" if m: "dict_get cap v = Some m" for v m
  proof (cases "v = w")
    case True
    then have "cnt st w < m" using c m by (simp add: at_capacity_def)
    then show ?thesis using True by (simp add: take_one_def)
  next
    case False
    have "\<forall>w c. dict_get cap w = Some c \<longrightarrow> cnt st w \<le> max c 0" using inv unfolding batch_inv_def by blast
    then show ?thesis using take_one_other[OF False, of d rest st] m by auto
  qed
  have "of_worker v (b_selected ?st) @ wqueue (b_queues ?st) v = wqueue Q v" for v
    using sel[of v] q dw by (auto simp: take_one_def)
  moreover have "cnt ?st v = int (length (of_worker v (b_selected ?st)))" for v
    using n[of v] n[of w] dw by (auto simp: take_one_def)
  ultimately show ?thesis unfolding batch_inv_def using le by blast
qed

definition level :: "(string, int) dict \<Rightarrow> batch_state \<Rightarrow> int \<Rightarrow> string set \<Rightarrow> bool" where
  "level cap st n W \<longleftrightarrow> (\<forall>w \<in> W. cnt st w \<le> n \<and> (open_worker cap st w \<longrightarrow> cnt st w = n))"

definition nearly_level :: "(string, int) dict \<Rightarrow> batch_state \<Rightarrow> int \<Rightarrow> string set \<Rightarrow> bool" where
  "nearly_level cap st n W \<longleftrightarrow> (\<forall>w \<in> W. cnt st w \<le> n + 1 \<and> (open_worker cap st w \<longrightarrow> n \<le> cnt st w))"

lemma take_one_same: "cnt (take_one w d rest st) w = cnt st w + 1"
  by (simp add: take_one_def)

lemma level_take:
  "w \<notin> W \<Longrightarrow> level cap st n W \<Longrightarrow> level cap (take_one w d rest st) n W"
  unfolding level_def by (metis take_one_other)

lemma round_spec:
  assumes "queues_ok Q" and "batch_inv Q cap st" and "distinct todo" and "finished \<inter> set todo = {}"
    and "level cap st (n + 1) finished" and "level cap st n (set todo)"
    and "int (length (b_selected st)) < limit"
    and "st' = batch_round cap limit todo st"
  shows "batch_inv Q cap st'
    \<and> (int (length (b_selected st')) < limit \<and> level cap st' (n + 1) (finished \<union> set todo)
       \<or> int (length (b_selected st')) = limit \<and> nearly_level cap st' n (finished \<union> set todo))
    \<and> (\<not> b_progressed st' \<longrightarrow> st' = st \<and> (\<forall>w \<in> set todo. \<not> open_worker cap st w))
    \<and> (b_progressed st \<longrightarrow> b_progressed st')"
  using assms
proof (induction todo arbitrary: st finished)
  case Nil
  then show ?case by simp
next
  case (Cons w todo)
  have d: "distinct todo" "w \<notin> set todo" "w \<notin> finished" "insert w finished \<inter> set todo = {}"
    using Cons.prems(3,4) by auto
  have lt: "level cap st n (set todo)" using Cons.prems(6) by (auto simp: level_def)
  show ?case
  proof (cases "open_worker cap st w")
    case False
    have "level cap st (n + 1) (insert w finished)"
      using Cons.prems(5,6) False by (auto simp: level_def)
    note ih = Cons.IH[OF Cons.prems(1,2) d(1,4) this lt Cons.prems(7)]
    have "st' = batch_round cap limit todo st"
      using Cons.prems(8) False by (auto simp: open_worker_def split: list.splits)
    from ih[OF this] False show ?thesis by auto
  next
    case True
    then obtain dd rest where q: "wqueue (b_queues st) w = dd # rest" and c: "\<not> at_capacity cap st w"
      unfolding open_worker_def by (cases "wqueue (b_queues st) w") auto
    let ?st = "take_one w dd rest st"
    have inv: "batch_inv Q cap ?st" by (rule take_one_inv[OF Cons.prems(1,2) q c])
    have len: "length (b_selected ?st) = length (b_selected st) + 1" by (simp add: take_one_def)
    have "cnt st w = n" using Cons.prems(6) True by (simp add: level_def)
    then have w: "cnt ?st w = n + 1" by (simp add: take_one_same)
    have fin: "level cap ?st (n + 1) (insert w finished)"
      using level_take[OF d(3) Cons.prems(5)] w by (auto simp: level_def)
    have todo: "level cap ?st n (set todo)" by (rule level_take[OF d(2) lt])
    have p: "b_progressed ?st" by (simp add: take_one_def)
    show ?thesis
    proof (cases "int (length (b_selected ?st)) \<ge> limit")
      case True
      then have "st' = ?st" using Cons.prems(8) q c by (simp add: Let_def)
      moreover have "nearly_level cap ?st n (finished \<union> set (w # todo))"
        using fin todo by (auto simp: level_def nearly_level_def)
      ultimately show ?thesis using inv p True len Cons.prems(7) by simp
    next
      case False
      then have "st' = batch_round cap limit todo ?st" using Cons.prems(8) q c by (simp add: Let_def)
      moreover have "int (length (b_selected ?st)) < limit" using False by simp
      ultimately show ?thesis using Cons.IH[OF Cons.prems(1) inv d(1,4) fin todo] p by auto
    qed
  qed
qed

lemma open_progressed [simp]:
  "open_worker cap (st\<lparr>b_progressed := p\<rparr>) w = open_worker cap st w"
  by (simp add: open_worker_def at_capacity_def split: option.splits)

lemma batch_inv_progressed [simp]: "batch_inv Q cap (st\<lparr>b_progressed := p\<rparr>) = batch_inv Q cap st"
  by (simp add: batch_inv_def)

lemma level_progressed [simp]: "level cap (st\<lparr>b_progressed := p\<rparr>) n W = level cap st n W"
  by (simp add: level_def)

lemma loop_spec:
  assumes "queues_ok Q" and "batch_inv Q cap st" and "distinct order" and "level cap st n (set order)"
    and "int (length (b_selected st)) \<le> limit"
  shows "\<exists>n. batch_inv Q cap (batch_loop cap limit order st)
    \<and> int (length (b_selected (batch_loop cap limit order st))) \<le> limit
    \<and> nearly_level cap (batch_loop cap limit order st) n (set order)
    \<and> ((\<forall>w \<in> set order. \<not> open_worker cap (batch_loop cap limit order st) w)
       \<or> int (length (b_selected (batch_loop cap limit order st))) = limit)"
  using assms
proof (induction cap limit order st arbitrary: n rule: batch_loop.induct)
  case (1 cap limit order st)
  show ?case
  proof (cases "int (length (b_selected st)) < limit")
    case False
    then have "batch_loop cap limit order st = st" by (simp add: batch_loop.simps)
    moreover have "nearly_level cap st n (set order)" using "1.prems"(4) by (auto simp: level_def nearly_level_def)
    ultimately show ?thesis using "1.prems" False by auto
  next
    case True
    let ?st = "st\<lparr>b_progressed := False\<rparr>"
    define st1 where "st1 = batch_round cap limit order ?st"
    have pre: "batch_inv Q cap ?st" "level cap ?st (n + 1) {}" "level cap ?st n (set order)"
      "int (length (b_selected ?st)) < limit"
      using "1.prems"(2,4) True by simp_all (simp add: level_def)
    have r: "batch_inv Q cap st1"
      "int (length (b_selected st1)) < limit \<and> level cap st1 (n + 1) (set order)
       \<or> int (length (b_selected st1)) = limit \<and> nearly_level cap st1 n (set order)"
      "\<not> b_progressed st1 \<longrightarrow> st1 = ?st \<and> (\<forall>w \<in> set order. \<not> open_worker cap ?st w)"
      using round_spec[OF "1.prems"(1) pre(1) "1.prems"(3) _ pre(2-4) st1_def] by auto
    show ?thesis
    proof (cases "b_progressed st1")
      case False
      have loop: "batch_loop cap limit order st = st1"
        using True False unfolding st1_def by (subst batch_loop.simps) (simp add: Let_def)
      have "nearly_level cap st1 (n + 1 - 1) (set order)" if "level cap st1 (n + 1) (set order)"
        using that by (auto simp: level_def nearly_level_def)
      then have "nearly_level cap st1 n (set order)" using r(2) by auto
      with loop r False show ?thesis by auto
    next
      case prog: True
      have loop: "batch_loop cap limit order st = batch_loop cap limit order st1"
        using True prog unfolding st1_def by (subst batch_loop.simps) (simp add: Let_def)
      from r(2) show ?thesis
      proof
        assume "int (length (b_selected st1)) < limit \<and> level cap st1 (n + 1) (set order)"
        then show ?thesis
          unfolding loop using "1.IH"[OF True st1_def _ "1.prems"(1) r(1) "1.prems"(3)] prog by auto
      next
        assume full: "int (length (b_selected st1)) = limit \<and> nearly_level cap st1 n (set order)"
        then have "batch_loop cap limit order st1 = st1" by (simp add: batch_loop.simps)
        with full r(1) show ?thesis unfolding loop by auto
      qed
    qed
  qed
qed

definition taken :: "string \<Rightarrow> schedule_decision list \<Rightarrow> int" where
  "taken w sel = int (length (of_worker w sel))"

text \<open>Whether a worker could still be given another of its ranked decisions.\<close>

definition could_take ::
  "schedule_decision list \<Rightarrow> string set \<Rightarrow> (string, int) dict \<Rightarrow> schedule_decision list \<Rightarrow> string \<Rightarrow> bool" where
  "could_take ranked excluded cap sel w \<longleftrightarrow> w \<notin> excluded \<and> taken w sel < taken w ranked
     \<and> (case dict_get cap w of None \<Rightarrow> True | Some c \<Rightarrow> taken w sel < c)"

lemma batch_facts:
  assumes "0 \<le> limit"
  shows "int (length (select_ranked_batch ranked limit excluded cap)) \<le> limit
    \<and> (\<forall>w. prefix (of_worker w (select_ranked_batch ranked limit excluded cap))
            (if w \<in> excluded then [] else of_worker w ranked))
    \<and> (\<forall>w c. dict_get cap w = Some c \<longrightarrow> taken w (select_ranked_batch ranked limit excluded cap) \<le> max c 0)
    \<and> ((\<exists>w. could_take ranked excluded cap (select_ranked_batch ranked limit excluded cap) w)
         \<longrightarrow> int (length (select_ranked_batch ranked limit excluded cap)) = limit)
    \<and> (\<forall>v w. could_take ranked excluded cap (select_ranked_batch ranked limit excluded cap) w \<longrightarrow>
         taken v (select_ranked_batch ranked limit excluded cap)
           \<le> taken w (select_ranked_batch ranked limit excluded cap) + 1)"
proof -
  define Q where "Q = group_by_worker excluded ranked []"
  define st where "st = batch_loop cap limit (map fst Q)
     \<lparr>b_queues = Q, b_selected = [], b_count = [], b_progressed = False\<rparr>"
  have Qw: "wqueue Q w = (if w \<in> excluded then [] else of_worker w ranked)" for w
    using group_queue[of excluded ranked "[]" w] by (simp add: Q_def dict_default_def[of "[]"])
  have ok: "queues_ok Q" by (simp add: queues_ok_def Qw)
  have dist: "distinct (map fst Q)" unfolding Q_def by (rule group_ok) simp
  let ?st0 = "\<lparr>b_queues = Q, b_selected = [], b_count = [], b_progressed = False\<rparr>"
  have inv0: "batch_inv Q cap ?st0" by (simp add: batch_inv_def dict_default_def)
  have lev0: "level cap ?st0 0 (set (map fst Q))" by (simp add: level_def dict_default_def)
  have "int (length (b_selected ?st0)) \<le> limit" using assms by simp
  from loop_spec[OF ok inv0 dist lev0 this] obtain n where
    inv: "batch_inv Q cap st" and len: "int (length (b_selected st)) \<le> limit"
    and near: "nearly_level cap st n (set (map fst Q))"
    and full: "(\<forall>w \<in> set (map fst Q). \<not> open_worker cap st w) \<or> int (length (b_selected st)) = limit"
    unfolding st_def by blast
  have sel: "select_ranked_batch ranked limit excluded cap = b_selected st"
    by (simp add: select_ranked_batch_def Q_def st_def Let_def)
  have split: "of_worker w (b_selected st) @ wqueue (b_queues st) w = wqueue Q w" for w
    using inv unfolding batch_inv_def by blast
  have cnt: "cnt st w = taken w (b_selected st)" for w
    using inv unfolding batch_inv_def taken_def by blast
  have "cnt st w \<le> max c 0" if "dict_get cap w = Some c" for w c
    using inv that unfolding batch_inv_def by blast
  then have caps: "taken w (b_selected st) \<le> max c 0" if "dict_get cap w = Some c" for w c
    using that unfolding cnt by blast
  have opn: "w \<in> set (map fst Q) \<and> open_worker cap st w"
    if "could_take ranked excluded cap (b_selected st) w" for w
  proof -
    from that have w: "w \<notin> excluded" "taken w (b_selected st) < taken w ranked"
      "\<not> at_capacity cap st w"
      by (auto simp: could_take_def at_capacity_def cnt split: option.splits)
    have ne: "wqueue (b_queues st) w \<noteq> []"
      using split[of w] w(1,2) by (auto simp: Qw taken_def)
    then have "wqueue Q w \<noteq> []" using split[of w] by auto
    with wqueue_mem ne w(3) show ?thesis by (simp add: open_worker_def)
  qed
  have fair: "taken v (b_selected st) \<le> taken w (b_selected st) + 1"
    if c: "could_take ranked excluded cap (b_selected st) w" for v w
  proof (cases "v \<in> set (map fst Q)")
    case True
    then have "cnt st v \<le> n + 1" using near unfolding nearly_level_def by blast
    moreover have "n \<le> cnt st w" using near opn[OF c] unfolding nearly_level_def by blast
    ultimately show ?thesis by (simp add: cnt)
  next
    case False
    then have "wqueue Q v = []" using wqueue_mem by blast
    then have "taken v (b_selected st) = 0" using split[of v] by (simp add: taken_def)
    then show ?thesis by (simp add: taken_def)
  qed
  have "prefix (of_worker w (b_selected st)) (if w \<in> excluded then [] else of_worker w ranked)" for w
    using split[of w] unfolding Qw by (metis prefixI)
  with len caps fair full opn show ?thesis unfolding sel by blast
qed

subsection \<open>Sample decisions\<close>

definition sample_decision :: "string \<Rightarrow> string \<Rightarrow> schedule_decision" where
  "sample_decision tid w =
     build_decision (\<lambda>x. x) default_scheduler_config
       ((default_task 1 0 w ''run'' ''evt_1'')\<lparr>t_task_id := tid\<rparr>) default_signals 0"

lemma sample_decision_worker [simp]: "sd_worker (sample_decision tid w) = w"
  by (simp add: sample_decision_def build_decision_def Let_def)

subsection \<open>The properties\<close>

text \<open>C26: a dispatch batch never exceeds its limit or a worker's free slots, takes each worker's
  decisions in ranking order without gaps and none of an excluded worker, and leaves a worker that
  could still run something only when the batch is full.\<close>

theorem batch_sound_and_work_conserving:
  assumes "0 \<le> limit"
  shows "let sel = select_ranked_batch ranked limit excluded cap in
      int (length sel) \<le> limit
    \<and> (\<forall>w. prefix (of_worker w sel) (if w \<in> excluded then [] else of_worker w ranked))
    \<and> (\<forall>w c. dict_get cap w = Some c \<longrightarrow> taken w sel \<le> max c 0)
    \<and> ((\<exists>w. could_take ranked excluded cap sel w) \<longrightarrow> int (length sel) = limit)"
  using batch_facts[OF assms, of ranked excluded cap] by (auto simp: Let_def)

theorem batch_sound_and_work_conserving_witness:
  "int (length (select_ranked_batch [sample_decision ''a'' ''x'', sample_decision ''b'' ''x''] 1 {} [])) \<le> 1"
  using batch_sound_and_work_conserving[of 1 "[sample_decision ''a'' ''x'', sample_decision ''b'' ''x'']" "{}" "[]"]
  by (simp only: Let_def)

text \<open>The rounds are fair: as long as a worker could still be given work, no other worker has been
  given more than one decision more than it, however its decisions rank.\<close>

theorem batch_fair:
  assumes "0 \<le> limit" and "could_take ranked excluded cap (select_ranked_batch ranked limit excluded cap) w"
  shows "taken v (select_ranked_batch ranked limit excluded cap)
    \<le> taken w (select_ranked_batch ranked limit excluded cap) + 1"
  using batch_facts[OF assms(1), of ranked excluded cap] assms(2) by blast

theorem batch_fair_witness:
  "let ds = [sample_decision ''a'' ''x'', sample_decision ''b'' ''x'', sample_decision ''c'' ''y'', sample_decision ''d'' ''y'']
   in select_ranked_batch ds 3 {} [] = [ds ! 0, ds ! 2, ds ! 1]
      \<and> taken ''x'' (select_ranked_batch ds 3 {} []) \<le> taken ''y'' (select_ranked_batch ds 3 {} []) + 1"
proof -
  let ?ds = "[sample_decision ''a'' ''x'', sample_decision ''b'' ''x'', sample_decision ''c'' ''y'', sample_decision ''d'' ''y'']"
  have sel: "select_ranked_batch ?ds 3 {} [] = [?ds ! 0, ?ds ! 2, ?ds ! 1]"
    by (simp add: select_ranked_batch_def batch_loop.simps at_capacity_def take_one_def dict_default_def)
  have "could_take ?ds {} [] (select_ranked_batch ?ds 3 {} []) ''y''"
    unfolding sel by (simp add: could_take_def taken_def)
  from batch_fair[OF _ this, of "''x''"] sel show ?thesis by (simp only: Let_def)
qed

text \<open>The ranking is exactly the fair ready list: every ready task in the shortlist gets one
  decision with its score, and the decisions come in ascending order of the code's sort key, so the
  first has the highest score.\<close>

theorem ranking_orders_ready_list:
  assumes "queue_ready now (Some (candidate_limit cfg)) True s = Inr ts"
    and "rank_ready log1p cfg signals_for now evaluated_at s = Inr ds"
  shows "mset ds = mset (score_tasks log1p cfg signals_for evaluated_at ts)
    \<and> sorted (map (decision_sort_key (task_by_id ts)) ds)
    \<and> (ds \<noteq> [] \<longrightarrow> (\<forall>d \<in> set ds. sd_score d \<le> sd_score (hd ds)))"
proof -
  let ?key = "decision_sort_key (task_by_id ts)"
  have ds: "ds = sort_key ?key (score_tasks log1p cfg signals_for evaluated_at ts)"
    using assms by (auto simp: rank_ready_def score_tasks_def split: if_splits)
  have "sd_score d \<le> sd_score (hd ds)" if "d \<in> set ds" for d
  proof -
    have "?key (hd ds) \<le> ?key d" unfolding ds by (rule sort_key_hd_min) (use that ds in simp)
    then show ?thesis by (auto simp: decision_sort_key_def Let_def less_eq_prod_def)
  qed
  then show ?thesis by (simp add: ds)
qed

definition dns_task :: task where
  "dns_task = (default_task 1 0 ''dns'' ''resolve'' ''evt_1'')\<lparr>t_task_id := ''tsk_1''\<rparr>"

definition http_task :: task where
  "http_task = (default_task 2 3 ''http'' ''probe'' ''evt_2'')\<lparr>t_task_id := ''tsk_2''\<rparr>"

definition sample_ready :: task_store where
  "sample_ready = \<lparr>ts_tasks = [(''tsk_1'', dns_task), (''tsk_2'', http_task)], ts_active = [], ts_known = []\<rparr>"

lemma sample_ready_fields [simp]:
  "t_task_id dns_task = ''tsk_1''" "t_task_id http_task = ''tsk_2''" "t_status dns_task = PENDING"
  "t_status http_task = PENDING" "t_attempts dns_task = 0" "t_attempts http_task = 0"
  "t_max_attempts dns_task = 3" "t_max_attempts http_task = 3" "t_available_at dns_task = 0"
  "t_available_at http_task = 3" "t_created_at dns_task = 0" "t_created_at http_task = 3"
  "t_priority dns_task = 0" "t_priority http_task = 0"
  by (simp_all add: dns_task_def http_task_def default_task_def)

lemma sample_ready_list:
  "queue_ready 10 (Some (candidate_limit (default_scheduler_config\<lparr>candidate_limit := 1\<rparr>))) True sample_ready = Inr [dns_task]"
  by (simp add: queue_ready_def ready_tasks_def sample_ready_def runnable_def priority_key_def
      fair_lanes_def fair_lane_limits_def slice_to_def less_eq_prod_def)

theorem ranking_orders_ready_list_witness:
  "let cfg = default_scheduler_config\<lparr>candidate_limit := 1\<rparr>;
       ds = [build_decision (\<lambda>x. x) cfg dns_task default_signals 10]
   in rank_ready (\<lambda>x. x) cfg (\<lambda>_. default_signals) 10 10 sample_ready = Inr ds
      \<and> mset ds = mset (score_tasks (\<lambda>x. x) cfg (\<lambda>_. default_signals) 10 [dns_task])"
proof -
  let ?c = "default_scheduler_config\<lparr>candidate_limit := 1\<rparr>"
  have "rank_ready (\<lambda>x. x) ?c (\<lambda>_. default_signals) 10 10 sample_ready
      = Inr [build_decision (\<lambda>x. x) ?c dns_task default_signals 10]"
    by (simp only: rank_ready_def sample_ready_list) (simp add: score_tasks_def)
  from ranking_orders_ready_list[OF sample_ready_list this] this show ?thesis by (simp add: Let_def)
qed

text \<open>The score rewards intelligence and age and punishes cost and retries: with non-negative
  weights and a monotone \<open>log1p\<close>, a task with signals at least as good, at most as costly, no younger,
  with no more attempts and no lower route priority never scores lower.\<close>

theorem score_monotone:
  assumes "mono log1p"
    and "0 \<le> route_priority_weight cfg" and "0 \<le> confidence_weight cfg" and "0 \<le> novelty_weight cfg"
    and "0 \<le> expected_yield_weight cfg" and "0 \<le> information_gain_weight cfg" and "0 \<le> cost_weight cfg"
    and "0 \<le> retry_penalty_weight cfg" and "0 \<le> age_boost_per_minute cfg"
    and "t_priority t \<le> t_priority u" and "t_created_at u \<le> t_created_at t" and "t_attempts u \<le> t_attempts t"
    and "sg_confidence g \<le> sg_confidence h" and "sg_novelty g \<le> sg_novelty h"
    and "sg_expected_yield g \<le> sg_expected_yield h" and "sg_information_gain g \<le> sg_information_gain h"
    and "sg_estimated_cost h \<le> sg_estimated_cost g"
  shows "sd_score (build_decision log1p cfg t g now) \<le> sd_score (build_decision log1p cfg u h now)"
proof -
  have cost: "log1p (sg_estimated_cost h) * cost_weight cfg \<le> log1p (sg_estimated_cost g) * cost_weight cfg"
    by (intro mult_right_mono monoD[OF assms(1)] assms)
  have retry: "rat_of_int (t_attempts u) * retry_penalty_weight cfg \<le> rat_of_int (t_attempts t) * retry_penalty_weight cfg"
    by (intro mult_right_mono) (use assms in auto)
  have "total_seconds (now - t_created_at t) \<le> total_seconds (now - t_created_at u)"
    by (rule total_seconds_mono) (use assms in simp)
  then have "max (total_seconds (now - t_created_at t) / 60) 0 * age_boost_per_minute cfg
      \<le> max (total_seconds (now - t_created_at u) / 60) 0 * age_boost_per_minute cfg"
    by (intro mult_right_mono max.mono) (use assms in \<open>auto simp: divide_right_mono\<close>)
  then have age: "min (max (total_seconds (now - t_created_at t) / 60) 0 * age_boost_per_minute cfg) (max_age_boost cfg)
      \<le> min (max (total_seconds (now - t_created_at u) / 60) 0 * age_boost_per_minute cfg) (max_age_boost cfg)"
    by (rule min.mono) simp
  have gains: "t_priority t * route_priority_weight cfg \<le> t_priority u * route_priority_weight cfg"
    "sg_confidence g * confidence_weight cfg \<le> sg_confidence h * confidence_weight cfg"
    "sg_novelty g * novelty_weight cfg \<le> sg_novelty h * novelty_weight cfg"
    "sg_expected_yield g * expected_yield_weight cfg \<le> sg_expected_yield h * expected_yield_weight cfg"
    "sg_information_gain g * information_gain_weight cfg \<le> sg_information_gain h * information_gain_weight cfg"
    by (intro mult_right_mono assms)+
  show ?thesis
    unfolding build_decision_def build_breakdown_def Let_def
    using gains age cost retry by simp
qed

theorem score_monotone_witness:
  "sd_score (build_decision (\<lambda>x. x) default_scheduler_config (default_task 1 5 ''w'' ''a'' ''e'') default_signals 10)
   \<le> sd_score (build_decision (\<lambda>x. x) default_scheduler_config (default_task 1 0 ''w'' ''a'' ''e'')
        (default_signals\<lparr>sg_confidence := 1\<rparr>) 10)"
  by (rule score_monotone) (simp_all add: mono_def default_scheduler_config_def default_signals_def default_task_def)

end
