(* ===== verification/Gates.thy ===== *)
theory Gates
  imports Scheduler
begin

section \<open>Execution gates (recon/core/lifecycle.py)\<close>

text \<open>
  The decision every pre-execution gate returns, with its validator, and the shape of a gate: a named
  state transformer from a task and its schedule to a decision. The state \<open>'s\<close> is whatever the gate's
  collaborators (review stores, recorders) keep.
\<close>

datatype gate_outcome = G_ALLOW | G_DEFER | G_BLOCK | G_REVIEW

record gate_decision =
  gd_outcome :: gate_outcome
  gd_reason :: "string option"
  gd_review_case_id :: "string option"
  gd_retry_after_seconds :: "rat option"

definition validate_gate_decision :: "gate_decision \<Rightarrow> gate_decision res" where
  "validate_gate_decision d =
     (if (case gd_retry_after_seconds d of None \<Rightarrow> False | Some x \<Rightarrow> x < 0)
      then Inl (ValidationError ''retry_after_seconds'')
      else if gd_retry_after_seconds d \<noteq> None \<and> gd_outcome d \<noteq> G_DEFER
      then Inl (ValidationError ''retry_after_seconds is only valid for DEFER decisions'')
      else if gd_review_case_id d \<noteq> None \<and> gd_outcome d \<noteq> G_REVIEW
      then Inl (ValidationError ''review_case_id is only valid for REVIEW decisions'')
      else Inr d)"

definition make_gate_decision :: "gate_outcome \<Rightarrow> string option \<Rightarrow> string option \<Rightarrow> gate_decision res" where
  "make_gate_decision outcome reason case_id =
     validate_gate_decision \<lparr>gd_outcome = outcome, gd_reason = reason, gd_review_case_id = case_id,
       gd_retry_after_seconds = None\<rparr>"

record 's gate =
  gate_name :: string
  gate_evaluate :: "task \<Rightarrow> schedule_decision \<Rightarrow> ('s, gate_decision) op"

lemma make_gate_decision_Inr:
  "make_gate_decision oc reason c = Inr d \<longleftrightarrow>
     d = \<lparr>gd_outcome = oc, gd_reason = reason, gd_review_case_id = c, gd_retry_after_seconds = None\<rparr>
     \<and> (c \<noteq> None \<longrightarrow> oc = G_REVIEW)"
  by (auto simp: make_gate_decision_def validate_gate_decision_def)

end
