(* ===== verification/Restrictions.thy ===== *)
theory Restrictions
  imports Gates Fnmatch
begin

section \<open>Action restrictions (recon/policy/restrictions.py)\<close>

text \<open>
  What a worker action intends to do (its descriptor), the non-overridable recon-only baseline, the
  program's BLOCK and REVIEW rules with their precedence, and the lifecycle gate that applies them. The
  decision recorder and the review bridge are parameters of the gate: state transformers that may fail.
\<close>

datatype action_class =
  AC_PASSIVE_DISCOVERY | AC_DNS_QUERY | AC_HTTP_PROBE | AC_TLS_INSPECTION | AC_ARCHIVE_LOOKUP | AC_CRAWL
  | AC_JAVASCRIPT_ANALYSIS | AC_CONTENT_DISCOVERY | AC_PARAMETER_DISCOVERY | AC_VHOST_DISCOVERY
  | AC_MOBILE_STATIC_ANALYSIS | AC_FINGERPRINTING | AC_VULNERABILITY_VALIDATION
  | AC_AUTHENTICATED_ACCESS | AC_CREDENTIAL_USE | AC_BRUTE_FORCE | AC_DESTRUCTIVE_ACTION
  | AC_RESOURCE_EXHAUSTION | AC_SOCIAL_ENGINEERING | AC_EXPLOITATION

fun action_class_value :: "action_class \<Rightarrow> string" where
  "action_class_value AC_PASSIVE_DISCOVERY = ''PASSIVE_DISCOVERY''"
| "action_class_value AC_DNS_QUERY = ''DNS_QUERY''"
| "action_class_value AC_HTTP_PROBE = ''HTTP_PROBE''"
| "action_class_value AC_TLS_INSPECTION = ''TLS_INSPECTION''"
| "action_class_value AC_ARCHIVE_LOOKUP = ''ARCHIVE_LOOKUP''"
| "action_class_value AC_CRAWL = ''CRAWL''"
| "action_class_value AC_JAVASCRIPT_ANALYSIS = ''JAVASCRIPT_ANALYSIS''"
| "action_class_value AC_CONTENT_DISCOVERY = ''CONTENT_DISCOVERY''"
| "action_class_value AC_PARAMETER_DISCOVERY = ''PARAMETER_DISCOVERY''"
| "action_class_value AC_VHOST_DISCOVERY = ''VHOST_DISCOVERY''"
| "action_class_value AC_MOBILE_STATIC_ANALYSIS = ''MOBILE_STATIC_ANALYSIS''"
| "action_class_value AC_FINGERPRINTING = ''FINGERPRINTING''"
| "action_class_value AC_VULNERABILITY_VALIDATION = ''VULNERABILITY_VALIDATION''"
| "action_class_value AC_AUTHENTICATED_ACCESS = ''AUTHENTICATED_ACCESS''"
| "action_class_value AC_CREDENTIAL_USE = ''CREDENTIAL_USE''"
| "action_class_value AC_BRUTE_FORCE = ''BRUTE_FORCE''"
| "action_class_value AC_DESTRUCTIVE_ACTION = ''DESTRUCTIVE_ACTION''"
| "action_class_value AC_RESOURCE_EXHAUSTION = ''RESOURCE_EXHAUSTION''"
| "action_class_value AC_SOCIAL_ENGINEERING = ''SOCIAL_ENGINEERING''"
| "action_class_value AC_EXPLOITATION = ''EXPLOITATION''"

datatype action_capability =
  CAP_PASSIVE_ONLY | CAP_ACTIVE_NETWORK | CAP_READ_ONLY | CAP_STATE_CHANGE | CAP_AUTHENTICATED_SESSION
  | CAP_USES_CREDENTIALS | CAP_ACCESSES_OTHER_USERS_DATA | CAP_PASSWORD_GUESSING | CAP_HIGH_VOLUME_GUESSING
  | CAP_FILE_UPLOAD | CAP_ACCOUNT_MODIFICATION | CAP_TRANSACTIONAL_ACTION | CAP_RESOURCE_EXHAUSTION
  | CAP_AVAILABILITY_IMPACT | CAP_SOCIAL_INTERACTION | CAP_EXPLOIT_EXECUTION | CAP_DIRECTORY_ENUMERATION
  | CAP_PARAMETER_ENUMERATION | CAP_HOST_HEADER_VARIATION | CAP_HISTORICAL_DATA
  | CAP_LOCAL_STATIC_ANALYSIS | CAP_AUDITED_TEMPLATE_EXECUTION

fun capability_value :: "action_capability \<Rightarrow> string" where
  "capability_value CAP_PASSIVE_ONLY = ''PASSIVE_ONLY''"
| "capability_value CAP_ACTIVE_NETWORK = ''ACTIVE_NETWORK''"
| "capability_value CAP_READ_ONLY = ''READ_ONLY''"
| "capability_value CAP_STATE_CHANGE = ''STATE_CHANGE''"
| "capability_value CAP_AUTHENTICATED_SESSION = ''AUTHENTICATED_SESSION''"
| "capability_value CAP_USES_CREDENTIALS = ''USES_CREDENTIALS''"
| "capability_value CAP_ACCESSES_OTHER_USERS_DATA = ''ACCESSES_OTHER_USERS_DATA''"
| "capability_value CAP_PASSWORD_GUESSING = ''PASSWORD_GUESSING''"
| "capability_value CAP_HIGH_VOLUME_GUESSING = ''HIGH_VOLUME_GUESSING''"
| "capability_value CAP_FILE_UPLOAD = ''FILE_UPLOAD''"
| "capability_value CAP_ACCOUNT_MODIFICATION = ''ACCOUNT_MODIFICATION''"
| "capability_value CAP_TRANSACTIONAL_ACTION = ''TRANSACTIONAL_ACTION''"
| "capability_value CAP_RESOURCE_EXHAUSTION = ''RESOURCE_EXHAUSTION''"
| "capability_value CAP_AVAILABILITY_IMPACT = ''AVAILABILITY_IMPACT''"
| "capability_value CAP_SOCIAL_INTERACTION = ''SOCIAL_INTERACTION''"
| "capability_value CAP_EXPLOIT_EXECUTION = ''EXPLOIT_EXECUTION''"
| "capability_value CAP_DIRECTORY_ENUMERATION = ''DIRECTORY_ENUMERATION''"
| "capability_value CAP_PARAMETER_ENUMERATION = ''PARAMETER_ENUMERATION''"
| "capability_value CAP_HOST_HEADER_VARIATION = ''HOST_HEADER_VARIATION''"
| "capability_value CAP_HISTORICAL_DATA = ''HISTORICAL_DATA''"
| "capability_value CAP_LOCAL_STATIC_ANALYSIS = ''LOCAL_STATIC_ANALYSIS''"
| "capability_value CAP_AUDITED_TEMPLATE_EXECUTION = ''AUDITED_TEMPLATE_EXECUTION''"

datatype restriction_outcome = RO_BLOCK | RO_REVIEW
datatype restriction_source = RS_BASELINE | RS_PROGRAM | RS_DEFAULT | RS_UNKNOWN_ACTION

datatype rule_specificity = GENERIC | ACTION_CLASS | WORKER_OR_ACTION | CAPABILITY | COMBINED

fun specificity_value :: "rule_specificity \<Rightarrow> int" where
  "specificity_value GENERIC = 10"
| "specificity_value ACTION_CLASS = 20"
| "specificity_value WORKER_OR_ACTION = 30"
| "specificity_value CAPABILITY = 40"
| "specificity_value COMBINED = 50"

subsection \<open>Descriptors\<close>

record action_descriptor =
  ad_class :: action_class
  ad_capabilities :: "action_capability set"
  ad_description :: "string option"

definition validate_descriptor :: "action_descriptor \<Rightarrow> action_descriptor res" where
  "validate_descriptor d =
     (if CAP_PASSIVE_ONLY \<in> ad_capabilities d \<and> CAP_ACTIVE_NETWORK \<in> ad_capabilities d
      then Inl (ValidationError ''action cannot be both PASSIVE_ONLY and ACTIVE_NETWORK'')
      else if CAP_READ_ONLY \<in> ad_capabilities d \<and> CAP_STATE_CHANGE \<in> ad_capabilities d
      then Inl (ValidationError ''action cannot be both READ_ONLY and STATE_CHANGE'')
      else Inr (d\<lparr>ad_description := opt_text (ad_description d)\<rparr>))"

record descriptor_rule =
  dr_id :: string
  dr_worker_pattern :: string
  dr_action_pattern :: string
  dr_descriptor :: action_descriptor
  dr_priority :: int

definition validate_descriptor_rule :: "descriptor_rule \<Rightarrow> descriptor_rule res" where
  "validate_descriptor_rule r =
     bind_res (not_blank ''must not be blank'' (dr_id r)) (\<lambda>i.
     bind_res (not_blank ''must not be blank'' (dr_worker_pattern r)) (\<lambda>w.
     bind_res (not_blank ''must not be blank'' (dr_action_pattern r)) (\<lambda>a.
       Inr (r\<lparr>dr_id := i, dr_worker_pattern := w, dr_action_pattern := a\<rparr>))))"

definition descriptor_rule_matches :: "descriptor_rule \<Rightarrow> task \<Rightarrow> bool" where
  "descriptor_rule_matches r t \<longleftrightarrow>
     fnmatchcase (t_worker t) (dr_worker_pattern r) \<and> fnmatchcase (t_action t) (dr_action_pattern r)"

definition descriptor_rule_specificity :: "descriptor_rule \<Rightarrow> int \<times> int" where
  "descriptor_rule_specificity r =
     (let wildcards = int (count_list (dr_worker_pattern r) CHR ''*'') + int (count_list (dr_worker_pattern r) CHR ''?'')
            + int (count_list (dr_action_pattern r) CHR ''*'') + int (count_list (dr_action_pattern r) CHR ''?'');
          concrete = int (length (dr_worker_pattern r)) + int (length (dr_action_pattern r)) - wildcards
      in (- wildcards, concrete))"

text \<open>\<open>StaticActionDescriptorProvider\<close>: the constructor refuses duplicate ids.\<close>

fun check_rule_ids :: "('a \<Rightarrow> string) \<Rightarrow> string \<Rightarrow> string set \<Rightarrow> 'a list \<Rightarrow> unit res" where
  "check_rule_ids rid msg seen [] = Inr ()"
| "check_rule_ids rid msg seen (r # rs) =
     (if rid r \<in> seen then Inl (ValueError (msg @ rid r))
      else check_rule_ids rid msg (insert (rid r) seen) rs)"

definition make_descriptor_provider :: "descriptor_rule list \<Rightarrow> descriptor_rule list res" where
  "make_descriptor_provider rules =
     bind_res (check_rule_ids dr_id ''duplicate action descriptor rule_id: '' {} rules) (\<lambda>_. Inr rules)"

definition descriptor_sort_key :: "descriptor_rule \<Rightarrow> int \<times> int \<times> int \<times> string" where
  "descriptor_sort_key r =
     (dr_priority r, fst (descriptor_rule_specificity r), snd (descriptor_rule_specificity r), dr_id r)"

definition descriptor_for :: "descriptor_rule list \<Rightarrow> task \<Rightarrow> action_descriptor option" where
  "descriptor_for rules t =
     (case sort_desc descriptor_sort_key (filter (\<lambda>r. descriptor_rule_matches r t) rules) of
        [] \<Rightarrow> None | r # _ \<Rightarrow> Some (dr_descriptor r))"

subsection \<open>Program rules\<close>

record restriction_rule =
  xr_id :: string
  xr_outcome :: restriction_outcome
  xr_action_classes :: "action_class set"
  xr_workers :: "string set"
  xr_actions :: "string set"
  xr_all_capabilities :: "action_capability set"
  xr_any_capabilities :: "action_capability set"
  xr_excluded_capabilities :: "action_capability set"
  xr_priority :: int
  xr_reason :: string

definition normalize_patterns :: "string set \<Rightarrow> string set" where
  "normalize_patterns ps = {p \<in> strip ` ps. p \<noteq> []}"

definition has_selector :: "restriction_rule \<Rightarrow> bool" where
  "has_selector r \<longleftrightarrow> xr_action_classes r \<noteq> {} \<or> xr_workers r \<noteq> {} \<or> xr_actions r \<noteq> {}
     \<or> xr_all_capabilities r \<noteq> {} \<or> xr_any_capabilities r \<noteq> {} \<or> xr_excluded_capabilities r \<noteq> {}"

definition validate_restriction_rule :: "restriction_rule \<Rightarrow> restriction_rule res" where
  "validate_restriction_rule r =
     bind_res (not_blank ''must not be blank'' (xr_id r)) (\<lambda>i.
     bind_res (not_blank ''must not be blank'' (xr_reason r)) (\<lambda>reason.
       let r1 = r\<lparr>xr_id := i, xr_reason := reason, xr_workers := normalize_patterns (xr_workers r),
                  xr_actions := normalize_patterns (xr_actions r)\<rparr>;
           overlap = (xr_all_capabilities r1 \<union> xr_any_capabilities r1) \<inter> xr_excluded_capabilities r1
       in if \<not> has_selector r1 then Inl (ValidationError ''restriction rule must define at least one selector'')
          else if overlap \<noteq> {}
          then Inl (ValidationError (''required and excluded capabilities overlap: ''
                 @ join '', '' (sorted_list_of_set (capability_value ` overlap))))
          else Inr r1))"

definition restriction_matches :: "restriction_rule \<Rightarrow> task \<Rightarrow> action_descriptor \<Rightarrow> bool" where
  "restriction_matches r t d \<longleftrightarrow>
     (xr_action_classes r = {} \<or> ad_class d \<in> xr_action_classes r)
     \<and> (xr_workers r = {} \<or> (\<exists>p \<in> xr_workers r. fnmatchcase (t_worker t) p))
     \<and> (xr_actions r = {} \<or> (\<exists>p \<in> xr_actions r. fnmatchcase (t_action t) p))
     \<and> xr_all_capabilities r \<subseteq> ad_capabilities d
     \<and> (xr_any_capabilities r = {} \<or> xr_any_capabilities r \<inter> ad_capabilities d \<noteq> {})
     \<and> xr_excluded_capabilities r \<inter> ad_capabilities d = {}"

definition nonempty :: "'a set \<Rightarrow> int" where
  "nonempty s = (if s = {} then 0 else 1)"

definition restriction_specificity :: "restriction_rule \<Rightarrow> int \<times> int" where
  "restriction_specificity r =
     (let groups = nonempty (xr_action_classes r) + nonempty (xr_workers r) + nonempty (xr_actions r)
            + nonempty (xr_all_capabilities r) + nonempty (xr_any_capabilities r)
            + nonempty (xr_excluded_capabilities r);
          tier = (if groups \<ge> 3 then COMBINED
                  else if xr_all_capabilities r \<noteq> {} \<or> xr_any_capabilities r \<noteq> {} then CAPABILITY
                  else if xr_workers r \<noteq> {} \<or> xr_actions r \<noteq> {} then WORKER_OR_ACTION
                  else if xr_action_classes r \<noteq> {} then ACTION_CLASS
                  else GENERIC);
          fine = int (card (xr_action_classes r)) + int (card (xr_workers r)) + int (card (xr_actions r))
            + int (card (xr_all_capabilities r)) + int (card (xr_any_capabilities r))
            + int (card (xr_excluded_capabilities r))
      in (specificity_value tier, fine))"

definition restriction_sort_key :: "restriction_rule \<Rightarrow> int \<times> int \<times> int \<times> int \<times> string" where
  "restriction_sort_key r =
     (xr_priority r, fst (restriction_specificity r), snd (restriction_specificity r),
      if xr_outcome r = RO_BLOCK then 2 else 1, xr_id r)"

subsection \<open>The engine\<close>

record restriction_decision =
  rx_outcome :: gate_outcome
  rx_source :: restriction_source
  rx_task_id :: string
  rx_worker :: string
  rx_action :: string
  rx_descriptor :: "action_descriptor option"
  rx_matched_rule_id :: "string option"
  rx_matched_rule_ids :: "string list"
  rx_reason :: string

definition BASELINE_BLOCKED_ACTION_CLASSES :: "action_class set" where
  "BASELINE_BLOCKED_ACTION_CLASSES = {AC_AUTHENTICATED_ACCESS, AC_CREDENTIAL_USE, AC_BRUTE_FORCE,
     AC_DESTRUCTIVE_ACTION, AC_RESOURCE_EXHAUSTION, AC_SOCIAL_ENGINEERING, AC_EXPLOITATION}"

definition BASELINE_BLOCKED_CAPABILITIES :: "action_capability set" where
  "BASELINE_BLOCKED_CAPABILITIES = {CAP_STATE_CHANGE, CAP_AUTHENTICATED_SESSION, CAP_USES_CREDENTIALS,
     CAP_ACCESSES_OTHER_USERS_DATA, CAP_PASSWORD_GUESSING, CAP_HIGH_VOLUME_GUESSING, CAP_FILE_UPLOAD,
     CAP_ACCOUNT_MODIFICATION, CAP_TRANSACTIONAL_ACTION, CAP_RESOURCE_EXHAUSTION, CAP_AVAILABILITY_IMPACT,
     CAP_SOCIAL_INTERACTION, CAP_EXPLOIT_EXECUTION}"

definition baseline_violation_reason :: "action_descriptor \<Rightarrow> string option" where
  "baseline_violation_reason d =
     (let blocked = ad_capabilities d \<inter> BASELINE_BLOCKED_CAPABILITIES;
          reasons = (if ad_class d \<in> BASELINE_BLOCKED_ACTION_CLASSES
                     then [''action_class='' @ action_class_value (ad_class d)] else [])
            @ (if blocked \<noteq> {}
               then [''capabilities='' @ join '', '' (sorted_list_of_set (capability_value ` blocked))] else [])
      in if reasons = [] then None
         else Some (''Night Scout recon-only baseline blocks this action: '' @ join ''; '' reasons))"

type_synonym restriction_engine = "(string, restriction_rule) dict"

fun add_rules :: "restriction_rule list \<Rightarrow> restriction_engine \<Rightarrow> restriction_engine res" where
  "add_rules [] engine = Inr engine"
| "add_rules (r # rs) engine =
     (if dict_get engine (xr_id r) \<noteq> None then Inl (ValueError (''duplicate restriction rule_id: '' @ xr_id r))
      else add_rules rs (dict_set (xr_id r) r engine))"

definition make_restriction_engine :: "restriction_rule list \<Rightarrow> restriction_engine res" where
  "make_restriction_engine rules = add_rules rules []"

definition restriction_decision_for ::
  "task \<Rightarrow> action_descriptor option \<Rightarrow> gate_outcome \<Rightarrow> restriction_source \<Rightarrow> string \<Rightarrow> restriction_decision" where
  "restriction_decision_for t d outcome source reason =
     \<lparr>rx_outcome = outcome, rx_source = source, rx_task_id = t_task_id t, rx_worker = t_worker t,
      rx_action = t_action t, rx_descriptor = d, rx_matched_rule_id = None, rx_matched_rule_ids = [],
      rx_reason = reason\<rparr>"

definition engine_evaluate :: "restriction_engine \<Rightarrow> task \<Rightarrow> action_descriptor \<Rightarrow> restriction_decision" where
  "engine_evaluate engine t d =
     (case baseline_violation_reason d of
        Some reason \<Rightarrow> restriction_decision_for t (Some d) G_BLOCK RS_BASELINE reason
      | None \<Rightarrow>
          (case sort_desc restriction_sort_key (filter (\<lambda>r. restriction_matches r t d) (dict_values engine)) of
             [] \<Rightarrow> restriction_decision_for t (Some d) G_ALLOW RS_DEFAULT
                    ''no baseline or program restriction matched''
           | winner # rest \<Rightarrow>
               (restriction_decision_for t (Some d)
                  (if xr_outcome winner = RO_BLOCK then G_BLOCK else G_REVIEW) RS_PROGRAM (xr_reason winner))
               \<lparr>rx_matched_rule_id := Some (xr_id winner),
                rx_matched_rule_ids := map xr_id (winner # rest)\<rparr>))"

definition restriction_rule_count :: "restriction_engine \<Rightarrow> nat" where
  "restriction_rule_count engine = length engine"

subsection \<open>The lifecycle gate\<close>

record 's review_bridge =
  rb_approved_for_task :: "task \<Rightarrow> restriction_decision \<Rightarrow> ('s, bool) op"
  rb_open_case :: "task \<Rightarrow> restriction_decision \<Rightarrow> ('s, string) op"

record 's restrictions_gate =
  rg_engine :: restriction_engine
  rg_descriptors :: "task \<Rightarrow> action_descriptor option"
  rg_recorder :: "(task \<Rightarrow> restriction_decision \<Rightarrow> ('s, unit) op) option"
  rg_review_bridge :: "'s review_bridge option"

definition restrictions_decide :: "'s restrictions_gate \<Rightarrow> task \<Rightarrow> restriction_decision" where
  "restrictions_decide g t =
     (case rg_descriptors g t of
        None \<Rightarrow> restriction_decision_for t None G_REVIEW RS_UNKNOWN_ACTION
                 ''worker/action has no registered ActionDescriptor; manual review required''
      | Some d \<Rightarrow> engine_evaluate (rg_engine g) t d)"

definition consult_bridge ::
  "'s restrictions_gate \<Rightarrow> task \<Rightarrow> restriction_decision \<Rightarrow> ('s, restriction_decision \<times> string option) op" where
  "consult_bridge g t d =
     (case rg_review_bridge g of
        None \<Rightarrow> lift_res (Inr (d, None))
      | Some b \<Rightarrow>
          if rx_outcome d \<noteq> G_REVIEW then lift_res (Inr (d, None))
          else bind_op (rb_approved_for_task b t d) (\<lambda>approved.
            if approved
            then lift_res (Inr (d\<lparr>rx_outcome := G_ALLOW,
                   rx_reason := ''program restriction was explicitly approved by human review''\<rparr>, None))
            else bind_op (rb_open_case b t d) (\<lambda>c. lift_res (Inr (d, Some c)))))"

definition restrictions_evaluate ::
  "'s restrictions_gate \<Rightarrow> task \<Rightarrow> schedule_decision \<Rightarrow> ('s, gate_decision) op" where
  "restrictions_evaluate g t schedule =
     bind_op (consult_bridge g t (restrictions_decide g t)) (\<lambda>(d, case_id).
     bind_op (case rg_recorder g of None \<Rightarrow> lift_res (Inr ()) | Some rec \<Rightarrow> rec t d) (\<lambda>_.
       lift_res (make_gate_decision (rx_outcome d)
         (Some (case case_id of None \<Rightarrow> rx_reason d | Some c \<Rightarrow> rx_reason d @ ''; case='' @ c)) case_id)))"

definition restrictions_as_gate :: "'s restrictions_gate \<Rightarrow> 's gate" where
  "restrictions_as_gate g = \<lparr>gate_name = ''RestrictionsGate'', gate_evaluate = restrictions_evaluate g\<rparr>"

subsection \<open>The bootstrap registry\<close>

definition recon_rule ::
  "string \<Rightarrow> string \<Rightarrow> string \<Rightarrow> action_class \<Rightarrow> action_capability list \<Rightarrow> string \<Rightarrow> int \<Rightarrow> descriptor_rule" where
  "recon_rule rid w a c caps desc prio =
     \<lparr>dr_id = rid, dr_worker_pattern = w, dr_action_pattern = a,
      dr_descriptor = \<lparr>ad_class = c, ad_capabilities = set caps, ad_description = Some desc\<rparr>, dr_priority = prio\<rparr>"

definition default_recon_descriptor_rules :: "descriptor_rule list" where
  "default_recon_descriptor_rules =
   [recon_rule ''passive-domains.enumerate'' ''passive_domains'' ''*'' AC_PASSIVE_DISCOVERY
      [CAP_PASSIVE_ONLY, CAP_READ_ONLY] ''Passive domain/subdomain discovery'' 0,
    recon_rule ''permutations.generate'' ''permutations'' ''*'' AC_PASSIVE_DISCOVERY
      [CAP_PASSIVE_ONLY, CAP_READ_ONLY, CAP_LOCAL_STATIC_ANALYSIS]
      ''Local bounded hostname hypothesis generation from wordlists and learned naming patterns'' 0,
    recon_rule ''dns.query'' ''dns'' ''*'' AC_DNS_QUERY [CAP_ACTIVE_NETWORK, CAP_READ_ONLY]
      ''Read-only DNS resolution/querying'' 0,
    recon_rule ''http.probe'' ''http'' ''*'' AC_HTTP_PROBE [CAP_ACTIVE_NETWORK, CAP_READ_ONLY]
      ''Read-only HTTP service probing'' 0,
    recon_rule ''tls.inspect'' ''tls'' ''*'' AC_TLS_INSPECTION [CAP_ACTIVE_NETWORK, CAP_READ_ONLY]
      ''TLS/certificate inspection'' 0,
    recon_rule ''asn.passive'' ''asn'' ''*'' AC_PASSIVE_DISCOVERY [CAP_PASSIVE_ONLY, CAP_READ_ONLY]
      ''Passive ASN/network relationship discovery'' 0,
    recon_rule ''archives.lookup'' ''archives'' ''*'' AC_ARCHIVE_LOOKUP
      [CAP_PASSIVE_ONLY, CAP_READ_ONLY, CAP_HISTORICAL_DATA] ''Public historical/archive lookup'' 0,
    recon_rule ''crawler.crawl'' ''crawler'' ''*'' AC_CRAWL [CAP_ACTIVE_NETWORK, CAP_READ_ONLY]
      ''Read-only web crawling'' 0,
    recon_rule ''javascript.analyze'' ''javascript'' ''*'' AC_JAVASCRIPT_ANALYSIS
      [CAP_PASSIVE_ONLY, CAP_READ_ONLY] ''Local/static JavaScript analysis'' 0,
    recon_rule ''vhost.discover'' ''vhost'' ''*'' AC_VHOST_DISCOVERY
      [CAP_ACTIVE_NETWORK, CAP_READ_ONLY, CAP_HOST_HEADER_VARIATION] ''Read-only virtual-host discovery'' 0,
    recon_rule ''content.fetch-javascript'' ''content'' ''fetch_javascript'' AC_HTTP_PROBE
      [CAP_ACTIVE_NETWORK, CAP_READ_ONLY]
      ''Single unauthenticated read-only JavaScript content materialization'' 100,
    recon_rule ''content.discover'' ''content'' ''*'' AC_CONTENT_DISCOVERY
      [CAP_ACTIVE_NETWORK, CAP_READ_ONLY, CAP_DIRECTORY_ENUMERATION]
      ''Rate-limited read-only content discovery'' 0,
    recon_rule ''parameters.discover'' ''parameters'' ''*'' AC_PARAMETER_DISCOVERY
      [CAP_ACTIVE_NETWORK, CAP_READ_ONLY, CAP_PARAMETER_ENUMERATION] ''Read-only parameter discovery'' 0,
    recon_rule ''mobile.static'' ''mobile'' ''*'' AC_MOBILE_STATIC_ANALYSIS
      [CAP_PASSIVE_ONLY, CAP_READ_ONLY, CAP_LOCAL_STATIC_ANALYSIS]
      ''Local static analysis of mobile artifacts'' 0,
    recon_rule ''fingerprints.analyze'' ''fingerprints'' ''*'' AC_FINGERPRINTING
      [CAP_PASSIVE_ONLY, CAP_READ_ONLY] ''Fingerprint comparison/analysis'' 0,
    recon_rule ''nuclei.validate-cve'' ''nuclei'' ''validate_cve'' AC_VULNERABILITY_VALIDATION
      [CAP_ACTIVE_NETWORK, CAP_READ_ONLY, CAP_AUDITED_TEMPLATE_EXECUTION]
      ''Read-only validation using one locally audited, hash-pinned Nuclei HTTP template'' 100]"

end
