(* ===== verification/Precedence.thy ===== *)
theory Precedence
  imports Prelude
begin

section \<open>Rule precedence\<close>

text \<open>
  The interface the rule engines share: among the rules that match, the one with the greatest sort key
  decides. \<open>key\<close> is the sort key and \<open>rid\<close> the identifier of a rule; the law is that the key ends in the
  identifier, which makes the precedence total. The facts: the winner is a greatest matching rule, none is
  chosen only when none matches, and the order of registration is irrelevant.
\<close>

locale precedence =
  fixes key :: "'r \<Rightarrow> 'k::linorder" and rid :: "'r \<Rightarrow> string"
  assumes key_rid: "key a = key b \<Longrightarrow> rid a = rid b"
begin

lemma none_iff: "sort_desc key (filter p rs) = [] \<longleftrightarrow> (\<forall>r \<in> set rs. \<not> p r)"
  by (simp add: filter_empty_conv)

lemma winner:
  assumes "sort_desc key (filter p rs) = w # rest"
  shows "w \<in> set rs \<and> p w \<and> (\<forall>r \<in> set rs. p r \<longrightarrow> key r \<le> key w)"
proof -
  have hd: "hd (sort_desc key (filter p rs)) = w" by (simp add: assms)
  have "filter p rs \<noteq> []" using assms by (metis list.distinct(1) sort_desc_Nil_iff)
  then have "w \<in> set (filter p rs)" using sort_desc_hd_mem hd by metis
  moreover have "key r \<le> key w" if "r \<in> set rs" "p r" for r
    using sort_desc_hd_max[of r "filter p rs" key] that hd by simp
  ultimately show ?thesis by simp
qed

lemma inj_key: "distinct (map rid rs) \<Longrightarrow> inj_on key (set rs)"
  by (rule inj_onI) (metis distinct_map inj_onD key_rid)

lemma order_free:
  assumes "distinct (map rid rs)" and "mset rs = mset rs'"
  shows "sort_desc key (filter p rs) = sort_desc key (filter p rs')"
proof -
  let ?a = "rev (filter p rs)" and ?b = "rev (filter p rs')"
  have inj: "inj_on key (set ?a)"
    by (rule inj_on_subset[OF inj_key[OF assms(1)]]) auto
  have "mset (filter p rs) = mset (filter p rs')" by (simp only: mset_filter assms(2))
  then have "mset ?a = mset (sort_key key ?b)" by (simp only: mset_rev mset_sort)
  then have "sort_key key ?a = sort_key key ?b"
    using inj by (rule sort_key_inj_key_eq) (rule sorted_sort_key)
  then show ?thesis by (simp only: sort_desc_def)
qed

text \<open>The winner is the only greatest rule, so a rule that beats every matching rule wins.\<close>

lemma wins:
  assumes "distinct (map rid rs)" and "w \<in> set rs" and "p w" and "\<forall>r \<in> set rs. p r \<longrightarrow> key r \<le> key w"
  shows "\<exists>rest. sort_desc key (filter p rs) = w # rest"
proof (cases "sort_desc key (filter p rs)")
  case Nil
  then have "\<forall>r \<in> set rs. \<not> p r" by (rule none_iff[THEN iffD1])
  with assms(2,3) show ?thesis by blast
next
  case (Cons v rest)
  from winner[OF this] have v: "v \<in> set rs" "p v" "\<forall>r \<in> set rs. p r \<longrightarrow> key r \<le> key v" by blast+
  have "key w \<le> key v" using v(3) assms(2,3) by blast
  moreover have "key v \<le> key w" using assms(4) v(1,2) by blast
  ultimately have "key v = key w" by (rule order.antisym[rotated])
  then have "v = w" using inj_key[OF assms(1)] v(1) assms(2) by (blast dest: inj_onD)
  with Cons show ?thesis by blast
qed

end

end
