(* ===== verification/Restrictions_Properties.thy ===== *)
theory Restrictions_Properties
  imports Restrictions Precedence
begin

section \<open>The restriction properties\<close>

text \<open>
  The precedence interface interpreted on descriptor rules and on program rules, the engine as the list of
  its rules, and the properties of the gate: the baseline cannot be lifted, an ALLOW has a reason, the
  winning rule is the greatest, and the bootstrap registry is recon-only.
\<close>

interpretation descriptor_rules: precedence descriptor_sort_key dr_id
  by unfold_locales (simp add: descriptor_sort_key_def)

interpretation program_rules: precedence restriction_sort_key xr_id
  by unfold_locales (simp add: restriction_sort_key_def)

subsection \<open>The engine is the list of its rules\<close>

lemma add_rules_Inr:
  "add_rules rs e = Inr e' \<Longrightarrow> distinct (map fst e) \<Longrightarrow>
   e' = e @ map (\<lambda>r. (xr_id r, r)) rs \<and> distinct (map fst e')"
proof (induction rs arbitrary: e)
  case (Cons r rs)
  have fresh: "dict_get e (xr_id r) = None"
    using Cons.prems(1) by (cases "dict_get e (xr_id r)") simp_all
  then have rest: "add_rules rs (dict_set (xr_id r) r e) = Inr e'" using Cons.prems(1) by simp
  have "dict_ok (dict_set (xr_id r) r e)" using Cons.prems(2) by (rule dict_ok_set)
  from Cons.IH[OF rest this] fresh show ?case
    unfolding dict_set_fresh[OF fresh] list.map append_assoc append.simps by blast
qed simp

lemma make_engine:
  assumes "make_restriction_engine rs = Inr e"
  shows "dict_values e = rs \<and> distinct (map xr_id rs)"
proof -
  have e: "e = map (\<lambda>r. (xr_id r, r)) rs" "distinct (map fst e)"
    using add_rules_Inr[OF assms[unfolded make_restriction_engine_def], THEN conjunct1]
      add_rules_Inr[OF assms[unfolded make_restriction_engine_def], THEN conjunct2] by auto
  have "map fst (map (\<lambda>r. (xr_id r, r)) rs) = map xr_id rs" "map snd (map (\<lambda>r. (xr_id r, r)) rs) = rs"
    by (induction rs) auto
  with e show ?thesis by metis
qed

lemma make_engine_iff: "(\<exists>e. make_restriction_engine rs = Inr e) \<longleftrightarrow> distinct (map xr_id rs)"
proof -
  have "\<exists>e'. add_rules rs e = Inr e'"
    if "distinct (map xr_id rs)" "\<forall>r \<in> set rs. dict_get e (xr_id r) = None" for e
    using that
  proof (induction rs arbitrary: e)
    case (Cons a rs)
    have "\<exists>e'. add_rules rs (dict_set (xr_id a) a e) = Inr e'"
    proof (rule Cons.IH)
      have "xr_id a \<notin> xr_id ` set rs" using Cons.prems(1) by simp
      then have "xr_id r \<noteq> xr_id a" if "r \<in> set rs" for r using that by (metis imageI)
      then show "\<forall>r \<in> set rs. dict_get (dict_set (xr_id a) a e) (xr_id r) = None" using Cons.prems(2) by simp
    qed (use Cons.prems in simp)
    then show ?case using Cons.prems by simp
  qed simp
  from this[of "[]"] show ?thesis using make_engine unfolding make_restriction_engine_def by auto
qed

definition recon_only :: "action_descriptor \<Rightarrow> bool" where
  "recon_only d \<longleftrightarrow> ad_class d \<notin> BASELINE_BLOCKED_ACTION_CLASSES
     \<and> ad_capabilities d \<inter> BASELINE_BLOCKED_CAPABILITIES = {}"

lemma baseline_reason: "baseline_violation_reason d = None \<longleftrightarrow> recon_only d"
  by (simp add: baseline_violation_reason_def recon_only_def Let_def)

lemma engine_evaluate_cases:
  "(\<not> recon_only d \<longrightarrow> rx_outcome (engine_evaluate e t d) = G_BLOCK)
   \<and> (recon_only d \<longrightarrow>
       (rx_outcome (engine_evaluate e t d) = G_ALLOW \<longleftrightarrow> (\<forall>r \<in> set (dict_values e). \<not> restriction_matches r t d)))
   \<and> rx_outcome (engine_evaluate e t d) \<noteq> G_DEFER"
proof (cases "baseline_violation_reason d")
  case None
  show ?thesis
  proof (cases "sort_desc restriction_sort_key (filter (\<lambda>r. restriction_matches r t d) (dict_values e))")
    case Nil
    then have "\<forall>r \<in> set (dict_values e). \<not> restriction_matches r t d"
      by (rule program_rules.none_iff[THEN iffD1])
    moreover have "rx_outcome (engine_evaluate e t d) = G_ALLOW"
      unfolding engine_evaluate_def None Nil by (simp add: restriction_decision_for_def)
    moreover have "recon_only d" using None by (simp add: baseline_reason)
    ultimately show ?thesis by simp
  next
    case (Cons w rest)
    from program_rules.winner[OF this] have "\<exists>r \<in> set (dict_values e). restriction_matches r t d" by blast
    moreover have "rx_outcome (engine_evaluate e t d) = (if xr_outcome w = RO_BLOCK then G_BLOCK else G_REVIEW)"
      unfolding engine_evaluate_def None Cons by (simp add: restriction_decision_for_def)
    moreover have "recon_only d" using None by (simp add: baseline_reason)
    ultimately show ?thesis by auto
  qed
next
  case (Some reason)
  then have "\<not> recon_only d" by (simp flip: baseline_reason)
  with Some show ?thesis by (simp add: engine_evaluate_def restriction_decision_for_def)
qed

lemma engine_winner:
  assumes "make_restriction_engine rs = Inr e" and "recon_only d" and "w \<in> set rs" and "restriction_matches w t d"
    and "\<forall>r \<in> set rs. restriction_matches r t d \<longrightarrow> restriction_sort_key r \<le> restriction_sort_key w"
  shows "rx_outcome (engine_evaluate e t d) = (if xr_outcome w = RO_BLOCK then G_BLOCK else G_REVIEW)
    \<and> rx_matched_rule_id (engine_evaluate e t d) = Some (xr_id w)"
proof -
  note e = make_engine[OF assms(1)]
  from program_rules.wins[OF _ assms(3,4,5)] e obtain rest where
    "sort_desc restriction_sort_key (filter (\<lambda>r. restriction_matches r t d) (dict_values e)) = w # rest" by auto
  moreover have "baseline_violation_reason d = None" using assms(2) by (simp add: baseline_reason)
  ultimately show ?thesis unfolding engine_evaluate_def by (simp add: restriction_decision_for_def)
qed

subsection \<open>The gate\<close>

definition unrestricted :: "'s restrictions_gate \<Rightarrow> task \<Rightarrow> bool" where
  "unrestricted g t \<longleftrightarrow> (\<exists>d. rg_descriptors g t = Some d \<and> recon_only d
     \<and> (\<forall>r \<in> set (dict_values (rg_engine g)). \<not> restriction_matches r t d))"

definition approved_by_review :: "'s restrictions_gate \<Rightarrow> task \<Rightarrow> 's \<Rightarrow> bool" where
  "approved_by_review g t s \<longleftrightarrow> rx_outcome (restrictions_decide g t) = G_REVIEW
     \<and> (\<exists>b s1. rg_review_bridge g = Some b \<and> rb_approved_for_task b t (restrictions_decide g t) s = (Inr True, s1))"

lemma decide_outcome:
  "rx_outcome (restrictions_decide g t) = G_ALLOW \<longleftrightarrow> unrestricted g t"
  "rx_outcome (restrictions_decide g t) \<noteq> G_DEFER"
  "rg_descriptors g t = Some d \<Longrightarrow> \<not> recon_only d \<Longrightarrow> rx_outcome (restrictions_decide g t) = G_BLOCK"
proof -
  show "rx_outcome (restrictions_decide g t) = G_ALLOW \<longleftrightarrow> unrestricted g t"
  proof (cases "rg_descriptors g t")
    case (Some d)
    then show ?thesis
      using engine_evaluate_cases[of d "rg_engine g" t]
      by (cases "recon_only d") (simp_all add: restrictions_decide_def unrestricted_def)
  qed (simp add: restrictions_decide_def unrestricted_def restriction_decision_for_def)
  show "rx_outcome (restrictions_decide g t) \<noteq> G_DEFER"
    using engine_evaluate_cases[of _ "rg_engine g" t]
    by (cases "rg_descriptors g t") (simp_all add: restrictions_decide_def restriction_decision_for_def)
  show "rg_descriptors g t = Some d \<Longrightarrow> \<not> recon_only d \<Longrightarrow> rx_outcome (restrictions_decide g t) = G_BLOCK"
    using engine_evaluate_cases[of d "rg_engine g" t] by (simp add: restrictions_decide_def)
qed

lemma bridge_outcome:
  assumes "consult_bridge g t d s = (Inr (d', c), s')"
  shows "rx_outcome d' = (if rx_outcome d = G_REVIEW
      \<and> (\<exists>b s1. rg_review_bridge g = Some b \<and> rb_approved_for_task b t d s = (Inr True, s1)) then G_ALLOW else rx_outcome d)
    \<and> (c \<noteq> None \<longrightarrow> rx_outcome d' = G_REVIEW)"
  using assms
  by (auto simp: consult_bridge_def bind_op_def split: option.splits if_splits prod.splits sum.splits)

lemma restrictions_outcome:
  assumes "restrictions_evaluate g t sched s = (Inr gd, s')"
  shows "gd_outcome gd = (if approved_by_review g t s then G_ALLOW else rx_outcome (restrictions_decide g t))"
proof -
  from assms obtain d c s1 where b: "consult_bridge g t (restrictions_decide g t) s = (Inr (d, c), s1)"
    and o: "gd_outcome gd = rx_outcome d"
    unfolding restrictions_evaluate_def bind_op_Inr_iff
    by (clarsimp split: prod.splits simp: bind_op_Inr_iff make_gate_decision_Inr lift_res_def)
  from bridge_outcome[OF b] o show ?thesis by (simp add: approved_by_review_def)
qed

subsection \<open>Samples\<close>

definition dns_descriptor :: action_descriptor where
  "dns_descriptor = \<lparr>ad_class = AC_DNS_QUERY, ad_capabilities = {CAP_ACTIVE_NETWORK, CAP_READ_ONLY}, ad_description = None\<rparr>"

definition exploit_descriptor :: action_descriptor where
  "exploit_descriptor = \<lparr>ad_class = AC_HTTP_PROBE, ad_capabilities = {CAP_EXPLOIT_EXECUTION}, ad_description = None\<rparr>"

definition class_rule :: "string \<Rightarrow> restriction_outcome \<Rightarrow> int \<Rightarrow> restriction_rule" where
  "class_rule i oc prio = \<lparr>xr_id = i, xr_outcome = oc, xr_action_classes = {AC_DNS_QUERY}, xr_workers = {},
     xr_actions = {}, xr_all_capabilities = {}, xr_any_capabilities = {}, xr_excluded_capabilities = {},
     xr_priority = prio, xr_reason = ''policy''\<rparr>"

definition open_gate :: "action_descriptor option \<Rightarrow> nat restrictions_gate" where
  "open_gate d = \<lparr>rg_engine = [(''b'', class_rule ''b'' RO_REVIEW 0)], rg_descriptors = (\<lambda>_. d), rg_recorder = None,
     rg_review_bridge = Some \<lparr>rb_approved_for_task = (\<lambda>_ _ s. (Inr True, s)), rb_open_case = (\<lambda>_ _ s. (Inr ''c'', s))\<rparr>\<rparr>"

definition any_task :: task where
  "any_task = default_task 1 0 ''dns'' ''resolve'' ''evt_1''"

lemma sample_descriptors [simp]: "recon_only dns_descriptor" "\<not> recon_only exploit_descriptor"
  by (simp_all add: recon_only_def dns_descriptor_def exploit_descriptor_def
      BASELINE_BLOCKED_ACTION_CLASSES_def BASELINE_BLOCKED_CAPABILITIES_def)

lemma class_rule_matches [simp]: "restriction_matches (class_rule i oc p) t dns_descriptor"
  by (simp add: restriction_matches_def class_rule_def dns_descriptor_def)

lemma class_rule_key [simp]:
  "restriction_sort_key (class_rule i oc p) = (p, 20, 1, if oc = RO_BLOCK then 2 else 1, i)"
  by (simp add: restriction_sort_key_def restriction_specificity_def class_rule_def nonempty_def)

lemma class_rule_fields [simp]: "xr_id (class_rule i oc p) = i" "xr_outcome (class_rule i oc p) = oc"
  "xr_priority (class_rule i oc p) = p"
  by (simp_all add: class_rule_def)

subsection \<open>The properties\<close>

text \<open>C23: the restrictions gate lets a task pass only with a reason: either its descriptor respects the
  recon-only baseline and no program rule matches, or the decision was REVIEW and the human review
  approved it. A descriptor that violates the baseline is blocked whatever the rules and the reviewers
  say, and the gate never defers.\<close>

theorem restrictions_gate_sound:
  assumes "restrictions_evaluate g t sched s = (Inr gd, s')"
  shows "(gd_outcome gd = G_ALLOW \<longleftrightarrow> unrestricted g t \<or> approved_by_review g t s)
    \<and> (\<forall>d. rg_descriptors g t = Some d \<and> \<not> recon_only d \<longrightarrow> gd_outcome gd = G_BLOCK)
    \<and> gd_outcome gd \<noteq> G_DEFER"
  using restrictions_outcome[OF assms] decide_outcome[of g t]
  by (auto simp: approved_by_review_def)

theorem restrictions_gate_sound_witness:
  "gd_outcome (case restrictions_evaluate (open_gate (Some exploit_descriptor)) any_task
      (build_decision (\<lambda>x. x) default_scheduler_config any_task default_signals 0) 0 of (Inr gd, _) \<Rightarrow> gd) = G_BLOCK"
proof -
  let ?g = "open_gate (Some exploit_descriptor)"
  let ?sched = "build_decision (\<lambda>x. x) default_scheduler_config any_task default_signals 0"
  have dec: "rx_outcome (restrictions_decide ?g any_task) = G_BLOCK"
    by (rule decide_outcome(3)[of _ _ exploit_descriptor]) (simp_all add: open_gate_def)
  then have "\<exists>gd. restrictions_evaluate ?g any_task ?sched 0 = (Inr gd, 0)"
    by (simp add: restrictions_evaluate_def consult_bridge_def open_gate_def bind_op_def
        make_gate_decision_def validate_gate_decision_def)
  then obtain gd where r: "restrictions_evaluate ?g any_task ?sched 0 = (Inr gd, 0)" by blast
  have "rg_descriptors ?g any_task = Some exploit_descriptor" by (simp add: open_gate_def)
  with restrictions_gate_sound[OF r] r show ?thesis by simp
qed

text \<open>The program rule that decides is the greatest matching rule by priority, specificity, safety of
  its outcome and identifier; BLOCK therefore wins over REVIEW when priority and specificity tie, and the
  order in which the rules are registered never matters.\<close>

theorem restriction_precedence:
  assumes "make_restriction_engine rules = Inr e" and "recon_only d"
  shows "(\<forall>w \<in> set rules. restriction_matches w t d
        \<and> (\<forall>r \<in> set rules. restriction_matches r t d \<longrightarrow> restriction_sort_key r \<le> restriction_sort_key w) \<longrightarrow>
        rx_outcome (engine_evaluate e t d) = (if xr_outcome w = RO_BLOCK then G_BLOCK else G_REVIEW)
        \<and> rx_matched_rule_id (engine_evaluate e t d) = Some (xr_id w))
    \<and> (\<forall>rules' e'. mset rules' = mset rules \<and> make_restriction_engine rules' = Inr e' \<longrightarrow>
        engine_evaluate e' t d = engine_evaluate e t d)"
proof -
  have "engine_evaluate e' t d = engine_evaluate e t d"
    if "mset rules' = mset rules" "make_restriction_engine rules' = Inr e'" for rules' e'
  proof -
    have "dict_values e' = rules'" "dict_values e = rules" "distinct (map xr_id rules')"
      using make_engine[OF that(2)] make_engine[OF assms(1)] by auto
    then show ?thesis
      unfolding engine_evaluate_def by (simp only: program_rules.order_free[OF _ that(1)])
  qed
  then show ?thesis using engine_winner[OF assms] by blast
qed

theorem restriction_precedence_witness:
  "rx_outcome (engine_evaluate [(''a'', class_rule ''a'' RO_BLOCK 5), (''b'', class_rule ''b'' RO_REVIEW 5)]
     any_task dns_descriptor) = G_BLOCK"
proof -
  have "make_restriction_engine [class_rule ''a'' RO_BLOCK 5, class_rule ''b'' RO_REVIEW 5]
      = Inr [(''a'', class_rule ''a'' RO_BLOCK 5), (''b'', class_rule ''b'' RO_REVIEW 5)]"
    by (simp add: make_restriction_engine_def)
  from restriction_precedence[OF this sample_descriptors(1), of any_task] show ?thesis by simp
qed

text \<open>C38: precedence can weaken a block: a REVIEW rule whose priority is above every other rule's turns a
  task that the program rules block into one that a human approval lets through, although the engine is
  documented to return the most restrictive applicable decision.\<close>

theorem review_rule_lifts_block:
  assumes "make_restriction_engine rules = Inr e" and "make_restriction_engine (rules @ [r]) = Inr e'"
    and "recon_only d" and "rx_outcome (engine_evaluate e t d) = G_BLOCK"
    and "xr_outcome r = RO_REVIEW" and "restriction_matches r t d"
    and "\<forall>x \<in> set rules. xr_priority x < xr_priority r"
  shows "rx_outcome (engine_evaluate e' t d) = G_REVIEW"
proof -
  have "\<forall>x \<in> set (rules @ [r]). restriction_matches x t d \<longrightarrow> restriction_sort_key x \<le> restriction_sort_key r"
    using assms(7) by (auto simp: restriction_sort_key_def)
  from engine_winner[OF assms(2,3) _ assms(6) this] assms(5) show ?thesis by simp
qed

theorem review_rule_lifts_block_witness:
  "rx_outcome (engine_evaluate [(''a'', class_rule ''a'' RO_BLOCK 5)] any_task dns_descriptor) = G_BLOCK
   \<and> rx_outcome (engine_evaluate [(''a'', class_rule ''a'' RO_BLOCK 5), (''b'', class_rule ''b'' RO_REVIEW 6)]
        any_task dns_descriptor) = G_REVIEW"
proof -
  let ?a = "class_rule ''a'' RO_BLOCK 5" and ?b = "class_rule ''b'' RO_REVIEW 6"
  have e: "make_restriction_engine [?a] = Inr [(''a'', ?a)]"
      "make_restriction_engine ([?a] @ [?b]) = Inr [(''a'', ?a), (''b'', ?b)]"
    by (simp_all add: make_restriction_engine_def)
  have b: "rx_outcome (engine_evaluate [(''a'', ?a)] any_task dns_descriptor) = G_BLOCK"
    using engine_winner[OF e(1) sample_descriptors(1), of ?a any_task] by simp
  from review_rule_lifts_block[OF e sample_descriptors(1) b] b show ?thesis by simp
qed

lemma in_default_rules:
  assumes "descriptor_for default_recon_descriptor_rules t = Some d"
  shows "\<exists>r \<in> set default_recon_descriptor_rules. d = dr_descriptor r"
proof -
  from assms obtain r rest where
    "sort_desc descriptor_sort_key (filter (\<lambda>r. descriptor_rule_matches r t) default_recon_descriptor_rules) = r # rest"
    and d: "d = dr_descriptor r" by (auto simp: descriptor_for_def split: list.splits)
  from descriptor_rules.winner[OF this(1)] d show ?thesis by blast
qed

definition described_workers :: "string set" where
  "described_workers = {''passive_domains'', ''permutations'', ''dns'', ''http'', ''tls'', ''asn'', ''archives'',
     ''crawler'', ''javascript'', ''vhost'', ''content'', ''parameters'', ''mobile'', ''fingerprints''}"

text \<open>The bootstrap registry is recon-only: whatever it describes respects the baseline, is read-only,
  is either passive or active and never both, and passes the descriptor's validator; it describes exactly
  the tasks of its workers, the vulnerability worker only for validating one audited template.\<close>

theorem default_registry_recon_only:
  "(\<forall>t d. descriptor_for default_recon_descriptor_rules t = Some d \<longrightarrow>
      recon_only d \<and> CAP_READ_ONLY \<in> ad_capabilities d \<and> validate_descriptor d = Inr d
      \<and> (CAP_PASSIVE_ONLY \<in> ad_capabilities d \<longleftrightarrow> CAP_ACTIVE_NETWORK \<notin> ad_capabilities d))
   \<and> (\<forall>t. descriptor_for default_recon_descriptor_rules t = None \<longleftrightarrow>
        t_worker t \<notin> described_workers \<and> \<not> (t_worker t = ''nuclei'' \<and> t_action t = ''validate_cve''))
   \<and> make_descriptor_provider default_recon_descriptor_rules = Inr default_recon_descriptor_rules"
proof (intro conjI allI impI)
  fix t
  have all: "\<forall>r \<in> set default_recon_descriptor_rules. recon_only (dr_descriptor r)
      \<and> CAP_READ_ONLY \<in> ad_capabilities (dr_descriptor r)
      \<and> (CAP_PASSIVE_ONLY \<in> ad_capabilities (dr_descriptor r) \<longleftrightarrow> CAP_ACTIVE_NETWORK \<notin> ad_capabilities (dr_descriptor r))"
    by (simp add: default_recon_descriptor_rules_def recon_rule_def recon_only_def
        BASELINE_BLOCKED_ACTION_CLASSES_def BASELINE_BLOCKED_CAPABILITIES_def)
  show "(descriptor_for default_recon_descriptor_rules t = None) =
      (t_worker t \<notin> described_workers \<and> \<not> (t_worker t = ''nuclei'' \<and> t_action t = ''validate_cve''))"
  proof -
    have "plain p" if "p \<in> {''passive_domains'', ''permutations'', ''dns'', ''http'', ''tls'', ''asn'', ''archives'',
        ''crawler'', ''javascript'', ''vhost'', ''content'', ''parameters'', ''mobile'', ''fingerprints'', ''nuclei'',
        ''validate_cve'', ''fetch_javascript''}" for p
      using that by (elim insertE) (simp_all add: plain_def)
    then have "(\<exists>r \<in> set default_recon_descriptor_rules. descriptor_rule_matches r t) \<longleftrightarrow>
        t_worker t \<in> described_workers \<or> t_worker t = ''nuclei'' \<and> t_action t = ''validate_cve''"
      by (simp add: default_recon_descriptor_rules_def recon_rule_def descriptor_rule_matches_def
          described_workers_def fnmatch_plain) blast
    moreover have "descriptor_for default_recon_descriptor_rules t = None \<longleftrightarrow>
        \<not> (\<exists>r \<in> set default_recon_descriptor_rules. descriptor_rule_matches r t)"
      using descriptor_rules.none_iff[of "\<lambda>r. descriptor_rule_matches r t" default_recon_descriptor_rules]
      unfolding descriptor_for_def
      by (cases "sort_desc descriptor_sort_key (filter (\<lambda>r. descriptor_rule_matches r t) default_recon_descriptor_rules)")
        (simp_all only: list.case, blast+)
    ultimately show ?thesis by blast
  qed
  fix d
  assume "descriptor_for default_recon_descriptor_rules t = Some d"
  then obtain r where r: "r \<in> set default_recon_descriptor_rules" "d = dr_descriptor r"
    using in_default_rules by blast
  show "recon_only d" "CAP_READ_ONLY \<in> ad_capabilities d"
    "(CAP_PASSIVE_ONLY \<in> ad_capabilities d) = (CAP_ACTIVE_NETWORK \<notin> ad_capabilities d)"
    using all r by blast+
  have "\<forall>r \<in> set default_recon_descriptor_rules. opt_text (ad_description (dr_descriptor r)) = ad_description (dr_descriptor r)
      \<and> CAP_STATE_CHANGE \<notin> ad_capabilities (dr_descriptor r)"
    by (simp add: default_recon_descriptor_rules_def recon_rule_def opt_text_def strip_def is_space_def)
  then have "opt_text (ad_description d) = ad_description d" "CAP_STATE_CHANGE \<notin> ad_capabilities d"
    using r by blast+
  then show "validate_descriptor d = Inr d"
    using \<open>(CAP_PASSIVE_ONLY \<in> ad_capabilities d) = (CAP_ACTIVE_NETWORK \<notin> ad_capabilities d)\<close>
    by (simp add: validate_descriptor_def)
next
  show "make_descriptor_provider default_recon_descriptor_rules = Inr default_recon_descriptor_rules"
    by (simp add: make_descriptor_provider_def default_recon_descriptor_rules_def recon_rule_def)
qed

theorem default_registry_recon_only_witness:
  "\<exists>d. descriptor_for default_recon_descriptor_rules any_task = Some d \<and> recon_only d"
proof -
  have "t_worker any_task = ''dns''" by (simp add: any_task_def default_task_def)
  then have "descriptor_for default_recon_descriptor_rules any_task \<noteq> None"
    using default_registry_recon_only by (simp add: described_workers_def)
  with default_registry_recon_only show ?thesis by blast
qed

end
