(* ===== verification/Review_Gate.thy ===== *)
theory Review_Gate
  imports Gates
begin

section \<open>Human review (recon/policy/review_gate.py)\<close>

text \<open>
  Review signals and the policy that decides which of them pause automation, the in-memory store of
  review cases, and the gate. \<open>digest\<close> is the hexadecimal SHA-256 of a string; it stays a parameter of
  the model, and nothing is assumed of it. The signal provider and the decision recorder are parameters of
  the gate that work on their own state \<open>'r\<close>.
\<close>

datatype review_category =
  RC_POSSIBLE_SECRET | RC_PRIVATE_DATA | RC_AUTH_BOUNDARY | RC_SCOPE_AMBIGUITY | RC_POLICY_AMBIGUITY
  | RC_HIGH_IMPACT_SURFACE | RC_SENSITIVE_ARTIFACT | RC_UNKNOWN_SENSITIVE_CONTENT

fun review_category_value :: "review_category \<Rightarrow> string" where
  "review_category_value RC_POSSIBLE_SECRET = ''POSSIBLE_SECRET''"
| "review_category_value RC_PRIVATE_DATA = ''PRIVATE_DATA''"
| "review_category_value RC_AUTH_BOUNDARY = ''AUTH_BOUNDARY''"
| "review_category_value RC_SCOPE_AMBIGUITY = ''SCOPE_AMBIGUITY''"
| "review_category_value RC_POLICY_AMBIGUITY = ''POLICY_AMBIGUITY''"
| "review_category_value RC_HIGH_IMPACT_SURFACE = ''HIGH_IMPACT_SURFACE''"
| "review_category_value RC_SENSITIVE_ARTIFACT = ''SENSITIVE_ARTIFACT''"
| "review_category_value RC_UNKNOWN_SENSITIVE_CONTENT = ''UNKNOWN_SENSITIVE_CONTENT''"

datatype review_severity = SEV_LOW | SEV_MEDIUM | SEV_HIGH | SEV_CRITICAL

fun severity_value :: "review_severity \<Rightarrow> int" where
  "severity_value SEV_LOW = 10"
| "severity_value SEV_MEDIUM = 20"
| "severity_value SEV_HIGH = 30"
| "severity_value SEV_CRITICAL = 40"

lemma severity_value_inj: "severity_value a = severity_value b \<longleftrightarrow> a = b"
  by (cases a; cases b) simp_all

text \<open>\<open>IntEnum\<close> members compare by value.\<close>

instantiation review_severity :: linorder
begin

definition "(a :: review_severity) \<le> b \<longleftrightarrow> severity_value a \<le> severity_value b"

definition "(a :: review_severity) < b \<longleftrightarrow> severity_value a < severity_value b"

instance
  by standard (auto simp: less_eq_review_severity_def less_review_severity_def severity_value_inj)

end

datatype review_case_state = RV_OPEN | RV_APPROVED | RV_BLOCKED | RV_DISMISSED

subsection \<open>Signals and policy\<close>

record review_signal =
  sig_category :: review_category
  sig_severity :: review_severity
  sig_confidence :: rat
  sig_summary :: string
  sig_source_event_id :: "string option"
  sig_evidence_fingerprint :: "string option"
  sig_tags :: "string set"

definition validate_signal :: "review_signal \<Rightarrow> review_signal res" where
  "validate_signal g =
     (if sig_confidence g < 0 \<or> sig_confidence g > 1 then Inl (ValidationError ''confidence'')
      else bind_res (not_blank ''review signal summary must not be blank'' (sig_summary g)) (\<lambda>summary.
        Inr (g\<lparr>sig_summary := summary, sig_source_event_id := opt_text (sig_source_event_id g),
          sig_evidence_fingerprint := opt_text (sig_evidence_fingerprint g),
          sig_tags := {v. \<exists>t \<in> sig_tags g. strip t \<noteq> [] \<and> v = lower (strip t)}\<rparr>)))"

definition stable_fingerprint :: "(string \<Rightarrow> string) \<Rightarrow> review_signal \<Rightarrow> string" where
  "stable_fingerprint digest g =
     (case sig_evidence_fingerprint g of
        Some f \<Rightarrow> f
      | None \<Rightarrow> digest (join ''|'' [review_category_value (sig_category g),
          (case sig_source_event_id g of None \<Rightarrow> [] | Some e \<Rightarrow> e), sig_summary g,
          join '','' (sorted_list_of_set (sig_tags g))]))"

record review_policy =
  rp_review_categories :: "review_category set"
  rp_minimum_confidence :: rat
  rp_category_minimum_confidence :: "(review_category, rat) dict"
  rp_minimum_severity :: review_severity

definition default_review_policy :: review_policy where
  "default_review_policy =
     \<lparr>rp_review_categories = {RC_POSSIBLE_SECRET, RC_PRIVATE_DATA, RC_AUTH_BOUNDARY, RC_SCOPE_AMBIGUITY,
        RC_POLICY_AMBIGUITY, RC_HIGH_IMPACT_SURFACE, RC_SENSITIVE_ARTIFACT, RC_UNKNOWN_SENSITIVE_CONTENT},
      rp_minimum_confidence = 1/2, rp_category_minimum_confidence = [], rp_minimum_severity = SEV_MEDIUM\<rparr>"

definition validate_review_policy :: "review_policy \<Rightarrow> review_policy res" where
  "validate_review_policy p =
     (if rp_minimum_confidence p < 0 \<or> rp_minimum_confidence p > 1 then Inl (ValidationError ''minimum_confidence'')
      else case find (\<lambda>(c, x). x < 0 \<or> x > 1) (rp_category_minimum_confidence p) of
        Some (c, _) \<Rightarrow> Inl (ValidationError (''confidence threshold for '' @ review_category_value c @ '' must be 0..1''))
      | None \<Rightarrow> Inr p)"

definition requires_review :: "review_policy \<Rightarrow> review_signal \<Rightarrow> bool" where
  "requires_review p g \<longleftrightarrow> sig_category g \<in> rp_review_categories p
     \<and> \<not> sig_severity g < rp_minimum_severity p
     \<and> sig_confidence g \<ge> dict_default (rp_category_minimum_confidence p) (sig_category g) (rp_minimum_confidence p)"

subsection \<open>Cases\<close>

record review_case =
  cs_case_id :: string
  cs_task_id :: string
  cs_worker :: string
  cs_action :: string
  cs_input_event_id :: string
  cs_signal_fingerprints :: "string list"
  cs_categories :: "review_category list"
  cs_summaries :: "string list"
  cs_state :: review_case_state
  cs_opened_at :: time
  cs_resolved_at :: "time option"
  cs_resolution_reason :: "string option"

definition new_review_case_id :: "nat \<Rightarrow> string" where
  "new_review_case_id n = ''rev_'' @ uuid_hex n"

definition validate_case :: "review_case \<Rightarrow> review_case res" where
  "validate_case c =
     (if cs_signal_fingerprints c = [] then Inl (ValidationError ''review case requires at least one signal fingerprint'')
      else if cs_categories c = [] then Inl (ValidationError ''review case requires at least one category'')
      else if cs_state c = RV_OPEN
      then (if cs_resolved_at c \<noteq> None then Inl (ValidationError ''OPEN review cases cannot have resolved_at'') else Inr c)
      else if cs_resolved_at c = None then Inl (ValidationError ''resolved review cases require resolved_at'')
      else Inr c)"

record review_store =
  rv_cases :: "(string, review_case) dict"
  rv_open_keys :: "(string, string) dict"

definition empty_review_store :: review_store where
  "empty_review_store = \<lparr>rv_cases = [], rv_open_keys = []\<rparr>"

definition review_dedupe_key :: "(string \<Rightarrow> string) \<Rightarrow> string \<Rightarrow> string list \<Rightarrow> string" where
  "review_dedupe_key digest task_id fingerprints = digest (join ''|'' (task_id # fingerprints))"

definition case_fingerprints :: "(string \<Rightarrow> string) \<Rightarrow> review_signal list \<Rightarrow> string list" where
  "case_fingerprints digest signals = sorted_list_of_set (set (map (stable_fingerprint digest) signals))"

definition build_case ::
  "(string \<Rightarrow> string) \<Rightarrow> nat \<Rightarrow> time \<Rightarrow> task \<Rightarrow> review_signal list \<Rightarrow> review_case res" where
  "build_case digest uuid now t signals =
     validate_case
       \<lparr>cs_case_id = new_review_case_id uuid, cs_task_id = t_task_id t, cs_worker = t_worker t,
        cs_action = t_action t, cs_input_event_id = t_input_event_id t,
        cs_signal_fingerprints = case_fingerprints digest signals,
        cs_categories = sort_key review_category_value (dedupe (map sig_category signals)),
        cs_summaries = dedupe (map sig_summary signals), cs_state = RV_OPEN, cs_opened_at = now,
        cs_resolved_at = None, cs_resolution_reason = None\<rparr>"

definition open_existing :: "string \<Rightarrow> review_store \<Rightarrow> review_case option" where
  "open_existing key s =
     (case dict_get (rv_open_keys s) key of
        None \<Rightarrow> None
      | Some cid \<Rightarrow> (case dict_get (rv_cases s) cid of
            None \<Rightarrow> None
          | Some c \<Rightarrow> if cs_state c = RV_OPEN then Some c else None))"

definition open_or_get ::
  "(string \<Rightarrow> string) \<Rightarrow> nat \<Rightarrow> time \<Rightarrow> task \<Rightarrow> review_signal list \<Rightarrow> (review_store, review_case) op" where
  "open_or_get digest uuid now t signals s =
     (if signals = [] then (Inl (ValueError ''cannot open review case without triggering signals''), s)
      else let key = review_dedupe_key digest (t_task_id t) (case_fingerprints digest signals)
           in case open_existing key s of
             Some c \<Rightarrow> (Inr c, s)
           | None \<Rightarrow>
               (let s1 = s\<lparr>rv_open_keys := dict_pop key (rv_open_keys s)\<rparr>
                in case build_case digest uuid now t signals of
                  Inl e \<Rightarrow> (Inl e, s1)
                | Inr c \<Rightarrow> (Inr c, s1\<lparr>rv_cases := dict_set (cs_case_id c) c (rv_cases s1),
                    rv_open_keys := dict_set key (cs_case_id c) (rv_open_keys s1)\<rparr>)))"

definition get_case :: "string \<Rightarrow> review_store \<Rightarrow> review_case option" where
  "get_case cid s = dict_get (rv_cases s) cid"

definition open_cases :: "review_store \<Rightarrow> review_case list" where
  "open_cases s = sort_key (\<lambda>c. (cs_opened_at c, cs_case_id c))
     (filter (\<lambda>c. cs_state c = RV_OPEN) (dict_values (rv_cases s)))"

definition approved_for_task :: "string \<Rightarrow> string list option \<Rightarrow> review_store \<Rightarrow> review_case option" where
  "approved_for_task tid fps s =
     (case sort_desc (\<lambda>c. case cs_resolved_at c of None \<Rightarrow> cs_opened_at c | Some r \<Rightarrow> r)
         (filter (\<lambda>c. cs_task_id c = tid \<and> cs_state c = RV_APPROVED
              \<and> (case fps of None \<Rightarrow> True | Some f \<Rightarrow> cs_signal_fingerprints c = f))
           (dict_values (rv_cases s))) of
        [] \<Rightarrow> None | c # _ \<Rightarrow> Some c)"

definition resolve_case ::
  "(string \<Rightarrow> string) \<Rightarrow> time \<Rightarrow> string \<Rightarrow> review_case_state \<Rightarrow> string option \<Rightarrow> (review_store, review_case) op" where
  "resolve_case digest now cid state reason s =
     (if state = RV_OPEN then (Inl (ValueError ''resolve() requires a non-OPEN review state''), s)
      else case dict_get (rv_cases s) cid of
        None \<Rightarrow> (Inl (KeyError (''unknown review case: '' @ cid)), s)
      | Some c \<Rightarrow>
          if cs_state c \<noteq> RV_OPEN then (Inl (ValueError (''review case '' @ cid @ '' is already resolved'')), s)
          else let r = c\<lparr>cs_state := state, cs_resolved_at := Some now, cs_resolution_reason := opt_text reason\<rparr>;
                   key = review_dedupe_key digest (cs_task_id c) (cs_signal_fingerprints c)
               in (Inr r, s\<lparr>rv_cases := dict_set cid r (rv_cases s),
                    rv_open_keys := (if dict_get (rv_open_keys s) key = Some cid
                       then dict_pop key (rv_open_keys s) else rv_open_keys s)\<rparr>))"

subsection \<open>The gate\<close>

record review_evaluation =
  re_outcome :: gate_outcome
  re_task_id :: string
  re_triggering :: "review_signal list"
  re_ignored :: "review_signal list"
  re_case_id :: "string option"
  re_reason :: string

record 'r review_gate =
  vg_signals :: "task \<Rightarrow> schedule_decision \<Rightarrow> ('r, review_signal list) op"
  vg_policy :: review_policy
  vg_recorder :: "(task \<Rightarrow> review_evaluation \<Rightarrow> ('r, unit) op) option"

definition on_store :: "('s, 'a) op \<Rightarrow> ('s \<times> 'r, 'a) op" where
  "on_store m = (\<lambda>(s, r). case m s of (x, s') \<Rightarrow> (x, (s', r)))"

definition on_rest :: "('r, 'a) op \<Rightarrow> ('s \<times> 'r, 'a) op" where
  "on_rest m = (\<lambda>(s, r). case m r of (x, r') \<Rightarrow> (x, (s, r')))"

definition review_judge ::
  "(string \<Rightarrow> string) \<Rightarrow> nat \<Rightarrow> time \<Rightarrow> review_policy \<Rightarrow> task \<Rightarrow> review_signal list
    \<Rightarrow> (review_store, review_evaluation) op" where
  "review_judge digest uuid now p t signals s =
     (let triggering = filter (requires_review p) signals;
          ignored = filter (\<lambda>g. \<not> requires_review p g) signals;
          ev = \<lparr>re_outcome = G_ALLOW, re_task_id = t_task_id t, re_triggering = triggering,
                re_ignored = ignored, re_case_id = None,
                re_reason = ''no review signal met configured confidence/severity thresholds''\<rparr>
      in if triggering = [] then (Inr ev, s)
         else case approved_for_task (t_task_id t) (Some (case_fingerprints digest triggering)) s of
           Some c \<Rightarrow> (Inr (ev\<lparr>re_case_id := Some (cs_case_id c),
               re_reason := ''signals approved by human review case='' @ cs_case_id c\<rparr>), s)
         | None \<Rightarrow> bind_op (open_or_get digest uuid now t triggering) (\<lambda>c.
             lift_res (Inr (ev\<lparr>re_outcome := G_REVIEW, re_case_id := Some (cs_case_id c),
               re_reason := ''human review required; case='' @ cs_case_id c @ ''; categories=''
                 @ join '', '' (map review_category_value (cs_categories c))\<rparr>))) s)"

definition review_evaluate ::
  "(string \<Rightarrow> string) \<Rightarrow> nat \<Rightarrow> time \<Rightarrow> 'r review_gate \<Rightarrow> task \<Rightarrow> schedule_decision
    \<Rightarrow> (review_store \<times> 'r, gate_decision) op" where
  "review_evaluate digest uuid now g t schedule =
     bind_op (on_rest (vg_signals g t schedule)) (\<lambda>signals.
     bind_op (on_store (review_judge digest uuid now (vg_policy g) t signals)) (\<lambda>ev.
     bind_op (case vg_recorder g of None \<Rightarrow> lift_res (Inr ()) | Some rec \<Rightarrow> on_rest (rec t ev)) (\<lambda>_.
       lift_res (make_gate_decision (re_outcome ev) (Some (re_reason ev))
         (if re_outcome ev = G_REVIEW then re_case_id ev else None)))))"

definition no_review_signals :: "task \<Rightarrow> schedule_decision \<Rightarrow> ('r, review_signal list) op" where
  "no_review_signals t schedule = lift_res (Inr [])"

end
