(* ===== verification/Review_Properties.thy ===== *)
theory Review_Properties
  imports Review_Gate
begin

section \<open>The review properties\<close>

text \<open>
  The reachable states of the case store, its invariant (the index of open keys is exact), and the
  properties of cases and of the gate.
\<close>

declare split_paired_All [simp del] split_paired_Ex [simp del]

definition case_key :: "(string \<Rightarrow> string) \<Rightarrow> review_case \<Rightarrow> string" where
  "case_key digest c = review_dedupe_key digest (cs_task_id c) (cs_signal_fingerprints c)"

definition fresh_case :: "nat \<Rightarrow> review_store \<Rightarrow> bool" where
  "fresh_case uuid s \<longleftrightarrow> dict_get (rv_cases s) (new_review_case_id uuid) = None"

inductive review_step :: "(string \<Rightarrow> string) \<Rightarrow> review_store \<Rightarrow> review_store \<Rightarrow> bool" for digest where
  open_step: "fresh_case uuid s \<Longrightarrow> review_step digest s (snd (open_or_get digest uuid now t signals s))"
| resolve_step: "review_step digest s (snd (resolve_case digest now cid state reason s))"

abbreviation review_run :: "(string \<Rightarrow> string) \<Rightarrow> review_store \<Rightarrow> review_store \<Rightarrow> bool" where
  "review_run digest \<equiv> (review_step digest)\<^sup>*\<^sup>*"

definition review_reachable :: "(string \<Rightarrow> string) \<Rightarrow> review_store \<Rightarrow> bool" where
  "review_reachable digest s \<longleftrightarrow> review_run digest empty_review_store s"

definition cases_ok :: "(string \<Rightarrow> string) \<Rightarrow> review_store \<Rightarrow> bool" where
  "cases_ok digest s \<longleftrightarrow> (\<forall>i c. dict_get (rv_cases s) i = Some c \<longrightarrow> cs_case_id c = i \<and> validate_case c = Inr c)"

definition keys_complete :: "(string \<Rightarrow> string) \<Rightarrow> review_store \<Rightarrow> bool" where
  "keys_complete digest s \<longleftrightarrow> (\<forall>i c. dict_get (rv_cases s) i = Some c \<longrightarrow> cs_state c = RV_OPEN
     \<longrightarrow> dict_get (rv_open_keys s) (case_key digest c) = Some i)"

definition keys_sound :: "(string \<Rightarrow> string) \<Rightarrow> review_store \<Rightarrow> bool" where
  "keys_sound digest s \<longleftrightarrow> (\<forall>k i. dict_get (rv_open_keys s) k = Some i \<longrightarrow>
     (\<exists>c. dict_get (rv_cases s) i = Some c \<and> cs_state c = RV_OPEN \<and> case_key digest c = k))"

definition review_inv :: "(string \<Rightarrow> string) \<Rightarrow> review_store \<Rightarrow> bool" where
  "review_inv digest s \<longleftrightarrow> dict_ok (rv_cases s) \<and> cases_ok digest s \<and> keys_complete digest s \<and> keys_sound digest s"

lemma empty_review_inv: "review_inv digest empty_review_store"
  by (simp add: review_inv_def cases_ok_def keys_complete_def keys_sound_def empty_review_store_def)

subsection \<open>Opening a case\<close>

lemma case_fingerprints_set: "set (case_fingerprints digest signals) = stable_fingerprint digest ` set signals"
  by (simp add: case_fingerprints_def)

lemma build_case_total:
  assumes "signals \<noteq> []"
  shows "\<exists>c. build_case digest uuid now t signals = Inr c \<and> validate_case c = Inr c
    \<and> cs_case_id c = new_review_case_id uuid \<and> cs_task_id c = t_task_id t \<and> cs_state c = RV_OPEN
    \<and> cs_signal_fingerprints c = case_fingerprints digest signals
    \<and> case_key digest c = review_dedupe_key digest (t_task_id t) (case_fingerprints digest signals)"
proof -
  have "case_fingerprints digest signals \<noteq> []"
    using case_fingerprints_set[of digest signals] assms by (metis image_is_empty set_empty)
  moreover have "sort_key review_category_value (dedupe (map sig_category signals)) \<noteq> []"
    using assms by (metis length_0_conv length_sort map_is_Nil_conv set_dedupe set_empty)
  ultimately show ?thesis by (simp add: build_case_def validate_case_def case_key_def)
qed

text \<open>\<open>open_or_get\<close> either returns the open case of the key or adds one.\<close>

lemma open_cases_exact:
  assumes inv: "review_inv digest s" and "signals \<noteq> []"
    and key: "key = review_dedupe_key digest (t_task_id t) (case_fingerprints digest signals)"
  shows "(\<exists>i c. dict_get (rv_cases s) i = Some c \<and> cs_state c = RV_OPEN \<and> case_key digest c = key
            \<and> open_or_get digest uuid now t signals s = (Inr c, s))
    \<or> (dict_get (rv_open_keys s) key = None
        \<and> (\<exists>c. build_case digest uuid now t signals = Inr c \<and> cs_case_id c = new_review_case_id uuid
            \<and> open_or_get digest uuid now t signals s
              = (Inr c, s\<lparr>rv_cases := dict_set (cs_case_id c) c (rv_cases s),
                   rv_open_keys := dict_set key (cs_case_id c) (dict_pop key (rv_open_keys s))\<rparr>)))"
proof (cases "dict_get (rv_open_keys s) key")
  case None
  obtain c where c: "build_case digest uuid now t signals = Inr c" "cs_case_id c = new_review_case_id uuid"
    using build_case_total[OF assms(2)] by blast
  have "open_existing key s = None" by (simp add: open_existing_def None)
  with None c assms(2) show ?thesis by (simp add: open_or_get_def Let_def key)
next
  case (Some i)
  with inv obtain c where c: "dict_get (rv_cases s) i = Some c" "cs_state c = RV_OPEN" "case_key digest c = key"
    unfolding review_inv_def keys_sound_def by blast
  have "open_existing key s = Some c" using Some c by (simp add: open_existing_def)
  with c assms(2) show ?thesis by (auto simp: open_or_get_def Let_def key)
qed

lemma open_or_get_inv:
  assumes inv: "review_inv digest s" and fresh: "fresh_case uuid s"
  shows "review_inv digest (snd (open_or_get digest uuid now t signals s))"
proof (cases "signals = []")
  case True
  with inv show ?thesis by (simp add: open_or_get_def)
next
  case False
  define key where "key = review_dedupe_key digest (t_task_id t) (case_fingerprints digest signals)"
  from open_cases_exact[OF inv False key_def, of uuid now] show ?thesis
  proof (elim disjE exE conjE)
    fix c
    assume none: "dict_get (rv_open_keys s) key = None" and b: "build_case digest uuid now t signals = Inr c"
      and id: "cs_case_id c = new_review_case_id uuid"
      and o: "open_or_get digest uuid now t signals s
        = (Inr c, s\<lparr>rv_cases := dict_set (cs_case_id c) c (rv_cases s),
             rv_open_keys := dict_set key (cs_case_id c) (dict_pop key (rv_open_keys s))\<rparr>)"
    have c: "validate_case c = Inr c" "cs_state c = RV_OPEN" "case_key digest c = key"
      using build_case_total[OF False, of digest uuid now t] b by (auto simp: key_def)
    have free: "dict_get (rv_cases s) (cs_case_id c) = None" using fresh id by (simp add: fresh_case_def)
    have parts: "dict_ok (rv_cases s)" "cases_ok digest s" "keys_complete digest s" "keys_sound digest s"
      using inv by (auto simp: review_inv_def)
    show ?thesis unfolding o review_inv_def snd_conv
    proof (intro conjI)
      show "cases_ok digest (s\<lparr>rv_cases := dict_set (cs_case_id c) c (rv_cases s),
          rv_open_keys := dict_set key (cs_case_id c) (dict_pop key (rv_open_keys s))\<rparr>)"
        using parts(2) c(1) by (simp add: cases_ok_def)
      have "case_key digest d \<noteq> key" if "dict_get (rv_cases s) i = Some d" "cs_state d = RV_OPEN" for i d
        using parts(3) that none unfolding keys_complete_def by fastforce
      then show "keys_complete digest (s\<lparr>rv_cases := dict_set (cs_case_id c) c (rv_cases s),
          rv_open_keys := dict_set key (cs_case_id c) (dict_pop key (rv_open_keys s))\<rparr>)"
        using parts(3) c unfolding keys_complete_def by auto
      show "keys_sound digest (s\<lparr>rv_cases := dict_set (cs_case_id c) c (rv_cases s),
          rv_open_keys := dict_set key (cs_case_id c) (dict_pop key (rv_open_keys s))\<rparr>)"
        unfolding keys_sound_def
      proof (intro allI impI)
        fix k i
        assume a: "dict_get (rv_open_keys (s\<lparr>rv_cases := dict_set (cs_case_id c) c (rv_cases s),
          rv_open_keys := dict_set key (cs_case_id c) (dict_pop key (rv_open_keys s))\<rparr>)) k = Some i"
        show "\<exists>d. dict_get (rv_cases (s\<lparr>rv_cases := dict_set (cs_case_id c) c (rv_cases s),
          rv_open_keys := dict_set key (cs_case_id c) (dict_pop key (rv_open_keys s))\<rparr>)) i = Some d
            \<and> cs_state d = RV_OPEN \<and> case_key digest d = k"
        proof (cases "k = key")
          case True
          with a c show ?thesis by auto
        next
          case False
          with a have "dict_get (rv_open_keys s) k = Some i" by simp
          then obtain d where d: "dict_get (rv_cases s) i = Some d" "cs_state d = RV_OPEN" "case_key digest d = k"
            using parts(4) unfolding keys_sound_def by blast
          have "i \<noteq> cs_case_id c" using d(1) free by (metis option.distinct(1))
          with d show ?thesis by simp
        qed
      qed
    qed (simp add: parts(1))
  qed (use inv in simp)
qed

subsection \<open>Resolving a case\<close>

lemma resolve_cases:
  "resolve_case digest now cid state reason s = (x, s') \<Longrightarrow>
   (\<exists>e. x = Inl e \<and> s' = s)
   \<or> (\<exists>c. dict_get (rv_cases s) cid = Some c \<and> cs_state c = RV_OPEN \<and> state \<noteq> RV_OPEN
        \<and> x = Inr (c\<lparr>cs_state := state, cs_resolved_at := Some now, cs_resolution_reason := opt_text reason\<rparr>)
        \<and> s' = s\<lparr>rv_cases := dict_set cid (c\<lparr>cs_state := state, cs_resolved_at := Some now,
                   cs_resolution_reason := opt_text reason\<rparr>) (rv_cases s),
                 rv_open_keys := (if dict_get (rv_open_keys s) (case_key digest c) = Some cid
                    then dict_pop (case_key digest c) (rv_open_keys s) else rv_open_keys s)\<rparr>)"
  by (auto simp: resolve_case_def Let_def case_key_def split: option.splits if_split_asm)

lemma resolve_inv:
  assumes inv: "review_inv digest s"
  shows "review_inv digest (snd (resolve_case digest now cid state reason s))"
proof -
  obtain x s' where r: "resolve_case digest now cid state reason s = (x, s')" by force
  from resolve_cases[OF r] show ?thesis
  proof (elim disjE exE conjE)
    fix c :: review_case
    let ?c = "c\<lparr>cs_state := state, cs_resolved_at := Some now, cs_resolution_reason := opt_text reason\<rparr>"
    let ?key = "case_key digest c"
    let ?s = "s\<lparr>rv_cases := dict_set cid ?c (rv_cases s),
       rv_open_keys := (if dict_get (rv_open_keys s) ?key = Some cid then dict_pop ?key (rv_open_keys s) else rv_open_keys s)\<rparr>"
    assume c: "dict_get (rv_cases s) cid = Some c" "cs_state c = RV_OPEN" "state \<noteq> RV_OPEN" and s': "s' = ?s"
    have parts: "dict_ok (rv_cases s)" "cases_ok digest s" "keys_complete digest s" "keys_sound digest s"
      using inv by (auto simp: review_inv_def)
    have k: "dict_get (rv_open_keys s) ?key = Some cid" using parts(3) c unfolding keys_complete_def by blast
    have v: "cs_case_id c = cid" "validate_case c = Inr c" using parts(2) c unfolding cases_ok_def by blast+
    have "validate_case ?c = Inr ?c" using v(2) c(3) by (simp add: validate_case_def split: if_splits)
    then have 1: "cases_ok digest ?s" using parts(2) v(1) by (simp add: cases_ok_def)
    have other: "dict_get (rv_open_keys s) (case_key digest d) = Some i \<and> case_key digest d \<noteq> ?key"
      if "dict_get (rv_cases s) i = Some d" "cs_state d = RV_OPEN" "i \<noteq> cid" for i d
    proof -
      have "dict_get (rv_open_keys s) (case_key digest d) = Some i"
        using parts(3) that(1,2) unfolding keys_complete_def by blast
      with k that(3) show ?thesis by auto
    qed
    have 2: "keys_complete digest ?s"
      unfolding keys_complete_def using other c(3) k by auto
    have "i \<noteq> cid" if "dict_get (rv_open_keys s) k = Some i" "k \<noteq> ?key" for k i
      using parts(4) that c unfolding keys_sound_def by fastforce
    then have 3: "keys_sound digest ?s" using parts(4) k unfolding keys_sound_def by auto
    show ?thesis unfolding r s' snd_conv review_inv_def using 1 2 3 parts(1) by simp
  qed (use inv r in simp)
qed

lemma review_reachable_inv: "review_reachable digest s \<Longrightarrow> review_inv digest s"
  unfolding review_reachable_def
proof (induction rule: rtranclp_induct)
  case base
  show ?case by (rule empty_review_inv)
next
  case (step y z)
  then show ?case by (auto elim!: review_step.cases intro: open_or_get_inv resolve_inv)
qed

subsection \<open>A case keeps its subject, a resolved one everything\<close>

definition same_subject :: "review_case \<Rightarrow> review_case \<Rightarrow> bool" where
  "same_subject c d \<longleftrightarrow> cs_task_id d = cs_task_id c \<and> cs_signal_fingerprints d = cs_signal_fingerprints c
     \<and> cs_opened_at d = cs_opened_at c \<and> (cs_state c \<noteq> RV_OPEN \<longrightarrow> d = c)"

lemma step_keeps_case:
  assumes inv: "review_inv digest s" and step: "review_step digest s s'" and get: "get_case cid s = Some c"
  shows "\<exists>d. get_case cid s' = Some d \<and> same_subject c d"
  using step
proof cases
  case (open_step uuid now t signals)
  show ?thesis
  proof (cases "signals = []")
    case True
    with open_step get show ?thesis by (simp add: open_or_get_def same_subject_def)
  next
    case False
    from open_cases_exact[OF inv False refl, of t uuid now] open_step get show ?thesis
      by (auto simp: get_case_def same_subject_def fresh_case_def)
  qed
next
  case (resolve_step now i state reason)
  obtain x s1 where r: "resolve_case digest now i state reason s = (x, s1)" by force
  with resolve_cases[OF r] resolve_step get show ?thesis
    by (auto simp: get_case_def same_subject_def)
qed

lemma run_keeps_case:
  assumes "review_run digest s s'" and "review_inv digest s" and "get_case cid s = Some c"
  shows "review_inv digest s' \<and> (\<exists>d. get_case cid s' = Some d \<and> same_subject c d)"
  using assms
proof (induction rule: rtranclp_induct)
  case base
  then show ?case by (auto simp: same_subject_def)
next
  case (step y z)
  then obtain d where inv: "review_inv digest y" and d: "get_case cid y = Some d" "same_subject c d" by auto
  from step_keeps_case[OF inv step.hyps(2) d(1)] obtain e where "get_case cid z = Some e" "same_subject d e" by auto
  moreover have "review_inv digest z"
    using step.hyps(2) inv by (auto elim!: review_step.cases intro: open_or_get_inv resolve_inv)
  ultimately show ?case using d(2) by (auto simp: same_subject_def)
qed

subsection \<open>The verdict\<close>

lemma approved_iff:
  "approved_for_task tid (Some fps) s \<noteq> None \<longleftrightarrow>
     (\<exists>c \<in> set (dict_values (rv_cases s)). cs_task_id c = tid \<and> cs_state c = RV_APPROVED \<and> cs_signal_fingerprints c = fps)"
proof -
  let ?P = "\<lambda>c. cs_task_id c = tid \<and> cs_state c = RV_APPROVED \<and> cs_signal_fingerprints c = fps"
  let ?L = "sort_desc (\<lambda>c. case cs_resolved_at c of None \<Rightarrow> cs_opened_at c | Some r \<Rightarrow> r)
    (filter ?P (dict_values (rv_cases s)))"
  have "approved_for_task tid (Some fps) s \<noteq> None \<longleftrightarrow> ?L \<noteq> []"
    unfolding approved_for_task_def option.case
    by (cases ?L) (simp_all only: list.case list.distinct option.distinct simp_thms)
  also have "\<dots> \<longleftrightarrow> filter ?P (dict_values (rv_cases s)) \<noteq> []" by simp
  finally show ?thesis by (simp only: filter_empty_conv) blast
qed

definition human_approved :: "(string \<Rightarrow> string) \<Rightarrow> review_store \<Rightarrow> task \<Rightarrow> review_signal list \<Rightarrow> bool" where
  "human_approved digest s t signals \<longleftrightarrow>
     (\<exists>i c. get_case i s = Some c \<and> cs_task_id c = t_task_id t \<and> cs_state c = RV_APPROVED
        \<and> cs_signal_fingerprints c = case_fingerprints digest signals)"

lemma human_approved_iff:
  assumes "review_inv digest s"
  shows "human_approved digest s t signals \<longleftrightarrow>
    approved_for_task (t_task_id t) (Some (case_fingerprints digest signals)) s \<noteq> None"
proof -
  have ok: "dict_ok (rv_cases s)" using assms by (simp add: review_inv_def)
  show ?thesis
    unfolding approved_iff human_approved_def get_case_def using dict_values_get[OF ok] by blast
qed

lemma judge_cases:
  assumes inv: "review_inv digest s" and tr: "triggering = filter (requires_review p) signals"
  shows "\<exists>ev s'. review_judge digest uuid now p t signals s = (Inr ev, s')
    \<and> (if triggering = [] \<or> human_approved digest s t triggering
       then re_outcome ev = G_ALLOW \<and> s' = s
       else re_outcome ev = G_REVIEW \<and> (\<exists>c. open_or_get digest uuid now t triggering s = (Inr c, s')
              \<and> re_case_id ev = Some (cs_case_id c)))"
proof (cases "triggering = []")
  case True
  then show ?thesis using tr by (simp add: review_judge_def Let_def)
next
  case False
  show ?thesis
  proof (cases "approved_for_task (t_task_id t) (Some (case_fingerprints digest triggering)) s")
    case None
    from open_cases_exact[OF inv False refl, of t uuid now]
    obtain c s' where o: "open_or_get digest uuid now t triggering s = (Inr c, s')" by blast
    have "\<not> human_approved digest s t triggering" using None by (simp add: human_approved_iff[OF inv])
    with False None o show ?thesis by (simp add: review_judge_def Let_def flip: tr) (simp add: bind_op_def)
  next
    case (Some c)
    have "human_approved digest s t triggering" using Some by (simp add: human_approved_iff[OF inv])
    with False Some show ?thesis by (simp add: review_judge_def Let_def flip: tr)
  qed
qed

lemma opened_case:
  assumes inv: "review_inv digest s" and fresh: "fresh_case uuid s" and ne: "signals \<noteq> []"
    and o: "open_or_get digest uuid now t signals s = (Inr c, s')"
  shows "get_case (cs_case_id c) s' = Some c \<and> cs_state c = RV_OPEN
    \<and> case_key digest c = review_dedupe_key digest (t_task_id t) (case_fingerprints digest signals)
    \<and> (\<forall>i d. get_case i s' = Some d \<longrightarrow> i = cs_case_id c \<or> get_case i s = Some d)
    \<and> (get_case (cs_case_id c) s = None \<longrightarrow> cs_task_id c = t_task_id t
         \<and> cs_signal_fingerprints c = case_fingerprints digest signals)"
  using open_cases_exact[OF inv ne refl, of t uuid now]
proof (elim disjE exE conjE)
  fix i d
  assume "dict_get (rv_cases s) i = Some d" "cs_state d = RV_OPEN"
    "case_key digest d = review_dedupe_key digest (t_task_id t) (case_fingerprints digest signals)"
    "open_or_get digest uuid now t signals s = (Inr d, s)"
  then show ?thesis using o inv by (auto simp: review_inv_def cases_ok_def get_case_def)
next
  fix d
  assume b: "build_case digest uuid now t signals = Inr d" "cs_case_id d = new_review_case_id uuid"
    and "open_or_get digest uuid now t signals s = (Inr d, s\<lparr>rv_cases := dict_set (cs_case_id d) d (rv_cases s),
      rv_open_keys := dict_set (review_dedupe_key digest (t_task_id t) (case_fingerprints digest signals))
        (cs_case_id d) (dict_pop (review_dedupe_key digest (t_task_id t) (case_fingerprints digest signals)) (rv_open_keys s))\<rparr>)"
  then have "d = c" "rv_cases s' = dict_set (cs_case_id c) c (rv_cases s)" using o by auto
  then show ?thesis using build_case_total[OF ne, of digest uuid now t] b by (auto simp: get_case_def)
qed

lemma on_rest_eq: "on_rest m (s, r) = (x, (s', r')) \<longleftrightarrow> m r = (x, r') \<and> s' = s"
  by (auto simp: on_rest_def split: prod.splits)

lemma on_store_eq: "on_store m (s, r) = (x, (s', r')) \<longleftrightarrow> m s = (x, s') \<and> r' = r"
  by (auto simp: on_store_def split: prod.splits)

definition review_gate_decision :: "review_evaluation \<Rightarrow> gate_decision" where
  "review_gate_decision ev = \<lparr>gd_outcome = re_outcome ev, gd_reason = Some (re_reason ev),
     gd_review_case_id = (if re_outcome ev = G_REVIEW then re_case_id ev else None), gd_retry_after_seconds = None\<rparr>"

lemma make_review_decision:
  "make_gate_decision (re_outcome ev) (Some (re_reason ev)) (if re_outcome ev = G_REVIEW then re_case_id ev else None)
   = Inr (review_gate_decision ev)"
  by (simp add: make_gate_decision_Inr review_gate_decision_def)

text \<open>A successful evaluation is the provider's signals, the verdict on the store, and the recorder.\<close>

lemma review_evaluate_Inr:
  assumes "review_evaluate digest uuid now g t sched (s, r) = (Inr gd, (s', r'))"
    and "vg_signals g t sched r = (Inr signals, r1)"
  shows "\<exists>ev. review_judge digest uuid now (vg_policy g) t signals s = (Inr ev, s') \<and> gd = review_gate_decision ev"
proof -
  from assms(1) obtain sg u ev v w z where
    1: "on_rest (vg_signals g t sched) (s, r) = (Inr sg, u)"
    and 2: "on_store (review_judge digest uuid now (vg_policy g) t sg) u = (Inr ev, v)"
    and 3: "(case vg_recorder g of None \<Rightarrow> lift_res (Inr ()) | Some rec \<Rightarrow> on_rest (rec t ev)) v = (Inr w, z)"
    and 4: "gd = review_gate_decision ev" "z = (s', r')"
    unfolding review_evaluate_def bind_op_Inr_iff by (auto simp: make_review_decision lift_res_def)
  obtain us ur vs vr where uv: "u = (us, ur)" "v = (vs, vr)" by force
  have "sg = signals" "us = s" using 1 assms(2) unfolding uv by (auto simp: on_rest_eq)
  moreover have "review_judge digest uuid now (vg_policy g) t sg us = (Inr ev, vs)"
    using 2 unfolding uv by (simp add: on_store_eq)
  moreover have "vs = s'" using 3 unfolding uv 4(2) by (cases "vg_recorder g") (auto simp: on_rest_eq)
  ultimately show ?thesis using 4(1) by blast
qed

lemma review_evaluate_unrecorded:
  assumes "vg_signals g t sched r = (Inr signals, r1)" and "vg_recorder g = None"
    and "review_judge digest uuid now (vg_policy g) t signals s = (Inr ev, s')"
  shows "review_evaluate digest uuid now g t sched (s, r) = (Inr (review_gate_decision ev), (s', r1))"
  using assms by (simp add: review_evaluate_def bind_op_def on_rest_def on_store_def make_review_decision)

text \<open>The case a pause refers to is about the paused task and its signals, unless digests collide.\<close>

definition no_collision :: "(string \<Rightarrow> string) \<Rightarrow> review_store \<Rightarrow> task \<Rightarrow> review_signal list \<Rightarrow> bool" where
  "no_collision digest s t signals \<longleftrightarrow> (\<forall>i d. get_case i s = Some d
     \<and> case_key digest d = review_dedupe_key digest (t_task_id t) (case_fingerprints digest signals)
     \<longrightarrow> cs_task_id d = t_task_id t \<and> cs_signal_fingerprints d = case_fingerprints digest signals)"

lemma opened_subject:
  assumes inv: "review_inv digest s" and fresh: "fresh_case uuid s" and ne: "signals \<noteq> []"
    and o: "open_or_get digest uuid now t signals s = (Inr d, s1)" and nc: "no_collision digest s t signals"
  shows "cs_task_id d = t_task_id t \<and> cs_signal_fingerprints d = case_fingerprints digest signals"
proof (cases "get_case (cs_case_id d) s")
  case None
  with opened_case[OF inv fresh ne o] show ?thesis by blast
next
  case (Some e)
  have s1: "s1 = snd (open_or_get digest uuid now t signals s)" by (simp add: o)
  from step_keeps_case[OF inv open_step[OF fresh] Some, of now t signals] opened_case[OF inv fresh ne o]
  have e: "same_subject e d" unfolding s1[symmetric] by auto
  then have "case_key digest e = case_key digest d" by (simp add: case_key_def same_subject_def)
  then have "case_key digest e = review_dedupe_key digest (t_task_id t) (case_fingerprints digest signals)"
    using opened_case[OF inv fresh ne o] by simp
  with nc Some have "cs_task_id e = t_task_id t \<and> cs_signal_fingerprints e = case_fingerprints digest signals"
    unfolding no_collision_def by blast
  with e show ?thesis by (simp add: same_subject_def)
qed

lemma resolved_approval:
  assumes get: "get_case cid s = Some d" and subj: "cs_task_id d = t_task_id t" "cs_signal_fingerprints d = case_fingerprints digest signals"
    and na: "\<not> human_approved digest s t signals" and r: "resolve_case digest now cid state reason s = (Inr c, s')"
  shows "(human_approved digest s' t signals \<longleftrightarrow> state = RV_APPROVED)
    \<and> (\<exists>e. get_case cid s' = Some e \<and> cs_state e \<noteq> RV_OPEN)"
proof -
  let ?r = "d\<lparr>cs_state := state, cs_resolved_at := Some now, cs_resolution_reason := opt_text reason\<rparr>"
  have ne: "state \<noteq> RV_OPEN" and cases: "rv_cases s' = dict_set cid ?r (rv_cases s)"
    using resolve_cases[OF r] get by (auto simp: get_case_def)
  have closed: "get_case cid s' = Some ?r" by (simp add: get_case_def cases)
  have "state = RV_APPROVED" if a: "human_approved digest s' t signals"
  proof -
    from a obtain i e where e: "get_case i s' = Some e" "cs_task_id e = t_task_id t" "cs_state e = RV_APPROVED"
      "cs_signal_fingerprints e = case_fingerprints digest signals" unfolding human_approved_def by blast
    have "i = cid" using e na cases unfolding human_approved_def get_case_def by (metis dict_get_set fun_upd_apply)
    with e(1) closed have "e = ?r" by simp
    with e(3) show ?thesis by simp
  qed
  moreover have "human_approved digest s' t signals" if "state = RV_APPROVED"
    unfolding human_approved_def using closed subj that by (intro exI[of _ cid] exI[of _ ?r]) simp
  ultimately show ?thesis using closed ne by auto
qed

lemma reopened_is_new:
  assumes inv: "review_inv digest s" and fresh: "fresh_case uuid s" and ne: "signals \<noteq> []"
    and closed: "get_case cid s = Some e" "cs_state e \<noteq> RV_OPEN"
    and o: "open_or_get digest uuid now t signals s = (Inr c, s')"
  shows "cs_case_id c \<noteq> cid"
proof
  assume id: "cs_case_id c = cid"
  have s': "s' = snd (open_or_get digest uuid now t signals s)" by (simp add: o)
  from step_keeps_case[OF inv open_step[OF fresh] closed(1), of now t signals]
  obtain d where "get_case cid s' = Some d" "same_subject e d" unfolding s'[symmetric] by blast
  with opened_case[OF inv fresh ne o] id closed(2) show False by (simp add: same_subject_def)
qed

subsection \<open>Samples\<close>

definition secret_signal :: review_signal where
  "secret_signal = \<lparr>sig_category = RC_POSSIBLE_SECRET, sig_severity = SEV_HIGH, sig_confidence = 9/10,
     sig_summary = ''possible key'', sig_source_event_id = None, sig_evidence_fingerprint = Some ''fp1'', sig_tags = {}\<rparr>"

definition js_task :: task where
  "js_task = (default_task 1 0 ''javascript'' ''analyze'' ''evt_1'')\<lparr>t_task_id := ''tsk_1''\<rparr>"

lemma secret_requires_review [simp]: "requires_review default_review_policy secret_signal"
  by (simp add: requires_review_def default_review_policy_def secret_signal_def less_review_severity_def dict_default_def)

lemma empty_reachable: "review_reachable digest empty_review_store"
  by (simp add: review_reachable_def)

lemma fresh_in_empty: "fresh_case uuid empty_review_store"
  by (simp add: fresh_case_def empty_review_store_def)

lemma not_approved_empty: "\<not> human_approved digest empty_review_store t signals"
  by (simp add: human_approved_def get_case_def empty_review_store_def)

subsection \<open>The properties\<close>

text \<open>The review backlog has no duplicates and loses nothing: in every reachable state of the store two
  open cases of the same task and the same signals are the same case, and whatever happens later every
  case is still there about the same task and signals, unchanged once it has been resolved.\<close>

theorem review_backlog_exact:
  assumes "review_reachable digest s" and "review_run digest s s'"
    and "get_case i s = Some c"
  shows "(\<forall>j d. get_case j s = Some d \<and> cs_state c = RV_OPEN \<and> cs_state d = RV_OPEN
        \<and> cs_task_id d = cs_task_id c \<and> cs_signal_fingerprints d = cs_signal_fingerprints c \<longrightarrow> j = i)
    \<and> (\<exists>d. get_case i s' = Some d \<and> same_subject c d)"
proof -
  note inv = review_reachable_inv[OF assms(1)]
  have "j = i" if "get_case j s = Some d" "cs_state c = RV_OPEN" "cs_state d = RV_OPEN"
    "cs_task_id d = cs_task_id c" "cs_signal_fingerprints d = cs_signal_fingerprints c" for j d
  proof -
    have "dict_get (rv_open_keys s) (case_key digest d) = Some j" "dict_get (rv_open_keys s) (case_key digest c) = Some i"
      using inv that(1-3) assms(3) unfolding review_inv_def keys_complete_def get_case_def by blast+
    with that(4,5) show ?thesis by (simp add: case_key_def)
  qed
  with run_keeps_case[OF assms(2) inv assms(3)] show ?thesis by blast
qed

definition sample_open :: review_store where
  "sample_open = snd (open_or_get (\<lambda>x. x) 1 5 js_task [secret_signal] empty_review_store)"

definition sample_case :: review_case where
  "sample_case = the (get_case (new_review_case_id 1) sample_open)"

lemma sample_open_reachable: "review_reachable (\<lambda>x. x) sample_open"
  unfolding sample_open_def review_reachable_def
  by (rule r_into_rtranclp, rule open_step, rule fresh_in_empty)

lemma sample_open_eq:
  "open_or_get (\<lambda>x. x) 1 5 js_task [secret_signal] empty_review_store = (Inr sample_case, sample_open)"
  "get_case (new_review_case_id 1) sample_open = Some sample_case" "cs_state sample_case = RV_OPEN"
  "cs_case_id sample_case = new_review_case_id 1"
  by (simp_all add: sample_case_def sample_open_def open_or_get_def open_existing_def empty_review_store_def
      build_case_def validate_case_def get_case_def case_fingerprints_def Let_def)

theorem review_backlog_exact_witness:
  "\<exists>d. get_case (new_review_case_id 1)
      (snd (resolve_case (\<lambda>x. x) 9 (new_review_case_id 1) RV_APPROVED None sample_open)) = Some d
    \<and> same_subject sample_case d"
proof -
  have "review_run (\<lambda>x. x) sample_open (snd (resolve_case (\<lambda>x. x) 9 (new_review_case_id 1) RV_APPROVED None sample_open))"
    by (rule r_into_rtranclp) (rule resolve_step)
  from review_backlog_exact[OF sample_open_reachable this sample_open_eq(2)] show ?thesis by blast
qed

text \<open>C24: the review gate pauses exactly the follow-ups that need a human: it allows a task when no signal
  meets the policy or when a human approved exactly these signals for this task, and otherwise returns
  REVIEW with the identifier of a case that is open in the store; it never blocks and never defers.\<close>

theorem review_gate_sound:
  assumes "review_reachable digest s" and "fresh_case uuid s"
    and "vg_signals g t sched r = (Inr signals, r1)"
    and "review_evaluate digest uuid now g t sched (s, r) = (Inr gd, (s', r'))"
  shows "let triggering = filter (requires_review (vg_policy g)) signals in
      (if triggering = [] \<or> human_approved digest s t triggering
       then gd_outcome gd = G_ALLOW \<and> s' = s
       else gd_outcome gd = G_REVIEW
         \<and> (\<exists>i c. gd_review_case_id gd = Some i \<and> get_case i s' = Some c \<and> cs_state c = RV_OPEN
              \<and> case_key digest c = review_dedupe_key digest (t_task_id t) (case_fingerprints digest triggering)))"
proof -
  define triggering where tr: "triggering = filter (requires_review (vg_policy g)) signals"
  note inv = review_reachable_inv[OF assms(1)]
  from judge_cases[OF inv tr, of uuid now t] obtain ev s1 where
    j: "review_judge digest uuid now (vg_policy g) t signals s = (Inr ev, s1)"
    and ev: "if triggering = [] \<or> human_approved digest s t triggering
       then re_outcome ev = G_ALLOW \<and> s1 = s
       else re_outcome ev = G_REVIEW \<and> (\<exists>c. open_or_get digest uuid now t triggering s = (Inr c, s1)
              \<and> re_case_id ev = Some (cs_case_id c))" by blast
  from review_evaluate_Inr[OF assms(4,3)] j have gd: "gd = review_gate_decision ev" and s': "s' = s1" by auto
  show ?thesis
  proof (cases "triggering = [] \<or> human_approved digest s t triggering")
    case True
    with ev gd s' show ?thesis unfolding Let_def tr[symmetric] by (simp add: review_gate_decision_def)
  next
    case False
    with ev obtain c where c: "re_outcome ev = G_REVIEW" "re_case_id ev = Some (cs_case_id c)"
      "open_or_get digest uuid now t triggering s = (Inr c, s1)" by auto
    have ne: "triggering \<noteq> []" using False by simp
    have "gd_outcome gd = G_REVIEW" "gd_review_case_id gd = Some (cs_case_id c)"
      using c(1,2) by (simp_all add: gd review_gate_decision_def)
    with opened_case[OF inv assms(2) ne c(3)] False s' show ?thesis unfolding Let_def tr[symmetric] by auto
  qed
qed

definition sample_review_gate :: "unit review_gate" where
  "sample_review_gate = \<lparr>vg_signals = (\<lambda>_ _ r. (Inr [secret_signal], r)), vg_policy = default_review_policy, vg_recorder = None\<rparr>"

theorem review_gate_sound_witness:
  "\<exists>gd s'. review_evaluate (\<lambda>x. x) 1 5 sample_review_gate js_task
       (build_decision (\<lambda>x. x) default_scheduler_config js_task default_signals 5) (empty_review_store, ()) = (Inr gd, (s', ()))
     \<and> gd_outcome gd = G_REVIEW"
proof -
  let ?sched = "build_decision (\<lambda>x. x) default_scheduler_config js_task default_signals 5"
  have v: "vg_signals sample_review_gate js_task ?sched () = (Inr [secret_signal], ())"
    by (simp add: sample_review_gate_def)
  obtain ev s1 where "review_judge (\<lambda>x. x) 1 5 (vg_policy sample_review_gate) js_task [secret_signal] empty_review_store = (Inr ev, s1)"
    using judge_cases[OF review_reachable_inv[OF empty_reachable] refl] by blast
  from review_evaluate_unrecorded[OF v _ this]
  have "\<exists>gd s'. review_evaluate (\<lambda>x. x) 1 5 sample_review_gate js_task ?sched (empty_review_store, ()) = (Inr gd, (s', ()))"
    by (simp add: sample_review_gate_def)
  then obtain gd s' where e: "review_evaluate (\<lambda>x. x) 1 5 sample_review_gate js_task ?sched (empty_review_store, ()) = (Inr gd, (s', ()))"
    by blast
  from review_gate_sound[OF empty_reachable fresh_in_empty v e] have "gd_outcome gd = G_REVIEW"
    by (simp add: sample_review_gate_def not_approved_empty)
  with e show ?thesis by blast
qed

text \<open>A human decision settles the question it was asked: after a paused task's case is approved the
  same signals let the task pass without a new case, while after any other resolution the gate asks again
  with a case of its own. The digests of the stored cases are assumed not to collide with this one.\<close>

theorem approval_settles_review:
  assumes "review_reachable digest s" and "fresh_case uuid s"
    and "review_judge digest uuid now p t signals s = (Inr ev, s1)" and "re_outcome ev = G_REVIEW"
    and "re_case_id ev = Some cid" and "resolve_case digest now' cid state reason s1 = (Inr c, s2)"
    and "no_collision digest s t (filter (requires_review p) signals)" and "fresh_case uuid' s2"
  shows "\<exists>ev' s3. review_judge digest uuid' now'' p t signals s2 = (Inr ev', s3)
    \<and> (if state = RV_APPROVED then re_outcome ev' = G_ALLOW \<and> s3 = s2
       else re_outcome ev' = G_REVIEW \<and> re_case_id ev' \<noteq> Some cid)"
proof -
  define triggering where tr: "triggering = filter (requires_review p) signals"
  note inv = review_reachable_inv[OF assms(1)]
  from judge_cases[OF inv tr, of uuid now t] assms(3-5) obtain d where
    ne: "triggering \<noteq> []" and na: "\<not> human_approved digest s t triggering"
    and d: "open_or_get digest uuid now t triggering s = (Inr d, s1)" "cs_case_id d = cid"
    by (auto split: if_split_asm)
  note op = opened_case[OF inv assms(2) ne d(1), unfolded d(2)]
  note subject = opened_subject[OF inv assms(2) ne d(1) assms(7)[folded tr]]
  have inv1: "review_inv digest s1" using open_or_get_inv[OF inv assms(2), of now t triggering] by (simp add: d(1))
  have inv2: "review_inv digest s2" using resolve_inv[OF inv1, of now' cid state reason] by (simp add: assms(6))
  have na1: "\<not> human_approved digest s1 t triggering"
  proof
    assume "human_approved digest s1 t triggering"
    then obtain i e where e: "get_case i s1 = Some e" "cs_task_id e = t_task_id t" "cs_state e = RV_APPROVED"
      "cs_signal_fingerprints e = case_fingerprints digest triggering" unfolding human_approved_def by blast
    have "i \<noteq> cid" using e(1,3) op by auto
    with op e(1) have "get_case i s = Some e" by blast
    with na e show False unfolding human_approved_def by blast
  qed
  have get1: "get_case cid s1 = Some d" using op by blast
  note appr = resolved_approval[OF get1 subject[THEN conjunct1] subject[THEN conjunct2] na1 assms(6)]
  then obtain e where closed: "get_case cid s2 = Some e" "cs_state e \<noteq> RV_OPEN" by blast
  have "cs_case_id c' \<noteq> cid" if "open_or_get digest uuid' now'' t triggering s2 = (Inr c', s3)" for c' s3
    by (rule reopened_is_new[OF inv2 assms(8) ne closed that])
  with judge_cases[OF inv2 tr, of uuid' now'' t] ne appr show ?thesis by (auto split: if_split_asm)
qed

theorem approval_settles_review_witness:
  "\<exists>ev s3. review_judge (\<lambda>x. x) 2 9 default_review_policy js_task [secret_signal]
      (snd (resolve_case (\<lambda>x. x) 8 (new_review_case_id 1) RV_APPROVED None sample_open)) = (Inr ev, s3)
    \<and> re_outcome ev = G_ALLOW"
proof -
  let ?j = "review_judge (\<lambda>x. x) 1 5 default_review_policy js_task [secret_signal] empty_review_store"
  obtain ev where j: "?j = (Inr ev, sample_open)" "re_outcome ev = G_REVIEW" "re_case_id ev = Some (new_review_case_id 1)"
    using judge_cases[OF review_reachable_inv[OF empty_reachable] refl, where p=default_review_policy
        and signals="[secret_signal]" and uuid=1 and now=5 and t=js_task and digest="\<lambda>x. x"]
    by (auto simp: not_approved_empty sample_open_eq simp del: One_nat_def)
  obtain c s2 where r: "resolve_case (\<lambda>x. x) 8 (new_review_case_id 1) RV_APPROVED None sample_open = (Inr c, s2)"
    using sample_open_eq(2,3) by (simp add: resolve_case_def get_case_def Let_def)
  have cases: "rv_cases s2 = dict_set (new_review_case_id 1) c (rv_cases sample_open)"
    using r sample_open_eq(2,3) by (auto simp: resolve_case_def get_case_def Let_def)
  have "no_collision (\<lambda>x. x) empty_review_store js_task (filter (requires_review default_review_policy) [secret_signal])"
    by (simp add: no_collision_def get_case_def empty_review_store_def)
  note use = approval_settles_review[OF empty_reachable fresh_in_empty j r this]
  have "fresh_case 2 s2"
  proof -
    have "last (uuid_hex n) = hex_digit (n mod 16)" for n
      by (simp add: uuid_hex_def last_map last_rev upt_rec)
    from this[of 1] this[of 2] have "uuid_hex 2 \<noteq> uuid_hex 1" by (auto simp: hex_digit_def)
    moreover have "get_case i sample_open = None" if "i \<noteq> new_review_case_id 1" for i
      using opened_case[OF review_reachable_inv[OF empty_reachable] fresh_in_empty _ sample_open_eq(1)] that
      by (auto simp: sample_open_eq get_case_def empty_review_store_def)
    ultimately show ?thesis
      by (simp add: fresh_case_def cases new_review_case_id_def) (simp add: get_case_def new_review_case_id_def)
  qed
  from use[OF this, where now''=9] r show ?thesis by auto
qed

end
