(* ===== verification/Lifecycle.thy ===== *)
theory Lifecycle
  imports Gates Budget_Manager
begin

section \<open>Execution lifecycle (recon/core/lifecycle.py)\<close>

text \<open>
  Admission of a scheduled task (gates, budget, claim) and the execution of a claimed one (heartbeats,
  budget settlement, durable task state), over the queue store, the budget store and the state \<open>'x\<close> of the
  gates, the review coordinator and the attempt observer. The environment gives the clock readings, the
  random identifiers, and what the other coroutines do to the state at every suspension point
  (\<open>ev_other\<close>): an arbitrary function. How a worker ends and how many heartbeats fire before that is an
  input of the execution.
\<close>

datatype lifecycle_outcome = L_IDLE | L_DEFERRED | L_BLOCKED | L_REVIEW | L_SUCCEEDED | L_RETRY | L_FAILED | L_STALE

datatype worker_outcome = W_SUCCEEDED | W_RETRY | W_FAILED

record worker_result =
  wr_outcome :: worker_outcome
  wr_error :: "string option"
  wr_retry_after_seconds :: "rat option"

definition validate_worker_result :: "worker_result \<Rightarrow> worker_result res" where
  "validate_worker_result w =
     (if (case wr_retry_after_seconds w of None \<Rightarrow> False | Some x \<Rightarrow> x < 0)
      then Inl (ValidationError ''retry_after_seconds'')
      else if wr_outcome w = W_SUCCEEDED
      then (if wr_retry_after_seconds w \<noteq> None
            then Inl (ValidationError ''SUCCEEDED worker results cannot define retry_after_seconds'') else Inr w)
      else if strip (case wr_error w of None \<Rightarrow> [] | Some e \<Rightarrow> e) = []
      then Inl (ValidationError ''RETRY and FAILED worker results require an error message'')
      else if wr_outcome w = W_FAILED \<and> wr_retry_after_seconds w \<noteq> None
      then Inl (ValidationError ''FAILED worker results cannot define retry_after_seconds'')
      else if wr_outcome w = W_RETRY \<and> wr_retry_after_seconds w = None
      then Inl (ValidationError ''RETRY worker results require retry_after_seconds'')
      else Inr w)"

record budget_plan =
  bp_demand :: budget_demand
  bp_context :: budget_context

record recovery_result =
  rec_recovered_tasks :: int
  rec_expired_budget_reservations :: int

record lifecycle_result =
  lr_outcome :: lifecycle_outcome
  lr_task_id :: "string option"
  lr_worker :: "string option"
  lr_action :: "string option"
  lr_reason :: "string option"
  lr_schedule_score :: "rat option"
  lr_reservation_id :: "string option"
  lr_queue_status :: "task_status option"
  lr_claimed :: bool
  lr_execution_attempt :: "int option"
  lr_backpressure :: bool

definition idle_result :: lifecycle_result where
  "idle_result = \<lparr>lr_outcome = L_IDLE, lr_task_id = None, lr_worker = None, lr_action = None, lr_reason = None,
     lr_schedule_score = None, lr_reservation_id = None, lr_queue_status = None, lr_claimed = False,
     lr_execution_attempt = None, lr_backpressure = False\<rparr>"

definition validate_lifecycle_result :: "lifecycle_result \<Rightarrow> lifecycle_result res" where
  "validate_lifecycle_result r =
     (if (case lr_execution_attempt r of None \<Rightarrow> False | Some n \<Rightarrow> n < 1)
      then Inl (ValidationError ''execution_attempt'')
      else if lr_execution_attempt r \<noteq> None \<and> \<not> lr_claimed r
      then Inl (ValidationError ''execution_attempt requires claimed=true'')
      else if lr_backpressure r \<and> lr_outcome r \<noteq> L_DEFERRED
      then Inl (ValidationError ''backpressure requires outcome=DEFERRED'')
      else Inr r)"

record dispatch_ticket =
  tk_task :: task
  tk_schedule :: schedule_decision
  tk_reservation_id :: "string option"
  tk_attempt_id :: "string option"

definition validate_ticket :: "dispatch_ticket \<Rightarrow> dispatch_ticket res" where
  "validate_ticket k =
     (if t_status (tk_task k) \<noteq> RUNNING \<or> t_claim_token (tk_task k) = None
      then Inl (ValidationError ''dispatch ticket requires a claimed RUNNING task'') else Inr k)"

record 'x review_coordinator =
  co_approved_for :: "task \<Rightarrow> string \<Rightarrow> string \<Rightarrow> ('x, bool) op"
  co_open_case :: "task \<Rightarrow> string \<Rightarrow> string \<Rightarrow> ('x, string) op"

record 'x attempt_observer =
  ob_start :: "task \<Rightarrow> schedule_decision \<Rightarrow> ('x, string option) op"
  ob_finish :: "string \<Rightarrow> lifecycle_result \<Rightarrow> ('x, unit) op"

record 'x lifecycle =
  lc_gates :: "'x gate list"
  lc_planner :: "task \<Rightarrow> schedule_decision \<Rightarrow> ('x, budget_plan) op"
  lc_budgets :: budget_manager
  lc_task_lease_for :: timedelta
  lc_heartbeat_interval :: timedelta
  lc_review_coordinator :: "'x review_coordinator option"
  lc_attempt_observer :: "'x attempt_observer option"

definition default_planner :: "task \<Rightarrow> schedule_decision \<Rightarrow> ('x, budget_plan) op" where
  "default_planner t schedule =
     lift_res (Inr \<lparr>bp_demand = default_demand\<lparr>d_cost := sg_estimated_cost (sd_signals schedule)\<rparr>,
       bp_context = default_context\<rparr>)"

text \<open>The constructor: at least one gate, a positive lease and a shorter positive heartbeat.\<close>

definition make_lifecycle ::
  "'x gate list \<Rightarrow> (task \<Rightarrow> schedule_decision \<Rightarrow> ('x, budget_plan) op) option \<Rightarrow> budget_manager \<Rightarrow> timedelta
    \<Rightarrow> timedelta option \<Rightarrow> 'x review_coordinator option \<Rightarrow> 'x attempt_observer option \<Rightarrow> 'x lifecycle res" where
  "make_lifecycle gates planner budgets lease interval reviewer observer =
     (let beat = (case interval of None \<Rightarrow> round_half_even (of_int lease / 3) | Some d \<Rightarrow> d)
      in if gates = [] then Inl (ValueError ''Lifecycle requires at least one ExecutionGate'')
         else if lease \<le> 0 then Inl (ValueError ''task_lease_for must be positive'')
         else if beat \<le> 0 then Inl (ValueError ''heartbeat_interval must be positive'')
         else if beat \<ge> lease then Inl (ValueError ''heartbeat_interval must be shorter than task_lease_for'')
         else Inr \<lparr>lc_gates = gates,
                lc_planner = (case planner of None \<Rightarrow> default_planner | Some p \<Rightarrow> p), lc_budgets = budgets,
                lc_task_lease_for = lease, lc_heartbeat_interval = beat, lc_review_coordinator = reviewer,
                lc_attempt_observer = observer\<rparr>)"

subsection \<open>State and environment\<close>

record 'x life =
  lf_queue :: task_store
  lf_budgets :: budget_store
  lf_ext :: 'x

record 'x environment =
  ev_other :: "nat \<Rightarrow> 'x life \<Rightarrow> 'x life"
  ev_now :: "nat \<Rightarrow> time"
  ev_uuid :: "nat \<Rightarrow> nat"

definition on_queue :: "(task_store, 'a) op \<Rightarrow> ('x life, 'a) op" where
  "on_queue m s = (case m (lf_queue s) of (r, q) \<Rightarrow> (r, s\<lparr>lf_queue := q\<rparr>))"

definition on_budgets :: "(budget_store, 'a) op \<Rightarrow> ('x life, 'a) op" where
  "on_budgets m s = (case m (lf_budgets s) of (r, b) \<Rightarrow> (r, s\<lparr>lf_budgets := b\<rparr>))"

definition on_ext :: "('x, 'a) op \<Rightarrow> ('x life, 'a) op" where
  "on_ext m s = (case m (lf_ext s) of (r, x) \<Rightarrow> (r, s\<lparr>lf_ext := x\<rparr>))"

definition pause :: "'x environment \<Rightarrow> nat \<Rightarrow> ('x life, unit) op" where
  "pause env k s = (Inr (), ev_other env k s)"

definition fetch :: "string \<Rightarrow> ('x life, task option) op" where
  "fetch tid s = (Inr (get_task tid (lf_queue s)), s)"

text \<open>\<open>try: m except (KeyError, ValueError) as exc: h(exc)\<close>\<close>

definition caught :: "py_error \<Rightarrow> bool" where
  "caught e \<longleftrightarrow> is_key_error e \<or> is_value_error e"

definition try_except :: "('s, 'a) op \<Rightarrow> ('a \<Rightarrow> ('s, 'b) op) \<Rightarrow> (py_error \<Rightarrow> ('s, 'b) op) \<Rightarrow> ('s, 'b) op" where
  "try_except m k h s = (case m s of
     (Inr x, s') \<Rightarrow> k x s'
   | (Inl e, s') \<Rightarrow> if caught e then h e s' else (Inl e, s'))"

text \<open>\<open>with contextlib.suppress(Exception)\<close>\<close>

definition suppress :: "('s, 'a) op \<Rightarrow> ('s, unit) op" where
  "suppress m s = (case m s of
     (Inl CancelledError, s') \<Rightarrow> (Inl CancelledError, s')
   | (_, s') \<Rightarrow> (Inr (), s'))"

definition or_text :: "string option \<Rightarrow> string \<Rightarrow> string" where
  "or_text v d = (case v of None \<Rightarrow> d | Some x \<Rightarrow> if x = [] then d else x)"

definition task_result :: "task \<Rightarrow> schedule_decision \<Rightarrow> lifecycle_outcome \<Rightarrow> string option
    \<Rightarrow> task_status option \<Rightarrow> lifecycle_result" where
  "task_result t schedule outcome reason status =
     idle_result\<lparr>lr_outcome := outcome, lr_task_id := Some (t_task_id t), lr_worker := Some (t_worker t),
       lr_action := Some (t_action t), lr_reason := reason, lr_schedule_score := Some (sd_score schedule),
       lr_queue_status := status\<rparr>"

subsection \<open>Gates\<close>

definition with_case :: "string \<Rightarrow> string option \<Rightarrow> string" where
  "with_case reason case_id = (case case_id of
     None \<Rightarrow> reason
   | Some c \<Rightarrow> if contains (''case='' @ c) reason then reason else reason @ ''; case='' @ c)"

text \<open>\<open>None\<close> when the review coordinator approves; otherwise the case the review refers to.\<close>

definition coordinate ::
  "'x lifecycle \<Rightarrow> task \<Rightarrow> string \<Rightarrow> string \<Rightarrow> string option \<Rightarrow> ('x, string option option) op" where
  "coordinate lc t name reason case_id =
     (case (case_id, lc_review_coordinator lc) of
        (None, Some c) \<Rightarrow>
          bind_op (co_approved_for c t name reason) (\<lambda>approved.
            if approved then lift_res (Inr None)
            else bind_op (co_open_case c t name reason) (\<lambda>i. lift_res (Inr (Some (Some i)))))
      | _ \<Rightarrow> lift_res (Inr (Some case_id)))"

fun apply_gates ::
  "'x environment \<Rightarrow> nat \<Rightarrow> 'x lifecycle \<Rightarrow> task \<Rightarrow> schedule_decision \<Rightarrow> 'x gate list
    \<Rightarrow> ('x life, lifecycle_result option) op" where
  "apply_gates env k lc t schedule [] = lift_res (Inr None)"
| "apply_gates env k lc t schedule (g # gs) =
     bind_op (pause env k) (\<lambda>_.
     bind_op (on_ext (gate_evaluate g t schedule)) (\<lambda>d.
     case gd_outcome d of
       G_ALLOW \<Rightarrow> apply_gates env (Suc k) lc t schedule gs
     | G_DEFER \<Rightarrow>
         bind_op (on_queue (queue_defer (ev_now env k) (t_task_id t)
             (timedelta_seconds (case gd_retry_after_seconds d of None \<Rightarrow> 0 | Some x \<Rightarrow> x))
             (Some (or_text (gd_reason d) ''execution gate deferred task''))))
           (\<lambda>deferred. lift_res (Inr (Some
              (task_result t schedule L_DEFERRED (gd_reason d) (Some (t_status deferred))))))
     | G_REVIEW \<Rightarrow>
         (let reason = or_text (gd_reason d) ''manual review required'' in
          bind_op (on_ext (coordinate lc t (gate_name g) reason (gd_review_case_id d))) (\<lambda>verdict.
          case verdict of
            None \<Rightarrow> apply_gates env (Suc k) lc t schedule gs
          | Some case_id \<Rightarrow>
              bind_op (on_queue (queue_send_to_review (ev_now env k) (t_task_id t) (with_case reason case_id)))
                (\<lambda>review. lift_res (Inr (Some (task_result t schedule L_REVIEW
                   (Some (with_case reason case_id)) (Some (t_status review))))))))
     | G_BLOCK \<Rightarrow>
         bind_op (on_queue (queue_block (ev_now env k) (t_task_id t)
             (or_text (gd_reason d) ''execution gate blocked task'')))
           (\<lambda>blocked. lift_res (Inr (Some
              (task_result t schedule L_BLOCKED (gd_reason d) (Some (t_status blocked))))))))"

subsection \<open>Admission\<close>

definition start_attempt :: "'x lifecycle \<Rightarrow> task \<Rightarrow> schedule_decision \<Rightarrow> ('x life, string option) op" where
  "start_attempt lc t schedule =
     (case lc_attempt_observer lc of None \<Rightarrow> lift_res (Inr None) | Some ob \<Rightarrow> on_ext (ob_start ob t schedule))"

definition report :: "'x lifecycle \<Rightarrow> string option \<Rightarrow> lifecycle_result \<Rightarrow> ('x life, lifecycle_result) op" where
  "report lc attempt_id result =
     (case (attempt_id, lc_attempt_observer lc) of
        (Some a, Some ob) \<Rightarrow> bind_op (on_ext (ob_finish ob a result)) (\<lambda>_. lift_res (Inr result))
      | _ \<Rightarrow> lift_res (Inr result))"

definition claim_and_dispatch ::
  "'x environment \<Rightarrow> 'x lifecycle \<Rightarrow> task \<Rightarrow> schedule_decision \<Rightarrow> string option
    \<Rightarrow> ('x life, lifecycle_result + dispatch_ticket) op" where
  "claim_and_dispatch env lc t schedule reservation_id =
     bind_op (start_attempt lc t schedule) (\<lambda>attempt_id.
     bind_op (pause env 2) (\<lambda>_.
     try_except (on_queue (queue_claim (ev_uuid env 1) (ev_now env 2) (t_task_id t) (lc_task_lease_for lc)))
       (\<lambda>running. bind_op (lift_res (validate_ticket \<lparr>tk_task = running, tk_schedule = schedule,
            tk_reservation_id = reservation_id, tk_attempt_id = attempt_id\<rparr>))
          (\<lambda>ticket. lift_res (Inr (Inr ticket))))
       (\<lambda>exc.
          bind_op (case reservation_id of None \<Rightarrow> lift_res (Inr ())
            | Some rid \<Rightarrow> bind_op (on_budgets (budget_release rid)) (\<lambda>_. lift_res (Inr ()))) (\<lambda>_.
          bind_op (fetch (t_task_id t)) (\<lambda>current.
          bind_op (report lc attempt_id (task_result t schedule L_STALE
              (Some (''task could not be claimed: '' @ exc_str exc)) (map_option t_status current)))
            (\<lambda>r. lift_res (Inr (Inl r))))))))"

definition budget_and_claim ::
  "'x environment \<Rightarrow> 'x lifecycle \<Rightarrow> task \<Rightarrow> schedule_decision
    \<Rightarrow> ('x life, lifecycle_result + dispatch_ticket) op" where
  "budget_and_claim env lc t schedule =
     bind_op (on_ext (lc_planner lc t schedule)) (\<lambda>plan.
     bind_op (pause env 0) (\<lambda>_.
     bind_op (on_budgets (budget_reserve (lc_budgets lc) (ev_uuid env 0) (ev_now env 0) t (bp_demand plan)
         (bp_context plan) (lc_task_lease_for lc))) (\<lambda>budget.
     case bd_outcome budget of
       B_DEFER \<Rightarrow>
         bind_op (pause env 1) (\<lambda>_.
         bind_op (on_queue (queue_defer (ev_now env 1) (t_task_id t)
             (timedelta_seconds (case bd_retry_after_seconds budget of None \<Rightarrow> 0 | Some x \<Rightarrow> x))
             (Some (or_text (bd_reason budget) ''budget deferred'')))) (\<lambda>deferred.
           lift_res (Inr (Inl ((task_result t schedule L_DEFERRED (bd_reason budget) (Some (t_status deferred)))
             \<lparr>lr_backpressure := True\<rparr>)))))
     | B_DENY \<Rightarrow>
         bind_op (start_attempt lc t schedule) (\<lambda>attempt_id.
         bind_op (pause env 1) (\<lambda>_.
         bind_op (on_queue (queue_block (ev_now env 1) (t_task_id t)
             (or_text (bd_reason budget) ''hard budget denied execution''))) (\<lambda>blocked.
         bind_op (report lc attempt_id (task_result t schedule L_BLOCKED (bd_reason budget) (Some (t_status blocked))))
           (\<lambda>r. lift_res (Inr (Inl r))))))
     | B_ALLOW \<Rightarrow> claim_and_dispatch env lc t schedule (map_option r_id (bd_reservation budget)))))"

definition admit ::
  "'x environment \<Rightarrow> 'x lifecycle \<Rightarrow> schedule_decision \<Rightarrow> ('x life, lifecycle_result + dispatch_ticket) op" where
  "admit env lc schedule =
     bind_op (fetch (sd_task_id schedule)) (\<lambda>found.
     case found of
       None \<Rightarrow> lift_res (Inr (Inl (idle_result\<lparr>lr_outcome := L_STALE, lr_task_id := Some (sd_task_id schedule),
         lr_worker := Some (sd_worker schedule), lr_action := Some (sd_action schedule),
         lr_reason := Some ''scheduled task no longer exists'', lr_schedule_score := Some (sd_score schedule)\<rparr>)))
     | Some t \<Rightarrow>
         if t_status t \<notin> {PENDING, DEFERRED}
         then lift_res (Inr (Inl (task_result t schedule L_STALE
           (Some (''scheduled task is no longer runnable: '' @ status_value (t_status t))) (Some (t_status t)))))
         else
           bind_op (apply_gates env 3 lc t schedule (lc_gates lc)) (\<lambda>gate_result.
           case gate_result of
             Some r \<Rightarrow>
               bind_op (start_attempt lc t schedule) (\<lambda>attempt_id.
               bind_op (report lc attempt_id r) (\<lambda>r'. lift_res (Inr (Inl r'))))
           | None \<Rightarrow> budget_and_claim env lc t schedule))"

definition admit_next ::
  "'x environment \<Rightarrow> 'x lifecycle \<Rightarrow> (task_store \<Rightarrow> schedule_decision option res)
    \<Rightarrow> ('x life, lifecycle_result + dispatch_ticket) op" where
  "admit_next env lc next =
     bind_op (\<lambda>s. (next (lf_queue s), s)) (\<lambda>choice.
       case choice of None \<Rightarrow> lift_res (Inr (Inl idle_result)) | Some schedule \<Rightarrow> admit env lc schedule)"

fun admit_all ::
  "(nat \<Rightarrow> 'x environment) \<Rightarrow> nat \<Rightarrow> 'x lifecycle \<Rightarrow> schedule_decision list
    \<Rightarrow> ('x life, (lifecycle_result + dispatch_ticket) list) op" where
  "admit_all envs k lc [] = lift_res (Inr [])"
| "admit_all envs k lc (d # ds) =
     bind_op (admit (envs k) lc d) (\<lambda>r.
     bind_op (admit_all envs (Suc k) lc ds) (\<lambda>rs. lift_res (Inr (r # rs))))"

definition admit_batch ::
  "(nat \<Rightarrow> 'x environment) \<Rightarrow> 'x lifecycle \<Rightarrow> (task_store \<Rightarrow> schedule_decision list res)
    \<Rightarrow> ('x life, (lifecycle_result + dispatch_ticket) list) op" where
  "admit_batch envs lc batch =
     bind_op (\<lambda>s. (batch (lf_queue s), s)) (\<lambda>schedules.
       if schedules = [] then lift_res (Inr [Inl idle_result]) else admit_all envs 0 lc schedules)"

subsection \<open>Heartbeats\<close>

record beat =
  bt_queue_now :: time
  bt_renew_now :: time
  bt_renew_now' :: time

text \<open>One beat: \<open>None\<close> when both leases were extended, otherwise the \<open>LeaseHeartbeatError\<close> message.\<close>

definition heartbeat ::
  "'x lifecycle \<Rightarrow> string \<Rightarrow> string \<Rightarrow> string option \<Rightarrow> beat \<Rightarrow> ('x life, string option) op" where
  "heartbeat lc tid token reservation_id b s =
     (case on_queue (queue_heartbeat (bt_queue_now b) tid token (lc_task_lease_for lc)) s of
        (Inl e, s1) \<Rightarrow> (Inr (Some (if caught e then ''task lease for '' @ tid @ '' was lost: '' @ exc_str e
              else ''task heartbeat failed: '' @ exc_name e @ '': '' @ exc_str e)), s1)
      | (Inr _, s1) \<Rightarrow>
          (case reservation_id of
             None \<Rightarrow> (Inr None, s1)
           | Some rid \<Rightarrow>
               (case on_budgets (budget_renew rid (lc_task_lease_for lc) (bt_renew_now b) (bt_renew_now' b)) s1 of
                  (Inl e, s2) \<Rightarrow> (Inr (Some (if caught e then ''budget reservation '' @ rid @ '' was lost: '' @ exc_str e
                        else ''budget heartbeat failed: '' @ exc_name e @ '': '' @ exc_str e)), s2)
                | (Inr _, s2) \<Rightarrow> (Inr None, s2))))"

fun heartbeat_loop ::
  "'x environment \<Rightarrow> nat \<Rightarrow> 'x lifecycle \<Rightarrow> string \<Rightarrow> string \<Rightarrow> string option \<Rightarrow> beat list
    \<Rightarrow> ('x life, string option) op" where
  "heartbeat_loop env k lc tid token rid [] = lift_res (Inr None)"
| "heartbeat_loop env k lc tid token rid (b # bs) =
     bind_op (pause env k) (\<lambda>_.
     bind_op (heartbeat lc tid token rid b) (\<lambda>failure.
       case failure of
         Some msg \<Rightarrow> lift_res (Inr (Some msg))
       | None \<Rightarrow> heartbeat_loop env (Suc k) lc tid token rid bs))"

subsection \<open>Execution\<close>

datatype worker_end = Returned worker_result | Raised string string | Child_cancelled | Owner_cancelled

datatype supervision = Sup_worker worker_end | Sup_heartbeat string

text \<open>The race of the worker against the lease: the first failing heartbeat stops it.\<close>

definition supervise ::
  "'x environment \<Rightarrow> 'x lifecycle \<Rightarrow> dispatch_ticket \<Rightarrow> beat list \<Rightarrow> worker_end \<Rightarrow> ('x life, supervision) op" where
  "supervise env lc ticket beats ending =
     (case t_claim_token (tk_task ticket) of
        None \<Rightarrow> lift_res (Inr (Sup_heartbeat ''lease heartbeat stopped unexpectedly''))
      | Some token \<Rightarrow>
          bind_op (heartbeat_loop env 3 lc (t_task_id (tk_task ticket)) token (tk_reservation_id ticket) beats)
            (\<lambda>failure. case failure of
               Some msg \<Rightarrow> lift_res (Inr (Sup_heartbeat msg))
             | None \<Rightarrow> bind_op (pause env 0) (\<lambda>_. lift_res (Inr (Sup_worker ending)))))"

definition claim_token_of :: "task \<Rightarrow> string res" where
  "claim_token_of t = (case t_claim_token t of
     None \<Rightarrow> Inl (ValueError (''RUNNING task '' @ t_task_id t @ '' has no claim token'')) | Some c \<Rightarrow> Inr c)"

definition complete ::
  "'x lifecycle \<Rightarrow> dispatch_ticket \<Rightarrow> lifecycle_result \<Rightarrow> ('x life, lifecycle_result) op" where
  "complete lc ticket result =
     report lc (tk_attempt_id ticket)
       (result\<lparr>lr_claimed := True, lr_execution_attempt := Some (t_attempts (tk_task ticket))\<rparr>)"

definition execution_result ::
  "dispatch_ticket \<Rightarrow> lifecycle_outcome \<Rightarrow> string option \<Rightarrow> task_status option \<Rightarrow> lifecycle_result" where
  "execution_result ticket outcome reason status =
     (task_result (tk_task ticket) (tk_schedule ticket) outcome reason status)
       \<lparr>lr_reservation_id := tk_reservation_id ticket\<rparr>"

definition stale_completion_result :: "dispatch_ticket \<Rightarrow> py_error \<Rightarrow> ('x life, lifecycle_result) op" where
  "stale_completion_result ticket error =
     bind_op (fetch (t_task_id (tk_task ticket))) (\<lambda>current.
       lift_res (Inr (execution_result ticket L_STALE
         (Some (''stale execution could not finalize task: '' @ exc_str error)) (map_option t_status current))))"

definition complete_stale ::
  "'x lifecycle \<Rightarrow> dispatch_ticket \<Rightarrow> py_error \<Rightarrow> ('x life, lifecycle_result) op" where
  "complete_stale lc ticket error =
     bind_op (stale_completion_result ticket error) (\<lambda>r. complete lc ticket r)"

definition commit_reservation_of :: "dispatch_ticket \<Rightarrow> ('x life, unit) op" where
  "commit_reservation_of ticket =
     (case tk_reservation_id ticket of None \<Rightarrow> lift_res (Inr ())
      | Some rid \<Rightarrow> bind_op (on_budgets (budget_commit rid)) (\<lambda>_. lift_res (Inr ())))"

definition fail_running ::
  "'x environment \<Rightarrow> dispatch_ticket \<Rightarrow> string \<Rightarrow> timedelta option \<Rightarrow> ('x life, task) op" where
  "fail_running env ticket error retry_delay =
     bind_op (lift_res (claim_token_of (tk_task ticket))) (\<lambda>token.
       on_queue (queue_fail (ev_now env 0) (t_task_id (tk_task ticket)) token error retry_delay))"

definition retry_or_failed :: "task \<Rightarrow> lifecycle_outcome" where
  "retry_or_failed t = (if t_status t = DEFERRED then L_RETRY else L_FAILED)"

definition finish_cancelled ::
  "'x environment \<Rightarrow> 'x lifecycle \<Rightarrow> dispatch_ticket \<Rightarrow> bool \<Rightarrow> ('x life, lifecycle_result) op" where
  "finish_cancelled env lc ticket externally_cancelled =
     bind_op (suppress (commit_reservation_of ticket)) (\<lambda>_.
     bind_op (pause env 1) (\<lambda>_.
     try_except
       (bind_op (fail_running env ticket (if externally_cancelled then ''execution cancelled by operator''
            else ''worker execution cancelled unexpectedly'') (Some 0)) (\<lambda>cancelled.
          complete lc ticket (execution_result ticket (retry_or_failed cancelled) (t_last_error cancelled)
            (Some (t_status cancelled)))))
       (\<lambda>result. if externally_cancelled then lift_res (Inl CancelledError) else lift_res (Inr result))
       (\<lambda>transition_error. if externally_cancelled then lift_res (Inl transition_error)
          else complete_stale lc ticket transition_error)))"

definition finish_lost_lease ::
  "'x environment \<Rightarrow> 'x lifecycle \<Rightarrow> dispatch_ticket \<Rightarrow> string \<Rightarrow> ('x life, lifecycle_result) op" where
  "finish_lost_lease env lc ticket exc =
     bind_op (suppress (commit_reservation_of ticket)) (\<lambda>_.
     bind_op (pause env 1) (\<lambda>_.
     try_except (fail_running env ticket (''lease heartbeat failed: '' @ exc) (Some 0))
       (\<lambda>failed. complete lc ticket (execution_result ticket (retry_or_failed failed) (t_last_error failed)
          (Some (t_status failed))))
       (complete_stale lc ticket)))"

definition finish_raised ::
  "'x environment \<Rightarrow> 'x lifecycle \<Rightarrow> dispatch_ticket \<Rightarrow> string \<Rightarrow> string \<Rightarrow> ('x life, lifecycle_result) op" where
  "finish_raised env lc ticket exc_type exc =
     bind_op (commit_reservation_of ticket) (\<lambda>_.
     bind_op (pause env 1) (\<lambda>_.
     try_except (fail_running env ticket (''executor exception: '' @ exc_type @ '': '' @ exc) None)
       (\<lambda>failed. complete lc ticket (execution_result ticket L_FAILED (t_last_error failed) (Some (t_status failed))))
       (complete_stale lc ticket)))"

definition finish_returned ::
  "'x environment \<Rightarrow> 'x lifecycle \<Rightarrow> dispatch_ticket \<Rightarrow> worker_result \<Rightarrow> ('x life, lifecycle_result) op" where
  "finish_returned env lc ticket execution =
     bind_op (commit_reservation_of ticket) (\<lambda>_.
     bind_op (pause env 1) (\<lambda>_.
     case wr_outcome execution of
       W_SUCCEEDED \<Rightarrow>
         try_except (bind_op (lift_res (claim_token_of (tk_task ticket))) (\<lambda>token.
             on_queue (queue_succeed (ev_now env 0) (t_task_id (tk_task ticket)) token)))
           (\<lambda>succeeded. complete lc ticket (execution_result ticket L_SUCCEEDED None (Some (t_status succeeded))))
           (complete_stale lc ticket)
     | W_RETRY \<Rightarrow>
         try_except (fail_running env ticket (or_text (wr_error execution) ''worker requested retry'')
             (Some (timedelta_seconds (case wr_retry_after_seconds execution of None \<Rightarrow> 0 | Some x \<Rightarrow> x))))
           (\<lambda>retried. complete lc ticket (execution_result ticket (retry_or_failed retried) (t_last_error retried)
              (Some (t_status retried))))
           (complete_stale lc ticket)
     | W_FAILED \<Rightarrow>
         try_except (fail_running env ticket (or_text (wr_error execution) ''worker failed'') None)
           (\<lambda>failed. complete lc ticket (execution_result ticket L_FAILED (t_last_error failed) (Some (t_status failed))))
           (complete_stale lc ticket)))"

definition execute_claimed ::
  "'x environment \<Rightarrow> 'x lifecycle \<Rightarrow> dispatch_ticket \<Rightarrow> beat list \<Rightarrow> worker_end
    \<Rightarrow> ('x life, lifecycle_result) op" where
  "execute_claimed env lc ticket beats ending =
     bind_op (supervise env lc ticket beats ending) (\<lambda>sup.
     case sup of
       Sup_heartbeat exc \<Rightarrow> finish_lost_lease env lc ticket exc
     | Sup_worker (Returned execution) \<Rightarrow> finish_returned env lc ticket execution
     | Sup_worker (Raised exc_type exc) \<Rightarrow> finish_raised env lc ticket exc_type exc
     | Sup_worker Child_cancelled \<Rightarrow> finish_cancelled env lc ticket False
     | Sup_worker Owner_cancelled \<Rightarrow> finish_cancelled env lc ticket True)"

definition run_once ::
  "'x environment \<Rightarrow> 'x environment \<Rightarrow> 'x lifecycle \<Rightarrow> (task_store \<Rightarrow> schedule_decision option res)
    \<Rightarrow> (task \<Rightarrow> ('x, unit) op) option \<Rightarrow> (dispatch_ticket \<Rightarrow> beat list \<times> worker_end) \<Rightarrow> ('x life, lifecycle_result) op" where
  "run_once env env' lc next on_claimed execution =
     bind_op (admit_next env lc next) (\<lambda>admission.
       case admission of
         Inl result \<Rightarrow> lift_res (Inr result)
       | Inr ticket \<Rightarrow>
           bind_op (case on_claimed of None \<Rightarrow> lift_res (Inr ()) | Some f \<Rightarrow> suppress (on_ext (f (tk_task ticket)))) (\<lambda>_.
           case execution ticket of (beats, ending) \<Rightarrow> execute_claimed env' lc ticket beats ending))"

subsection \<open>Crash recovery\<close>

definition recover_expired :: "'x environment \<Rightarrow> timedelta \<Rightarrow> ('x life, recovery_result) op" where
  "recover_expired env task_retry_delay =
     (if task_retry_delay < 0 then lift_res (Inl (ValueError ''task_retry_delay cannot be negative''))
      else bind_op (on_budgets (budget_reap (ev_now env 0))) (\<lambda>expired.
           bind_op (pause env 0) (\<lambda>_.
           bind_op (on_queue (queue_recover_expired_leases (ev_now env 1) task_retry_delay)) (\<lambda>recovered.
             lift_res (Inr \<lparr>rec_recovered_tasks = int (length recovered),
               rec_expired_budget_reservations = int (length expired)\<rparr>)))))"

end
