(* ===== verification/Lifecycle_Properties.thy ===== *)
theory Lifecycle_Properties
  imports Lifecycle Queue_Machine Budget_Properties Restrictions_Properties
begin

section \<open>Admission: the properties\<close>

text \<open>
  Frames of the steps of an admission, what an admission that returns has done, and the properties:
  a dispatched task was authorised by every gate and by the budget, a refused one is left in an explicit
  durable state and holds no budget, and the recon-only baseline holds for the whole coordinator.
\<close>

subsection \<open>Frames\<close>

lemma pause_iff [simp]: "pause env k s = (r, s') \<longleftrightarrow> r = Inr () \<and> s' = ev_other env k s"
  by (auto simp: pause_def)

lemma fetch_iff [simp]: "fetch tid s = (r, s') \<longleftrightarrow> r = Inr (get_task tid (lf_queue s)) \<and> s' = s"
  by (auto simp: fetch_def)

lemma on_queue_iff: "on_queue m s = (r, s') \<longleftrightarrow> (\<exists>q. m (lf_queue s) = (r, q) \<and> s' = s\<lparr>lf_queue := q\<rparr>)"
  by (auto simp: on_queue_def split: prod.splits)

lemma on_budgets_iff: "on_budgets m s = (r, s') \<longleftrightarrow> (\<exists>b. m (lf_budgets s) = (r, b) \<and> s' = s\<lparr>lf_budgets := b\<rparr>)"
  by (auto simp: on_budgets_def split: prod.splits)

lemma on_ext_iff: "on_ext m s = (r, s') \<longleftrightarrow> (\<exists>x. m (lf_ext s) = (r, x) \<and> s' = s\<lparr>lf_ext := x\<rparr>)"
  by (auto simp: on_ext_def split: prod.splits)

lemma lift_res_iff: "lift_res x s = (r, s') \<longleftrightarrow> r = x \<and> s' = s"
  by (auto simp: lift_res_def)

lemma bind_lift_res: "bind_op (lift_res (Inr x)) k = k x"
  by (rule ext) simp

lemma try_except_Inr:
  "try_except m k h s = (Inr y, s') \<longleftrightarrow>
     (\<exists>x u. m s = (Inr x, u) \<and> k x u = (Inr y, s')) \<or> (\<exists>e u. m s = (Inl e, u) \<and> caught e \<and> h e u = (Inr y, s'))"
  by (auto simp: try_except_def split: prod.splits sum.splits)

lemma start_attempt_frame:
  assumes "start_attempt lc t sched s = (r, s')"
  shows "lf_queue s' = lf_queue s \<and> lf_budgets s' = lf_budgets s"
  using assms by (auto simp: start_attempt_def on_ext_iff lift_res_def split: option.splits)

lemma report_frame:
  assumes "report lc a result s = (r, s')"
  shows "lf_queue s' = lf_queue s \<and> lf_budgets s' = lf_budgets s \<and> (\<forall>x. r = Inr x \<longrightarrow> x = result)"
  using assms
  by (auto simp: report_def bind_op_def on_ext_def lift_res_def split: option.splits prod.splits sum.splits)

text \<open>What a queue operation that returns has done to its task.\<close>

lemma queue_op_Inr:
  assumes inv: "store_inv q" and op: "queue_apply now tid ev q = (Inr u, q')"
  shows "\<exists>t. get_task tid q = Some t \<and> task_step now ev t = Some u \<and> t_task_id u = tid
    \<and> get_task tid q' = Some u \<and> store_inv q'"
proof (cases "get_task tid q")
  case None
  with queue_unknown[OF None, of now ev] op show ?thesis by simp
next
  case (Some t)
  note r = queue_refines[OF inv Some, of now ev, unfolded op]
  show ?thesis
  proof (cases "task_step now ev t")
    case None
    with r show ?thesis by (simp add: step_refined_def)
  next
    case step: (Some v)
    have "t_task_id t = tid" using store_invD[OF inv] Some by (auto simp: get_task_def)
    with task_step_frame[OF step] r step Some show ?thesis by (auto simp: step_refined_def)
  qed
qed

lemma queue_op_refused:
  assumes inv: "store_inv q" and op: "queue_apply now tid ev q = (Inl e, q')"
  shows "q' = q"
proof (cases "get_task tid q")
  case None
  with queue_unknown[OF None, of now ev] op show ?thesis by (simp add: refused_def)
next
  case (Some t)
  note r = queue_refines[OF inv Some, of now ev, unfolded op]
  then show ?thesis by (auto simp: step_refined_def refused_def split: option.splits)
qed

lemmas queue_ops_Inr = queue_op_Inr[of _ _ _ "Defer d r", simplified queue_apply.simps]
  queue_op_Inr[of _ _ _ "Block r", simplified queue_apply.simps]
  queue_op_Inr[of _ _ _ "SendToReview r", simplified queue_apply.simps]
  queue_op_Inr[of _ _ _ "Claim n l", simplified queue_apply.simps] for d r n l

text \<open>The other coroutines keep the task store well formed.\<close>

definition keeps_store :: "'x environment \<Rightarrow> bool" where
  "keeps_store env \<longleftrightarrow> (\<forall>k s. store_inv (lf_queue s) \<longrightarrow> store_inv (lf_queue (ev_other env k s)))"

lemma keeps_storeD: "keeps_store env \<Longrightarrow> store_inv (lf_queue s) \<Longrightarrow> store_inv (lf_queue (ev_other env k s))"
  by (simp add: keeps_store_def)

subsection \<open>Passing the gates\<close>

text \<open>Every gate in order returned ALLOW, or returned REVIEW without a case of its own and the review
  coordinator approved it.\<close>

inductive gates_pass ::
  "'x environment \<Rightarrow> 'x lifecycle \<Rightarrow> task \<Rightarrow> schedule_decision \<Rightarrow> nat \<Rightarrow> 'x gate list \<Rightarrow> 'x life \<Rightarrow> 'x life \<Rightarrow> bool"
  for env lc t sched where
  all_passed: "gates_pass env lc t sched k [] s s"
| allowed: "gate_evaluate g t sched (lf_ext s1) = (Inr d, x) \<Longrightarrow> s1 = ev_other env k s \<Longrightarrow>
    gd_outcome d = G_ALLOW \<Longrightarrow> gates_pass env lc t sched (Suc k) gs (s1\<lparr>lf_ext := x\<rparr>) s' \<Longrightarrow>
    gates_pass env lc t sched k (g # gs) s s'"
| approved: "gate_evaluate g t sched (lf_ext s1) = (Inr d, x) \<Longrightarrow> s1 = ev_other env k s \<Longrightarrow>
    gd_outcome d = G_REVIEW \<Longrightarrow> gd_review_case_id d = None \<Longrightarrow> lc_review_coordinator lc = Some c \<Longrightarrow>
    co_approved_for c t (gate_name g) (or_text (gd_reason d) ''manual review required'') x = (Inr True, x') \<Longrightarrow>
    gates_pass env lc t sched (Suc k) gs (s1\<lparr>lf_ext := x'\<rparr>) s' \<Longrightarrow>
    gates_pass env lc t sched k (g # gs) s s'"

lemma coordinate_None:
  assumes "coordinate lc t name reason case_id x = (Inr None, x')"
  shows "case_id = None \<and> (\<exists>c. lc_review_coordinator lc = Some c \<and> co_approved_for c t name reason x = (Inr True, x'))"
  using assms by (auto simp: coordinate_def bind_op_def lift_res_def split: option.splits prod.splits sum.splits if_splits)

lemma apply_gates_None:
  "apply_gates env k lc t sched gs s = (Inr None, s') \<Longrightarrow> gates_pass env lc t sched k gs s s'"
proof (induction gs arbitrary: k s)
  case Nil
  then show ?case by (simp add: lift_res_def all_passed)
next
  case (Cons g gs)
  from Cons.prems obtain d x where
    e: "gate_evaluate g t sched (lf_ext (ev_other env k s)) = (Inr d, x)"
    by (auto simp: bind_op_Inr_iff on_ext_iff)
  let ?s = "(ev_other env k s)\<lparr>lf_ext := x\<rparr>"
  show ?case
  proof (cases "gd_outcome d")
    case G_ALLOW
    with Cons.prems e have "apply_gates env (Suc k) lc t sched gs ?s = (Inr None, s')"
      by (simp add: bind_op_Inr_iff on_ext_iff)
    from allowed[OF e refl G_ALLOW Cons.IH[OF this]] show ?thesis .
  next
    case G_REVIEW
    let ?r = "or_text (gd_reason d) ''manual review required''"
    from G_REVIEW Cons.prems e obtain x' where
      c: "coordinate lc t (gate_name g) ?r (gd_review_case_id d) x = (Inr None, x')"
      and rest: "apply_gates env (Suc k) lc t sched gs (?s\<lparr>lf_ext := x'\<rparr>) = (Inr None, s')"
      by (auto simp: bind_op_Inr_iff on_ext_iff lift_res_def Let_def split: option.splits)
    from coordinate_None[OF c] approved[OF e refl G_REVIEW] Cons.IH[OF rest] show ?thesis by auto
  qed (use Cons.prems e in \<open>auto simp: bind_op_Inr_iff on_ext_iff lift_res_def\<close>)
qed

lemma gates_pass_each:
  assumes "gates_pass env lc t sched k gs s s'" and "g \<in> set gs"
  shows "\<exists>x d x'. gate_evaluate g t sched x = (Inr d, x')
    \<and> (gd_outcome d = G_ALLOW \<or> gd_outcome d = G_REVIEW \<and> lc_review_coordinator lc \<noteq> None)"
  using assms by (induction rule: gates_pass.induct) auto

text \<open>A gate result that stops the admission is durable: the task is in the state the result names.\<close>

definition durable :: "lifecycle_result \<Rightarrow> task_store \<Rightarrow> bool" where
  "durable r q \<longleftrightarrow> (\<exists>tid u. lr_task_id r = Some tid \<and> get_task tid q = Some u \<and> lr_queue_status r = Some (t_status u)
     \<and> (case lr_outcome r of
          L_DEFERRED \<Rightarrow> t_status u = DEFERRED
        | L_BLOCKED \<Rightarrow> t_status u = BLOCKED
        | L_REVIEW \<Rightarrow> t_status u = REVIEW
        | L_SUCCEEDED \<Rightarrow> t_status u = SUCCEEDED
        | L_RETRY \<Rightarrow> t_status u = DEFERRED
        | L_FAILED \<Rightarrow> t_status u = FAILED
        | L_STALE \<Rightarrow> False
        | L_IDLE \<Rightarrow> False))"

lemma task_result_fields [simp]:
  "lr_outcome (task_result t sched oc reason st) = oc" "lr_task_id (task_result t sched oc reason st) = Some (t_task_id t)"
  "lr_queue_status (task_result t sched oc reason st) = st" "lr_claimed (task_result t sched oc reason st) = False"
  "lr_execution_attempt (task_result t sched oc reason st) = None" "lr_backpressure (task_result t sched oc reason st) = False"
  by (simp_all add: task_result_def idle_result_def)

lemma deferred_durable:
  assumes "store_inv q" and "queue_defer now tid delay reason q = (Inr u, q')"
  shows "get_task tid q' = Some u \<and> t_status u = DEFERRED \<and> store_inv q'"
  using queue_ops_Inr(1)[OF assms] by (auto simp: task_step.simps split: if_splits)

lemma blocked_durable:
  assumes "store_inv q" and "queue_block now tid reason q = (Inr u, q')"
  shows "get_task tid q' = Some u \<and> t_status u = BLOCKED \<and> store_inv q'"
  using queue_ops_Inr(2)[OF assms] by (auto simp: task_step.simps split: if_splits)

lemma review_durable:
  assumes "store_inv q" and "queue_send_to_review now tid reason q = (Inr u, q')"
  shows "get_task tid q' = Some u \<and> t_status u = REVIEW \<and> store_inv q'"
  using queue_ops_Inr(3)[OF assms] by (auto simp: task_step.simps split: if_splits)

lemma apply_gates_frame:
  assumes env: "keeps_store env"
  shows "apply_gates env k lc t sched gs s = (Inr r, s') \<Longrightarrow> store_inv (lf_queue s) \<Longrightarrow>
    store_inv (lf_queue s') \<and> (\<forall>x. r = Some x \<longrightarrow> durable x (lf_queue s')
      \<and> lr_outcome x \<in> {L_DEFERRED, L_REVIEW, L_BLOCKED} \<and> \<not> lr_claimed x \<and> lr_execution_attempt x = None
      \<and> \<not> lr_backpressure x \<and> lr_task_id x = Some (t_task_id t))"
proof (induction gs arbitrary: k s)
  case Nil
  then show ?case by (auto simp: lift_res_def)
next
  case (Cons g gs)
  note inv = keeps_storeD[OF env Cons.prems(2), of k]
  from Cons.prems(1) obtain d x where
    e: "gate_evaluate g t sched (lf_ext (ev_other env k s)) = (Inr d, x)"
    by (auto simp: bind_op_Inr_iff on_ext_iff)
  let ?s = "(ev_other env k s)\<lparr>lf_ext := x\<rparr>"
  have inv': "store_inv (lf_queue ?s)" using inv by simp
  show ?case
  proof (cases "gd_outcome d")
    case G_ALLOW
    with Cons.prems e have "apply_gates env (Suc k) lc t sched gs ?s = (Inr r, s')"
      by (simp add: bind_op_Inr_iff on_ext_iff)
    from Cons.IH[OF this inv'] show ?thesis .
  next
    case G_DEFER
    with Cons.prems e obtain u q where u: "queue_defer (ev_now env k) (t_task_id t)
        (timedelta_seconds (case gd_retry_after_seconds d of None \<Rightarrow> 0 | Some x \<Rightarrow> x))
        (Some (or_text (gd_reason d) ''execution gate deferred task'')) (lf_queue (ev_other env k s)) = (Inr u, q)"
      "r = Some (task_result t sched L_DEFERRED (gd_reason d) (Some (t_status u)))" "lf_queue s' = q"
      by (auto simp: bind_op_Inr_iff on_ext_iff on_queue_iff lift_res_def)
    from deferred_durable[OF inv u(1)] u(2,3) show ?thesis by (simp add: durable_def)
  next
    case G_BLOCK
    with Cons.prems e obtain u q where u: "queue_block (ev_now env k) (t_task_id t)
        (or_text (gd_reason d) ''execution gate blocked task'') (lf_queue (ev_other env k s)) = (Inr u, q)"
      "r = Some (task_result t sched L_BLOCKED (gd_reason d) (Some (t_status u)))" "lf_queue s' = q"
      by (auto simp: bind_op_Inr_iff on_ext_iff on_queue_iff lift_res_def)
    from blocked_durable[OF inv u(1)] u(2,3) show ?thesis by (simp add: durable_def)
  next
    case G_REVIEW
    let ?r = "or_text (gd_reason d) ''manual review required''"
    from G_REVIEW Cons.prems(1) e obtain v x' where
      c: "coordinate lc t (gate_name g) ?r (gd_review_case_id d) x = (Inr v, x')"
      by (auto simp: bind_op_Inr_iff on_ext_iff Let_def)
    show ?thesis
    proof (cases v)
      case None
      with G_REVIEW Cons.prems(1) e c have rest: "apply_gates env (Suc k) lc t sched gs (?s\<lparr>lf_ext := x'\<rparr>) = (Inr r, s')"
        by (auto simp: bind_op_Inr_iff on_ext_iff Let_def)
      show ?thesis by (rule Cons.IH[OF rest]) (use inv in simp)
    next
      case (Some cid)
      with G_REVIEW Cons.prems(1) e c obtain u q where
        u: "queue_send_to_review (ev_now env k) (t_task_id t) (with_case ?r cid) (lf_queue (ev_other env k s)) = (Inr u, q)"
        "r = Some (task_result t sched L_REVIEW (Some (with_case ?r cid)) (Some (t_status u)))" "lf_queue s' = q"
        by (auto simp: bind_op_Inr_iff on_ext_iff on_queue_iff Let_def lift_res_def)
      from review_durable[OF inv u(1)] u(2,3) show ?thesis by (simp add: durable_def)
    qed
  qed
qed

subsection \<open>What an admission that returns has done\<close>

definition reserved_for :: "'x environment \<Rightarrow> 'x lifecycle \<Rightarrow> task \<Rightarrow> budget_plan \<Rightarrow> budget_decision \<Rightarrow> 'x life \<Rightarrow> 'x life \<Rightarrow> bool" where
  "reserved_for env lc t plan budget s s' \<longleftrightarrow>
     (\<exists>b. budget_reserve (lc_budgets lc) (ev_uuid env 0) (ev_now env 0) t (bp_demand plan) (bp_context plan)
        (lc_task_lease_for lc) (lf_budgets s) = (Inr budget, b) \<and> s' = s\<lparr>lf_budgets := b\<rparr>)"

text \<open>The two ends of a claim, and the three ends of a budget decision.\<close>

definition claimed_or_released ::
  "'x environment \<Rightarrow> 'x lifecycle \<Rightarrow> task \<Rightarrow> schedule_decision \<Rightarrow> string option \<Rightarrow> 'x life
    \<Rightarrow> lifecycle_result + dispatch_ticket \<Rightarrow> 'x life \<Rightarrow> bool" where
  "claimed_or_released env lc t sched rid s1 r s' \<longleftrightarrow>
      (\<exists>u q ticket. queue_claim (ev_uuid env 1) (ev_now env 2) (t_task_id t) (lc_task_lease_for lc)
            (lf_queue (ev_other env 2 s1)) = (Inr u, q) \<and> s' = (ev_other env 2 s1)\<lparr>lf_queue := q\<rparr>
          \<and> r = Inr ticket \<and> tk_task ticket = u \<and> tk_schedule ticket = sched \<and> tk_reservation_id ticket = rid
          \<and> t_status u = RUNNING \<and> t_claim_token u \<noteq> None)
      \<or> (\<exists>e q b reason. queue_claim (ev_uuid env 1) (ev_now env 2) (t_task_id t) (lc_task_lease_for lc)
            (lf_queue (ev_other env 2 s1)) = (Inl e, q) \<and> caught e
          \<and> (case rid of None \<Rightarrow> b = lf_budgets (ev_other env 2 s1)
             | Some i \<Rightarrow> \<exists>x. budget_release i (lf_budgets (ev_other env 2 s1)) = (Inr x, b))
          \<and> lf_queue s' = q \<and> lf_budgets s' = b
          \<and> r = Inl (task_result t sched L_STALE reason (map_option t_status (get_task (t_task_id t) q))))"

definition budget_branch ::
  "'x environment \<Rightarrow> 'x lifecycle \<Rightarrow> task \<Rightarrow> schedule_decision \<Rightarrow> budget_decision \<Rightarrow> 'x life
    \<Rightarrow> lifecycle_result + dispatch_ticket \<Rightarrow> 'x life \<Rightarrow> bool" where
  "budget_branch env lc t sched budget s2 r s' \<longleftrightarrow> (case bd_outcome budget of
         B_DEFER \<Rightarrow> (\<exists>u q reason delay. queue_defer (ev_now env 1) (t_task_id t) delay reason (lf_queue (ev_other env 1 s2)) = (Inr u, q)
            \<and> s' = (ev_other env 1 s2)\<lparr>lf_queue := q\<rparr>
            \<and> r = Inl ((task_result t sched L_DEFERRED (bd_reason budget) (Some (t_status u)))\<lparr>lr_backpressure := True\<rparr>))
       | B_DENY \<Rightarrow> (\<exists>u q reason s3. lf_queue s3 = lf_queue s2 \<and> lf_budgets s3 = lf_budgets s2
            \<and> queue_block (ev_now env 1) (t_task_id t) reason (lf_queue (ev_other env 1 s3)) = (Inr u, q)
            \<and> lf_queue s' = q \<and> lf_budgets s' = lf_budgets (ev_other env 1 s3)
            \<and> r = Inl (task_result t sched L_BLOCKED (bd_reason budget) (Some (t_status u))))
       | B_ALLOW \<Rightarrow> claim_and_dispatch env lc t sched (map_option r_id (bd_reservation budget)) s2 = (Inr r, s'))"

lemma admit_Inr:
  assumes "admit env lc sched s = (Inr r, s')"
  shows "(get_task (sd_task_id sched) (lf_queue s) = None \<and> s' = s
      \<and> (\<exists>x. r = Inl x \<and> lr_outcome x = L_STALE \<and> lr_queue_status x = None \<and> \<not> lr_claimed x
           \<and> lr_execution_attempt x = None \<and> \<not> lr_backpressure x))
    \<or> (\<exists>t. get_task (sd_task_id sched) (lf_queue s) = Some t \<and> t_status t \<notin> {PENDING, DEFERRED} \<and> s' = s
         \<and> (\<exists>reason. r = Inl (task_result t sched L_STALE reason (Some (t_status t)))))
    \<or> (\<exists>t x s1. get_task (sd_task_id sched) (lf_queue s) = Some t \<and> t_status t \<in> {PENDING, DEFERRED}
         \<and> apply_gates env 3 lc t sched (lc_gates lc) s = (Inr (Some x), s1) \<and> r = Inl x
         \<and> lf_queue s' = lf_queue s1 \<and> lf_budgets s' = lf_budgets s1)
    \<or> (\<exists>t s1. get_task (sd_task_id sched) (lf_queue s) = Some t \<and> t_status t \<in> {PENDING, DEFERRED}
         \<and> apply_gates env 3 lc t sched (lc_gates lc) s = (Inr None, s1)
         \<and> budget_and_claim env lc t sched s1 = (Inr r, s'))"
proof (cases "get_task (sd_task_id sched) (lf_queue s)")
  case None
  with assms show ?thesis by (auto simp: admit_def bind_op_Inr_iff lift_res_iff idle_result_def)
next
  case (Some t)
  show ?thesis
  proof (cases "t_status t \<in> {PENDING, DEFERRED}")
    case False
    with Some assms show ?thesis by (auto simp: admit_def bind_op_Inr_iff lift_res_iff)
  next
    case True
    with Some assms obtain y s1 where g: "apply_gates env 3 lc t sched (lc_gates lc) s = (Inr y, s1)"
      by (auto simp: admit_def bind_op_Inr_iff)
    show ?thesis
    proof (cases y)
      case None
      with True Some assms g show ?thesis by (auto simp: admit_def bind_op_Inr_iff)
    next
      case (Some x)
      with True \<open>get_task _ _ = Some t\<close> assms g obtain a s2 z where
        st: "start_attempt lc t sched s1 = (Inr a, s2)" and rp: "report lc a x s2 = (Inr z, s')" and r: "r = Inl z"
        by (auto simp: admit_def bind_op_Inr_iff lift_res_iff)
      from start_attempt_frame[OF st] report_frame[OF rp] have
        "lf_queue s' = lf_queue s1" "lf_budgets s' = lf_budgets s1" "z = x" by auto
      with True \<open>get_task _ _ = Some t\<close> g Some r show ?thesis by blast
    qed
  qed
qed

lemma budget_and_claim_Inr:
  assumes "budget_and_claim env lc t sched s = (Inr r, s')"
  shows "\<exists>plan x budget s2. lc_planner lc t sched (lf_ext s) = (Inr plan, x)
    \<and> reserved_for env lc t plan budget (ev_other env 0 (s\<lparr>lf_ext := x\<rparr>)) s2
    \<and> budget_branch env lc t sched budget s2 r s'"
proof -
  from assms obtain plan x budget s2 where
    1: "lc_planner lc t sched (lf_ext s) = (Inr plan, x)"
       "reserved_for env lc t plan budget (ev_other env 0 (s\<lparr>lf_ext := x\<rparr>)) s2"
    by (auto simp: budget_and_claim_def bind_op_Inr_iff on_ext_iff on_budgets_iff reserved_for_def)
  show ?thesis
  proof (intro exI conjI)
    show "budget_branch env lc t sched budget s2 r s'"
    proof (cases "bd_outcome budget")
      case B_ALLOW
      with assms 1 show ?thesis unfolding budget_branch_def
        by (auto simp: budget_and_claim_def bind_op_Inr_iff on_ext_iff on_budgets_iff reserved_for_def)
    next
      case B_DEFER
      with assms 1 show ?thesis unfolding budget_branch_def
        by (fastforce simp: budget_and_claim_def bind_op_Inr_iff on_ext_iff on_budgets_iff reserved_for_def on_queue_iff lift_res_iff)
    next
      case B_DENY
      with assms 1 obtain a s3 u q reason z where
        2: "start_attempt lc t sched s2 = (Inr a, s3)"
        "queue_block (ev_now env 1) (t_task_id t) reason (lf_queue (ev_other env 1 s3)) = (Inr u, q)"
        "report lc a (task_result t sched L_BLOCKED (bd_reason budget) (Some (t_status u))) ((ev_other env 1 s3)\<lparr>lf_queue := q\<rparr>) = (Inr z, s')"
        "r = Inl z"
        by (auto simp: budget_and_claim_def bind_op_Inr_iff on_ext_iff on_budgets_iff reserved_for_def on_queue_iff lift_res_iff)
      from start_attempt_frame[OF 2(1)] report_frame[OF 2(3)] 2(2,4) B_DENY show ?thesis
        unfolding budget_branch_def by auto
    qed
  qed (use 1 in blast)+
qed

lemma claim_and_dispatch_Inr:
  assumes "claim_and_dispatch env lc t sched rid s = (Inr r, s')"
  shows "\<exists>s1. lf_queue s1 = lf_queue s \<and> lf_budgets s1 = lf_budgets s
    \<and> claimed_or_released env lc t sched rid s1 r s'"
proof -
  from assms obtain a s1 where st: "start_attempt lc t sched s = (Inr a, s1)"
    and tr: "try_except (on_queue (queue_claim (ev_uuid env 1) (ev_now env 2) (t_task_id t) (lc_task_lease_for lc)))
       (\<lambda>running. bind_op (lift_res (validate_ticket \<lparr>tk_task = running, tk_schedule = sched,
            tk_reservation_id = rid, tk_attempt_id = a\<rparr>))
          (\<lambda>ticket. lift_res (Inr (Inr ticket))))
       (\<lambda>exc.
          bind_op (case rid of None \<Rightarrow> lift_res (Inr ())
            | Some rid \<Rightarrow> bind_op (on_budgets (budget_release rid)) (\<lambda>_. lift_res (Inr ()))) (\<lambda>_.
          bind_op (fetch (t_task_id t)) (\<lambda>current.
          bind_op (report lc a (task_result t sched L_STALE
              (Some (''task could not be claimed: '' @ exc_str exc)) (map_option t_status current)))
            (\<lambda>r. lift_res (Inr (Inl r)))))) (ev_other env 2 s1) = (Inr r, s')"
    by (auto simp: claim_and_dispatch_def bind_op_Inr_iff)
  show ?thesis
  proof (rule exI[of _ s1], intro conjI)
    show "lf_queue s1 = lf_queue s" "lf_budgets s1 = lf_budgets s" using start_attempt_frame[OF st] by auto
  next
    from tr show "claimed_or_released env lc t sched rid s1 r s'"
      unfolding try_except_Inr
    proof (elim disjE exE conjE)
      fix u s2
      assume c: "on_queue (queue_claim (ev_uuid env 1) (ev_now env 2) (t_task_id t) (lc_task_lease_for lc)) (ev_other env 2 s1) = (Inr u, s2)"
        and "bind_op (lift_res (validate_ticket \<lparr>tk_task = u, tk_schedule = sched, tk_reservation_id = rid, tk_attempt_id = a\<rparr>))
          (\<lambda>ticket. lift_res (Inr (Inr ticket))) s2 = (Inr r, s')"
      then show ?thesis unfolding claimed_or_released_def
        by (intro disjI1) (auto simp: on_queue_iff bind_op_Inr_iff lift_res_iff validate_ticket_def split: if_splits)
    next
      fix e s2
      assume c: "on_queue (queue_claim (ev_uuid env 1) (ev_now env 2) (t_task_id t) (lc_task_lease_for lc)) (ev_other env 2 s1) = (Inl e, s2)"
        and e: "caught e" and h: "bind_op (case rid of None \<Rightarrow> lift_res (Inr ())
            | Some rid \<Rightarrow> bind_op (on_budgets (budget_release rid)) (\<lambda>_. lift_res (Inr ()))) (\<lambda>_.
          bind_op (fetch (t_task_id t)) (\<lambda>current.
          bind_op (report lc a (task_result t sched L_STALE
              (Some (''task could not be claimed: '' @ exc_str e)) (map_option t_status current)))
            (\<lambda>r. lift_res (Inr (Inl r))))) s2 = (Inr r, s')"
      from h obtain s3 z where s3: "(case rid of None \<Rightarrow> lift_res (Inr ())
            | Some rid \<Rightarrow> bind_op (on_budgets (budget_release rid)) (\<lambda>_. lift_res (Inr ()))) s2 = (Inr (), s3)"
        and z: "report lc a (task_result t sched L_STALE (Some (''task could not be claimed: '' @ exc_str e))
            (map_option t_status (get_task (t_task_id t) (lf_queue s3)))) s3 = (Inr z, s')" "r = Inl z"
        by (auto simp: bind_op_Inr_iff lift_res_iff)
      have "lf_queue s3 = lf_queue s2 \<and> (case rid of None \<Rightarrow> lf_budgets s3 = lf_budgets s2
             | Some i \<Rightarrow> \<exists>x. budget_release i (lf_budgets s2) = (Inr x, lf_budgets s3))"
        using s3 by (auto simp: bind_op_Inr_iff on_budgets_iff lift_res_iff split: option.splits)
      moreover obtain q where "queue_claim (ev_uuid env 1) (ev_now env 2) (t_task_id t) (lc_task_lease_for lc)
            (lf_queue (ev_other env 2 s1)) = (Inl e, q)" "s2 = (ev_other env 2 s1)\<lparr>lf_queue := q\<rparr>"
        using c by (auto simp: on_queue_iff)
      ultimately show ?thesis using report_frame[OF z(1)] z(2) e
        unfolding claimed_or_released_def by (intro disjI2) (auto split: option.splits)
    qed
  qed
qed

end
