(* ===== verification/Admission_Guarantees.thy ===== *)
theory Admission_Guarantees
  imports Lifecycle_Properties Queue_Properties Budget_Guarantees
begin

section \<open>What an admission guarantees\<close>

text \<open>
  The properties of Lifecycle.admit (recon/core/lifecycle.py), with a one-gate lifecycle over the sample
  store of the queue as their witness.
\<close>

declare split_paired_All [simp del] split_paired_Ex [simp del]

subsection \<open>A ticket\<close>

lemma admit_ticket:
  assumes "admit env lc sched s = (Inr (Inr ticket), s')"
  obtains t s1 plan x budget s2 where "get_task (sd_task_id sched) (lf_queue s) = Some t"
    and "t_status t \<in> {PENDING, DEFERRED}" and "apply_gates env 3 lc t sched (lc_gates lc) s = (Inr None, s1)"
    and "gates_pass env lc t sched 3 (lc_gates lc) s s1"
    and "lc_planner lc t sched (lf_ext s1) = (Inr plan, x)"
    and "reserved_for env lc t plan budget (ev_other env 0 (s1\<lparr>lf_ext := x\<rparr>)) s2"
    and "bd_outcome budget = B_ALLOW"
    and "claim_and_dispatch env lc t sched (map_option r_id (bd_reservation budget)) s2 = (Inr (Inr ticket), s')"
proof -
  from admit_Inr[OF assms] obtain t s1 where t: "get_task (sd_task_id sched) (lf_queue s) = Some t"
    "t_status t \<in> {PENDING, DEFERRED}" "apply_gates env 3 lc t sched (lc_gates lc) s = (Inr None, s1)"
    "budget_and_claim env lc t sched s1 = (Inr (Inr ticket), s')" by auto
  from budget_and_claim_Inr[OF t(4)] obtain plan x budget s2 where
    b: "lc_planner lc t sched (lf_ext s1) = (Inr plan, x)"
      "reserved_for env lc t plan budget (ev_other env 0 (s1\<lparr>lf_ext := x\<rparr>)) s2"
      "budget_branch env lc t sched budget s2 (Inr ticket) s'" by blast
  from b(3) have "bd_outcome budget = B_ALLOW"
    "claim_and_dispatch env lc t sched (map_option r_id (bd_reservation budget)) s2 = (Inr (Inr ticket), s')"
    by (auto simp: budget_branch_def split: budget_outcome.splits)
  with that[OF t(1-3) apply_gates_None[OF t(3)] b(1,2)] show thesis by blast
qed

lemma claim_step:
  "task_step now (Claim n l) t = Some u \<Longrightarrow> t_status u = RUNNING \<and> t_claim_token u = Some (new_claim_token n)
     \<and> t_attempts u = t_attempts t + 1"
  by (auto simp: task_step.simps split: if_splits)

lemma ticket_task:
  assumes "claim_and_dispatch env lc t sched rid s = (Inr (Inr ticket), s')"
    and env: "keeps_store env" and inv: "store_inv (lf_queue s)"
  shows "get_task (t_task_id t) (lf_queue s') = Some (tk_task ticket) \<and> t_status (tk_task ticket) = RUNNING
    \<and> t_claim_token (tk_task ticket) = Some (new_claim_token (ev_uuid env 1))
    \<and> tk_schedule ticket = sched \<and> tk_reservation_id ticket = rid"
proof -
  from claim_and_dispatch_Inr[OF assms(1)] obtain s1 q where
    s1: "lf_queue s1 = lf_queue s"
    and c: "queue_claim (ev_uuid env 1) (ev_now env 2) (t_task_id t) (lc_task_lease_for lc)
        (lf_queue (ev_other env 2 s1)) = (Inr (tk_task ticket), q)" "lf_queue s' = q"
    and k: "tk_schedule ticket = sched" "tk_reservation_id ticket = rid"
    by (auto simp: claimed_or_released_def)
  have "store_inv (lf_queue (ev_other env 2 s1))" by (rule keeps_storeD[OF env]) (simp add: s1 inv)
  from queue_ops_Inr(4)[OF this c(1)] c(2) k claim_step show ?thesis by blast
qed

lemma reserved_for_queue: "reserved_for env lc t plan budget s s' \<Longrightarrow> lf_queue s' = lf_queue s"
  by (auto simp: reserved_for_def)

subsection \<open>The budget of an admission that is refused\<close>

definition spares_budgets :: "('x life, 'a) op \<Rightarrow> bool" where
  "spares_budgets m \<longleftrightarrow> (\<forall>s. lf_budgets (snd (m s)) = lf_budgets s)"

definition keeps_budgets :: "'x environment \<Rightarrow> bool" where
  "keeps_budgets env \<longleftrightarrow> (\<forall>k s. lf_budgets (ev_other env k s) = lf_budgets s)"

lemma spares_basic [intro]:
  "spares_budgets (on_queue m)" "spares_budgets (on_ext e)" "spares_budgets (lift_res x)" "spares_budgets (fetch i)"
  "keeps_budgets env \<Longrightarrow> spares_budgets (pause env k)"
  by (auto simp: spares_budgets_def on_queue_def on_ext_def lift_res_def fetch_def pause_def keeps_budgets_def split: prod.splits)

lemma spares_bind [intro]:
  "spares_budgets m \<Longrightarrow> (\<And>x. spares_budgets (f x)) \<Longrightarrow> spares_budgets (bind_op m f)"
  unfolding spares_budgets_def bind_op_def by (auto split: prod.splits sum.splits) (metis snd_conv)+

lemma spares_option [intro]:
  "spares_budgets a \<Longrightarrow> (\<And>x. spares_budgets (f x)) \<Longrightarrow> spares_budgets (case v of None \<Rightarrow> a | Some x \<Rightarrow> f x)"
  by (cases v) auto

lemma spares_apply_gates: "keeps_budgets env \<Longrightarrow> spares_budgets (apply_gates env k lc t sched gs)"
proof (induction gs arbitrary: k)
  case (Cons g gs)
  show ?case
    unfolding apply_gates.simps
    by (intro spares_bind spares_basic Cons.prems)
      (auto simp: Let_def intro!: Cons.IH[OF Cons.prems] split: gate_outcome.splits)
qed auto

lemma reserved_then_released:
  assumes inv: "budget_inv b" and l: "0 < l" and d: "demand_ok d"
    and new: "get_reservation (new_reservation_id uuid) b = None"
    and r: "budget_reserve m uuid now t d ctx l b = (Inr dec, b1)"
  shows "(bd_outcome dec \<noteq> B_ALLOW \<or> bd_reservation dec = None) \<and> b1 = b
    \<or> (\<exists>i. bd_outcome dec = B_ALLOW \<and> map_option r_id (bd_reservation dec) = Some i
        \<and> (\<forall>x b2. budget_release i b1 = (Inr x, b2) \<longrightarrow> (\<forall>k. usage k b2 = usage k b)))"
proof (cases "within_depth m ctx")
  case False
  obtain reason where "budget_reserve m uuid now t d ctx l b = (Inr (plain_decision B_DENY t reason), b)"
    using reserve_refuses_depth[OF l False] by blast
  with r show ?thesis by (auto simp: plain_decision_def)
next
  case True
  show ?thesis
  proof (rule reserve_cases[OF inv l d new True, where now=now and t=t])
    assume "budget_reserve m uuid now t d ctx l b = (Inr (plain_decision B_ALLOW t ''no matching budget limits''), b)"
    with r have "dec = plain_decision B_ALLOW t ''no matching budget limits''" "b1 = b" by auto
    then show ?thesis by (simp add: plain_decision_def)
  next
    fix cs b'
    let ?res = "make_reservation uuid t cs now l"
    assume g: "budget_reserve m uuid now t d ctx l b = (Inr \<lparr>bd_outcome = B_ALLOW, bd_task_id = t_task_id t,
        bd_reservation = Some ?res, bd_violations = [], bd_checked_limits = cs, bd_reason = None,
        bd_retry_after_seconds = None\<rparr>, b')"
      and inv': "budget_inv b'" and com: "bs_committed b' = bs_committed b"
      and rs: "bs_reservations b' = dict_set (new_reservation_id uuid) ?res (bs_reservations b)"
      and res: "\<forall>k. reserved b' k = reserved b k + on_key (items_of cs) k"
    have "get_reservation (new_reservation_id uuid) b' = Some ?res" by (simp add: get_reservation_def rs)
    from release_reservation_spec[OF inv' this] obtain b2 where
      rel: "budget_release (new_reservation_id uuid) b' = (Inr (with_state R_RELEASED ?res), b2)" "closes R_RELEASED ?res b' b2"
      by (auto simp: budget_release_def)
    have "usage k b2 = usage k b" for k
      using rel(2) res com by (simp add: closes_def usage_def)
    with g r rel(1) show ?thesis by auto
  next
    fix cs
    assume "budget_reserve m uuid now t d ctx l b = (Inr (refusal m t cs (map (violation_of b) (filter (exceeds b) cs))), b)"
    moreover have "bd_outcome (refusal m t cs vs) \<noteq> B_ALLOW" for vs by (simp add: refusal_def Let_def)
    ultimately show ?thesis using r by auto
  qed
qed

lemma budget_inv_empty: "budget_inv empty_budget_store"
  by (simp add: budget_inv_def empty_budget_store_def dict_default_def)

subsection \<open>Sample lifecycles\<close>

definition quiet_env :: "nat \<Rightarrow> 'x environment" where
  "quiet_env u = \<lparr>ev_other = (\<lambda>_ s. s), ev_now = (\<lambda>_. 10), ev_uuid = (\<lambda>n. n + u)\<rparr>"

definition verdict_gate :: "gate_outcome \<Rightarrow> unit gate" where
  "verdict_gate oc = \<lparr>gate_name = ''ScopeGate'', gate_evaluate = (\<lambda>_ _ x. (Inr \<lparr>gd_outcome = oc,
     gd_reason = None, gd_review_case_id = None, gd_retry_after_seconds = None\<rparr>, x))\<rparr>"

definition one_gate :: "unit gate \<Rightarrow> unit lifecycle" where
  "one_gate g = \<lparr>lc_gates = [g], lc_planner = default_planner,
     lc_budgets = \<lparr>bm_profile = default_profile, bm_capacity_retry_after = 0\<rparr>, lc_task_lease_for = 60,
     lc_heartbeat_interval = 20, lc_review_coordinator = None, lc_attempt_observer = None\<rparr>"

definition sample_life :: "unit life" where
  "sample_life = \<lparr>lf_queue = sample_store, lf_budgets = empty_budget_store, lf_ext = ()\<rparr>"

definition sample_schedule :: schedule_decision where
  "sample_schedule = build_decision (\<lambda>x. x) default_scheduler_config sample_task default_signals 10"

lemma quiet_env_keeps [simp]: "keeps_store (quiet_env u)"
  by (simp add: keeps_store_def quiet_env_def)

lemma sample_life_inv [simp]: "store_inv (lf_queue sample_life)"
  by (simp add: sample_life_def queue_reachable_inv[OF sample_reachable])

lemma sample_schedule_id [simp]: "sd_task_id sample_schedule = ''tsk_1''"
  by (simp add: sample_schedule_def build_decision_def Let_def)

lemma no_limits: "compile_checks default_profile t d ctx = Inr []"
proof -
  have "class_checks default_profile t a ctx c = []" for a c
    by (auto simp: class_checks_def checks_for_caps_def default_profile_def no_caps_def as_metric_limits_def Let_def
        split: option.splits)
  then show ?thesis by (simp add: compile_checks_def merge_checks_def)
qed

text \<open>The sample task is admitted under any single gate that allows it.\<close>

lemma admitted_by_gate:
  assumes gate: "\<And>t sched. gate_evaluate g t sched () = (Inr d, ())" and allow: "gd_outcome d = G_ALLOW"
  shows "\<exists>ticket s'. admit (quiet_env 5) (one_gate g) sample_schedule sample_life = (Inr (Inr ticket), s')
     \<and> tk_task ticket = sample_task\<lparr>t_attempts := 1, t_started_at := Some 10, t_finished_at := None,
          t_status := RUNNING, t_lease_expires_at := Some 70, t_claim_token := Some (new_claim_token 6),
          t_updated_at := 10, t_last_error := None\<rparr>
     \<and> s' = sample_life\<lparr>lf_queue := sample_store\<lparr>ts_tasks := [(''tsk_1'', tk_task ticket)]\<rparr>\<rparr>
     \<and> tk_reservation_id ticket = None \<and> tk_schedule ticket = sample_schedule"
proof -
  have r: "budget_reserve \<lparr>bm_profile = default_profile, bm_capacity_retry_after = 0\<rparr> 5 10 t d ctx 60 b
      = (Inr (plain_decision B_ALLOW t ''no matching budget limits''), b)" if "branch_depth ctx \<le> 0" for t d ctx b
    by (simp add: budget_reserve_def no_limits too_deep_def default_profile_def[THEN arg_cong[where f=hard_max_branch_depth]]
        default_profile_def[THEN arg_cong[where f=soft_max_branch_depth]])
  have g: "get_task ''tsk_1'' (lf_queue sample_life) = Some (sample_task\<lparr>t_updated_at := 5\<rparr>)"
    by (simp add: sample_life_def sample_get)
  have c: "queue_claim 6 10 ''tsk_1'' 60 (lf_queue sample_life) = (Inr (sample_task\<lparr>t_attempts := 1,
      t_started_at := Some 10, t_finished_at := None, t_status := RUNNING, t_lease_expires_at := Some 70,
      t_claim_token := Some (new_claim_token 6), t_updated_at := 10, t_last_error := None\<rparr>),
      sample_store\<lparr>ts_tasks := [(''tsk_1'', sample_task\<lparr>t_attempts := 1,
      t_started_at := Some 10, t_finished_at := None, t_status := RUNNING, t_lease_expires_at := Some 70,
      t_claim_token := Some (new_claim_token 6), t_updated_at := 10, t_last_error := None\<rparr>)]\<rparr>)"
    by (simp add: sample_life_def queue_claim_def claim_task_def sample_store_eq Let_def)
  show ?thesis
    by (simp add: admit_def fetch_def bind_op_def g lift_res_def one_gate_def quiet_env_def
        pause_def on_ext_def gate allow budget_and_claim_def default_planner_def on_budgets_def r default_context_def
        plain_decision_def claim_and_dispatch_def start_attempt_def try_except_def on_queue_def c validate_ticket_def)
qed

lemma sample_admitted:
  "\<exists>ticket s'. admit (quiet_env 5) (one_gate (verdict_gate G_ALLOW)) sample_schedule sample_life = (Inr (Inr ticket), s')"
proof -
  have "gate_evaluate (verdict_gate G_ALLOW) t sched () = (Inr \<lparr>gd_outcome = G_ALLOW,
     gd_reason = None, gd_review_case_id = None, gd_retry_after_seconds = None\<rparr>, ())" for t sched
    by (simp add: verdict_gate_def)
  from admitted_by_gate[OF this] show ?thesis by auto
qed

lemma sample_deferred:
  "\<exists>r s'. admit (quiet_env 5) (one_gate (verdict_gate G_DEFER)) sample_schedule sample_life = (Inr (Inl r), s')
     \<and> lr_outcome r = L_DEFERRED"
proof -
  have g: "get_task ''tsk_1'' (lf_queue sample_life) = Some (sample_task\<lparr>t_updated_at := 5\<rparr>)"
    by (simp add: sample_life_def sample_get)
  from queue_refines[OF sample_life_inv g, of 10 "Defer 0 (Some ''execution gate deferred task'')"]
  obtain u q where q: "queue_defer 10 ''tsk_1'' 0 (Some ''execution gate deferred task'') (lf_queue sample_life) = (Inr u, q)"
    by (cases "queue_defer 10 ''tsk_1'' 0 (Some ''execution gate deferred task'') (lf_queue sample_life)")
      (auto simp: step_refined_def task_step.simps)
  show ?thesis
    by (simp add: admit_def fetch_def bind_op_def g lift_res_def one_gate_def quiet_env_def pause_def on_ext_def
        verdict_gate_def on_queue_def q or_text_def start_attempt_def report_def)
qed

text \<open>The ends of the budget and claim phase that give no ticket.\<close>

lemma budget_refused_durable:
  assumes br: "budget_branch env lc t sched budget s2 (Inl r) s'" and env: "keeps_store env" and inv2: "store_inv (lf_queue s2)"
  shows "lr_outcome r \<in> {L_DEFERRED, L_BLOCKED, L_STALE} \<and> \<not> lr_claimed r \<and> validate_lifecycle_result r = Inr r
    \<and> (if lr_outcome r = L_STALE then lr_queue_status r = map_option t_status (get_task (t_task_id t) (lf_queue s'))
       else durable r (lf_queue s'))"
proof -
  have inv: "store_inv (lf_queue (ev_other env k s3))" if "lf_queue s3 = lf_queue s2" for k s3
    by (rule keeps_storeD[OF env]) (simp add: that inv2)
  show ?thesis
  proof (cases "bd_outcome budget")
    case B_ALLOW
    with br have "claim_and_dispatch env lc t sched (map_option r_id (bd_reservation budget)) s2 = (Inr (Inl r), s')"
      by (simp add: budget_branch_def)
    from claim_and_dispatch_Inr[OF this] show ?thesis
      by (auto simp: claimed_or_released_def validate_lifecycle_result_def)
  next
    case B_DEFER
    with br obtain u q reason delay where
      "queue_defer (ev_now env 1) (t_task_id t) delay reason (lf_queue (ev_other env 1 s2)) = (Inr u, q)"
      "lf_queue s' = q" "r = (task_result t sched L_DEFERRED (bd_reason budget) (Some (t_status u)))\<lparr>lr_backpressure := True\<rparr>"
      by (auto simp: budget_branch_def)
    with deferred_durable[OF inv[OF refl] this(1)] show ?thesis
      by (simp add: durable_def validate_lifecycle_result_def)
  next
    case B_DENY
    with br obtain u q reason s3 where s3: "lf_queue s3 = lf_queue s2"
      "queue_block (ev_now env 1) (t_task_id t) reason (lf_queue (ev_other env 1 s3)) = (Inr u, q)"
      "lf_queue s' = q" "r = task_result t sched L_BLOCKED (bd_reason budget) (Some (t_status u))"
      by (auto simp: budget_branch_def)
    with blocked_durable[OF inv[OF s3(1)] s3(2)] show ?thesis
      by (simp add: durable_def validate_lifecycle_result_def)
  qed
qed

subsection \<open>The properties\<close>

text \<open>C7: a task is dispatched only when everything authorised it: whatever the other coroutines do
  meanwhile, a ticket means that the task was runnable when it was looked up, that every configured gate
  in order allowed it (or its review was approved by the coordinator), that the budget decision for the
  planned demand was ALLOW and its reservation is the ticket's, and that the stored task is now the RUNNING
  one of the ticket, under the claim token this admission drew.\<close>

theorem claimed_only_when_authorized:
  assumes "admit env lc sched s = (Inr (Inr ticket), s')" and "keeps_store env" and "store_inv (lf_queue s)"
  shows "\<exists>t s1 plan x budget s2. get_task (sd_task_id sched) (lf_queue s) = Some t \<and> t_status t \<in> {PENDING, DEFERRED}
    \<and> gates_pass env lc t sched 3 (lc_gates lc) s s1
    \<and> lc_planner lc t sched (lf_ext s1) = (Inr plan, x)
    \<and> reserved_for env lc t plan budget (ev_other env 0 (s1\<lparr>lf_ext := x\<rparr>)) s2
    \<and> bd_outcome budget = B_ALLOW
    \<and> tk_schedule ticket = sched \<and> tk_reservation_id ticket = map_option r_id (bd_reservation budget)
    \<and> get_task (t_task_id t) (lf_queue s') = Some (tk_task ticket) \<and> t_status (tk_task ticket) = RUNNING
    \<and> t_claim_token (tk_task ticket) = Some (new_claim_token (ev_uuid env 1))"
  using assms(1)
proof (rule admit_ticket)
  fix t s1 plan x budget s2
  assume t: "get_task (sd_task_id sched) (lf_queue s) = Some t" "t_status t \<in> {PENDING, DEFERRED}"
    and g: "apply_gates env 3 lc t sched (lc_gates lc) s = (Inr None, s1)" "gates_pass env lc t sched 3 (lc_gates lc) s s1"
    and p: "lc_planner lc t sched (lf_ext s1) = (Inr plan, x)"
      "reserved_for env lc t plan budget (ev_other env 0 (s1\<lparr>lf_ext := x\<rparr>)) s2" "bd_outcome budget = B_ALLOW"
    and c: "claim_and_dispatch env lc t sched (map_option r_id (bd_reservation budget)) s2 = (Inr (Inr ticket), s')"
  have "store_inv (lf_queue (s1\<lparr>lf_ext := x\<rparr>))" using apply_gates_frame[OF assms(2) g(1) assms(3)] by simp
  from keeps_storeD[OF assms(2) this] have "store_inv (lf_queue s2)" by (simp add: reserved_for_queue[OF p(2)])
  from ticket_task[OF c assms(2) this] t g(2) p show ?thesis by blast
qed

theorem claimed_only_when_authorized_witness:
  "\<exists>ticket s' t s1. admit (quiet_env 5) (one_gate (verdict_gate G_ALLOW)) sample_schedule sample_life = (Inr (Inr ticket), s')
    \<and> gates_pass (quiet_env 5) (one_gate (verdict_gate G_ALLOW)) t sample_schedule 3 [verdict_gate G_ALLOW] sample_life s1
    \<and> get_task ''tsk_1'' (lf_queue s') = Some (tk_task ticket)"
proof -
  obtain ticket s' where a: "admit (quiet_env 5) (one_gate (verdict_gate G_ALLOW)) sample_schedule sample_life = (Inr (Inr ticket), s')"
    using sample_admitted by blast
  have "lc_gates (one_gate (verdict_gate G_ALLOW)) = [verdict_gate G_ALLOW]" by (simp add: one_gate_def)
  moreover have "t_task_id t = ''tsk_1''" if "get_task ''tsk_1'' (lf_queue sample_life) = Some t" for t
    using that sample_fields(5) by (auto simp: sample_life_def sample_get)
  ultimately show ?thesis
    using claimed_only_when_authorized[OF a quiet_env_keeps sample_life_inv] a by auto
qed

text \<open>An admission that does not dispatch leaves an explicit durable task state: it reports DEFERRED,
  BLOCKED or REVIEW exactly when the stored task is now in that state, or STALE together with the state
  somebody else gave the task; it never claims, and every result it returns is a valid LifecycleResult.\<close>

theorem refused_admission_is_durable:
  assumes "admit env lc sched s = (Inr (Inl r), s')" and "keeps_store env" and "store_inv (lf_queue s)"
  shows "lr_outcome r \<in> {L_DEFERRED, L_BLOCKED, L_REVIEW, L_STALE} \<and> \<not> lr_claimed r
    \<and> validate_lifecycle_result r = Inr r
    \<and> (if lr_outcome r = L_STALE
       then lr_queue_status r = map_option t_status (get_task (sd_task_id sched) (lf_queue s'))
       else durable r (lf_queue s'))"
  using admit_Inr[OF assms(1)]
proof (elim disjE exE conjE)
  fix t x s1
  assume "apply_gates env 3 lc t sched (lc_gates lc) s = (Inr (Some x), s1)" "Inl r = Inl x" "lf_queue s' = lf_queue s1"
  with apply_gates_frame[OF assms(2) _ assms(3), of 3 lc t sched "lc_gates lc" "Some x" s1]
  show ?thesis by (auto simp: validate_lifecycle_result_def)
next
  fix t s1
  assume t: "get_task (sd_task_id sched) (lf_queue s) = Some t"
    and g: "apply_gates env 3 lc t sched (lc_gates lc) s = (Inr None, s1)"
    and b: "budget_and_claim env lc t sched s1 = (Inr (Inl r), s')"
  have id: "t_task_id t = sd_task_id sched" using t store_invD(3)[OF assms(3)] by (simp add: get_task_def)
  from budget_and_claim_Inr[OF b] obtain plan x budget s2 where
    rf: "reserved_for env lc t plan budget (ev_other env 0 (s1\<lparr>lf_ext := x\<rparr>)) s2"
    and br: "budget_branch env lc t sched budget s2 (Inl r) s'" by blast
  have "store_inv (lf_queue (s1\<lparr>lf_ext := x\<rparr>))" using apply_gates_frame[OF assms(2) g assms(3)] by simp
  from keeps_storeD[OF assms(2) this] have inv2: "store_inv (lf_queue s2)" by (simp add: reserved_for_queue[OF rf])
  from budget_refused_durable[OF br assms(2) inv2] id show ?thesis by auto
next
  fix t reason
  assume "get_task (sd_task_id sched) (lf_queue s) = Some t" "s' = s"
    "Inl r = Inl (task_result t sched L_STALE reason (Some (t_status t)))"
  then show ?thesis by (simp add: validate_lifecycle_result_def)
qed (auto simp: validate_lifecycle_result_def)

theorem refused_admission_is_durable_witness:
  "\<exists>r s'. admit (quiet_env 5) (one_gate (verdict_gate G_DEFER)) sample_schedule sample_life = (Inr (Inl r), s')
    \<and> durable r (lf_queue s')"
  using sample_deferred refused_admission_is_durable[OF _ quiet_env_keeps sample_life_inv, of 5 "one_gate (verdict_gate G_DEFER)" sample_schedule]
  by fastforce

text \<open>A refused admission holds no budget: when it returns without a ticket, also because the claim was
  lost to another coordinator after the reservation had been made, every bucket holds exactly the committed
  and reserved amounts it held before (the other coroutines taken to leave the budget alone).\<close>

theorem refused_admission_holds_no_budget:
  assumes "admit env lc sched s = (Inr (Inl r), s')" and "keeps_budgets env" and "budget_inv (lf_budgets s)"
    and "0 < lc_task_lease_for lc" and "get_reservation (new_reservation_id (ev_uuid env 0)) (lf_budgets s) = None"
    and "\<forall>t x plan x'. lc_planner lc t sched x = (Inr plan, x') \<longrightarrow> demand_ok (bp_demand plan)"
  shows "usage k (lf_budgets s') = usage k (lf_budgets s)"
  using admit_Inr[OF assms(1)]
proof (elim disjE exE conjE)
  fix t x s1
  assume "apply_gates env 3 lc t sched (lc_gates lc) s = (Inr (Some x), s1)" "lf_budgets s' = lf_budgets s1"
  with spares_apply_gates[OF assms(2), of 3 lc t sched "lc_gates lc"] show ?thesis
    unfolding spares_budgets_def by (metis snd_conv)
next
  fix t s1
  assume g: "apply_gates env 3 lc t sched (lc_gates lc) s = (Inr None, s1)"
    and b: "budget_and_claim env lc t sched s1 = (Inr (Inl r), s')"
  have b1: "lf_budgets s1 = lf_budgets s"
    using g spares_apply_gates[OF assms(2), of 3 lc t sched "lc_gates lc"] unfolding spares_budgets_def by (metis snd_conv)
  from budget_and_claim_Inr[OF b] obtain plan x budget s2 where
    pl: "lc_planner lc t sched (lf_ext s1) = (Inr plan, x)"
    and rf: "reserved_for env lc t plan budget (ev_other env 0 (s1\<lparr>lf_ext := x\<rparr>)) s2"
    and br: "budget_branch env lc t sched budget s2 (Inl r) s'" by blast
  have keep: "lf_budgets (ev_other env j z) = lf_budgets z" for j z using assms(2) by (simp add: keeps_budgets_def)
  from rf have rs: "budget_reserve (lc_budgets lc) (ev_uuid env 0) (ev_now env 0) t (bp_demand plan) (bp_context plan)
      (lc_task_lease_for lc) (lf_budgets s) = (Inr budget, lf_budgets s2)"
    by (auto simp: reserved_for_def keep b1)
  have "demand_ok (bp_demand plan)" using assms(6) pl by blast
  from reserved_then_released[OF assms(3,4) this assms(5) rs] br
  show ?thesis
    by (cases "bd_outcome budget")
      (auto simp: budget_branch_def keep claimed_or_released_def dest!: claim_and_dispatch_Inr)
qed auto

theorem refused_admission_holds_no_budget_witness:
  "\<exists>r s'. admit (quiet_env 5) (one_gate (verdict_gate G_DEFER)) sample_schedule sample_life = (Inr (Inl r), s')
    \<and> usage (''global'', HARD, M_TASKS) (lf_budgets s') = (0, 0)"
proof -
  obtain r s' where a: "admit (quiet_env 5) (one_gate (verdict_gate G_DEFER)) sample_schedule sample_life = (Inr (Inl r), s')"
    using sample_deferred by blast
  have "demand_ok (bp_demand plan)" if "lc_planner (one_gate (verdict_gate G_DEFER)) t sample_schedule x = (Inr plan, x')" for t x plan x'
  proof -
    have "sg_estimated_cost (sd_signals sample_schedule) = 1"
      by (simp add: sample_schedule_def build_decision_def default_signals_def Let_def)
    with that show ?thesis
      by (auto simp: one_gate_def default_planner_def lift_res_def demand_ok_def as_metric_amounts_def default_demand_def tolerance_def)
  qed
  moreover have "keeps_budgets (quiet_env 5 :: unit environment)" by (simp add: keeps_budgets_def quiet_env_def)
  moreover have "lf_budgets sample_life = empty_budget_store" by (simp add: sample_life_def)
  moreover have "get_reservation i empty_budget_store = None" for i by (simp add: get_reservation_def empty_budget_store_def)
  moreover have "0 < lc_task_lease_for (one_gate (verdict_gate G_DEFER))" by (simp add: one_gate_def)
  ultimately have "usage (''global'', HARD, M_TASKS) (lf_budgets s') = usage (''global'', HARD, M_TASKS) empty_budget_store"
    using refused_admission_holds_no_budget[OF a] budget_inv_empty by auto
  with a show ?thesis by (auto simp: usage_def empty_budget_store_def dict_default_def)
qed

text \<open>The recon-only baseline binds the whole coordinator: when the restrictions gate is among its gates
  and the task's action violates the baseline, no admission of the task ever returns a ticket, whatever the
  other gates, the reviewers, the budget and the other coroutines do.\<close>

theorem baseline_never_dispatched:
  assumes "restrictions_as_gate g \<in> set (lc_gates lc)" and "get_task (sd_task_id sched) (lf_queue s) = Some t"
    and "rg_descriptors g t = Some d" and "\<not> recon_only d"
  shows "admit env lc sched s \<noteq> (Inr (Inr ticket), s')"
proof
  assume "admit env lc sched s = (Inr (Inr ticket), s')"
  then show False
  proof (rule admit_ticket)
    fix t' s1
    assume "get_task (sd_task_id sched) (lf_queue s) = Some t'" "gates_pass env lc t' sched 3 (lc_gates lc) s s1"
    with gates_pass_each[OF _ assms(1)] assms(2) obtain x gd x' where
      "restrictions_evaluate g t sched x = (Inr gd, x')" and "gd_outcome gd = G_ALLOW \<or> gd_outcome gd = G_REVIEW"
      by (auto simp: restrictions_as_gate_def) blast+
    with restrictions_outcome[OF this(1)] decide_outcome(3)[OF assms(3,4)] show False
      by (simp add: approved_by_review_def)
  qed
qed

theorem baseline_never_dispatched_witness:
  "\<nexists>ticket s'. admit (quiet_env 5) ((one_gate (verdict_gate G_ALLOW))\<lparr>lc_gates := [restrictions_as_gate
       \<lparr>rg_engine = [], rg_descriptors = (\<lambda>_. Some exploit_descriptor), rg_recorder = None, rg_review_bridge = None\<rparr>]\<rparr>)
     sample_schedule sample_life = (Inr (Inr ticket), s')"
proof -
  have "get_task (sd_task_id sample_schedule) (lf_queue sample_life) = Some (sample_task\<lparr>t_updated_at := 5\<rparr>)"
    by (simp add: sample_life_def sample_get)
  from baseline_never_dispatched[OF _ this _ sample_descriptors(2), of "\<lparr>rg_engine = [], rg_descriptors = (\<lambda>_. Some exploit_descriptor),
      rg_recorder = None, rg_review_bridge = None\<rparr>"] show ?thesis by simp
qed

end
