(* ===== verification/Execution_Properties.thy ===== *)
theory Execution_Properties
  imports Admission_Guarantees
begin

section \<open>Frames of an execution\<close>

text \<open>
  What the steps of Lifecycle.execute_claimed (recon/core/lifecycle.py) leave unchanged, what the four ways
  to finish do to the stored task, and invariant triples over the operations of a lifecycle.
\<close>

declare split_paired_All [simp del] split_paired_Ex [simp del]

subsection \<open>Frames of the finishing steps\<close>

abbreviation ticket_id :: "dispatch_ticket \<Rightarrow> string" where
  "ticket_id k \<equiv> t_task_id (tk_task k)"

definition stamped :: "dispatch_ticket \<Rightarrow> lifecycle_result \<Rightarrow> lifecycle_result" where
  "stamped k r = r\<lparr>lr_claimed := True, lr_execution_attempt := Some (t_attempts (tk_task k))\<rparr>"

lemma complete_frame:
  assumes "complete lc k r s = (x, s')"
  shows "lf_queue s' = lf_queue s \<and> lf_budgets s' = lf_budgets s \<and> (\<forall>y. x = Inr y \<longrightarrow> y = stamped k r)"
  using report_frame[OF assms[unfolded complete_def]] by (auto simp: stamped_def)

lemma complete_stale_frame:
  assumes "complete_stale lc k e s = (x, s')"
  shows "lf_queue s' = lf_queue s \<and> lf_budgets s' = lf_budgets s
    \<and> (\<forall>y. x = Inr y \<longrightarrow> (\<exists>reason. y = stamped k (execution_result k L_STALE reason
          (map_option t_status (get_task (ticket_id k) (lf_queue s))))))"
proof -
  have "complete lc k (execution_result k L_STALE (Some (''stale execution could not finalize task: '' @ exc_str e))
      (map_option t_status (get_task (ticket_id k) (lf_queue s)))) s = (x, s')"
    using assms by (simp add: complete_stale_def stale_completion_result_def bind_op_def fetch_def lift_res_def)
  from complete_frame[OF this] show ?thesis by blast
qed

definition settled :: "dispatch_ticket \<Rightarrow> lifecycle_result \<Rightarrow> 'x life \<Rightarrow> bool" where
  "settled k r s \<longleftrightarrow> lr_claimed r \<and> lr_execution_attempt r = Some (t_attempts (tk_task k)) \<and> \<not> lr_backpressure r
     \<and> lr_task_id r = Some (ticket_id k)
     \<and> (if lr_outcome r = L_STALE
        then lr_queue_status r = map_option t_status (get_task (ticket_id k) (lf_queue s))
        else lr_outcome r \<in> {L_SUCCEEDED, L_RETRY, L_FAILED} \<and> durable r (lf_queue s))"

lemma execution_result_fields [simp]:
  "lr_outcome (execution_result k oc reason st) = oc" "lr_task_id (execution_result k oc reason st) = Some (ticket_id k)"
  "lr_queue_status (execution_result k oc reason st) = st" "lr_backpressure (execution_result k oc reason st) = False"
  by (simp_all add: execution_result_def)

lemma stamped_fields [simp]:
  "lr_outcome (stamped k r) = lr_outcome r" "lr_task_id (stamped k r) = lr_task_id r"
  "lr_queue_status (stamped k r) = lr_queue_status r" "lr_backpressure (stamped k r) = lr_backpressure r"
  "lr_claimed (stamped k r)" "lr_execution_attempt (stamped k r) = Some (t_attempts (tk_task k))"
  by (simp_all add: stamped_def)

lemma stale_settled:
  "complete_stale lc k e s = (Inr r, s') \<Longrightarrow> settled k r s'"
  using complete_stale_frame[of lc k e s "Inr r" s'] by (auto simp: settled_def)

text \<open>Finishing with a task in the state the outcome names.\<close>

lemma completed_settled:
  assumes "complete lc k (execution_result k oc reason (Some (t_status u))) s = (Inr r, s')"
    and "get_task (ticket_id k) (lf_queue s) = Some u"
    and "oc = L_SUCCEEDED \<and> t_status u = SUCCEEDED \<or> oc = L_RETRY \<and> t_status u = DEFERRED \<or> oc = L_FAILED \<and> t_status u = FAILED"
  shows "settled k r s' \<and> lr_outcome r = oc"
  using complete_frame[OF assms(1)] assms(2,3) by (auto simp: settled_def durable_def)

lemma succeed_Inr:
  assumes "store_inv q" and "queue_succeed now tid tok q = (Inr u, q')"
  shows "get_task tid q' = Some u \<and> t_status u = SUCCEEDED"
  using queue_op_Inr[of q now tid "Succeed tok" u q'] assms by (auto simp: task_step.simps split: if_splits)

lemma fail_Inr:
  assumes "store_inv q" and "queue_fail now tid tok err d q = (Inr u, q')"
  shows "get_task tid q' = Some u \<and> t_status u \<in> {DEFERRED, FAILED} \<and> (d = None \<longrightarrow> t_status u = FAILED)"
  using queue_op_Inr[of q now tid "Fail tok err d" u q'] assms
  by (auto simp: task_step.simps Let_def split: if_splits)

lemma fail_running_Inr:
  assumes "fail_running env k err d s = (Inr u, s')" and "store_inv (lf_queue s)"
  shows "get_task (ticket_id k) (lf_queue s') = Some u \<and> t_status u \<in> {DEFERRED, FAILED}
    \<and> (d = None \<longrightarrow> t_status u = FAILED) \<and> lf_budgets s' = lf_budgets s"
proof -
  obtain token q where "queue_fail (ev_now env 0) (ticket_id k) token err d (lf_queue s) = (Inr u, q)" and "s' = s\<lparr>lf_queue := q\<rparr>"
    using assms(1) by (auto simp: fail_running_def bind_op_Inr_iff lift_res_iff on_queue_iff)
  then show ?thesis using fail_Inr[OF assms(2)] by (metis life.select_convs(1,2) life.surjective life.update_convs(1))
qed

lemma retry_or_failed_cases:
  "t_status u \<in> {DEFERRED, FAILED} \<Longrightarrow>
   retry_or_failed u = L_RETRY \<and> t_status u = DEFERRED \<or> retry_or_failed u = L_FAILED \<and> t_status u = FAILED"
  by (auto simp: retry_or_failed_def)

lemma finalize_fail:
  assumes "try_except (fail_running env k err d)
      (\<lambda>u. complete lc k (execution_result k (oc u) (t_last_error u) (Some (t_status u)))) (complete_stale lc k) s = (Inr r, s')"
    and inv: "store_inv (lf_queue s)"
    and oc: "\<And>u. t_status u \<in> {DEFERRED, FAILED} \<Longrightarrow> d = None \<longrightarrow> t_status u = FAILED \<Longrightarrow>
      oc u = L_RETRY \<and> t_status u = DEFERRED \<or> oc u = L_FAILED \<and> t_status u = FAILED"
  shows "settled k r s' \<and> lr_outcome r \<noteq> L_SUCCEEDED"
  using assms(1) unfolding try_except_Inr
proof (elim disjE exE conjE)
  fix u s1
  assume u: "fail_running env k err d s = (Inr u, s1)"
    and c: "complete lc k (execution_result k (oc u) (t_last_error u) (Some (t_status u))) s1 = (Inr r, s')"
  note f = fail_running_Inr[OF u inv]
  from oc[of u] f completed_settled[OF c] show ?thesis by auto
next
  fix e s1
  assume "complete_stale lc k e s1 = (Inr r, s')"
  from stale_settled[OF this] complete_stale_frame[OF this] show ?thesis by auto
qed

lemma commit_queue: "commit_reservation_of k s = (x, s1) \<Longrightarrow> lf_queue s1 = lf_queue s"
  by (auto simp: commit_reservation_of_def lift_res_def bind_op_def on_budgets_def split: option.splits prod.splits sum.splits)

lemma suppress_queue: "suppress (commit_reservation_of k) s = (x, s1) \<Longrightarrow> lf_queue s1 = lf_queue s"
  using commit_queue[of k s] by (auto simp: suppress_def split: prod.splits sum.splits py_error.splits)

lemma after_pause:
  assumes "bind_op m (\<lambda>_. bind_op (pause env i) f) s = (Inr r, s')"
  obtains s1 where "m s = (Inr (), s1)" and "f () (ev_other env i s1) = (Inr r, s')"
  using assms by (auto simp: bind_op_Inr_iff)

text \<open>All four ways to finish settle the task.\<close>

lemma finish_settled:
  assumes env: "keeps_store env" and inv: "store_inv (lf_queue s)"
  shows "finish_lost_lease env lc k exc s = (Inr r, s') \<Longrightarrow> settled k r s' \<and> lr_outcome r \<noteq> L_SUCCEEDED"
    and "finish_raised env lc k ty exc s = (Inr r, s') \<Longrightarrow> settled k r s' \<and> lr_outcome r \<noteq> L_SUCCEEDED"
    and "finish_cancelled env lc k ext s = (Inr r, s') \<Longrightarrow> settled k r s' \<and> lr_outcome r \<noteq> L_SUCCEEDED"
    and "finish_returned env lc k w s = (Inr r, s') \<Longrightarrow> settled k r s' \<and> (lr_outcome r = L_SUCCEEDED \<longrightarrow> wr_outcome w = W_SUCCEEDED)"
proof -
  have inv1: "store_inv (lf_queue (ev_other env i s1))" if "lf_queue s1 = lf_queue s" for i s1
    by (rule keeps_storeD[OF env]) (simp add: that inv)
  {
    assume "finish_lost_lease env lc k exc s = (Inr r, s')"
    then obtain s1 where s1: "suppress (commit_reservation_of k) s = (Inr (), s1)"
      and f: "try_except (fail_running env k (''lease heartbeat failed: '' @ exc) (Some 0))
       (\<lambda>failed. complete lc k (execution_result k (retry_or_failed failed) (t_last_error failed) (Some (t_status failed))))
       (complete_stale lc k) (ev_other env 1 s1) = (Inr r, s')"
      unfolding finish_lost_lease_def by (rule after_pause)
    show "settled k r s' \<and> lr_outcome r \<noteq> L_SUCCEEDED"
      by (rule finalize_fail[OF f inv1[OF suppress_queue[OF s1]]]) (rule retry_or_failed_cases)
  next
    assume "finish_raised env lc k ty exc s = (Inr r, s')"
    then obtain s1 where s1: "commit_reservation_of k s = (Inr (), s1)"
      and f: "try_except (fail_running env k (''executor exception: '' @ ty @ '': '' @ exc) None)
       (\<lambda>failed. complete lc k (execution_result k L_FAILED (t_last_error failed) (Some (t_status failed))))
       (complete_stale lc k) (ev_other env 1 s1) = (Inr r, s')"
      unfolding finish_raised_def by (rule after_pause)
    show "settled k r s' \<and> lr_outcome r \<noteq> L_SUCCEEDED"
      by (rule finalize_fail[OF f inv1[OF commit_queue[OF s1]]]) simp
  next
    assume "finish_cancelled env lc k ext s = (Inr r, s')"
    then obtain s1 where s1: "suppress (commit_reservation_of k) s = (Inr (), s1)"
      and f: "try_except
       (bind_op (fail_running env k (if ext then ''execution cancelled by operator''
            else ''worker execution cancelled unexpectedly'') (Some 0)) (\<lambda>cancelled.
          complete lc k (execution_result k (retry_or_failed cancelled) (t_last_error cancelled) (Some (t_status cancelled)))))
       (\<lambda>result. if ext then lift_res (Inl CancelledError) else lift_res (Inr result))
       (\<lambda>transition_error. if ext then lift_res (Inl transition_error) else complete_stale lc k transition_error)
       (ev_other env 1 s1) = (Inr r, s')"
      unfolding finish_cancelled_def by (rule after_pause)
    from f show "settled k r s' \<and> lr_outcome r \<noteq> L_SUCCEEDED"
      unfolding try_except_Inr bind_op_Inr_iff
    proof (elim disjE exE conjE)
      fix x u v s2
      assume fr: "fail_running env k (if ext then ''execution cancelled by operator''
            else ''worker execution cancelled unexpectedly'') (Some 0) (ev_other env 1 s1) = (Inr v, s2)"
        and c: "complete lc k (execution_result k (retry_or_failed v) (t_last_error v) (Some (t_status v))) s2 = (Inr x, u)"
        and i: "(if ext then lift_res (Inl CancelledError) else lift_res (Inr x)) u = (Inr r, s')"
      note g = fail_running_Inr[OF fr inv1[OF suppress_queue[OF s1]]]
      from i have "x = r" "u = s'" by (auto simp: lift_res_def split: if_splits)
      with completed_settled[OF c] g retry_or_failed_cases[of v] show ?thesis by auto
    next
      fix e u
      assume "(if ext then lift_res (Inl e) else complete_stale lc k e) u = (Inr r, s')"
      then have "complete_stale lc k e u = (Inr r, s')" by (auto simp: lift_res_def split: if_splits)
      from stale_settled[OF this] complete_stale_frame[OF this] show ?thesis by auto
    qed
  next
    assume "finish_returned env lc k w s = (Inr r, s')"
    then obtain s1 where s1: "commit_reservation_of k s = (Inr (), s1)"
      and f: "(case wr_outcome w of
       W_SUCCEEDED \<Rightarrow>
         try_except (bind_op (lift_res (claim_token_of (tk_task k))) (\<lambda>token.
             on_queue (queue_succeed (ev_now env 0) (ticket_id k) token)))
           (\<lambda>succeeded. complete lc k (execution_result k L_SUCCEEDED None (Some (t_status succeeded))))
           (complete_stale lc k)
     | W_RETRY \<Rightarrow>
         try_except (fail_running env k (or_text (wr_error w) ''worker requested retry'')
             (Some (timedelta_seconds (case wr_retry_after_seconds w of None \<Rightarrow> 0 | Some x \<Rightarrow> x))))
           (\<lambda>retried. complete lc k (execution_result k (retry_or_failed retried) (t_last_error retried) (Some (t_status retried))))
           (complete_stale lc k)
     | W_FAILED \<Rightarrow>
         try_except (fail_running env k (or_text (wr_error w) ''worker failed'') None)
           (\<lambda>failed. complete lc k (execution_result k L_FAILED (t_last_error failed) (Some (t_status failed))))
           (complete_stale lc k)) (ev_other env 1 s1) = (Inr r, s')"
      unfolding finish_returned_def by (rule after_pause)
    note inv2 = inv1[OF commit_queue[OF s1], of 1]
    show "settled k r s' \<and> (lr_outcome r = L_SUCCEEDED \<longrightarrow> wr_outcome w = W_SUCCEEDED)"
    proof (cases "wr_outcome w")
      case W_RETRY
      with f have "settled k r s' \<and> lr_outcome r \<noteq> L_SUCCEEDED"
        by (intro finalize_fail[OF _ inv2 retry_or_failed_cases]) auto
      then show ?thesis by simp
    next
      case W_FAILED
      with f have "settled k r s' \<and> lr_outcome r \<noteq> L_SUCCEEDED"
        by (intro finalize_fail[OF _ inv2, where oc="\<lambda>_. L_FAILED"]) auto
      then show ?thesis by simp
    next
      case W_SUCCEEDED
      with f have "try_except (bind_op (lift_res (claim_token_of (tk_task k))) (\<lambda>token.
             on_queue (queue_succeed (ev_now env 0) (ticket_id k) token)))
           (\<lambda>succeeded. complete lc k (execution_result k L_SUCCEEDED None (Some (t_status succeeded))))
           (complete_stale lc k) (ev_other env 1 s1) = (Inr r, s')" by simp
      from this[unfolded try_except_Inr] show ?thesis
      proof (elim disjE exE conjE)
        fix u s2
        assume "bind_op (lift_res (claim_token_of (tk_task k))) (\<lambda>token. on_queue (queue_succeed (ev_now env 0) (ticket_id k) token))
            (ev_other env 1 s1) = (Inr u, s2)"
          and c: "complete lc k (execution_result k L_SUCCEEDED None (Some (t_status u))) s2 = (Inr r, s')"
        then have "get_task (ticket_id k) (lf_queue s2) = Some u \<and> t_status u = SUCCEEDED"
          using succeed_Inr[OF inv2] by (auto simp: bind_op_Inr_iff lift_res_iff on_queue_iff)
        with completed_settled[OF c] W_SUCCEEDED show ?thesis by simp
      next
        fix e s2
        assume "complete_stale lc k e s2 = (Inr r, s')"
        from stale_settled[OF this] W_SUCCEEDED show ?thesis by simp
      qed
    qed
  }
qed

subsection \<open>Invariant triples\<close>

text \<open>From a state with \<open>P\<close>, the operation keeps \<open>P\<close>, moves the state along \<open>G\<close> and, when it returns,
  its value satisfies \<open>Q\<close>. \<open>G\<close> is a preorder.\<close>

definition triple :: "('s \<Rightarrow> 's \<Rightarrow> bool) \<Rightarrow> ('s \<Rightarrow> bool) \<Rightarrow> ('s, 'a) op \<Rightarrow> ('a \<Rightarrow> bool) \<Rightarrow> bool" where
  "triple G P m Q \<longleftrightarrow> (\<forall>s x s'. P s \<longrightarrow> m s = (x, s') \<longrightarrow> G s s' \<and> P s' \<and> (\<forall>y. x = Inr y \<longrightarrow> Q y))"

lemma tripleI: "(\<And>s x s'. P s \<Longrightarrow> m s = (x, s') \<Longrightarrow> G s s' \<and> P s' \<and> (\<forall>y. x = Inr y \<longrightarrow> Q y)) \<Longrightarrow> triple G P m Q"
  unfolding triple_def by blast

lemma tripleD: "triple G P m Q \<Longrightarrow> P s \<Longrightarrow> m s = (x, s') \<Longrightarrow> G s s' \<and> P s' \<and> (\<forall>y. x = Inr y \<longrightarrow> Q y)"
  unfolding triple_def by blast

lemma triple_bind:
  assumes "transp G" and "triple G P m Q" and "\<And>x. Q x \<Longrightarrow> triple G P (f x) Q'"
  shows "triple G P (bind_op m f) Q'"
proof (rule tripleI)
  fix s x s'
  assume P: "P s" and b: "bind_op m f s = (x, s')"
  obtain y s1 where m: "m s = (y, s1)" by force
  note 1 = tripleD[OF assms(2) P m]
  show "G s s' \<and> P s' \<and> (\<forall>y. x = Inr y \<longrightarrow> Q' y)"
  proof (cases y)
    case (Inl e)
    with b m 1 show ?thesis by (simp add: bind_op_def) blast
  next
    case (Inr v)
    with b m have "f v s1 = (x, s')" by (simp add: bind_op_def)
    from tripleD[OF assms(3) _ this] 1 Inr assms(1) show ?thesis by (blast dest: transpD)
  qed
qed

lemma triple_try_except:
  assumes "transp G" and "triple G P m Q" and "\<And>x. Q x \<Longrightarrow> triple G P (f x) Q'" and "\<And>e. triple G P (h e) Q'"
  shows "triple G P (try_except m f h) Q'"
proof (rule tripleI)
  fix s x s'
  assume P: "P s" and b: "try_except m f h s = (x, s')"
  obtain y s1 where m: "m s = (y, s1)" by force
  note 1 = tripleD[OF assms(2) P m]
  show "G s s' \<and> P s' \<and> (\<forall>y. x = Inr y \<longrightarrow> Q' y)"
  proof (cases y)
    case (Inl e)
    show ?thesis
    proof (cases "caught e")
      case True
      with b m Inl have "h e s1 = (x, s')" by (simp add: try_except_def)
      from tripleD[OF assms(4) _ this] 1 assms(1) show ?thesis by (blast dest: transpD)
    next
      case False
      with b m 1 Inl show ?thesis by (simp add: try_except_def) blast
    qed
  next
    case (Inr v)
    with b m have "f v s1 = (x, s')" by (simp add: try_except_def)
    from tripleD[OF assms(3) _ this] 1 Inr assms(1) show ?thesis by (blast dest: transpD)
  qed
qed

lemma triple_lift_res: "reflp G \<Longrightarrow> (\<And>y. x = Inr y \<Longrightarrow> Q y) \<Longrightarrow> triple G P (lift_res x) Q"
  by (auto simp: triple_def lift_res_iff reflpD)

lemma triple_suppress:
  assumes "triple G P m Q"
  shows "triple G P (suppress m) (\<lambda>_. True)"
proof (rule tripleI)
  fix s x s'
  assume P: "P s" and b: "suppress m s = (x, s')"
  obtain y s1 where m: "m s = (y, s1)" by force
  have "s' = s1" using b m by (auto simp: suppress_def split: sum.splits py_error.splits)
  with tripleD[OF assms P m] show "G s s' \<and> P s' \<and> (\<forall>y. x = Inr y \<longrightarrow> True)" by blast
qed

lemma triple_option:
  "triple G P a Q \<Longrightarrow> (\<And>x. triple G P (f x) Q) \<Longrightarrow> triple G P (case v of None \<Rightarrow> a | Some x \<Rightarrow> f x) Q"
  by (cases v) auto

lemma triple_heartbeat_loop:
  assumes G: "reflp G" "transp G" and pause: "\<And>i. triple G P (pause env i) (\<lambda>_. True)"
    and beat: "\<And>b. triple G P (heartbeat lc tid token rid b) (\<lambda>_. True)"
  shows "triple G P (heartbeat_loop env i lc tid token rid beats) (\<lambda>_. True)"
proof (induction beats arbitrary: i)
  case Nil
  show ?case unfolding heartbeat_loop.simps by (rule triple_lift_res[OF G(1)]) simp
next
  case (Cons b bs)
  show ?case
    unfolding heartbeat_loop.simps
    by (intro triple_bind[OF G(2) pause] triple_bind[OF G(2) beat] triple_option Cons.IH triple_lift_res[OF G(1)]) simp
qed

lemma triple_supervise:
  assumes G: "reflp G" "transp G" and pause: "\<And>i. triple G P (pause env i) (\<lambda>_. True)"
    and beat: "\<And>b tok. t_claim_token (tk_task k) = Some tok \<Longrightarrow>
      triple G P (heartbeat lc (ticket_id k) tok (tk_reservation_id k) b) (\<lambda>_. True)"
  shows "triple G P (supervise env lc k beats ending) (\<lambda>_. True)"
proof (cases "t_claim_token (tk_task k)")
  case None
  then show ?thesis unfolding supervise_def None option.case by (intro triple_lift_res[OF G(1)]) simp
next
  case (Some tok)
  show ?thesis
    unfolding supervise_def Some option.case
    by (intro triple_bind[OF G(2) triple_heartbeat_loop[OF G pause beat[OF Some]]] triple_option
        triple_bind[OF G(2) pause] triple_lift_res[OF G(1)]) simp_all
qed

lemma supervise_returns:
  fixes s :: "'x life"
  shows "\<exists>v s'. supervise env lc k beats ending s = (Inr v, s')"
proof -
  have "\<exists>v s'. heartbeat lc tid tok rid b s = (Inr v, s')" for tid tok rid b and s :: "'x life"
    by (auto simp: heartbeat_def split: prod.splits sum.splits option.splits)
  then have "\<exists>v s'. heartbeat_loop env i lc tid tok rid beats s = (Inr v, s')" for i tid tok rid and s :: "'x life"
  proof (induction beats arbitrary: i s)
    case (Cons b bs)
    obtain v s' where v: "heartbeat lc tid tok rid b (ev_other env i s) = (Inr v, s')"
      using Cons.prems by blast
    then show ?case using Cons.IH[OF Cons.prems, of "Suc i" s']
      by (cases v) (simp_all add: bind_op_def pause_def lift_res_def)
  qed (simp add: lift_res_def)
  note loop = this
  show ?thesis
  proof (cases "t_claim_token (tk_task k)")
    case None
    then show ?thesis by (simp add: supervise_def lift_res_def)
  next
    case (Some tok)
    obtain v s' where "heartbeat_loop env 3 lc (ticket_id k) tok (tk_reservation_id k) beats s = (Inr v, s')"
      using loop by blast
    with Some show ?thesis by (cases v) (simp_all add: supervise_def bind_op_def lift_res_def pause_def)
  qed
qed

end
