(* ===== verification/Execution_Guarantees.thy ===== *)
theory Execution_Guarantees
  imports Execution_Properties
begin

section \<open>What an execution guarantees\<close>

text \<open>
  The properties of Lifecycle.execute_claimed (recon/core/lifecycle.py): the outcome it reports is the
  durable state of the task, a worker whose claim was lost changes nothing, the reservation is charged
  once the worker has run, and a reservation lost just before the worker ends loses its result.
\<close>

declare split_paired_All [simp del] split_paired_Ex [simp del]

subsection \<open>The store along an execution\<close>

lemma heartbeat_keeps_inv:
  "triple (\<lambda>_ _. True) (\<lambda>s. store_inv (lf_queue s)) (heartbeat lc tid tok rid b) (\<lambda>_. True)"
proof (rule tripleI)
  fix s x s'
  assume inv: "store_inv (lf_queue s)" and h: "heartbeat lc tid tok rid b s = (x, s')"
  obtain y q where q: "queue_heartbeat (bt_queue_now b) tid tok (lc_task_lease_for lc) (lf_queue s) = (y, q)" by force
  have "lf_queue s' = q"
    using h q by (auto simp: heartbeat_def on_queue_def on_budgets_def split: sum.splits option.splits prod.splits)
  moreover have "store_inv q"
    using queue_op_Inr[OF inv, of "bt_queue_now b" tid "Heartbeat tok (lc_task_lease_for lc)" _ q]
      queue_op_refused[OF inv, of "bt_queue_now b" tid "Heartbeat tok (lc_task_lease_for lc)" _ q] q inv
    by (cases y) auto
  ultimately show "True \<and> store_inv (lf_queue s') \<and> (\<forall>y. x = Inr y \<longrightarrow> True)" by simp
qed

lemma supervise_keeps_inv:
  assumes "keeps_store env"
  shows "triple (\<lambda>_ _. True) (\<lambda>s. store_inv (lf_queue s)) (supervise env lc k beats ending) (\<lambda>_. True)"
proof (rule triple_supervise[OF _ _ _ heartbeat_keeps_inv])
  show "triple (\<lambda>_ _. True) (\<lambda>s. store_inv (lf_queue s)) (pause env i) (\<lambda>_. True)" for i
    by (auto simp: triple_def intro: keeps_storeD[OF assms])
qed (simp_all add: reflp_def transp_def)

lemma supervise_worker:
  assumes "supervise env lc k beats ending s = (Inr (Sup_worker w), s')"
  shows "w = ending"
  using assms
  by (auto simp: supervise_def bind_op_Inr_iff lift_res_iff split: option.splits)

subsection \<open>A claim that was lost\<close>

definition claim_lost :: "string \<Rightarrow> string \<Rightarrow> task_store \<Rightarrow> bool" where
  "claim_lost tid tok q \<longleftrightarrow> store_inv q \<and> strip tok = tok \<and> (\<exists>t. get_task tid q = Some t \<and> t_claim_token t \<noteq> Some tok)"

lemma claim_lost_refuses:
  assumes "claim_lost tid tok q"
  shows "\<exists>e. queue_heartbeat now tid tok l q = (Inl e, q)" and "\<exists>e. queue_succeed now tid tok q = (Inl e, q)"
    and "\<exists>e. queue_fail now tid tok err d q = (Inl e, q)"
  using assms stale_token_refused[of q tid _ tok] by (auto simp: claim_lost_def refused_def)

definition queue_moves :: "(task_store \<Rightarrow> task_store \<Rightarrow> bool) \<Rightarrow> 'x life \<Rightarrow> 'x life \<Rightarrow> bool" where
  "queue_moves R s s' \<longleftrightarrow> R (lf_queue s) (lf_queue s')"

lemma stale_execution:
  fixes env :: "'x environment"
  assumes R: "reflp R" "transp R" and env: "\<And>i z. R (lf_queue z) (lf_queue (ev_other env i z))"
    and lost: "\<And>q q'. R q q' \<Longrightarrow> claim_lost (ticket_id k) tok q \<Longrightarrow> claim_lost (ticket_id k) tok q'"
    and tok: "t_claim_token (tk_task k) = Some tok"
  shows "triple (queue_moves R) (\<lambda>s. claim_lost (ticket_id k) tok (lf_queue s)) (execute_claimed env lc k beats ending)
    (\<lambda>r. lr_outcome r = L_STALE)"
proof -
  let ?G = "queue_moves R :: 'x life \<Rightarrow> 'x life \<Rightarrow> bool" and ?P = "\<lambda>s :: 'x life. claim_lost (ticket_id k) tok (lf_queue s)"
  have G: "reflp ?G" "transp ?G"
    using R by (auto simp: queue_moves_def reflp_def transp_def)
  have same: "triple ?G ?P m (\<lambda>_. True)" if "\<And>s x s'. m s = (x, s') \<Longrightarrow> lf_queue s' = lf_queue s"
    for m :: "('x life, 'c) op"
    using that reflpD[OF R(1)] by (auto simp: triple_def queue_moves_def)
  have pause: "triple ?G ?P (pause env i) (\<lambda>_. True)" for i
    using env lost[OF env] by (auto simp: triple_def queue_moves_def)
  have refuses: "triple ?G ?P (on_queue m) (\<lambda>_. Q)" if "\<And>q. claim_lost (ticket_id k) tok q \<Longrightarrow> \<exists>e. m q = (Inl e, q)"
    for m :: "(task_store, 'c) op" and Q
    using that reflpD[OF R(1)] by (fastforce simp: triple_def queue_moves_def on_queue_iff)
  have beat: "triple ?G ?P (heartbeat lc (ticket_id k) t (tk_reservation_id k) b) (\<lambda>_. True)"
    if "t_claim_token (tk_task k) = Some t" for t b
  proof (rule tripleI)
    fix s x s'
    assume P: "?P s" and h: "heartbeat lc (ticket_id k) t (tk_reservation_id k) b s = (x, s')"
    have "t = tok" using that tok by simp
    with claim_lost_refuses(1)[OF P, of "bt_queue_now b" "lc_task_lease_for lc"] h have "s' = s"
      by (auto simp: heartbeat_def on_queue_def)
    with P reflpD[OF G(1)] show "?G s s' \<and> ?P s' \<and> (\<forall>y. x = Inr y \<longrightarrow> True)" by simp
  qed
  note sup = triple_supervise[OF G pause beat]
  have commit: "triple ?G ?P (commit_reservation_of k) (\<lambda>_. True)" by (rule same) (rule commit_queue)
  have fail: "triple ?G ?P (fail_running env k err d) (\<lambda>_. False)" for err d
    unfolding fail_running_def claim_token_of_def tok option.case bind_lift_res
    by (rule refuses) (rule claim_lost_refuses(3))
  have stale: "triple ?G ?P (complete_stale lc k e) (\<lambda>r. lr_outcome r = L_STALE)" for e
  proof (rule tripleI)
    fix s x s'
    assume "?P s" "complete_stale lc k e s = (x, s')"
    with complete_stale_frame[of lc k e s x s'] reflpD[OF R(1)]
    show "?G s s' \<and> ?P s' \<and> (\<forall>r. x = Inr r \<longrightarrow> lr_outcome r = L_STALE)" by (auto simp: queue_moves_def)
  qed
  have lift: "triple ?G ?P (lift_res (Inl e)) Q" for e and Q :: "'c \<Rightarrow> bool"
    by (rule triple_lift_res[OF G(1)]) simp
  have tr: "triple ?G ?P (try_except m f (complete_stale lc k)) (\<lambda>r. lr_outcome r = L_STALE)"
    if "triple ?G ?P m (\<lambda>_. False)" for m :: "('x life, 'c) op" and f
    by (rule triple_try_except[OF G(2) that _ stale]) simp
  have succ: "triple ?G ?P (bind_op (lift_res (claim_token_of (tk_task k))) (\<lambda>token.
       on_queue (queue_succeed (ev_now env 0) (ticket_id k) token))) (\<lambda>_. False)"
    unfolding claim_token_of_def tok option.case bind_lift_res
    by (rule refuses) (rule claim_lost_refuses(2))
  have lost_lease: "triple ?G ?P (finish_lost_lease env lc k exc) (\<lambda>r. lr_outcome r = L_STALE)" for exc
    unfolding finish_lost_lease_def
    by (intro triple_bind[OF G(2) triple_suppress[OF commit]] triple_bind[OF G(2) pause] tr fail)
  have raised: "triple ?G ?P (finish_raised env lc k ty exc) (\<lambda>r. lr_outcome r = L_STALE)" for ty exc
    unfolding finish_raised_def
    by (intro triple_bind[OF G(2) commit] triple_bind[OF G(2) pause] tr fail)
  have returned: "triple ?G ?P (finish_returned env lc k w) (\<lambda>r. lr_outcome r = L_STALE)" for w
    unfolding finish_returned_def
    by (cases "wr_outcome w"; simp only: worker_outcome.case;
      intro triple_bind[OF G(2) commit] triple_bind[OF G(2) pause] tr fail succ)
  have cancelled: "triple ?G ?P (finish_cancelled env lc k ext) (\<lambda>r. lr_outcome r = L_STALE)" for ext
    unfolding finish_cancelled_def
    by (intro triple_bind[OF G(2) triple_suppress[OF commit]] triple_bind[OF G(2) pause]
        triple_try_except[OF G(2) triple_bind[OF G(2) fail]]) (auto intro: lift stale)
  show ?thesis
    unfolding execute_claimed_def
    by (rule triple_bind[OF G(2) sup])
      (auto intro: lost_lease raised returned cancelled split: supervision.split worker_end.split)
qed

subsection \<open>The reservation along an execution\<close>

definition pending :: "string \<Rightarrow> reservation_item list \<Rightarrow> budget_store \<Rightarrow> budget_store \<Rightarrow> bool" where
  "pending rid items b0 b \<longleftrightarrow> budget_inv b
     \<and> (\<exists>r. get_reservation rid b = Some r \<and> r_state r = R_ACTIVE \<and> r_items r = items)
     \<and> (\<forall>key. committed b key = committed b0 key) \<and> (\<forall>key. reserved b key = reserved b0 key)"

definition charged :: "string \<Rightarrow> reservation_item list \<Rightarrow> budget_store \<Rightarrow> budget_store \<Rightarrow> bool" where
  "charged rid items b0 b \<longleftrightarrow>
     (\<exists>r. get_reservation rid b = Some r \<and> r_state r = R_COMMITTED \<and> r_items r = items)
     \<and> (\<forall>key. reserved b key = reserved b0 key - on_key items key)
     \<and> (\<forall>key. committed b key = committed b0 key + (if is_capacity (snd (snd key)) then 0 else on_key items key))"

lemma renew_pending:
  assumes "pending rid items b0 b" and "budget_renew rid l now now' b = (x, b')"
  shows "pending rid items b0 b'"
proof (cases "l \<le> 0")
  case True
  with assms show ?thesis by (simp add: budget_renew_def)
next
  case False
  with assms(2) have r: "renew_reservation rid (now + l) now' b = (x, b')" by (simp add: budget_renew_def)
  from assms(1) obtain res where res: "get_reservation rid b = Some res" "r_state res = R_ACTIVE" "r_items res = items"
    by (auto simp: pending_def)
  then have "require_active rid b = Inr res" by (simp add: require_active_Inr)
  with r have "\<exists>r. get_reservation rid b' = Some r \<and> r_state r = R_ACTIVE \<and> r_items r = items"
    using res by (auto simp: renew_reservation_def set_reservation_def get_reservation_def split: if_splits)
  with renew_spec[of b rid "now + l" now'] assms(1) r show ?thesis by (simp add: pending_def)
qed

lemma commit_charges:
  assumes "pending rid items b0 b"
  shows "\<exists>r b'. budget_commit rid b = (Inr r, b') \<and> charged rid items b0 b'"
proof -
  from assms obtain res where res: "get_reservation rid b = Some res" "r_state res = R_ACTIVE" "r_items res = items"
    and inv: "budget_inv b" by (auto simp: pending_def)
  from commit_spec[OF inv res(1,2)] obtain b' where
    c: "commit_reservation rid b = (Inr (with_state R_COMMITTED res), b')" "closes R_COMMITTED res b b'" by blast
  have id: "r_id res = rid" using budget_invD(2)[OF inv] res(1) by (auto simp: get_reservation_def)
  have "charged rid items b0 b'"
    using get_closed[OF c(2), of rid] c(2) assms res(3)
    by (auto simp: charged_def closes_def pending_def id with_state_def)
  with c(1) show ?thesis by (auto simp: budget_commit_def)
qed

abbreviation budget_triple :: "(budget_store \<Rightarrow> bool) \<Rightarrow> ('x life, 'a) op \<Rightarrow> bool" where
  "budget_triple P m \<equiv> triple (\<lambda>_ _. True) (\<lambda>s. P (lf_budgets s)) m (\<lambda>_. True)"

lemma any_rel [simp]: "reflp (\<lambda>_ _. True)" "transp (\<lambda>_ _. True)" by (simp_all add: reflp_def transp_def)

lemma spares_triple: "spares_budgets m \<Longrightarrow> budget_triple P m"
  unfolding spares_budgets_def triple_def by (metis snd_conv)

lemma heartbeat_pending: "budget_triple (pending rid items b0) (heartbeat lc tid tok (Some rid) b)"
proof (rule tripleI)
  fix s x s'
  assume p: "pending rid items b0 (lf_budgets s)" and h: "heartbeat lc tid tok (Some rid) b s = (x, s')"
  obtain y q where q: "on_queue (queue_heartbeat (bt_queue_now b) tid tok (lc_task_lease_for lc)) s = (y, q)" by force
  then have b: "lf_budgets q = lf_budgets s" by (auto simp: on_queue_iff)
  show "True \<and> pending rid items b0 (lf_budgets s') \<and> (\<forall>y. x = Inr y \<longrightarrow> True)"
    using h q b p renew_pending[OF p]
    by (auto simp: heartbeat_def on_budgets_def split: sum.splits prod.splits)
qed

lemma commit_then:
  assumes p: "pending rid items b0 (lf_budgets s)" and rid: "tk_reservation_id k = Some rid"
    and rest: "\<And>P. budget_triple P (f ())" and m: "m = commit_reservation_of k \<or> m = suppress (commit_reservation_of k)"
    and r: "bind_op m f s = (x, s')"
  shows "charged rid items b0 (lf_budgets s')"
proof -
  from commit_charges[OF p] obtain res b' where c: "budget_commit rid (lf_budgets s) = (Inr res, b')" "charged rid items b0 b'"
    by blast
  then have "m s = (Inr (), s\<lparr>lf_budgets := b'\<rparr>)"
    using m by (auto simp: commit_reservation_of_def rid bind_op_def on_budgets_def lift_res_def suppress_def)
  with r have "f () (s\<lparr>lf_budgets := b'\<rparr>) = (x, s')" by (simp add: bind_op_def)
  from tripleD[OF rest[of "charged rid items b0"] _ this] c(2) show ?thesis by simp
qed

lemma spares_report [intro]: "spares_budgets (report lc a r)"
  unfolding spares_budgets_def using report_frame by (metis prod.collapse)

lemma spares_complete [intro]: "spares_budgets (complete lc k r)"
  unfolding complete_def by (rule spares_report)

lemma spares_complete_stale [intro]: "spares_budgets (complete_stale lc k e)"
  unfolding complete_stale_def stale_completion_result_def by (intro spares_bind) auto

lemma spares_fail_running [intro]: "spares_budgets (fail_running env k err d)"
  unfolding fail_running_def by (intro spares_bind) auto

lemma spares_try_except [intro]:
  assumes "spares_budgets m" and "\<And>x. spares_budgets (f x)" and "\<And>e. spares_budgets (h e)"
  shows "spares_budgets (try_except m f h)"
  unfolding spares_budgets_def
proof
  fix s
  show "lf_budgets (snd (try_except m f h s)) = lf_budgets s"
    using assms by (cases "m s"; cases "fst (m s)") (auto simp: try_except_def spares_budgets_def, metis snd_conv, metis snd_conv)
qed

lemma finish_charges:
  assumes p: "pending rid items b0 (lf_budgets s)" and rid: "tk_reservation_id k = Some rid" and env: "keeps_budgets env"
  shows "finish_lost_lease env lc k exc s = (x, s') \<Longrightarrow> charged rid items b0 (lf_budgets s')"
    and "finish_raised env lc k ty exc s = (x, s') \<Longrightarrow> charged rid items b0 (lf_budgets s')"
    and "finish_returned env lc k w s = (x, s') \<Longrightarrow> charged rid items b0 (lf_budgets s')"
    and "finish_cancelled env lc k ext s = (x, s') \<Longrightarrow> charged rid items b0 (lf_budgets s')"
  unfolding finish_lost_lease_def finish_raised_def finish_returned_def finish_cancelled_def
  by (erule commit_then[OF p rid, rotated 2], intro spares_triple spares_bind spares_basic(5)[OF env] spares_try_except
      spares_fail_running; auto split: worker_outcome.split intro!: spares_bind)+

subsection \<open>A sample ticket\<close>

definition running_task :: task where
  "running_task = sample_task\<lparr>t_attempts := 1, t_started_at := Some 10, t_finished_at := None,
     t_status := RUNNING, t_lease_expires_at := Some 20, t_claim_token := Some (new_claim_token 1),
     t_updated_at := 10, t_last_error := None\<rparr>"

definition sample_ticket :: dispatch_ticket where
  "sample_ticket = \<lparr>tk_task = running_task, tk_schedule = sample_schedule,
     tk_reservation_id = Some (new_reservation_id 7), tk_attempt_id = None\<rparr>"

definition executing :: "task_store \<Rightarrow> budget_store \<Rightarrow> unit life" where
  "executing q b = \<lparr>lf_queue = q, lf_budgets = b, lf_ext = ()\<rparr>"

definition succeeded_worker :: worker_result where
  "succeeded_worker = \<lparr>wr_outcome = W_SUCCEEDED, wr_error = None, wr_retry_after_seconds = None\<rparr>"

lemma sample_ticket_simps [simp]:
  "tk_reservation_id sample_ticket = Some (new_reservation_id 7)" "tk_attempt_id sample_ticket = None"
  "tk_task sample_ticket = running_task" "ticket_id sample_ticket = ''tsk_1''"
  "t_attempts running_task = 1" "t_claim_token running_task = Some (new_claim_token 1)"
  "t_task_id running_task = ''tsk_1''"
  by (simp_all add: sample_ticket_def running_task_def)

lemma executing_simps [simp]: "lf_queue (executing q b) = q" "lf_budgets (executing q b) = b"
  by (simp_all add: executing_def)

lemma quiet_env_simps [simp]: "ev_other (quiet_env u) i s = s" "ev_now (quiet_env u) i = 10" "ev_uuid (quiet_env u) i = i + u"
  by (simp_all add: quiet_env_def)

lemma sample_inv: "store_inv sample_claimed" "store_inv sample_store"
  using sample_claimed_reachable sample_reachable by (auto intro: queue_reachable_inv)

lemma sample_granted_active: "budget_inv budget_sample" "r_state sample_reservation = R_ACTIVE"
  using reachable_safe[OF budget_sample_reachable sample_profile_ok] by (simp_all add: sample_reservation_def)

lemma sample_pending: "pending (new_reservation_id 7) (r_items sample_reservation) budget_sample budget_sample"
  using sample_granted sample_granted_active by (simp add: pending_def)

lemma running_get: "get_task ''tsk_1'' sample_claimed = Some running_task"
  using sample_claimed_get by (simp only: running_task_def)

lemma running_token: "strip (new_claim_token 1) = new_claim_token 1"
proof -
  have "task_wf running_task" using store_invD(4)[OF sample_inv(1)] running_get by (simp add: get_task_def)
  from tok_norm[OF this] show ?thesis by simp
qed

lemma sample_succeeds:
  "\<exists>r s'. execute_claimed (quiet_env 5) (one_gate (verdict_gate G_ALLOW)) sample_ticket [] (Returned succeeded_worker)
     (executing sample_claimed budget_sample) = (Inr r, s') \<and> lr_outcome r = L_SUCCEEDED"
proof -
  from commit_charges[OF sample_pending] obtain res b where
    c: "budget_commit (new_reservation_id 7) budget_sample = (Inr res, b)" by blast
  have "t_status running_task = RUNNING" by (simp add: running_task_def)
  then obtain v where "task_step 10 (Succeed (new_claim_token 1)) running_task = Some v"
    using running_token by (simp add: task_step.simps)
  with queue_refines[OF sample_inv(1) running_get, of 10 "Succeed (new_claim_token 1)"]
  have "fst (queue_succeed 10 ''tsk_1'' (new_claim_token 1) sample_claimed) = Inr v"
    by (simp add: step_refined_def)
  then obtain u q where q: "queue_succeed 10 ''tsk_1'' (new_claim_token 1) sample_claimed = (Inr u, q)" by (metis prod.collapse)
  show ?thesis
    by (simp add: execute_claimed_def supervise_def bind_op_def lift_res_def pause_def finish_returned_def
        succeeded_worker_def commit_reservation_of_def on_budgets_def c try_except_def claim_token_of_def on_queue_def q
        complete_def report_def execution_result_def task_result_def idle_result_def del: One_nat_def)
qed

text \<open>An execution during which another coroutine reaps the reservation: the heartbeat at 15 extends the task
  lease and the reservation to 75, the reaper runs at 100.\<close>

definition sample_lifecycle :: "unit lifecycle" where
  "sample_lifecycle = one_gate (verdict_gate G_ALLOW)"

definition sample_beat :: beat where
  "sample_beat = \<lparr>bt_queue_now = 15, bt_renew_now = 15, bt_renew_now' = 15\<rparr>"

definition reaping_env :: "time \<Rightarrow> unit environment" where
  "reaping_env t = \<lparr>ev_other = (\<lambda>i s. if i = 0 then s\<lparr>lf_budgets := snd (budget_reap t (lf_budgets s))\<rparr> else s),
     ev_now = (\<lambda>_. 10), ev_uuid = (\<lambda>n. n)\<rparr>"

definition late_env :: "time \<Rightarrow> unit environment" where
  "late_env t = \<lparr>ev_other = (\<lambda>_ s. s), ev_now = (\<lambda>_. t), ev_uuid = (\<lambda>n. n)\<rparr>"

definition reaped_budget :: budget_store where
  "reaped_budget = snd (budget_reap 100 (snd (budget_renew (new_reservation_id 7) 60 15 15 budget_sample)))"

lemma sample_renewed: "budget_renew (new_reservation_id 7) 60 15 15 budget_sample
    = (Inr (sample_reservation\<lparr>r_expires_at := 75\<rparr>), snd (budget_renew (new_reservation_id 7) 60 15 15 budget_sample))"
  and sample_renewed_get: "get_reservation (new_reservation_id 7) (snd (budget_renew (new_reservation_id 7) 60 15 15 budget_sample))
    = Some (sample_reservation\<lparr>r_expires_at := 75\<rparr>)"
proof -
  have "require_active (new_reservation_id 7) budget_sample = Inr sample_reservation"
    using sample_granted sample_granted_active by (simp add: require_active_Inr)
  then show "budget_renew (new_reservation_id 7) 60 15 15 budget_sample
      = (Inr (sample_reservation\<lparr>r_expires_at := 75\<rparr>), snd (budget_renew (new_reservation_id 7) 60 15 15 budget_sample))"
    and "get_reservation (new_reservation_id 7) (snd (budget_renew (new_reservation_id 7) 60 15 15 budget_sample))
      = Some (sample_reservation\<lparr>r_expires_at := 75\<rparr>)"
    by (simp_all add: budget_renew_def renew_reservation_def set_reservation_def get_reservation_def)
qed

lemma reaped_budget_lost: "budget_inv reaped_budget \<and> \<not> holds reaped_budget (new_reservation_id 7)"
proof -
  have inv: "budget_inv (snd (budget_renew (new_reservation_id 7) 60 15 15 budget_sample))"
    using renew_spec[OF sample_granted_active(1)] by (simp add: budget_renew_def)
  have "lapsed 100 (snd (budget_renew (new_reservation_id 7) 60 15 15 budget_sample)) (new_reservation_id 7)"
    by (simp add: lapsed_def sample_renewed_get)
  with budgets.reap_lapsed[OF inv, of 100] show ?thesis by (simp add: reaped_budget_def)
qed

lemma sample_lost:
  "\<exists>q t. store_inv q \<and> get_task ''tsk_1'' q = Some t \<and> expired 100 t \<and> t_attempts t = 1 \<and> t_max_attempts t = 3
    \<and> budget_inv reaped_budget \<and> \<not> holds reaped_budget (new_reservation_id 7)
    \<and> supervise (reaping_env 100) sample_lifecycle sample_ticket [sample_beat] (Returned succeeded_worker)
        (executing sample_claimed budget_sample) = (Inr (Sup_worker (Returned succeeded_worker)), executing q reaped_budget)"
proof -
  let ?t = "running_task\<lparr>t_lease_expires_at := Some 75, t_updated_at := 15\<rparr>"
  have "task_step 15 (Heartbeat (new_claim_token 1) 60) running_task = Some ?t"
    using running_token by (simp add: task_step.simps running_task_def)
  with queue_refines[OF sample_inv(1) running_get, of 15 "Heartbeat (new_claim_token 1) 60"]
  have r: "step_refined sample_claimed (queue_heartbeat 15 ''tsk_1'' (new_claim_token 1) 60 sample_claimed) (Some ?t)" by simp
  then have "fst (queue_heartbeat 15 ''tsk_1'' (new_claim_token 1) 60 sample_claimed) = Inr ?t" by (simp add: step_refined_def)
  then obtain q where q: "queue_heartbeat 15 ''tsk_1'' (new_claim_token 1) 60 sample_claimed = (Inr ?t, q)"
    by (metis prod.collapse)
  from r q have "store_inv q" "get_task ''tsk_1'' q = Some ?t" by (simp_all add: step_refined_def)
  moreover have "supervise (reaping_env 100) sample_lifecycle sample_ticket [sample_beat] (Returned succeeded_worker)
      (executing sample_claimed budget_sample) = (Inr (Sup_worker (Returned succeeded_worker)), executing q reaped_budget)"
    unfolding reaped_budget_def using q sample_renewed
    by (cases "budget_renew (new_reservation_id 7) 60 15 15 budget_sample")
      (simp add: supervise_def bind_op_def lift_res_def pause_def reaping_env_def heartbeat_def on_queue_def on_budgets_def
        sample_beat_def sample_lifecycle_def one_gate_def executing_def del: One_nat_def)
  moreover have "expired 100 ?t" "t_attempts ?t = 1" "t_max_attempts ?t = 3"
    by (simp_all add: expired_def running_task_def sample_task_def default_task_def)
  ultimately show ?thesis using reaped_budget_lost by blast
qed

subsection \<open>The properties\<close>

text \<open>The outcome an execution reports is the durable one: whatever the worker did and however the other
  coroutines interfered, SUCCEEDED, RETRY and FAILED are reported exactly with the stored task SUCCEEDED,
  DEFERRED and FAILED, and STALE with whatever state somebody else gave it; SUCCEEDED is reported only for a
  worker that returned SUCCEEDED, and the result is a valid LifecycleResult.\<close>

theorem execution_outcome_is_durable:
  assumes "execute_claimed env lc k beats ending s = (Inr r, s')" and "keeps_store env" and "store_inv (lf_queue s)"
  shows "settled k r s' \<and> (lr_outcome r = L_SUCCEEDED \<longrightarrow> (\<exists>w. ending = Returned w \<and> wr_outcome w = W_SUCCEEDED))
    \<and> (1 \<le> t_attempts (tk_task k) \<longrightarrow> validate_lifecycle_result r = Inr r)"
proof -
  obtain sup s1 where sup: "supervise env lc k beats ending s = (Inr sup, s1)" using supervise_returns by blast
  have inv: "store_inv (lf_queue s1)" using tripleD[OF supervise_keeps_inv[OF assms(2)] assms(3) sup] by blast
  note finish = finish_settled[OF assms(2) inv]
  have "settled k r s' \<and> (lr_outcome r = L_SUCCEEDED \<longrightarrow> (\<exists>w. ending = Returned w \<and> wr_outcome w = W_SUCCEEDED))"
  proof (cases sup)
    case (Sup_heartbeat exc)
    with assms(1) sup finish(1) show ?thesis by (simp add: execute_claimed_def bind_op_def)
  next
    case (Sup_worker w)
    with supervise_worker sup have "w = ending" by blast
    with assms(1) sup Sup_worker finish(2-4) show ?thesis
      by (cases ending) (simp_all add: execute_claimed_def bind_op_def)
  qed
  then show ?thesis by (auto simp: settled_def validate_lifecycle_result_def split: if_splits)
qed

theorem execution_outcome_is_durable_witness:
  "\<exists>r s'. execute_claimed (quiet_env 5) (one_gate (verdict_gate G_ALLOW)) sample_ticket [] (Returned succeeded_worker)
     (executing sample_claimed budget_sample) = (Inr r, s') \<and> lr_outcome r = L_SUCCEEDED \<and> settled sample_ticket r s'"
proof -
  obtain r s' where r: "execute_claimed (quiet_env 5) (one_gate (verdict_gate G_ALLOW)) sample_ticket [] (Returned succeeded_worker)
     (executing sample_claimed budget_sample) = (Inr r, s')" "lr_outcome r = L_SUCCEEDED" using sample_succeeds by blast
  from execution_outcome_is_durable[OF r(1) quiet_env_keeps] r sample_inv show ?thesis by auto
qed

text \<open>An execution whose claim was lost changes nothing: when the stored task no longer carries the
  ticket's token, and the other coroutines (moving the task store along any preorder \<open>R\<close>) never give it back,
  then the task store moves only along \<open>R\<close>, whatever the worker and the heartbeats do, and an execution that
  returns reports STALE. With a quiet environment \<open>R\<close> is equality.\<close>

theorem stale_execution_changes_nothing:
  assumes "execute_claimed env lc k beats ending s = (x, s')"
    and "t_claim_token (tk_task k) = Some tok" and "claim_lost (t_task_id (tk_task k)) tok (lf_queue s)"
    and "reflp R" and "transp R" and "\<forall>i z. R (lf_queue z) (lf_queue (ev_other env i z))"
    and "\<forall>q q'. R q q' \<longrightarrow> claim_lost (t_task_id (tk_task k)) tok q \<longrightarrow> claim_lost (t_task_id (tk_task k)) tok q'"
  shows "R (lf_queue s) (lf_queue s') \<and> (\<forall>r. x = Inr r \<longrightarrow> lr_outcome r = L_STALE)"
  using tripleD[OF stale_execution[OF assms(4,5) _ _ assms(2), of env lc beats ending] assms(3,1)] assms(6,7)
  by (auto simp: queue_moves_def)

theorem stale_execution_changes_nothing_witness:
  "lf_queue (snd (execute_claimed (quiet_env 5) (one_gate (verdict_gate G_ALLOW)) sample_ticket [] (Returned succeeded_worker)
     (executing sample_store budget_sample))) = sample_store"
proof -
  have "claim_lost (t_task_id (tk_task sample_ticket)) (new_claim_token 1) sample_store"
    using sample_inv(2) running_token sample_get by (simp add: claim_lost_def)
  from stale_execution_changes_nothing[OF surjective_pairing, of sample_ticket "new_claim_token 1" "executing sample_store budget_sample" "(=)"] this
  show ?thesis by (simp add: reflp_def transp_def)
qed

text \<open>C25: work that ran is paid for: when the ticket's reservation is ACTIVE (and only the execution's own
  heartbeats touch the budget), it is COMMITTED afterwards with the items it held, however the execution ends,
  also when it ends in an exception: each consumable amount has moved from reserved to committed, each capacity
  amount has been given back.\<close>

theorem execution_charges_reservation:
  assumes "execute_claimed env lc k beats ending s = (x, s')" and "keeps_budgets env" and "budget_inv (lf_budgets s)"
    and "tk_reservation_id k = Some rid" and "get_reservation rid (lf_budgets s) = Some res" and "r_state res = R_ACTIVE"
  shows "charged rid (r_items res) (lf_budgets s) (lf_budgets s')"
proof -
  have p: "pending rid (r_items res) (lf_budgets s) (lf_budgets s)" using assms(3,5,6) by (simp add: pending_def)
  have "budget_triple (pending rid (r_items res) (lf_budgets s)) (supervise env lc k beats ending)"
  proof (rule triple_supervise[OF any_rel])
    show "budget_triple (pending rid (r_items res) (lf_budgets s)) (pause env i)" for i
      by (rule spares_triple[OF spares_basic(5)[OF assms(2)]])
    show "budget_triple (pending rid (r_items res) (lf_budgets s))
        (heartbeat lc (ticket_id k) tok (tk_reservation_id k) b)" for tok b
      unfolding assms(4) by (rule heartbeat_pending)
  qed
  moreover obtain sup s1 where sup: "supervise env lc k beats ending s = (Inr sup, s1)" using supervise_returns by blast
  ultimately have "pending rid (r_items res) (lf_budgets s) (lf_budgets s1)"
    using tripleD[where P="\<lambda>z. pending rid (r_items res) (lf_budgets s) (lf_budgets z)"] p by fast
  note finish = finish_charges[OF this assms(4,2)]
  show ?thesis
  proof (cases sup)
    case (Sup_heartbeat exc)
    with assms(1) sup finish(1) show ?thesis by (simp add: execute_claimed_def bind_op_def)
  next
    case (Sup_worker w)
    with assms(1) sup finish(2-4) show ?thesis by (cases w) (simp_all add: execute_claimed_def bind_op_def)
  qed
qed

theorem execution_charges_reservation_witness:
  "charged (new_reservation_id 7) (r_items sample_reservation) budget_sample (lf_budgets (snd (execute_claimed (quiet_env 5)
     (one_gate (verdict_gate G_ALLOW)) sample_ticket [] (Raised ''OSError'' ''boom'') (executing sample_claimed budget_sample))))"
proof -
  have "keeps_budgets (quiet_env 5 :: unit environment)" by (simp add: keeps_budgets_def)
  from execution_charges_reservation[OF surjective_pairing this, of "executing sample_claimed budget_sample" sample_ticket
      "new_reservation_id 7" sample_reservation] show ?thesis using sample_granted sample_granted_active by simp
qed

lemma recovery_requeues:
  assumes "store_inv (lf_queue s)" and "budget_inv (lf_budgets s)" and "\<forall>z. lf_queue (ev_other env 0 z) = lf_queue z"
    and "0 \<le> d" and "get_task i (lf_queue s) = Some t" and "expired (ev_now env 1) t"
  shows "\<exists>n s'. recover_expired env d s = (Inr n, s') \<and> get_task i (lf_queue s') = Some (expire_task (ev_now env 1) d t)"
proof -
  from budgets.reap_lapsed[OF assms(2)] obtain rs b where r: "budget_reap (ev_now env 0) (lf_budgets s) = (Inr rs, b)"
    by (metis prod.collapse)
  from recover_spec[OF assms(1,4), of "ev_now env 1"] obtain ts q where
    q: "queue_recover_expired_leases (ev_now env 1) d (lf_queue s) = (Inr ts, q)"
    and t: "get_task i q = Some (expire_task (ev_now env 1) d t)" using assms(5,6) by auto
  show ?thesis using assms(3,4) r q t
    by (simp add: recover_expired_def bind_op_def pause_def on_budgets_def on_queue_def lift_res_def del: One_nat_def)
qed

text \<open>C39: a reservation that is lost just before the worker ends loses the worker's result. When every
  heartbeat succeeded and the worker returned, in whatever outcome, but somebody else settled or reaped the
  reservation after the last heartbeat, then the execution raises and leaves the state as the others left it:
  the task is not finished and the attempt is not reported. Once the lease of the task has run out, the crash
  recovery gives the task back as DEFERRED with the claim cleared, so the work is done again, or as FAILED when
  its attempts are used up.\<close>

theorem lost_reservation_loses_result:
  assumes "tk_reservation_id k = Some rid"
    and "supervise env lc k beats (Returned w) s = (Inr (Sup_worker (Returned w)), s1)"
    and "\<not> holds (lf_budgets s1) rid"
    and "store_inv (lf_queue s1)" and "budget_inv (lf_budgets s1)" and "get_task (t_task_id (tk_task k)) (lf_queue s1) = Some t"
    and "\<forall>z. lf_queue (ev_other env' 0 z) = lf_queue z" and "expired (ev_now env' 1) t" and "0 \<le> d"
  shows "(\<exists>e. execute_claimed env lc k beats (Returned w) s = (Inl e, s1))
    \<and> (\<exists>n s2 t'. recover_expired env' d s1 = (Inr n, s2) \<and> get_task (t_task_id (tk_task k)) (lf_queue s2) = Some t'
        \<and> t_status t' = (if t_attempts t < t_max_attempts t then DEFERRED else FAILED)
        \<and> t_claim_token t' = None \<and> t_attempts t' = t_attempts t
        \<and> (t_status t' = DEFERRED \<longrightarrow> t_available_at t' = ev_now env' 1 + d))"
proof
  from close_refused(1)[OF assms(3)[unfolded holds_iff]] obtain e where
    "budget_commit rid (lf_budgets s1) = (Inl e, lf_budgets s1)" by (auto simp: budget_commit_def)
  with assms(1,2) show "\<exists>e. execute_claimed env lc k beats (Returned w) s = (Inl e, s1)"
    by (simp add: execute_claimed_def bind_op_def finish_returned_def commit_reservation_of_def on_budgets_def)
  from recovery_requeues[OF assms(4,5,7,9,6,8)] obtain n s2 where
    "recover_expired env' d s1 = (Inr n, s2)"
    "get_task (t_task_id (tk_task k)) (lf_queue s2) = Some (expire_task (ev_now env' 1) d t)" by blast
  then show "\<exists>n s2 t'. recover_expired env' d s1 = (Inr n, s2) \<and> get_task (t_task_id (tk_task k)) (lf_queue s2) = Some t'
      \<and> t_status t' = (if t_attempts t < t_max_attempts t then DEFERRED else FAILED)
      \<and> t_claim_token t' = None \<and> t_attempts t' = t_attempts t
      \<and> (t_status t' = DEFERRED \<longrightarrow> t_available_at t' = ev_now env' 1 + d)"
    by (simp add: expire_task_def)
qed

theorem lost_reservation_loses_result_witness:
  "holds budget_sample (new_reservation_id 7)
   \<and> (\<exists>e s1 n s2 t'. execute_claimed (reaping_env 100) sample_lifecycle sample_ticket [sample_beat] (Returned succeeded_worker)
         (executing sample_claimed budget_sample) = (Inl e, s1)
       \<and> recover_expired (late_env 100) 0 s1 = (Inr n, s2)
       \<and> get_task ''tsk_1'' (lf_queue s2) = Some t' \<and> t_status t' = DEFERRED \<and> t_attempts t' = 1)"
proof -
  obtain q t where q: "store_inv q" "get_task ''tsk_1'' q = Some t" "expired 100 t" "t_attempts t = 1" "t_max_attempts t = 3"
    and b: "budget_inv reaped_budget" "\<not> holds reaped_budget (new_reservation_id 7)"
    and sup: "supervise (reaping_env 100) sample_lifecycle sample_ticket [sample_beat] (Returned succeeded_worker)
       (executing sample_claimed budget_sample) = (Inr (Sup_worker (Returned succeeded_worker)), executing q reaped_budget)"
    using sample_lost by blast
  have "holds budget_sample (new_reservation_id 7)" using sample_granted sample_granted_active by (simp add: holds_def)
  with lost_reservation_loses_result[OF sample_ticket_simps(1) sup, of t "late_env 100" 0] q b show ?thesis
    by (auto simp: late_env_def)
qed

text \<open>An execution that its owner cancels never returns: it ends in the cancellation, or in the error of the
  transition when the claim was lost as well.\<close>

lemma owner_cancellation_raises: "finish_cancelled env lc k True s \<noteq> (Inr r, s')"
  by (auto simp: finish_cancelled_def bind_op_def try_except_def lift_res_def pause_def split: sum.splits prod.splits if_splits)

end
