(* ===== verification/Ip_Addr.thy ===== *)
theory Ip_Addr
  imports Prelude "HOL-Library.Word"
begin

section \<open>The ipaddress module of the standard library\<close>

text \<open>
  What the scope rules use of \<open>ipaddress\<close>: parsing and printing of IPv4 and IPv6 addresses and networks
  (\<open>ip_address\<close>, \<open>ip_network(strict=False)\<close>, \<open>str\<close>), membership and \<open>subnet_of\<close>. Addresses are words of 32
  and 128 bits; an IPv6 address may carry a zone. An input that is refused is \<open>None\<close>: every refusal is a
  \<open>ValueError\<close>.
\<close>

unbundle bit_operations_syntax

subsection \<open>Text\<close>

text \<open>\<open>s.split(c)\<close> for a one-character separator, and \<open>s.partition(c)\<close>.\<close>

fun split_on :: "char \<Rightarrow> string \<Rightarrow> string list" where
  "split_on c [] = [[]]"
| "split_on c (x # xs) =
     (if x = c then [] # split_on c xs else (x # hd (split_on c xs)) # tl (split_on c xs))"

definition before :: "char \<Rightarrow> string \<Rightarrow> string" where
  "before c s = takeWhile (\<lambda>x. x \<noteq> c) s"

definition after :: "char \<Rightarrow> string \<Rightarrow> string" where
  "after c s = drop (length (before c s) + 1) s"

text \<open>Numerals: \<open>str(n)\<close>, \<open>'%x' % n\<close> and the value of a string of digits.\<close>

fun numeral :: "nat \<Rightarrow> nat \<Rightarrow> string" where
  "numeral b n = (if b \<le> 1 \<or> n < b then [hex_digit n] else numeral b (n div b) @ [hex_digit (n mod b)])"

declare numeral.simps [simp del]

definition digit_value :: "char \<Rightarrow> nat" where
  "digit_value c = (let n = (of_char c :: nat) in
     if 48 \<le> n \<and> n \<le> 57 then n - 48 else if 97 \<le> n \<and> n \<le> 102 then n - 87
     else if 65 \<le> n \<and> n \<le> 70 then n - 55 else 16)"

definition digits_value :: "nat \<Rightarrow> string \<Rightarrow> nat" where
  "digits_value b s = foldl (\<lambda>v c. v * b + digit_value c) 0 s"

definition all_digits :: "string \<Rightarrow> bool" where
  "all_digits s \<longleftrightarrow> s \<noteq> [] \<and> (\<forall>c \<in> set s. digit_value c < 10)"

subsection \<open>IPv4\<close>

definition parse_octet :: "string \<Rightarrow> nat option" where
  "parse_octet s =
     (if \<not> all_digits s \<or> length s > 3 \<or> (s \<noteq> ''0'' \<and> hd s = CHR ''0'') \<or> digits_value 10 s > 255
      then None else Some (digits_value 10 s))"

definition word_of_parts :: "nat \<Rightarrow> nat list \<Rightarrow> 'a::len word" where
  "word_of_parts k ns = foldl (\<lambda>w n. push_bit k w OR of_nat n) 0 ns"

definition parse_ipv4 :: "string \<Rightarrow> 32 word option" where
  "parse_ipv4 s =
     (case map parse_octet (split_on CHR ''.'' s) of
        [Some a, Some b, Some c, Some d] \<Rightarrow> Some (word_of_parts 8 [a, b, c, d])
      | _ \<Rightarrow> None)"

definition parts_of_word :: "nat \<Rightarrow> nat \<Rightarrow> 'a::len word \<Rightarrow> nat list" where
  "parts_of_word k m w = map (\<lambda>i. unat (take_bit k (drop_bit (k * i) w))) (rev [0..<m])"

definition show_ipv4 :: "32 word \<Rightarrow> string" where
  "show_ipv4 w = join ''.'' (map (numeral 10) (parts_of_word 8 4 w))"

subsection \<open>IPv6\<close>

definition parse_hextet :: "string \<Rightarrow> nat option" where
  "parse_hextet s = (if s = [] \<or> length s > 4 \<or> (\<exists>c \<in> set s. digit_value c \<ge> 16) then None
     else Some (digits_value 16 s))"

text \<open>An IPv4 suffix becomes two hextets.\<close>

definition expand_ipv4_suffix :: "string list \<Rightarrow> string list option" where
  "expand_ipv4_suffix parts =
     (if CHR ''.'' \<in> set (last parts)
      then (case parse_ipv4 (last parts) of
              None \<Rightarrow> None
            | Some w \<Rightarrow> Some (butlast parts @ map (numeral 16) (parts_of_word 16 2 w)))
      else Some parts)"

definition skip_indices :: "string list \<Rightarrow> nat list" where
  "skip_indices parts = filter (\<lambda>i. parts ! i = []) [1..<length parts - 1]"

fun all_some :: "'a option list \<Rightarrow> 'a list option" where
  "all_some [] = Some []"
| "all_some (None # xs) = None"
| "all_some (Some x # xs) = map_option ((#) x) (all_some xs)"

definition hextets :: "string list \<Rightarrow> nat list option" where
  "hextets parts = all_some (map parse_hextet parts)"

definition join_hextets :: "string list \<Rightarrow> nat \<Rightarrow> string list \<Rightarrow> 128 word option" where
  "join_hextets hi skipped lo =
     (case (hextets hi, hextets lo) of
        (Some a, Some b) \<Rightarrow> Some (word_of_parts 16 (a @ replicate skipped 0 @ b))
      | _ \<Rightarrow> None)"

definition hextets_word :: "string list \<Rightarrow> 128 word option" where
  "hextets_word parts =
     (case skip_indices parts of
        [] \<Rightarrow> if length parts \<noteq> 8 \<or> hd parts = [] \<or> last parts = [] then None else join_hextets parts 0 []
      | [i] \<Rightarrow>
          (let hi = (if hd parts = [] then i - 1 else i);
               lo = (if last parts = [] then length parts - i - 2 else length parts - i - 1)
           in if hd parts = [] \<and> hi \<noteq> 0 \<or> last parts = [] \<and> lo \<noteq> 0 \<or> hi + lo \<ge> 8 then None
              else join_hextets (take hi parts) (8 - (hi + lo)) (drop (length parts - lo) parts))
      | _ \<Rightarrow> None)"

definition parse_ipv6 :: "string \<Rightarrow> 128 word option" where
  "parse_ipv6 s =
     (let parts = split_on CHR '':'' s in
      if length parts < 3 then None
      else (case expand_ipv4_suffix parts of
              None \<Rightarrow> None
            | Some parts' \<Rightarrow> if length parts' > 9 then None else hextets_word parts'))"

text \<open>The longest run of zeros, the first among equals: the loop of \<open>_compress_hextets\<close>.\<close>

fun best_run :: "string list \<Rightarrow> nat \<Rightarrow> nat \<Rightarrow> nat \<Rightarrow> nat \<Rightarrow> nat \<times> nat" where
  "best_run [] i run start best = (start, best)"
| "best_run (h # hs) i run start best =
     (if h = ''0''
      then (if run + 1 > best then best_run hs (i + 1) (run + 1) (i - run) (run + 1)
            else best_run hs (i + 1) (run + 1) start best)
      else best_run hs (i + 1) 0 start best)"

definition compress_hextets :: "string list \<Rightarrow> string list" where
  "compress_hextets hs =
     (case best_run hs 0 0 0 0 of (start, len) \<Rightarrow>
        if len \<le> 1 then hs
        else (if start = 0 then [[]] else []) @ take start hs @ [[]] @ drop (start + len) hs
             @ (if start + len = length hs then [[]] else []))"

definition show_ipv6 :: "128 word \<Rightarrow> string" where
  "show_ipv6 w = join '':'' (compress_hextets (map (numeral 16) (parts_of_word 16 8 w)))"

subsection \<open>Addresses and networks\<close>

datatype ip_addr = IPv4 "32 word" | IPv6 "128 word" "string option"

definition ip_address :: "string \<Rightarrow> ip_addr option" where
  "ip_address s =
     (if CHR ''/'' \<in> set s then None
      else case parse_ipv4 s of
        Some w \<Rightarrow> Some (IPv4 w)
      | None \<Rightarrow>
          if CHR ''%'' \<in> set s
          then (if after CHR ''%'' s = [] \<or> CHR ''%'' \<in> set (after CHR ''%'' s) then None
                else map_option (\<lambda>w. IPv6 w (Some (after CHR ''%'' s))) (parse_ipv6 (before CHR ''%'' s)))
          else map_option (\<lambda>w. IPv6 w None) (parse_ipv6 s))"

fun show_ip :: "ip_addr \<Rightarrow> string" where
  "show_ip (IPv4 w) = show_ipv4 w"
| "show_ip (IPv6 w z) = show_ipv6 w @ (case z of None \<Rightarrow> [] | Some zone \<Rightarrow> ''%'' @ zone)"

datatype ip_net = Net4 "32 word" nat | Net6 "128 word" "string option" nat

definition netmask :: "nat \<Rightarrow> 'a::len word" where
  "netmask l = (- 1) XOR drop_bit l (- 1)"

definition hostmask :: "nat \<Rightarrow> 'a::len word" where
  "hostmask l = NOT (netmask l)"

definition prefix_of_string :: "nat \<Rightarrow> string \<Rightarrow> nat option" where
  "prefix_of_string maxlen s =
     (if all_digits s \<and> digits_value 10 s \<le> maxlen then Some (digits_value 10 s) else None)"

text \<open>A dotted netmask, or else a dotted hostmask.\<close>

definition prefix_of_mask :: "32 word \<Rightarrow> nat option" where
  "prefix_of_mask w =
     (case filter (\<lambda>l. netmask l = w) [0..<33] of
        l # _ \<Rightarrow> Some l
      | [] \<Rightarrow> (case filter (\<lambda>l. netmask l = NOT w) [0..<33] of l # _ \<Rightarrow> Some l | [] \<Rightarrow> None))"

definition prefix4 :: "string \<Rightarrow> nat option" where
  "prefix4 s = (case prefix_of_string 32 s of
     Some l \<Rightarrow> Some l
   | None \<Rightarrow> (case parse_ipv4 s of None \<Rightarrow> None | Some w \<Rightarrow> prefix_of_mask w))"

definition make_net4 :: "32 word \<Rightarrow> nat \<Rightarrow> ip_net" where
  "make_net4 w l = Net4 (w AND netmask l) l"

definition make_net6 :: "128 word \<Rightarrow> string option \<Rightarrow> nat \<Rightarrow> ip_net" where
  "make_net6 w z l = Net6 (w AND netmask l) (if w AND netmask l = w then z else None) l"

definition ip_network :: "string \<Rightarrow> ip_net option" where
  "ip_network s =
     (case split_on CHR ''/'' s of
        [a] \<Rightarrow> (case ip_address a of
            Some (IPv4 w) \<Rightarrow> Some (make_net4 w 32)
          | Some (IPv6 w z) \<Rightarrow> Some (make_net6 w z 128)
          | None \<Rightarrow> None)
      | [a, m] \<Rightarrow> (case ip_address a of
            Some (IPv4 w) \<Rightarrow> map_option (make_net4 w) (prefix4 m)
          | Some (IPv6 w z) \<Rightarrow> map_option (make_net6 w z) (prefix_of_string 128 m)
          | None \<Rightarrow> None)
      | _ \<Rightarrow> None)"

fun prefixlen :: "ip_net \<Rightarrow> nat" where
  "prefixlen (Net4 w l) = l"
| "prefixlen (Net6 w z l) = l"

fun show_net :: "ip_net \<Rightarrow> string" where
  "show_net (Net4 w l) = show_ip (IPv4 w) @ ''/'' @ numeral 10 l"
| "show_net (Net6 w z l) = show_ip (IPv6 w z) @ ''/'' @ numeral 10 l"

text \<open>\<open>address in network\<close>; \<open>a.subnet_of(b)\<close>, whose comparison of the first addresses is strict unless they
  are equal with their zones.\<close>

fun in_net :: "ip_addr \<Rightarrow> ip_net \<Rightarrow> bool" where
  "in_net (IPv4 a) (Net4 w l) \<longleftrightarrow> a AND netmask l = w"
| "in_net (IPv6 a z) (Net6 w z' l) \<longleftrightarrow> a AND netmask l = w"
| "in_net _ _ \<longleftrightarrow> False"

fun subnet_of :: "ip_net \<Rightarrow> ip_net \<Rightarrow> bool" where
  "subnet_of (Net4 a k) (Net4 b l) \<longleftrightarrow> b \<le> a \<and> a OR hostmask k \<le> b OR hostmask l"
| "subnet_of (Net6 a y k) (Net6 b z l) \<longleftrightarrow> (b < a \<or> b = a \<and> y = z) \<and> a OR hostmask k \<le> b OR hostmask l"
| "subnet_of _ _ \<longleftrightarrow> False"

end
