(* ===== verification/Url.thy ===== *)
theory Url
  imports Ip_Addr
begin

section \<open>URLs and host names of the standard library\<close>

text \<open>
  What the scope rules use of \<open>urllib.parse\<close>: \<open>urlsplit\<close> with the host name, port and user information of
  its result, and \<open>urlunsplit\<close>; and the \<open>idna\<close> codec. Strings hold code points below 256, for which the
  normalisation check of the network location never raises. The codec on names that are not ASCII
  (nameprep and punycode) is a parameter; on ASCII names it only checks the lengths of the labels.
\<close>

record split_result =
  u_scheme :: string
  u_netloc :: string
  u_path :: string
  u_query :: string

definition char_code :: "char \<Rightarrow> nat" where "char_code c = of_char c"

definition is_alpha :: "char \<Rightarrow> bool" where
  "is_alpha c \<longleftrightarrow> 65 \<le> char_code c \<and> char_code c \<le> 90 \<or> 97 \<le> char_code c \<and> char_code c \<le> 122"

definition scheme_char :: "char \<Rightarrow> bool" where
  "scheme_char c \<longleftrightarrow> is_alpha c \<or> digit_value c < 10 \<or> c = CHR ''+'' \<or> c = CHR ''-'' \<or> c = CHR ''.''"

text \<open>Leading control characters and spaces are dropped, tabs and line ends removed everywhere.\<close>

definition clean_url :: "string \<Rightarrow> string" where
  "clean_url s = filter (\<lambda>c. char_code c \<notin> {9, 10, 13}) (dropWhile (\<lambda>c. char_code c \<le> 32) s)"

definition split_scheme :: "string \<Rightarrow> string \<times> string" where
  "split_scheme url =
     (let s = before CHR '':'' url
      in if s \<noteq> [] \<and> length s < length url \<and> is_alpha (hd s) \<and> list_all scheme_char s
         then (lower s, after CHR '':'' url) else ([], url))"

definition split_netloc :: "string \<Rightarrow> string \<times> string" where
  "split_netloc url =
     (if take 2 url = ''//''
      then (let n = takeWhile (\<lambda>c. c \<noteq> CHR ''/'' \<and> c \<noteq> CHR ''?'' \<and> c \<noteq> CHR ''#'') (drop 2 url)
            in (n, drop (length n) (drop 2 url)))
      else ([], url))"

definition ipv_future :: "string \<Rightarrow> bool" where
  "ipv_future h \<longleftrightarrow> (let v = before CHR ''.'' (tl h) in
     v \<noteq> [] \<and> list_all (\<lambda>c. digit_value c < 16) v \<and> after CHR ''.'' (tl h) \<noteq> [])"

definition check_netloc :: "string \<Rightarrow> unit res" where
  "check_netloc n =
     (if (CHR ''['' \<in> set n) \<noteq> (CHR '']'' \<in> set n) then Inl (ValueError ''Invalid IPv6 URL'')
      else if CHR ''['' \<in> set n
      then (let h = before CHR '']'' (after CHR ''['' n) in
            if h \<noteq> [] \<and> hd h = CHR ''v''
            then (if ipv_future h then Inr () else Inl (ValueError ''IPvFuture address is invalid''))
            else (case ip_address h of
                    None \<Rightarrow> Inl (ValueError (py_repr h @ '' does not appear to be an IPv4 or IPv6 address''))
                  | Some (IPv4 _) \<Rightarrow> Inl (ValueError ''An IPv4 address cannot be in brackets'')
                  | Some (IPv6 _ _) \<Rightarrow> Inr ()))
      else Inr ())"

definition urlsplit :: "string \<Rightarrow> split_result res" where
  "urlsplit s =
     (case split_scheme (clean_url s) of (scheme, rest) \<Rightarrow>
      case split_netloc rest of (netloc, rest') \<Rightarrow>
        bind_res (check_netloc netloc) (\<lambda>_.
        let u = before CHR ''#'' rest'
        in Inr \<lparr>u_scheme = scheme, u_netloc = netloc, u_path = before CHR ''?'' u, u_query = after CHR ''?'' u\<rparr>))"

text \<open>The part after the last \<open>@\<close>; the host and the port text; an empty one is \<open>None\<close>.\<close>

definition host_info :: "string \<Rightarrow> string \<times> string" where
  "host_info netloc =
     (let h = rev (before CHR ''@'' (rev netloc))
      in if CHR ''['' \<in> set h
         then (before CHR '']'' (after CHR ''['' h), after CHR '':'' (after CHR '']'' (after CHR ''['' h)))
         else (before CHR '':'' h, after CHR '':'' h))"

definition hostname :: "split_result \<Rightarrow> string option" where
  "hostname u =
     (let h = fst (host_info (u_netloc u))
      in if h = [] then None
         else Some (lower (before CHR ''%'' h) @ drop (length (before CHR ''%'' h)) h))"

definition has_userinfo :: "split_result \<Rightarrow> bool" where
  "has_userinfo u \<longleftrightarrow> CHR ''@'' \<in> set (u_netloc u)"

definition port :: "split_result \<Rightarrow> nat option res" where
  "port u =
     (let p = snd (host_info (u_netloc u))
      in if p = [] then Inr None
         else if \<not> all_digits p
         then Inl (ValueError (''Port could not be cast to integer value as '' @ py_repr p))
         else if digits_value 10 p > 65535 then Inl (ValueError ''Port out of range 0-65535'')
         else Inr (Some (digits_value 10 p)))"

text \<open>\<open>urlunsplit((scheme, netloc, path, query, ''))\<close> for http and https.\<close>

definition urlunsplit :: "string \<Rightarrow> string \<Rightarrow> string \<Rightarrow> string \<Rightarrow> string" where
  "urlunsplit scheme netloc path query =
     scheme @ ''://'' @ netloc @ (if path \<noteq> [] \<and> hd path \<noteq> CHR ''/'' then ''/'' @ path else path)
       @ (if query = [] then [] else ''?'' @ query)"

subsection \<open>The idna codec\<close>

definition ascii :: "string \<Rightarrow> bool" where
  "ascii s \<longleftrightarrow> list_all (\<lambda>c. char_code c < 128) s"

definition idna_encode :: "(string \<Rightarrow> string option) \<Rightarrow> string \<Rightarrow> string option" where
  "idna_encode idna s =
     (if \<not> ascii s then idna s
      else (let labels = split_on CHR ''.'' s in
            if list_all (\<lambda>l. l \<noteq> [] \<and> length l < 64) (butlast labels) \<and> length (last labels) < 64
            then Some s else None))"

end
