(* ===== verification/Scope.thy ===== *)
theory Scope
  imports Url Fnmatch Gates Events
begin

section \<open>Scope rules and the scope gate (recon/policy/scope.py)\<close>

text \<open>
  Classification of execution targets by explicit scope rules and the gate that maps the classification
  and the activity of the worker to a decision. \<open>idna\<close> is the codec on names that are not ASCII. The subject
  provider, the activity provider and the recorder are parameters of the gate. A dictionary of rules is an
  association list in the order of registration.
\<close>

datatype asset_kind = DOMAIN | URL | IP_ADDRESS | CIDR | MOBILE_APP

datatype worker_activity = A_PASSIVE | A_ACTIVE

fun activity_value :: "worker_activity \<Rightarrow> string" where
  "activity_value A_PASSIVE = ''PASSIVE''"
| "activity_value A_ACTIVE = ''ACTIVE''"

fun scope_state_value :: "scope_state \<Rightarrow> string" where
  "scope_state_value SC_UNKNOWN = ''UNKNOWN''"
| "scope_state_value SC_IN_SCOPE = ''IN_SCOPE''"
| "scope_state_value SC_OUT_OF_SCOPE = ''OUT_OF_SCOPE''"
| "scope_state_value SC_PASSIVE_ONLY = ''PASSIVE_ONLY''"
| "scope_state_value SC_AMBIGUOUS = ''AMBIGUOUS''"

datatype scope_tier = T_GENERIC | T_WILDCARD | T_EXACT | T_URL_PATH

fun tier_value :: "scope_tier \<Rightarrow> int" where
  "tier_value T_GENERIC = 10"
| "tier_value T_WILDCARD = 20"
| "tier_value T_EXACT = 30"
| "tier_value T_URL_PATH = 40"

subsection \<open>Canonical forms\<close>

definition parse_address :: "string \<Rightarrow> ip_addr res" where
  "parse_address s = (case ip_address s of
     None \<Rightarrow> Inl (ValueError (py_repr s @ '' does not appear to be an IPv4 or IPv6 address'')) | Some a \<Rightarrow> Inr a)"

definition parse_network :: "string \<Rightarrow> ip_net res" where
  "parse_network s = (case ip_network s of
     None \<Rightarrow> Inl (ValueError (py_repr s @ '' does not appear to be an IPv4 or IPv6 network'')) | Some n \<Rightarrow> Inr n)"

definition rstrip_dots :: "string \<Rightarrow> string" where
  "rstrip_dots s = rev (dropWhile (\<lambda>c. c = CHR ''.'') (rev s))"

definition canonical_domain :: "(string \<Rightarrow> string option) \<Rightarrow> string \<Rightarrow> string res" where
  "canonical_domain idna value =
     (let domain = lower (rstrip_dots (strip value))
      in if domain = [] then Inl (ValueError ''domain must not be blank'')
         else case idna_encode idna domain of
           None \<Rightarrow> Inl (ValueError (''invalid internationalized domain: '' @ value))
         | Some a \<Rightarrow> if \<exists>l \<in> set (split_on CHR ''.'' a). l = []
                     then Inl (ValueError (''invalid domain: '' @ value)) else Inr a)"

definition is_default_port :: "string \<Rightarrow> nat \<Rightarrow> bool" where
  "is_default_port scheme p \<longleftrightarrow> scheme = ''https'' \<and> p = 443 \<or> scheme = ''http'' \<and> p = 80"

definition rebuild_url :: "split_result \<Rightarrow> string \<Rightarrow> string res" where
  "rebuild_url u host =
     bind_res (port u) (\<lambda>p.
     let netloc = (case p of
           None \<Rightarrow> host
         | Some n \<Rightarrow> if is_default_port (u_scheme u) n then host else host @ '':'' @ numeral 10 n)
     in Inr (urlunsplit (u_scheme u) netloc (if u_path u = [] then ''/'' else u_path u) (u_query u)))"

definition canonical_url :: "(string \<Rightarrow> string option) \<Rightarrow> string \<Rightarrow> string res" where
  "canonical_url idna value =
     bind_res (urlsplit value) (\<lambda>u.
     if u_scheme u \<notin> {''http'', ''https''} then Inl (ValueError ''scope URLs must use http or https'')
     else case hostname u of
       None \<Rightarrow> Inl (ValueError ''scope URL must contain a hostname'')
     | Some h \<Rightarrow>
         if has_userinfo u then Inl (ValueError ''scope URLs must not contain userinfo'')
         else bind_res (canonical_domain idna h) (\<lambda>host. rebuild_url u host))"

definition has_glob :: "string \<Rightarrow> bool" where
  "has_glob s \<longleftrightarrow> CHR ''*'' \<in> set s \<or> CHR ''?'' \<in> set s"

definition is_wildcard :: "string \<Rightarrow> bool" where
  "is_wildcard s \<longleftrightarrow> take 2 s = ''*.''"

definition canonical_url_pattern :: "(string \<Rightarrow> string option) \<Rightarrow> string \<Rightarrow> string res" where
  "canonical_url_pattern idna value =
     bind_res (urlsplit value) (\<lambda>u.
     if u_scheme u \<notin> {''http'', ''https''} then Inl (ValueError ''URL rules must use http or https'')
     else case hostname u of
       None \<Rightarrow> Inl (ValueError ''URL rule must contain a hostname'')
     | Some h \<Rightarrow>
         if has_userinfo u then Inl (ValueError ''URL rules must not contain userinfo'')
         else if is_wildcard h
         then bind_res (canonical_domain idna (drop 2 h)) (\<lambda>d. rebuild_url u (''*.'' @ d))
         else if has_glob h
         then Inl (ValueError ''URL host rules support only the leading '*.' wildcard form'')
         else bind_res (canonical_domain idna h) (\<lambda>host. rebuild_url u host))"

definition canonical_subject_value :: "(string \<Rightarrow> string option) \<Rightarrow> asset_kind \<Rightarrow> string \<Rightarrow> string res" where
  "canonical_subject_value idna kind value = (case kind of
     DOMAIN \<Rightarrow> canonical_domain idna value
   | URL \<Rightarrow> canonical_url idna value
   | IP_ADDRESS \<Rightarrow> bind_res (parse_address value) (\<lambda>a. Inr (show_ip a))
   | CIDR \<Rightarrow> bind_res (parse_network value) (\<lambda>n. Inr (show_net n))
   | MOBILE_APP \<Rightarrow> Inr (strip value))"

definition canonical_rule_pattern :: "(string \<Rightarrow> string option) \<Rightarrow> asset_kind \<Rightarrow> string \<Rightarrow> string res" where
  "canonical_rule_pattern idna kind pattern =
     (let value = strip pattern
      in if value = [] then Inl (ValueError ''scope rule pattern must not be blank'')
         else case kind of
           DOMAIN \<Rightarrow>
             if is_wildcard value then bind_res (canonical_domain idna (drop 2 value)) (\<lambda>d. Inr (''*.'' @ d))
             else if has_glob value
             then Inl (ValueError ''DOMAIN rules support only the leading '*.' wildcard form'')
             else canonical_domain idna value
         | URL \<Rightarrow> canonical_url_pattern idna value
         | IP_ADDRESS \<Rightarrow>
             if has_glob value then Inr value else bind_res (parse_address value) (\<lambda>a. Inr (show_ip a))
         | CIDR \<Rightarrow> bind_res (parse_network value) (\<lambda>n. Inr (show_net n))
         | MOBILE_APP \<Rightarrow> Inr value)"

text \<open>Inside a pydantic validator a \<open>ValueError\<close> becomes a \<open>ValidationError\<close>.\<close>

definition validated :: "'a res \<Rightarrow> 'a res" where
  "validated r = (case r of Inl e \<Rightarrow> Inl (ValidationError (exc_str e)) | Inr x \<Rightarrow> Inr x)"

subsection \<open>Subjects and rules\<close>

record scope_subject =
  ss_kind :: asset_kind
  ss_value :: string

definition make_subject :: "(string \<Rightarrow> string option) \<Rightarrow> asset_kind \<Rightarrow> string \<Rightarrow> scope_subject res" where
  "make_subject idna kind value =
     bind_res (not_blank ''scope subject value must not be blank'' value) (\<lambda>v.
     bind_res (validated (canonical_subject_value idna kind v)) (\<lambda>c. Inr \<lparr>ss_kind = kind, ss_value = c\<rparr>))"

record scope_rule =
  sr_rule_id :: string
  sr_kind :: asset_kind
  sr_pattern :: string
  sr_state :: scope_state
  sr_priority :: int
  sr_tier :: "string option"
  sr_reason :: "string option"

definition make_scope_rule :: "(string \<Rightarrow> string option) \<Rightarrow> scope_rule \<Rightarrow> scope_rule res" where
  "make_scope_rule idna r =
     bind_res (not_blank ''rule_id must not be blank'' (sr_rule_id r)) (\<lambda>rid.
     if sr_state r = SC_UNKNOWN
     then Inl (ValidationError ''scope rules cannot explicitly classify UNKNOWN'')
     else bind_res (validated (canonical_rule_pattern idna (sr_kind r) (sr_pattern r))) (\<lambda>p.
       Inr (r\<lparr>sr_rule_id := rid, sr_pattern := p, sr_tier := opt_text (sr_tier r),
              sr_reason := opt_text (sr_reason r)\<rparr>)))"

definition scope_specificity :: "scope_rule \<Rightarrow> (int \<times> int) res" where
  "scope_specificity r =
     (let tiered = (\<lambda>t. Inr (tier_value t, int (length (sr_pattern r)))) in
      case sr_kind r of
        DOMAIN \<Rightarrow> tiered (if is_wildcard (sr_pattern r) then T_WILDCARD else T_EXACT)
      | URL \<Rightarrow> bind_res (urlsplit (sr_pattern r)) (\<lambda>u.
          if has_glob (u_path u) \<or> u_path u \<notin> {[], ''/''} then tiered T_URL_PATH
          else if (case hostname u of None \<Rightarrow> False | Some h \<Rightarrow> CHR ''*'' \<in> set h) then tiered T_WILDCARD
          else tiered T_EXACT)
      | CIDR \<Rightarrow> bind_res (parse_network (sr_pattern r)) (\<lambda>n. Inr (tier_value T_EXACT, int (prefixlen n)))
      | _ \<Rightarrow> tiered (if has_glob (sr_pattern r) then T_WILDCARD else T_EXACT))"

subsection \<open>Matching\<close>

definition subject_hostname :: "scope_subject \<Rightarrow> string option res" where
  "subject_hostname s = (case ss_kind s of
     DOMAIN \<Rightarrow> Inr (Some (ss_value s))
   | URL \<Rightarrow> bind_res (urlsplit (ss_value s)) (\<lambda>u. Inr (hostname u))
   | _ \<Rightarrow> Inr None)"

definition ends_with :: "string \<Rightarrow> string \<Rightarrow> bool" where
  "ends_with s suf \<longleftrightarrow> prefix (rev suf) (rev s)"

definition match_domain_pattern :: "(string \<Rightarrow> string option) \<Rightarrow> string \<Rightarrow> string \<Rightarrow> bool res" where
  "match_domain_pattern idna host pattern =
     bind_res (canonical_domain idna host) (\<lambda>h.
     Inr (if is_wildcard pattern then h \<noteq> drop 2 pattern \<and> ends_with h (''.'' @ drop 2 pattern)
          else h = pattern))"

definition effective_port :: "split_result \<Rightarrow> nat res" where
  "effective_port u = bind_res (port u) (\<lambda>p. Inr (case p of
     Some n \<Rightarrow> n | None \<Rightarrow> if u_scheme u = ''https'' then 443 else 80))"

definition or_slash :: "string \<Rightarrow> string" where
  "or_slash p = (if p = [] then ''/'' else p)"

definition match_url_pattern :: "(string \<Rightarrow> string option) \<Rightarrow> string \<Rightarrow> string \<Rightarrow> bool res" where
  "match_url_pattern idna value pattern =
     bind_res (canonical_url idna value) (\<lambda>v.
     bind_res (urlsplit v) (\<lambda>candidate.
     bind_res (urlsplit pattern) (\<lambda>rule.
     if u_scheme candidate \<noteq> u_scheme rule then Inr False
     else case (hostname candidate, hostname rule) of
       (Some ch, Some rh) \<Rightarrow>
         bind_res (match_domain_pattern idna ch rh) (\<lambda>m.
         if \<not> m then Inr False
         else bind_res (effective_port candidate) (\<lambda>cp.
         bind_res (effective_port rule) (\<lambda>rp.
         Inr (cp = rp \<and> fnmatchcase (or_slash (u_path candidate)) (or_slash (u_path rule))
            \<and> (u_query rule = [] \<or> fnmatchcase (u_query candidate) (u_query rule))))))
     | _ \<Rightarrow> Inr False)))"

definition match_ip_pattern :: "string \<Rightarrow> string \<Rightarrow> bool res" where
  "match_ip_pattern value pattern =
     bind_res (parse_address value) (\<lambda>a.
     Inr (if has_glob pattern then fnmatchcase (show_ip a) pattern else show_ip a = pattern))"

definition match_network_pattern :: "scope_subject \<Rightarrow> string \<Rightarrow> bool res" where
  "match_network_pattern s pattern =
     bind_res (parse_network pattern) (\<lambda>n. case ss_kind s of
       IP_ADDRESS \<Rightarrow> bind_res (parse_address (ss_value s)) (\<lambda>a. Inr (in_net a n))
     | CIDR \<Rightarrow> bind_res (parse_network (ss_value s)) (\<lambda>c. Inr (subnet_of c n))
     | _ \<Rightarrow> Inr False)"

definition scope_matches :: "(string \<Rightarrow> string option) \<Rightarrow> scope_subject \<Rightarrow> scope_rule \<Rightarrow> bool res" where
  "scope_matches idna s r = (case sr_kind r of
     DOMAIN \<Rightarrow> bind_res (subject_hostname s) (\<lambda>host. case host of
        None \<Rightarrow> Inr False | Some h \<Rightarrow> match_domain_pattern idna h (sr_pattern r))
   | URL \<Rightarrow> if ss_kind s \<noteq> URL then Inr False else match_url_pattern idna (ss_value s) (sr_pattern r)
   | IP_ADDRESS \<Rightarrow> if ss_kind s \<noteq> IP_ADDRESS then Inr False else match_ip_pattern (ss_value s) (sr_pattern r)
   | CIDR \<Rightarrow> match_network_pattern s (sr_pattern r)
   | MOBILE_APP \<Rightarrow> if ss_kind s \<noteq> MOBILE_APP then Inr False else Inr (fnmatchcase (ss_value s) (sr_pattern r)))"

subsection \<open>The engine\<close>

record scope_decision =
  sc_subject :: scope_subject
  sc_state :: scope_state
  sc_matched_rule_id :: "string option"
  sc_matched_rule_ids :: "string list"
  sc_tier :: "string option"
  sc_reason :: "string option"

type_synonym scope_engine = "(string, scope_rule) dict"

definition register_scope :: "scope_rule \<Rightarrow> (scope_engine, unit) op" where
  "register_scope r e =
     (if dict_get e (sr_rule_id r) \<noteq> None
      then (Inl (DuplicateScopeRuleError (''scope rule already registered: '' @ sr_rule_id r)), e)
      else (Inr (), dict_set (sr_rule_id r) r e))"

fun register_scope_all :: "scope_rule list \<Rightarrow> (scope_engine, unit) op" where
  "register_scope_all [] = lift_res (Inr ())"
| "register_scope_all (r # rs) = bind_op (register_scope r) (\<lambda>_. register_scope_all rs)"

definition make_scope_engine :: "scope_rule list \<Rightarrow> scope_engine res" where
  "make_scope_engine rules = (case register_scope_all rules [] of (Inl e, _) \<Rightarrow> Inl e | (Inr _, e) \<Rightarrow> Inr e)"

definition unregister_scope :: "string \<Rightarrow> (scope_engine, scope_rule) op" where
  "unregister_scope rule_id e =
     (if strip rule_id = [] then (Inl (ValueError ''rule_id must not be blank''), e)
      else case dict_get e (strip rule_id) of
        None \<Rightarrow> (Inl (KeyError (''unknown scope rule: '' @ strip rule_id)), e)
      | Some r \<Rightarrow> (Inr r, dict_pop (strip rule_id) e))"

fun matching_scope_rules ::
  "(string \<Rightarrow> string option) \<Rightarrow> scope_subject \<Rightarrow> scope_rule list \<Rightarrow> scope_rule list res" where
  "matching_scope_rules idna s [] = Inr []"
| "matching_scope_rules idna s (r # rs) =
     bind_res (scope_matches idna s r) (\<lambda>m.
     bind_res (matching_scope_rules idna s rs) (\<lambda>ms. Inr (if m then r # ms else ms)))"

fun state_safety :: "scope_state \<Rightarrow> int" where
  "state_safety SC_UNKNOWN = 0"
| "state_safety SC_IN_SCOPE = 1"
| "state_safety SC_PASSIVE_ONLY = 2"
| "state_safety SC_AMBIGUOUS = 3"
| "state_safety SC_OUT_OF_SCOPE = 4"

definition scope_sort_key :: "scope_rule \<Rightarrow> int \<times> int \<times> int \<times> int \<times> string" where
  "scope_sort_key r =
     (let sp = (case scope_specificity r of Inl _ \<Rightarrow> (0, 0) | Inr p \<Rightarrow> p)
      in (sr_priority r, fst sp, snd sp, state_safety (sr_state r), sr_rule_id r))"

text \<open>Computing the keys raises when a specificity does.\<close>

fun check_keys :: "scope_rule list \<Rightarrow> unit res" where
  "check_keys [] = Inr ()"
| "check_keys (r # rs) = bind_res (scope_specificity r) (\<lambda>_. check_keys rs)"

definition scope_evaluate :: "(string \<Rightarrow> string option) \<Rightarrow> scope_engine \<Rightarrow> scope_subject \<Rightarrow> scope_decision res" where
  "scope_evaluate idna engine s =
     bind_res (matching_scope_rules idna s (dict_values engine)) (\<lambda>ms.
     bind_res (check_keys ms) (\<lambda>_.
     case sort_desc scope_sort_key ms of
       [] \<Rightarrow> Inr \<lparr>sc_subject = s, sc_state = SC_UNKNOWN, sc_matched_rule_id = None, sc_matched_rule_ids = [],
               sc_tier = None, sc_reason = Some ''no configured scope rule matched this asset''\<rparr>
     | winner # rest \<Rightarrow> Inr \<lparr>sc_subject = s, sc_state = sr_state winner,
               sc_matched_rule_id = Some (sr_rule_id winner), sc_matched_rule_ids = map sr_rule_id (winner # rest),
               sc_tier = sr_tier winner,
               sc_reason = Some (case sr_reason winner of
                  Some x \<Rightarrow> if x = [] then ''matched scope rule '' @ sr_rule_id winner else x
                | None \<Rightarrow> ''matched scope rule '' @ sr_rule_id winner)\<rparr>))"

definition scope_rule_count :: "scope_engine \<Rightarrow> nat" where
  "scope_rule_count e = length e"

subsection \<open>The lifecycle gate\<close>

definition activity_for :: "(string, worker_activity) dict \<Rightarrow> worker_activity \<Rightarrow> task \<Rightarrow> worker_activity" where
  "activity_for activities fallback t = dict_default activities (t_worker t) fallback"

record 's scope_gate =
  sg_engine :: scope_engine
  sg_subjects :: "task \<Rightarrow> ('s, scope_subject option) op"
  sg_activities :: "task \<Rightarrow> ('s, worker_activity) op"
  sg_recorder :: "(task \<Rightarrow> scope_decision \<Rightarrow> worker_activity \<Rightarrow> ('s, unit) op) option"
  sg_allow_unknown_passive :: bool

definition scope_reason :: "scope_decision \<Rightarrow> worker_activity \<Rightarrow> string" where
  "scope_reason d a =
     join ''; '' ([''scope='' @ scope_state_value (sc_state d), ''activity='' @ activity_value a]
       @ (case sc_matched_rule_id d of None \<Rightarrow> [] | Some r \<Rightarrow> [''rule='' @ r])
       @ (case sc_tier d of None \<Rightarrow> [] | Some t \<Rightarrow> [''tier='' @ t])
       @ (case sc_reason d of None \<Rightarrow> [] | Some r \<Rightarrow> [r]))"

definition to_gate_decision :: "bool \<Rightarrow> scope_decision \<Rightarrow> worker_activity \<Rightarrow> gate_decision res" where
  "to_gate_decision allow_unknown_passive d a = (case sc_state d of
     SC_IN_SCOPE \<Rightarrow> make_gate_decision G_ALLOW (Some (scope_reason d a)) None
   | SC_PASSIVE_ONLY \<Rightarrow>
       if a = A_PASSIVE then make_gate_decision G_ALLOW (Some (scope_reason d a)) None
       else make_gate_decision G_BLOCK (Some (''active worker cannot touch PASSIVE_ONLY asset: ''
              @ ss_value (sc_subject d) @ ''; '' @ scope_reason d a)) None
   | SC_OUT_OF_SCOPE \<Rightarrow> make_gate_decision G_BLOCK (Some (''asset is OUT_OF_SCOPE: ''
              @ ss_value (sc_subject d) @ ''; '' @ scope_reason d a)) None
   | SC_UNKNOWN \<Rightarrow>
       if a = A_PASSIVE \<and> allow_unknown_passive
       then make_gate_decision G_ALLOW
              (Some ''unknown asset permitted for passive-only relationship collection by scope configuration'') None
       else make_gate_decision G_REVIEW (Some (''asset has no matching scope rule: '' @ ss_value (sc_subject d))) None
   | SC_AMBIGUOUS \<Rightarrow> make_gate_decision G_REVIEW (Some (''asset scope is AMBIGUOUS: ''
              @ ss_value (sc_subject d) @ ''; '' @ scope_reason d a)) None)"

definition scope_gate_evaluate ::
  "(string \<Rightarrow> string option) \<Rightarrow> 's scope_gate \<Rightarrow> task \<Rightarrow> schedule_decision \<Rightarrow> ('s, gate_decision) op" where
  "scope_gate_evaluate idna g t schedule =
     bind_op (sg_subjects g t) (\<lambda>subject.
     bind_op (sg_activities g t) (\<lambda>activity.
     case subject of
       None \<Rightarrow> lift_res (make_gate_decision G_REVIEW
         (Some (''scope execution target could not be resolved from task '' @ t_task_id t)) None)
     | Some s \<Rightarrow>
         bind_op (lift_res (scope_evaluate idna (sg_engine g) s)) (\<lambda>d.
         bind_op (case sg_recorder g of None \<Rightarrow> lift_res (Inr ()) | Some rec \<Rightarrow> rec t d activity) (\<lambda>_.
           lift_res (to_gate_decision (sg_allow_unknown_passive g) d activity)))))"

definition scope_as_gate :: "(string \<Rightarrow> string option) \<Rightarrow> 's scope_gate \<Rightarrow> 's gate" where
  "scope_as_gate idna g = \<lparr>gate_name = ''ScopeGate'', gate_evaluate = scope_gate_evaluate idna g\<rparr>"

end
