(* ===== verification/Ip_Properties.thy ===== *)
theory Ip_Properties
  imports Ip_Addr
begin

section \<open>Addresses: printing, parsing, containment\<close>

text \<open>
  The facts about the address model that the scope rules rest on: splitting inverts joining, an IPv4
  address is read back from its text, and membership and containment of networks are equality of
  prefixes.
\<close>

subsection \<open>Splitting and joining\<close>

lemma split_on_ne [simp]: "split_on c s \<noteq> []"
  by (cases s) auto

lemma split_on_append: "split_on c (p @ c # s) = split_on c p @ split_on c s"
  by (induction p) auto

lemma split_on_none: "c \<notin> set s \<Longrightarrow> split_on c s = [s]"
  by (induction s) auto

lemma join_Cons: "xs \<noteq> [] \<Longrightarrow> join sep (x # xs) = x @ sep @ join sep xs"
  by (cases xs) auto

lemma split_on_join: "xs \<noteq> [] \<Longrightarrow> \<forall>x \<in> set xs. c \<notin> set x \<Longrightarrow> split_on c (join [c] xs) = xs"
proof (induction xs)
  case (Cons x xs)
  show ?case
  proof (cases "xs = []")
    case True
    with Cons.prems show ?thesis by (simp add: split_on_none)
  next
    case False
    then have "join [c] (x # xs) = x @ c # join [c] xs" by (simp add: join_Cons)
    moreover have "split_on c x = [x]" using Cons.prems(2) by (simp add: split_on_none)
    ultimately show ?thesis using Cons False by (simp only: split_on_append) simp
  qed
qed simp

lemma join_split_on: "join [c] (split_on c s) = s"
proof (induction s)
  case (Cons x s)
  obtain y ys where ys: "split_on c s = y # ys" by (cases "split_on c s") auto
  show ?case
  proof (cases "x = c")
    case True
    with ys Cons show ?thesis by (simp add: join_Cons)
  next
    case False
    have "join [c] ((x # y) # ys) = x # join [c] (y # ys)" by (cases ys) auto
    with False ys Cons show ?thesis by simp
  qed
qed simp

lemma split_on_parts: "p \<in> set (split_on c s) \<Longrightarrow> c \<notin> set p"
proof (induction s arbitrary: p)
  case (Cons x s)
  obtain y ys where "split_on c s = y # ys" by (cases "split_on c s") auto
  with Cons show ?case by (auto split: if_splits)
qed simp

subsection \<open>Numerals\<close>

lemma digit_value_hex [simp]: "n < 16 \<Longrightarrow> digit_value (hex_digit n) = n"
  by (auto simp: digit_value_def hex_digit_def)

lemma digits_value_snoc: "digits_value b (s @ [c]) = digits_value b s * b + digit_value c"
  by (simp add: digits_value_def)

lemma numeral_small: "n < b \<Longrightarrow> numeral b n = [hex_digit n]"
  by (simp add: numeral.simps)

lemma numeral_large: "1 < b \<Longrightarrow> b \<le> n \<Longrightarrow> numeral b n = numeral b (n div b) @ [hex_digit (n mod b)]"
  by (subst numeral.simps) simp

lemma numeral_value:
  assumes "1 < b" and "b \<le> 16"
  shows "digits_value b (numeral b n) = n"
proof (induction n rule: less_induct)
  case (less n)
  show ?case
  proof (cases "n < b")
    case True
    with assms show ?thesis by (simp add: numeral_small digits_value_def)
  next
    case False
    have "n mod b < 16" using assms less_le_trans[OF mod_less_divisor[of b n]] by simp
    moreover have "n div b < n" using assms False by simp
    ultimately show ?thesis using False assms less by (simp add: numeral_large digits_value_snoc)
  qed
qed

lemma numeral_digits:
  assumes "1 < b" and "b \<le> 16"
  shows "c \<in> set (numeral b n) \<Longrightarrow> digit_value c < b"
proof (induction n rule: less_induct)
  case (less n)
  show ?case
  proof (cases "n < b")
    case True
    with less assms show ?thesis by (simp add: numeral_small)
  next
    case False
    have m: "n mod b < b" "n mod b < 16" using assms less_le_trans[OF mod_less_divisor[of b n]] by simp_all
    have "n div b < n" using assms False by simp
    note IH = less(1)[OF this]
    from less(2) False assms have "c \<in> set (numeral b (n div b)) \<or> c = hex_digit (n mod b)" by (auto simp: numeral_large)
    with IH m show ?thesis by auto
  qed
qed

lemma numeral_ne [simp]: "numeral b n \<noteq> []"
  by (subst numeral.simps) simp

lemma numeral_hd:
  assumes "1 < b" and "b \<le> 16"
  shows "0 < n \<Longrightarrow> hd (numeral b n) \<noteq> CHR ''0''"
proof (induction n rule: less_induct)
  case (less n)
  have zero: "digit_value CHR ''0'' = 0" by (simp add: digit_value_def)
  show ?case
  proof (cases "n < b")
    case True
    then have "digit_value (hd (numeral b n)) = n" using assms by (simp add: numeral_small)
    with less(2) zero show ?thesis by (metis less_numeral_extra(3))
  next
    case False
    then have "n div b < n" "0 < n div b" using assms by (simp_all add: div_greater_zero_iff)
    with less(1) False assms show ?thesis by (simp add: numeral_large)
  qed
qed

lemma numeral_length: "1 < b \<Longrightarrow> n < b ^ Suc k \<Longrightarrow> length (numeral b n) \<le> Suc k"
proof (induction k arbitrary: n)
  case 0
  then show ?case by (simp add: numeral_small)
next
  case (Suc k)
  show ?case
  proof (cases "n < b")
    case True
    then show ?thesis by (simp add: numeral_small)
  next
    case False
    have "n div b < b ^ Suc k" using Suc.prems by (simp add: less_mult_imp_div_less mult.commute)
    with Suc False show ?thesis by (simp add: numeral_large)
  qed
qed

lemma all_digits_numeral: "all_digits (numeral 10 n)"
  using numeral_digits[of 10 _ n] by (simp add: all_digits_def)

lemma not_in_numeral: "16 \<le> digit_value c \<Longrightarrow> c \<notin> set (numeral 10 n)"
  using numeral_digits[of 10 c n] by auto

lemma numeral_no_dot [simp]: "CHR ''.'' \<notin> set (numeral 10 n)" "CHR ''/'' \<notin> set (numeral 10 n)"
  "CHR ''%'' \<notin> set (numeral 10 n)" "CHR '':'' \<notin> set (numeral 10 n)"
  by (rule not_in_numeral, simp add: digit_value_def)+

lemma parse_octet_numeral: "n < 256 \<Longrightarrow> parse_octet (numeral 10 n) = Some n"
proof -
  assume n: "n < 256"
  have "length (numeral 10 n) \<le> 3" using numeral_length[of 10 n 2] n by simp
  moreover have "numeral 10 n = ''0'' \<or> hd (numeral 10 n) \<noteq> CHR ''0''"
    using numeral_hd[of 10 n] by (cases "n = 0") (simp_all add: numeral_small hex_digit_def)
  ultimately show ?thesis using n by (auto simp: parse_octet_def all_digits_numeral numeral_value)
qed

subsection \<open>IPv4 text\<close>

lemma parts4: "parts_of_word 8 4 (w :: 32 word) =
    [unat (take_bit 8 (drop_bit 24 w)), unat (take_bit 8 (drop_bit 16 w)), unat (take_bit 8 (drop_bit 8 w)),
     unat (take_bit 8 w)]"
  by (simp add: parts_of_word_def upt_rec)

lemma octet_bound: "unat (take_bit 8 (w :: 32 word)) < 256"
proof -
  have "unat (take_bit 8 w) = take_bit 8 (unat w)" by (simp add: unsigned_take_bit_eq)
  also have "\<dots> < 2 ^ 8" by (rule take_bit_nat_less_exp)
  finally show ?thesis by simp
qed

lemma word_of_parts4: "word_of_parts 8 (parts_of_word 8 4 w) = (w :: 32 word)"
  unfolding parts4 word_of_parts_def
proof (rule bit_word_eqI)
  fix n
  assume "n < LENGTH(32)"
  then show "bit (foldl (\<lambda>w n. push_bit 8 w OR of_nat n) (0 :: 32 word)
      [unat (take_bit 8 (drop_bit 24 w)), unat (take_bit 8 (drop_bit 16 w)), unat (take_bit 8 (drop_bit 8 w)),
       unat (take_bit 8 w)]) n = bit w n"
    by (cases "n < 8"; cases "n < 16"; cases "n < 24"; auto simp: bit_simps)
qed

lemma show_ipv4_parts: "split_on CHR ''.'' (show_ipv4 w) = map (numeral 10) (parts_of_word 8 4 w)"
  unfolding show_ipv4_def by (rule split_on_join) (auto simp: parts4)

lemma parse_show_ipv4: "parse_ipv4 (show_ipv4 w) = Some w"
  unfolding parse_ipv4_def show_ipv4_parts
  using word_of_parts4[of w] by (simp add: parts4 parse_octet_numeral octet_bound)

lemma show_ipv4_chars: "c \<notin> set (show_ipv4 w)" if "c = CHR ''/'' \<or> c = CHR ''%'' \<or> c = CHR '':''"
  using that by (auto simp: show_ipv4_def parts4)

lemma ip_address_show_ipv4: "ip_address (show_ip (IPv4 w)) = Some (IPv4 w)"
  by (simp add: ip_address_def parse_show_ipv4 show_ipv4_chars)

subsection \<open>Networks\<close>

lemma bit_netmask: "bit (netmask l :: 'a::len word) i \<longleftrightarrow> i < LENGTH('a) \<and> LENGTH('a) \<le> i + l"
  by (auto simp: netmask_def bit_simps)

lemma hostmask_mask: "l \<le> LENGTH('a) \<Longrightarrow> hostmask l = (mask (LENGTH('a) - l) :: 'a::len word)"
  by (rule bit_word_eqI) (auto simp: hostmask_def bit_simps bit_netmask)

lemma netmask_and: "l \<le> LENGTH('a) \<Longrightarrow> a AND netmask l = push_bit (LENGTH('a) - l) (drop_bit (LENGTH('a) - l) (a :: 'a::len word))"
  by (rule bit_word_eqI) (auto simp: bit_simps bit_netmask)

lemma masked_iff:
  assumes "l \<le> LENGTH('a)"
  shows "(a AND netmask l = b AND netmask l) \<longleftrightarrow>
    drop_bit (LENGTH('a) - l) a = (drop_bit (LENGTH('a) - l) b :: 'a::len word)" (is "?L \<longleftrightarrow> ?R")
proof
  assume ?L
  then have eq: "bit (a AND netmask l) i = bit (b AND netmask l) i" for i by simp
  show ?R
  proof (rule bit_word_eqI)
    fix i
    let ?j = "LENGTH('a) - l + i"
    have "bit a ?j = bit b ?j"
    proof (cases "i < l")
      case True
      with assms have "?j < LENGTH('a)" by linarith
      with eq[of ?j] assms show ?thesis by (simp add: bit_and_iff bit_netmask)
    next
      case False
      then have "LENGTH('a) \<le> ?j" using assms by linarith
      then show ?thesis using bit_imp_le_length[of a ?j] bit_imp_le_length[of b ?j] by linarith
    qed
    then show "bit (drop_bit (LENGTH('a) - l) a) i = bit (drop_bit (LENGTH('a) - l) b) i" by (simp add: bit_drop_bit_eq)
  qed
next
  assume ?R
  with assms show ?L by (simp add: netmask_and)
qed

lemma masked_idem [simp]: "(a AND netmask l) AND netmask l = (a AND netmask l :: 'a::len word)"
  by (simp add: and.assoc)

lemma in_net4: "l \<le> 32 \<Longrightarrow> in_net (IPv4 a) (make_net4 w l) \<longleftrightarrow> drop_bit (32 - l) a = drop_bit (32 - l) w"
  using masked_iff[where 'a=32, of l a w] by (simp add: make_net4_def)

lemma in_net6: "l \<le> 128 \<Longrightarrow> in_net (IPv6 a z) (make_net6 w y l) \<longleftrightarrow> drop_bit (128 - l) a = drop_bit (128 - l) w"
  using masked_iff[where 'a=128, of l a w] by (simp add: make_net6_def)

text \<open>First and last address of a network as numbers.\<close>

lemma unat_first:
  assumes "l \<le> LENGTH('a)"
  shows "unat (a AND netmask l) = unat (a :: 'a::len word) div 2 ^ (LENGTH('a) - l) * 2 ^ (LENGTH('a) - l)"
proof -
  let ?m = "LENGTH('a) - l"
  have "unat a div 2 ^ ?m * 2 ^ ?m \<le> unat a" by simp
  also have "\<dots> < 2 ^ LENGTH('a)" by simp
  finally show ?thesis
    by (simp only: netmask_and[OF assms] unsigned_push_bit_eq unat_drop_bit_eq)
      (simp add: drop_bit_eq_div push_bit_eq_mult take_bit_nat_eq_self)
qed

lemma unat_last:
  assumes "l \<le> LENGTH('a)"
  shows "unat ((a AND netmask l) OR hostmask l) =
    unat (a :: 'a::len word) div 2 ^ (LENGTH('a) - l) * 2 ^ (LENGTH('a) - l) + (2 ^ (LENGTH('a) - l) - 1)"
proof -
  let ?m = "LENGTH('a) - l"
  have "unat (mask ?m :: 'a word) = mask ?m"
    by (rule bit_eqI) (auto simp: bit_simps)
  then have "unat ((a AND netmask l) OR hostmask l) = unat (a AND netmask l) OR mask ?m"
    by (simp only: hostmask_mask[OF assms] unsigned_or_eq)
  also have "\<dots> = push_bit ?m (unat a div 2 ^ ?m) OR mask ?m" by (simp add: unat_first[OF assms] push_bit_eq_mult)
  also have "\<dots> = push_bit ?m (unat a div 2 ^ ?m) + mask ?m"
    by (rule disjunctive_add_eq_or[symmetric]) (rule bit_eqI, auto simp: bit_simps)
  finally show ?thesis by (simp add: push_bit_eq_mult mask_eq_exp_minus_1)
qed

lemma nested_blocks:
  fixes x y K L :: nat
  assumes "0 < K" and "0 < L" and "K dvd L \<or> L dvd K"
  shows "y div L * L \<le> x div K * K \<and> x div K * K + (K - 1) \<le> y div L * L + (L - 1) \<longleftrightarrow> K dvd L \<and> x div L = y div L"
    (is "?in \<longleftrightarrow> ?eq")
proof
  assume i: ?in
  with assms(1,2) have "K \<le> L" by linarith
  with assms have d: "K dvd L" by (metis dvd_imp_le dvd_refl le_antisym)
  have "y div L * L \<le> x" using i le_trans[OF _ div_times_less_eq_dividend] by blast
  moreover have "x < x div K * K + K" using assms(1) by (metis add.commute dividend_less_div_times)
  then have "x < y div L * L + L" using i assms(1,2) by linarith
  ultimately have "x div L = y div L" using assms(2) by (intro div_nat_eqI) (simp_all add: mult.commute)
  with d show ?eq by simp
next
  assume e: ?eq
  then obtain c where c: "L = K * c" by (auto elim: dvdE)
  let ?b = "y div L * c"
  have b: "y div L * L = ?b * K" by (simp add: c ac_simps)
  have "y div L * L \<le> x" using e by (metis div_times_less_eq_dividend)
  then have lo: "?b \<le> x div K" using b assms(1) by (simp add: less_eq_div_iff_mult_less_eq)
  have "x < y div L * L + L" using e assms(2) by (metis add.commute dividend_less_div_times)
  then have "x < (?b + c) * K" by (simp add: b c algebra_simps)
  then have "x div K < ?b + c" using assms(1) by (simp add: less_mult_imp_div_less)
  then have "(x div K + 1) * K \<le> (?b + c) * K" by (intro mult_right_mono) auto
  moreover have "(?b + c) * K = y div L * L + L" by (simp add: c algebra_simps)
  ultimately have "x div K * K + K \<le> y div L * L + L" by simp
  moreover have "y div L * L \<le> x div K * K" using lo unfolding b by (rule mult_right_mono) simp
  ultimately show ?in using assms(1,2) by linarith
qed

lemma blocks_dvd: "k \<le> (n :: nat) \<Longrightarrow> l \<le> n \<Longrightarrow> (2 :: nat) ^ (n - k) dvd 2 ^ (n - l) \<longleftrightarrow> l \<le> k"
  by (auto simp: dvd_power_iff_le)

lemma nested_nets:
  assumes "k \<le> LENGTH('a)" and "l \<le> LENGTH('a)"
  shows "b AND netmask l \<le> a AND netmask k \<and> (a AND netmask k) OR hostmask k \<le> (b AND netmask l) OR hostmask l
    \<longleftrightarrow> l \<le> k \<and> drop_bit (LENGTH('a) - l) a = (drop_bit (LENGTH('a) - l) b :: 'a::len word)"
proof -
  have "drop_bit (LENGTH('a) - l) a = drop_bit (LENGTH('a) - l) b \<longleftrightarrow>
      unat a div 2 ^ (LENGTH('a) - l) = unat b div 2 ^ (LENGTH('a) - l)"
    by (simp only: unat_drop_bit_eq drop_bit_eq_div[of _ "unat _"] word_unat_eq_iff)
  moreover have "2 ^ (LENGTH('a) - k) dvd (2 :: nat) ^ (LENGTH('a) - l) \<or> 2 ^ (LENGTH('a) - l) dvd (2 :: nat) ^ (LENGTH('a) - k)"
    by (metis le_imp_power_dvd linear)
  ultimately show ?thesis
    using nested_blocks[of "2 ^ (LENGTH('a) - k)" "2 ^ (LENGTH('a) - l)" "unat b" "unat a"] blocks_dvd[OF assms]
    by (simp add: word_le_nat_alt unat_first[OF assms(2)] unat_first[OF assms(1)] unat_last[OF assms(1)] unat_last[OF assms(2)])
qed

lemma subnet4:
  "k \<le> 32 \<Longrightarrow> l \<le> 32 \<Longrightarrow> subnet_of (make_net4 a k) (make_net4 b l) \<longleftrightarrow> l \<le> k \<and> drop_bit (32 - l) a = drop_bit (32 - l) b"
  using nested_nets[where 'a=32, of k l b a] by (simp add: make_net4_def)

subsection \<open>IPv4 network text\<close>

lemma prefix_of_numeral: "l \<le> m \<Longrightarrow> prefix_of_string m (numeral 10 l) = Some l"
  by (simp add: prefix_of_string_def all_digits_numeral numeral_value)

lemma ip_network_show4:
  assumes "l \<le> 32"
  shows "ip_network (show_net (make_net4 w l)) = Some (make_net4 w l)"
proof -
  let ?a = "w AND netmask l"
  have "split_on CHR ''/'' (show_net (make_net4 w l)) = [show_ipv4 ?a, numeral 10 l]"
    by (simp add: make_net4_def split_on_append split_on_none show_ipv4_chars)
  moreover have "ip_address (show_ipv4 ?a) = Some (IPv4 ?a)" using ip_address_show_ipv4[of ?a] by simp
  ultimately show ?thesis
    using assms by (simp add: ip_network_def prefix4_def prefix_of_numeral) (simp add: make_net4_def)
qed

end
