(* ===== verification/Scope_Properties.thy ===== *)
theory Scope_Properties
  imports Scope Ip_Properties Precedence
begin

section \<open>Scope classification: the lemmas\<close>

text \<open>
  The engine as a set of rules with a total precedence (an instance of the shared interface), what an
  evaluation that returns has computed, the documented table of the gate, and the canonical forms.
\<close>

subsection \<open>The engine\<close>

interpretation scope_precedence: precedence scope_sort_key sr_rule_id
  by unfold_locales (simp add: scope_sort_key_def Let_def)

inductive scope_engine_reachable :: "scope_engine \<Rightarrow> bool" where
  no_rules: "scope_engine_reachable []"
| registered: "scope_engine_reachable e \<Longrightarrow> scope_engine_reachable (snd (register_scope r e))"
| unregistered: "scope_engine_reachable e \<Longrightarrow> scope_engine_reachable (snd (unregister_scope i e))"

definition scope_engine_ok :: "scope_engine \<Rightarrow> bool" where
  "scope_engine_ok e \<longleftrightarrow> distinct (map fst e) \<and> (\<forall>(i, r) \<in> set e. sr_rule_id r = i)"

lemma register_scope_fresh:
  assumes "dict_get e (sr_rule_id r) = None"
  shows "register_scope r e = (Inr (), e @ [(sr_rule_id r, r)])"
  unfolding register_scope_def dict_set_fresh[OF assms] using assms by (simp only: simp_thms if_False not_True_eq_False)

lemma scope_reachable_ok: "scope_engine_reachable e \<Longrightarrow> scope_engine_ok e"
proof (induction rule: scope_engine_reachable.induct)
  case (registered e r)
  show ?case
  proof (cases "dict_get e (sr_rule_id r)")
    case None
    then have "sr_rule_id r \<notin> fst ` set e" by (auto simp: map_of_eq_None_iff)
    with registered(2) show ?thesis unfolding register_scope_fresh[OF None] by (simp add: scope_engine_ok_def)
  next
    case (Some q)
    with registered(2) show ?thesis by (simp add: register_scope_def)
  qed
next
  case (unregistered e i)
  have "distinct (map fst (dict_pop j e)) \<and> set (dict_pop j e) \<subseteq> set e" if "distinct (map fst e)" for j
    using that dict_ok_pop[of e j] by (auto simp: AList.delete_eq)
  with unregistered(2) show ?case
    unfolding scope_engine_ok_def unregister_scope_def by (auto split: option.splits) blast+
qed (simp add: scope_engine_ok_def)

lemma scope_ids: "scope_engine_ok e \<Longrightarrow> map sr_rule_id (dict_values e) = map fst e"
  by (auto simp: scope_engine_ok_def)

lemma matching_scope_iff:
  "matching_scope_rules idna s rs = Inr ms \<longleftrightarrow>
     (\<forall>r \<in> set rs. \<exists>b. scope_matches idna s r = Inr b) \<and> ms = filter (\<lambda>r. scope_matches idna s r = Inr True) rs"
proof (induction rs arbitrary: ms)
  case (Cons r rs)
  show ?case
  proof (cases "scope_matches idna s r")
    case (Inr b)
    then show ?thesis by (cases b) (auto simp: bind_res_Inr_iff Cons.IH)
  qed simp
qed auto

lemma check_keys_iff: "check_keys rs = Inr () \<longleftrightarrow> (\<forall>r \<in> set rs. \<exists>p. scope_specificity r = Inr p)"
  by (induction rs) (auto simp: bind_res_Inr_iff)

definition unclassified :: "scope_subject \<Rightarrow> scope_decision" where
  "unclassified s = \<lparr>sc_subject = s, sc_state = SC_UNKNOWN, sc_matched_rule_id = None, sc_matched_rule_ids = [],
     sc_tier = None, sc_reason = Some ''no configured scope rule matched this asset''\<rparr>"

definition classified :: "scope_subject \<Rightarrow> scope_rule \<Rightarrow> scope_rule list \<Rightarrow> scope_decision" where
  "classified s w rest = \<lparr>sc_subject = s, sc_state = sr_state w, sc_matched_rule_id = Some (sr_rule_id w),
     sc_matched_rule_ids = map sr_rule_id (w # rest), sc_tier = sr_tier w,
     sc_reason = Some (case sr_reason w of
        Some x \<Rightarrow> if x = [] then ''matched scope rule '' @ sr_rule_id w else x
      | None \<Rightarrow> ''matched scope rule '' @ sr_rule_id w)\<rparr>"

definition scope_ranked :: "(string \<Rightarrow> string option) \<Rightarrow> scope_subject \<Rightarrow> scope_rule list \<Rightarrow> scope_rule list" where
  "scope_ranked idna s rs = sort_desc scope_sort_key (filter (\<lambda>r. scope_matches idna s r = Inr True) rs)"

lemma scope_evaluate_Inr:
  "scope_evaluate idna e s = Inr d \<longleftrightarrow>
     (\<forall>r \<in> set (dict_values e). \<exists>b. scope_matches idna s r = Inr b)
     \<and> (\<forall>r \<in> set (dict_values e). scope_matches idna s r = Inr True \<longrightarrow> (\<exists>p. scope_specificity r = Inr p))
     \<and> d = (case scope_ranked idna s (dict_values e) of [] \<Rightarrow> unclassified s | w # rest \<Rightarrow> classified s w rest)"
proof -
  let ?ms = "filter (\<lambda>r. scope_matches idna s r = Inr True) (dict_values e)"
  have "scope_evaluate idna e s = bind_res (matching_scope_rules idna s (dict_values e)) (\<lambda>ms.
      bind_res (check_keys ms) (\<lambda>_. Inr (case sort_desc scope_sort_key ms of
        [] \<Rightarrow> unclassified s | w # rest \<Rightarrow> classified s w rest)))"
    unfolding scope_evaluate_def unclassified_def classified_def
    by (intro arg_cong[where f="bind_res _"] ext) (auto simp: sort_desc_def split: list.split)
  also have "\<dots> = Inr d \<longleftrightarrow> (\<forall>r \<in> set (dict_values e). \<exists>b. scope_matches idna s r = Inr b)
      \<and> check_keys ?ms = Inr () \<and> d = (case sort_desc scope_sort_key ?ms of [] \<Rightarrow> unclassified s | w # rest \<Rightarrow> classified s w rest)"
    unfolding bind_res_Inr_iff matching_scope_iff by auto
  finally show ?thesis unfolding check_keys_iff scope_ranked_def by (simp only: set_filter mem_Collect_eq) blast
qed

lemma scope_winner:
  assumes "scope_ranked idna s (dict_values e) = w # rest"
  shows "w \<in> set (dict_values e) \<and> scope_matches idna s w = Inr True
    \<and> (\<forall>r \<in> set (dict_values e). scope_matches idna s r = Inr True \<longrightarrow> scope_sort_key r \<le> scope_sort_key w)"
  using scope_precedence.winner[OF assms[unfolded scope_ranked_def]] .

lemma scope_ranked_order:
  assumes "scope_engine_ok e" and "mset rs = mset (dict_values e)"
  shows "scope_ranked idna s rs = scope_ranked idna s (dict_values e)"
  unfolding scope_ranked_def
proof (rule scope_precedence.order_free[symmetric])
  show "distinct (map sr_rule_id (dict_values e))"
    unfolding scope_ids[OF assms(1)] using assms(1) by (simp add: scope_engine_ok_def)
qed (simp only: assms(2))

subsection \<open>The gate\<close>

text \<open>The table in the documentation of ScopeGate.\<close>

fun documented_scope_outcome :: "bool \<Rightarrow> scope_state \<Rightarrow> worker_activity \<Rightarrow> gate_outcome" where
  "documented_scope_outcome allow SC_IN_SCOPE a = G_ALLOW"
| "documented_scope_outcome allow SC_PASSIVE_ONLY A_PASSIVE = G_ALLOW"
| "documented_scope_outcome allow SC_PASSIVE_ONLY A_ACTIVE = G_BLOCK"
| "documented_scope_outcome allow SC_OUT_OF_SCOPE a = G_BLOCK"
| "documented_scope_outcome True SC_UNKNOWN A_PASSIVE = G_ALLOW"
| "documented_scope_outcome False SC_UNKNOWN A_PASSIVE = G_REVIEW"
| "documented_scope_outcome allow SC_UNKNOWN A_ACTIVE = G_REVIEW"
| "documented_scope_outcome allow SC_AMBIGUOUS a = G_REVIEW"

lemma to_gate_decision_table:
  "\<exists>gd. to_gate_decision allow d a = Inr gd \<and> gd_outcome gd = documented_scope_outcome allow (sc_state d) a
     \<and> gd_review_case_id gd = None"
  by (cases "sc_state d"; cases a; cases allow)
    (simp_all add: to_gate_decision_def make_gate_decision_def validate_gate_decision_def)

lemma scope_gate_Inr:
  assumes "scope_gate_evaluate idna g t sched x = (Inr gd, x')"
  shows "\<exists>subject a x1 x2. sg_subjects g t x = (Inr subject, x1) \<and> sg_activities g t x1 = (Inr a, x2)
    \<and> (case subject of
         None \<Rightarrow> gd_outcome gd = G_REVIEW
       | Some s \<Rightarrow> \<exists>d. scope_evaluate idna (sg_engine g) s = Inr d
           \<and> gd_outcome gd = documented_scope_outcome (sg_allow_unknown_passive g) (sc_state d) a)"
proof -
  from assms obtain subject a x1 x2 where s: "sg_subjects g t x = (Inr subject, x1)" "sg_activities g t x1 = (Inr a, x2)"
    by (auto simp: scope_gate_evaluate_def bind_op_Inr_iff)
  show ?thesis
  proof (cases subject)
    case None
    with s assms have "make_gate_decision G_REVIEW
         (Some (''scope execution target could not be resolved from task '' @ t_task_id t)) None = Inr gd"
      by (simp add: scope_gate_evaluate_def bind_op_def lift_res_def)
    with s None show ?thesis by (auto simp: make_gate_decision_Inr)
  next
    case (Some subj)
    with s assms obtain d where d: "scope_evaluate idna (sg_engine g) subj = Inr d"
      and "to_gate_decision (sg_allow_unknown_passive g) d a = Inr gd"
      by (auto simp: scope_gate_evaluate_def bind_op_Inr_iff lift_res_def)
    with to_gate_decision_table[of "sg_allow_unknown_passive g" d a] s Some show ?thesis by auto
  qed
qed

subsection \<open>Domain names\<close>

lemma ends_with_iff: "ends_with s suf \<longleftrightarrow> (\<exists>p. s = p @ suf)"
  unfolding ends_with_def prefix_def by (metis rev_append rev_rev_ident)

lemma wildcard_labels:
  "h \<noteq> suf \<and> ends_with h (''.'' @ suf) \<longleftrightarrow> (\<exists>pre. pre \<noteq> [] \<and> split_on CHR ''.'' h = pre @ split_on CHR ''.'' suf)"
proof
  assume "h \<noteq> suf \<and> ends_with h (''.'' @ suf)"
  then obtain p where "h = p @ CHR ''.'' # suf" by (auto simp: ends_with_iff)
  then show "\<exists>pre. pre \<noteq> [] \<and> split_on CHR ''.'' h = pre @ split_on CHR ''.'' suf"
    by (auto simp: split_on_append)
next
  assume "\<exists>pre. pre \<noteq> [] \<and> split_on CHR ''.'' h = pre @ split_on CHR ''.'' suf"
  then obtain pre where pre: "pre \<noteq> []" "split_on CHR ''.'' h = pre @ split_on CHR ''.'' suf" by blast
  have "join ''.'' (pre @ xs) = join ''.'' pre @ ''.'' @ join ''.'' xs" if "xs \<noteq> []" for xs
    using pre(1) that by (induction pre rule: list_nonempty_induct) (auto simp: join_Cons)
  with pre(2) have "join ''.'' (split_on CHR ''.'' h) = join ''.'' pre @ ''.'' @ join ''.'' (split_on CHR ''.'' suf)"
    by simp
  then have "h = join ''.'' pre @ ''.'' @ suf" by (simp only: join_split_on)
  then show "h \<noteq> suf \<and> ends_with h (''.'' @ suf)" by (auto simp: ends_with_iff)
qed

lemma lower_idem [simp]: "lower (lower s) = lower s"
proof -
  have "lower_char (lower_char c) = lower_char c" for c
  proof -
    have "(of_char c :: nat) < 256" by (rule nat_of_char_less_256)
    then show ?thesis by (auto simp: lower_char_def Let_def)
  qed
  then show ?thesis by (simp add: lower_def)
qed

lemma lower_space: "is_space (lower_char c) \<longleftrightarrow> is_space c"
proof -
  have "(of_char c :: nat) < 256" by (rule nat_of_char_less_256)
  then show ?thesis by (auto simp: lower_char_def is_space_def Let_def)
qed

lemma lower_dot: "lower_char c = CHR ''.'' \<longleftrightarrow> c = CHR ''.''"
proof -
  let ?n = "of_char c :: nat"
  have "char_of (?n + 32) \<noteq> CHR ''.''" if "65 \<le> ?n \<and> ?n \<le> 90 \<or> 192 \<le> ?n \<and> ?n \<le> 222"
  proof
    assume "char_of (?n + 32) = CHR ''.''"
    then have "(of_char (char_of (?n + 32)) :: nat) = 46" by simp
    with that show False by auto
  qed
  then show ?thesis by (auto simp: lower_char_def Let_def)
qed

subsection \<open>Canonical forms are stable\<close>

lemma digit_not_space: "digit_value c < 16 \<Longrightarrow> \<not> is_space c"
  by (auto simp: digit_value_def is_space_def Let_def split: if_splits)

lemma numeral_not_space: "c \<in> set (numeral 10 n) \<Longrightarrow> \<not> is_space c"
  using numeral_digits[of 10 c n] digit_not_space[of c] by auto

lemma show_ip4_strip [simp]: "strip (show_ip (IPv4 w)) = show_ip (IPv4 w)"
  by (rule strip_no_space) (auto simp: show_ipv4_def parts4 is_space_def[of "CHR ''.''"] dest: numeral_not_space)

lemma show_net4_strip [simp]: "strip (show_net (Net4 w l)) = show_net (Net4 w l)"
  by (rule strip_no_space) (auto simp: show_ipv4_def parts4 is_space_def[of "CHR ''.''"] is_space_def[of "CHR ''/''"]
      dest: numeral_not_space)

lemma show_ip4_ne [simp]: "show_ip (IPv4 w) \<noteq> []"
  by (simp add: show_ipv4_def parts4)

lemma show_ip4_chars: "c \<in> set (show_ip (IPv4 w)) \<Longrightarrow> c = CHR ''.'' \<or> digit_value c < 10"
  using numeral_digits[of 10 c] by (auto simp: show_ipv4_def parts4)

lemma show_ip4_no_glob: "\<not> has_glob (show_ip (IPv4 w))"
proof -
  have "digit_value CHR ''*'' = 16" "digit_value CHR ''?'' = 16" by (simp_all add: digit_value_def)
  then show ?thesis
    using show_ip4_chars[of "CHR ''*''" w] show_ip4_chars[of "CHR ''?''" w] by (auto simp: has_glob_def simp del: show_ip.simps)
qed

lemma prefix4_bound: "prefix4 s = Some l \<Longrightarrow> l \<le> 32"
proof -
  have "l \<le> 32" if "filter p [0..<33] = l # xs" for p xs
  proof -
    have "l \<in> set (filter p [0..<33])" unfolding that by simp
    then show ?thesis by auto
  qed
  then show "prefix4 s = Some l \<Longrightarrow> l \<le> 32"
    by (auto simp: prefix4_def prefix_of_string_def prefix_of_mask_def split: if_splits option.splits list.splits)
qed

lemma ip_network4: "ip_network s = Some (Net4 w l) \<Longrightarrow> l \<le> 32 \<and> (\<exists>v. Net4 w l = make_net4 v l)"
  by (auto simp: ip_network_def make_net4_def make_net6_def dest: prefix4_bound
      split: list.splits option.splits ip_addr.splits)

lemma rstrip_dots_idem [simp]: "rstrip_dots (rstrip_dots s) = rstrip_dots s"
proof -
  have "dropWhile p (dropWhile p xs) = dropWhile p xs" for p :: "char \<Rightarrow> bool" and xs
    by (induction xs) auto
  then show ?thesis by (simp add: rstrip_dots_def)
qed

lemma rstrip_dots_lower: "rstrip_dots (lower s) = lower (rstrip_dots s)"
  by (simp add: rstrip_dots_def lower_def rev_map dropWhile_map comp_def lower_dot)

lemma rstrip_dots_subset: "c \<in> set (rstrip_dots s) \<Longrightarrow> c \<in> set s"
  by (auto simp: rstrip_dots_def dest: set_dropWhileD)

lemma ascii_lower: "ascii s \<Longrightarrow> ascii (lower s)"
  by (auto simp: ascii_def lower_def list_all_iff char_code_def lower_char_def Let_def)

lemma canonical_domain_ascii:
  assumes "canonical_domain idna v = Inr c" and "ascii v" and "\<forall>x \<in> set v. \<not> is_space x"
  shows "canonical_domain idna c = Inr c \<and> strip c = c \<and> c \<noteq> []"
proof -
  let ?d = "lower (rstrip_dots v)"
  have strip: "strip v = v" by (rule strip_no_space[OF assms(3)])
  have "ascii (rstrip_dots v)" using assms(2) rstrip_dots_subset by (auto simp: ascii_def list_all_iff)
  then have a: "ascii ?d" by (rule ascii_lower)
  with assms(1) strip have c: "c = ?d" and ne: "?d \<noteq> []" and enc: "idna_encode idna ?d = Some ?d"
    and labels: "\<not> (\<exists>l \<in> set (split_on CHR ''.'' ?d). l = [])"
    by (auto simp: canonical_domain_def idna_encode_def Let_def split: if_splits option.splits)
  have "\<forall>x \<in> set ?d. \<not> is_space x"
    using assms(3) rstrip_dots_subset by (auto simp: lower_def lower_space)
  then have sd: "strip ?d = ?d" by (rule strip_no_space)
  have "lower (rstrip_dots (strip ?d)) = ?d" by (simp add: sd rstrip_dots_lower)
  with enc labels ne have "canonical_domain idna ?d = Inr ?d"
    by (simp add: canonical_domain_def)
  with sd ne c show ?thesis by simp
qed

end
