(* ===== verification/Scope_Guarantees.thy ===== *)
theory Scope_Guarantees
  imports Scope_Properties Admission_Guarantees
begin

section \<open>What the scope rules guarantee\<close>

text \<open>
  The properties of recon/policy/scope.py: the precedence of the rules, the table of the gate and what it
  means for the coordinator, the exact meaning of wildcard and network rules, the stability of canonical
  subjects, and the network rule that outranks an exact exclusion.
\<close>

declare split_paired_All [simp del] split_paired_Ex [simp del]

subsection \<open>Samples\<close>

definition no_idna :: "string \<Rightarrow> string option" where
  "no_idna s = None"

definition sample_rule :: "string \<Rightarrow> asset_kind \<Rightarrow> string \<Rightarrow> scope_state \<Rightarrow> scope_rule" where
  "sample_rule i k p st = \<lparr>sr_rule_id = i, sr_kind = k, sr_pattern = p, sr_state = st, sr_priority = 0,
     sr_tier = None, sr_reason = None\<rparr>"

definition app_rule :: scope_rule where
  "app_rule = sample_rule ''app'' MOBILE_APP ''com.example.app'' SC_IN_SCOPE"

definition app_subject :: scope_subject where
  "app_subject = \<lparr>ss_kind = MOBILE_APP, ss_value = ''com.example.app''\<rparr>"

definition app_engine :: scope_engine where
  "app_engine = [(''app'', app_rule)]"

definition app_gate :: "worker_activity \<Rightarrow> scope_state \<Rightarrow> unit scope_gate" where
  "app_gate a st = \<lparr>sg_engine = [(''app'', app_rule\<lparr>sr_state := st\<rparr>)], sg_subjects = (\<lambda>_ x. (Inr (Some app_subject), x)),
     sg_activities = (\<lambda>_ x. (Inr a, x)), sg_recorder = None, sg_allow_unknown_passive = False\<rparr>"

lemma app_matches: "scope_matches idna app_subject (app_rule\<lparr>sr_state := st\<rparr>) = Inr True"
proof -
  have "plain ''com.example.app''" by (simp add: plain_def)
  then show ?thesis by (simp add: scope_matches_def app_rule_def sample_rule_def app_subject_def fnmatch_plain)
qed

lemma app_evaluates:
  "scope_evaluate idna [(''app'', app_rule\<lparr>sr_state := st\<rparr>)] app_subject = Inr (classified app_subject (app_rule\<lparr>sr_state := st\<rparr>) [])"
proof -
  have "\<exists>p. scope_specificity (app_rule\<lparr>sr_state := st\<rparr>) = Inr p"
    by (simp add: scope_specificity_def app_rule_def sample_rule_def Let_def)
  then show ?thesis
    unfolding scope_evaluate_Inr scope_ranked_def by (auto simp: app_matches sort_desc_def)
qed

lemma app_engine_reachable: "scope_engine_reachable app_engine"
proof -
  have "snd (register_scope app_rule []) = app_engine"
    by (simp add: register_scope_def app_engine_def app_rule_def sample_rule_def)
  with registered[OF no_rules, of app_rule] show ?thesis by simp
qed

lemma app_rule_state: "app_rule\<lparr>sr_state := SC_IN_SCOPE\<rparr> = app_rule"
  by (simp add: app_rule_def sample_rule_def)

subsection \<open>The properties\<close>

text \<open>C22: an asset is classified by the greatest matching rule, by priority, specificity, safety of its state and
  rule id, and is UNKNOWN exactly when no rule matches; the decision does not depend on the order in which the
  rules were registered.\<close>

theorem scope_precedence_exact:
  assumes "scope_engine_reachable e" and "scope_evaluate idna e s = Inr d"
  shows "(if \<exists>r \<in> set (dict_values e). scope_matches idna s r = Inr True
      then \<exists>w \<in> set (dict_values e). scope_matches idna s w = Inr True
        \<and> (\<forall>r \<in> set (dict_values e). scope_matches idna s r = Inr True \<longrightarrow> scope_sort_key r \<le> scope_sort_key w)
        \<and> sc_state d = sr_state w \<and> sc_matched_rule_id d = Some (sr_rule_id w)
      else sc_state d = SC_UNKNOWN \<and> sc_matched_rule_id d = None)
    \<and> (\<forall>e'. mset (dict_values e') = mset (dict_values e) \<longrightarrow> scope_evaluate idna e' s = Inr d)"
proof -
  note ok = scope_reachable_ok[OF assms(1)] and ev = assms(2)[unfolded scope_evaluate_Inr]
  have "scope_evaluate idna e' s = Inr d" if m: "mset (dict_values e') = mset (dict_values e)" for e' :: scope_engine
    unfolding scope_evaluate_Inr scope_ranked_order[OF ok m] mset_eq_setD[OF m] by (rule ev)
  moreover have "scope_ranked idna s (dict_values e) = [] \<longleftrightarrow> \<not> (\<exists>r \<in> set (dict_values e). scope_matches idna s r = Inr True)"
    unfolding scope_ranked_def scope_precedence.none_iff by blast
  ultimately show ?thesis
    using ev scope_winner[of idna s e] by (cases "scope_ranked idna s (dict_values e)") (auto simp: unclassified_def classified_def)
qed

theorem scope_precedence_exact_witness:
  "scope_evaluate no_idna app_engine app_subject = Inr (classified app_subject app_rule [])
    \<and> sc_state (classified app_subject app_rule []) = SC_IN_SCOPE"
proof -
  have e: "scope_evaluate no_idna app_engine app_subject = Inr (classified app_subject app_rule [])"
    using app_evaluates[of no_idna SC_IN_SCOPE] by (simp add: app_engine_def app_rule_state)
  from scope_precedence_exact[OF app_engine_reachable e] app_matches[of no_idna SC_IN_SCOPE] e show ?thesis
    by (simp add: app_engine_def app_rule_state split: if_splits) (simp add: app_rule_def sample_rule_def)
qed

text \<open>The gate is the documented table and is fail-closed: a decision that returns is the table's entry
  for the state of the target the provider resolved and the activity of the worker, and REVIEW when the
  target could not be resolved; an unknown target is never allowed to an active worker.\<close>

theorem scope_gate_table:
  assumes "scope_gate_evaluate idna g t sched x = (Inr gd, x')"
  shows "\<exists>subject a x1 x2. sg_subjects g t x = (Inr subject, x1) \<and> sg_activities g t x1 = (Inr a, x2)
    \<and> (case subject of
         None \<Rightarrow> gd_outcome gd = G_REVIEW
       | Some s \<Rightarrow> \<exists>d. scope_evaluate idna (sg_engine g) s = Inr d
           \<and> gd_outcome gd = documented_scope_outcome (sg_allow_unknown_passive g) (sc_state d) a)"
  by (rule scope_gate_Inr[OF assms])

theorem scope_gate_table_witness:
  "\<exists>gd. scope_gate_evaluate no_idna (app_gate A_ACTIVE SC_PASSIVE_ONLY) sample_task sample_schedule () = (Inr gd, ())
    \<and> gd_outcome gd = G_BLOCK"
proof -
  have e: "scope_evaluate no_idna (sg_engine (app_gate A_ACTIVE SC_PASSIVE_ONLY)) app_subject
      = Inr (classified app_subject (app_rule\<lparr>sr_state := SC_PASSIVE_ONLY\<rparr>) [])"
    by (simp add: app_gate_def app_evaluates)
  obtain gd where g: "to_gate_decision False (classified app_subject (app_rule\<lparr>sr_state := SC_PASSIVE_ONLY\<rparr>) []) A_ACTIVE = Inr gd"
    using to_gate_decision_table by blast
  with e have "scope_gate_evaluate no_idna (app_gate A_ACTIVE SC_PASSIVE_ONLY) sample_task sample_schedule () = (Inr gd, ())"
    by (simp add: scope_gate_evaluate_def bind_op_def lift_res_def app_gate_def)
  from scope_gate_table[OF this] this e show ?thesis
    by (auto simp: app_gate_def classified_def app_rule_def sample_rule_def)
qed

text \<open>C8: an active worker is dispatched only against an asset in scope: when the scope gate is among the gates of
  the coordinator, a task whose worker is active and whose target resolves gets a ticket only if the winning rule
  classifies the target IN_SCOPE, or if it is unknown or ambiguous and a review coordinator is configured to
  approve it; never against an OUT_OF_SCOPE or PASSIVE_ONLY asset.\<close>

theorem active_dispatch_in_scope:
  assumes "admit env lc sched s = (Inr (Inr ticket), s')"
    and "scope_as_gate idna g \<in> set (lc_gates lc)" and "get_task (sd_task_id sched) (lf_queue s) = Some t"
    and "\<forall>x. \<exists>x'. sg_subjects g t x = (Inr (Some target), x')" and "\<forall>x. \<exists>x'. sg_activities g t x = (Inr A_ACTIVE, x')"
  shows "\<exists>d. scope_evaluate idna (sg_engine g) target = Inr d
    \<and> (sc_state d = SC_IN_SCOPE \<and> (\<exists>w \<in> set (dict_values (sg_engine g)). scope_matches idna target w = Inr True \<and> sr_state w = SC_IN_SCOPE)
       \<or> sc_state d \<in> {SC_UNKNOWN, SC_AMBIGUOUS} \<and> lc_review_coordinator lc \<noteq> None)"
  using assms(1)
proof (rule admit_ticket)
  fix t' s1
  assume "get_task (sd_task_id sched) (lf_queue s) = Some t'" "gates_pass env lc t' sched 3 (lc_gates lc) s s1"
  with gates_pass_each[OF _ assms(2)] assms(3) obtain x gd x' where
    e: "scope_gate_evaluate idna g t sched x = (Inr gd, x')"
    and o: "gd_outcome gd = G_ALLOW \<or> gd_outcome gd = G_REVIEW \<and> lc_review_coordinator lc \<noteq> None"
    by (auto simp: scope_as_gate_def) blast+
  from scope_gate_Inr[OF e] obtain subject a x1 x2 where
    p: "sg_subjects g t x = (Inr subject, x1)" "sg_activities g t x1 = (Inr a, x2)"
    and c: "case subject of None \<Rightarrow> gd_outcome gd = G_REVIEW
       | Some s \<Rightarrow> \<exists>d. scope_evaluate idna (sg_engine g) s = Inr d
           \<and> gd_outcome gd = documented_scope_outcome (sg_allow_unknown_passive g) (sc_state d) a" by blast
  obtain y1 y2 where "sg_subjects g t x = (Inr (Some target), y1)" "sg_activities g t x1 = (Inr A_ACTIVE, y2)"
    using assms(4,5) by blast
  with p have "subject = Some target" "a = A_ACTIVE" by simp_all
  with c obtain d where d: "scope_evaluate idna (sg_engine g) target = Inr d"
    and gd: "gd_outcome gd = documented_scope_outcome (sg_allow_unknown_passive g) (sc_state d) A_ACTIVE" by auto
  have "\<exists>w \<in> set (dict_values (sg_engine g)). scope_matches idna target w = Inr True \<and> sr_state w = SC_IN_SCOPE"
    if "sc_state d = SC_IN_SCOPE"
    using d that scope_winner[of idna target "sg_engine g"] unfolding scope_evaluate_Inr
    by (cases "scope_ranked idna target (dict_values (sg_engine g))") (auto simp: unclassified_def classified_def)
  with d gd o show ?thesis by (cases "sc_state d") auto
qed

theorem active_dispatch_in_scope_witness:
  "\<exists>ticket s'. admit (quiet_env 5) (one_gate (scope_as_gate no_idna (app_gate A_ACTIVE SC_IN_SCOPE))) sample_schedule sample_life
      = (Inr (Inr ticket), s')
    \<and> (\<exists>d. scope_evaluate no_idna app_engine app_subject = Inr d \<and> sc_state d = SC_IN_SCOPE)"
proof -
  let ?lc = "one_gate (scope_as_gate no_idna (app_gate A_ACTIVE SC_IN_SCOPE))"
  obtain gd where gd: "to_gate_decision False (classified app_subject app_rule []) A_ACTIVE = Inr gd" "gd_outcome gd = G_ALLOW"
    using to_gate_decision_table[of False "classified app_subject app_rule []" A_ACTIVE]
    by (auto simp: classified_def app_rule_def sample_rule_def)
  have ev: "scope_evaluate no_idna (sg_engine (app_gate A_ACTIVE SC_IN_SCOPE)) app_subject = Inr (classified app_subject app_rule [])"
    using app_evaluates[of no_idna SC_IN_SCOPE] by (simp add: app_gate_def app_rule_state)
  have "scope_gate_evaluate no_idna (app_gate A_ACTIVE SC_IN_SCOPE) t sched () = (Inr gd, ())" for t sched
    using ev gd(1) by (simp add: scope_gate_evaluate_def bind_op_def lift_res_def app_gate_def)
  then obtain ticket s' where a: "admit (quiet_env 5) ?lc sample_schedule sample_life = (Inr (Inr ticket), s')"
    using admitted_by_gate[of "scope_as_gate no_idna (app_gate A_ACTIVE SC_IN_SCOPE)" gd] gd(2) by (auto simp: scope_as_gate_def)
  have t: "get_task (sd_task_id sample_schedule) (lf_queue sample_life) = Some (sample_task\<lparr>t_updated_at := 5\<rparr>)"
    by (simp add: sample_life_def sample_get)
  have "scope_as_gate no_idna (app_gate A_ACTIVE SC_IN_SCOPE) \<in> set (lc_gates ?lc)" "lc_review_coordinator ?lc = None"
    by (simp_all add: one_gate_def)
  with active_dispatch_in_scope[OF a _ t, of no_idna "app_gate A_ACTIVE SC_IN_SCOPE" app_subject] ev
  have "sc_state (classified app_subject app_rule []) = SC_IN_SCOPE" by (simp add: app_gate_def)
  with a ev show ?thesis by (auto simp: app_gate_def app_engine_def app_rule_state)
qed

text \<open>A DOMAIN rule means what it says, label by label: an exact rule matches the name itself, and
  \<open>*.suffix\<close> matches exactly the names whose labels are one or more labels followed by those of the suffix, so
  neither the apex nor a name that merely ends in the same letters.\<close>

theorem domain_rule_exact:
  assumes "sr_kind r = DOMAIN" and "scope_matches idna s r = Inr b"
  shows "(subject_hostname s = Inr None \<and> \<not> b)
    \<or> (\<exists>h c. subject_hostname s = Inr (Some h) \<and> canonical_domain idna h = Inr c
       \<and> (b \<longleftrightarrow> (if is_wildcard (sr_pattern r)
            then \<exists>pre. pre \<noteq> [] \<and> split_on CHR ''.'' c = pre @ split_on CHR ''.'' (drop 2 (sr_pattern r))
            else c = sr_pattern r)))"
proof -
  from assms obtain host where h: "subject_hostname s = Inr host" by (auto simp: scope_matches_def bind_res_Inr_iff)
  show ?thesis
  proof (cases host)
    case None
    with assms h show ?thesis by (simp add: scope_matches_def)
  next
    case (Some name)
    with assms h obtain c where "canonical_domain idna name = Inr c"
      "b = (if is_wildcard (sr_pattern r) then c \<noteq> drop 2 (sr_pattern r) \<and> ends_with c (''.'' @ drop 2 (sr_pattern r))
            else c = sr_pattern r)"
      by (auto simp: scope_matches_def match_domain_pattern_def bind_res_Inr_iff)
    with h Some show ?thesis unfolding wildcard_labels by blast
  qed
qed

theorem domain_rule_exact_witness:
  "scope_matches no_idna \<lparr>ss_kind = DOMAIN, ss_value = ''evilex.org''\<rparr> (sample_rule ''w'' DOMAIN ''*.ex.org'' SC_IN_SCOPE) = Inr False"
proof -
  let ?s = "\<lparr>ss_kind = DOMAIN, ss_value = ''evilex.org''\<rparr>" and ?r = "sample_rule ''w'' DOMAIN ''*.ex.org'' SC_IN_SCOPE"
  have c: "canonical_domain no_idna ''evilex.org'' = Inr ''evilex.org''" by code_simp
  then obtain b where b: "scope_matches no_idna ?s ?r = Inr b"
    by (simp add: scope_matches_def sample_rule_def subject_hostname_def match_domain_pattern_def)
  have h: "subject_hostname ?s = Inr (Some ''evilex.org'')" by (simp add: subject_hostname_def)
  have "sr_kind ?r = DOMAIN" "sr_pattern ?r = ''*.ex.org''" by (simp_all add: sample_rule_def)
  from domain_rule_exact[OF this(1) b] this(2) h c have "\<not> b"
    by (auto simp: is_wildcard_def Cons_eq_append_conv)
  with b show ?thesis by simp
qed

text \<open>Network rules are exact on IPv4: a CIDR rule matches an address exactly when they agree on the first
  \<open>l\<close> bits, and a network exactly when it has at least as long a prefix and lies inside; an address rule matches
  exactly its address.\<close>

theorem ipv4_rules_exact:
  assumes "l \<le> 32" and "k \<le> 32"
  shows "match_network_pattern \<lparr>ss_kind = IP_ADDRESS, ss_value = show_ip (IPv4 a)\<rparr> (show_net (make_net4 w l))
      = Inr (drop_bit (32 - l) a = drop_bit (32 - l) w)
    \<and> match_network_pattern \<lparr>ss_kind = CIDR, ss_value = show_net (make_net4 a k)\<rparr> (show_net (make_net4 w l))
      = Inr (l \<le> k \<and> drop_bit (32 - l) a = drop_bit (32 - l) w)
    \<and> match_ip_pattern (show_ip (IPv4 a)) (show_ip (IPv4 w)) = Inr (a = w)"
proof -
  have inj: "show_ip (IPv4 a) = show_ip (IPv4 w) \<longleftrightarrow> a = w"
    by (metis ip_address_show_ipv4 ip_addr.inject(1) option.inject)
  have net: "parse_network (show_net (make_net4 v j)) = Inr (make_net4 v j)" if "j \<le> 32" for v j
    by (simp only: parse_network_def ip_network_show4[OF that] option.case)
  have addr: "parse_address (show_ip (IPv4 v)) = Inr (IPv4 v)" for v
    by (simp only: parse_address_def ip_address_show_ipv4 option.case)
  show ?thesis
    unfolding match_network_pattern_def match_ip_pattern_def net[OF assms(1)] net[OF assms(2)] addr bind_res_simps
      scope_subject.simps asset_kind.case in_net4[OF assms(1)] subnet4[OF assms(2,1)] inj
    by (simp only: show_ip4_no_glob if_False)
qed

theorem ipv4_rules_exact_witness:
  "match_network_pattern \<lparr>ss_kind = IP_ADDRESS, ss_value = show_ip (IPv4 0xCB00710A)\<rparr> (show_net (make_net4 0xCB007100 24)) = Inr True
    \<and> match_network_pattern \<lparr>ss_kind = CIDR, ss_value = show_net (make_net4 0xCB000000 8)\<rparr> (show_net (make_net4 0xCB007100 24)) = Inr False"
  using ipv4_rules_exact[of 24 32 "0xCB00710A" "0xCB007100"] ipv4_rules_exact[of 24 8 "0xCB000000" "0xCB007100"] by simp

text \<open>Canonical subjects are stable: for IPv4 addresses, IPv4 networks and ASCII names, the subject that is
  stored is read back as itself, so classifying a recorded subject again classifies the same asset.\<close>

theorem canonical_subject_stable:
  assumes "make_subject idna k v = Inr s"
    and "k = IP_ADDRESS \<and> (\<exists>w. ip_address (strip v) = Some (IPv4 w))
      \<or> k = CIDR \<and> (\<exists>w l. ip_network (strip v) = Some (Net4 w l))
      \<or> k = DOMAIN \<and> ascii v \<and> (\<forall>c \<in> set v. \<not> is_space c)"
  shows "make_subject idna k (ss_value s) = Inr s"
  using assms(2)
proof (elim disjE conjE exE)
  fix w
  assume k: "k = IP_ADDRESS" and w: "ip_address (strip v) = Some (IPv4 w)"
  with assms(1) have "s = \<lparr>ss_kind = IP_ADDRESS, ss_value = show_ip (IPv4 w)\<rparr>"
    by (auto simp: make_subject_def canonical_subject_value_def parse_address_def validated_def bind_res_Inr_iff not_blank_Inr)
  with k show ?thesis
    by (simp add: make_subject_def not_blank_def canonical_subject_value_def parse_address_def validated_def
        ip_address_show_ipv4 del: show_ip.simps)
next
  fix w l
  assume k: "k = CIDR" and w: "ip_network (strip v) = Some (Net4 w l)"
  from ip_network4[OF w] obtain u where u: "Net4 w l = make_net4 u l" "l \<le> 32" by blast
  have "s = \<lparr>ss_kind = CIDR, ss_value = show_net (Net4 w l)\<rparr>"
    using k w assms(1)
    by (auto simp: make_subject_def canonical_subject_value_def parse_network_def validated_def bind_res_Inr_iff not_blank_Inr)
  moreover have "ip_network (show_net (Net4 w l)) = Some (Net4 w l)" unfolding u(1) by (rule ip_network_show4[OF u(2)])
  moreover have "show_net (Net4 w l) \<noteq> []" by simp
  ultimately show ?thesis using k
    by (simp add: make_subject_def not_blank_def canonical_subject_value_def parse_network_def validated_def
        del: show_net.simps)
next
  assume k: "k = DOMAIN" and v: "ascii v" "\<forall>c \<in> set v. \<not> is_space c"
  with assms(1) have "canonical_domain idna v = Inr (ss_value s)" "ss_kind s = DOMAIN"
    by (auto simp: make_subject_def canonical_subject_value_def validated_def bind_res_Inr_iff not_blank_Inr strip_no_space
        split: sum.splits)
  with canonical_domain_ascii[OF this(1) v] k show ?thesis
    by (simp add: make_subject_def not_blank_def canonical_subject_value_def validated_def)
qed

theorem canonical_subject_stable_witness:
  "make_subject no_idna DOMAIN ''API.Example.COM.'' = Inr \<lparr>ss_kind = DOMAIN, ss_value = ''api.example.com''\<rparr>
    \<and> make_subject no_idna DOMAIN ''api.example.com'' = Inr \<lparr>ss_kind = DOMAIN, ss_value = ''api.example.com''\<rparr>"
proof -
  have m: "make_subject no_idna DOMAIN ''API.Example.COM.'' = Inr \<lparr>ss_kind = DOMAIN, ss_value = ''api.example.com''\<rparr>"
    by code_simp
  have "ascii ''API.Example.COM.'' \<and> (\<forall>c \<in> set ''API.Example.COM.''. \<not> is_space c)" by code_simp
  with canonical_subject_stable[OF m] m show ?thesis by simp
qed

text \<open>An exact exclusion does not protect an address from a network rule: at equal priority the length of the
  prefix is compared with the length of the text of the address, so an IN_SCOPE network whose prefix is longer than
  that text wins over an OUT_OF_SCOPE rule for one of its addresses.\<close>

theorem network_outranks_exclusion:
  assumes "make_scope_engine [net, exact] = Inr e"
    and "sr_kind net = CIDR" and "sr_pattern net = show_net (make_net4 w l)" and "l \<le> 32"
    and "sr_kind exact = IP_ADDRESS" and "sr_pattern exact = show_ip (IPv4 a)"
    and "drop_bit (32 - l) a = drop_bit (32 - l) w"
    and "sr_priority net = sr_priority exact" and "length (show_ip (IPv4 a)) < l"
  shows "\<exists>d. scope_evaluate idna e \<lparr>ss_kind = IP_ADDRESS, ss_value = show_ip (IPv4 a)\<rparr> = Inr d
    \<and> sc_state d = sr_state net \<and> sc_matched_rule_ids d = [sr_rule_id net, sr_rule_id exact]"
proof -
  let ?s = "\<lparr>ss_kind = IP_ADDRESS, ss_value = show_ip (IPv4 a)\<rparr>"
  have v: "dict_values e = [net, exact]"
    using assms(1) by (auto simp: make_scope_engine_def register_scope_def bind_op_def lift_res_def split: if_splits)
  have m: "scope_matches idna ?s net = Inr True" "scope_matches idna ?s exact = Inr True"
    using assms(2-7) show_ip4_no_glob
    by (simp_all add: scope_matches_def match_network_pattern_def match_ip_pattern_def parse_network_def parse_address_def
        ip_network_show4 ip_address_show_ipv4 in_net4 del: show_ip.simps)
  have len: "prefixlen (make_net4 w l) = l" by (simp add: make_net4_def)
  have sp: "scope_specificity net = Inr (30, int l)" "scope_specificity exact = Inr (30, int (length (show_ip (IPv4 a))))"
    using assms(2-6) show_ip4_no_glob by (simp_all add: scope_specificity_def Let_def parse_network_def ip_network_show4 len del: show_ip.simps)
  have "scope_sort_key exact < scope_sort_key net"
    using assms(8,9) by (simp add: scope_sort_key_def sp less_prod_def)
  then have "scope_ranked idna ?s (dict_values e) = [net, exact]"
    by (simp add: scope_ranked_def v m sort_desc_def del: show_ip.simps)
  with m sp v have "scope_evaluate idna e ?s = Inr (classified ?s net [exact])"
    unfolding scope_evaluate_Inr by auto
  then show ?thesis by (simp add: classified_def)
qed

theorem network_outranks_exclusion_witness:
  "\<exists>e d. make_scope_engine [sample_rule ''net'' CIDR ''203.0.113.0/24'' SC_IN_SCOPE,
       sample_rule ''no'' IP_ADDRESS ''203.0.113.10'' SC_OUT_OF_SCOPE] = Inr e
    \<and> scope_evaluate no_idna e \<lparr>ss_kind = IP_ADDRESS, ss_value = ''203.0.113.10''\<rparr> = Inr d \<and> sc_state d = SC_IN_SCOPE"
proof -
  let ?net = "sample_rule ''net'' CIDR ''203.0.113.0/24'' SC_IN_SCOPE"
    and ?no = "sample_rule ''no'' IP_ADDRESS ''203.0.113.10'' SC_OUT_OF_SCOPE"
  have t: "show_net (make_net4 0xCB007100 24) = ''203.0.113.0/24''" "show_ip (IPv4 0xCB00710A) = ''203.0.113.10''"
    by code_simp+
  obtain e where e: "make_scope_engine [?net, ?no] = Inr e"
    by (simp add: make_scope_engine_def register_scope_def bind_op_def lift_res_def sample_rule_def)
  have "\<exists>d. scope_evaluate no_idna e \<lparr>ss_kind = IP_ADDRESS, ss_value = show_ip (IPv4 0xCB00710A)\<rparr> = Inr d
      \<and> sc_state d = sr_state ?net \<and> sc_matched_rule_ids d = [sr_rule_id ?net, sr_rule_id ?no]"
    by (rule network_outranks_exclusion[OF e, of "0xCB007100" 24 "0xCB00710A"]) (simp_all add: sample_rule_def t del: show_ip.simps show_net.simps)
  with e show ?thesis unfolding t by (auto simp: sample_rule_def)
qed

end
