(* ===== verification/Seeds.thy ===== *)
theory Seeds
  imports Scope
begin

section \<open>Domain seed planning (recon/policy/seeds.py)\<close>

text \<open>
  Scope rules say what is authorised, seeds say where discovery starts. A wildcard rule does not authorise
  its apex, so the planner derives a PASSIVE_ONLY anchor rule for it. \<open>digest\<close> is the hexadecimal SHA-256
  of a string and stays a parameter, as in the review gate; \<open>idna\<close> is the codec of the scope rules.
\<close>

datatype seed_mode = SM_EXACT | SM_WILDCARD_ANCHOR | SM_EXPLICIT

record seed_spec =
  se_domain :: string
  se_scope_state :: scope_state
  se_mode :: seed_mode
  se_matched_rule_id :: "string option"
  se_source_rule_ids :: "string list"

record seed_plan =
  sp_seeds :: "seed_spec list"
  sp_warnings :: "string list"

subsection \<open>Anchors\<close>

definition wants_anchor :: "scope_rule \<Rightarrow> bool" where
  "wants_anchor r \<longleftrightarrow> sr_kind r = DOMAIN \<and> sr_state r = SC_IN_SCOPE \<and> is_wildcard (sr_pattern r)
     \<and> \<not> has_glob (drop 2 (sr_pattern r))"

definition anchor_rule :: "(string \<Rightarrow> string) \<Rightarrow> scope_rule \<Rightarrow> scope_rule" where
  "anchor_rule digest r =
     \<lparr>sr_rule_id = ''seed-anchor-'' @ take 12 (digest (sr_rule_id r)), sr_kind = DOMAIN,
      sr_pattern = drop 2 (sr_pattern r), sr_state = SC_PASSIVE_ONLY, sr_priority = sr_priority r,
      sr_tier = sr_tier r,
      sr_reason = Some (''Ephemeral passive discovery anchor derived from explicit wildcard scope rule ''
        @ sr_rule_id r @ ''; active probing of the apex is not authorized by this anchor'')\<rparr>"

fun anchor_loop :: "(string \<Rightarrow> string) \<Rightarrow> (string \<Rightarrow> string option) \<Rightarrow> scope_engine \<Rightarrow> scope_rule list
    \<Rightarrow> scope_rule list res" where
  "anchor_loop digest idna engine [] = Inr []"
| "anchor_loop digest idna engine (r # rs) =
     (if \<not> wants_anchor r then anchor_loop digest idna engine rs
      else bind_res (make_subject idna DOMAIN (drop 2 (sr_pattern r))) (\<lambda>apex.
           bind_res (scope_evaluate idna engine apex) (\<lambda>d.
           if sc_state d \<noteq> SC_UNKNOWN then anchor_loop digest idna engine rs
           else bind_res (make_scope_rule idna (anchor_rule digest r)) (\<lambda>a.
                bind_res (anchor_loop digest idna engine rs) (\<lambda>as. Inr (a # as))))))"

definition derived_wildcard_anchor_rules ::
  "(string \<Rightarrow> string) \<Rightarrow> (string \<Rightarrow> string option) \<Rightarrow> scope_rule list \<Rightarrow> scope_rule list res" where
  "derived_wildcard_anchor_rules digest idna rules =
     bind_res (make_scope_engine rules) (\<lambda>engine. anchor_loop digest idna engine rules)"

definition effective_scope_rules ::
  "(string \<Rightarrow> string) \<Rightarrow> (string \<Rightarrow> string option) \<Rightarrow> scope_rule list \<Rightarrow> scope_rule list res" where
  "effective_scope_rules digest idna rules =
     bind_res (derived_wildcard_anchor_rules digest idna rules) (\<lambda>anchors. Inr (rules @ anchors))"

subsection \<open>Merging seeds of one domain\<close>

definition merge_seeds :: "seed_spec \<Rightarrow> seed_spec \<Rightarrow> seed_spec" where
  "merge_seeds current seed =
     (let ids = dedupe (se_source_rule_ids current @ se_source_rule_ids seed)
      in if se_scope_state current = SC_IN_SCOPE then current\<lparr>se_source_rule_ids := ids\<rparr>
         else if se_scope_state seed = SC_IN_SCOPE then seed\<lparr>se_source_rule_ids := ids\<rparr>
         else current\<lparr>se_source_rule_ids := ids\<rparr>)"

definition add_seed :: "seed_spec \<Rightarrow> (string, seed_spec) dict \<Rightarrow> (string, seed_spec) dict" where
  "add_seed s d = dict_set (se_domain s)
     (case dict_get d (se_domain s) of None \<Rightarrow> s | Some current \<Rightarrow> merge_seeds current s) d"

fun collect_seeds :: "seed_spec list \<Rightarrow> (string, seed_spec) dict \<Rightarrow> (string, seed_spec) dict" where
  "collect_seeds [] d = d"
| "collect_seeds (s # ss) d = collect_seeds ss (add_seed s d)"

definition dedupe_seeds :: "seed_spec list \<Rightarrow> seed_spec list" where
  "dedupe_seeds seeds = (let d = collect_seeds seeds [] in map (\<lambda>k. the (dict_get d k)) (sort (map fst d)))"

subsection \<open>The plan\<close>

definition executable_state :: "scope_state \<Rightarrow> bool" where
  "executable_state st \<longleftrightarrow> st = SC_IN_SCOPE \<or> st = SC_PASSIVE_ONLY"

definition seed_mode_of :: "string list \<Rightarrow> scope_decision \<Rightarrow> seed_mode \<Rightarrow> seed_mode" where
  "seed_mode_of anchor_ids d expected =
     (case sc_matched_rule_id d of
        None \<Rightarrow> expected
      | Some i \<Rightarrow> if i \<in> set anchor_ids then SM_WILDCARD_ANCHOR else expected)"

fun requested_loop :: "(string \<Rightarrow> string option) \<Rightarrow> scope_engine \<Rightarrow> string list \<Rightarrow> string list \<Rightarrow> seed_spec list res" where
  "requested_loop idna engine anchor_ids [] = Inr []"
| "requested_loop idna engine anchor_ids (raw # rest) =
     bind_res (make_subject idna DOMAIN raw) (\<lambda>subject.
     bind_res (scope_evaluate idna engine subject) (\<lambda>d.
     if \<not> executable_state (sc_state d)
     then Inl (SeedPlanningError (''requested seed '' @ py_repr (ss_value subject) @ '' is ''
            @ scope_state_value (sc_state d) @ ''; it must be explicitly IN_SCOPE or PASSIVE_ONLY''))
     else bind_res (requested_loop idna engine anchor_ids rest) (\<lambda>seeds.
       Inr (\<lparr>se_domain = ss_value subject, se_scope_state = sc_state d,
             se_mode = seed_mode_of anchor_ids d SM_EXPLICIT, se_matched_rule_id = sc_matched_rule_id d,
             se_source_rule_ids = sc_matched_rule_ids d\<rparr> # seeds))))"

definition seedable :: "scope_rule \<Rightarrow> bool" where
  "seedable r \<longleftrightarrow> sr_kind r = DOMAIN \<and> sr_state r = SC_IN_SCOPE"

definition seed_origin :: "scope_rule \<Rightarrow> (string \<times> seed_mode) option" where
  "seed_origin r =
     (if is_wildcard (sr_pattern r) \<and> \<not> has_glob (drop 2 (sr_pattern r))
      then Some (drop 2 (sr_pattern r), SM_WILDCARD_ANCHOR)
      else if \<not> has_glob (sr_pattern r) then Some (sr_pattern r, SM_EXACT)
      else None)"

definition unsupported_warning :: "scope_rule \<Rightarrow> string" where
  "unsupported_warning r = ''scope rule '' @ sr_rule_id r @ '' uses unsupported DOMAIN glob ''
     @ py_repr (sr_pattern r) @ ''; it remains an authorization rule but was not auto-seeded''"

definition inactive_warning :: "scope_rule \<Rightarrow> string \<Rightarrow> scope_state \<Rightarrow> string" where
  "inactive_warning r domain st = ''scope rule '' @ sr_rule_id r @ '' did not produce an executable seed for ''
     @ domain @ '': effective state is '' @ scope_state_value st"

text \<open>The automatic branch: the seeds and the warnings, in the order of the rules.\<close>

fun automatic_loop :: "(string \<Rightarrow> string option) \<Rightarrow> scope_engine \<Rightarrow> string list \<Rightarrow> scope_rule list
    \<Rightarrow> (seed_spec list \<times> string list) res" where
  "automatic_loop idna engine anchor_ids [] = Inr ([], [])"
| "automatic_loop idna engine anchor_ids (r # rs) =
     (if \<not> seedable r then automatic_loop idna engine anchor_ids rs
      else case seed_origin r of
        None \<Rightarrow> bind_res (automatic_loop idna engine anchor_ids rs) (\<lambda>(seeds, warnings).
          Inr (seeds, unsupported_warning r # warnings))
      | Some (domain, expected) \<Rightarrow>
          bind_res (make_subject idna DOMAIN domain) (\<lambda>subject.
          bind_res (scope_evaluate idna engine subject) (\<lambda>d.
          if \<not> executable_state (sc_state d)
          then bind_res (automatic_loop idna engine anchor_ids rs) (\<lambda>(seeds, warnings).
            Inr (seeds, inactive_warning r domain (sc_state d) # warnings))
          else bind_res (automatic_loop idna engine anchor_ids rs) (\<lambda>(seeds, warnings).
            Inr (\<lparr>se_domain = domain, se_scope_state = sc_state d,
                  se_mode = seed_mode_of anchor_ids d expected, se_matched_rule_id = sc_matched_rule_id d,
                  se_source_rule_ids = dedupe (sr_rule_id r # sc_matched_rule_ids d)\<rparr> # seeds, warnings)))))"

definition plan_domain_seeds ::
  "(string \<Rightarrow> string) \<Rightarrow> (string \<Rightarrow> string option) \<Rightarrow> scope_rule list \<Rightarrow> string list \<Rightarrow> seed_plan res" where
  "plan_domain_seeds digest idna rules requested =
     bind_res (derived_wildcard_anchor_rules digest idna rules) (\<lambda>anchors.
     bind_res (make_scope_engine (rules @ anchors)) (\<lambda>engine.
     let anchor_ids = map sr_rule_id anchors
     in if requested \<noteq> []
        then bind_res (requested_loop idna engine anchor_ids requested) (\<lambda>seeds.
          Inr \<lparr>sp_seeds = dedupe_seeds seeds, sp_warnings = []\<rparr>)
        else bind_res (automatic_loop idna engine anchor_ids rules) (\<lambda>(seeds, warnings).
          Inr \<lparr>sp_seeds = dedupe_seeds seeds, sp_warnings = dedupe warnings\<rparr>)))"

end
