(* ===== verification/Seed_Properties.thy ===== *)
theory Seed_Properties
  imports Seeds Scope_Guarantees
begin

section \<open>What seed planning guarantees\<close>

text \<open>
  The properties of recon/policy/seeds.py: the derived anchors add passive permissions only, every planned
  seed is authorised, no rule is dropped silently, and an anchor that overrides an explicit URL exclusion.
\<close>

declare split_paired_All [simp del] split_paired_Ex [simp del]

subsection \<open>Engines over a list of rules\<close>

definition rule_dict :: "scope_rule list \<Rightarrow> scope_engine" where
  "rule_dict rules = map (\<lambda>r. (sr_rule_id r, r)) rules"

lemma rule_dict_values [simp]: "dict_values (rule_dict rules) = rules"
  by (simp add: rule_dict_def comp_def)

lemma rule_dict_keys [simp]: "map fst (rule_dict rules) = map sr_rule_id rules"
  by (simp add: rule_dict_def)

lemma register_scope_all_Inr:
  assumes "register_scope_all rules e = (Inr (), e')"
  shows "e' = e @ rule_dict rules \<and> (distinct (map fst e) \<longrightarrow> distinct (map fst e'))"
  using assms
proof (induction rules arbitrary: e)
  case Nil
  then show ?case by (simp add: rule_dict_def)
next
  case (Cons r rs)
  have fresh: "dict_get e (sr_rule_id r) = None"
    using Cons.prems by (cases "dict_get e (sr_rule_id r)") (auto simp: bind_op_def register_scope_def)
  with Cons.prems have "register_scope_all rs (e @ [(sr_rule_id r, r)]) = (Inr (), e')"
    unfolding register_scope_all.simps bind_op_def register_scope_fresh[OF fresh] by simp
  note ih = Cons.IH[OF this]
  have "distinct (map fst e) \<longrightarrow> distinct (map fst (e @ [(sr_rule_id r, r)]))"
    using fresh by (simp add: map_of_eq_None_iff)
  moreover have "e' = e @ rule_dict (r # rs)" using ih by (simp add: rule_dict_def)
  ultimately show ?case using ih by blast
qed

lemma make_scope_engine_Inr:
  assumes "make_scope_engine rules = Inr e"
  shows "e = rule_dict rules \<and> distinct (map sr_rule_id rules) \<and> scope_engine_ok e"
proof -
  from assms have "register_scope_all rules [] = (Inr (), e)"
    by (auto simp: make_scope_engine_def split: prod.splits sum.splits)
  from register_scope_all_Inr[OF this] have "e = rule_dict rules" "distinct (map fst e)" by auto
  then show ?thesis unfolding scope_engine_ok_def by (auto simp: rule_dict_def comp_def)
qed

lemma wins_iff:
  assumes "distinct (map sr_rule_id (dict_values e))" and "scope_evaluate idna e s = Inr d"
    and "w \<in> set (dict_values e)" and "scope_matches idna s w = Inr True"
    and "\<And>r. r \<in> set (dict_values e) \<Longrightarrow> scope_matches idna s r = Inr True \<Longrightarrow> scope_sort_key r \<le> scope_sort_key w"
  shows "sc_state d = sr_state w \<and> sc_matched_rule_id d = Some (sr_rule_id w)"
proof (cases "scope_ranked idna s (dict_values e)")
  case Nil
  then have False using assms(3,4) unfolding scope_ranked_def scope_precedence.none_iff by blast
  then show ?thesis ..
next
  case (Cons v rest)
  from scope_winner[OF Cons] assms(3,4,5) have v: "v \<in> set (dict_values e)" and "scope_sort_key v = scope_sort_key w"
    by (auto intro: antisym)
  then have "sr_rule_id v = sr_rule_id w" by (simp add: scope_sort_key_def Let_def)
  with assms(1,3) v have "v = w" by (metis distinct_map inj_on_def)
  with Cons assms(2) show ?thesis unfolding scope_evaluate_Inr by (simp add: classified_def)
qed

lemma unmatched_state:
  assumes "scope_evaluate idna e s = Inr d" and "\<And>r. r \<in> set (dict_values e) \<Longrightarrow> scope_matches idna s r \<noteq> Inr True"
  shows "sc_state d = SC_UNKNOWN \<and> sc_matched_rule_id d = None"
proof -
  have "scope_ranked idna s (dict_values e) = []" using assms(2) unfolding scope_ranked_def scope_precedence.none_iff by blast
  with assms(1) show ?thesis unfolding scope_evaluate_Inr by (simp add: unclassified_def)
qed

lemma winner_exists:
  assumes "scope_evaluate idna e s = Inr d" and "r \<in> set (dict_values e)" and "scope_matches idna s r = Inr True"
  obtains w where "w \<in> set (dict_values e)" "scope_matches idna s w = Inr True"
    "\<And>q. q \<in> set (dict_values e) \<Longrightarrow> scope_matches idna s q = Inr True \<Longrightarrow> scope_sort_key q \<le> scope_sort_key w"
    "sc_state d = sr_state w" "sc_matched_rule_id d = Some (sr_rule_id w)"
proof (cases "scope_ranked idna s (dict_values e)")
  case Nil
  then have False using assms(2,3) unfolding scope_ranked_def scope_precedence.none_iff by blast
  then show ?thesis ..
next
  case (Cons v rest)
  with assms(1) have "sc_state d = sr_state v \<and> sc_matched_rule_id d = Some (sr_rule_id v)"
    unfolding scope_evaluate_Inr by (simp add: classified_def)
  with scope_winner[OF Cons] that show ?thesis by blast
qed

text \<open>Adding rules: the decision stays, or one of the new rules makes it.\<close>

lemma added_rules_decide:
  assumes ids: "distinct (map sr_rule_id (rs @ as))"
    and old: "scope_evaluate idna (rule_dict rs) s = Inr d"
    and new: "scope_evaluate idna (rule_dict (rs @ as)) s = Inr d'"
  shows "sc_state d' = sc_state d \<and> sc_matched_rule_id d' = sc_matched_rule_id d
    \<or> (\<exists>a \<in> set as. scope_matches idna s a = Inr True \<and> sc_state d' = sr_state a \<and> sc_matched_rule_id d' = Some (sr_rule_id a))"
proof (cases "\<exists>r \<in> set (rs @ as). scope_matches idna s r = Inr True")
  case False
  then show ?thesis using unmatched_state[OF old] unmatched_state[OF new] by (simp add: rule_dict_values)
next
  case True
  then obtain r where "r \<in> set (dict_values (rule_dict (rs @ as)))" "scope_matches idna s r = Inr True" by auto
  then obtain w where w: "w \<in> set (rs @ as)" "scope_matches idna s w = Inr True"
    "\<And>q. q \<in> set (rs @ as) \<Longrightarrow> scope_matches idna s q = Inr True \<Longrightarrow> scope_sort_key q \<le> scope_sort_key w"
    and d': "sc_state d' = sr_state w" "sc_matched_rule_id d' = Some (sr_rule_id w)"
    using winner_exists[OF new] unfolding rule_dict_values by metis
  show ?thesis
  proof (cases "w \<in> set as")
    case True
    with w d' show ?thesis by blast
  next
    case False
    with w(1) have "w \<in> set (dict_values (rule_dict rs))" by simp
    from wins_iff[OF _ old this w(2)] ids w(3) d' show ?thesis by simp
  qed
qed

subsection \<open>Anchors\<close>

lemma anchor_loop_mem:
  assumes "anchor_loop digest idna e rs = Inr as" and "a \<in> set as"
  shows "\<exists>r apex d. r \<in> set rs \<and> wants_anchor r \<and> make_subject idna DOMAIN (drop 2 (sr_pattern r)) = Inr apex
    \<and> scope_evaluate idna e apex = Inr d \<and> sc_state d = SC_UNKNOWN \<and> make_scope_rule idna (anchor_rule digest r) = Inr a"
  using assms
proof (induction rs arbitrary: as)
  case (Cons r rs)
  show ?case
  proof (cases "anchor_loop digest idna e rs = Inr as")
    case True
    from Cons.IH[OF this Cons.prems(2)] show ?thesis by auto
  next
    case False
    with Cons.prems(1) obtain apex d b bs where w: "wants_anchor r"
      and m: "make_subject idna DOMAIN (drop 2 (sr_pattern r)) = Inr apex" "scope_evaluate idna e apex = Inr d"
        "sc_state d = SC_UNKNOWN" "make_scope_rule idna (anchor_rule digest r) = Inr b"
      and bs: "anchor_loop digest idna e rs = Inr bs" "as = b # bs"
      by (auto simp: bind_res_Inr_iff split: if_splits)
    show ?thesis
    proof (cases "a = b")
      case True
      with w m show ?thesis by auto
    next
      case False
      with bs(2) Cons.prems(2) have "a \<in> set bs" by simp
      from Cons.IH[OF bs(1) this] show ?thesis by auto
    qed
  qed
qed simp

lemma lower_char_low:
  assumes "(of_char x :: nat) < 65"
  shows "lower_char c = x \<longleftrightarrow> c = x"
proof -
  let ?n = "of_char c :: nat"
  have "char_of (?n + 32) \<noteq> x" if "65 \<le> ?n \<and> ?n \<le> 90 \<or> 192 \<le> ?n \<and> ?n \<le> 222"
  proof
    assume "char_of (?n + 32) = x"
    then have "(of_char (char_of (?n + 32)) :: nat) = of_char x" by simp
    with that assms show False by auto
  qed
  moreover have "c \<noteq> x" if "65 \<le> ?n" using that assms by auto
  ultimately show ?thesis by (auto simp: lower_char_def Let_def)
qed

lemma has_glob_lower: "has_glob (lower s) \<longleftrightarrow> has_glob s"
proof -
  have "x \<in> set (lower s) \<longleftrightarrow> x \<in> set s" if "(of_char x :: nat) < 65" for x
    unfolding lower_def set_map image_iff using lower_char_low[OF that] by metis
  then show ?thesis by (simp add: has_glob_def)
qed

lemma has_glob_subset: "has_glob s \<Longrightarrow> set s \<subseteq> set t \<Longrightarrow> has_glob t"
  by (auto simp: has_glob_def)

lemma strip_subset: "set (strip s) \<subseteq> set s"
  unfolding strip_def set_rev by (auto dest!: set_dropWhileD)

text \<open>A codec that encodes into letters, digits and hyphens (an A-label) emits no pattern character.\<close>

definition ldh_codec :: "(string \<Rightarrow> string option) \<Rightarrow> bool" where
  "ldh_codec idna \<longleftrightarrow> (\<forall>x y. idna x = Some y \<longrightarrow> \<not> has_glob y)"

lemma canonical_domain_no_glob:
  assumes "canonical_domain idna v = Inr c" and "\<not> has_glob v" and "ldh_codec idna"
  shows "\<not> has_glob c"
proof -
  let ?d = "lower (rstrip_dots (strip v))"
  have "set (rstrip_dots (strip v)) \<subseteq> set v" using rstrip_dots_subset strip_subset by blast
  then have d: "\<not> has_glob ?d" unfolding has_glob_lower using assms(2) has_glob_subset by blast
  from assms(1) have "idna_encode idna ?d = Some c"
    by (auto simp: canonical_domain_def Let_def split: if_splits option.splits)
  then show ?thesis using d assms(3) by (auto simp: idna_encode_def ldh_codec_def Let_def split: if_splits)
qed

lemma glob_free_not_wildcard: "\<not> has_glob s \<Longrightarrow> \<not> is_wildcard s"
  by (cases s) (auto simp: has_glob_def is_wildcard_def)

lemma wants_anchor_shape:
  assumes "wants_anchor r" and "make_subject idna DOMAIN (drop 2 (sr_pattern r)) = Inr apex"
    and "make_scope_rule idna (anchor_rule digest r) = Inr a" and "ldh_codec idna"
  shows "sr_kind a = DOMAIN \<and> sr_state a = SC_PASSIVE_ONLY \<and> sr_pattern a = ss_value apex \<and> ss_kind apex = DOMAIN
    \<and> \<not> is_wildcard (sr_pattern a)"
proof -
  let ?v = "strip (drop 2 (sr_pattern r))"
  have g: "\<not> has_glob ?v" using assms(1) has_glob_subset[OF _ strip_subset] by (auto simp: wants_anchor_def)
  from assms(2) have c: "validated (canonical_domain idna ?v) = Inr (ss_value apex)" and k: "ss_kind apex = DOMAIN"
    by (auto simp: make_subject_def bind_res_Inr_iff not_blank_Inr canonical_subject_value_def)
  from assms(3) have a: "sr_kind a = DOMAIN" "sr_state a = SC_PASSIVE_ONLY" "validated (canonical_domain idna ?v) = Inr (sr_pattern a)"
    using g glob_free_not_wildcard[OF g]
    by (auto simp: make_scope_rule_def anchor_rule_def bind_res_Inr_iff canonical_rule_pattern_def Let_def validated_def
        split: if_splits sum.splits)
  have "canonical_domain idna ?v = Inr (sr_pattern a)" using a(3) by (auto simp: validated_def split: sum.splits)
  from glob_free_not_wildcard[OF canonical_domain_no_glob[OF this g assms(4)]] a c k show ?thesis by simp
qed

lemma anchor_matches_apex:
  assumes "wants_anchor r" and "make_subject idna DOMAIN (drop 2 (sr_pattern r)) = Inr apex"
    and "make_scope_rule idna (anchor_rule digest r) = Inr a" and "ldh_codec idna"
    and "scope_matches idna s a = Inr True" and "ss_kind s = DOMAIN" and "canonical_domain idna (ss_value s) = Inr (ss_value s)"
  shows "s = apex"
proof -
  note a = wants_anchor_shape[OF assms(1-4)]
  with assms(5-7) have "ss_value s = ss_value apex"
    by (simp add: scope_matches_def subject_hostname_def match_domain_pattern_def split: if_splits)
  with a assms(6) show ?thesis by (cases s, cases apex) simp
qed

subsection \<open>Merging\<close>

lemma merge_seeds_simps [simp]:
  "se_domain current = se_domain seed \<Longrightarrow> se_domain (merge_seeds current seed) = se_domain seed"
  "set (se_source_rule_ids (merge_seeds current seed)) = set (se_source_rule_ids current) \<union> set (se_source_rule_ids seed)"
  by (auto simp: merge_seeds_def Let_def)

lemma add_seed_get [simp]:
  "dict_get (add_seed s d) = (dict_get d)(se_domain s \<mapsto>
     (case dict_get d (se_domain s) of None \<Rightarrow> s | Some current \<Rightarrow> merge_seeds current s))"
  by (simp add: add_seed_def)

lemma add_seed_keys: "fst ` set (add_seed s d) = insert (se_domain s) (fst ` set d)"
  unfolding add_seed_def set_map[symmetric] dict_keys_set by auto

lemma add_seed_ok: "dict_ok d \<Longrightarrow> dict_ok (add_seed s d)"
  unfolding add_seed_def by (rule dict_ok_set)

text \<open>A property of seeds that does not depend on their source rules survives the merging.\<close>

definition seeds_satisfy :: "(seed_spec \<Rightarrow> bool) \<Rightarrow> (string, seed_spec) dict \<Rightarrow> bool" where
  "seeds_satisfy P d \<longleftrightarrow> dict_ok d \<and> (\<forall>k s. dict_get d k = Some s \<longrightarrow> se_domain s = k \<and> P s)"

lemma add_seed_satisfy:
  assumes "\<And>s ids. P s \<Longrightarrow> P (s\<lparr>se_source_rule_ids := ids\<rparr>)" and "P s" and "seeds_satisfy P d"
  shows "seeds_satisfy P (add_seed s d)"
proof -
  have "P (case dict_get d (se_domain s) of None \<Rightarrow> s | Some c \<Rightarrow> merge_seeds c s)"
    using assms by (auto simp: seeds_satisfy_def merge_seeds_def Let_def split: option.split)
  moreover have "se_domain (case dict_get d (se_domain s) of None \<Rightarrow> s | Some c \<Rightarrow> merge_seeds c s) = se_domain s"
    using assms(3) by (auto simp: seeds_satisfy_def split: option.split)
  ultimately show ?thesis using assms(3) by (simp add: seeds_satisfy_def add_seed_ok)
qed

lemma collect_seeds_satisfy:
  assumes "\<And>s ids. P s \<Longrightarrow> P (s\<lparr>se_source_rule_ids := ids\<rparr>)"
  shows "list_all P ss \<Longrightarrow> seeds_satisfy P d \<Longrightarrow> seeds_satisfy P (collect_seeds ss d)"
proof (induction ss arbitrary: d)
  case (Cons s ss)
  then show ?case using add_seed_satisfy[of P, OF assms] by simp
qed simp

lemma collect_seeds_mono:
  "dict_get d k = Some u \<Longrightarrow> \<exists>t. dict_get (collect_seeds ss d) k = Some t \<and> set (se_source_rule_ids u) \<subseteq> set (se_source_rule_ids t)"
proof (induction ss arbitrary: d u)
  case (Cons s ss)
  obtain v where "dict_get (add_seed s d) k = Some v" "set (se_source_rule_ids u) \<subseteq> set (se_source_rule_ids v)"
    using Cons.prems by (cases "se_domain s = k") auto
  with Cons.IH[of "add_seed s d" v] show ?case by auto
qed auto

lemma collect_seeds_keeps:
  "s \<in> set ss \<Longrightarrow> \<exists>t. dict_get (collect_seeds ss d) (se_domain s) = Some t \<and> set (se_source_rule_ids s) \<subseteq> set (se_source_rule_ids t)"
proof (induction ss arbitrary: d)
  case (Cons a ss)
  show ?case
  proof (cases "s = a")
    case False
    with Cons.prems Cons.IH show ?thesis by simp
  next
    case True
    have "\<exists>v. dict_get (add_seed s d) (se_domain s) = Some v \<and> set (se_source_rule_ids s) \<subseteq> set (se_source_rule_ids v)"
      by (simp split: option.split)
    with True collect_seeds_mono[of "add_seed s d" "se_domain s" _ ss] show ?thesis by fastforce
  qed
qed simp

lemma dedupe_seeds_inv:
  assumes ids: "\<And>s ids. P s \<Longrightarrow> P (s\<lparr>se_source_rule_ids := ids\<rparr>)" and "list_all P ss"
  shows "sorted_wrt (<) (map se_domain (dedupe_seeds ss)) \<and> list_all P (dedupe_seeds ss)
    \<and> (\<forall>s \<in> set ss. \<exists>t \<in> set (dedupe_seeds ss). se_domain t = se_domain s \<and> set (se_source_rule_ids s) \<subseteq> set (se_source_rule_ids t))"
proof -
  let ?d = "collect_seeds ss []"
  have "seeds_satisfy P []" by (simp add: seeds_satisfy_def)
  with assms have I: "seeds_satisfy P ?d" using collect_seeds_satisfy[of P ss "[]"] by blast
  have get: "se_domain (the (dict_get ?d k)) = k \<and> P (the (dict_get ?d k))" if "k \<in> set (map fst ?d)" for k
  proof -
    from that obtain s where "dict_get ?d k = Some s" by (cases "dict_get ?d k") (auto simp: map_of_eq_None_iff)
    with I show ?thesis by (simp add: seeds_satisfy_def)
  qed
  have dom: "map se_domain (dedupe_seeds ss) = sort (map fst ?d)"
    unfolding dedupe_seeds_def Let_def map_map by (rule map_idI) (use get in \<open>simp only: set_sort comp_apply\<close>)
  have sorted: "sorted_wrt (<) (sort (map fst ?d))" using I by (simp add: strict_sorted_iff seeds_satisfy_def)
  have all: "list_all P (dedupe_seeds ss)"
    using get unfolding dedupe_seeds_def Let_def list_all_iff set_map set_sort by blast
  have "\<exists>t \<in> set (dedupe_seeds ss). se_domain t = se_domain s \<and> set (se_source_rule_ids s) \<subseteq> set (se_source_rule_ids t)"
    if s: "s \<in> set ss" for s
  proof -
    obtain t where t: "dict_get ?d (se_domain s) = Some t" "set (se_source_rule_ids s) \<subseteq> set (se_source_rule_ids t)"
      using collect_seeds_keeps[OF s] by blast
    then have "se_domain s \<in> set (sort (map fst ?d))" by (force dest: map_of_SomeD)
    then have "the (dict_get ?d (se_domain s)) \<in> set (dedupe_seeds ss)" unfolding dedupe_seeds_def Let_def set_map by (rule imageI)
    moreover have "se_domain t = se_domain s" using t(1) I unfolding seeds_satisfy_def by blast
    ultimately show ?thesis using t by auto
  qed
  with sorted all show ?thesis unfolding dom by blast
qed

subsection \<open>The two branches of the planner\<close>

text \<open>A seed the engine authorises: its domain is classified IN_SCOPE or PASSIVE_ONLY, and the seed records the
  decision and its rule; when the rule is an anchor the mode says so.\<close>

definition authorised_seed ::
  "(string \<Rightarrow> string option) \<Rightarrow> scope_engine \<Rightarrow> string list \<Rightarrow> seed_spec \<Rightarrow> bool" where
  "authorised_seed idna e anchor_ids s \<longleftrightarrow> se_scope_state s \<in> {SC_IN_SCOPE, SC_PASSIVE_ONLY}
     \<and> (\<exists>subject d. ss_kind subject = DOMAIN
        \<and> (se_domain s = ss_value subject \<or> make_subject idna DOMAIN (se_domain s) = Inr subject)
        \<and> scope_evaluate idna e subject = Inr d \<and> se_scope_state s = sc_state d
        \<and> se_matched_rule_id s = sc_matched_rule_id d
        \<and> (sc_matched_rule_id d \<in> Some ` set anchor_ids \<longrightarrow> se_mode s = SM_WILDCARD_ANCHOR))"

lemma authorised_seed_ids: "authorised_seed idna e as s \<Longrightarrow> authorised_seed idna e as (s\<lparr>se_source_rule_ids := ids\<rparr>)"
  by (simp add: authorised_seed_def)

lemma make_subject_kind: "make_subject idna k v = Inr s \<Longrightarrow> ss_kind s = k"
  by (auto simp: make_subject_def bind_res_Inr_iff)

lemma seed_mode_of_anchor: "sc_matched_rule_id d \<in> Some ` set as \<Longrightarrow> seed_mode_of as d m = SM_WILDCARD_ANCHOR"
  by (auto simp: seed_mode_of_def)

lemma requested_loop_Inr:
  assumes "requested_loop idna e as raws = Inr seeds"
  shows "list_all (authorised_seed idna e as) seeds
    \<and> list_all (\<lambda>raw. \<exists>subject. make_subject idna DOMAIN raw = Inr subject \<and> ss_value subject \<in> se_domain ` set seeds) raws"
  using assms
proof (induction raws arbitrary: seeds)
  case (Cons raw rest)
  from Cons.prems obtain subject d tail where s: "make_subject idna DOMAIN raw = Inr subject"
    "scope_evaluate idna e subject = Inr d" "executable_state (sc_state d)" and tail: "requested_loop idna e as rest = Inr tail"
    and seeds: "seeds = \<lparr>se_domain = ss_value subject, se_scope_state = sc_state d,
             se_mode = seed_mode_of as d SM_EXPLICIT, se_matched_rule_id = sc_matched_rule_id d,
             se_source_rule_ids = sc_matched_rule_ids d\<rparr> # tail"
    by (auto simp: bind_res_Inr_iff split: if_splits)
  have "authorised_seed idna e as (hd seeds)"
    using s seed_mode_of_anchor[of d as] make_subject_kind[OF s(1)] by (auto simp: authorised_seed_def executable_state_def seeds)
  with Cons.IH[OF tail] s(1) show ?case by (auto simp: seeds list_all_iff)
qed simp

definition accounted_rule :: "seed_spec list \<Rightarrow> string list \<Rightarrow> scope_rule \<Rightarrow> bool" where
  "accounted_rule seeds warnings r \<longleftrightarrow> (\<exists>s \<in> set seeds. sr_rule_id r \<in> set (se_source_rule_ids s))
     \<or> (\<exists>w \<in> set warnings. prefix (''scope rule '' @ sr_rule_id r) w)"

lemma accounted_rule_mono:
  "accounted_rule seeds warnings r \<Longrightarrow> set seeds \<subseteq> set seeds' \<Longrightarrow> set warnings \<subseteq> set warnings' \<Longrightarrow> accounted_rule seeds' warnings' r"
  unfolding accounted_rule_def by blast

lemma warning_accounts:
  "accounted_rule seeds (unsupported_warning r # ws) r"
  "accounted_rule seeds (inactive_warning r domain st # ws) r"
  by (simp_all add: accounted_rule_def unsupported_warning_def inactive_warning_def prefix_def)

lemma automatic_loop_Inr:
  assumes "automatic_loop idna e as rs = Inr (seeds, warnings)"
  shows "list_all (authorised_seed idna e as) seeds \<and> list_all (accounted_rule seeds warnings) (filter seedable rs)"
  using assms
proof (induction rs arbitrary: seeds warnings)
  case (Cons r rs)
  have step: ?case if "automatic_loop idna e as rs = Inr (ss, ws)" "set ss \<subseteq> set seeds" "set ws \<subseteq> set warnings"
    "seeds = ss \<or> authorised_seed idna e as (hd seeds) \<and> tl seeds = ss" "seedable r \<Longrightarrow> accounted_rule seeds warnings r" for ss ws
    using Cons.IH[OF that(1)] that(2-5) accounted_rule_mono[OF _ that(2,3)]
    by (cases seeds) (auto simp: list_all_iff)
  show ?case
  proof (cases "seedable r")
    case False
    with Cons.prems step show ?thesis by auto
  next
    case True
    show ?thesis
    proof (cases "seed_origin r")
      case None
      with Cons.prems True obtain ws where "automatic_loop idna e as rs = Inr (seeds, ws)" "warnings = unsupported_warning r # ws"
        by (auto simp: bind_res_Inr_iff)
      then show ?thesis using warning_accounts(1)[of seeds r ws] by (intro step[of seeds ws]) auto
    next
      case (Some origin)
      obtain domain expected where "origin = (domain, expected)" by (cases origin)
      with Some Cons.prems True obtain subject d ss ws where s: "make_subject idna DOMAIN domain = Inr subject"
        "scope_evaluate idna e subject = Inr d" and tail: "automatic_loop idna e as rs = Inr (ss, ws)"
        and out: "(if executable_state (sc_state d)
          then seeds = \<lparr>se_domain = domain, se_scope_state = sc_state d,
                  se_mode = seed_mode_of as d expected, se_matched_rule_id = sc_matched_rule_id d,
                  se_source_rule_ids = dedupe (sr_rule_id r # sc_matched_rule_ids d)\<rparr> # ss \<and> warnings = ws
          else seeds = ss \<and> warnings = inactive_warning r domain (sc_state d) # ws)"
        by (auto simp: bind_res_Inr_iff split: if_splits)
      show ?thesis
      proof (cases "executable_state (sc_state d)")
        case True
        with out s seed_mode_of_anchor[of d as] make_subject_kind[OF s(1)] have "authorised_seed idna e as (hd seeds)"
          by (auto simp: authorised_seed_def executable_state_def)
        moreover have "accounted_rule seeds warnings r" using True out by (simp add: accounted_rule_def)
        ultimately show ?thesis using True out tail by (intro step[of ss ws]) auto
      next
        case False
        with tail out warning_accounts(2)[of seeds r domain "sc_state d" ws] show ?thesis by (intro step[of ss ws]) auto
      qed
    qed
  qed
qed simp

lemma plan_Inr:
  assumes "plan_domain_seeds digest idna rules requested = Inr p"
  obtains anchors e seeds warnings where "derived_wildcard_anchor_rules digest idna rules = Inr anchors"
    "make_scope_engine (rules @ anchors) = Inr e" "sp_seeds p = dedupe_seeds seeds" "sp_warnings p = dedupe warnings"
    "if requested = [] then automatic_loop idna e (map sr_rule_id anchors) rules = Inr (seeds, warnings)
     else requested_loop idna e (map sr_rule_id anchors) requested = Inr seeds \<and> warnings = []"
proof -
  from assms obtain anchors e where a: "derived_wildcard_anchor_rules digest idna rules = Inr anchors"
    and e: "make_scope_engine (rules @ anchors) = Inr e"
    by (auto simp: plan_domain_seeds_def bind_res_Inr_iff)
  show thesis
  proof (cases "requested = []")
    case True
    with assms a e obtain seeds warnings where "automatic_loop idna e (map sr_rule_id anchors) rules = Inr (seeds, warnings)"
      "p = \<lparr>sp_seeds = dedupe_seeds seeds, sp_warnings = dedupe warnings\<rparr>"
      by (auto simp: plan_domain_seeds_def bind_res_Inr_iff)
    with True a e that[of anchors e seeds warnings] show ?thesis by simp
  next
    case False
    with assms a e obtain seeds where "requested_loop idna e (map sr_rule_id anchors) requested = Inr seeds"
      "p = \<lparr>sp_seeds = dedupe_seeds seeds, sp_warnings = []\<rparr>"
      by (auto simp: plan_domain_seeds_def bind_res_Inr_iff)
    with False a e that[of anchors e seeds "[]"] show ?thesis by simp
  qed
qed

end
