(* ===== verification/Seed_Guarantees.thy ===== *)
theory Seed_Guarantees
  imports Seed_Properties
begin

section \<open>The properties of seed planning\<close>

text \<open>
  The derived anchors add passive permissions only, every planned seed is authorised, no rule and no request is
  dropped silently, and an anchor of high priority overrides an explicit exclusion of a URL.
\<close>

declare split_paired_All [simp del] split_paired_Ex [simp del]

subsection \<open>Samples\<close>

definition wild_rule :: scope_rule where
  "wild_rule = sample_rule ''w'' DOMAIN ''*.a.io'' SC_IN_SCOPE"

definition apex_subject :: scope_subject where
  "apex_subject = \<lparr>ss_kind = DOMAIN, ss_value = ''a.io''\<rparr>"

definition apex_anchor :: scope_rule where
  "apex_anchor = (anchor_rule (\<lambda>x. x) wild_rule)"

lemma apex_canonical: "canonical_domain no_idna ''a.io'' = Inr ''a.io''"
  by code_simp

lemma no_idna_ldh: "ldh_codec no_idna"
  by (simp add: ldh_codec_def no_idna_def)

lemma apex_subject_made: "make_subject no_idna DOMAIN ''a.io'' = Inr apex_subject"
  by code_simp

lemma anchor_made: "make_scope_rule no_idna (anchor_rule (\<lambda>x. x) wild_rule) = Inr apex_anchor"
  by code_simp

lemma wild_matches: "scope_matches no_idna apex_subject wild_rule = Inr False"
  by code_simp

lemma anchor_matches: "scope_matches no_idna apex_subject apex_anchor = Inr True"
  by code_simp

lemma apex_unknown: "scope_evaluate no_idna [(''w'', wild_rule)] apex_subject = Inr (unclassified apex_subject)"
  by code_simp

lemma apex_passive:
  "scope_evaluate no_idna [(''w'', wild_rule), (''seed-anchor-w'', apex_anchor)] apex_subject
     = Inr (classified apex_subject apex_anchor [])"
  by code_simp

lemma wild_engine: "make_scope_engine [wild_rule] = Inr [(''w'', wild_rule)]"
  by code_simp

lemma wild_anchor_engine:
  "make_scope_engine [wild_rule, apex_anchor] = Inr [(''w'', wild_rule), (''seed-anchor-w'', apex_anchor)]"
  by code_simp

lemma wild_anchors: "derived_wildcard_anchor_rules (\<lambda>x. x) no_idna [wild_rule] = Inr [apex_anchor]"
  by code_simp

definition apex_plan :: seed_plan where
  "apex_plan = \<lparr>sp_seeds = [\<lparr>se_domain = ''a.io'', se_scope_state = SC_PASSIVE_ONLY, se_mode = SM_WILDCARD_ANCHOR,
      se_matched_rule_id = Some ''seed-anchor-w'', se_source_rule_ids = [''w'', ''seed-anchor-w'']\<rparr>], sp_warnings = []\<rparr>"

lemma wild_plan: "plan_domain_seeds (\<lambda>x. x) no_idna [wild_rule] [] = Inr apex_plan"
  by code_simp

subsection \<open>The properties\<close>

text \<open>The anchors derived from wildcard rules only add passive permissions: under the effective rules the
  decision on an asset is what the original rules say, or it is PASSIVE_ONLY by an anchor; so no asset comes
  into scope, and a domain that the original rules classify keeps its classification.\<close>

theorem anchors_only_add_passive:
  assumes anchors: "derived_wildcard_anchor_rules digest idna rules = Inr anchors" and "ldh_codec idna"
    and e: "make_scope_engine rules = Inr e" and e': "make_scope_engine (rules @ anchors) = Inr e'"
    and d: "scope_evaluate idna e s = Inr d" and d': "scope_evaluate idna e' s = Inr d'"
  shows "sc_state d' = sc_state d \<and> sc_matched_rule_id d' = sc_matched_rule_id d
    \<or> sc_state d' = SC_PASSIVE_ONLY \<and> (\<exists>a \<in> set anchors. sc_matched_rule_id d' = Some (sr_rule_id a))
      \<and> (ss_kind s = DOMAIN \<and> canonical_domain idna (ss_value s) = Inr (ss_value s) \<longrightarrow> sc_state d = SC_UNKNOWN)"
proof -
  note E = make_scope_engine_Inr[OF e] and E' = make_scope_engine_Inr[OF e']
  consider "sc_state d' = sc_state d \<and> sc_matched_rule_id d' = sc_matched_rule_id d"
    | a where "a \<in> set anchors" "scope_matches idna s a = Inr True" "sc_state d' = sr_state a" "sc_matched_rule_id d' = Some (sr_rule_id a)"
    using added_rules_decide[of rules anchors idna s d d'] E E' d d' by blast
  then show ?thesis
  proof cases
    case 2
    from anchors e have "anchor_loop digest idna e rules = Inr anchors" by (simp add: derived_wildcard_anchor_rules_def)
    from anchor_loop_mem[OF this 2(1)] obtain r apex da where
      r: "wants_anchor r" "make_subject idna DOMAIN (drop 2 (sr_pattern r)) = Inr apex" "make_scope_rule idna (anchor_rule digest r) = Inr a"
      and da: "scope_evaluate idna e apex = Inr da" "sc_state da = SC_UNKNOWN" by blast
    have "sc_state d = SC_UNKNOWN" if "ss_kind s = DOMAIN" "canonical_domain idna (ss_value s) = Inr (ss_value s)"
      using anchor_matches_apex[OF r assms(2) 2(2) that] da d by simp
    with 2 wants_anchor_shape[OF r assms(2)] show ?thesis by auto
  qed simp
qed

theorem anchors_only_add_passive_witness:
  "sc_state (unclassified apex_subject) = SC_UNKNOWN \<and> sc_state (classified apex_subject apex_anchor []) = SC_PASSIVE_ONLY"
proof -
  have a: "make_scope_engine ([wild_rule] @ [apex_anchor]) = Inr [(''w'', wild_rule), (''seed-anchor-w'', apex_anchor)]"
    by (simp add: wild_anchor_engine)
  from anchors_only_add_passive[OF wild_anchors no_idna_ldh wild_engine a apex_unknown apex_passive] show ?thesis
    using apex_canonical
    by (auto simp: unclassified_def classified_def apex_subject_def apex_anchor_def anchor_rule_def)
qed

text \<open>C29: every seed of a plan is authorised: the plan lists each domain once, in order, with the decision of the
  effective rules on it, which is IN_SCOPE or PASSIVE_ONLY, and marks the seeds that rest on a derived anchor.\<close>

theorem planned_seeds_authorised:
  assumes "plan_domain_seeds digest idna rules requested = Inr p"
  shows "\<exists>anchors e. derived_wildcard_anchor_rules digest idna rules = Inr anchors
    \<and> make_scope_engine (rules @ anchors) = Inr e
    \<and> sorted_wrt (<) (map se_domain (sp_seeds p))
    \<and> list_all (authorised_seed idna e (map sr_rule_id anchors)) (sp_seeds p)"
proof -
  obtain anchors e seeds warnings where p: "derived_wildcard_anchor_rules digest idna rules = Inr anchors"
    "make_scope_engine (rules @ anchors) = Inr e" "sp_seeds p = dedupe_seeds seeds" "sp_warnings p = dedupe warnings"
    and c: "if requested = [] then automatic_loop idna e (map sr_rule_id anchors) rules = Inr (seeds, warnings)
     else requested_loop idna e (map sr_rule_id anchors) requested = Inr seeds \<and> warnings = []"
    by (rule plan_Inr[OF assms])
  have "list_all (authorised_seed idna e (map sr_rule_id anchors)) seeds"
    using c automatic_loop_Inr requested_loop_Inr by (auto split: if_splits)
  note inv = dedupe_seeds_inv[of "authorised_seed idna e (map sr_rule_id anchors)", OF authorised_seed_ids this]
  show ?thesis by (intro exI[of _ anchors] exI[of _ e] conjI) (use inv p in simp_all)
qed

theorem planned_seeds_authorised_witness:
  "\<exists>anchors e. make_scope_engine ([wild_rule] @ anchors) = Inr e
    \<and> list_all (authorised_seed no_idna e (map sr_rule_id anchors)) (sp_seeds apex_plan)"
  using planned_seeds_authorised[OF wild_plan] by blast

text \<open>C30: no request and no rule is dropped silently: a plan for requested domains contains every one of them, so one
  request that is not authorised refuses the whole plan; an automatic plan accounts for every IN_SCOPE domain rule
  by a seed that lists it as a source or by a warning that names it.\<close>

theorem seed_plan_complete:
  assumes "plan_domain_seeds digest idna rules requested = Inr p"
  shows "if requested = [] then list_all (accounted_rule (sp_seeds p) (sp_warnings p)) (filter seedable rules)
    else list_all (\<lambda>raw. \<exists>subject. make_subject idna DOMAIN raw = Inr subject
      \<and> ss_value subject \<in> se_domain ` set (sp_seeds p)) requested"
proof -
  obtain anchors e seeds warnings where "derived_wildcard_anchor_rules digest idna rules = Inr anchors"
    "make_scope_engine (rules @ anchors) = Inr e" and p: "sp_seeds p = dedupe_seeds seeds" "sp_warnings p = dedupe warnings"
    and c: "if requested = [] then automatic_loop idna e (map sr_rule_id anchors) rules = Inr (seeds, warnings)
     else requested_loop idna e (map sr_rule_id anchors) requested = Inr seeds \<and> warnings = []"
    by (rule plan_Inr[OF assms])
  have kept: "\<exists>t \<in> set (sp_seeds p). se_domain t = se_domain s \<and> set (se_source_rule_ids s) \<subseteq> set (se_source_rule_ids t)"
    if "s \<in> set seeds" for s
    using dedupe_seeds_inv[of "\<lambda>_. True" seeds] that p by (simp add: list_all_iff)
  show ?thesis
  proof (cases "requested = []")
    case True
    with c automatic_loop_Inr have "list_all (accounted_rule seeds warnings) (filter seedable rules)" by auto
    moreover have "accounted_rule (sp_seeds p) (sp_warnings p) r" if "accounted_rule seeds warnings r" for r
      using that kept p(2) unfolding accounted_rule_def set_dedupe p(2) by blast
    ultimately show ?thesis using True by (simp add: list_all_iff)
  next
    case False
    have sub: "v \<in> se_domain ` set (sp_seeds p)" if "v \<in> se_domain ` set seeds" for v
    proof -
      from that obtain u where u: "u \<in> set seeds" "v = se_domain u" by blast
      obtain t where "t \<in> set (sp_seeds p)" "se_domain t = se_domain u" using kept[OF u(1)] by blast
      then show ?thesis unfolding u(2) by (simp only: rev_image_eqI)
    qed
    from False c have "requested_loop idna e (map sr_rule_id anchors) requested = Inr seeds" by simp
    note all = requested_loop_Inr[OF this, THEN conjunct2, unfolded list_all_iff]
    show ?thesis unfolding if_not_P[OF False] list_all_iff using all sub by blast
  qed
qed

theorem seed_plan_complete_witness:
  "accounted_rule (sp_seeds apex_plan) (sp_warnings apex_plan) wild_rule"
  using seed_plan_complete[OF wild_plan] by (simp add: seedable_def wild_rule_def sample_rule_def)

subsection \<open>An anchor above an explicit exclusion\<close>

definition top_wild_rule :: scope_rule where
  "top_wild_rule = wild_rule\<lparr>sr_priority := 10\<rparr>"

definition admin_rule :: scope_rule where
  "admin_rule = sample_rule ''x'' URL ''http://a.io/z'' SC_OUT_OF_SCOPE"

definition admin_subject :: scope_subject where
  "admin_subject = \<lparr>ss_kind = URL, ss_value = ''http://a.io/z''\<rparr>"

text \<open>The rules exclude a URL on the apex; the anchor has the priority of its wildcard rule and classifies it
  PASSIVE_ONLY, so a passive worker may be sent to the excluded URL.\<close>

theorem anchor_overrides_url_exclusion:
  "\<exists>e anchors e' d d'. make_scope_engine [top_wild_rule, admin_rule] = Inr e
    \<and> derived_wildcard_anchor_rules (\<lambda>x. x) no_idna [top_wild_rule, admin_rule] = Inr anchors
    \<and> make_scope_engine ([top_wild_rule, admin_rule] @ anchors) = Inr e'
    \<and> scope_evaluate no_idna e admin_subject = Inr d \<and> sc_state d = SC_OUT_OF_SCOPE
    \<and> scope_evaluate no_idna e' admin_subject = Inr d' \<and> sc_state d' = SC_PASSIVE_ONLY"
proof -
  let ?a = "anchor_rule (\<lambda>x. x) top_wild_rule"
  let ?e = "[(''w'', top_wild_rule), (''x'', admin_rule)]"
  have "make_scope_engine [top_wild_rule, admin_rule] = Inr ?e" by code_simp
  moreover have "derived_wildcard_anchor_rules (\<lambda>x. x) no_idna [top_wild_rule, admin_rule] = Inr [?a]" by code_simp
  moreover have "make_scope_engine [top_wild_rule, admin_rule, ?a] = Inr (?e @ [(''seed-anchor-w'', ?a)])" by code_simp
  moreover have "scope_evaluate no_idna ?e admin_subject = Inr (classified admin_subject admin_rule [])" by code_simp
  moreover have "scope_evaluate no_idna (?e @ [(''seed-anchor-w'', ?a)]) admin_subject
      = Inr (classified admin_subject ?a [admin_rule])" by code_simp
  moreover have "sr_state admin_rule = SC_OUT_OF_SCOPE \<and> sr_state ?a = SC_PASSIVE_ONLY"
    by (simp add: admin_rule_def sample_rule_def anchor_rule_def)
  ultimately show ?thesis by (fastforce simp: classified_def)
qed

end
