(* ===== verification/Request_Identity.thy ===== *)
theory Request_Identity
  imports Ip_Properties
begin

section \<open>Program identification headers (recon/policy/request_identity.py)\<close>

text \<open>
  The headers a bug-bounty program requires on every request. A header dictionary is an association list
  with distinct keys. \<open>digest\<close> is the hexadecimal SHA-256 of a string. \<open>str.casefold\<close> is applied to names that
  have passed the token pattern, hence to ASCII, where it is \<open>lower\<close>.
\<close>

definition in_range :: "nat \<Rightarrow> nat \<Rightarrow> char \<Rightarrow> bool" where
  "in_range a b c \<longleftrightarrow> a \<le> of_char c \<and> of_char c \<le> b"

text \<open>The character class of \<open>_HEADER_NAME\<close>: the punctuation of an RFC 9110 token, digits and letters.\<close>

definition token_char :: "char \<Rightarrow> bool" where
  "token_char c \<longleftrightarrow> (of_char c :: nat) \<in> {33, 35, 36, 37, 38, 39, 42, 43, 45, 46, 94, 95, 96, 124, 126}
     \<or> in_range 48 57 c \<or> in_range 65 90 c \<or> in_range 97 122 c"

definition header_name_ok :: "string \<Rightarrow> bool" where
  "header_name_ok s \<longleftrightarrow> s \<noteq> [] \<and> list_all token_char s"

definition reserved_header_names :: "string list" where
  "reserved_header_names =
    [''authorization'', ''connection'', ''content-length'', ''cookie'', ''host'', ''keep-alive'',
     ''proxy-authorization'', ''proxy-connection'', ''set-cookie'', ''te'', ''trailer'',
     ''transfer-encoding'', ''upgrade'', ''user-agent'']"

definition target_http_identity_workers :: "string list" where
  "target_http_identity_workers = [''http'', ''content'', ''crawler'', ''parameters'', ''vhost'', ''nuclei'']"

definition is_control :: "char \<Rightarrow> bool" where
  "is_control c \<longleftrightarrow> (of_char c :: nat) < 32 \<or> (of_char c :: nat) = 127"

type_synonym headers = "(string, string) dict"

definition check_header :: "string \<Rightarrow> string \<Rightarrow> string list \<Rightarrow> (string \<times> string) res" where
  "check_header raw_name raw_value seen =
     (let name = strip raw_name; value = strip raw_value
      in if \<not> header_name_ok name
         then Inl (ValidationError (''invalid HTTP identification header name: '' @ py_repr raw_name))
         else if lower name \<in> set seen
         then Inl (ValidationError (''duplicate HTTP identification header name: '' @ py_repr name))
         else if lower name \<in> set reserved_header_names
         then Inl (ValidationError (''HTTP identification header '' @ py_repr name
           @ '' is reserved; authentication, session, framing, routing, and User-Agent headers cannot be configured here''))
         else if value = []
         then Inl (ValidationError (''HTTP identification header '' @ py_repr name @ '' must not be blank''))
         else if 1024 < length value
         then Inl (ValidationError (''HTTP identification header '' @ py_repr name @ '' exceeds 1024 characters''))
         else if list_ex is_control value
         then Inl (ValidationError (''HTTP identification header '' @ py_repr name @ '' contains control characters''))
         else Inr (name, value))"

fun validate_http_headers :: "headers \<Rightarrow> string list \<Rightarrow> headers \<Rightarrow> headers res" where
  "validate_http_headers [] seen normalized = Inr normalized"
| "validate_http_headers ((raw_name, raw_value) # rest) seen normalized =
     bind_res (check_header raw_name raw_value seen) (\<lambda>(name, value).
       validate_http_headers rest (lower name # seen) (dict_set name value normalized))"

record identity_policy =
  http_headers :: headers

definition make_identity_policy :: "headers \<Rightarrow> identity_policy res" where
  "make_identity_policy values =
     bind_res (validate_http_headers values [] []) (\<lambda>h. Inr \<lparr>http_headers = h\<rparr>)"

definition configured :: "identity_policy \<Rightarrow> bool" where
  "configured p \<longleftrightarrow> http_headers p \<noteq> []"

definition header_names :: "identity_policy \<Rightarrow> string list" where
  "header_names p = map fst (http_headers p)"

definition canonical_header_names :: "identity_policy \<Rightarrow> string set" where
  "canonical_header_names p = lower ` set (map fst (http_headers p))"

definition fingerprint_material :: "identity_policy \<Rightarrow> string" where
  "fingerprint_material p =
     join [CHR 0x0A] (map (\<lambda>(name, value). lower name @ '':'' @ value)
       (sort_key (\<lambda>(name, value). lower name) (http_headers p)))"

definition identity_fingerprint :: "(string \<Rightarrow> string) \<Rightarrow> identity_policy \<Rightarrow> string option" where
  "identity_fingerprint digest p = (if configured p then Some (digest (fingerprint_material p)) else None)"

definition header_lines :: "identity_policy \<Rightarrow> string list" where
  "header_lines p = map (\<lambda>(name, value). name @ '': '' @ value) (http_headers p)"

definition repeated_cli_args :: "string \<Rightarrow> identity_policy \<Rightarrow> string list" where
  "repeated_cli_args flag p = concat (map (\<lambda>line. [flag, line]) (header_lines p))"

definition newline_cli_value :: "identity_policy \<Rightarrow> string" where
  "newline_cli_value p = join [CHR 0x0A] (header_lines p)"

text \<open>\<open>raw_line.split(":", 1)\<close> is the text before and after the first colon.\<close>

fun cli_headers :: "string list \<Rightarrow> headers \<Rightarrow> headers res" where
  "cli_headers [] headers = Inr headers"
| "cli_headers (raw # rest) headers =
     (if CHR '':'' \<notin> set raw then Inl (ValueError (''identity header must use the format 'Name: value'' @ [CHR 0x27]))
      else let name = strip (before CHR '':'' raw); value = after CHR '':'' raw
           in if name = [] then Inl (ValueError ''identity header name must not be blank'')
              else if dict_get headers name \<noteq> None
              then Inl (ValueError (''duplicate identity header name: '' @ py_repr name))
              else cli_headers rest (dict_set name value headers))"

definition from_cli_header_lines :: "string list \<Rightarrow> identity_policy res" where
  "from_cli_header_lines values = bind_res (cli_headers values []) make_identity_policy"

end
