(* ===== verification/Identity_Properties.thy ===== *)
theory Identity_Properties
  imports Request_Identity Seed_Properties
begin

section \<open>What the identification headers guarantee\<close>

text \<open>
  The properties of recon/policy/request_identity.py: the header lines inject nothing, they round-trip through
  the command line, and the fingerprint identifies the headers up to the case and the order of their names.
\<close>

subsection \<open>The validator\<close>

definition valid_header :: "string \<times> string \<Rightarrow> bool" where
  "valid_header = (\<lambda>(name, value). header_name_ok name \<and> strip name = name \<and> lower name \<notin> set reserved_header_names
     \<and> value \<noteq> [] \<and> strip value = value \<and> length value \<le> 1024 \<and> \<not> list_ex is_control value)"

definition valid_headers :: "headers \<Rightarrow> bool" where
  "valid_headers h \<longleftrightarrow> distinct (map (lower \<circ> fst) h) \<and> list_all valid_header h"

lemma valid_headers_ok: "valid_headers h \<Longrightarrow> dict_ok h"
  unfolding valid_headers_def map_map[symmetric] by (simp only: distinct_map)

lemma check_header_Inr:
  "check_header n v seen = Inr (name, value) \<longleftrightarrow>
     name = strip n \<and> value = strip v \<and> valid_header (name, value) \<and> lower name \<notin> set seen"
  by (auto simp: check_header_def Let_def valid_header_def not_less)

lemma validate_http_headers_Inr:
  assumes "validate_http_headers values seen h = Inr out" and "valid_headers h"
    and "set (map (lower \<circ> fst) h) = set seen"
  shows "valid_headers out \<and> out = h @ map (\<lambda>(n, v). (strip n, strip v)) values"
  using assms
proof (induction "values" seen h rule: validate_http_headers.induct)
  case (2 n v rest seen h)
  from 2(2) obtain name val where c: "check_header n v seen = Inr (name, val)"
    and r: "validate_http_headers rest (lower name # seen) (dict_set name val h) = Inr out"
    by (auto simp: bind_res_Inr_iff)
  note C = c[unfolded check_header_Inr]
  have "dict_get h name = None"
  proof (cases "dict_get h name")
    case (Some x)
    then have "lower name \<in> set (map (lower \<circ> fst) h)" by (force dest: map_of_SomeD)
    with C 2(4) have False by auto
    then show ?thesis ..
  qed
  then have s: "dict_set name val h = h @ [(name, val)]" by (rule dict_set_fresh)
  have "valid_headers (h @ [(name, val)])" using 2(3,4) C by (auto simp: valid_headers_def)
  moreover have "set (map (lower \<circ> fst) (h @ [(name, val)])) = set (lower name # seen)" using 2(4) by auto
  ultimately have "valid_headers out \<and> out = (h @ [(name, val)]) @ map (\<lambda>(n, v). (strip n, strip v)) rest"
    using 2(1)[OF c refl] r unfolding s by blast
  with C show ?case by auto
qed simp

lemma check_header_valid:
  "valid_header (n, v) \<Longrightarrow> lower n \<notin> set seen \<Longrightarrow> check_header n v seen = Inr (n, v)"
  unfolding check_header_Inr by (simp add: valid_header_def)

lemma validate_valid:
  assumes "valid_headers (h @ values)" and "set (map (lower \<circ> fst) h) = set seen"
  shows "validate_http_headers values seen h = Inr (h @ values)"
  using assms
proof (induction "values" arbitrary: seen h)
  case (Cons x xs)
  obtain n v where x: "x = (n, v)" by (cases x)
  have "valid_header (n, v)" "lower n \<notin> set seen" "dict_get h n = None"
    using Cons.prems by (auto simp: valid_headers_def x map_of_eq_None_iff image_image)
  with check_header_valid Cons.IH[of "h @ [(n, v)]" "lower n # seen"] Cons.prems show ?case
    by (simp add: x dict_set_fresh)
qed simp

lemma policy_valid:
  assumes "make_identity_policy values = Inr p"
  shows "valid_headers (http_headers p) \<and> http_headers p = map (\<lambda>(n, v). (strip n, strip v)) values"
proof -
  from assms obtain h where "validate_http_headers values [] [] = Inr h" "http_headers p = h"
    by (auto simp: make_identity_policy_def bind_res_Inr_iff)
  moreover have "valid_headers []" by (simp add: valid_headers_def)
  ultimately show ?thesis using validate_http_headers_Inr[of "values" "[]" "[]" h] by auto
qed

lemma make_identity_valid: "valid_headers h \<Longrightarrow> make_identity_policy h = Inr \<lparr>http_headers = h\<rparr>"
  using validate_valid[of "[]" h "[]"] by (simp add: make_identity_policy_def)

subsection \<open>Characters of names, values and lines\<close>

lemma token_char_plain: "token_char c \<Longrightarrow> c \<noteq> CHR '':'' \<and> \<not> is_control c \<and> \<not> is_space c"
  by (auto simp: token_char_def is_control_def is_space_def in_range_def Let_def)

lemma lower_not_colon: "lower_char c = CHR '':'' \<longleftrightarrow> c = CHR '':''"
proof -
  have "(of_char c :: nat) < 256" by (rule nat_of_char_less_256)
  have "char_of ((of_char c :: nat) + 32) \<noteq> CHR '':''" if "65 \<le> (of_char c :: nat) \<and> (of_char c :: nat) \<le> 90
      \<or> 192 \<le> (of_char c :: nat) \<and> (of_char c :: nat) \<le> 222"
  proof
    assume "char_of ((of_char c :: nat) + 32) = CHR '':''"
    then have "(of_char (char_of ((of_char c :: nat) + 32)) :: nat) = 58" by simp
    with that show False by auto
  qed
  then show ?thesis by (auto simp: lower_char_def Let_def)
qed

lemma valid_header_chars:
  assumes "valid_header (n, v)"
  shows "n \<noteq> [] \<and> CHR '':'' \<notin> set n \<and> CHR '':'' \<notin> set (lower n)
    \<and> list_all (\<lambda>c. \<not> is_control c) (n @ '': '' @ v) \<and> strip n = n \<and> strip v = v \<and> v \<noteq> []"
proof -
  from assms have n: "n \<noteq> []" "list_all token_char n" and v: "\<not> list_ex is_control v" "strip n = n" "strip v = v" "v \<noteq> []"
    by (auto simp: valid_header_def header_name_ok_def)
  have "CHR '':'' \<notin> set n" "list_all (\<lambda>c. \<not> is_control c) n"
    using n(2) token_char_plain by (auto simp: list_all_iff)
  moreover have "CHR '':'' \<notin> set (lower n)" using \<open>CHR '':'' \<notin> set n\<close> lower_not_colon
    unfolding lower_def set_map image_iff by metis
  moreover have "\<not> is_control CHR '':''" "\<not> is_control CHR '' ''" by (simp_all add: is_control_def)
  ultimately show ?thesis using n v by (auto simp: list_all_iff list_ex_iff)
qed

lemma newline_is_control: "is_control CHR 0x0A" "is_control CHR 0x0D"
  by (simp_all add: is_control_def)

lemma valid_policy_lines:
  assumes "valid_headers (http_headers p)"
  shows "list_all (\<lambda>line. list_all (\<lambda>c. \<not> is_control c) line) (header_lines p)"
  using assms valid_header_chars unfolding valid_headers_def header_lines_def list_all_iff by fastforce

lemma before_after_colon: "CHR '':'' \<notin> set n \<Longrightarrow> before CHR '':'' (n @ '':'' @ v) = n \<and> after CHR '':'' (n @ '':'' @ v) = v"
proof -
  assume "CHR '':'' \<notin> set n"
  then have "takeWhile (\<lambda>x. x \<noteq> CHR '':'') (n @ '':'' @ v) = n" by (subst takeWhile_append2) auto
  then show ?thesis by (simp add: before_def after_def)
qed

lemma strip_space: "strip (CHR '' '' # v) = strip v"
  by (simp add: strip_def is_space_def)

subsection \<open>The command line\<close>

lemma cli_headers_lines:
  assumes "valid_headers (h @ rest)"
  shows "cli_headers (map (\<lambda>(n, v). n @ '': '' @ v) rest) (map (\<lambda>(n, v). (n, CHR '' '' # v)) h)
    = Inr (map (\<lambda>(n, v). (n, CHR '' '' # v)) (h @ rest))"
  using assms
proof (induction rest arbitrary: h)
  case (Cons x rest)
  obtain n v where x: "x = (n, v)" by (cases x)
  let ?h = "map (\<lambda>(n, v). (n, CHR '' '' # v)) h"
  have "valid_header (n, v)" using Cons.prems by (simp add: valid_headers_def x)
  note V = valid_header_chars[OF this]
  have line: "n @ '': '' @ v = n @ '':'' @ (CHR '' '' # v)" by simp
  have "n \<notin> fst ` set h" using valid_headers_ok[OF Cons.prems] by (auto simp: x)
  then have "dict_get ?h n = None" by (auto simp: map_of_eq_None_iff image_image case_prod_beta)
  then have s: "dict_get ?h n = None" "dict_set n (CHR '' '' # v) ?h = map (\<lambda>(n, v). (n, CHR '' '' # v)) (h @ [x])"
    by (simp_all add: dict_set_fresh x)
  have "cli_headers (map (\<lambda>(n, v). n @ '': '' @ v) (x # rest)) ?h
      = cli_headers (map (\<lambda>(n, v). n @ '': '' @ v) rest) (map (\<lambda>(n, v). (n, CHR '' '' # v)) (h @ [x]))"
    using V s before_after_colon[of n "CHR '' '' # v"] by (simp add: x Let_def)
  also have "\<dots> = Inr (map (\<lambda>(n, v). (n, CHR '' '' # v)) (h @ x # rest))"
    using Cons.IH[of "h @ [x]"] Cons.prems by simp
  finally show ?case .
qed simp

lemma strip_headers:
  assumes "valid_headers h"
  shows "map (\<lambda>(n, v). (strip n, strip v)) (map (\<lambda>(n, v). (n, CHR '' '' # v)) h) = h"
  unfolding map_map
proof (rule map_idI)
  fix x assume "x \<in> set h"
  with assms have "valid_header x" by (simp add: valid_headers_def list_all_iff)
  then show "((\<lambda>(n, v). (strip n, strip v)) \<circ> (\<lambda>(n, v). (n, CHR '' '' # v))) x = x"
    using valid_header_chars[of "fst x" "snd x"] by (cases x) (simp add: strip_space)
qed

lemma validate_stripped:
  "validate_http_headers h seen d = validate_http_headers (map (\<lambda>(n, v). (strip n, strip v)) h) seen d"
  if "list_all valid_header (map (\<lambda>(n, v). (strip n, strip v)) h)"
  using that
proof (induction h arbitrary: seen d)
  case (Cons x h)
  obtain n v where x: "x = (n, v)" by (cases x)
  have "check_header n v seen = check_header (strip n) (strip v) seen"
    using Cons.prems by (auto simp: x check_header_def Let_def valid_header_def)
  with Cons show ?case by (auto simp: x bind_res_def split: sum.splits)
qed simp

lemma from_cli_lines:
  assumes "valid_headers (http_headers p)"
  shows "from_cli_header_lines (header_lines p) = Inr p"
proof -
  let ?h = "map (\<lambda>(n, v). (n, CHR '' '' # v)) (http_headers p)"
  have "cli_headers (header_lines p) [] = Inr ?h"
    using cli_headers_lines[of "[]" "http_headers p"] assms by (simp add: header_lines_def)
  moreover have "validate_http_headers ?h [] [] = Inr (http_headers p)"
    using validate_stripped[of ?h "[]" "[]"] assms validate_valid[of "[]" "http_headers p" "[]"]
    unfolding strip_headers[OF assms] by (simp add: valid_headers_def)
  ultimately show ?thesis by (simp add: from_cli_header_lines_def make_identity_policy_def)
qed

subsection \<open>The fingerprint\<close>

definition canonical_pairs :: "identity_policy \<Rightarrow> (string \<times> string) list" where
  "canonical_pairs p = map (\<lambda>(n, v). (lower n, v)) (http_headers p)"

lemma material_pairs:
  "fingerprint_material p = join [CHR 0x0A] (map (\<lambda>(n, v). n @ '':'' @ v) (sort_key fst (canonical_pairs p)))"
proof -
  have "map (\<lambda>(n, v). (lower n, v)) (sort_key (\<lambda>(n, v). lower n) h) = sort_key fst (map (\<lambda>(n, v). (lower n, v)) h)"
    for h :: headers
  proof (induction h)
    case (Cons x h)
    have ins: "map (\<lambda>(n, v). (lower n, v)) (insort_key (\<lambda>(n, v). lower n) x ys)
        = insort_key fst ((\<lambda>(n, v). (lower n, v)) x) (map (\<lambda>(n, v). (lower n, v)) ys)" for ys
      by (induction ys) (auto simp: case_prod_beta)
    then show ?case using Cons by (simp del: insort_key.simps)
  qed simp
  from this[of "http_headers p", symmetric] show ?thesis
    unfolding fingerprint_material_def canonical_pairs_def by (simp add: comp_def case_prod_beta')
qed

lemma pairs_sorted:
  assumes "valid_headers (http_headers p)" and "valid_headers (http_headers q)"
    and "set (canonical_pairs p) = set (canonical_pairs q)"
  shows "sort_key fst (canonical_pairs p) = sort_key fst (canonical_pairs q)"
proof -
  have d: "distinct (map fst (canonical_pairs r))" if "valid_headers (http_headers r)" for r
    using that by (simp add: valid_headers_def canonical_pairs_def comp_def case_prod_beta)
  have "mset (canonical_pairs p) = mset (canonical_pairs q)"
    using d[OF assms(1)] d[OF assms(2)] assms(3) by (metis distinct_map set_eq_iff_mset_eq_distinct)
  moreover have "inj_on fst (set (canonical_pairs p))" using d[OF assms(1)] by (simp add: distinct_map)
  ultimately show ?thesis by (intro sort_key_inj_key_eq) auto
qed

lemma pair_line_inj:
  assumes "CHR '':'' \<notin> set n" and "CHR '':'' \<notin> set m" and "n @ '':'' @ v = m @ '':'' @ w"
  shows "(n, v) = (m, w)"
  using before_after_colon[OF assms(1), of v] before_after_colon[OF assms(2), of w] unfolding assms(3) by blast

lemma canonical_pair_chars:
  assumes "valid_headers (http_headers p)" and "x \<in> set (canonical_pairs p)"
  shows "CHR '':'' \<notin> set (fst x) \<and> CHR 0x0A \<notin> set (fst x @ '':'' @ snd x)"
proof -
  from assms(2) obtain n v where nv: "(n, v) \<in> set (http_headers p)" and x: "x = (lower n, v)"
    by (auto simp: canonical_pairs_def)
  with assms(1) have "valid_header (n, v)" by (simp add: valid_headers_def list_all_iff)
  note V = valid_header_chars[OF this]
  have "CHR 0x0A \<notin> set n" "CHR 0x0A \<notin> set v" using V newline_is_control by (auto simp: list_all_iff)
  moreover have "lower_char c = CHR 0x0A \<longleftrightarrow> c = CHR 0x0A" for c by (rule lower_char_low) simp
  ultimately have "CHR 0x0A \<notin> set (lower n)" unfolding lower_def set_map image_iff by metis
  with V \<open>CHR 0x0A \<notin> set v\<close> show ?thesis by (simp add: x)
qed

lemma material_inj:
  assumes "valid_headers (http_headers p)" and "valid_headers (http_headers q)" and "configured p" and "configured q"
    and "fingerprint_material p = fingerprint_material q"
  shows "sort_key fst (canonical_pairs p) = sort_key fst (canonical_pairs q)"
proof -
  let ?l = "\<lambda>(n, v). n @ '':'' @ v"
  have split: "split_on CHR 0x0A (fingerprint_material r) = map ?l (sort_key fst (canonical_pairs r))"
    if v: "valid_headers (http_headers r)" and c: "configured r" for r
  proof -
    have "canonical_pairs r \<noteq> []" using c by (simp add: configured_def canonical_pairs_def)
    then have "map ?l (sort_key fst (canonical_pairs r)) \<noteq> []" by (metis length_0_conv length_map length_sort)
    moreover have "\<forall>x \<in> set (map ?l (sort_key fst (canonical_pairs r))). CHR 0x0A \<notin> set x"
      using canonical_pair_chars[OF v] by fastforce
    ultimately show ?thesis unfolding material_pairs by (rule split_on_join)
  qed
  have "map ?l (sort_key fst (canonical_pairs p)) = map ?l (sort_key fst (canonical_pairs q))"
    using split[OF assms(1,3)] split[OF assms(2,4)] assms(5) by simp
  moreover have "x = y" if s: "x \<in> set (sort_key fst (canonical_pairs p))" "y \<in> set (sort_key fst (canonical_pairs q))"
    and e: "?l x = ?l y" for x y
  proof -
    note xy = s[unfolded set_sort] e
    have "fst x @ '':'' @ snd x = fst y @ '':'' @ snd y" using xy(3) by (simp only: case_prod_beta)
    from pair_line_inj[OF _ _ this] canonical_pair_chars[OF assms(1) xy(1)] canonical_pair_chars[OF assms(2) xy(2)]
    show ?thesis by (simp only: prod.collapse simp_thms)
  qed
  ultimately show ?thesis using list.inj_map_strong by blast
qed

subsection \<open>The properties\<close>

definition bounty_policy :: identity_policy where
  "bounty_policy = \<lparr>http_headers = [(''X-Bug-Bounty'', ''alice'')]\<rparr>"

lemma bounty_made: "make_identity_policy [('' X-Bug-Bounty'', ''alice '')] = Inr bounty_policy"
  by code_simp

text \<open>C31: identification headers inject nothing: the lines of an accepted policy contain no control character, so
  the newline-separated form splits back into exactly these lines; the names are tokens, distinct up to case, and
  none is a name reserved for authentication, sessions, framing or routing.\<close>

theorem header_lines_inject_nothing:
  assumes "make_identity_policy raw = Inr p"
  shows "list_all (list_all (\<lambda>c. \<not> is_control c)) (header_lines p)
    \<and> (configured p \<longrightarrow> split_on CHR 0x0A (newline_cli_value p) = header_lines p)
    \<and> list_all (\<lambda>n. header_name_ok n \<and> lower n \<notin> set reserved_header_names) (header_names p)
    \<and> distinct (map lower (header_names p))"
proof -
  note v = policy_valid[OF assms, THEN conjunct1]
  note lines = valid_policy_lines[OF v]
  have "split_on CHR 0x0A (newline_cli_value p) = header_lines p" if "configured p"
    unfolding newline_cli_value_def
  proof (rule split_on_join)
    show "header_lines p \<noteq> []" using that by (simp add: configured_def header_lines_def)
    show "\<forall>x \<in> set (header_lines p). CHR 0x0A \<notin> set x"
      using lines newline_is_control(1) unfolding list_all_iff by blast
  qed
  moreover have "list_all (\<lambda>n. header_name_ok n \<and> lower n \<notin> set reserved_header_names) (header_names p)"
    using v by (fastforce simp: valid_headers_def header_names_def valid_header_def list_all_iff)
  ultimately show ?thesis using lines v by (simp add: valid_headers_def header_names_def)
qed

theorem header_lines_inject_nothing_witness: "header_lines bounty_policy = [''X-Bug-Bounty: alice'']
    \<and> split_on CHR 0x0A (newline_cli_value bounty_policy) = [''X-Bug-Bounty: alice'']"
proof -
  have l: "header_lines bounty_policy = [''X-Bug-Bounty: alice'']" by code_simp
  have "configured bounty_policy" by (simp add: configured_def bounty_policy_def)
  with header_lines_inject_nothing[OF bounty_made] l show ?thesis by metis
qed

text \<open>C32: the headers round-trip: the lines of an accepted policy, given as command-line options, are parsed and
  validated into the same policy, and validating an accepted policy again changes nothing.\<close>

theorem header_lines_round_trip:
  assumes "make_identity_policy raw = Inr p"
  shows "from_cli_header_lines (header_lines p) = Inr p \<and> make_identity_policy (http_headers p) = Inr p"
  using policy_valid[OF assms, THEN conjunct1] from_cli_lines[of p] make_identity_valid[of "http_headers p"] by simp

theorem header_lines_round_trip_witness: "from_cli_header_lines [''X-Bug-Bounty: alice''] = Inr bounty_policy"
proof -
  have "header_lines bounty_policy = [''X-Bug-Bounty: alice'']" by code_simp
  with header_lines_round_trip[OF bounty_made] show ?thesis by metis
qed

text \<open>The fingerprint identifies the headers: what it digests is the same for two accepted policies exactly when
  they have the same headers up to the case and the order of the names.\<close>

theorem fingerprint_identifies_headers:
  assumes "make_identity_policy raw = Inr p" and "make_identity_policy raw' = Inr q" and "configured p" and "configured q"
  shows "identity_fingerprint digest p = Some (digest (fingerprint_material p))
    \<and> (fingerprint_material p = fingerprint_material q \<longleftrightarrow> set (canonical_pairs p) = set (canonical_pairs q))"
proof -
  note P = policy_valid[OF assms(1), THEN conjunct1] and Q = policy_valid[OF assms(2), THEN conjunct1]
  have "set (canonical_pairs p) = set (canonical_pairs q)" if "fingerprint_material p = fingerprint_material q"
    using material_inj[OF P Q assms(3,4) that] by (metis set_sort)
  moreover have "fingerprint_material p = fingerprint_material q" if "set (canonical_pairs p) = set (canonical_pairs q)"
    unfolding material_pairs pairs_sorted[OF P Q that] ..
  ultimately show ?thesis using assms(3) by (auto simp: identity_fingerprint_def)
qed

theorem fingerprint_identifies_headers_witness:
  "identity_fingerprint (\<lambda>m. m) bounty_policy = Some ''x-bug-bounty:alice''
    \<and> fingerprint_material bounty_policy = fingerprint_material \<lparr>http_headers = [(''X-BUG-bounty'', ''alice'')]\<rparr>"
proof -
  have "make_identity_policy [(''X-BUG-bounty'', ''alice'')] = Inr \<lparr>http_headers = [(''X-BUG-bounty'', ''alice'')]\<rparr>" by code_simp
  from fingerprint_identifies_headers[OF bounty_made this, of "\<lambda>m. m"]
  have "identity_fingerprint (\<lambda>m. m) bounty_policy = Some (fingerprint_material bounty_policy)
    \<and> (fingerprint_material bounty_policy = fingerprint_material \<lparr>http_headers = [(''X-BUG-bounty'', ''alice'')]\<rparr>
      \<longleftrightarrow> set (canonical_pairs bounty_policy) = set (canonical_pairs \<lparr>http_headers = [(''X-BUG-bounty'', ''alice'')]\<rparr>))"
    by (simp add: configured_def bounty_policy_def)
  moreover have "fingerprint_material bounty_policy = ''x-bug-bounty:alice''" by code_simp
  moreover have "canonical_pairs bounty_policy = canonical_pairs \<lparr>http_headers = [(''X-BUG-bounty'', ''alice'')]\<rparr>" by code_simp
  ultimately show ?thesis by metis
qed

end
