(* ===== verification/Corpus_Tokens.thy ===== *)
theory Corpus_Tokens
  imports Url Events
begin

section \<open>Corpus tokens and target keys (recon/intelligence)\<close>

text \<open>
  The identity of a vocabulary token in its corpus category (intelligence/wordlists.py, with the normalisers of
  workers/permutations.py and workers/parameters.py it calls), canonical DNS names (workers/passive_domains.py)
  and the target an event belongs to (\<open>infer_seed_domain\<close>, \<open>target_key_for_event\<close>). \<open>idna\<close> is the codec on
  labels that are not ASCII.
\<close>

datatype corpus_category =
  CC_GENERAL | CC_DNS | CC_PARAMETER | CC_PATH | CC_API | CC_VHOST | CC_PROJECT | CC_TECHNOLOGY

fun category_value :: "corpus_category \<Rightarrow> string" where
  "category_value CC_GENERAL = ''general''"
| "category_value CC_DNS = ''dns''"
| "category_value CC_PARAMETER = ''parameter''"
| "category_value CC_PATH = ''path''"
| "category_value CC_API = ''api''"
| "category_value CC_VHOST = ''vhost''"
| "category_value CC_PROJECT = ''project''"
| "category_value CC_TECHNOLOGY = ''technology''"

subsection \<open>Character classes\<close>

definition lower_alnum :: "char \<Rightarrow> bool" where
  "lower_alnum c \<longleftrightarrow> (48 \<le> char_code c \<and> char_code c \<le> 57) \<or> (97 \<le> char_code c \<and> char_code c \<le> 122)"

definition upper_ascii :: "char \<Rightarrow> bool" where
  "upper_ascii c \<longleftrightarrow> 65 \<le> char_code c \<and> char_code c \<le> 90"

text \<open>\<open>[a-z0-9_.\-\[\]]\<close>\<close>

definition token_symbol :: "char \<Rightarrow> bool" where
  "token_symbol c \<longleftrightarrow> lower_alnum c \<or> char_code c \<in> {95, 46, 45, 91, 93}"

text \<open>\<open>str.isdigit\<close> and \<open>str.isalpha\<close> below 256: the superscripts 1, 2, 3 are digits; the ordinal indicators and
  the micro sign are letters.\<close>

definition isdigit :: "char \<Rightarrow> bool" where
  "isdigit c \<longleftrightarrow> (48 \<le> char_code c \<and> char_code c \<le> 57) \<or> char_code c \<in> {178, 179, 185}"

definition isalpha :: "char \<Rightarrow> bool" where
  "isalpha c \<longleftrightarrow> is_alpha c \<or> char_code c \<in> {170, 181, 186}
     \<or> (192 \<le> char_code c \<and> char_code c \<noteq> 215 \<and> char_code c \<noteq> 247)"

subsection \<open>Normalisers\<close>

definition normalize_parameter_name :: "string \<Rightarrow> string res" where
  "normalize_parameter_name v =
     (let n = strip v
      in if n = [] then Inl (ValueError ''parameter name must not be blank'')
         else if \<not> (list_all (\<lambda>c. token_symbol c \<or> upper_ascii c) n \<and> length n \<le> 128)
         then Inl (ValueError ''parameter name contains unsupported characters or is too long'')
         else Inr n)"

text \<open>\<open>re.sub('[class]+', '-', s)\<close>: every maximal run of the class becomes one hyphen.\<close>

fun sub_runs :: "(char \<Rightarrow> bool) \<Rightarrow> bool \<Rightarrow> string \<Rightarrow> string" where
  "sub_runs P in_run [] = []"
| "sub_runs P in_run (c # cs) =
     (if \<not> P c then c # sub_runs P False cs
      else if in_run then sub_runs P True cs else CHR ''-'' # sub_runs P True cs)"

definition strip_hyphens :: "string \<Rightarrow> string" where
  "strip_hyphens s = rev (dropWhile (\<lambda>c. c = CHR ''-'') (rev (dropWhile (\<lambda>c. c = CHR ''-'') s)))"

definition normalize_candidate_label :: "string \<Rightarrow> string option" where
  "normalize_candidate_label v =
     (let raw = lower (strip v)
      in if raw = [] then None
         else let a = sub_runs (\<lambda>c. c = CHR ''_'' \<or> is_space c) False raw;
                  b = sub_runs (\<lambda>c. \<not> (lower_alnum c \<or> c = CHR ''-'')) False a;
                  d = strip_hyphens (sub_runs (\<lambda>c. c = CHR ''-'') False b)
              in if d = [] \<or> 63 < length d then None else Some d)"

definition looks_hash_like :: "string \<Rightarrow> bool" where
  "looks_hash_like v =
     (let n = lower (strip v)
      in if n = [] then False
         else (9 / 10 :: rat) \<le> of_nat (length (filter (\<lambda>c. digit_value c < 16) n)) / of_nat (length n))"

definition version_token :: "string \<Rightarrow> bool" where
  "version_token s \<longleftrightarrow> s \<noteq> [] \<and> hd s = CHR ''v'' \<and> all_digits (tl s) \<and> length (tl s) \<le> 4"

definition normalize_general_token :: "string \<Rightarrow> string option" where
  "normalize_general_token v =
     (let n = lower (strip v)
      in if n = [] \<or> length n < 2 \<or> 128 < length n then None
         else if list_all isdigit n then (if length n \<le> 6 then Some n else None)
         else if \<not> list_ex isalpha n \<and> \<not> version_token n then None
         else if 24 \<le> length n \<and> looks_hash_like n then None
         else if \<not> list_all token_symbol n then None
         else Some n)"

definition normalize_global_token :: "string \<Rightarrow> corpus_category \<Rightarrow> string option" where
  "normalize_global_token v category =
     (if category = CC_PARAMETER
      then (case normalize_parameter_name v of Inl _ \<Rightarrow> None | Inr n \<Rightarrow> Some n)
      else if category \<in> {CC_DNS, CC_VHOST} then normalize_candidate_label v
      else normalize_general_token v)"

definition canonical_token_key :: "string \<Rightarrow> corpus_category \<Rightarrow> string" where
  "canonical_token_key v category = (case normalize_global_token v category of
     None \<Rightarrow> strip v
   | Some n \<Rightarrow> if category = CC_PARAMETER then n else lower n)"

subsection \<open>DNS names\<close>

text \<open>One label of \<open>normalize_dns_name\<close>: the ASCII form, \<open>[a-z0-9-]{1,63}\<close>, without a hyphen at its ends.\<close>

definition encode_label :: "(string \<Rightarrow> string option) \<Rightarrow> string \<Rightarrow> string res" where
  "encode_label idna label =
     (if label = [] then Inl (ValueError ''DNS name contains an empty label'')
      else case idna_encode idna label of
        None \<Rightarrow> Inl (ValueError (''invalid IDNA label: '' @ py_repr label))
      | Some enc \<Rightarrow>
          let a = lower enc
          in if \<not> (list_all (\<lambda>c. lower_alnum c \<or> c = CHR ''-'') a \<and> a \<noteq> [] \<and> length a \<le> 63)
             then Inl (ValueError (''invalid hostname label: '' @ py_repr label))
             else if hd a = CHR ''-'' \<or> last a = CHR ''-''
             then Inl (ValueError (''hostname label cannot start/end with '-': '' @ py_repr label))
             else Inr a)"

fun encode_labels :: "(string \<Rightarrow> string option) \<Rightarrow> string list \<Rightarrow> string list res" where
  "encode_labels idna [] = Inr []"
| "encode_labels idna (l # ls) =
     bind_res (encode_label idna l) (\<lambda>a. bind_res (encode_labels idna ls) (\<lambda>as. Inr (a # as)))"

definition normalize_dns_name :: "(string \<Rightarrow> string option) \<Rightarrow> string \<Rightarrow> string res" where
  "normalize_dns_name idna v =
     (let raw = rev (dropWhile (\<lambda>c. c = CHR ''.'') (rev (lower (strip v))))
      in if raw = [] then Inl (ValueError ''DNS name is blank'')
         else if take 2 raw = ''*.''
         then Inl (ValueError ''wildcard DNS names are not concrete host candidates'')
         else if contains ''://'' raw
         then Inl (ValueError ''URL supplied where DNS name was expected'')
         else if list_ex is_space raw
         then Inl (ValueError ''DNS names cannot contain whitespace'')
         else if CHR ''/'' \<in> set raw \<or> CHR ''@'' \<in> set raw
         then Inl (ValueError ''invalid hostname delimiter'')
         else if CHR '':'' \<in> set raw
         then Inl (ValueError ''ports/IP literals are not DNS hostname candidates'')
         else let labels = split_on CHR ''.'' raw
         in if length labels < 2
            then Inl (ValueError ''DNS name must contain at least two labels'')
            else bind_res (encode_labels idna labels) (\<lambda>ls.
              let n = join ''.'' ls
              in if 253 < length n then Inl (ValueError ''DNS name exceeds 253 characters'') else Inr n))"

subsection \<open>The target of an event\<close>

definition metadata_text :: "event \<Rightarrow> string \<Rightarrow> string option" where
  "metadata_text e key = (case dict_get (ev_metadata e) key of Some (J_string s) \<Rightarrow> Some s | _ \<Rightarrow> None)"

definition dns_name_or_none :: "(string \<Rightarrow> string option) \<Rightarrow> string \<Rightarrow> string option" where
  "dns_name_or_none idna s = (case normalize_dns_name idna s of Inl _ \<Rightarrow> None | Inr n \<Rightarrow> Some n)"

definition domain_of_event :: "(string \<Rightarrow> string option) \<Rightarrow> event \<Rightarrow> string option" where
  "domain_of_event idna e =
     (if ev_type e \<in> {EV_ROOT_DOMAIN, EV_DNS_NAME} then dns_name_or_none idna (ev_value e)
      else if ev_type e \<in> {EV_URL, EV_API_ENDPOINT, EV_JAVASCRIPT, EV_ARTIFACT, EV_HTTP_SERVICE}
      then (case urlsplit (ev_value e) of
              Inl _ \<Rightarrow> None
            | Inr u \<Rightarrow> (case hostname u of None \<Rightarrow> None | Some h \<Rightarrow> dns_name_or_none idna h))
      else None)"

definition infer_seed_domain :: "(string \<Rightarrow> string option) \<Rightarrow> event \<Rightarrow> string option" where
  "infer_seed_domain idna e =
     (case metadata_text e ''seed_domain'' of
        None \<Rightarrow> domain_of_event idna e
      | Some s \<Rightarrow> (case dns_name_or_none idna s of Some n \<Rightarrow> Some n | None \<Rightarrow> domain_of_event idna e))"

fun explicit_target :: "event \<Rightarrow> string list \<Rightarrow> string option" where
  "explicit_target e [] = None"
| "explicit_target e (key # keys) =
     (case metadata_text e key of
        None \<Rightarrow> explicit_target e keys
      | Some raw \<Rightarrow> if lower (strip raw) = [] then explicit_target e keys else Some (lower (strip raw)))"

definition target_key_for_event :: "(string \<Rightarrow> string option) \<Rightarrow> event \<Rightarrow> string option" where
  "target_key_for_event idna e =
     (case explicit_target e [''target_key'', ''seed_domain''] of
        Some t \<Rightarrow> Some t
      | None \<Rightarrow> (case infer_seed_domain idna e of None \<Rightarrow> None | Some d \<Rightarrow> Some (lower d)))"

end
