(* ===== verification/Yield_Model.thy ===== *)
theory Yield_Model
  imports Corpus_Tokens Scheduler
begin

section \<open>The discovery-yield model (recon/intelligence/yield_model.py)\<close>

text \<open>
  Productivity observations, their store, the aggregates of a query and the estimates made from them. Counts are
  integers, other numbers exact rationals; \<open>libm\<close> holds the functions of the math module whose values are not
  rational, \<open>exp\<close> and \<open>sqrt\<close> (\<open>pstdev\<close> is the square root of the exact variance). Frozen sets are sets.
\<close>

record libm =
  lm_exp :: "rat \<Rightarrow> rat"
  lm_sqrt :: "rat \<Rightarrow> rat"

definition clamp01 :: "rat \<Rightarrow> rat" where
  "clamp01 x = min 1 (max 0 x)"

datatype yield_outcome = YO_SUCCEEDED | YO_RETRY | YO_FAILED

definition new_yield_observation_id :: "nat \<Rightarrow> string" where
  "new_yield_observation_id n = ''yld_'' @ uuid_hex n"

definition strip_set :: "string set \<Rightarrow> string set" where
  "strip_set xs = strip ` {x \<in> xs. strip x \<noteq> []}"

subsection \<open>Credits and observations\<close>

record token_credit =
  tc_token :: string
  tc_category :: corpus_category
  tc_attempted :: int
  tc_hits :: int
  tc_new_assets :: int
  tc_novel_assets :: int
  tc_source_ids :: "string set"

definition nonneg :: "string \<Rightarrow> int list \<Rightarrow> unit res" where
  "nonneg msg xs = (if list_all (\<lambda>x. 0 \<le> x) xs then Inr () else Inl (ValidationError msg))"

definition make_token_credit :: "token_credit \<Rightarrow> token_credit res" where
  "make_token_credit c =
     bind_res (not_blank ''token must not be blank'' (tc_token c)) (\<lambda>token.
     bind_res (nonneg ''greater_than_equal'' [tc_attempted c, tc_hits c, tc_new_assets c, tc_novel_assets c]) (\<lambda>_.
     if tc_attempted c < tc_hits c
     then Inl (ValidationError ''token successful_hits cannot exceed attempted_hypotheses'')
     else if tc_new_assets c < tc_novel_assets c
     then Inl (ValidationError ''token novel_assets cannot exceed new_assets'')
     else if normalize_global_token token (tc_category c) = None
     then Inl (ValidationError ''token is invalid for its corpus category'')
     else Inr (c\<lparr>tc_token := token, tc_source_ids := strip_set (tc_source_ids c)\<rparr>)))"

record pattern_credit =
  pc_pattern_id :: string
  pc_attempted :: int
  pc_hits :: int
  pc_new_assets :: int
  pc_novel_assets :: int

definition make_pattern_credit :: "pattern_credit \<Rightarrow> pattern_credit res" where
  "make_pattern_credit c =
     bind_res (not_blank ''pattern_id must not be blank'' (pc_pattern_id c)) (\<lambda>pid.
     bind_res (nonneg ''greater_than_equal'' [pc_attempted c, pc_hits c, pc_new_assets c, pc_novel_assets c]) (\<lambda>_.
     if pc_attempted c < pc_hits c
     then Inl (ValidationError ''pattern successful_hits cannot exceed attempted_hypotheses'')
     else if pc_new_assets c < pc_novel_assets c
     then Inl (ValidationError ''pattern novel_assets cannot exceed new_assets'')
     else Inr (c\<lparr>pc_pattern_id := pid\<rparr>)))"

record yield_observation =
  yo_id :: string
  yo_observed_at :: time
  yo_run_id :: "string option"
  yo_task_id :: "string option"
  yo_input_event_id :: "string option"
  yo_target_key :: "string option"
  yo_branch_id :: "string option"
  yo_worker :: string
  yo_action :: string
  yo_route_rule_id :: "string option"
  yo_input_source :: "string option"
  yo_source_ids :: "string set"
  yo_outcome :: yield_outcome
  yo_attempted :: int
  yo_hits :: int
  yo_new_assets :: int
  yo_novel_assets :: int
  yo_new_domains :: int
  yo_new_urls :: int
  yo_new_endpoints :: int
  yo_new_vocabulary_tokens :: int
  yo_new_patterns :: int
  yo_request_count :: rat
  yo_runtime_seconds :: rat
  yo_cost_units :: rat
  yo_token_credits :: "token_credit list"
  yo_pattern_credits :: "pattern_credit list"
  yo_metadata :: "(string, json) dict"

definition make_yield_observation :: "yield_observation \<Rightarrow> yield_observation res" where
  "make_yield_observation y =
     bind_res (not_blank ''must not be blank'' (yo_id y)) (\<lambda>i.
     bind_res (not_blank ''must not be blank'' (yo_worker y)) (\<lambda>worker.
     bind_res (not_blank ''must not be blank'' (yo_action y)) (\<lambda>action.
     bind_res (nonneg ''greater_than_equal'' [yo_attempted y, yo_hits y, yo_new_assets y, yo_novel_assets y,
        yo_new_domains y, yo_new_urls y, yo_new_endpoints y, yo_new_vocabulary_tokens y, yo_new_patterns y]) (\<lambda>_.
     if yo_request_count y < 0 \<or> yo_runtime_seconds y < 0 then Inl (ValidationError ''greater_than_equal'')
     else if yo_cost_units y \<le> 0 then Inl (ValidationError ''greater_than'')
     else if yo_attempted y < yo_hits y
     then Inl (ValidationError ''successful_hits cannot exceed attempted_units'')
     else if yo_new_assets y < yo_novel_assets y
     then Inl (ValidationError ''novel_assets cannot exceed new_assets'')
     else Inr (y\<lparr>yo_id := i, yo_worker := worker, yo_action := action,
       yo_run_id := opt_text (yo_run_id y), yo_task_id := opt_text (yo_task_id y),
       yo_input_event_id := opt_text (yo_input_event_id y), yo_target_key := opt_text (yo_target_key y),
       yo_branch_id := opt_text (yo_branch_id y), yo_route_rule_id := opt_text (yo_route_rule_id y),
       yo_input_source := opt_text (yo_input_source y), yo_source_ids := strip_set (yo_source_ids y)\<rparr>)))))"

subsection \<open>Queries\<close>

record yield_query =
  yq_target_key :: "string option"
  yq_branch_id :: "string option"
  yq_worker :: "string option"
  yq_action :: "string option"
  yq_route_rule_id :: "string option"
  yq_input_source :: "string option"
  yq_source_id :: "string option"
  yq_token :: "string option"
  yq_token_category :: "corpus_category option"
  yq_pattern_id :: "string option"
  yq_since :: "time option"
  yq_until :: "time option"
  yq_limit :: "int option"
  yq_newest_first :: bool

definition any_query :: yield_query where
  "any_query = \<lparr>yq_target_key = None, yq_branch_id = None, yq_worker = None, yq_action = None,
     yq_route_rule_id = None, yq_input_source = None, yq_source_id = None, yq_token = None,
     yq_token_category = None, yq_pattern_id = None, yq_since = None, yq_until = None, yq_limit = None,
     yq_newest_first = False\<rparr>"

definition make_yield_query :: "yield_query \<Rightarrow> yield_query res" where
  "make_yield_query q =
     (let token = opt_text (yq_token q)
      in if (case yq_limit q of None \<Rightarrow> False | Some n \<Rightarrow> n < 1) then Inl (ValidationError ''greater_than_equal'')
         else if (case (yq_since q, yq_until q) of (Some a, Some b) \<Rightarrow> b < a | _ \<Rightarrow> False)
         then Inl (ValidationError ''yield query since cannot be after until'')
         else if yq_token_category q \<noteq> None \<and> token = None
         then Inl (ValidationError ''token_category requires token'')
         else Inr (q\<lparr>yq_target_key := opt_text (yq_target_key q), yq_branch_id := opt_text (yq_branch_id q),
           yq_worker := opt_text (yq_worker q), yq_action := opt_text (yq_action q),
           yq_route_rule_id := opt_text (yq_route_rule_id q), yq_input_source := opt_text (yq_input_source q),
           yq_source_id := opt_text (yq_source_id q), yq_token := token,
           yq_pattern_id := opt_text (yq_pattern_id q)\<rparr>))"

text \<open>An optional criterion of a query: absent, or equal to the value of the observation.\<close>

definition selects :: "'a option \<Rightarrow> 'a option \<Rightarrow> bool" where
  "selects criterion v \<longleftrightarrow> criterion = None \<or> v = criterion"

definition credits_token :: "string \<Rightarrow> corpus_category \<Rightarrow> token_credit \<Rightarrow> bool" where
  "credits_token token category c \<longleftrightarrow> tc_category c = category
     \<and> canonical_token_key (tc_token c) (tc_category c) = canonical_token_key token category"

definition observation_matches_query :: "yield_observation \<Rightarrow> yield_query \<Rightarrow> bool res" where
  "observation_matches_query y q =
     (if \<not> selects (yq_target_key q) (yo_target_key y) then Inr False
      else if \<not> selects (yq_branch_id q) (yo_branch_id y) then Inr False
      else if \<not> selects (yq_worker q) (Some (yo_worker y)) then Inr False
      else if \<not> selects (yq_action q) (Some (yo_action y)) then Inr False
      else if \<not> selects (yq_route_rule_id q) (yo_route_rule_id y) then Inr False
      else if \<not> selects (yq_input_source q) (yo_input_source y) then Inr False
      else if (case yq_source_id q of None \<Rightarrow> False | Some s \<Rightarrow> s \<notin> yo_source_ids y) then Inr False
      else if (case yq_since q of None \<Rightarrow> False | Some a \<Rightarrow> yo_observed_at y < a) then Inr False
      else if (case yq_until q of None \<Rightarrow> False | Some b \<Rightarrow> b < yo_observed_at y) then Inr False
      else bind_res (case yq_token q of
             None \<Rightarrow> Inr True
           | Some token \<Rightarrow> (case yq_token_category q of
               None \<Rightarrow> Inl AssertionError
             | Some category \<Rightarrow> Inr (list_ex (credits_token token category) (yo_token_credits y)))) (\<lambda>found.
           if \<not> found then Inr False
           else Inr (case yq_pattern_id q of
             None \<Rightarrow> True | Some p \<Rightarrow> list_ex (\<lambda>c. pc_pattern_id c = p) (yo_pattern_credits y))))"

end
