(* ===== verification/Yield_Estimates.thy ===== *)
theory Yield_Estimates
  imports Yield_Model
begin

section \<open>Aggregates and estimates of the yield model (recon/intelligence/yield_model.py)\<close>

text \<open>
  The store of observations, the aggregate of a query with exact credit for tokens and patterns, the estimate
  made from an aggregate, the hierarchical estimate of a task and the trend of a branch.
\<close>

subsection \<open>Aggregates\<close>

record yield_aggregate =
  ya_observations :: int
  ya_executions :: int
  ya_succeeded :: int
  ya_retry :: int
  ya_failed :: int
  ya_attempted :: int
  ya_hits :: int
  ya_new_assets :: int
  ya_novel_assets :: int
  ya_new_domains :: int
  ya_new_urls :: int
  ya_new_endpoints :: int
  ya_new_vocabulary_tokens :: int
  ya_new_patterns :: int
  ya_request_count :: rat
  ya_runtime_seconds :: rat
  ya_cost_units :: rat
  ya_first_observed_at :: "time option"
  ya_last_observed_at :: "time option"

definition empty_aggregate :: yield_aggregate where
  "empty_aggregate = \<lparr>ya_observations = 0, ya_executions = 0, ya_succeeded = 0, ya_retry = 0, ya_failed = 0,
     ya_attempted = 0, ya_hits = 0, ya_new_assets = 0, ya_novel_assets = 0, ya_new_domains = 0, ya_new_urls = 0,
     ya_new_endpoints = 0, ya_new_vocabulary_tokens = 0, ya_new_patterns = 0, ya_request_count = 0,
     ya_runtime_seconds = 0, ya_cost_units = 0, ya_first_observed_at = None, ya_last_observed_at = None\<rparr>"

definition outcome_count :: "yield_outcome \<Rightarrow> yield_observation list \<Rightarrow> int" where
  "outcome_count r ys = int (length (filter (\<lambda>y. yo_outcome y = r) ys))"

definition aggregate_observations :: "yield_observation list \<Rightarrow> yield_aggregate" where
  "aggregate_observations ys =
     (if ys = [] then empty_aggregate
      else \<lparr>ya_observations = int (length ys), ya_executions = int (length ys),
        ya_succeeded = outcome_count YO_SUCCEEDED ys, ya_retry = outcome_count YO_RETRY ys,
        ya_failed = outcome_count YO_FAILED ys,
        ya_attempted = sum_list (map yo_attempted ys), ya_hits = sum_list (map yo_hits ys),
        ya_new_assets = sum_list (map yo_new_assets ys), ya_novel_assets = sum_list (map yo_novel_assets ys),
        ya_new_domains = sum_list (map yo_new_domains ys), ya_new_urls = sum_list (map yo_new_urls ys),
        ya_new_endpoints = sum_list (map yo_new_endpoints ys),
        ya_new_vocabulary_tokens = sum_list (map yo_new_vocabulary_tokens ys),
        ya_new_patterns = sum_list (map yo_new_patterns ys),
        ya_request_count = sum_list (map yo_request_count ys),
        ya_runtime_seconds = sum_list (map yo_runtime_seconds ys),
        ya_cost_units = sum_list (map yo_cost_units ys),
        ya_first_observed_at = Some (Min (set (map yo_observed_at ys))),
        ya_last_observed_at = Some (Max (set (map yo_observed_at ys)))\<rparr>)"

text \<open>The credit of one observation that a token or pattern query asks for: attempts, hits, new and novel assets.\<close>

record credit_sum =
  cr_attempts :: int
  cr_hits :: int
  cr_new_assets :: int
  cr_novel_assets :: int

definition sum_token_credits :: "token_credit list \<Rightarrow> credit_sum" where
  "sum_token_credits cs = \<lparr>cr_attempts = sum_list (map tc_attempted cs), cr_hits = sum_list (map tc_hits cs),
     cr_new_assets = sum_list (map tc_new_assets cs), cr_novel_assets = sum_list (map tc_novel_assets cs)\<rparr>"

definition sum_pattern_credits :: "pattern_credit list \<Rightarrow> credit_sum" where
  "sum_pattern_credits cs = \<lparr>cr_attempts = sum_list (map pc_attempted cs), cr_hits = sum_list (map pc_hits cs),
     cr_new_assets = sum_list (map pc_new_assets cs), cr_novel_assets = sum_list (map pc_novel_assets cs)\<rparr>"

definition matching_credit :: "yield_query \<Rightarrow> yield_observation \<Rightarrow> credit_sum res" where
  "matching_credit q y =
     (case yq_token q of
        Some token \<Rightarrow> (case yq_token_category q of
          None \<Rightarrow> Inl AssertionError
        | Some category \<Rightarrow> Inr (sum_token_credits (filter (credits_token token category) (yo_token_credits y))))
      | None \<Rightarrow> (case yq_pattern_id q of
          None \<Rightarrow> Inr (sum_pattern_credits [])
        | Some p \<Rightarrow> Inr (sum_pattern_credits (filter (\<lambda>c. pc_pattern_id c = p) (yo_pattern_credits y)))))"

fun matching_credits :: "yield_query \<Rightarrow> yield_observation list \<Rightarrow> (yield_observation \<times> credit_sum) list res" where
  "matching_credits q [] = Inr []"
| "matching_credits q (y # ys) =
     bind_res (matching_credit q y) (\<lambda>c.
     bind_res (matching_credits q ys) (\<lambda>cs.
     Inr (if cr_attempts c \<le> 0 \<and> cr_hits c \<le> 0 then cs else (y, c) # cs)))"

definition credit_fraction :: "yield_observation \<Rightarrow> credit_sum \<Rightarrow> rat" where
  "credit_fraction y c = min 1 (of_int (cr_attempts c) / of_int (max 1 (yo_attempted y)))"

definition apportioned :: "(yield_observation \<Rightarrow> rat) \<Rightarrow> (yield_observation \<times> credit_sum) list \<Rightarrow> rat" where
  "apportioned f cs = sum_list (map (\<lambda>(y, c). f y * credit_fraction y c) cs)"

definition aggregate_credits :: "(yield_observation \<times> credit_sum) list \<Rightarrow> yield_aggregate" where
  "aggregate_credits cs =
     (if cs = [] then empty_aggregate
      else empty_aggregate\<lparr>ya_observations := int (length cs), ya_executions := int (length cs),
        ya_succeeded := outcome_count YO_SUCCEEDED (map fst cs), ya_retry := outcome_count YO_RETRY (map fst cs),
        ya_failed := outcome_count YO_FAILED (map fst cs),
        ya_attempted := sum_list (map (cr_attempts \<circ> snd) cs), ya_hits := sum_list (map (cr_hits \<circ> snd) cs),
        ya_new_assets := sum_list (map (cr_new_assets \<circ> snd) cs),
        ya_novel_assets := sum_list (map (cr_novel_assets \<circ> snd) cs),
        ya_request_count := apportioned yo_request_count cs,
        ya_runtime_seconds := apportioned yo_runtime_seconds cs,
        ya_cost_units := apportioned yo_cost_units cs,
        ya_first_observed_at := Some (Min (set (map (yo_observed_at \<circ> fst) cs))),
        ya_last_observed_at := Some (Max (set (map (yo_observed_at \<circ> fst) cs)))\<rparr>)"

definition aggregate_observations_for_query ::
  "yield_observation list \<Rightarrow> yield_query \<Rightarrow> yield_aggregate res" where
  "aggregate_observations_for_query ys q =
     (if yq_token q = None \<and> yq_pattern_id q = None then Inr (aggregate_observations ys)
      else if ys = [] then Inr empty_aggregate
      else bind_res (matching_credits q ys) (\<lambda>cs. Inr (aggregate_credits cs)))"

subsection \<open>The in-memory store\<close>

type_synonym yield_store = "(string, yield_observation) dict"

definition yield_append :: "yield_observation \<Rightarrow> (yield_store, bool) op" where
  "yield_append y s =
     (if dict_get s (yo_id y) \<noteq> None then (Inr False, s) else (Inr True, dict_set (yo_id y) y s))"

fun matching_observations :: "yield_query \<Rightarrow> yield_observation list \<Rightarrow> yield_observation list res" where
  "matching_observations q [] = Inr []"
| "matching_observations q (y # ys) =
     bind_res (observation_matches_query y q) (\<lambda>m.
     bind_res (matching_observations q ys) (\<lambda>ms. Inr (if m then y # ms else ms)))"

definition observation_key :: "yield_observation \<Rightarrow> time \<times> string" where
  "observation_key y = (yo_observed_at y, yo_id y)"

definition yield_query_store :: "yield_query \<Rightarrow> yield_store \<Rightarrow> yield_observation list res" where
  "yield_query_store q s =
     bind_res (matching_observations q (dict_values s)) (\<lambda>ms.
     let sorted = (if yq_newest_first q then sort_desc observation_key ms else sort_key observation_key ms)
     in Inr (case yq_limit q of None \<Rightarrow> sorted | Some n \<Rightarrow> slice_to sorted n))"

definition yield_aggregate_store :: "yield_query \<Rightarrow> yield_store \<Rightarrow> yield_aggregate res" where
  "yield_aggregate_store q s =
     bind_res (yield_query_store (q\<lparr>yq_limit := None\<rparr>) s) (\<lambda>ys. aggregate_observations_for_query ys q)"

subsection \<open>Estimates\<close>

definition rate_of :: "int \<Rightarrow> int \<Rightarrow> rat" where
  "rate_of part whole = (if whole \<le> 0 then 0 else of_int part / of_int whole)"

definition execution_success_rate :: "yield_aggregate \<Rightarrow> rat" where
  "execution_success_rate a = rate_of (ya_succeeded a) (ya_executions a)"

definition raw_hit_rate :: "yield_aggregate \<Rightarrow> rat" where
  "raw_hit_rate a = rate_of (ya_hits a) (ya_attempted a)"

definition discoveries_per_attempt :: "yield_aggregate \<Rightarrow> rat" where
  "discoveries_per_attempt a = rate_of (ya_new_assets a) (ya_attempted a)"

definition novelty_fraction :: "yield_aggregate \<Rightarrow> rat" where
  "novelty_fraction a = rate_of (ya_novel_assets a) (ya_new_assets a)"

definition mean_per_execution :: "yield_aggregate \<Rightarrow> rat \<Rightarrow> rat option" where
  "mean_per_execution a amount = (if ya_executions a \<le> 0 then None else Some (amount / of_int (ya_executions a)))"

definition mean_cost_units :: "yield_aggregate \<Rightarrow> rat option" where
  "mean_cost_units a = mean_per_execution a (ya_cost_units a)"

definition mean_runtime_seconds :: "yield_aggregate \<Rightarrow> rat option" where
  "mean_runtime_seconds a = mean_per_execution a (ya_runtime_seconds a)"

definition mean_requests :: "yield_aggregate \<Rightarrow> rat option" where
  "mean_requests a = mean_per_execution a (ya_request_count a)"

definition beta_posterior_mean :: "int \<Rightarrow> int \<Rightarrow> rat \<Rightarrow> rat \<Rightarrow> rat res" where
  "beta_posterior_mean successes failures alpha beta =
     (let denominator = of_int successes + of_int failures + alpha + beta
      in if denominator \<le> 0 then Inl (ValueError ''invalid Beta posterior denominator'')
         else Inr ((of_int successes + alpha) / denominator))"

record yield_config =
  yc_hit_prior_alpha :: rat
  yc_hit_prior_beta :: rat
  yc_execution_prior_alpha :: rat
  yc_execution_prior_beta :: rat
  yc_novelty_prior_alpha :: rat
  yc_novelty_prior_beta :: rat
  yc_discovery_saturation :: rat
  yc_hit_weight :: rat
  yc_discovery_weight :: rat
  yc_novelty_weight :: rat
  yc_reliability_weight :: rat
  yc_default_cost_units :: rat
  yc_prior_component_weight :: rat
  yc_target_weight :: rat
  yc_worker_weight :: rat
  yc_worker_action_weight :: rat
  yc_route_weight :: rat
  yc_branch_weight :: rat
  yc_input_source_weight :: rat
  yc_reliability_half_life :: rat
  yc_uncertainty_weight :: rat
  yc_disagreement_weight :: rat
  yc_trend_window :: int
  yc_trend_min_recent :: int
  yc_low_hit_rate :: rat
  yc_low_assets :: rat
  yc_low_novel_assets :: rat

definition default_yield_config :: yield_config where
  "default_yield_config = \<lparr>yc_hit_prior_alpha = 1, yc_hit_prior_beta = 1, yc_execution_prior_alpha = 4,
     yc_execution_prior_beta = 1, yc_novelty_prior_alpha = 1, yc_novelty_prior_beta = 1,
     yc_discovery_saturation = 1, yc_hit_weight = 50/100, yc_discovery_weight = 25/100,
     yc_novelty_weight = 15/100, yc_reliability_weight = 10/100, yc_default_cost_units = 1,
     yc_prior_component_weight = 1, yc_target_weight = 75/100, yc_worker_weight = 1,
     yc_worker_action_weight = 25/10, yc_route_weight = 15/10, yc_branch_weight = 15/10,
     yc_input_source_weight = 1, yc_reliability_half_life = 12, yc_uncertainty_weight = 75/100,
     yc_disagreement_weight = 25/100, yc_trend_window = 20, yc_trend_min_recent = 8,
     yc_low_hit_rate = 8/100, yc_low_assets = 10/100, yc_low_novel_assets = 5/100\<rparr>"

text \<open>The constraints on the fields (\<open>gt\<close>, \<open>ge\<close>, \<open>le\<close>) and the validator of YieldModelConfig.\<close>

definition yield_config_ok :: "yield_config \<Rightarrow> bool" where
  "yield_config_ok c \<longleftrightarrow>
     list_all (\<lambda>x. 0 < x) [yc_hit_prior_alpha c, yc_hit_prior_beta c, yc_execution_prior_alpha c,
       yc_execution_prior_beta c, yc_novelty_prior_alpha c, yc_novelty_prior_beta c, yc_discovery_saturation c,
       yc_default_cost_units c, yc_prior_component_weight c, yc_target_weight c, yc_worker_weight c,
       yc_worker_action_weight c, yc_route_weight c, yc_branch_weight c, yc_input_source_weight c,
       yc_reliability_half_life c]
     \<and> list_all (\<lambda>x. 0 \<le> x) [yc_hit_weight c, yc_discovery_weight c, yc_novelty_weight c, yc_reliability_weight c,
       yc_uncertainty_weight c, yc_disagreement_weight c, yc_low_hit_rate c, yc_low_assets c, yc_low_novel_assets c]
     \<and> 2 \<le> yc_trend_window c \<and> yc_trend_window c \<le> 10000 \<and> 2 \<le> yc_trend_min_recent c
     \<and> yc_trend_min_recent c \<le> 10000 \<and> yc_low_hit_rate c \<le> 1
     \<and> 0 < yc_hit_weight c + yc_discovery_weight c + yc_novelty_weight c + yc_reliability_weight c
     \<and> 0 < yc_uncertainty_weight c + yc_disagreement_weight c
     \<and> yc_trend_min_recent c \<le> yc_trend_window c"

definition prior_hit_mean :: "yield_config \<Rightarrow> rat" where
  "prior_hit_mean c = yc_hit_prior_alpha c / (yc_hit_prior_alpha c + yc_hit_prior_beta c)"

end
