(* ===== verification/Yield_Trends.thy ===== *)
theory Yield_Trends
  imports Yield_Estimates
begin

section \<open>Estimates, task blend, branch trend and adapters (recon/intelligence/yield_model.py)\<close>

text \<open>
  \<open>estimate_from_aggregate\<close>, \<open>YieldModel\<close> with its hierarchical task estimate and its branch trend, the scheduler
  adapter, the feedback adapters of the word list and the pattern engine, and \<open>yield_observation_from_task\<close>. The
  event provider of the scheduler adapter is the event it returned.
\<close>

record yield_estimate =
  ye_query :: yield_query
  ye_aggregate :: yield_aggregate
  ye_posterior_hit_rate :: rat
  ye_discovery_score :: rat
  ye_novelty_score :: rat
  ye_execution_reliability :: rat
  ye_expected_yield :: rat
  ye_uncertainty :: rat
  ye_estimated_cost :: rat
  ye_sample_size :: rat

definition floor_cost :: "rat \<Rightarrow> rat" where
  "floor_cost x = max x (1 / 1000000000)"

definition weighted_yield :: "yield_config \<Rightarrow> rat \<Rightarrow> rat \<Rightarrow> rat \<Rightarrow> rat \<Rightarrow> rat" where
  "weighted_yield c hit discovery novelty reliability =
     (hit * yc_hit_weight c + discovery * yc_discovery_weight c + novelty * yc_novelty_weight c
        + reliability * yc_reliability_weight c)
     / (yc_hit_weight c + yc_discovery_weight c + yc_novelty_weight c + yc_reliability_weight c)"

definition discovery_score :: "libm \<Rightarrow> yield_config \<Rightarrow> yield_aggregate \<Rightarrow> rat" where
  "discovery_score m c a = 1 - lm_exp m (- rate_of (ya_new_assets a) (ya_attempted a) / yc_discovery_saturation c)"

definition sample_size :: "yield_aggregate \<Rightarrow> rat" where
  "sample_size a = of_int (max (ya_attempted a) (ya_executions a))"

definition uncertainty_of :: "libm \<Rightarrow> yield_aggregate \<Rightarrow> rat" where
  "uncertainty_of m a = 1 / lm_sqrt m (sample_size a + 1)"

definition estimate_from_aggregate :: "libm \<Rightarrow> yield_config \<Rightarrow> yield_query \<Rightarrow> yield_aggregate \<Rightarrow> yield_estimate res" where
  "estimate_from_aggregate m c q a =
     bind_res (beta_posterior_mean (ya_hits a) (max 0 (ya_attempted a - ya_hits a))
                 (yc_hit_prior_alpha c) (yc_hit_prior_beta c)) (\<lambda>hit.
     bind_res (beta_posterior_mean (ya_novel_assets a) (max 0 (ya_new_assets a - ya_novel_assets a))
                 (yc_novelty_prior_alpha c) (yc_novelty_prior_beta c)) (\<lambda>novelty.
     bind_res (beta_posterior_mean (ya_succeeded a) (ya_retry a + ya_failed a)
                 (yc_execution_prior_alpha c) (yc_execution_prior_beta c)) (\<lambda>reliability.
     Inr \<lparr>ye_query = q, ye_aggregate = a, ye_posterior_hit_rate = clamp01 hit,
       ye_discovery_score = clamp01 (discovery_score m c a), ye_novelty_score = clamp01 novelty,
       ye_execution_reliability = clamp01 reliability,
       ye_expected_yield = clamp01 (weighted_yield c hit (discovery_score m c a) novelty reliability),
       ye_uncertainty = clamp01 (uncertainty_of m a),
       ye_estimated_cost = floor_cost (case mean_cost_units a of Some x \<Rightarrow> x | None \<Rightarrow> yc_default_cost_units c),
       ye_sample_size = sample_size a\<rparr>)))"

record yield_model =
  ym_config :: yield_config
  ym_libm :: libm
  ym_idna :: "string \<Rightarrow> string option"

definition yield_estimate_for :: "yield_model \<Rightarrow> yield_query \<Rightarrow> yield_store \<Rightarrow> yield_estimate res" where
  "yield_estimate_for ym q s =
     bind_res (yield_aggregate_store q s) (estimate_from_aggregate (ym_libm ym) (ym_config ym) q)"

text \<open>Constructing the query may refuse it; the estimate is then not made.\<close>

definition estimate_query :: "yield_model \<Rightarrow> yield_query \<Rightarrow> yield_store \<Rightarrow> yield_estimate res" where
  "estimate_query ym q s = bind_res (make_yield_query q) (\<lambda>q'. yield_estimate_for ym q' s)"

definition estimate_for_worker ::
  "yield_model \<Rightarrow> string option \<Rightarrow> string \<Rightarrow> string option \<Rightarrow> yield_store \<Rightarrow> yield_estimate res" where
  "estimate_for_worker ym target worker action =
     estimate_query ym (any_query\<lparr>yq_target_key := target, yq_worker := Some worker, yq_action := action\<rparr>)"

definition estimate_for_source :: "yield_model \<Rightarrow> string option \<Rightarrow> string \<Rightarrow> yield_store \<Rightarrow> yield_estimate res" where
  "estimate_for_source ym target source_id =
     estimate_query ym (any_query\<lparr>yq_target_key := target, yq_source_id := Some source_id\<rparr>)"

definition estimate_for_token ::
  "yield_model \<Rightarrow> string option \<Rightarrow> string \<Rightarrow> corpus_category \<Rightarrow> yield_store \<Rightarrow> yield_estimate res" where
  "estimate_for_token ym target token category =
     estimate_query ym (any_query\<lparr>yq_target_key := target, yq_token := Some token, yq_token_category := Some category\<rparr>)"

definition estimate_for_pattern :: "yield_model \<Rightarrow> string option \<Rightarrow> string \<Rightarrow> yield_store \<Rightarrow> yield_estimate res" where
  "estimate_for_pattern ym target pid =
     estimate_query ym (any_query\<lparr>yq_target_key := target, yq_pattern_id := Some pid\<rparr>)"

subsection \<open>The estimate of a task\<close>

record task_component =
  tk_name :: string
  tk_base_weight :: rat
  tk_reliability :: rat
  tk_applied_weight :: rat
  tk_estimate :: yield_estimate

record task_yield_estimate =
  ty_task_id :: string
  ty_target_key :: "string option"
  ty_expected_yield :: rat
  ty_information_gain :: rat
  ty_estimated_cost :: rat
  ty_disagreement :: rat
  ty_components :: "task_component list"

definition component_reliability :: "yield_aggregate \<Rightarrow> rat \<Rightarrow> rat" where
  "component_reliability a half_life =
     (if sample_size a \<le> 0 then 0 else sample_size a / (sample_size a + half_life))"

definition mean :: "rat list \<Rightarrow> rat" where
  "mean xs = sum_list xs / of_nat (length xs)"

definition pvariance :: "rat list \<Rightarrow> rat" where
  "pvariance xs = mean (map (\<lambda>x. (x - mean xs) * (x - mean xs)) xs)"

definition normalized_disagreement :: "libm \<Rightarrow> rat list \<Rightarrow> rat" where
  "normalized_disagreement m xs =
     (if length xs < 2 then 0 else clamp01 (lm_sqrt m (pvariance xs) / (1 / 2)))"

definition component_specs ::
  "yield_config \<Rightarrow> task \<Rightarrow> string option \<Rightarrow> string option \<Rightarrow> (string \<times> rat \<times> yield_query) list" where
  "component_specs c t target source =
     (let q = any_query\<lparr>yq_target_key := target\<rparr> in
      (if target = None then [] else [(''target'', yc_target_weight c, q)])
      @ [(''worker'', yc_worker_weight c, q\<lparr>yq_worker := Some (t_worker t)\<rparr>),
         (''worker_action'', yc_worker_action_weight c,
            q\<lparr>yq_worker := Some (t_worker t), yq_action := Some (t_action t)\<rparr>)]
      @ (if t_route_rule_id t = None then []
         else [(''route'', yc_route_weight c, q\<lparr>yq_route_rule_id := t_route_rule_id t\<rparr>)])
      @ (if t_branch_id t = None then []
         else [(''branch'', yc_branch_weight c, q\<lparr>yq_branch_id := t_branch_id t\<rparr>)])
      @ (if source = None then []
         else [(''input_source'', yc_input_source_weight c, q\<lparr>yq_input_source := source\<rparr>)]))"

fun task_components ::
  "yield_model \<Rightarrow> yield_store \<Rightarrow> (string \<times> rat \<times> yield_query) list \<Rightarrow> task_component list res" where
  "task_components ym s [] = Inr []"
| "task_components ym s ((name, weight, q) # rest) =
     bind_res (estimate_query ym q s) (\<lambda>e.
     bind_res (task_components ym s rest) (\<lambda>cs.
     let r = component_reliability (ye_aggregate e) (yc_reliability_half_life (ym_config ym))
     in Inr (\<lparr>tk_name = name, tk_base_weight = weight, tk_reliability = r, tk_applied_weight = weight * r,
              tk_estimate = e\<rparr> # cs)))"

text \<open>The blend: the prior with its weight, and every component that carries weight.\<close>

definition weighty :: "task_component list \<Rightarrow> task_component list" where
  "weighty cs = filter (\<lambda>k. 0 < tk_applied_weight k) cs"

definition blend :: "rat \<Rightarrow> rat \<Rightarrow> (yield_estimate \<Rightarrow> rat) \<Rightarrow> task_component list \<Rightarrow> rat" where
  "blend prior prior_weight f cs =
     (prior * prior_weight + sum_list (map (\<lambda>k. f (tk_estimate k) * tk_applied_weight k) (weighty cs)))
     / (prior_weight + sum_list (map tk_applied_weight (weighty cs)))"

definition blend_task :: "yield_model \<Rightarrow> task \<Rightarrow> string option \<Rightarrow> task_component list \<Rightarrow> task_yield_estimate" where
  "blend_task ym t target cs =
     (let c = ym_config ym; w = yc_prior_component_weight c;
          uncertainty = blend 1 w ye_uncertainty cs;
          disagreement = normalized_disagreement (ym_libm ym) (map (ye_expected_yield \<circ> tk_estimate) (weighty cs));
          information_gain = (uncertainty * yc_uncertainty_weight c + disagreement * yc_disagreement_weight c)
             / (yc_uncertainty_weight c + yc_disagreement_weight c)
      in \<lparr>ty_task_id = t_task_id t, ty_target_key = target,
          ty_expected_yield = clamp01 (blend (prior_hit_mean c) w ye_expected_yield cs),
          ty_information_gain = clamp01 information_gain,
          ty_estimated_cost = floor_cost (blend (yc_default_cost_units c) w ye_estimated_cost cs),
          ty_disagreement = disagreement, ty_components = cs\<rparr>)"

definition task_estimate :: "yield_model \<Rightarrow> task \<Rightarrow> event option \<Rightarrow> yield_store \<Rightarrow> task_yield_estimate res" where
  "task_estimate ym t input s =
     (let target = (case input of None \<Rightarrow> None | Some e \<Rightarrow> target_key_for_event (ym_idna ym) e);
          source = (case input of None \<Rightarrow> None | Some e \<Rightarrow> Some (ev_source e))
      in bind_res (task_components ym s (component_specs (ym_config ym) t target source)) (\<lambda>cs.
         Inr (blend_task ym t target cs)))"

definition yield_signals_for :: "yield_model \<Rightarrow> task \<Rightarrow> event option \<Rightarrow> yield_store \<Rightarrow> scheduling_signals res" where
  "yield_signals_for ym t input s =
     bind_res (task_estimate ym t input s) (\<lambda>e.
       let g = \<lparr>sg_confidence = (case input of None \<Rightarrow> 1 / 2 | Some ev \<Rightarrow> ev_confidence ev),
                sg_novelty = (case input of None \<Rightarrow> 1 / 2 | Some ev \<Rightarrow> ev_novelty ev),
                sg_expected_yield = ty_expected_yield e, sg_information_gain = ty_information_gain e,
                sg_estimated_cost = ty_estimated_cost e\<rparr>
       in if signals_ok g then Inr g else Inl (ValidationError ''SchedulingSignals''))"

end
