(* ===== verification/Yield_Feedback.thy ===== *)
theory Yield_Feedback
  imports Yield_Trends
begin

section \<open>Branch trend and feedback adapters (recon/intelligence/yield_model.py)\<close>

text \<open>
  \<open>YieldModel.branch_trend\<close>, the adapters that hand the history of tokens and patterns to the word list
  (intelligence/wordlists.py) and the pattern engine (intelligence/patterns.py), and the observation of an
  executed task. A \<open>Counter\<close> is a dictionary that starts every count at 0.
\<close>

subsection \<open>The trend of a branch\<close>

record branch_trend =
  bt_target_key :: "string option"
  bt_branch_id :: string
  bt_recent_executions :: int
  bt_previous_executions :: int
  bt_recent_hit_rate :: rat
  bt_previous_hit_rate :: rat
  bt_recent_assets :: rat
  bt_previous_assets :: rat
  bt_recent_novel :: rat
  bt_previous_novel :: rat
  bt_delta :: rat
  bt_signal :: rat
  bt_low_marginal :: bool
  bt_reason :: string

record window_metrics =
  wm_hit_rate :: rat
  wm_assets :: rat
  wm_novel :: rat

definition marginal_window_metrics :: "yield_observation list \<Rightarrow> window_metrics" where
  "marginal_window_metrics ys =
     (let n = int (length ys)
      in \<lparr>wm_hit_rate = rate_of (sum_list (map yo_hits ys)) (sum_list (map yo_attempted ys)),
          wm_assets = rate_of (sum_list (map yo_new_assets ys)) n,
          wm_novel = rate_of (sum_list (map yo_novel_assets ys)) n\<rparr>)"

definition pressure :: "rat \<Rightarrow> rat \<Rightarrow> rat" where
  "pressure x threshold = 1 - min 1 (x / max threshold (1 / 1000000000))"

definition trend_of :: "yield_config \<Rightarrow> string option \<Rightarrow> string \<Rightarrow> yield_observation list \<Rightarrow> branch_trend" where
  "trend_of c target branch observations =
     (let window = nat (yc_trend_window c);
          recent = take window observations;
          previous = take window (drop window observations);
          r = marginal_window_metrics recent; p = marginal_window_metrics previous;
          previous_yield = wm_assets p + wm_novel p;
          delta = wm_assets r + wm_novel r - previous_yield;
          enough = yc_trend_min_recent c \<le> int (length recent);
          low = enough \<and> wm_hit_rate r \<le> yc_low_hit_rate c \<and> wm_assets r \<le> yc_low_assets c
             \<and> wm_novel r \<le> yc_low_novel_assets c \<and> (previous = [] \<or> delta \<le> 0);
          decline = (if previous = [] then 0 else clamp01 (- delta / max (abs previous_yield) 1));
          signal = (if \<not> enough then 0
            else pressure (wm_hit_rate r) (yc_low_hit_rate c) * (35 / 100)
               + pressure (wm_assets r) (yc_low_assets c) * (30 / 100)
               + pressure (wm_novel r) (yc_low_novel_assets c) * (25 / 100)
               + decline * (10 / 100))
      in \<lparr>bt_target_key = target, bt_branch_id = branch,
          bt_recent_executions = int (length recent), bt_previous_executions = int (length previous),
          bt_recent_hit_rate = wm_hit_rate r, bt_previous_hit_rate = wm_hit_rate p,
          bt_recent_assets = wm_assets r, bt_previous_assets = wm_assets p,
          bt_recent_novel = wm_novel r, bt_previous_novel = wm_novel p,
          bt_delta = delta, bt_signal = clamp01 signal, bt_low_marginal = low,
          bt_reason =
            (if \<not> enough then ''insufficient recent execution history''
             else if low
             then ''recent branch executions show low hit rate, low new asset yield, low novelty, and no improvement''
             else ''branch still has productive or insufficiently converged recent yield'')\<rparr>)"

definition branch_trend_for ::
  "yield_model \<Rightarrow> string \<Rightarrow> string option \<Rightarrow> yield_store \<Rightarrow> branch_trend res" where
  "branch_trend_for ym branch target s =
     bind_res (make_yield_query (any_query\<lparr>yq_target_key := target, yq_branch_id := Some branch,
        yq_newest_first := True, yq_limit := Some (yc_trend_window (ym_config ym) * 2)\<rparr>)) (\<lambda>q.
     bind_res (yield_query_store q s) (\<lambda>ys. Inr (trend_of (ym_config ym) target branch ys)))"

subsection \<open>Feedback for the word list and the patterns\<close>

record feedback_sum =
  fs_attempts :: int
  fs_hits :: int
  fs_sources :: "string set"
  fs_observations :: "string list"

definition no_feedback :: feedback_sum where
  "no_feedback = \<lparr>fs_attempts = 0, fs_hits = 0, fs_sources = {}, fs_observations = []\<rparr>"

definition add_feedback :: "int \<Rightarrow> int \<Rightarrow> string set \<Rightarrow> string \<Rightarrow> feedback_sum \<Rightarrow> feedback_sum" where
  "add_feedback attempts hits sources oid f =
     \<lparr>fs_attempts = fs_attempts f + attempts, fs_hits = fs_hits f + hits, fs_sources = fs_sources f \<union> sources,
      fs_observations = (if length (fs_observations f) < 64 then fs_observations f @ [oid] else fs_observations f)\<rparr>"

fun count_tokens :: "string \<Rightarrow> token_credit list \<Rightarrow> (corpus_category \<times> string, feedback_sum) dict
    \<Rightarrow> (corpus_category \<times> string, feedback_sum) dict" where
  "count_tokens oid [] d = d"
| "count_tokens oid (c # cs) d =
     (case normalize_global_token (tc_token c) (tc_category c) of
        None \<Rightarrow> count_tokens oid cs d
      | Some n \<Rightarrow>
          let key = (tc_category c, canonical_token_key n (tc_category c))
          in count_tokens oid cs (dict_set key
               (add_feedback (tc_attempted c) (tc_hits c) (tc_source_ids c) oid (dict_default d key no_feedback)) d))"

fun count_all_tokens :: "yield_observation list \<Rightarrow> (corpus_category \<times> string, feedback_sum) dict
    \<Rightarrow> (corpus_category \<times> string, feedback_sum) dict" where
  "count_all_tokens [] d = d"
| "count_all_tokens (y # ys) d = count_all_tokens ys (count_tokens (yo_id y) (yo_token_credits y) d)"

record token_feedback =
  tf_token :: string
  tf_category :: corpus_category
  tf_attempted :: int
  tf_hits :: int
  tf_source_ids :: "string list"
  tf_observation_ids :: "string list"
  tf_target_key :: "string option"

text \<open>YieldFeedback(...) refuses negative counts and more hits than attempts.\<close>

definition make_token_feedback :: "token_feedback \<Rightarrow> token_feedback res" where
  "make_token_feedback f =
     bind_res (nonneg ''greater_than_equal'' [tf_attempted f, tf_hits f]) (\<lambda>_.
     if tf_attempted f < tf_hits f
     then Inl (ValidationError ''successful_hits cannot exceed attempted_hypotheses'') else Inr f)"

fun token_feedbacks :: "string option \<Rightarrow> ((corpus_category \<times> string) \<times> feedback_sum) list \<Rightarrow> token_feedback list res" where
  "token_feedbacks target [] = Inr []"
| "token_feedbacks target (((category, token), f) # rest) =
     bind_res (make_token_feedback \<lparr>tf_token = token, tf_category = category, tf_attempted = fs_attempts f,
        tf_hits = fs_hits f, tf_source_ids = sorted_list_of_set (fs_sources f),
        tf_observation_ids = fs_observations f, tf_target_key = target\<rparr>) (\<lambda>x.
     bind_res (token_feedbacks target rest) (\<lambda>xs. Inr (x # xs)))"

definition wordlist_feedback_for :: "(string \<Rightarrow> string option) \<Rightarrow> event \<Rightarrow> yield_store \<Rightarrow> token_feedback list res" where
  "wordlist_feedback_for idna seed s =
     (let target = target_key_for_event idna seed in
      bind_res (make_yield_query (any_query\<lparr>yq_target_key := target\<rparr>)) (\<lambda>q.
      bind_res (yield_query_store q s) (\<lambda>ys.
        token_feedbacks target
          (sort_key (\<lambda>(k, f). (category_value (fst k), snd k)) (count_all_tokens ys [])))))"

fun count_patterns :: "string \<Rightarrow> pattern_credit list \<Rightarrow> (string, feedback_sum) dict \<Rightarrow> (string, feedback_sum) dict" where
  "count_patterns oid [] d = d"
| "count_patterns oid (c # cs) d = count_patterns oid cs (dict_set (pc_pattern_id c)
     (add_feedback (pc_attempted c) (pc_hits c) {} oid (dict_default d (pc_pattern_id c) no_feedback)) d)"

fun count_all_patterns :: "yield_observation list \<Rightarrow> (string, feedback_sum) dict \<Rightarrow> (string, feedback_sum) dict" where
  "count_all_patterns [] d = d"
| "count_all_patterns (y # ys) d = count_all_patterns ys (count_patterns (yo_id y) (yo_pattern_credits y) d)"

record pattern_feedback =
  pf_pattern_id :: string
  pf_attempted :: int
  pf_hits :: int
  pf_observation_ids :: "string list"
  pf_target_key :: "string option"

definition make_pattern_feedback :: "pattern_feedback \<Rightarrow> pattern_feedback res" where
  "make_pattern_feedback f =
     bind_res (not_blank ''pattern_id must not be blank'' (pf_pattern_id f)) (\<lambda>pid.
     bind_res (nonneg ''greater_than_equal'' [pf_attempted f, pf_hits f]) (\<lambda>_.
     if pf_attempted f < pf_hits f
     then Inl (ValidationError ''successful_hits cannot exceed attempted_hypotheses'')
     else Inr (f\<lparr>pf_pattern_id := pid\<rparr>)))"

fun pattern_feedbacks :: "string option \<Rightarrow> (string \<times> feedback_sum) list \<Rightarrow> pattern_feedback list res" where
  "pattern_feedbacks target [] = Inr []"
| "pattern_feedbacks target ((pid, f) # rest) =
     bind_res (make_pattern_feedback \<lparr>pf_pattern_id = pid, pf_attempted = fs_attempts f, pf_hits = fs_hits f,
        pf_observation_ids = fs_observations f, pf_target_key = target\<rparr>) (\<lambda>x.
     bind_res (pattern_feedbacks target rest) (\<lambda>xs. Inr (x # xs)))"

definition pattern_feedback_for :: "(string \<Rightarrow> string option) \<Rightarrow> event \<Rightarrow> yield_store \<Rightarrow> pattern_feedback list res" where
  "pattern_feedback_for idna seed s =
     (let target = target_key_for_event idna seed in
      bind_res (make_yield_query (any_query\<lparr>yq_target_key := target\<rparr>)) (\<lambda>q.
      bind_res (yield_query_store q s) (\<lambda>ys.
        pattern_feedbacks target (sort_key fst (count_all_patterns ys [])))))"

subsection \<open>The observation of an executed task\<close>

text \<open>\<open>y\<close> holds the arguments that are handed over unchanged; the fields taken from the task and its input event
  are overwritten.\<close>

definition yield_observation_from_task ::
  "(string \<Rightarrow> string option) \<Rightarrow> nat \<Rightarrow> time \<Rightarrow> task \<Rightarrow> event option \<Rightarrow> yield_observation \<Rightarrow> yield_observation res" where
  "yield_observation_from_task idna uuid now t input y =
     make_yield_observation (y\<lparr>yo_id := new_yield_observation_id uuid, yo_observed_at := now,
       yo_task_id := Some (t_task_id t), yo_input_event_id := Some (t_input_event_id t),
       yo_target_key := (case input of None \<Rightarrow> None | Some e \<Rightarrow> target_key_for_event idna e),
       yo_branch_id := t_branch_id t, yo_worker := t_worker t, yo_action := t_action t,
       yo_route_rule_id := t_route_rule_id t,
       yo_input_source := (case input of None \<Rightarrow> None | Some e \<Rightarrow> Some (ev_source e))\<rparr>)"

end
