(* ===== verification/Yield_Properties.thy ===== *)
theory Yield_Properties
  imports Yield_Feedback
begin

section \<open>Bounds and totality of the yield model\<close>

text \<open>
  Stores reached by appending validated observations, the aggregates of their queries, and the bounds the
  constructors of estimates and trends check: with them no clamping is ever needed.
\<close>

declare split_paired_All [simp del] split_paired_Ex [simp del]

subsection \<open>Valid observations and reachable stores\<close>

definition observation_ok :: "yield_observation \<Rightarrow> bool" where
  "observation_ok y \<longleftrightarrow> make_yield_observation y = Inr y
     \<and> list_all (\<lambda>c. make_token_credit c = Inr c) (yo_token_credits y)
     \<and> list_all (\<lambda>c. make_pattern_credit c = Inr c) (yo_pattern_credits y)"

inductive yield_reachable :: "yield_store \<Rightarrow> bool" where
  no_observations: "yield_reachable []"
| appended: "yield_reachable s \<Longrightarrow> observation_ok y \<Longrightarrow> yield_reachable (snd (yield_append y s))"

lemma nonneg_Inr [simp]: "nonneg msg xs = Inr () \<longleftrightarrow> list_all (\<lambda>x. 0 \<le> x) xs"
  by (simp add: nonneg_def)

lemma observation_counts:
  assumes "observation_ok y"
  shows "0 \<le> yo_hits y" "yo_hits y \<le> yo_attempted y" "0 \<le> yo_novel_assets y" "yo_novel_assets y \<le> yo_new_assets y"
    "0 < yo_cost_units y" "0 \<le> yo_request_count y" "0 \<le> yo_runtime_seconds y"
  using assms by (auto simp: observation_ok_def make_yield_observation_def bind_res_Inr_iff split: if_splits)

lemma token_credit_counts:
  assumes "make_token_credit c = Inr c"
  shows "0 \<le> tc_hits c" "tc_hits c \<le> tc_attempted c" "0 \<le> tc_novel_assets c" "tc_novel_assets c \<le> tc_new_assets c"
  using assms by (auto simp: make_token_credit_def bind_res_Inr_iff split: if_splits)

lemma pattern_credit_counts:
  assumes "make_pattern_credit c = Inr c"
  shows "0 \<le> pc_hits c" "pc_hits c \<le> pc_attempted c" "0 \<le> pc_novel_assets c" "pc_novel_assets c \<le> pc_new_assets c"
    "strip (pc_pattern_id c) = pc_pattern_id c" "pc_pattern_id c \<noteq> []"
  using assms by (auto simp: make_pattern_credit_def bind_res_Inr_iff not_blank_Inr split: if_splits
      dest: arg_cong[where f=pc_pattern_id])

definition yield_store_ok :: "yield_store \<Rightarrow> bool" where
  "yield_store_ok s \<longleftrightarrow> dict_ok s \<and> (\<forall>(k, y) \<in> set s. yo_id y = k \<and> observation_ok y)"

lemma yield_append_fresh: "dict_get s (yo_id y) = None \<Longrightarrow> yield_append y s = (Inr True, s @ [(yo_id y, y)])"
  by (simp add: yield_append_def dict_set_fresh)

lemma yield_append_known: "dict_get s (yo_id y) \<noteq> None \<Longrightarrow> yield_append y s = (Inr False, s)"
  by (simp add: yield_append_def)

lemma yield_reachable_ok: "yield_reachable s \<Longrightarrow> yield_store_ok s"
proof (induction rule: yield_reachable.induct)
  case (appended s y)
  show ?case
  proof (cases "dict_get s (yo_id y)")
    case None
    with appended show ?thesis by (auto simp: yield_append_fresh yield_store_ok_def map_of_eq_None_iff)
  next
    case (Some z)
    with appended show ?thesis by (simp add: yield_append_known)
  qed
qed (simp add: yield_store_ok_def)

lemma store_values_ok: "yield_store_ok s \<Longrightarrow> y \<in> set (dict_values s) \<Longrightarrow> observation_ok y"
  by (auto simp: yield_store_ok_def)

subsection \<open>Queries\<close>

text \<open>The only failure of a query is the assertion on a token without a category.\<close>

definition query_total :: "yield_query \<Rightarrow> bool" where
  "query_total q \<longleftrightarrow> (yq_token q \<noteq> None \<longrightarrow> yq_token_category q \<noteq> None)"

lemma if_Inr_total: "\<exists>b. r = Inr b \<Longrightarrow> \<exists>b. (if c then Inr x else r) = Inr b"
  by simp

lemma observation_matches_total: "query_total q \<Longrightarrow> \<exists>b. observation_matches_query y q = Inr b"
  unfolding observation_matches_query_def
  by (intro if_Inr_total) (cases "yq_token q"; cases "yq_token_category q"; auto simp: query_total_def)

definition matched :: "yield_query \<Rightarrow> yield_observation list \<Rightarrow> yield_observation list" where
  "matched q ys = filter (\<lambda>y. observation_matches_query y q = Inr True) ys"

lemma matching_observations_total:
  assumes "query_total q"
  shows "matching_observations q ys = Inr (matched q ys)"
proof (induction ys)
  case (Cons y ys)
  obtain b where "observation_matches_query y q = Inr b" using observation_matches_total[OF assms] by blast
  with Cons show ?case by (cases b) (simp_all add: matched_def)
qed (simp add: matched_def)

definition ordered :: "yield_query \<Rightarrow> yield_observation list \<Rightarrow> yield_observation list" where
  "ordered q ys = (if yq_newest_first q then sort_desc observation_key ys else sort_key observation_key ys)"

lemma mset_ordered [simp]: "mset (ordered q ys) = mset ys"
  by (simp add: ordered_def)

lemma set_ordered [simp]: "set (ordered q ys) = set ys"
  by (simp add: ordered_def)

lemma yield_query_store_total:
  assumes "query_total q"
  shows "yield_query_store q s = Inr (case yq_limit q of None \<Rightarrow> ordered q (matched q (dict_values s))
     | Some n \<Rightarrow> slice_to (ordered q (matched q (dict_values s))) n)"
  by (simp add: yield_query_store_def matching_observations_total[OF assms] ordered_def Let_def split: option.split)

lemma query_results_ok:
  assumes "yield_store_ok s" and "yield_query_store q s = Inr ys" and "query_total q"
  shows "list_all observation_ok ys"
proof -
  have "set ys \<subseteq> set (dict_values s)"
    using assms(2) set_slice_to unfolding yield_query_store_total[OF assms(3)]
    by (fastforce simp: matched_def split: option.splits)
  with store_values_ok[OF assms(1)] show ?thesis unfolding list_all_iff by blast
qed

subsection \<open>Aggregates\<close>

definition aggregate_ok :: "yield_aggregate \<Rightarrow> bool" where
  "aggregate_ok a \<longleftrightarrow> 0 \<le> ya_hits a \<and> ya_hits a \<le> ya_attempted a \<and> 0 \<le> ya_novel_assets a
     \<and> ya_novel_assets a \<le> ya_new_assets a \<and> 0 \<le> ya_succeeded a \<and> 0 \<le> ya_retry a \<and> 0 \<le> ya_failed a
     \<and> ya_succeeded a + ya_retry a + ya_failed a = ya_executions a \<and> 0 \<le> ya_cost_units a"

lemma outcome_counts:
  "outcome_count YO_SUCCEEDED ys + outcome_count YO_RETRY ys + outcome_count YO_FAILED ys = int (length ys)"
proof (induction ys)
  case (Cons y ys)
  then show ?case by (cases "yo_outcome y") (simp_all add: outcome_count_def)
qed (simp add: outcome_count_def)

lemma outcome_count_nonneg [simp]: "0 \<le> outcome_count r ys"
  by (simp add: outcome_count_def)

lemma sum_list_mono_int:
  fixes f g :: "'a \<Rightarrow> int"
  shows "(\<And>x. x \<in> set xs \<Longrightarrow> f x \<le> g x) \<Longrightarrow> sum_list (map f xs) \<le> sum_list (map g xs)"
  by (rule sum_list_mono)

lemma sum_list_nonneg_map:
  fixes f :: "'a \<Rightarrow> 'b::ordered_comm_monoid_add"
  shows "(\<And>x. x \<in> set xs \<Longrightarrow> 0 \<le> f x) \<Longrightarrow> 0 \<le> sum_list (map f xs)"
  by (induction xs) auto

lemma aggregate_observations_ok:
  assumes "list_all observation_ok ys"
  shows "aggregate_ok (aggregate_observations ys)"
proof -
  have o: "observation_ok y" if "y \<in> set ys" for y using that assms by (simp add: list_all_iff)
  have "0 \<le> sum_list (map yo_hits ys)" "0 \<le> sum_list (map yo_novel_assets ys)" "0 \<le> sum_list (map yo_cost_units ys)"
    by (rule sum_list_nonneg_map, simp add: observation_counts[OF o] less_imp_le)+
  moreover have "sum_list (map yo_hits ys) \<le> sum_list (map yo_attempted ys)"
    "sum_list (map yo_novel_assets ys) \<le> sum_list (map yo_new_assets ys)"
    by (rule sum_list_mono, simp add: observation_counts[OF o])+
  ultimately show ?thesis
    using outcome_counts[of ys] by (simp add: aggregate_observations_def aggregate_ok_def empty_aggregate_def)
qed

definition credit_sum_ok :: "credit_sum \<Rightarrow> bool" where
  "credit_sum_ok c \<longleftrightarrow> 0 \<le> cr_hits c \<and> cr_hits c \<le> cr_attempts c
     \<and> 0 \<le> cr_novel_assets c \<and> cr_novel_assets c \<le> cr_new_assets c"

lemma sum_token_credits_ok:
  assumes "list_all (\<lambda>c. make_token_credit c = Inr c) cs"
  shows "credit_sum_ok (sum_token_credits (filter P cs))"
proof -
  have "make_token_credit c = Inr c" if "c \<in> set (filter P cs)" for c using that assms by (simp add: list_all_iff)
  note token_credit_counts[OF this]
  then show ?thesis unfolding sum_token_credits_def credit_sum_ok_def credit_sum.simps
    by (intro conjI sum_list_nonneg_map sum_list_mono)
qed

lemma sum_pattern_credits_ok:
  assumes "list_all (\<lambda>c. make_pattern_credit c = Inr c) cs"
  shows "credit_sum_ok (sum_pattern_credits (filter P cs))"
proof -
  have "make_pattern_credit c = Inr c" if "c \<in> set (filter P cs)" for c using that assms by (simp add: list_all_iff)
  note pattern_credit_counts(1-4)[OF this]
  then show ?thesis unfolding sum_pattern_credits_def credit_sum_ok_def credit_sum.simps
    by (intro conjI sum_list_nonneg_map sum_list_mono)
qed

lemma matching_credit_total:
  assumes "query_total q" and "observation_ok y"
  shows "\<exists>c. matching_credit q y = Inr c \<and> credit_sum_ok c"
proof -
  have "credit_sum_ok (sum_pattern_credits [])" by (simp add: sum_pattern_credits_def credit_sum_ok_def)
  moreover have "credit_sum_ok (sum_token_credits (filter P (yo_token_credits y)))"
    "credit_sum_ok (sum_pattern_credits (filter R (yo_pattern_credits y)))" for P R
    using assms(2) sum_token_credits_ok sum_pattern_credits_ok unfolding observation_ok_def by blast+
  ultimately show ?thesis using assms(1) unfolding matching_credit_def query_total_def
    by (cases "yq_token q"; cases "yq_token_category q"; cases "yq_pattern_id q") simp_all
qed

definition credit_ok :: "yield_observation \<times> credit_sum \<Rightarrow> bool" where
  "credit_ok = (\<lambda>(y, c). observation_ok y \<and> credit_sum_ok c)"

lemma matching_credits_total:
  assumes "query_total q"
  shows "list_all observation_ok ys \<Longrightarrow> \<exists>cs. matching_credits q ys = Inr cs \<and> list_all credit_ok cs"
proof (induction ys)
  case (Cons y ys)
  then obtain cs where cs: "matching_credits q ys = Inr cs" "list_all credit_ok cs" by auto
  from Cons.prems have y: "observation_ok y" by simp
  from matching_credit_total[OF assms y] obtain c where "matching_credit q y = Inr c" "credit_ok (y, c)"
    using y by (auto simp: credit_ok_def)
  with cs show ?case by simp
qed simp

lemma aggregate_credits_ok:
  assumes "list_all credit_ok cs"
  shows "aggregate_ok (aggregate_credits cs)"
proof -
  have o: "credit_ok x" if "x \<in> set cs" for x using that assms by (simp add: list_all_iff)
  have "0 \<le> (cr_hits \<circ> snd) x" "(cr_hits \<circ> snd) x \<le> (cr_attempts \<circ> snd) x" "0 \<le> (cr_novel_assets \<circ> snd) x"
    "(cr_novel_assets \<circ> snd) x \<le> (cr_new_assets \<circ> snd) x" "0 \<le> (\<lambda>(y, c). yo_cost_units y * credit_fraction y c) x"
    if "x \<in> set cs" for x
    using o[OF that] observation_counts(5)[of "fst x"] by (auto simp: credit_ok_def credit_sum_ok_def credit_fraction_def case_prod_beta)
  then have "0 \<le> sum_list (map (cr_hits \<circ> snd) cs)" "0 \<le> sum_list (map (cr_novel_assets \<circ> snd) cs)"
    "sum_list (map (cr_hits \<circ> snd) cs) \<le> sum_list (map (cr_attempts \<circ> snd) cs)"
    "sum_list (map (cr_novel_assets \<circ> snd) cs) \<le> sum_list (map (cr_new_assets \<circ> snd) cs)"
    "0 \<le> apportioned yo_cost_units cs"
    unfolding apportioned_def by (blast intro: sum_list_nonneg_map sum_list_mono)+
  then show ?thesis
    using outcome_counts[of "map fst cs"] by (simp add: aggregate_credits_def aggregate_ok_def empty_aggregate_def)
qed

lemma yield_aggregate_total:
  assumes "yield_store_ok s" and "query_total q"
  shows "\<exists>a. yield_aggregate_store q s = Inr a \<and> aggregate_ok a"
proof -
  have t: "query_total (q\<lparr>yq_limit := None\<rparr>)" using assms(2) by (simp add: query_total_def)
  obtain ys where ys: "yield_query_store (q\<lparr>yq_limit := None\<rparr>) s = Inr ys" using yield_query_store_total[OF t] by blast
  note ok = query_results_ok[OF assms(1) ys t]
  have "aggregate_ok empty_aggregate" by (simp add: aggregate_ok_def empty_aggregate_def)
  with matching_credits_total[OF assms(2) ok] aggregate_credits_ok aggregate_observations_ok[OF ok]
  show ?thesis by (auto simp: yield_aggregate_store_def ys aggregate_observations_for_query_def)
qed

subsection \<open>Estimates\<close>

text \<open>What the model relies on of \<open>math.exp\<close> and \<open>math.sqrt\<close>.\<close>

definition libm_ok :: "libm \<Rightarrow> bool" where
  "libm_ok m \<longleftrightarrow> (\<forall>x \<le> 0. 0 \<le> lm_exp m x \<and> lm_exp m x \<le> 1) \<and> (\<forall>x \<ge> 1. 1 \<le> lm_sqrt m x)
     \<and> (\<forall>x. 0 \<le> x \<and> x \<le> 1 / 4 \<longrightarrow> 0 \<le> lm_sqrt m x \<and> lm_sqrt m x \<le> 1 / 2)"

lemma clamp01_bounds: "0 \<le> clamp01 x \<and> clamp01 x \<le> 1"
  by (simp add: clamp01_def)

lemma clamp01_id: "0 \<le> x \<Longrightarrow> x \<le> 1 \<Longrightarrow> clamp01 x = x"
  by (simp add: clamp01_def)

lemma beta_posterior_bounds:
  assumes "0 \<le> a" and "0 \<le> b" and "0 < alpha" and "0 < beta"
  shows "\<exists>x. beta_posterior_mean a b alpha beta = Inr x \<and> 0 < x \<and> x < 1"
proof -
  have ab: "(0::rat) \<le> of_int a" "(0::rat) \<le> of_int b" using assms(1,2) by simp_all
  have "0 < of_int a + of_int b + alpha + beta" "0 < of_int a + alpha"
    "of_int a + alpha < of_int a + of_int b + alpha + beta"
    using assms(3,4) ab by linarith+
  then show ?thesis by (auto simp: beta_posterior_mean_def Let_def)
qed

text \<open>A mean with weights that are not all zero stays between the bounds of what it averages.\<close>

lemma weighted_bounds:
  fixes n :: "'a::linordered_field"
  assumes "0 < d" and "l * d \<le> n" and "n \<le> u * d"
  shows "l \<le> n / d \<and> n / d \<le> u"
  using assms by (simp add: field_simps)

lemma weighted_yield_bounds:
  assumes c: "yield_config_ok c" and b: "0 \<le> h" "h \<le> 1" "0 \<le> d" "d \<le> 1" "0 \<le> n" "n \<le> 1" "0 \<le> r" "r \<le> 1"
  shows "0 \<le> weighted_yield c h d n r \<and> weighted_yield c h d n r \<le> 1"
proof -
  have w: "0 \<le> yc_hit_weight c" "0 \<le> yc_discovery_weight c" "0 \<le> yc_novelty_weight c" "0 \<le> yc_reliability_weight c"
    "0 < yc_hit_weight c + yc_discovery_weight c + yc_novelty_weight c + yc_reliability_weight c"
    using c by (simp_all add: yield_config_ok_def)
  have "h * yc_hit_weight c \<le> yc_hit_weight c" "d * yc_discovery_weight c \<le> yc_discovery_weight c"
    "n * yc_novelty_weight c \<le> yc_novelty_weight c" "r * yc_reliability_weight c \<le> yc_reliability_weight c"
    using b w by (simp_all add: mult_left_le_one_le)
  then show ?thesis unfolding weighted_yield_def using b w by (intro weighted_bounds) simp_all
qed

end
