(* ===== verification/Yield_Guarantees.thy ===== *)
theory Yield_Guarantees
  imports Yield_Properties Queue_Properties Router_Properties
begin

section \<open>What the yield model guarantees\<close>

text \<open>
  The properties of recon/intelligence/yield_model.py: what appending an observation changes, estimates that stay
  in [0, 1] without clamping and signals the scheduler accepts, and the exact feedback of the adapters.
\<close>

declare split_paired_All [simp del] split_paired_Ex [simp del]

subsection \<open>Estimates\<close>

lemma rate_of_nonneg: "0 \<le> a \<Longrightarrow> 0 \<le> rate_of a b"
  by (simp add: rate_of_def)

definition fair_estimate :: "libm \<Rightarrow> yield_config \<Rightarrow> yield_aggregate \<Rightarrow> yield_estimate \<Rightarrow> bool" where
  "fair_estimate m c a e \<longleftrightarrow> ye_aggregate e = a
     \<and> ye_posterior_hit_rate e = (of_int (ya_hits a) + yc_hit_prior_alpha c)
         / (of_int (ya_attempted a) + yc_hit_prior_alpha c + yc_hit_prior_beta c)
     \<and> ye_discovery_score e = discovery_score m c a
     \<and> ye_expected_yield e = weighted_yield c (ye_posterior_hit_rate e) (ye_discovery_score e) (ye_novelty_score e)
         (ye_execution_reliability e)
     \<and> ye_uncertainty e = uncertainty_of m a
     \<and> list_all (\<lambda>x. 0 \<le> x \<and> x \<le> 1) [ye_posterior_hit_rate e, ye_discovery_score e, ye_novelty_score e,
         ye_execution_reliability e, ye_expected_yield e, ye_uncertainty e]
     \<and> 0 < ye_estimated_cost e \<and> 0 \<le> ye_sample_size e"

lemma discovery_score_bounds:
  assumes "aggregate_ok a" and "yield_config_ok c" and "libm_ok m"
  shows "0 \<le> discovery_score m c a \<and> discovery_score m c a \<le> 1"
proof -
  have "0 \<le> rate_of (ya_new_assets a) (ya_attempted a)" using assms(1) by (intro rate_of_nonneg) (auto simp: aggregate_ok_def)
  moreover have "0 < yc_discovery_saturation c" using assms(2) by (simp add: yield_config_ok_def)
  ultimately have "- rate_of (ya_new_assets a) (ya_attempted a) / yc_discovery_saturation c \<le> 0" by simp
  with assms(3) show ?thesis unfolding discovery_score_def libm_ok_def by fastforce
qed

lemma uncertainty_bounds:
  assumes "aggregate_ok a" and "libm_ok m"
  shows "0 \<le> uncertainty_of m a \<and> uncertainty_of m a \<le> 1"
proof -
  have "0 \<le> ya_attempted a" using assms(1) by (auto simp: aggregate_ok_def)
  then have "1 \<le> sample_size a + 1" by (simp add: sample_size_def le_max_iff_disj)
  with assms(2) have "1 \<le> lm_sqrt m (sample_size a + 1)" unfolding libm_ok_def by blast
  then show ?thesis by (simp add: uncertainty_of_def)
qed

lemma estimate_total:
  assumes a: "aggregate_ok a" and c: "yield_config_ok c" and m: "libm_ok m"
  shows "\<exists>e. estimate_from_aggregate m c q a = Inr e \<and> fair_estimate m c a e"
proof -
  have p: "0 < yc_hit_prior_alpha c" "0 < yc_hit_prior_beta c" "0 < yc_novelty_prior_alpha c" "0 < yc_novelty_prior_beta c"
    "0 < yc_execution_prior_alpha c" "0 < yc_execution_prior_beta c"
    using c by (simp_all add: yield_config_ok_def)
  have n: "0 \<le> ya_hits a" "0 \<le> ya_novel_assets a" "0 \<le> ya_succeeded a" "0 \<le> ya_retry a + ya_failed a"
    "ya_hits a \<le> ya_attempted a" using a by (simp_all add: aggregate_ok_def)
  obtain h where h: "beta_posterior_mean (ya_hits a) (max 0 (ya_attempted a - ya_hits a)) (yc_hit_prior_alpha c) (yc_hit_prior_beta c) = Inr h"
    "0 < h" "h < 1" using beta_posterior_bounds[OF n(1) _ p(1,2)] by (metis max.cobounded1)
  obtain v where v: "beta_posterior_mean (ya_novel_assets a) (max 0 (ya_new_assets a - ya_novel_assets a)) (yc_novelty_prior_alpha c) (yc_novelty_prior_beta c) = Inr v"
    "0 < v" "v < 1" using beta_posterior_bounds[OF n(2) _ p(3,4)] by (metis max.cobounded1)
  obtain r where r: "beta_posterior_mean (ya_succeeded a) (ya_retry a + ya_failed a) (yc_execution_prior_alpha c) (yc_execution_prior_beta c) = Inr r"
    "0 < r" "r < 1" using beta_posterior_bounds[OF n(3,4) p(5,6)] by blast
  note d = discovery_score_bounds[OF a c m] and u = uncertainty_bounds[OF a m]
  have w: "0 \<le> weighted_yield c h (discovery_score m c a) v r" "weighted_yield c h (discovery_score m c a) v r \<le> 1"
    using weighted_yield_bounds[OF c, of h "discovery_score m c a" v r] h v r d by simp_all
  have hv: "h = (of_int (ya_hits a) + yc_hit_prior_alpha c) / (of_int (ya_attempted a) + yc_hit_prior_alpha c + yc_hit_prior_beta c)"
    using h(1) n(5) by (simp add: beta_posterior_mean_def Let_def max_def split: if_splits)
  have s: "0 \<le> sample_size a" using n(1,5) by (simp add: sample_size_def le_max_iff_disj)
  have f: "0 < floor_cost x" for x by (simp add: floor_cost_def less_max_iff_disj)
  show ?thesis using h v r d u w s f unfolding estimate_from_aggregate_def
    by (auto simp: fair_estimate_def clamp01_id hv[symmetric])
qed

lemma make_query_plain:
  assumes "yq_token q = None" and "yq_token_category q = None" and "yq_since q = None" and "yq_until q = None"
    and "case yq_limit q of None \<Rightarrow> True | Some n \<Rightarrow> 1 \<le> n"
  shows "\<exists>q'. make_yield_query q = Inr q' \<and> query_total q' \<and> yq_limit q' = yq_limit q
    \<and> yq_newest_first q' = yq_newest_first q \<and> yq_token q' = None \<and> yq_pattern_id q' = opt_text (yq_pattern_id q)"
  using assms by (auto simp: make_yield_query_def query_total_def Let_def split: option.splits)

lemma estimate_query_total:
  assumes "yield_store_ok s" and "yield_config_ok (ym_config ym)" and "libm_ok (ym_libm ym)"
    and "make_yield_query q = Inr q'" and "query_total q'"
  shows "\<exists>a e. yield_aggregate_store q' s = Inr a \<and> aggregate_ok a \<and> estimate_query ym q s = Inr e
    \<and> fair_estimate (ym_libm ym) (ym_config ym) a e"
proof -
  obtain a where a: "yield_aggregate_store q' s = Inr a" "aggregate_ok a" using yield_aggregate_total[OF assms(1,5)] by blast
  with estimate_total[OF a(2) assms(2,3), of q'] assms(4) show ?thesis by (auto simp: estimate_query_def yield_estimate_for_def)
qed

subsection \<open>The blend of a task\<close>

definition fair_component :: "task_component \<Rightarrow> bool" where
  "fair_component k \<longleftrightarrow> 0 \<le> tk_applied_weight k \<and> 0 \<le> ye_expected_yield (tk_estimate k) \<and> ye_expected_yield (tk_estimate k) \<le> 1
     \<and> 0 \<le> ye_uncertainty (tk_estimate k) \<and> ye_uncertainty (tk_estimate k) \<le> 1 \<and> 0 < ye_estimated_cost (tk_estimate k)"

lemma reliability_nonneg:
  assumes "0 < h"
  shows "0 \<le> component_reliability a h \<and> component_reliability a h \<le> 1"
  using assms by (auto simp: component_reliability_def field_simps)

lemma task_components_total:
  assumes "yield_store_ok s" and "yield_config_ok (ym_config ym)" and "libm_ok (ym_libm ym)"
  shows "list_all (\<lambda>(n, w, q). 0 < w \<and> (\<exists>q'. make_yield_query q = Inr q' \<and> query_total q')) specs
    \<Longrightarrow> \<exists>cs. task_components ym s specs = Inr cs \<and> list_all fair_component cs \<and> map tk_name cs = map fst specs"
proof (induction specs)
  case (Cons x specs)
  obtain n w q where x: "x = (n, w, q)" by (cases x)
  with Cons.prems obtain q' where q: "0 < w" "make_yield_query q = Inr q'" "query_total q'" by auto
  obtain a e where e: "estimate_query ym q s = Inr e" "fair_estimate (ym_libm ym) (ym_config ym) a e"
    using estimate_query_total[OF assms q(2,3)] by blast
  have "0 < yc_reliability_half_life (ym_config ym)" using assms(2) by (simp add: yield_config_ok_def)
  note reliability_nonneg[OF this, of "ye_aggregate e"]
  with e(2) q(1) Cons show ?case by (auto simp: x e(1) Let_def fair_component_def fair_estimate_def)
qed simp

lemma blend_bounds:
  assumes "list_all fair_component cs" and "0 < w" and "l \<le> p" and "p \<le> u"
    and "\<And>k. fair_component k \<Longrightarrow> l \<le> f (tk_estimate k) \<and> f (tk_estimate k) \<le> u"
  shows "l \<le> blend p w f cs \<and> blend p w f cs \<le> u"
proof -
  let ?W = "sum_list (map tk_applied_weight (weighty cs))"
  have k: "0 \<le> tk_applied_weight k \<and> l \<le> f (tk_estimate k) \<and> f (tk_estimate k) \<le> u" if "k \<in> set (weighty cs)" for k
  proof -
    from that assms(1) have "fair_component k" by (simp add: weighty_def list_all_iff)
    with assms(5) show ?thesis by (simp add: fair_component_def)
  qed
  have "sum_list (map (\<lambda>k. l * tk_applied_weight k) (weighty cs)) \<le> sum_list (map (\<lambda>k. f (tk_estimate k) * tk_applied_weight k) (weighty cs))"
    "sum_list (map (\<lambda>k. f (tk_estimate k) * tk_applied_weight k) (weighty cs)) \<le> sum_list (map (\<lambda>k. u * tk_applied_weight k) (weighty cs))"
    by (rule sum_list_mono, simp add: k mult_right_mono)+
  then have "l * ?W \<le> sum_list (map (\<lambda>k. f (tk_estimate k) * tk_applied_weight k) (weighty cs))"
    "sum_list (map (\<lambda>k. f (tk_estimate k) * tk_applied_weight k) (weighty cs)) \<le> u * ?W"
    by (simp_all add: sum_list_const_mult)
  moreover have "l * w \<le> p * w" "p * w \<le> u * w" using assms(2-4) by simp_all
  moreover have "0 \<le> ?W" by (rule sum_list_nonneg_map) (simp add: k)
  ultimately show ?thesis unfolding blend_def using assms(2)
    by (intro weighted_bounds) (simp_all add: distrib_left add_mono)
qed

lemma component_specs_fair:
  assumes "yield_config_ok c"
  shows "list_all (\<lambda>(n, w, q). 0 < w \<and> (\<exists>q'. make_yield_query q = Inr q' \<and> query_total q')) (component_specs c t target src)"
proof -
  have q: "\<exists>q'. make_yield_query q = Inr q' \<and> query_total q'"
    if "yq_token q = None" "yq_token_category q = None" "yq_since q = None" "yq_until q = None" "yq_limit q = None" for q
    using make_query_plain[OF that(1-4)] that(5) by auto
  have w: "0 < yc_target_weight c" "0 < yc_worker_weight c" "0 < yc_worker_action_weight c" "0 < yc_route_weight c"
    "0 < yc_branch_weight c" "0 < yc_input_source_weight c" using assms by (simp_all add: yield_config_ok_def)
  show ?thesis unfolding component_specs_def Let_def using w by (simp add: q any_query_def)
qed

lemma task_estimate_total:
  assumes "yield_store_ok s" and c: "yield_config_ok (ym_config ym)" and "libm_ok (ym_libm ym)"
  shows "\<exists>e. task_estimate ym t input s = Inr e \<and> list_all fair_component (ty_components e)
    \<and> ty_expected_yield e = blend (prior_hit_mean (ym_config ym)) (yc_prior_component_weight (ym_config ym))
        ye_expected_yield (ty_components e)
    \<and> 0 \<le> ty_expected_yield e \<and> ty_expected_yield e \<le> 1
    \<and> 0 \<le> ty_information_gain e \<and> ty_information_gain e \<le> 1 \<and> 0 < ty_estimated_cost e"
proof -
  let ?specs = "component_specs (ym_config ym) t (case input of None \<Rightarrow> None | Some e \<Rightarrow> target_key_for_event (ym_idna ym) e)
     (case input of None \<Rightarrow> None | Some e \<Rightarrow> Some (ev_source e))"
  obtain cs where cs: "task_components ym s ?specs = Inr cs" "list_all fair_component cs"
    using task_components_total[OF assms component_specs_fair[OF c]] by blast
  have pos: "0 < yc_prior_component_weight (ym_config ym)" "0 < yc_hit_prior_alpha (ym_config ym)" "0 < yc_hit_prior_beta (ym_config ym)"
    using c by (simp_all add: yield_config_ok_def)
  have prior: "0 \<le> prior_hit_mean (ym_config ym)" "prior_hit_mean (ym_config ym) \<le> 1"
    using pos(2,3) by (simp_all add: prior_hit_mean_def)
  note b = blend_bounds[OF cs(2) pos(1) prior, of ye_expected_yield]
  have f: "0 < floor_cost x" for x by (simp add: floor_cost_def less_max_iff_disj)
  show ?thesis using cs b unfolding task_estimate_def Let_def
    by (auto simp: blend_task_def Let_def clamp01_id fair_component_def clamp01_bounds f)
qed

subsection \<open>The feedback of the adapters\<close>

definition credit_key :: "token_credit \<Rightarrow> (corpus_category \<times> string) option" where
  "credit_key c = map_option (\<lambda>n. (tc_category c, canonical_token_key n (tc_category c)))
     (normalize_global_token (tc_token c) (tc_category c))"

definition credits_for :: "corpus_category \<times> string \<Rightarrow> token_credit list \<Rightarrow> token_credit list" where
  "credits_for k cs = filter (\<lambda>c. credit_key c = Some k) cs"

definition all_credits :: "yield_observation list \<Rightarrow> token_credit list" where
  "all_credits ys = concat (map yo_token_credits ys)"

lemma count_tokens_sums:
  "fs_attempts (dict_default (count_tokens oid cs d) k no_feedback)
     = fs_attempts (dict_default d k no_feedback) + sum_list (map tc_attempted (credits_for k cs))
   \<and> fs_hits (dict_default (count_tokens oid cs d) k no_feedback)
     = fs_hits (dict_default d k no_feedback) + sum_list (map tc_hits (credits_for k cs))
   \<and> (dict_get (count_tokens oid cs d) k \<noteq> None \<longleftrightarrow> dict_get d k \<noteq> None \<or> credits_for k cs \<noteq> [])
   \<and> (dict_ok d \<longrightarrow> dict_ok (count_tokens oid cs d))"
proof (induction cs arbitrary: d)
  case (Cons c cs)
  show ?case
  proof (cases "normalize_global_token (tc_token c) (tc_category c)")
    case None
    with Cons[of d] show ?thesis by (simp add: credits_for_def credit_key_def)
  next
    case (Some n)
    let ?k = "(tc_category c, canonical_token_key n (tc_category c))"
    let ?d = "dict_set ?k (add_feedback (tc_attempted c) (tc_hits c) (tc_source_ids c) oid (dict_default d ?k no_feedback)) d"
    have "credit_key c = Some ?k" using Some by (simp add: credit_key_def)
    with Cons[of ?d] Some show ?thesis
      by (auto simp: credits_for_def Let_def add_feedback_def)
  qed
qed (simp add: credits_for_def)

lemma count_all_tokens_sums:
  "fs_attempts (dict_default (count_all_tokens ys d) k no_feedback)
     = fs_attempts (dict_default d k no_feedback) + sum_list (map tc_attempted (credits_for k (all_credits ys)))
   \<and> fs_hits (dict_default (count_all_tokens ys d) k no_feedback)
     = fs_hits (dict_default d k no_feedback) + sum_list (map tc_hits (credits_for k (all_credits ys)))
   \<and> (dict_get (count_all_tokens ys d) k \<noteq> None \<longleftrightarrow> dict_get d k \<noteq> None \<or> credits_for k (all_credits ys) \<noteq> [])
   \<and> (dict_ok d \<longrightarrow> dict_ok (count_all_tokens ys d))"
proof (induction ys arbitrary: d)
  case (Cons y ys)
  from Cons[of "count_tokens (yo_id y) (yo_token_credits y) d"] count_tokens_sums[of "yo_id y" "yo_token_credits y" d k]
  show ?case by (auto simp: credits_for_def all_credits_def)
qed (simp add: credits_for_def all_credits_def)

definition feedback_entry :: "string option \<Rightarrow> (corpus_category \<times> string) \<times> feedback_sum \<Rightarrow> token_feedback" where
  "feedback_entry target = (\<lambda>((category, token), f). \<lparr>tf_token = token, tf_category = category,
     tf_attempted = fs_attempts f, tf_hits = fs_hits f, tf_source_ids = sorted_list_of_set (fs_sources f),
     tf_observation_ids = fs_observations f, tf_target_key = target\<rparr>)"

lemma make_token_feedback_ok: "0 \<le> tf_hits f \<Longrightarrow> tf_hits f \<le> tf_attempted f \<Longrightarrow> make_token_feedback f = Inr f"
  by (simp add: make_token_feedback_def nonneg_def)

lemma token_feedbacks_total:
  "list_all (\<lambda>(k, f). 0 \<le> fs_hits f \<and> fs_hits f \<le> fs_attempts f) xs
    \<Longrightarrow> token_feedbacks target xs = Inr (map (feedback_entry target) xs)"
proof (induction xs)
  case (Cons x xs)
  then show ?case by (cases x) (auto simp: make_token_feedback_ok feedback_entry_def split_paired_all)
qed simp

lemma credits_sum_bounds:
  assumes "list_all observation_ok ys"
  shows "0 \<le> sum_list (map tc_hits (credits_for k (all_credits ys)))
    \<and> sum_list (map tc_hits (credits_for k (all_credits ys))) \<le> sum_list (map tc_attempted (credits_for k (all_credits ys)))"
proof -
  have "make_token_credit c = Inr c" if "c \<in> set (credits_for k (all_credits ys))" for c
    using that assms by (auto simp: credits_for_def all_credits_def observation_ok_def list_all_iff)
  note token_credit_counts[OF this]
  then show ?thesis by (intro conjI sum_list_nonneg_map sum_list_mono)
qed

lemma category_value_inj [simp]: "category_value c = category_value d \<longleftrightarrow> c = d"
  by (cases c; cases d) simp_all

lemma category_token_distinct:
  "dict_ok (d :: (corpus_category \<times> string, 'a) dict)
     \<Longrightarrow> distinct (map (\<lambda>(k, f). (category_value (fst k), snd k)) d)"
proof (induction d)
  case (Cons x d)
  then show ?case by (cases x) (force simp: case_prod_beta)
qed simp

text \<open>The feedback of a list of valid observations.\<close>

definition exact_feedback :: "yield_observation list \<Rightarrow> token_feedback \<Rightarrow> bool" where
  "exact_feedback ys f \<longleftrightarrow> tf_attempted f = sum_list (map tc_attempted (credits_for (tf_category f, tf_token f) (all_credits ys)))
     \<and> tf_hits f = sum_list (map tc_hits (credits_for (tf_category f, tf_token f) (all_credits ys)))
     \<and> tf_hits f \<le> tf_attempted f"

lemma counted_entry:
  assumes "list_all observation_ok ys" and "(k, f) \<in> set (count_all_tokens ys [])"
  shows "fs_attempts f = sum_list (map tc_attempted (credits_for k (all_credits ys)))
    \<and> fs_hits f = sum_list (map tc_hits (credits_for k (all_credits ys))) \<and> 0 \<le> fs_hits f \<and> fs_hits f \<le> fs_attempts f"
proof -
  note c = count_all_tokens_sums[of ys "[]" k]
  have "dict_get (count_all_tokens ys []) k = Some f" using assms(2) c by simp
  with c credits_sum_bounds[OF assms(1), of k] show ?thesis by (simp add: dict_default_def no_feedback_def)
qed

lemma token_feedback_of:
  assumes ys: "list_all observation_ok ys"
  shows "\<exists>fs. token_feedbacks target (sort_key (\<lambda>(k, f). (category_value (fst k), snd k)) (count_all_tokens ys [])) = Inr fs
    \<and> sorted_wrt (<) (map (\<lambda>f. (category_value (tf_category f), tf_token f)) fs)
    \<and> list_all (exact_feedback ys) fs
    \<and> (\<lambda>f. (tf_category f, tf_token f)) ` set fs = {k. credits_for k (all_credits ys) \<noteq> []}"
proof -
  let ?d = "count_all_tokens ys []" and ?key = "\<lambda>(k :: corpus_category \<times> string, f :: feedback_sum). (category_value (fst k), snd k)"
  let ?xs = "sort_key ?key ?d"
  have entry: "0 \<le> fs_hits (snd x) \<and> fs_hits (snd x) \<le> fs_attempts (snd x) \<and> exact_feedback ys (feedback_entry target x)"
    if "x \<in> set ?xs" for x
    using counted_entry[OF ys, of "fst x" "snd x"] that by (cases x) (auto simp: exact_feedback_def feedback_entry_def case_prod_beta)
  have t: "token_feedbacks target ?xs = Inr (map (feedback_entry target) ?xs)"
    using entry by (intro token_feedbacks_total) (simp add: list_all_iff case_prod_beta)
  have "map (\<lambda>f. (category_value (tf_category f), tf_token f)) (map (feedback_entry target) ?xs) = map ?key ?xs"
    by (simp add: feedback_entry_def case_prod_beta)
  moreover have "sorted_wrt (<) (map ?key ?xs)"
    using category_token_distinct[of ?d] count_all_tokens_sums[of ys "[]"] by (simp add: strict_sorted_iff distinct_map)
  ultimately have s: "sorted_wrt (<) (map (\<lambda>f. (category_value (tf_category f), tf_token f)) (map (feedback_entry target) ?xs))"
    by (simp only:)
  have e: "list_all (exact_feedback ys) (map (feedback_entry target) ?xs)" using entry by (simp add: list_all_iff)
  have "(\<lambda>f. (tf_category f, tf_token f)) ` set (map (feedback_entry target) ?xs) = fst ` set ?d"
    by (simp add: image_image feedback_entry_def case_prod_beta)
  also have "\<dots> = {k. credits_for k (all_credits ys) \<noteq> []}"
    using count_all_tokens_sums[of ys "[]"] by (auto simp: map_of_eq_None_iff)
  finally show ?thesis by (intro exI[of _ "map (feedback_entry target) ?xs"] conjI t s e)
qed

subsection \<open>Appending\<close>

text \<open>What one observation adds to the aggregate of a query, written out from the observation. A query by
  token or pattern gains only the credits that name the token or the pattern, the cost in proportion
  to the attempts they name, and nothing when they name neither an attempt nor a hit; every other query
  gains the whole observation.\<close>

record yield_gain =
  yg_executions :: int
  yg_attempted :: int
  yg_hits :: int
  yg_new_assets :: int
  yg_cost :: rat

definition no_gain :: yield_gain where
  "no_gain = \<lparr>yg_executions = 0, yg_attempted = 0, yg_hits = 0, yg_new_assets = 0, yg_cost = 0\<rparr>"

definition credited :: "yield_query \<Rightarrow> yield_observation \<Rightarrow> (int \<times> int \<times> int) list" where
  "credited q y =
     (case yq_token q of
        Some token \<Rightarrow> map (\<lambda>c. (tc_attempted c, tc_hits c, tc_new_assets c))
          (filter (\<lambda>c. Some (tc_category c) = yq_token_category q
              \<and> canonical_token_key (tc_token c) (tc_category c) = canonical_token_key token (tc_category c))
            (yo_token_credits y))
      | None \<Rightarrow> map (\<lambda>c. (pc_attempted c, pc_hits c, pc_new_assets c))
          (filter (\<lambda>c. Some (pc_pattern_id c) = yq_pattern_id q) (yo_pattern_credits y)))"

definition gained :: "yield_query \<Rightarrow> yield_observation \<Rightarrow> yield_gain" where
  "gained q y =
     (if observation_matches_query y q \<noteq> Inr True then no_gain
      else if yq_token q = None \<and> yq_pattern_id q = None
      then \<lparr>yg_executions = 1, yg_attempted = yo_attempted y, yg_hits = yo_hits y,
            yg_new_assets = yo_new_assets y, yg_cost = yo_cost_units y\<rparr>
      else let attempts = sum_list (map fst (credited q y)); hits = sum_list (map (fst \<circ> snd) (credited q y))
           in if attempts \<le> 0 \<and> hits \<le> 0 then no_gain
              else \<lparr>yg_executions = 1, yg_attempted = attempts, yg_hits = hits,
                    yg_new_assets = sum_list (map (snd \<circ> snd) (credited q y)),
                    yg_cost = yo_cost_units y * min 1 (of_int attempts / of_int (max 1 (yo_attempted y)))\<rparr>)"

definition gains :: "yield_query \<Rightarrow> yield_observation list \<Rightarrow> yield_aggregate \<Rightarrow> bool" where
  "gains q ys a \<longleftrightarrow> ya_executions a = sum_list (map (yg_executions \<circ> gained q) ys)
     \<and> ya_attempted a = sum_list (map (yg_attempted \<circ> gained q) ys)
     \<and> ya_hits a = sum_list (map (yg_hits \<circ> gained q) ys)
     \<and> ya_new_assets a = sum_list (map (yg_new_assets \<circ> gained q) ys)
     \<and> ya_cost_units a = sum_list (map (yg_cost \<circ> gained q) ys)"

lemma matching_credit_credited:
  assumes "matching_credit q y = Inr c" and "\<not> (yq_token q = None \<and> yq_pattern_id q = None)"
  shows "cr_attempts c = sum_list (map fst (credited q y)) \<and> cr_hits c = sum_list (map (fst \<circ> snd) (credited q y))
    \<and> cr_new_assets c = sum_list (map (snd \<circ> snd) (credited q y))"
proof (cases "yq_token q")
  case None
  with assms show ?thesis
    by (auto simp: matching_credit_def credited_def sum_pattern_credits_def comp_def)
next
  case (Some token)
  with assms(1) obtain category where k: "yq_token_category q = Some category"
    by (auto simp: matching_credit_def split: option.splits)
  have "credits_token token category = (\<lambda>d. Some (tc_category d) = yq_token_category q
      \<and> canonical_token_key (tc_token d) (tc_category d) = canonical_token_key token (tc_category d))"
    by (auto simp: credits_token_def k)
  with assms(1) Some k show ?thesis
    by (auto simp: matching_credit_def credited_def sum_token_credits_def comp_def)
qed

lemma credits_gains:
  assumes "\<not> (yq_token q = None \<and> yq_pattern_id q = None)"
  shows "matching_credits q ys = Inr cs \<Longrightarrow> \<forall>y \<in> set ys. observation_matches_query y q = Inr True \<Longrightarrow>
     gains q ys (aggregate_credits cs)"
proof (induction ys arbitrary: cs)
  case Nil
  then show ?case by (simp add: gains_def aggregate_credits_def empty_aggregate_def)
next
  case (Cons y ys)
  then obtain c ds where c: "matching_credit q y = Inr c" "matching_credits q ys = Inr ds"
    and cs: "cs = (if cr_attempts c \<le> 0 \<and> cr_hits c \<le> 0 then ds else (y, c) # ds)"
    by (auto simp: bind_res_Inr_iff)
  have ih: "gains q ys (aggregate_credits ds)" using Cons c(2) by simp
  note k = matching_credit_credited[OF c(1) assms]
  show ?case
  proof (cases "cr_attempts c \<le> 0 \<and> cr_hits c \<le> 0")
    case True
    then have "gained q y = no_gain" using k by (simp add: gained_def assms)
    with ih cs True show ?thesis by (simp add: gains_def no_gain_def)
  next
    case False
    then have g: "gained q y = \<lparr>yg_executions = 1, yg_attempted = cr_attempts c, yg_hits = cr_hits c,
        yg_new_assets = cr_new_assets c, yg_cost = yo_cost_units y * credit_fraction y c\<rparr>"
      using k Cons.prems(2) assms by (auto simp: gained_def credit_fraction_def Let_def)
    show ?thesis using ih cs False
      by (cases "ds = []") (auto simp: gains_def g aggregate_credits_def apportioned_def empty_aggregate_def)
  qed
qed

lemma aggregate_fields:
  "ya_hits (aggregate_observations ys) = sum_list (map yo_hits ys)"
  "ya_attempted (aggregate_observations ys) = sum_list (map yo_attempted ys)"
  "ya_new_assets (aggregate_observations ys) = sum_list (map yo_new_assets ys)"
  "ya_cost_units (aggregate_observations ys) = sum_list (map yo_cost_units ys)"
  "ya_executions (aggregate_observations ys) = sum_list (map (\<lambda>_. 1) ys)"
  by (simp_all add: aggregate_observations_def empty_aggregate_def sum_list_triv)

lemma observations_gains:
  assumes "yq_token q = None" and "yq_pattern_id q = None" and "\<forall>y \<in> set ys. observation_matches_query y q = Inr True"
  shows "gains q ys (aggregate_observations ys)"
proof -
  have "gained q y = \<lparr>yg_executions = 1, yg_attempted = yo_attempted y, yg_hits = yo_hits y,
      yg_new_assets = yo_new_assets y, yg_cost = yo_cost_units y\<rparr>" if "y \<in> set ys" for y
    using assms that by (simp add: gained_def)
  then show ?thesis
    by (auto simp: gains_def aggregate_fields intro!: arg_cong[where f = sum_list] map_cong)
qed

lemma sum_list_mset_eq:
  fixes f :: "'a \<Rightarrow> 'b::comm_monoid_add"
  shows "mset xs = mset ys \<Longrightarrow> sum_list (map f xs) = sum_list (map f ys)"
  by (metis mset_map sum_mset_sum_list)

lemma gains_mset: "mset xs = mset ys \<Longrightarrow> gains q xs a = gains q ys a"
  by (simp only: gains_def sum_list_mset_eq[of xs ys])

lemma gained_matched:
  fixes f :: "yield_gain \<Rightarrow> 'a::comm_monoid_add"
  assumes "f no_gain = 0"
  shows "sum_list (map (f \<circ> gained q) (matched q ys)) = sum_list (map (f \<circ> gained q) ys)"
  by (induction ys) (auto simp: matched_def gained_def assms)

lemma gains_matched: "gains q (matched q ys) a = gains q ys a"
  by (simp add: gains_def gained_matched no_gain_def)

lemma yield_aggregate_gains:
  assumes "query_total q" and "yield_aggregate_store q s = Inr a"
  shows "gains q (dict_values s) a"
proof -
  have t: "query_total (q\<lparr>yq_limit := None\<rparr>)" using assms(1) by (simp add: query_total_def)
  have "observation_matches_query y (q\<lparr>yq_limit := None\<rparr>) = observation_matches_query y q" for y
    by (cases q) (simp only: observation_matches_query_def yield_query.simps)
  then have m: "matched (q\<lparr>yq_limit := None\<rparr>) ys = matched q ys" for ys by (simp only: matched_def)
  let ?ys = "ordered (q\<lparr>yq_limit := None\<rparr>) (matched q (dict_values s))"
  have a: "aggregate_observations_for_query ?ys q = Inr a"
    using assms(2) yield_query_store_total[OF t, of s] m by (simp add: yield_aggregate_store_def)
  have all: "\<forall>y \<in> set ?ys. observation_matches_query y q = Inr True" by (simp add: matched_def)
  have "gains q ?ys a"
  proof (cases "yq_token q = None \<and> yq_pattern_id q = None")
    case True
    with a observations_gains[OF _ _ all] show ?thesis by (simp add: aggregate_observations_for_query_def)
  next
    case False
    show ?thesis
    proof (cases "?ys = []")
      case True
      with a False have "a = aggregate_credits []"
        by (auto simp: aggregate_observations_for_query_def aggregate_credits_def)
      with True credits_gains[OF False, of ?ys "[]"] show ?thesis by simp
    next
      case ne: False
      with a obtain cs where "matching_credits q ?ys = Inr cs" "a = aggregate_credits cs"
        using False by (auto simp: aggregate_observations_for_query_def bind_res_Inr_iff)
      with credits_gains[OF False _ all] show ?thesis by simp
    qed
  qed
  then show ?thesis using gains_mset[of ?ys "matched q (dict_values s)"] gains_matched by simp
qed

subsection \<open>Samples\<close>

definition sample_libm :: libm where
  "sample_libm = \<lparr>lm_exp = (\<lambda>x. 1 / (1 - x)), lm_sqrt = (\<lambda>x. if x \<le> 1 / 4 then 2 * x else (1 + x) / 2)\<rparr>"

lemma sample_libm_ok: "libm_ok sample_libm"
  by (auto simp: libm_ok_def sample_libm_def)

lemma default_yield_config_ok: "yield_config_ok default_yield_config"
  by (simp add: yield_config_ok_def default_yield_config_def)

definition sample_credit :: token_credit where
  "sample_credit = \<lparr>tc_token = ''api'', tc_category = CC_DNS, tc_attempted = 4, tc_hits = 1, tc_new_assets = 1,
     tc_novel_assets = 0, tc_source_ids = {}\<rparr>"

definition sample_observation :: yield_observation where
  "sample_observation = \<lparr>yo_id = ''yld_1'', yo_observed_at = 5, yo_run_id = None, yo_task_id = None,
     yo_input_event_id = None, yo_target_key = None, yo_branch_id = Some ''b'', yo_worker = ''dns'',
     yo_action = ''resolve'', yo_route_rule_id = None, yo_input_source = None, yo_source_ids = {},
     yo_outcome = YO_SUCCEEDED, yo_attempted = 4, yo_hits = 1, yo_new_assets = 1, yo_novel_assets = 0,
     yo_new_domains = 0, yo_new_urls = 0, yo_new_endpoints = 0, yo_new_vocabulary_tokens = 0,
     yo_new_patterns = 0, yo_request_count = 0, yo_runtime_seconds = 0, yo_cost_units = 1,
     yo_token_credits = [sample_credit], yo_pattern_credits = [], yo_metadata = []\<rparr>"

lemma sample_api: "normalize_global_token ''api'' CC_DNS = Some ''api''" "canonical_token_key ''api'' CC_DNS = ''api''"
  by code_simp+

lemma strip_samples: "strip ''yld_1'' = ''yld_1''" "strip ''b'' = ''b''" "strip ''dns'' = ''dns''" "strip ''resolve'' = ''resolve''"
  "strip ''api'' = ''api''"
  by code_simp+

lemma sample_observation_ok: "observation_ok sample_observation"
proof -
  have "make_token_credit sample_credit = Inr sample_credit"
    by (simp add: make_token_credit_def sample_credit_def not_blank_def nonneg_def strip_samples sample_api strip_set_def)
  then show ?thesis
    by (simp add: observation_ok_def make_yield_observation_def sample_observation_def not_blank_def nonneg_def strip_samples
        opt_text_def strip_set_def)
qed

definition shared_observation :: yield_observation where
  "shared_observation = sample_observation\<lparr>yo_id := ''yld_2'', yo_attempted := 8\<rparr>"

definition token_query :: yield_query where
  "token_query = any_query\<lparr>yq_token := Some ''api'', yq_token_category := Some CC_DNS\<rparr>"

lemma shared_observation_ok: "observation_ok shared_observation"
proof -
  have "strip ''yld_2'' = ''yld_2''" by code_simp
  moreover have "make_token_credit sample_credit = Inr sample_credit"
    by (simp add: make_token_credit_def sample_credit_def not_blank_def nonneg_def strip_samples sample_api strip_set_def)
  ultimately show ?thesis
    by (simp add: observation_ok_def make_yield_observation_def shared_observation_def sample_observation_def
        not_blank_def nonneg_def strip_samples opt_text_def strip_set_def)
qed

lemma sample_store_reachable: "yield_reachable [(''yld_1'', sample_observation)]"
  using appended[OF no_observations sample_observation_ok] by (simp add: yield_append_def sample_observation_def)

lemma sample_matches: "observation_matches_query sample_observation any_query = Inr True"
  by (simp add: observation_matches_query_def any_query_def selects_def)

lemma sample_gain: "gained any_query sample_observation
    = \<lparr>yg_executions = 1, yg_attempted = 4, yg_hits = 1, yg_new_assets = 1, yg_cost = 1\<rparr>"
  using sample_matches by (simp add: gained_def) (simp add: any_query_def sample_observation_def)

lemma shared_gain: "gained token_query shared_observation
    = \<lparr>yg_executions = 1, yg_attempted = 4, yg_hits = 1, yg_new_assets = 1, yg_cost = 1 / 2\<rparr>"
  by code_simp

subsection \<open>The properties\<close>

text \<open>C16: an observation counts once: appending one with a known identifier is refused and changes nothing; a new
  one adds exactly its gain to the aggregate of every query (but one with a token and no category, which the code
  cannot answer), and nothing to the queries it does not match.
  A query without token or pattern gains the whole observation: one execution and its attempts, hits, assets
  and cost. A query by token or pattern gains one execution and the attempts, hits and assets of the credits
  that name it, with the cost in proportion to those attempts, and nothing when they name no attempt and no hit.\<close>

theorem append_counts_once:
  assumes "yield_reachable s" and "query_total q" and "yield_append y s = (Inr fresh, s')"
    and "observation_ok y"
  shows "(fresh \<longleftrightarrow> dict_get s (yo_id y) = None) \<and> (\<not> fresh \<longrightarrow> s' = s)
    \<and> (\<exists>a a'. yield_aggregate_store q s = Inr a \<and> yield_aggregate_store q s' = Inr a'
      \<and> (let g = (if fresh then gained q y else no_gain) in
         ya_executions a' = ya_executions a + yg_executions g \<and> ya_attempted a' = ya_attempted a + yg_attempted g
         \<and> ya_hits a' = ya_hits a + yg_hits g \<and> ya_new_assets a' = ya_new_assets a + yg_new_assets g
         \<and> ya_cost_units a' = ya_cost_units a + yg_cost g))"
proof -
  obtain a where a: "yield_aggregate_store q s = Inr a"
    using yield_aggregate_total[OF yield_reachable_ok[OF assms(1)] assms(2)] by blast
  show ?thesis
  proof (cases "dict_get s (yo_id y)")
    case (Some z)
    with assms(3) a show ?thesis by (simp add: yield_append_def no_gain_def)
  next
    case None
    with assms(3) have s': "fresh" "dict_values s' = dict_values s @ [y]" by (simp_all add: yield_append_fresh) auto
    have "yield_reachable s'" using appended[OF assms(1,4)] assms(3) by simp
    then obtain a' where a': "yield_aggregate_store q s' = Inr a'"
      using yield_aggregate_total[OF yield_reachable_ok assms(2)] by blast
    show ?thesis
      using yield_aggregate_gains[OF assms(2) a] yield_aggregate_gains[OF assms(2) a'] s'(1) None a a'
      unfolding s'(2) gains_def by (simp add: Let_def)
  qed
qed

theorem append_counts_once_witness:
  "\<exists>a a' b'. yield_aggregate_store any_query [(''yld_1'', sample_observation)] = Inr a' \<and> ya_hits a' = 1 \<and> ya_cost_units a' = 1
     \<and> yield_aggregate_store token_query [] = Inr a
     \<and> yield_aggregate_store token_query [(''yld_2'', shared_observation)] = Inr b'
     \<and> ya_attempted b' = ya_attempted a + 4 \<and> ya_cost_units b' = ya_cost_units a + 1 / 2"
proof -
  have "query_total any_query" "query_total token_query"
    by (simp_all add: query_total_def any_query_def token_query_def)
  moreover have "yield_append sample_observation [] = (Inr True, [(''yld_1'', sample_observation)])"
    "yield_append shared_observation [] = (Inr True, [(''yld_2'', shared_observation)])"
    by (simp_all add: yield_append_def sample_observation_def shared_observation_def)
  moreover have e: "yield_aggregate_store any_query [] = Inr empty_aggregate" by code_simp
  ultimately show ?thesis
    using append_counts_once[OF no_observations, of any_query sample_observation True "[(''yld_1'', sample_observation)]"]
      append_counts_once[OF no_observations, of token_query shared_observation True "[(''yld_2'', shared_observation)]"]
      sample_observation_ok shared_observation_ok
    by (auto simp: empty_aggregate_def Let_def sample_gain shared_gain)
qed

text \<open>C15: estimates are fair and need no clamping: on every reachable store the estimate of a query exists; the hit rate is
  the Beta posterior, the expected yield is the weighted mean of the four components, and each of them, the
  uncertainty and the cost already satisfies the bounds that the result checks.\<close>

theorem estimates_need_no_clamping:
  assumes "yield_reachable s" and "yield_config_ok (ym_config ym)" and "libm_ok (ym_libm ym)"
    and "make_yield_query q = Inr q'" and "query_total q'"
  shows "\<exists>a e. yield_aggregate_store q' s = Inr a \<and> estimate_query ym q s = Inr e
    \<and> fair_estimate (ym_libm ym) (ym_config ym) a e"
  using estimate_query_total[OF yield_reachable_ok[OF assms(1)] assms(2-5)] by blast

definition sample_model :: yield_model where
  "sample_model = \<lparr>ym_config = default_yield_config, ym_libm = sample_libm, ym_idna = (\<lambda>s. None)\<rparr>"

theorem estimates_need_no_clamping_witness:
  "\<exists>a e. estimate_query sample_model any_query [(''yld_1'', sample_observation)] = Inr e
    \<and> fair_estimate sample_libm default_yield_config a e"
proof -
  have "make_yield_query any_query = Inr any_query" by (simp add: make_yield_query_def any_query_def Let_def)
  moreover have "query_total any_query" by (simp add: query_total_def any_query_def)
  ultimately show ?thesis
    using estimates_need_no_clamping[OF sample_store_reachable, of sample_model any_query any_query]
    by (auto simp: sample_model_def default_yield_config_ok sample_libm_ok)
qed

text \<open>the scheduler accepts every yield signal: for a task and an event with confidence and novelty in [0, 1], the
  blended estimate exists, its expected yield is the weighted mean of the prior and the components that carry
  evidence, and the signals pass the validator of SchedulingSignals.\<close>

theorem yield_signals_accepted:
  assumes "yield_reachable s" and "yield_config_ok (ym_config ym)" and "libm_ok (ym_libm ym)"
    and "case input of None \<Rightarrow> True | Some e \<Rightarrow> 0 \<le> ev_confidence e \<and> ev_confidence e \<le> 1 \<and> 0 \<le> ev_novelty e \<and> ev_novelty e \<le> 1"
  shows "\<exists>e g. task_estimate ym t input s = Inr e \<and> yield_signals_for ym t input s = Inr g \<and> signals_ok g
    \<and> sg_expected_yield g = blend (prior_hit_mean (ym_config ym)) (yc_prior_component_weight (ym_config ym))
        ye_expected_yield (ty_components e)
    \<and> sg_information_gain g = ty_information_gain e \<and> sg_estimated_cost g = ty_estimated_cost e"
proof -
  obtain e where "task_estimate ym t input s = Inr e"
    "ty_expected_yield e = blend (prior_hit_mean (ym_config ym)) (yc_prior_component_weight (ym_config ym))
        ye_expected_yield (ty_components e)"
    "0 \<le> ty_expected_yield e" "ty_expected_yield e \<le> 1" "0 \<le> ty_information_gain e" "ty_information_gain e \<le> 1"
    "0 < ty_estimated_cost e"
    using task_estimate_total[OF yield_reachable_ok[OF assms(1)] assms(2,3)] by blast
  with assms(4) show ?thesis by (auto simp: yield_signals_for_def signals_ok_def Let_def split: option.splits)
qed

theorem yield_signals_accepted_witness:
  "\<exists>g. yield_signals_for sample_model sample_task None [(''yld_1'', sample_observation)] = Inr g \<and> signals_ok g"
  using yield_signals_accepted[OF sample_store_reachable, of sample_model None sample_task]
  by (auto simp: sample_model_def default_yield_config_ok sample_libm_ok)

text \<open>The word list gets exact credit: on every reachable store the feedback is computed without failure, with one
  entry for every token that the matching observations credit, in order; its attempts and hits are the sums of the
  credits of that token, and there are never more hits than attempts.\<close>

theorem token_feedback_exact:
  assumes "yield_reachable s"
  shows "\<exists>q ys fs. make_yield_query (any_query\<lparr>yq_target_key := target_key_for_event idna seed\<rparr>) = Inr q
    \<and> yield_query_store q s = Inr ys \<and> wordlist_feedback_for idna seed s = Inr fs
    \<and> sorted_wrt (<) (map (\<lambda>f. (category_value (tf_category f), tf_token f)) fs)
    \<and> list_all (exact_feedback ys) fs
    \<and> (\<lambda>f. (tf_category f, tf_token f)) ` set fs = {k. credits_for k (all_credits ys) \<noteq> []}"
proof -
  obtain q where q: "make_yield_query (any_query\<lparr>yq_target_key := target_key_for_event idna seed\<rparr>) = Inr q" "query_total q"
    using make_query_plain[of "any_query\<lparr>yq_target_key := target_key_for_event idna seed\<rparr>"] by (auto simp: any_query_def)
  obtain ys where ys: "yield_query_store q s = Inr ys" using yield_query_store_total[OF q(2)] by blast
  have "list_all observation_ok ys" using query_results_ok[OF yield_reachable_ok[OF assms] ys q(2)] .
  from token_feedback_of[OF this, of "target_key_for_event idna seed"] q(1) ys show ?thesis
    by (auto simp: wordlist_feedback_for_def Let_def)
qed

theorem token_feedback_exact_witness:
  "\<exists>fs. wordlist_feedback_for (\<lambda>_. None) dns_event [(''yld_1'', sample_observation)] = Inr fs
     \<and> sorted_wrt (<) (map (\<lambda>f. (category_value (tf_category f), tf_token f)) fs)"
  using token_feedback_exact[OF sample_store_reachable, of "\<lambda>_. None" dns_event] by blast

end
