(* ===== verification/Convergence.thy ===== *)
theory Convergence
  imports Yield_Feedback Budget_Manager
begin

section \<open>Controlled convergence of branches (recon/intelligence/convergence.py)\<close>

text \<open>
  The controller that combines the yield of a branch with the pressure on its budget into CONTINUE, ADVANCE_TIER,
  COOLDOWN or CLOSE: the budget inspector over the budget store, the persistent state of a branch, the decision
  and the evaluation. Timestamps are aware by construction. The yield model and the two stores are those of
  \<^theory_text>\<open>Yield_Feedback\<close> and \<^theory_text>\<open>Budget_Store\<close>.
\<close>

datatype conv_action = CA_CONTINUE | CA_ADVANCE_TIER | CA_COOLDOWN | CA_CLOSE

datatype search_tier = ST_MICRO | ST_SMALL | ST_MEDIUM | ST_LARGE | ST_EXHAUSTIVE

fun search_tier_value :: "search_tier \<Rightarrow> string" where
  "search_tier_value ST_MICRO = ''MICRO''"
| "search_tier_value ST_SMALL = ''SMALL''"
| "search_tier_value ST_MEDIUM = ''MEDIUM''"
| "search_tier_value ST_LARGE = ''LARGE''"
| "search_tier_value ST_EXHAUSTIVE = ''EXHAUSTIVE''"

definition tier_order :: "search_tier list" where
  "tier_order = [ST_MICRO, ST_SMALL, ST_MEDIUM, ST_LARGE, ST_EXHAUSTIVE]"

fun index_of :: "'a \<Rightarrow> 'a list \<Rightarrow> nat" where
  "index_of x [] = 0"
| "index_of x (y # ys) = (if x = y then 0 else Suc (index_of x ys))"

definition tier_rank :: "search_tier \<Rightarrow> nat" where
  "tier_rank t = index_of t tier_order"

definition next_tier :: "search_tier \<Rightarrow> search_tier" where
  "next_tier t = (if length tier_order - 1 \<le> tier_rank t then t else tier_order ! (tier_rank t + 1))"

text \<open>\<open>SearchTier(str(value).strip().upper())\<close>\<close>

definition normalize_tier :: "string \<Rightarrow> search_tier res" where
  "normalize_tier v =
     (case find (\<lambda>t. search_tier_value t = upper (strip v)) tier_order of
        Some t \<Rightarrow> Inr t
      | None \<Rightarrow> Inl (ValueError (py_repr (upper (strip v)) @ '' is not a valid SearchTier'')))"

subsection \<open>The pressure on the budget of a branch\<close>

record metric_pressure =
  mp_metric :: budget_metric
  mp_class :: budget_class
  mp_configured_limit :: rat
  mp_effective_limit :: rat
  mp_committed :: rat
  mp_reserved :: rat
  mp_utilization :: rat

definition mp_total_used :: "metric_pressure \<Rightarrow> rat" where
  "mp_total_used m = mp_committed m + mp_reserved m"

definition mp_exhausted :: "metric_pressure \<Rightarrow> bool" where
  "mp_exhausted m \<longleftrightarrow> 1 - tolerance \<le> mp_utilization m"

record branch_budget =
  bb_branch_id :: string
  bb_lane :: budget_lane
  bb_reserve_fraction :: rat
  bb_multiplier :: rat
  bb_soft :: "metric_pressure list"
  bb_hard :: "metric_pressure list"

definition pressure_of :: "metric_pressure list \<Rightarrow> rat" where
  "pressure_of ms = (if ms = [] then 0 else Max (set (map mp_utilization ms)))"

definition soft_pressure :: "branch_budget \<Rightarrow> rat" where
  "soft_pressure b = pressure_of (bb_soft b)"

definition hard_pressure :: "branch_budget \<Rightarrow> rat" where
  "hard_pressure b = pressure_of (bb_hard b)"

definition soft_exhausted :: "branch_budget \<Rightarrow> bool" where
  "soft_exhausted b \<longleftrightarrow> list_ex mp_exhausted (bb_soft b)"

definition hard_exhausted :: "branch_budget \<Rightarrow> bool" where
  "hard_exhausted b \<longleftrightarrow> list_ex mp_exhausted (bb_hard b)"

definition limiting_metric :: "metric_pressure list \<Rightarrow> budget_metric option" where
  "limiting_metric ms =
     (if ms = [] then None
      else Some (mp_metric (hd (sort_desc (\<lambda>m. (mp_utilization m, metric_value (mp_metric m))) ms))))"

text \<open>\<open>_pressures_for_caps\<close> of the inspector: one entry per configured metric, in the order of their names.\<close>

definition metric_pressure_for ::
  "string \<Rightarrow> budget_class \<Rightarrow> budget_lane \<Rightarrow> rat \<Rightarrow> rat \<Rightarrow> budget_store \<Rightarrow> budget_metric \<times> rat \<Rightarrow> metric_pressure" where
  "metric_pressure_for bucket cls bl reserve multiplier s ml =
     (case usage (bucket, cls, fst ml) s of (spent, pending) \<Rightarrow>
      let configured = snd ml * multiplier;
          effective = (if cls = SOFT \<and> bl = L_NORMAL then configured * (1 - reserve) else configured);
          utilization = (if effective \<le> 0 then 1 else (spent + pending) / effective)
      in \<lparr>mp_metric = fst ml, mp_class = cls, mp_configured_limit = configured, mp_effective_limit = effective,
          mp_committed = spent, mp_reserved = pending, mp_utilization = max 0 utilization\<rparr>)"

definition pressures_for_caps ::
  "budget_profile \<Rightarrow> string \<Rightarrow> budget_class \<Rightarrow> budget_lane \<Rightarrow> rat \<Rightarrow> budget_store \<Rightarrow> metric_pressure list" where
  "pressures_for_caps p bucket cls bl multiplier s =
     map (metric_pressure_for bucket cls bl (exploration_reserve_fraction p) multiplier s)
       (sort_key (\<lambda>ml. metric_value (fst ml))
         (as_metric_limits (if cls = SOFT then soft_branch_limits p else hard_branch_limits p)))"

definition branch_budget_state ::
  "budget_profile \<Rightarrow> string \<Rightarrow> budget_lane \<Rightarrow> rat \<Rightarrow> budget_store \<Rightarrow> branch_budget res" where
  "branch_budget_state p branch bl multiplier s =
     (if multiplier < 1 then Inl (ValueError ''branch_soft_multiplier must be >= 1'')
      else if strip branch = [] then Inl (ValueError ''branch_id must not be blank'')
      else let bucket = ''branch:'' @ strip branch
           in Inr \<lparr>bb_branch_id = strip branch, bb_lane = bl,
                bb_reserve_fraction = exploration_reserve_fraction p, bb_multiplier = multiplier,
                bb_soft = pressures_for_caps p bucket SOFT bl multiplier s,
                bb_hard = pressures_for_caps p bucket HARD bl 1 s\<rparr>)"

subsection \<open>The state of a branch\<close>

record conv_state =
  cv_target_key :: "string option"
  cv_branch_id :: string
  cv_lane :: budget_lane
  cv_tier :: search_tier
  cv_multiplier :: rat
  cv_evaluations :: int
  cv_low_streak :: int
  cv_productive_streak :: int
  cv_cooldown_count :: int
  cv_cooldown_until :: "time option"
  cv_closed :: bool
  cv_last_action :: "conv_action option"
  cv_updated_at :: time

definition new_conv_state ::
  "string option \<Rightarrow> string \<Rightarrow> budget_lane \<Rightarrow> search_tier \<Rightarrow> time \<Rightarrow> conv_state res" where
  "new_conv_state target branch bl tier now =
     bind_res (not_blank ''branch_id must not be blank'' branch) (\<lambda>b.
     Inr \<lparr>cv_target_key = (case target of None \<Rightarrow> None
              | Some t \<Rightarrow> if lower (strip t) = [] then None else Some (lower (strip t))),
          cv_branch_id = b, cv_lane = bl, cv_tier = tier, cv_multiplier = 1, cv_evaluations = 0,
          cv_low_streak = 0, cv_productive_streak = 0, cv_cooldown_count = 0, cv_cooldown_until = None,
          cv_closed = False, cv_last_action = None, cv_updated_at = now\<rparr>)"

type_synonym conv_store = "(string option \<times> string \<times> budget_lane, conv_state) dict"

definition conv_get :: "string option \<Rightarrow> string \<Rightarrow> budget_lane \<Rightarrow> conv_store \<Rightarrow> conv_state option" where
  "conv_get target branch bl s = dict_get s (map_option lower target, branch, bl)"

definition conv_put :: "conv_state \<Rightarrow> conv_store \<Rightarrow> conv_store" where
  "conv_put c s = dict_set (cv_target_key c, cv_branch_id c, cv_lane c) c s"

record conv_config =
  cf_minimum_recent :: int
  cf_productive_hit_rate :: rat
  cf_productive_novel :: rat
  cf_advance_expected_yield :: rat
  cf_advance_streak :: int
  cf_advance_max_soft_pressure :: rat
  cf_low_signal :: rat
  cf_low_information_gain :: rat
  cf_cooldown_streak :: int
  cf_close_streak :: int
  cf_cooldown_base :: rat
  cf_cooldown_max :: rat
  cf_multiplier_max :: rat
  cf_multiplier_threshold :: rat
  cf_hard_close_threshold :: rat
  cf_soft_cooldown_threshold :: rat

definition default_conv_config :: conv_config where
  "default_conv_config = \<lparr>cf_minimum_recent = 8, cf_productive_hit_rate = 12/100, cf_productive_novel = 10/100,
     cf_advance_expected_yield = 58/100, cf_advance_streak = 2, cf_advance_max_soft_pressure = 80/100,
     cf_low_signal = 70/100, cf_low_information_gain = 35/100, cf_cooldown_streak = 2, cf_close_streak = 4,
     cf_cooldown_base = 900, cf_cooldown_max = 86400, cf_multiplier_max = 2, cf_multiplier_threshold = 62/100,
     cf_hard_close_threshold = 1, cf_soft_cooldown_threshold = 1\<rparr>"

definition conv_config_ok :: "conv_config \<Rightarrow> bool" where
  "conv_config_ok c \<longleftrightarrow> 1 \<le> cf_minimum_recent c \<and> cf_minimum_recent c \<le> 10000
     \<and> 0 \<le> cf_productive_hit_rate c \<and> cf_productive_hit_rate c \<le> 1 \<and> 0 \<le> cf_productive_novel c
     \<and> 0 \<le> cf_advance_expected_yield c \<and> cf_advance_expected_yield c \<le> 1
     \<and> 1 \<le> cf_advance_streak c \<and> cf_advance_streak c \<le> 100 \<and> 0 \<le> cf_advance_max_soft_pressure c
     \<and> 0 \<le> cf_low_signal c \<and> cf_low_signal c \<le> 1
     \<and> 0 \<le> cf_low_information_gain c \<and> cf_low_information_gain c \<le> 1
     \<and> 1 \<le> cf_cooldown_streak c \<and> cf_cooldown_streak c \<le> 100
     \<and> 1 \<le> cf_close_streak c \<and> cf_close_streak c \<le> 100
     \<and> 0 < cf_cooldown_base c \<and> 0 < cf_cooldown_max c
     \<and> 1 \<le> cf_multiplier_max c \<and> cf_multiplier_max c \<le> 100
     \<and> 0 \<le> cf_multiplier_threshold c \<and> cf_multiplier_threshold c \<le> 1
     \<and> 0 < cf_hard_close_threshold c \<and> 0 < cf_soft_cooldown_threshold c
     \<and> cf_cooldown_streak c \<le> cf_close_streak c \<and> cf_cooldown_base c \<le> cf_cooldown_max c"

definition productive_soft_multiplier :: "conv_config \<Rightarrow> rat \<Rightarrow> rat" where
  "productive_soft_multiplier c expected =
     (if expected < cf_multiplier_threshold c \<or> cf_multiplier_max c \<le> 1 then 1
      else let denominator = max (1 / 1000000000) (1 - cf_multiplier_threshold c);
               progress = (expected - cf_multiplier_threshold c) / denominator
           in min (cf_multiplier_max c) (1 + clamp01 progress * (cf_multiplier_max c - 1)))"

definition cooldown_duration :: "conv_config \<Rightarrow> int \<Rightarrow> timedelta" where
  "cooldown_duration c number =
     (let ordinal = max 1 number
      in timedelta_seconds (min (cf_cooldown_base c * 2 ^ nat (min (ordinal - 1) 20)) (cf_cooldown_max c)))"

subsection \<open>The decision\<close>

record conv_decision =
  cd_target_key :: "string option"
  cd_branch_id :: string
  cd_lane :: budget_lane
  cd_protected_exploration :: bool
  cd_action :: conv_action
  cd_current_tier :: search_tier
  cd_recommended_tier :: search_tier
  cd_multiplier :: rat
  cd_cooldown_until :: "time option"
  cd_expected_yield :: rat
  cd_information_gain :: rat
  cd_signal :: rat
  cd_budget :: branch_budget
  cd_reasons :: "string list"
  cd_before :: conv_state
  cd_after :: conv_state
  cd_evaluated_at :: time

definition should_dispatch :: "conv_decision \<Rightarrow> bool" where
  "should_dispatch d \<longleftrightarrow> cd_action d \<in> {CA_CONTINUE, CA_ADVANCE_TIER}"

definition should_pause :: "conv_decision \<Rightarrow> bool" where
  "should_pause d \<longleftrightarrow> cd_action d = CA_COOLDOWN"

definition should_close :: "conv_decision \<Rightarrow> bool" where
  "should_close d \<longleftrightarrow> cd_action d = CA_CLOSE"

text \<open>The signals an evaluation looks at, and the decision built from a chosen action. Empty reasons are dropped.\<close>

record conv_input =
  ci_trend :: branch_trend
  ci_estimate :: yield_estimate
  ci_budget :: branch_budget
  ci_now :: time

definition conclude ::
  "conv_state \<Rightarrow> conv_input \<Rightarrow> conv_state \<Rightarrow> conv_action \<Rightarrow> search_tier \<Rightarrow> rat \<Rightarrow> time option \<Rightarrow> string list
    \<Rightarrow> conv_decision" where
  "conclude prior i after_state action tier multiplier until reasons =
     \<lparr>cd_target_key = cv_target_key prior, cd_branch_id = cv_branch_id prior, cd_lane = cv_lane prior,
      cd_protected_exploration = (cv_lane prior = L_EXPLORATION), cd_action = action,
      cd_current_tier = cv_tier prior, cd_recommended_tier = tier, cd_multiplier = max 1 multiplier,
      cd_cooldown_until = until, cd_expected_yield = ye_expected_yield (ci_estimate i),
      cd_information_gain = ye_uncertainty (ci_estimate i), cd_signal = bt_signal (ci_trend i),
      cd_budget = ci_budget i, cd_reasons = filter (\<lambda>r. r \<noteq> []) reasons, cd_before = prior,
      cd_after = after_state, cd_evaluated_at = ci_now i\<rparr>"

definition history_ready :: "conv_config \<Rightarrow> conv_input \<Rightarrow> bool" where
  "history_ready c i \<longleftrightarrow> cf_minimum_recent c \<le> bt_recent_executions (ci_trend i)"

definition productive :: "conv_config \<Rightarrow> conv_input \<Rightarrow> bool" where
  "productive c i \<longleftrightarrow> history_ready c i
     \<and> (cf_productive_hit_rate c \<le> bt_recent_hit_rate (ci_trend i)
        \<or> cf_productive_novel c \<le> bt_recent_novel (ci_trend i))
     \<and> cf_advance_expected_yield c \<le> ye_expected_yield (ci_estimate i)"

definition low_yield :: "conv_config \<Rightarrow> conv_input \<Rightarrow> bool" where
  "low_yield c i \<longleftrightarrow> history_ready c i
     \<and> (bt_low_marginal (ci_trend i)
        \<or> cf_low_signal c \<le> bt_signal (ci_trend i)
          \<and> ye_uncertainty (ci_estimate i) \<le> cf_low_information_gain c)"

definition low_streak :: "conv_config \<Rightarrow> conv_state \<Rightarrow> conv_input \<Rightarrow> int" where
  "low_streak c prior i = (if low_yield c i then cv_low_streak prior + 1 else 0)"

definition productive_streak :: "conv_config \<Rightarrow> conv_state \<Rightarrow> conv_input \<Rightarrow> int" where
  "productive_streak c prior i = (if productive c i then cv_productive_streak prior + 1 else 0)"

text \<open>The branches of \<open>_decide\<close>, each with the state it leaves.\<close>

definition already_closed :: "conv_state \<Rightarrow> conv_input \<Rightarrow> conv_decision" where
  "already_closed prior i =
     conclude prior i (prior\<lparr>cv_multiplier := 1, cv_last_action := Some CA_CLOSE, cv_updated_at := ci_now i\<rparr>)
       CA_CLOSE (cv_tier prior) 1 None [''branch is already closed'']"

definition hard_close :: "conv_state \<Rightarrow> conv_input \<Rightarrow> conv_decision" where
  "hard_close prior i =
     conclude prior i (prior\<lparr>cv_evaluations := cv_evaluations prior + 1, cv_multiplier := 1, cv_closed := True,
         cv_cooldown_until := None, cv_last_action := Some CA_CLOSE, cv_updated_at := ci_now i\<rparr>)
       CA_CLOSE (cv_tier prior) 1 None
       [''hard branch budget is exhausted; future positive demand cannot be authorized'']"

definition still_cooling :: "conv_state \<Rightarrow> conv_input \<Rightarrow> conv_decision" where
  "still_cooling prior i =
     conclude prior i (prior\<lparr>cv_multiplier := 1, cv_last_action := Some CA_COOLDOWN, cv_updated_at := ci_now i\<rparr>)
       CA_COOLDOWN (cv_tier prior) 1 (cv_cooldown_until prior)
       (''existing cooldown has not expired''
        # (if cv_lane prior = L_EXPLORATION then [''exploration reserve remains protected during cooldown''] else []))"

definition next_cooldown :: "conv_config \<Rightarrow> conv_state \<Rightarrow> conv_input \<Rightarrow> time" where
  "next_cooldown c prior i = ci_now i + cooldown_duration c (cv_cooldown_count prior + 1)"

definition soft_cooldown :: "conv_config \<Rightarrow> conv_state \<Rightarrow> conv_input \<Rightarrow> conv_decision" where
  "soft_cooldown c prior i =
     conclude prior i (prior\<lparr>cv_evaluations := cv_evaluations prior + 1, cv_low_streak := low_streak c prior i,
         cv_productive_streak := productive_streak c prior i, cv_cooldown_count := cv_cooldown_count prior + 1,
         cv_cooldown_until := Some (next_cooldown c prior i), cv_multiplier := 1,
         cv_last_action := Some CA_COOLDOWN, cv_updated_at := ci_now i\<rparr>)
       CA_COOLDOWN (cv_tier prior) 1 (Some (next_cooldown c prior i))
       (''effective soft branch budget is exhausted; preserve frontier and allow budget policy to defer further work''
        # (if cv_lane prior = L_EXPLORATION
           then [''exploration lane used the full protected soft allowance; cooldown is temporary rather than permanent close'']
           else []))"

definition sparse_continue :: "conv_state \<Rightarrow> conv_input \<Rightarrow> conv_decision" where
  "sparse_continue prior i =
     conclude prior i (prior\<lparr>cv_evaluations := cv_evaluations prior + 1, cv_low_streak := 0,
         cv_productive_streak := 0, cv_cooldown_until := None, cv_multiplier := 1,
         cv_last_action := Some CA_CONTINUE, cv_updated_at := ci_now i\<rparr>)
       CA_CONTINUE (cv_tier prior) 1 None
       [''insufficient recent history; continue bounded work to reduce uncertainty instead of treating sparse evidence as zero yield'']"

definition advance_tier :: "conv_state \<Rightarrow> conv_input \<Rightarrow> rat \<Rightarrow> conv_decision" where
  "advance_tier prior i multiplier =
     conclude prior i (prior\<lparr>cv_evaluations := cv_evaluations prior + 1, cv_tier := next_tier (cv_tier prior),
         cv_low_streak := 0, cv_productive_streak := 0, cv_cooldown_until := None, cv_multiplier := multiplier,
         cv_last_action := Some CA_ADVANCE_TIER, cv_updated_at := ci_now i\<rparr>)
       CA_ADVANCE_TIER (next_tier (cv_tier prior)) multiplier None
       [''recent branch yield remains productive'',
        ''advance exactly one tier while remaining below the configured soft-budget pressure threshold'']"

definition yield_close :: "conv_config \<Rightarrow> conv_state \<Rightarrow> conv_input \<Rightarrow> conv_decision" where
  "yield_close c prior i =
     conclude prior i (prior\<lparr>cv_evaluations := cv_evaluations prior + 1, cv_low_streak := low_streak c prior i,
         cv_productive_streak := 0, cv_closed := True, cv_cooldown_until := None,
         cv_last_action := Some CA_CLOSE, cv_updated_at := ci_now i\<rparr>)
       CA_CLOSE (cv_tier prior) 1 None
       [''normal lane is already at EXHAUSTIVE tier'', ''repeated low marginal yield persists'',
        ''remaining information gain is low'']"

definition yield_cooldown :: "conv_config \<Rightarrow> conv_state \<Rightarrow> conv_input \<Rightarrow> conv_decision" where
  "yield_cooldown c prior i =
     conclude prior i (prior\<lparr>cv_evaluations := cv_evaluations prior + 1, cv_low_streak := low_streak c prior i,
         cv_productive_streak := 0, cv_cooldown_count := cv_cooldown_count prior + 1,
         cv_cooldown_until := Some (next_cooldown c prior i), cv_multiplier := 1,
         cv_last_action := Some CA_COOLDOWN, cv_updated_at := ci_now i\<rparr>)
       CA_COOLDOWN (cv_tier prior) 1 (Some (next_cooldown c prior i))
       (''recent marginal yield is repeatedly low; pause the branch instead of continuously spending budget''
        # (if cv_lane prior = L_EXPLORATION
           then [''exploration lane is not permanently closed by low yield; the protected lane will be eligible again after cooldown'']
           else []))"

definition plain_continue :: "conv_config \<Rightarrow> conv_state \<Rightarrow> conv_input \<Rightarrow> rat \<Rightarrow> conv_decision" where
  "plain_continue c prior i multiplier =
     conclude prior i (prior\<lparr>cv_evaluations := cv_evaluations prior + 1, cv_low_streak := low_streak c prior i,
         cv_productive_streak := productive_streak c prior i, cv_cooldown_until := None,
         cv_multiplier := (if productive c i then multiplier else 1),
         cv_last_action := Some CA_CONTINUE, cv_updated_at := ci_now i\<rparr>)
       CA_CONTINUE (cv_tier prior) (if productive c i then multiplier else 1) None
       [if productive c i
        then ''branch is productive but has not yet satisfied the consecutive-evaluation threshold for tier advancement''
        else if low_yield c i then ''low-yield signal is present but has not persisted long enough for cooldown''
        else ''branch remains within acceptable marginal-yield bounds'']"

definition ready_to_advance :: "conv_config \<Rightarrow> search_tier \<Rightarrow> conv_state \<Rightarrow> conv_input \<Rightarrow> bool" where
  "ready_to_advance c maximum prior i \<longleftrightarrow> productive c i \<and> cf_advance_streak c \<le> productive_streak c prior i
     \<and> tier_rank (cv_tier prior) < tier_rank maximum
     \<and> soft_pressure (ci_budget i) < cf_advance_max_soft_pressure c"

definition ready_to_close :: "conv_config \<Rightarrow> conv_state \<Rightarrow> conv_input \<Rightarrow> bool" where
  "ready_to_close c prior i \<longleftrightarrow> cv_lane prior \<noteq> L_EXPLORATION \<and> cv_tier prior = ST_EXHAUSTIVE
     \<and> cf_close_streak c \<le> low_streak c prior i
     \<and> ye_uncertainty (ci_estimate i) \<le> cf_low_information_gain c"

definition cooling :: "conv_state \<Rightarrow> time \<Rightarrow> bool" where
  "cooling prior now \<longleftrightarrow> (case cv_cooldown_until prior of None \<Rightarrow> False | Some u \<Rightarrow> now < u)"

definition decide :: "conv_config \<Rightarrow> search_tier \<Rightarrow> conv_state \<Rightarrow> conv_input \<Rightarrow> conv_decision" where
  "decide c maximum prior i =
     (let multiplier = productive_soft_multiplier c (ye_expected_yield (ci_estimate i)) in
      if cv_closed prior then already_closed prior i
      else if cf_hard_close_threshold c \<le> hard_pressure (ci_budget i) then hard_close prior i
      else if cooling prior (ci_now i) then still_cooling prior i
      else if cf_soft_cooldown_threshold c \<le> soft_pressure (ci_budget i) then soft_cooldown c prior i
      else if \<not> history_ready c i then sparse_continue prior i
      else if ready_to_advance c maximum prior i then advance_tier prior i multiplier
      else if low_yield c i \<and> cf_cooldown_streak c \<le> low_streak c prior i
      then (if ready_to_close c prior i then yield_close c prior i else yield_cooldown c prior i)
      else plain_continue c prior i multiplier)"

subsection \<open>The evaluation\<close>

record conv_controller =
  cc_yield :: yield_model
  cc_profile :: budget_profile
  cc_config :: conv_config
  cc_maximum_tier :: search_tier

text \<open>The stored state; the tier of the orchestrator replaces the stored one of a branch that is not closed.\<close>

definition prior_state ::
  "string option \<Rightarrow> string \<Rightarrow> budget_lane \<Rightarrow> search_tier \<Rightarrow> time \<Rightarrow> conv_store \<Rightarrow> conv_state res" where
  "prior_state target branch bl tier now s =
     (case conv_get target branch bl s of
        None \<Rightarrow> new_conv_state target branch bl tier now
      | Some p \<Rightarrow> Inr (if cv_tier p \<noteq> tier \<and> \<not> cv_closed p then p\<lparr>cv_tier := tier\<rparr> else p))"

definition conv_input_for ::
  "conv_controller \<Rightarrow> string \<Rightarrow> string option \<Rightarrow> budget_lane \<Rightarrow> rat \<Rightarrow> time \<Rightarrow> yield_store \<Rightarrow> budget_store
    \<Rightarrow> conv_input res" where
  "conv_input_for cc branch target bl multiplier now ys bs =
     bind_res (branch_trend_for (cc_yield cc) branch target ys) (\<lambda>trend.
     bind_res (estimate_query (cc_yield cc) (any_query\<lparr>yq_target_key := target, yq_branch_id := Some branch\<rparr>) ys) (\<lambda>est.
     bind_res (branch_budget_state (cc_profile cc) branch bl multiplier bs) (\<lambda>budget.
     Inr \<lparr>ci_trend = trend, ci_estimate = est, ci_budget = budget, ci_now = now\<rparr>)))"

definition conv_evaluate ::
  "conv_controller \<Rightarrow> event \<Rightarrow> string \<Rightarrow> budget_lane \<Rightarrow> search_tier \<Rightarrow> time \<Rightarrow> yield_store \<Rightarrow> budget_store
    \<Rightarrow> (conv_store, conv_decision) op" where
  "conv_evaluate cc seed branch bl tier now ys bs s =
     (if tier_rank (cc_maximum_tier cc) < tier_rank tier
      then (Inl (ValueError (''current tier '' @ search_tier_value tier @ '' exceeds configured maximum tier ''
              @ search_tier_value (cc_maximum_tier cc))), s)
      else let target = target_key_for_event (ym_idna (cc_yield cc)) seed in
      case prior_state target branch bl tier now s of
        Inl e \<Rightarrow> (Inl e, s)
      | Inr prior \<Rightarrow>
          (case conv_input_for cc branch target bl (cv_multiplier prior) now ys bs of
             Inl e \<Rightarrow> (Inl e, s)
           | Inr i \<Rightarrow> let d = decide (cc_config cc) (cc_maximum_tier cc) prior i
                      in (Inr d, conv_put (cd_after d) s)))"

definition budget_context_for_decision :: "conv_decision \<Rightarrow> budget_context option \<Rightarrow> budget_context" where
  "budget_context_for_decision d base =
     (case base of None \<Rightarrow> default_context | Some b \<Rightarrow> b)\<lparr>lane := cd_lane d, branch_soft_multiplier := cd_multiplier d\<rparr>"

end
