(* ===== verification/Convergence_Properties.thy ===== *)
theory Convergence_Properties
  imports Convergence Yield_Guarantees
begin

section \<open>Runs of the convergence controller\<close>

text \<open>
  Lemmas on recon/intelligence/convergence.py: the ladder of tiers, one decision, and runs of decisions on one
  branch: what closes it, what advances its tier, how long it pauses.
\<close>

declare split_paired_All [simp del] split_paired_Ex [simp del]

subsection \<open>Tiers and cooldowns\<close>

lemma tier_rank_simps [simp]:
  "tier_rank ST_MICRO = 0" "tier_rank ST_SMALL = 1" "tier_rank ST_MEDIUM = 2" "tier_rank ST_LARGE = 3"
  "tier_rank ST_EXHAUSTIVE = 4"
  by (simp_all add: tier_rank_def tier_order_def)

lemma tier_rank_le: "tier_rank t \<le> 4"
  by (cases t) simp_all

lemma tier_rank_exhaustive [simp]: "4 \<le> tier_rank t \<longleftrightarrow> t = ST_EXHAUSTIVE"
  by (cases t) simp_all

lemma next_tier_rank: "tier_rank (next_tier t) = (if t = ST_EXHAUSTIVE then 4 else tier_rank t + 1)"
  by (cases t) (simp_all add: next_tier_def tier_order_def)

lemma tier_below: "tier_rank t < tier_rank m \<Longrightarrow> tier_rank (next_tier t) = tier_rank t + 1"
  using tier_rank_le[of m] by (auto simp: next_tier_rank)

instantiation search_tier :: linorder
begin

definition less_eq_search_tier :: "search_tier \<Rightarrow> search_tier \<Rightarrow> bool" where
  "less_eq_search_tier a b \<longleftrightarrow> tier_rank a \<le> tier_rank b"

definition less_search_tier :: "search_tier \<Rightarrow> search_tier \<Rightarrow> bool" where
  "less_search_tier a b \<longleftrightarrow> tier_rank a < tier_rank b"

instance
proof
  fix a b :: search_tier
  assume "a \<le> b" "b \<le> a"
  then show "a = b" by (cases a; cases b) (simp_all add: less_eq_search_tier_def)
qed (auto simp: less_eq_search_tier_def less_search_tier_def)

end

lemma search_tier_round_trip: "normalize_tier (search_tier_value t) = Inr t"
proof -
  have "list_all (\<lambda>t. normalize_tier (search_tier_value t) = Inr t) tier_order" by code_simp
  then show ?thesis by (cases t) (simp_all add: tier_order_def)
qed

lemma timedelta_seconds_mono: "x \<le> y \<Longrightarrow> timedelta_seconds x \<le> timedelta_seconds y"
  by (simp add: timedelta_seconds_def round_half_even_mono)

lemma cooldown_between:
  assumes "conv_config_ok c"
  shows "timedelta_seconds (cf_cooldown_base c) \<le> cooldown_duration c n
    \<and> cooldown_duration c n \<le> timedelta_seconds (cf_cooldown_max c)"
proof -
  have b: "0 < cf_cooldown_base c" "cf_cooldown_base c \<le> cf_cooldown_max c" using assms by (simp_all add: conv_config_ok_def)
  have "cf_cooldown_base c * 1 \<le> cf_cooldown_base c * 2 ^ k" for k :: nat
    using b(1) by (intro mult_left_mono) simp_all
  with b(2) have "cf_cooldown_base c \<le> min (cf_cooldown_base c * 2 ^ k) (cf_cooldown_max c)" for k :: nat by simp
  then show ?thesis unfolding cooldown_duration_def Let_def by (intro conjI timedelta_seconds_mono) simp_all
qed

lemma cooldown_mono:
  assumes "conv_config_ok c" and "a \<le> b"
  shows "cooldown_duration c a \<le> cooldown_duration c b"
proof -
  let ?k = "\<lambda>n. nat (min (max 1 n - 1) 20)"
  have "(2::rat) ^ ?k a \<le> 2 ^ ?k b" using assms(2) by (intro power_increasing) (auto simp: min_def max_def)
  moreover have "0 < cf_cooldown_base c" using assms(1) by (simp add: conv_config_ok_def)
  ultimately show ?thesis unfolding cooldown_duration_def Let_def
    by (intro timedelta_seconds_mono min.mono) simp_all
qed

lemma multiplier_bounds:
  assumes "conv_config_ok c"
  shows "1 \<le> productive_soft_multiplier c x \<and> productive_soft_multiplier c x \<le> cf_multiplier_max c"
proof -
  have "1 \<le> cf_multiplier_max c" using assms by (simp add: conv_config_ok_def)
  moreover from this have "0 \<le> clamp01 y * (cf_multiplier_max c - 1)" for y
    using clamp01_bounds[of y] by simp
  ultimately show ?thesis by (simp add: productive_soft_multiplier_def Let_def)
qed

subsection \<open>One decision\<close>

lemmas branch_defs = already_closed_def hard_close_def still_cooling_def soft_cooldown_def sparse_continue_def
  advance_tier_def yield_close_def yield_cooldown_def plain_continue_def conclude_def

text \<open>The nine outcomes of a decision.\<close>

lemma decide_cases:
  obtains (closed) "cv_closed p" "decide c m p i = already_closed p i"
  | (hard) "\<not> cv_closed p" "cf_hard_close_threshold c \<le> hard_pressure (ci_budget i)" "decide c m p i = hard_close p i"
  | (cooling) "\<not> cv_closed p" "cooling p (ci_now i)" "decide c m p i = still_cooling p i"
  | (soft) "\<not> cv_closed p" "\<not> cooling p (ci_now i)" "cf_soft_cooldown_threshold c \<le> soft_pressure (ci_budget i)"
      "decide c m p i = soft_cooldown c p i"
  | (sparse) "\<not> cv_closed p" "\<not> cooling p (ci_now i)" "\<not> history_ready c i" "decide c m p i = sparse_continue p i"
  | (advance) "\<not> cv_closed p" "\<not> cooling p (ci_now i)" "ready_to_advance c m p i"
      "decide c m p i = advance_tier p i (productive_soft_multiplier c (ye_expected_yield (ci_estimate i)))"
  | (close) "\<not> cv_closed p" "\<not> cooling p (ci_now i)" "low_yield c i" "ready_to_close c p i"
      "decide c m p i = yield_close c p i"
  | (pause) "\<not> cv_closed p" "\<not> cooling p (ci_now i)" "low_yield c i" "cf_cooldown_streak c \<le> low_streak c p i"
      "\<not> ready_to_close c p i" "decide c m p i = yield_cooldown c p i"
  | (go_on) "\<not> cv_closed p" "\<not> cooling p (ci_now i)" "history_ready c i"
      "\<not> low_yield c i \<or> low_streak c p i < cf_cooldown_streak c"
      "decide c m p i = plain_continue c p i (productive_soft_multiplier c (ye_expected_yield (ci_estimate i)))"
proof (cases "cv_closed p")
  case True
  then show thesis by (intro closed) (simp_all add: decide_def)
next
  case o: False
  note d = decide_def Let_def
  consider "cf_hard_close_threshold c \<le> hard_pressure (ci_budget i)"
    | "\<not> cf_hard_close_threshold c \<le> hard_pressure (ci_budget i)" "cooling p (ci_now i)"
    | "\<not> cf_hard_close_threshold c \<le> hard_pressure (ci_budget i)" "\<not> cooling p (ci_now i)" by blast
  then show thesis
  proof cases
    case 1
    with o show thesis by (intro hard) (simp_all add: d)
  next
    case 2
    with o show thesis by (intro cooling) (simp_all add: d)
  next
    case 3
    note n = o 3
    consider "cf_soft_cooldown_threshold c \<le> soft_pressure (ci_budget i)"
      | "\<not> cf_soft_cooldown_threshold c \<le> soft_pressure (ci_budget i)" "\<not> history_ready c i"
      | "\<not> cf_soft_cooldown_threshold c \<le> soft_pressure (ci_budget i)" "history_ready c i" "ready_to_advance c m p i"
      | "\<not> cf_soft_cooldown_threshold c \<le> soft_pressure (ci_budget i)" "history_ready c i" "\<not> ready_to_advance c m p i"
      by blast
    then show thesis
    proof cases
      case 1
      with n show thesis by (intro soft) (simp_all add: d)
    next
      case 2
      with n show thesis by (intro sparse) (simp_all add: d)
    next
      case 3
      with n show thesis by (intro advance) (simp_all add: d)
    next
      case 4
      show thesis
      proof (cases "low_yield c i \<and> cf_cooldown_streak c \<le> low_streak c p i")
        case low: True
        show thesis
        proof (cases "ready_to_close c p i")
          case True
          with n 4 low show thesis by (intro close) (simp_all add: d)
        next
          case False
          with n 4 low show thesis by (intro pause) (simp_all add: d)
        qed
      next
        case False
        with n 4 show thesis by (intro go_on) (auto simp: d)
      qed
    qed
  qed
qed

lemma decide_identity:
  "cv_target_key (cd_after (decide c m p i)) = cv_target_key p \<and> cv_branch_id (cd_after (decide c m p i)) = cv_branch_id p
   \<and> cv_lane (cd_after (decide c m p i)) = cv_lane p \<and> cv_last_action (cd_after (decide c m p i)) = Some (cd_action (decide c m p i))
   \<and> cv_updated_at (cd_after (decide c m p i)) = ci_now i"
  by (cases rule: decide_cases[of p c m i]) (simp_all add: branch_defs)

lemma decide_closed: "cv_closed (cd_after (decide c m p i)) \<longleftrightarrow> cd_action (decide c m p i) = CA_CLOSE"
  by (cases rule: decide_cases[of p c m i]) (simp_all add: branch_defs)

lemma decide_tier:
  "cv_tier (cd_after (decide c m p i)) = cd_recommended_tier (decide c m p i)
   \<and> (if cd_action (decide c m p i) = CA_ADVANCE_TIER
      then tier_rank (cd_recommended_tier (decide c m p i)) = tier_rank (cv_tier p) + 1
        \<and> tier_rank (cv_tier p) < tier_rank m \<and> ready_to_advance c m p i
        \<and> cv_productive_streak (cd_after (decide c m p i)) = 0
      else cd_recommended_tier (decide c m p i) = cv_tier p)"
  by (cases rule: decide_cases[of p c m i]) (auto simp: branch_defs ready_to_advance_def tier_below)

subsection \<open>Runs\<close>

definition conv_run :: "conv_config \<Rightarrow> search_tier \<Rightarrow> conv_state \<Rightarrow> conv_input list \<Rightarrow> conv_state" where
  "conv_run c m = foldl (\<lambda>p i. cd_after (decide c m p i))"

lemma conv_run_simps [simp]:
  "conv_run c m p [] = p"
  "conv_run c m p (i # is) = conv_run c m (cd_after (decide c m p i)) is"
  "conv_run c m p (is @ [i]) = cd_after (decide c m (conv_run c m p is) i)"
  by (simp_all add: conv_run_def)

definition hits_hard_limit :: "conv_config \<Rightarrow> conv_input \<Rightarrow> bool" where
  "hits_hard_limit c i \<longleftrightarrow> cf_hard_close_threshold c \<le> hard_pressure (ci_budget i)"

definition times_low :: "conv_config \<Rightarrow> conv_input list \<Rightarrow> int" where
  "times_low c is = int (length (filter (low_yield c) is))"

definition times_productive :: "conv_config \<Rightarrow> conv_input list \<Rightarrow> int" where
  "times_productive c is = int (length (filter (productive c) is))"

lemma times_simps [simp]:
  "times_low c [] = 0" "times_low c (is @ [i]) = times_low c is + (if low_yield c i then 1 else 0)" "0 \<le> times_low c is"
  "times_productive c [] = 0" "times_productive c (is @ [i]) = times_productive c is + (if productive c i then 1 else 0)"
  "0 \<le> times_productive c is"
  by (simp_all add: times_low_def times_productive_def)

lemma decide_low_streak:
  assumes "0 \<le> cv_low_streak p"
  shows "0 \<le> cv_low_streak (cd_after (decide c m p i))
    \<and> cv_low_streak (cd_after (decide c m p i)) \<le> cv_low_streak p + (if low_yield c i then 1 else 0)"
  using assms by (cases rule: decide_cases[of p c m i]) (auto simp: branch_defs low_streak_def)

lemma decide_productive_streak:
  assumes "0 \<le> cv_productive_streak p"
  shows "0 \<le> cv_productive_streak (cd_after (decide c m p i))
    \<and> cv_productive_streak (cd_after (decide c m p i)) \<le> cv_productive_streak p + (if productive c i then 1 else 0)"
  using assms by (cases rule: decide_cases[of p c m i]) (auto simp: branch_defs productive_streak_def)

lemma run_lane [simp]: "cv_lane (conv_run c m p is) = cv_lane p"
  by (induction "is" arbitrary: p) (simp_all add: decide_identity)

lemma run_low_streak:
  assumes "cv_low_streak p = 0"
  shows "0 \<le> cv_low_streak (conv_run c m p is) \<and> cv_low_streak (conv_run c m p is) \<le> times_low c is"
proof (induction "is" rule: rev_induct)
  case (snoc i "is")
  with decide_low_streak[of "conv_run c m p is" c m i] show ?case by (auto split: if_splits)
qed (simp add: assms)

text \<open>What a closed branch has seen.\<close>

definition close_evidence :: "conv_config \<Rightarrow> conv_state \<Rightarrow> conv_input list \<Rightarrow> conv_state \<Rightarrow> bool" where
  "close_evidence c p is q \<longleftrightarrow> list_ex (hits_hard_limit c) is
     \<or> cv_lane p \<noteq> L_EXPLORATION \<and> cv_tier q = ST_EXHAUSTIVE \<and> cf_close_streak c \<le> times_low c is"

lemma run_closed_evidence:
  assumes "\<not> cv_closed p" and "cv_low_streak p = 0"
  shows "cv_closed (conv_run c m p is) \<Longrightarrow> close_evidence c p is (conv_run c m p is)"
proof (induction "is" rule: rev_induct)
  case (snoc i "is")
  let ?q = "conv_run c m p is"
  note streak = run_low_streak[OF assms(2), of c m "is"]
  have a: "cd_action (decide c m ?q i) = CA_CLOSE" using snoc.prems by (simp add: decide_closed)
  show ?case
  proof (cases rule: decide_cases[of ?q c m i])
    case closed
    with snoc.IH show ?thesis by (auto simp: close_evidence_def branch_defs)
  next
    case hard
    then show ?thesis by (simp add: close_evidence_def hits_hard_limit_def)
  next
    case close
    with streak show ?thesis by (auto simp: close_evidence_def branch_defs ready_to_close_def low_streak_def)
  qed (use a in \<open>simp_all add: branch_defs\<close>)
qed (simp add: assms)

text \<open>The ladder: every tier climbed costs a streak of productive evaluations.\<close>

lemma run_ladder:
  assumes "0 \<le> cf_advance_streak c" and "cv_productive_streak p = 0"
  shows "0 \<le> cv_productive_streak (conv_run c m p is)
    \<and> tier_rank (cv_tier p) \<le> tier_rank (cv_tier (conv_run c m p is))
    \<and> tier_rank (cv_tier (conv_run c m p is)) \<le> max (tier_rank (cv_tier p)) (tier_rank m)
    \<and> (int (tier_rank (cv_tier (conv_run c m p is))) - int (tier_rank (cv_tier p))) * cf_advance_streak c
        + cv_productive_streak (conv_run c m p is) \<le> times_productive c is"
proof (induction "is" rule: rev_induct)
  case (snoc i "is")
  let ?q = "conv_run c m p is" and ?d = "decide c m (conv_run c m p is) i"
  note t = decide_tier[of c m ?q i]
  show ?case
  proof (cases "cd_action ?d = CA_ADVANCE_TIER")
    case True
    with t have r: "tier_rank (cv_tier (cd_after ?d)) = tier_rank (cv_tier ?q) + 1" "tier_rank (cv_tier ?q) < tier_rank m"
      "ready_to_advance c m ?q i" "cv_productive_streak (cd_after ?d) = 0" by simp_all
    then have "cf_advance_streak c \<le> cv_productive_streak ?q + 1" "productive c i"
      by (auto simp: ready_to_advance_def productive_streak_def split: if_splits)
    with snoc.IH r(1,2,4) show ?thesis by (auto simp: algebra_simps)
  next
    case False
    with t have "cv_tier (cd_after ?d) = cv_tier ?q" by simp
    moreover note decide_productive_streak[of ?q c m i]
    ultimately show ?thesis using snoc.IH by (auto split: if_splits)
  qed
qed (simp add: assms)

end
