(* ===== verification/Budget_Pressure.thy ===== *)
theory Budget_Pressure
  imports Convergence_Properties Budget_Guarantees
begin

section \<open>The budget inspector against the budget manager\<close>

text \<open>
  BranchBudgetInspector (recon/intelligence/convergence.py) computes the pressure on a branch from the same
  limits and usage as the checks that BudgetManager (recon/core/budgets.py) compiles for a task of the branch.
\<close>

declare split_paired_All [simp del] split_paired_Ex [simp del]

subsection \<open>Usage is never negative\<close>

lemma closes_committed:
  assumes "closes st r s s'" and "items_ok (r_items r)"
  shows "committed s k \<le> committed s' k"
proof -
  have "0 \<le> on_key (r_items r) k" using assms(2) by (rule chunky_nonneg[OF on_key_chunky])
  with assms(1) show ?thesis by (auto simp: closes_def)
qed

lemma step_committed:
  assumes "budget_step p on s s'" and "profile_ok p" and "budget_inv s"
  shows "committed s k \<le> committed s' k"
  using assms
proof (induction rule: budget_step.induct)
  case (reserve m d ctx s uuid now t l)
  show ?case
  proof (cases "0 < l \<and> get_reservation (new_reservation_id uuid) s = None \<and> within_depth m ctx")
    case True
    then have h: "0 < l" "get_reservation (new_reservation_id uuid) s = None" "within_depth m ctx" by auto
    show ?thesis by (cases rule: reserve_cases[OF reserve(5) h(1) reserve(2) h(2,3), of t now]) auto
  next
    case False
    then have "snd (budget_reserve m uuid now t d ctx l s) = s"
      by (auto simp: budget_reserve_def try_reserve_def get_reservation_def within_depth_def make_reservation_def
          split: sum.splits)
    then show ?thesis by simp
  qed
next
  case (close s c rid)
  show ?case
  proof (cases "holds s rid")
    case False
    with budgets.close_inactive[OF close(2) False, of c] show ?thesis by auto
  next
    case True
    then obtain r where r: "get_reservation rid s = Some r" "r_state r = R_ACTIVE" by (auto simp: holds_iff)
    have "items_ok (r_items r)" using budget_invD(2)[OF close(2)] r(1) by (simp add: get_reservation_def)
    with budget_close_spec[OF close(2) r, of c] closes_committed[of _ r s _ k] show ?thesis by auto
  qed
next
  case (renew s rid l now now')
  then show ?case using renew_spec[OF renew(2), of rid "now + l" now'] by (auto simp: budget_renew_def)
next
  case (reap s now)
  then show ?case using reap_spec[OF reap(2), of now] by (auto simp: budget_reap_def)
qed

lemma usage_nonneg:
  assumes "budget_reachable p on s" and "profile_ok p"
  shows "0 \<le> committed s k + reserved s k"
proof -
  have "budget_inv s" using reachable_safe[OF assms] by simp
  have "0 \<le> committed s k" using assms
  proof (induction rule: budget_reachable.induct)
    case start
    then show ?case by (simp add: empty_budget_store_def dict_default_def)
  next
    case (step s s')
    with step_committed[OF step(2,4)] reachable_safe[OF step(1,4)] show ?case by (meson order_trans)
  qed
  moreover have "0 \<le> reserved s k" using budget_invD(5)[OF \<open>budget_inv s\<close>] .
  ultimately show ?thesis by simp
qed

subsection \<open>The same limits\<close>

definition branch_caps_of :: "budget_profile \<Rightarrow> budget_class \<Rightarrow> budget_caps" where
  "branch_caps_of p cls = (if cls = SOFT then soft_branch_limits p else hard_branch_limits p)"

lemma pressures_set:
  "set (pressures_for_caps p bucket cls bl mul s)
     = metric_pressure_for bucket cls bl (exploration_reserve_fraction p) mul s ` set (as_metric_limits (branch_caps_of p cls))"
  by (simp add: pressures_for_caps_def branch_caps_of_def)

text \<open>Every pressure has the check the manager compiles for a task of the branch that asks for the metric.\<close>

definition branch_check ::
  "budget_profile \<Rightarrow> string \<Rightarrow> budget_lane \<Rightarrow> rat \<Rightarrow> metric_pressure \<Rightarrow> rat \<Rightarrow> budget_check" where
  "branch_check p branch bl mul mp x =
     \<lparr>c_bucket_key = ''branch:'' @ branch, c_metric = mp_metric mp, c_class = mp_class mp, c_requested = x,
      c_configured_limit = mp_configured_limit mp, c_effective_limit = mp_effective_limit mp\<rparr>"

lemma branch_check_compiled:
  assumes "mp \<in> set (pressures_for_caps p (''branch:'' @ b) cls (lane ctx) (if cls = SOFT then branch_soft_multiplier ctx else 1) s)"
    and "t_branch_id t = Some b" and "dict_get (as_metric_amounts d) (mp_metric mp) = Some x"
  shows "branch_check p b (lane ctx) (branch_soft_multiplier ctx) mp x \<in> set (all_checks p t d ctx)"
proof -
  let ?mul = "if cls = SOFT then branch_soft_multiplier ctx else 1"
  obtain m v where mv: "(m, v) \<in> set (as_metric_limits (branch_caps_of p cls))"
    and mp: "mp = metric_pressure_for (''branch:'' @ b) cls (lane ctx) (exploration_reserve_fraction p) ?mul s (m, v)"
    using assms(1) unfolding pressures_set by auto
  have m: "mp_metric mp = m" "mp_class mp = cls" by (simp_all add: mp metric_pressure_for_def usage_def Let_def)
  have "branch_check p b (lane ctx) (branch_soft_multiplier ctx) mp x
      \<in> set (checks_for_caps (''branch:'' @ b) (branch_caps_of p cls) (as_metric_amounts d) cls ctx
           (exploration_reserve_fraction p) ?mul)"
    using mv assms(3) unfolding m(1) checks_for_caps_def set_concat set_map Let_def
    by (force simp: branch_check_def mp metric_pressure_for_def usage_def Let_def)
  then have "branch_check p b (lane ctx) (branch_soft_multiplier ctx) mp x \<in> set (class_checks p t (as_metric_amounts d) ctx cls)"
    using assms(2) by (cases cls) (simp_all add: class_checks_def branch_caps_of_def Let_def)
  then show ?thesis by (cases cls) (simp_all add: all_checks_def)
qed

text \<open>An exhausted pressure leaves no room: the check fails for every amount above the rounding tolerance.\<close>

lemma exhausted_exceeds:
  assumes "mp \<in> set (pressures_for_caps p (''branch:'' @ b) cls bl mul s)" and "1 \<le> mp_utilization mp" and "tolerance < x"
    and "\<And>k. 0 \<le> committed s k + reserved s k"
  shows "exceeds s (branch_check p b bl mul' mp x)"
proof -
  let ?k = "(''branch:'' @ b, mp_class mp, mp_metric mp)"
  let ?u = "committed s ?k + reserved s ?k"
  from assms(1) obtain ml where ml: "mp = metric_pressure_for (''branch:'' @ b) cls bl (exploration_reserve_fraction p) mul s ml"
    unfolding pressures_set by blast
  have u: "mp_utilization mp = max 0 (if mp_effective_limit mp \<le> 0 then 1 else ?u / mp_effective_limit mp)"
    by (simp add: ml metric_pressure_for_def usage_def Let_def)
  have "0 \<le> ?u" using assms(4)[of ?k] .
  with assms(2) have "mp_effective_limit mp \<le> ?u"
    unfolding u by (cases "mp_effective_limit mp \<le> 0") (auto simp: le_max_iff_disj le_divide_eq)
  with assms(3) show ?thesis by (simp add: exceeds_def branch_check_def check_key_def)
qed

lemma pressure_of_witness:
  assumes "0 < y" and "y \<le> pressure_of ms"
  obtains m where "m \<in> set ms" "y \<le> mp_utilization m"
proof (cases "ms = []")
  case True
  with assms show thesis by (simp add: pressure_of_def)
next
  case False
  then have "pressure_of ms \<in> mp_utilization ` set ms" using Max_in[of "set (map mp_utilization ms)"] by (simp add: pressure_of_def)
  with assms(2) that show thesis by auto
qed

text \<open>A request that a compiled check refuses changes nothing.\<close>

lemma reserve_not_allowed:
  assumes inv: "budget_inv s" and l: "0 < l" and d: "demand_ok d"
    and new: "get_reservation (new_reservation_id uuid) s = None"
    and c: "c \<in> set (all_checks (bm_profile m) t d ctx)" "exceeds s c"
  shows "\<exists>dec. budget_reserve m uuid now t d ctx l s = (Inr dec, s) \<and> bd_outcome dec \<noteq> B_ALLOW"
proof (cases "within_depth m ctx")
  case False
  with reserve_refuses_depth[OF l False, of uuid now t d s] show ?thesis by (auto simp: plain_decision_def)
next
  case True
  show ?thesis
  proof (rule reserve_cases[OF inv l d new True, of t now])
    assume "compile_checks (bm_profile m) t d ctx = Inr []"
    moreover obtain cs where "compile_checks (bm_profile m) t d ctx = Inr cs" "set cs = set (all_checks (bm_profile m) t d ctx)"
      by (rule compile_checks_spec)
    ultimately show ?thesis using c(1) by simp
  next
    fix cs assume "set cs = set (all_checks (bm_profile m) t d ctx)" "\<forall>c \<in> set cs. \<not> exceeds s c"
    with c show ?thesis by blast
  next
    fix cs assume "budget_reserve m uuid now t d ctx l s =
        (Inr (refusal m t cs (map (violation_of s) (filter (exceeds s) cs))), s)"
    then show ?thesis by (simp add: refusal_def Let_def)
  qed
qed

end
