(* ===== verification/Convergence_Guarantees.thy ===== *)
theory Convergence_Guarantees
  imports Budget_Pressure
begin

section \<open>What the convergence controller guarantees\<close>

text \<open>
  The properties of recon/intelligence/convergence.py over runs of decisions and of evaluations, and its
  agreement with the budget manager.
\<close>

declare split_paired_All [simp del] split_paired_Ex [simp del]

subsection \<open>The stored states\<close>

definition conv_state_ok :: "conv_controller \<Rightarrow> conv_state \<Rightarrow> bool" where
  "conv_state_ok cc p \<longleftrightarrow> 1 \<le> cv_multiplier p \<and> cv_multiplier p \<le> cf_multiplier_max (cc_config cc)
     \<and> cv_tier p \<le> cc_maximum_tier cc \<and> 0 \<le> cv_evaluations p \<and> 0 \<le> cv_low_streak p
     \<and> 0 \<le> cv_productive_streak p \<and> 0 \<le> cv_cooldown_count p
     \<and> (cv_closed p \<longrightarrow> cv_cooldown_until p = None)
     \<and> (cv_cooldown_until p \<noteq> None \<longrightarrow> cv_last_action p = Some CA_COOLDOWN)"

definition conv_key :: "conv_state \<Rightarrow> string option \<times> string \<times> budget_lane" where
  "conv_key p = (cv_target_key p, cv_branch_id p, cv_lane p)"

definition conv_store_ok :: "conv_controller \<Rightarrow> conv_store \<Rightarrow> bool" where
  "conv_store_ok cc s \<longleftrightarrow> list_all (\<lambda>(k, p). conv_key p = k \<and> conv_state_ok cc p) s"

inductive conv_reachable :: "conv_controller \<Rightarrow> conv_store \<Rightarrow> bool" for cc where
  no_states: "conv_reachable cc []"
| evaluated: "conv_reachable cc s \<Longrightarrow> conv_reachable cc (snd (conv_evaluate cc seed branch bl tier now ys bs s))"

lemma decide_ok:
  assumes c: "conv_config_ok (cc_config cc)" and p: "conv_state_ok cc p"
  shows "conv_state_ok cc (cd_after (decide (cc_config cc) (cc_maximum_tier cc) p i))"
proof -
  note m = multiplier_bounds[OF c, of "ye_expected_yield (ci_estimate i)"]
  have max: "1 \<le> cf_multiplier_max (cc_config cc)" using c by (simp add: conv_config_ok_def)
  show ?thesis
  proof (cases rule: decide_cases[of p "cc_config cc" "cc_maximum_tier cc" i])
    case advance
    then have "tier_rank (next_tier (cv_tier p)) \<le> tier_rank (cc_maximum_tier cc)"
      using tier_below[of "cv_tier p" "cc_maximum_tier cc"] by (simp add: ready_to_advance_def)
    with advance m p show ?thesis by (simp add: conv_state_ok_def branch_defs less_eq_search_tier_def)
  qed (use p m max in \<open>auto simp: conv_state_ok_def branch_defs low_streak_def productive_streak_def\<close>)
qed

lemma set_dict_set: "x \<in> set (dict_set k v d) \<Longrightarrow> x = (k, v) \<or> x \<in> set d"
  by (induction d) (auto split: if_splits)

lemma conv_put_ok:
  assumes "conv_store_ok cc s" and "conv_state_ok cc p"
  shows "conv_store_ok cc (conv_put p s)"
  using assms by (auto simp: conv_store_ok_def conv_put_def list_all_iff conv_key_def dest!: set_dict_set)

lemma prior_state_ok:
  assumes "conv_store_ok cc s" and "conv_config_ok (cc_config cc)" and "tier \<le> cc_maximum_tier cc"
    and "prior_state target branch bl tier now s = Inr p"
  shows "conv_state_ok cc p"
proof (cases "conv_get target branch bl s")
  case None
  with assms(2-4) show ?thesis
    by (auto simp: prior_state_def new_conv_state_def conv_state_ok_def conv_config_ok_def bind_res_Inr_iff)
next
  case (Some q)
  then have "conv_state_ok cc q" using assms(1) by (auto simp: conv_store_ok_def conv_get_def list_all_iff dest: map_of_SomeD)
  with Some assms(3,4) show ?thesis by (auto simp: prior_state_def conv_state_ok_def)
qed

lemma prior_state_total:
  assumes "strip branch \<noteq> []"
  shows "\<exists>p. prior_state target branch bl tier now s = Inr p"
  using assms by (auto simp: prior_state_def new_conv_state_def not_blank_def split: option.splits)

lemma trend_total:
  assumes "yield_config_ok (ym_config ym)"
  shows "\<exists>t. branch_trend_for ym branch target ys = Inr t"
proof -
  let ?q = "any_query\<lparr>yq_target_key := target, yq_branch_id := Some branch, yq_newest_first := True,
    yq_limit := Some (yc_trend_window (ym_config ym) * 2)\<rparr>"
  have "2 \<le> yc_trend_window (ym_config ym)" using assms by (simp add: yield_config_ok_def)
  then obtain q where q: "make_yield_query ?q = Inr q" "query_total q"
    using make_query_plain[of ?q] by (auto simp: any_query_def)
  then show ?thesis using yield_query_store_total[OF q(2), of ys] by (simp add: branch_trend_for_def)
qed

lemma conv_input_total:
  assumes ys: "yield_store_ok ys" and c: "yield_config_ok (ym_config (cc_yield cc))" and m: "libm_ok (ym_libm (cc_yield cc))"
    and "1 \<le> mul" and "strip branch \<noteq> []"
  shows "\<exists>i. conv_input_for cc branch target bl mul now ys bs = Inr i \<and> ci_now i = now
    \<and> branch_budget_state (cc_profile cc) branch bl mul bs = Inr (ci_budget i)"
proof -
  let ?q = "any_query\<lparr>yq_target_key := target, yq_branch_id := Some branch\<rparr>"
  obtain t where t: "branch_trend_for (cc_yield cc) branch target ys = Inr t" using trend_total[OF c] by blast
  obtain q where q: "make_yield_query ?q = Inr q" "query_total q" using make_query_plain[of ?q] by (auto simp: any_query_def)
  obtain e where e: "estimate_query (cc_yield cc) ?q ys = Inr e" using estimate_query_total[OF ys c m q] by blast
  obtain b where b: "branch_budget_state (cc_profile cc) branch bl mul bs = Inr b"
    using assms(4,5) by (auto simp: branch_budget_state_def Let_def)
  show ?thesis by (simp add: conv_input_for_def t e b)
qed

lemma evaluate_invariant:
  assumes "conv_config_ok (cc_config cc)" and "conv_store_ok cc s"
  shows "conv_store_ok cc (snd (conv_evaluate cc seed branch bl tier now ys bs s))"
proof (cases "tier_rank (cc_maximum_tier cc) < tier_rank tier")
  case True
  with assms(2) show ?thesis by (simp add: conv_evaluate_def)
next
  case False
  then have t: "tier \<le> cc_maximum_tier cc" by (simp add: less_eq_search_tier_def)
  from prior_state_ok[OF assms(2,1) t] decide_ok[OF assms(1)] conv_put_ok[OF assms(2)] assms(2) False
  show ?thesis by (auto simp: conv_evaluate_def Let_def split: sum.split)
qed

lemma conv_reachable_ok: "conv_reachable cc s \<Longrightarrow> conv_config_ok (cc_config cc) \<Longrightarrow> conv_store_ok cc s"
proof (induction rule: conv_reachable.induct)
  case no_states
  then show ?case by (simp add: conv_store_ok_def)
qed (rule evaluate_invariant)

lemma evaluate_total:
  assumes s: "conv_store_ok cc s" and c: "conv_config_ok (cc_config cc)" and ys: "yield_store_ok ys"
    and y: "yield_config_ok (ym_config (cc_yield cc))" "libm_ok (ym_libm (cc_yield cc))"
    and b: "strip branch \<noteq> []" and t: "tier \<le> cc_maximum_tier cc"
  shows "\<exists>d p i. conv_evaluate cc seed branch bl tier now ys bs s = (Inr d, conv_put (cd_after d) s)
    \<and> prior_state (target_key_for_event (ym_idna (cc_yield cc)) seed) branch bl tier now s = Inr p \<and> conv_state_ok cc p
    \<and> d = decide (cc_config cc) (cc_maximum_tier cc) p i \<and> ci_now i = now
    \<and> branch_budget_state (cc_profile cc) branch bl (cv_multiplier p) bs = Inr (ci_budget i)"
proof -
  let ?target = "target_key_for_event (ym_idna (cc_yield cc)) seed"
  obtain p where p: "prior_state ?target branch bl tier now s = Inr p" using prior_state_total[OF b] by blast
  note ok = prior_state_ok[OF s c t p]
  then have "1 \<le> cv_multiplier p" by (simp add: conv_state_ok_def)
  with conv_input_total[OF ys y _ b] obtain i where i: "conv_input_for cc branch ?target bl (cv_multiplier p) now ys bs = Inr i"
    "ci_now i = now" "branch_budget_state (cc_profile cc) branch bl (cv_multiplier p) bs = Inr (ci_budget i)" by blast
  have "\<not> tier_rank (cc_maximum_tier cc) < tier_rank tier" using t by (simp add: less_eq_search_tier_def)
  with p i ok show ?thesis
    by (intro exI[of _ "decide (cc_config cc) (cc_maximum_tier cc) p i"] exI[of _ p] exI[of _ i])
      (simp add: conv_evaluate_def Let_def)
qed

subsection \<open>Persistent low yield\<close>

definition persistently_low :: "conv_config \<Rightarrow> conv_input \<Rightarrow> bool" where
  "persistently_low c i \<longleftrightarrow> low_yield c i \<and> ye_uncertainty (ci_estimate i) \<le> cf_low_information_gain c
     \<and> soft_pressure (ci_budget i) < cf_soft_cooldown_threshold c"

text \<open>The evaluations of a run that no cooldown suspends.\<close>

fun awake_steps :: "conv_config \<Rightarrow> search_tier \<Rightarrow> conv_state \<Rightarrow> conv_input list \<Rightarrow> int" where
  "awake_steps c m p [] = 0"
| "awake_steps c m p (i # is) =
     (if cooling p (ci_now i) then 0 else 1) + awake_steps c m (cd_after (decide c m p i)) is"

lemma run_closed_stays: "cv_closed p \<Longrightarrow> cv_closed (conv_run c m p is)"
  by (induction "is" arbitrary: p) (auto simp: decide_def already_closed_def conclude_def)

lemma low_step:
  assumes "persistently_low c i" and "\<not> cv_closed p" and "cv_tier p = ST_EXHAUSTIVE"
    and "conv_config_ok c"
  shows "cv_closed (cd_after (decide c m p i))
    \<or> cv_tier (cd_after (decide c m p i)) = ST_EXHAUSTIVE
      \<and> cv_low_streak (cd_after (decide c m p i)) = cv_low_streak p + (if cooling p (ci_now i) then 0 else 1)
      \<and> (cooling p (ci_now i) \<or> cv_lane p = L_EXPLORATION \<or> cv_low_streak (cd_after (decide c m p i)) < cf_close_streak c)"
proof (cases rule: decide_cases[of p c m i])
  case go_on
  then have "low_streak c p i < cf_cooldown_streak c" using assms(1) by (simp add: persistently_low_def)
  moreover have "cf_cooldown_streak c \<le> cf_close_streak c" using assms(4) by (simp add: conv_config_ok_def)
  ultimately show ?thesis using go_on assms(1,3) by (auto simp: branch_defs low_streak_def persistently_low_def)
next
  case advance
  then show ?thesis using assms(3) tier_rank_le[of m] by (simp add: ready_to_advance_def)
next
  case sparse
  then show ?thesis using assms(1) by (simp add: persistently_low_def low_yield_def)
qed (use assms in \<open>auto simp: branch_defs low_streak_def persistently_low_def ready_to_close_def\<close>)

lemma low_run_closes:
  assumes c: "conv_config_ok c" and "list_all (persistently_low c) is" and "cv_lane p \<noteq> L_EXPLORATION"
    and "cv_tier p = ST_EXHAUSTIVE" and "cf_close_streak c \<le> cv_low_streak p + awake_steps c m p is"
    and "cv_closed p \<or> cv_low_streak p < cf_close_streak c"
  shows "cv_closed (conv_run c m p is)"
  using assms(2-)
proof (induction "is" arbitrary: p)
  case (Cons i "is")
  show ?case
  proof (cases "cv_closed p")
    case True
    then show ?thesis by (rule run_closed_stays)
  next
    case False
    let ?q = "cd_after (decide c m p i)"
    from Cons.prems(1) have i: "persistently_low c i" "list_all (persistently_low c) is" by simp_all
    from low_step[OF i(1) False Cons.prems(3) c, of m] show ?thesis
    proof
      assume "cv_closed ?q"
      then show ?thesis by (simp add: run_closed_stays)
    next
      assume q: "cv_tier ?q = ST_EXHAUSTIVE
        \<and> cv_low_streak ?q = cv_low_streak p + (if cooling p (ci_now i) then 0 else 1)
        \<and> (cooling p (ci_now i) \<or> cv_lane p = L_EXPLORATION \<or> cv_low_streak ?q < cf_close_streak c)"
      have lane: "cv_lane ?q \<noteq> L_EXPLORATION" using Cons.prems(2) decide_identity[of c m p i] by simp
      have "cv_low_streak ?q < cf_close_streak c" using q Cons.prems(2,5) False by (auto split: if_splits)
      moreover have "cf_close_streak c \<le> cv_low_streak ?q + awake_steps c m ?q is" using q Cons.prems(4) by simp
      ultimately show ?thesis using Cons.IH[OF i(2) lane, of] q by simp
    qed
  qed
qed simp

subsection \<open>Samples\<close>

definition sample_conv_budget :: branch_budget where
  "sample_conv_budget = \<lparr>bb_branch_id = ''b'', bb_lane = L_NORMAL, bb_reserve_fraction = 1 / 5, bb_multiplier = 1,
     bb_soft = [], bb_hard = []\<rparr>"

definition sample_trend :: "rat \<Rightarrow> bool \<Rightarrow> branch_trend" where
  "sample_trend hits low = \<lparr>bt_target_key = None, bt_branch_id = ''b'', bt_recent_executions = 8,
     bt_previous_executions = 0, bt_recent_hit_rate = hits, bt_previous_hit_rate = 0, bt_recent_assets = hits,
     bt_previous_assets = 0, bt_recent_novel = hits, bt_previous_novel = 0, bt_delta = hits,
     bt_signal = 1 - hits, bt_low_marginal = low, bt_reason = []\<rparr>"

definition sample_estimate :: "rat \<Rightarrow> yield_estimate" where
  "sample_estimate y = \<lparr>ye_query = any_query, ye_aggregate = empty_aggregate, ye_posterior_hit_rate = y,
     ye_discovery_score = y, ye_novelty_score = y, ye_execution_reliability = 1, ye_expected_yield = y,
     ye_uncertainty = 1 / 10, ye_estimated_cost = 1, ye_sample_size = 99\<rparr>"

definition low_input :: "time \<Rightarrow> conv_input" where
  "low_input now = \<lparr>ci_trend = sample_trend 0 True, ci_estimate = sample_estimate 0,
     ci_budget = sample_conv_budget, ci_now = now\<rparr>"

definition productive_input :: "time \<Rightarrow> conv_input" where
  "productive_input now = \<lparr>ci_trend = sample_trend 1 False, ci_estimate = sample_estimate 1,
     ci_budget = sample_conv_budget, ci_now = now\<rparr>"

definition sample_conv_state :: "search_tier \<Rightarrow> conv_state" where
  "sample_conv_state tier = \<lparr>cv_target_key = None, cv_branch_id = ''b'', cv_lane = L_NORMAL, cv_tier = tier,
     cv_multiplier = 1, cv_evaluations = 0, cv_low_streak = 0, cv_productive_streak = 0, cv_cooldown_count = 0,
     cv_cooldown_until = None, cv_closed = False, cv_last_action = None, cv_updated_at = 0\<rparr>"

lemma default_conv_config_ok: "conv_config_ok default_conv_config"
  by (simp add: conv_config_ok_def default_conv_config_def)

lemma low_input_persistent: "persistently_low default_conv_config (low_input now)"
  by (simp add: persistently_low_def low_yield_def history_ready_def low_input_def sample_trend_def sample_estimate_def
      sample_conv_budget_def default_conv_config_def soft_pressure_def pressure_of_def)

text \<open>Four evaluations at hour marks; the first cooldown starts after the second one and ends before the third.\<close>

definition low_inputs :: "conv_input list" where
  "low_inputs = map low_input [0, 3600000000, 7200000000, 360000000000]"

lemma low_inputs_awake: "awake_steps default_conv_config ST_EXHAUSTIVE (sample_conv_state ST_EXHAUSTIVE) low_inputs = 4"
  by code_simp

subsection \<open>The properties\<close>

text \<open>C10: a branch is closed only on evidence: in every run of decisions from an open branch without a low streak,
  a closed branch has met
  an exhausted hard budget, or it is a NORMAL branch at tier EXHAUSTIVE that has been found low at least
  \<open>close_low_yield_streak\<close> times; low yield alone never closes an EXPLORATION branch.\<close>

theorem close_needs_evidence:
  assumes "\<not> cv_closed p" and "cv_low_streak p = 0" and "cv_closed (conv_run c m p is)"
  shows "list_ex (hits_hard_limit c) is
     \<or> cv_lane p \<noteq> L_EXPLORATION \<and> cv_tier (conv_run c m p is) = ST_EXHAUSTIVE \<and> cf_close_streak c \<le> times_low c is"
  using run_closed_evidence[OF assms] by (simp add: close_evidence_def)

theorem close_needs_evidence_witness:
  "cf_close_streak default_conv_config \<le> times_low default_conv_config low_inputs"
proof -
  have "\<not> list_ex (hits_hard_limit default_conv_config) low_inputs" by code_simp
  moreover have "cv_closed (conv_run default_conv_config ST_EXHAUSTIVE (sample_conv_state ST_EXHAUSTIVE) low_inputs)" by code_simp
  ultimately show ?thesis
    using close_needs_evidence[of "sample_conv_state ST_EXHAUSTIVE" default_conv_config ST_EXHAUSTIVE low_inputs]
    by (simp add: sample_conv_state_def)
qed

text \<open>C11: low yield ends: a NORMAL branch at tier EXHAUSTIVE whose yield stays low with little uncertainty and room in
  its soft budget is closed within \<open>close_low_yield_streak\<close> evaluations that fall outside its cooldowns.\<close>

theorem low_yield_branch_closes:
  assumes "conv_config_ok c" and "list_all (persistently_low c) is" and "cv_lane p = L_NORMAL"
    and "cv_tier p = ST_EXHAUSTIVE" and "cv_low_streak p = 0" and "cf_close_streak c \<le> awake_steps c m p is"
  shows "cv_closed (conv_run c m p is)"
  using low_run_closes[of c "is" p m] assms by (simp add: conv_config_ok_def)

theorem low_yield_branch_closes_witness:
  "cv_closed (conv_run default_conv_config ST_EXHAUSTIVE (sample_conv_state ST_EXHAUSTIVE) low_inputs)"
proof -
  have "list_all (persistently_low default_conv_config) low_inputs" by (simp add: low_inputs_def low_input_persistent)
  moreover have "cf_close_streak default_conv_config = 4" by (simp add: default_conv_config_def)
  ultimately show ?thesis
    using low_yield_branch_closes[OF default_conv_config_ok, of low_inputs "sample_conv_state ST_EXHAUSTIVE" ST_EXHAUSTIVE]
    by (simp add: low_inputs_awake) (simp add: sample_conv_state_def)
qed

text \<open>C12: tiers are earned: in every run the tier only rises, never above the maximum (or where it started), and every
  tier climbed has cost a full streak of productive evaluations.\<close>

theorem tiers_are_earned:
  assumes "conv_config_ok c" and "cv_productive_streak p = 0"
  shows "cv_tier p \<le> cv_tier (conv_run c m p is) \<and> cv_tier (conv_run c m p is) \<le> max (cv_tier p) m
    \<and> (int (tier_rank (cv_tier (conv_run c m p is))) - int (tier_rank (cv_tier p))) * cf_advance_streak c
        \<le> times_productive c is"
proof -
  have "0 \<le> cf_advance_streak c" using assms(1) by (simp add: conv_config_ok_def)
  from run_ladder[OF this assms(2), of m "is"] show ?thesis
    by (auto simp: less_eq_search_tier_def max_def split: if_splits)
qed

theorem tiers_are_earned_witness:
  "cv_tier (conv_run default_conv_config ST_EXHAUSTIVE (sample_conv_state ST_MICRO) (map productive_input [1, 2, 3]))
     = ST_SMALL
   \<and> ST_MICRO \<le> cv_tier (conv_run default_conv_config ST_EXHAUSTIVE (sample_conv_state ST_MICRO) (map productive_input [1, 2, 3]))"
proof -
  have "cv_tier (conv_run default_conv_config ST_EXHAUSTIVE (sample_conv_state ST_MICRO) (map productive_input [1, 2, 3]))
     = ST_SMALL" by code_simp
  with tiers_are_earned[OF default_conv_config_ok, of "sample_conv_state ST_MICRO" ST_EXHAUSTIVE "map productive_input [1, 2, 3]"]
  show ?thesis by (simp add: sample_conv_state_def)
qed

text \<open>C9: evaluation never fails: from every state the controller reaches, an evaluation of a named branch at an allowed
  tier succeeds; it stores exactly the state of its decision, which keeps the bounds of ConvergenceState, the
  multiplier and the tier within the configured maxima, and a closed branch closed.\<close>

theorem evaluation_total_and_sound:
  assumes "conv_reachable cc s" and "conv_config_ok (cc_config cc)" and "yield_reachable ys"
    and "yield_config_ok (ym_config (cc_yield cc))" and "libm_ok (ym_libm (cc_yield cc))"
    and "strip branch \<noteq> []" and "tier \<le> cc_maximum_tier cc"
  shows "\<exists>d. conv_evaluate cc seed branch bl tier now ys bs s = (Inr d, conv_put (cd_after d) s)
    \<and> conv_state_ok cc (cd_after d) \<and> conv_store_ok cc (conv_put (cd_after d) s)
    \<and> cd_recommended_tier d = cv_tier (cd_after d)
    \<and> (cv_closed (cd_before d) \<longrightarrow> cd_action d = CA_CLOSE)
    \<and> (cv_closed (cd_after d) \<longleftrightarrow> cd_action d = CA_CLOSE)"
proof -
  note s = conv_reachable_ok[OF assms(1,2)]
  from evaluate_total[OF s assms(2) yield_reachable_ok[OF assms(3)] assms(4-7)]
  obtain d p i where d: "conv_evaluate cc seed branch bl tier now ys bs s = (Inr d, conv_put (cd_after d) s)"
    "conv_state_ok cc p" "d = decide (cc_config cc) (cc_maximum_tier cc) p i" by blast
  note ok = decide_ok[OF assms(2) d(2), of i]
  have "cd_before d = p" by (cases rule: decide_cases[of p "cc_config cc" "cc_maximum_tier cc" i]) (simp_all add: d(3) branch_defs)
  moreover have "cv_closed p \<longrightarrow> cd_action d = CA_CLOSE" by (simp add: d(3) decide_def already_closed_def conclude_def)
  ultimately show ?thesis
    using d(1) ok conv_put_ok[OF s ok] decide_tier[of "cc_config cc" "cc_maximum_tier cc" p i]
      decide_closed[of "cc_config cc" "cc_maximum_tier cc" p i] by (simp add: d(3))
qed

definition sample_controller :: conv_controller where
  "sample_controller = \<lparr>cc_yield = sample_model, cc_profile = sample_profile, cc_config = default_conv_config,
     cc_maximum_tier = ST_EXHAUSTIVE\<rparr>"

lemma strip_b: "strip ''b'' = ''b''"
  by code_simp

theorem evaluation_total_and_sound_witness:
  "\<exists>d. fst (conv_evaluate sample_controller dns_event ''b'' L_NORMAL ST_MICRO 5 [] budget_sample []) = Inr d
     \<and> conv_state_ok sample_controller (cd_after d)"
proof -
  have "conv_config_ok (cc_config sample_controller)" "yield_config_ok (ym_config (cc_yield sample_controller))"
    "libm_ok (ym_libm (cc_yield sample_controller))" "ST_MICRO \<le> cc_maximum_tier sample_controller"
    by (simp_all add: sample_controller_def default_conv_config_ok sample_model_def default_yield_config_ok sample_libm_ok
        less_eq_search_tier_def)
  with evaluation_total_and_sound[OF no_states _ no_observations, of sample_controller "''b''" ST_MICRO dns_event L_NORMAL 5 budget_sample]
  show ?thesis by (auto simp: strip_b)
qed

text \<open>C14: an exhausted branch is out of budget: the pressures of the inspector are those of the manager, so when the
  controller sees the hard limit of a branch reached, or its soft limit for the lane and multiplier of a task, there
  is a metric of which no task of the branch gets anything: such a request is refused and changes nothing.\<close>

theorem exhausted_branch_is_refused:
  assumes "profile_ok (bm_profile m)" and "budget_reachable (bm_profile m) on s"
    and "branch_budget_state (bm_profile m) branch bl mul s = Inr b"
    and "1 \<le> hard_pressure b \<or> 1 \<le> soft_pressure b"
  shows "\<exists>mp. mp \<in> set (bb_hard b @ bb_soft b) \<and> 1 \<le> mp_utilization mp \<and> (\<forall>(t :: task) (d :: budget_demand) (ctx :: budget_context) l uuid now x. 0 < l \<and> demand_ok d \<and> get_reservation (new_reservation_id uuid) s = None
      \<and> t_branch_id t = Some (strip branch) \<and> lane ctx = bl \<and> branch_soft_multiplier ctx = mul
      \<and> dict_get (as_metric_amounts d) (mp_metric mp) = Some x
    \<longrightarrow> (\<exists>dec. budget_reserve m uuid now t d ctx l s = (Inr dec, s) \<and> bd_outcome dec \<noteq> B_ALLOW))"
proof -
  let ?P = "\<lambda>cls. pressures_for_caps (bm_profile m) (''branch:'' @ strip branch) cls bl (if cls = SOFT then mul else 1) s"
  have b: "bb_soft b = ?P SOFT" "bb_hard b = ?P HARD"
    using assms(3) by (auto simp: branch_budget_state_def Let_def split: if_splits)
  have inv: "budget_inv s" using reachable_safe[OF assms(2,1)] by simp
  note use = usage_nonneg[OF assms(2,1)]
  obtain mp cls where mp: "mp \<in> set (?P cls)" "1 \<le> mp_utilization mp" "mp \<in> set (bb_hard b @ bb_soft b)"
    using assms(4)
  proof
    assume "1 \<le> hard_pressure b"
    then obtain mp where "mp \<in> set (bb_hard b)" "1 \<le> mp_utilization mp"
      unfolding hard_pressure_def by (rule pressure_of_witness[rotated]) simp_all
    with that[of mp HARD] b show thesis by simp
  next
    assume "1 \<le> soft_pressure b"
    then obtain mp where "mp \<in> set (bb_soft b)" "1 \<le> mp_utilization mp"
      unfolding soft_pressure_def by (rule pressure_of_witness[rotated]) simp_all
    with that[of mp SOFT] b show thesis by simp
  qed
  show ?thesis
  proof (intro exI[of _ mp] conjI mp(2,3) allI impI, elim conjE)
    fix t :: task and d :: budget_demand and uuid now x and ctx :: budget_context and l :: timedelta
    assume h: "0 < l" "demand_ok d" "get_reservation (new_reservation_id uuid) s = None"
      "t_branch_id t = Some (strip branch)" "lane ctx = bl" "branch_soft_multiplier ctx = mul"
      "dict_get (as_metric_amounts d) (mp_metric mp) = Some x"
    have "tolerance < x" using h(2,7) by (auto simp: demand_ok_def dest: map_of_SomeD)
    note ex = exhausted_exceeds[OF mp(1,2) this use]
    from branch_check_compiled[of mp "bm_profile m" "strip branch" cls ctx s t d x, unfolded h(5,6), OF mp(1) h(4,7)]
    have "branch_check (bm_profile m) (strip branch) bl mul mp x \<in> set (all_checks (bm_profile m) t d ctx)" .
    from reserve_not_allowed[OF inv h(1-3) this ex] show
      "\<exists>dec. budget_reserve m uuid now t d ctx l s = (Inr dec, s) \<and> bd_outcome dec \<noteq> B_ALLOW" .
  qed
qed

text \<open>On the sample run the slot of branch b is taken, so a second task of the branch waits.\<close>

definition sample_branch_budget :: branch_budget where
  "sample_branch_budget = \<lparr>bb_branch_id = ''b'', bb_lane = L_NORMAL, bb_reserve_fraction = 1 / 2, bb_multiplier = 1,
     bb_soft = [], bb_hard = [\<lparr>mp_metric = M_CONCURRENT_TASKS, mp_class = HARD, mp_configured_limit = 1,
       mp_effective_limit = 1, mp_committed = 0, mp_reserved = 1, mp_utilization = 1\<rparr>]\<rparr>"

lemma sample_usage:
  "usage (''branch:b'', HARD, M_CONCURRENT_TASKS) budget_sample = (0, 1)"
  unfolding budget_sample_eq usage_def add_items_spec
  by (simp add: empty_budget_store_def dict_default_def sample_checks_def on_key_def item_key_def)

lemma sample_branch_state: "branch_budget_state sample_profile ''b'' L_NORMAL 1 budget_sample = Inr sample_branch_budget"
  by (simp add: branch_budget_state_def strip_b Let_def pressures_for_caps_def sample_profile_def default_profile_def
      no_caps_def as_metric_limits_def metric_pressure_for_def sample_usage sample_branch_budget_def)

theorem exhausted_branch_is_refused_witness:
  "\<exists>dec. budget_reserve sample_manager 8 0 budget_task default_demand default_context 1000 budget_sample
     = (Inr dec, budget_sample) \<and> bd_outcome dec \<noteq> B_ALLOW"
proof -
  have p: "bm_profile sample_manager = sample_profile" by (simp add: sample_manager_def)
  have "1 \<le> hard_pressure sample_branch_budget" by (simp add: hard_pressure_def pressure_of_def sample_branch_budget_def)
  then obtain mp where mp: "mp \<in> set (bb_hard sample_branch_budget @ bb_soft sample_branch_budget)"
    "\<forall>(t :: task) (d :: budget_demand) (ctx :: budget_context) l uuid now x. 0 < l \<and> demand_ok d \<and> get_reservation (new_reservation_id uuid) budget_sample = None
      \<and> t_branch_id t = Some (strip ''b'') \<and> lane ctx = L_NORMAL \<and> branch_soft_multiplier ctx = 1
      \<and> dict_get (as_metric_amounts d) (mp_metric mp) = Some x
    \<longrightarrow> (\<exists>dec. budget_reserve sample_manager uuid now t d ctx l budget_sample = (Inr dec, budget_sample) \<and> bd_outcome dec \<noteq> B_ALLOW)"
    using exhausted_branch_is_refused[of sample_manager True budget_sample "''b''" L_NORMAL 1 sample_branch_budget]
      sample_profile_ok budget_sample_reachable sample_branch_state unfolding p by blast
  have "mp_metric mp = M_CONCURRENT_TASKS" using mp(1) by (simp add: sample_branch_budget_def)
  moreover have "dict_get (as_metric_amounts default_demand) M_CONCURRENT_TASKS = Some 1" by code_simp
  moreover have "new_reservation_id 8 \<noteq> new_reservation_id 7"
    by (simp add: new_reservation_id_def uuid_hex_def upt_rec hex_digit_def)
  then have "get_reservation (new_reservation_id 8) budget_sample = None"
    unfolding budget_sample_eq get_reservation_def add_items_spec by (simp add: empty_budget_store_def)
  moreover have "t_branch_id budget_task = Some (strip ''b'')" by (simp add: budget_task_def strip_b)
  moreover have "lane default_context = L_NORMAL" "branch_soft_multiplier default_context = 1"
    by (simp_all add: default_context_def)
  ultimately show ?thesis using mp(2) sample_demand_ok by simp
qed

text \<open>A branch with one slot: the profile, the check of its tasks, the store while a task runs and after it.\<close>

definition busy_profile :: budget_profile where
  "busy_profile = default_profile\<lparr>hard_branch_limits := no_caps\<lparr>cap_concurrent_tasks := Some 1\<rparr>\<rparr>"

definition busy_manager :: budget_manager where
  "busy_manager = \<lparr>bm_profile = busy_profile, bm_capacity_retry_after = 1000000\<rparr>"

definition busy_controller :: conv_controller where
  "busy_controller = sample_controller\<lparr>cc_profile := busy_profile\<rparr>"

definition busy_seed :: event where
  "busy_seed = dns_event\<lparr>ev_metadata := [(''target_key'', J_string ''a.example'')]\<rparr>"

definition busy_check :: budget_check where
  "busy_check = \<lparr>c_bucket_key = ''branch:b'', c_metric = M_CONCURRENT_TASKS, c_class = HARD, c_requested = 1,
     c_configured_limit = 1, c_effective_limit = 1\<rparr>"

lemma busy_compiled: "compile_checks busy_profile budget_task default_demand default_context = Inr [busy_check]"
  by (simp add: busy_check_def compile_checks_def merge_checks_def class_checks_def checks_for_caps_def Let_def
      busy_profile_def default_profile_def budget_task_def default_demand_def default_context_def
      as_metric_amounts_def as_metric_limits_def no_caps_def check_key_def check_sort_key_def)

lemma busy_profile_ok: "profile_ok busy_profile"
  by (simp add: profile_ok_def busy_profile_def default_profile_def caps_ok_def as_metric_limits_def no_caps_def)

lemma busy_within_depth: "within_depth busy_manager default_context"
  by (simp add: within_depth_def too_deep_def busy_manager_def busy_profile_def default_profile_def)

lemma busy_reserve:
  assumes "budget_inv s" and "get_reservation (new_reservation_id uuid) s = None"
    and "usage (''branch:b'', HARD, M_CONCURRENT_TASKS) s = (0, 0)"
  shows "\<exists>dec s'. budget_reserve busy_manager uuid 0 budget_task default_demand default_context 1000 s = (Inr dec, s')
    \<and> bd_outcome dec = B_ALLOW \<and> budget_inv s' \<and> usage (''branch:b'', HARD, M_CONCURRENT_TASKS) s' = (0, 1)
    \<and> get_reservation (new_reservation_id uuid) s' = Some (make_reservation uuid budget_task [busy_check] 0 1000)
    \<and> (\<forall>u. new_reservation_id u \<noteq> new_reservation_id uuid \<longrightarrow> get_reservation (new_reservation_id u) s' = get_reservation (new_reservation_id u) s)"
proof -
  have p: "bm_profile busy_manager = busy_profile" by (simp add: busy_manager_def)
  have fits: "\<not> exceeds s busy_check" using assms(3) tolerance_pos by (simp add: exceeds_def busy_check_def check_key_def usage_def)
  show ?thesis
  proof (rule reserve_cases[OF assms(1) _ sample_demand_ok assms(2) busy_within_depth, of 1000 budget_task 0, unfolded p busy_compiled])
    fix cs s'
    assume "Inr [busy_check] = (Inr cs :: budget_check list res)"
      and r: "budget_reserve busy_manager uuid 0 budget_task default_demand default_context 1000 s =
        (Inr \<lparr>bd_outcome = B_ALLOW, bd_task_id = t_task_id budget_task,
           bd_reservation = Some (make_reservation uuid budget_task cs 0 1000), bd_violations = [],
           bd_checked_limits = cs, bd_reason = None, bd_retry_after_seconds = None\<rparr>, s')"
      and s': "budget_inv s'" "bs_committed s' = bs_committed s"
        "bs_reservations s' = dict_set (new_reservation_id uuid) (make_reservation uuid budget_task cs 0 1000) (bs_reservations s)"
        "\<forall>k. reserved s' k = reserved s k + on_key (items_of cs) k"
    then have cs: "cs = [busy_check]" by simp
    from r s' assms(3) show ?thesis
      by (simp add: cs usage_def get_reservation_def busy_check_def item_key_def)
  next
    fix cs c
    assume "Inr [busy_check] = (Inr cs :: budget_check list res)" "c \<in> set cs" "exceeds s c"
    with fits show ?thesis by auto
  qed simp_all
qed

lemma busy_target: "target_key_for_event idna busy_seed = Some ''a.example''"
proof -
  have "lower (strip ''a.example'') = ''a.example''" by code_simp
  then show ?thesis by (simp add: target_key_for_event_def metadata_text_def busy_seed_def)
qed

lemma busy_pressure:
  assumes "usage (''branch:b'', HARD, M_CONCURRENT_TASKS) s = (0, 1)"
    and "branch_budget_state busy_profile ''b'' L_NORMAL mul s = Inr b"
  shows "hard_pressure b = 1"
  using assms by (auto simp: branch_budget_state_def strip_b Let_def pressures_for_caps_def busy_profile_def default_profile_def
      no_caps_def as_metric_limits_def metric_pressure_for_def hard_pressure_def pressure_of_def split: if_splits)

text \<open>The state is stored under the key it is looked up with, for canonical targets and branch identifiers.\<close>

lemma prior_key:
  assumes "conv_store_ok cc s" and "prior_state (Some t) branch bl tier now s = Inr p"
    and "lower (strip t) = t" and "lower t = t" and "t \<noteq> []" and "strip branch = branch"
  shows "conv_key p = (Some t, branch, bl)"
proof (cases "conv_get (Some t) branch bl s")
  case None
  with assms(2-) show ?thesis
    by (auto simp: prior_state_def new_conv_state_def bind_res_Inr_iff conv_key_def not_blank_Inr)
next
  case (Some q)
  with assms(1,4) have "conv_key q = (Some t, branch, bl)"
    by (auto simp: conv_store_ok_def conv_get_def list_all_iff dest: map_of_SomeD)
  with Some assms(2) show ?thesis by (auto simp: prior_state_def conv_key_def)
qed

lemma conv_get_put:
  "conv_key p = (Some t, branch, bl) \<Longrightarrow> lower t = t \<Longrightarrow> conv_get (Some t) branch bl (conv_put p s) = Some p"
  by (auto simp: conv_get_def conv_put_def conv_key_def)

lemma evaluate_busy:
  assumes s: "conv_store_ok busy_controller s" and ys: "yield_reachable ys"
    and b: "usage (''branch:b'', HARD, M_CONCURRENT_TASKS) bs = (0, 1)
      \<or> (\<exists>p. conv_get (Some ''a.example'') ''b'' L_NORMAL s = Some p \<and> cv_closed p)"
  shows "\<exists>d. conv_evaluate busy_controller busy_seed ''b'' L_NORMAL ST_MICRO now ys bs s = (Inr d, conv_put (cd_after d) s)
    \<and> cd_action d = CA_CLOSE \<and> conv_store_ok busy_controller (conv_put (cd_after d) s)
    \<and> conv_get (Some ''a.example'') ''b'' L_NORMAL (conv_put (cd_after d) s) = Some (cd_after d) \<and> cv_closed (cd_after d)"
proof -
  have c: "conv_config_ok (cc_config busy_controller)" "yield_config_ok (ym_config (cc_yield busy_controller))"
    "libm_ok (ym_libm (cc_yield busy_controller))" "ST_MICRO \<le> cc_maximum_tier busy_controller"
    "cf_hard_close_threshold (cc_config busy_controller) = 1" "cc_profile busy_controller = busy_profile"
    by (simp_all add: busy_controller_def sample_controller_def default_conv_config_ok sample_model_def default_yield_config_ok
        sample_libm_ok less_eq_search_tier_def) (simp add: default_conv_config_def)
  have t: "lower (strip ''a.example'') = ''a.example''" "lower ''a.example'' = ''a.example''" by code_simp+
  from evaluate_total[OF s c(1) yield_reachable_ok[OF ys] c(2,3) _ c(4), of "''b''" busy_seed L_NORMAL now bs]
  obtain d p i where d: "conv_evaluate busy_controller busy_seed ''b'' L_NORMAL ST_MICRO now ys bs s = (Inr d, conv_put (cd_after d) s)"
    "prior_state (Some ''a.example'') ''b'' L_NORMAL ST_MICRO now s = Inr p" "conv_state_ok busy_controller p"
    "d = decide (cc_config busy_controller) (cc_maximum_tier busy_controller) p i"
    "branch_budget_state busy_profile ''b'' L_NORMAL (cv_multiplier p) bs = Inr (ci_budget i)"
    by (auto simp: busy_target strip_b c(6))
  have "cv_closed p \<or> hard_pressure (ci_budget i) = 1"
    using b busy_pressure[OF _ d(5)] d(2) by (auto simp: prior_state_def)
  then have a: "cd_action d = CA_CLOSE"
    by (auto simp: d(4) decide_def Let_def c(5) already_closed_def hard_close_def conclude_def)
  have "conv_key (cd_after d) = conv_key p" by (simp add: d(4) conv_key_def decide_identity)
  also have "\<dots> = (Some ''a.example'', ''b'', L_NORMAL)" by (rule prior_key[OF s d(2) t _ strip_b]) simp
  finally show ?thesis
    using d(1) a conv_put_ok[OF s decide_ok[OF c(1) d(3), of i]] decide_closed[of "cc_config busy_controller" "cc_maximum_tier busy_controller" p i]
      conv_get_put[OF _ t(2), of "cd_after d" "''b''" L_NORMAL s] by (simp add: d(4))
qed

end
