(* ===== verification/Runtime_Wiring.thy ===== *)
theory Runtime_Wiring
  imports Convergence Review_Gate Lifecycle Scope
begin

section \<open>How the runtime wires the components (recon/runtime.py)\<close>

text \<open>
  The collaborators that recon/runtime.py hands to the lifecycle: the subject of a task from the lineage of its
  input event, the budget lane and plan, the gates on convergence and exploration, the review signals, and the
  worker executor that records yield and updates convergence. The event repository is its lookup function
  \<open>string \<Rightarrow> event option\<close>; hashlib's SHA-256 is the parameter \<open>digest\<close>, IDNA encoding the parameter \<open>idna\<close>;
  the stores are those of \<^theory_text>\<open>Yield_Model\<close>, \<^theory_text>\<open>Convergence\<close> and \<^theory_text>\<open>Budget_Store\<close>.
\<close>

subsection \<open>Scope subjects\<close>

definition subject_or_none :: "(string \<Rightarrow> string option) \<Rightarrow> asset_kind \<Rightarrow> string \<Rightarrow> scope_subject option" where
  "subject_or_none idna kind v = (case make_subject idna kind v of Inl _ \<Rightarrow> None | Inr s \<Rightarrow> Some s)"

text \<open>The first of the named metadata entries that is a URL.\<close>

fun first_url :: "event \<Rightarrow> string list \<Rightarrow> string option" where
  "first_url e [] = None"
| "first_url e (key # keys) =
     (case metadata_text e key of
        None \<Rightarrow> first_url e keys
      | Some v \<Rightarrow> if prefix ''http://'' v \<or> prefix ''https://'' v then Some v else first_url e keys)"

text \<open>The first nonblank mobile identifier decides, valid or not.\<close>

fun first_text :: "event \<Rightarrow> string list \<Rightarrow> string option" where
  "first_text e [] = None"
| "first_text e (key # keys) =
     (case metadata_text e key of
        None \<Rightarrow> first_text e keys
      | Some v \<Rightarrow> if strip v \<noteq> [] then Some v else first_text e keys)"

definition event_url :: "event \<Rightarrow> string option" where
  "event_url e =
     (if ev_type e \<in> {EV_URL, EV_API_ENDPOINT, EV_JAVASCRIPT, EV_HTTP_SERVICE} then Some (ev_value e)
      else if ev_type e \<in> {EV_HTTP_RESPONSE, EV_FAVICON, EV_TECHNOLOGY, EV_VULNERABILITY_CANDIDATE,
        EV_VULNERABILITY_FINDING}
      then first_url e [''target_url'', ''url'', ''observed_on''] else None)"

definition scope_subject_from_event :: "(string \<Rightarrow> string option) \<Rightarrow> event \<Rightarrow> scope_subject option" where
  "scope_subject_from_event idna e =
     (if ev_type e \<in> {EV_ROOT_DOMAIN, EV_DNS_NAME, EV_CERT_SAN}
      then subject_or_none idna DOMAIN (if prefix ''*.'' (ev_value e) then drop 2 (ev_value e) else ev_value e)
      else if ev_type e = EV_IP_ADDRESS then subject_or_none idna IP_ADDRESS (ev_value e)
      else if ev_type e = EV_CIDR then subject_or_none idna CIDR (ev_value e)
      else case event_url e of
        Some url \<Rightarrow> subject_or_none idna URL url
      | None \<Rightarrow>
          (case (if ev_type e = EV_CERTIFICATE then first_text e [''hostname''] else None) of
             Some host \<Rightarrow> subject_or_none idna DOMAIN host
           | None \<Rightarrow>
               if ev_type e = EV_MOBILE_ARTIFACT
               then Option.bind (first_text e [''app_id'', ''package_name'', ''bundle_id'', ''application_id''])
                      (subject_or_none idna MOBILE_APP)
               else None))"

text \<open>\<open>RuntimeScopeSubjectProvider.subject_for\<close>: at most \<open>max_parent_depth\<close> events of the lineage are looked at.\<close>

type_synonym events = "string \<Rightarrow> event option"

fun lineage_subject ::
  "(string \<Rightarrow> string option) \<Rightarrow> events \<Rightarrow> nat \<Rightarrow> string set \<Rightarrow> event option \<Rightarrow> scope_subject option" where
  "lineage_subject idna get 0 seen e = None"
| "lineage_subject idna get (Suc n) seen None = None"
| "lineage_subject idna get (Suc n) seen (Some e) =
     (if event_id e \<in> seen then None
      else case scope_subject_from_event idna e of
        Some s \<Rightarrow> Some s
      | None \<Rightarrow>
          (case parent_event_id e of
             None \<Rightarrow> None
           | Some p \<Rightarrow> lineage_subject idna get n (insert (event_id e) seen) (get p)))"

definition max_parent_depth :: nat where
  "max_parent_depth = 24"

definition subject_for :: "(string \<Rightarrow> string option) \<Rightarrow> events \<Rightarrow> task \<Rightarrow> scope_subject option" where
  "subject_for idna get t = lineage_subject idna get max_parent_depth {} (get (t_input_event_id t))"

subsection \<open>Lanes, gates and the budget plan\<close>

text \<open>\<open>'exploration' in ' '.join(value for value in descriptors if value).lower()\<close>\<close>

definition is_exploration_work :: "string option list \<Rightarrow> bool" where
  "is_exploration_work ds =
     contains ''exploration'' (lower (join '' '' (filter (\<lambda>d. d \<noteq> []) (map the (filter (\<lambda>d. d \<noteq> None) ds)))))"

definition task_budget_lane :: "task \<Rightarrow> budget_lane" where
  "task_budget_lane t =
     (if is_exploration_work [Some (t_action t), t_route_rule_id t, t_routing_reason t] then L_EXPLORATION else L_NORMAL)"

definition plain_gate :: "gate_outcome \<Rightarrow> string option \<Rightarrow> rat option \<Rightarrow> gate_decision res" where
  "plain_gate outcome reason retry =
     validate_gate_decision \<lparr>gd_outcome = outcome, gd_reason = reason, gd_review_case_id = None,
       gd_retry_after_seconds = retry\<rparr>"

text \<open>The convergence state of a task's branch, when the branch and its seed event are known.\<close>

definition branch_state ::
  "(string \<Rightarrow> string option) \<Rightarrow> events \<Rightarrow> task \<Rightarrow> conv_store \<Rightarrow> conv_state option" where
  "branch_state idna get t s =
     (case t_branch_id t of
        None \<Rightarrow> None
      | Some b \<Rightarrow>
          (case get b of
             None \<Rightarrow> None
           | Some seed \<Rightarrow> conv_get (target_key_for_event idna seed) b (task_budget_lane t) s))"

definition convergence_gate ::
  "(string \<Rightarrow> string option) \<Rightarrow> events \<Rightarrow> time \<Rightarrow> task \<Rightarrow> conv_store \<Rightarrow> gate_decision res" where
  "convergence_gate idna get now t s =
     (case branch_state idna get t s of
        None \<Rightarrow> plain_gate G_ALLOW None None
      | Some p \<Rightarrow>
          if cv_closed p then plain_gate G_BLOCK (Some ''convergence closed this branch'') None
          else case cv_cooldown_until p of
            None \<Rightarrow> plain_gate G_ALLOW None None
          | Some u \<Rightarrow>
              if 0 < total_seconds (u - now)
              then plain_gate G_DEFER (Some ''convergence cooldown is active for this branch'') (Some (total_seconds (u - now)))
              else plain_gate G_ALLOW None None)"

definition exploration_gate :: "bool \<Rightarrow> task \<Rightarrow> gate_decision res" where
  "exploration_gate enabled t =
     (if \<not> enabled \<and> task_budget_lane t = L_EXPLORATION
      then plain_gate G_BLOCK (Some ''exploration is disabled by pipeline configuration'') None
      else plain_gate G_ALLOW None None)"

definition resource_keys :: "scope_subject option \<Rightarrow> string set res" where
  "resource_keys subject =
     (case subject of
        None \<Rightarrow> Inr {}
      | Some s \<Rightarrow>
          (case ss_kind s of
             URL \<Rightarrow> bind_res (urlsplit (ss_value s)) (\<lambda>u.
               Inr (case hostname u of None \<Rightarrow> {} | Some h \<Rightarrow> if h = [] then {} else {''host:'' @ h}))
           | DOMAIN \<Rightarrow> Inr {''host:'' @ ss_value s}
           | IP_ADDRESS \<Rightarrow> Inr {''ip:'' @ ss_value s}
           | _ \<Rightarrow> Inr {}))"

text \<open>\<open>RuntimeBudgetPlanner.plan\<close>. The demand of the worker's envelope (requests, candidates, seconds), read from the
  YAML configuration of the workers, is the argument \<open>envelope\<close>.\<close>

definition runtime_plan ::
  "(string \<Rightarrow> string option) \<Rightarrow> events \<Rightarrow> (task \<Rightarrow> rat \<times> rat \<times> rat) \<Rightarrow> task \<Rightarrow> schedule_decision \<Rightarrow> conv_store
    \<Rightarrow> budget_plan res" where
  "runtime_plan idna get envelope t schedule s =
     (let input = get (t_input_event_id t) in
      bind_res (resource_keys (subject_for idna get t)) (\<lambda>resources.
        let multiplier =
              (case (t_branch_id t, input) of
                 (Some b, Some e) \<Rightarrow>
                   (case conv_get (target_key_for_event idna (case get b of Some seed \<Rightarrow> seed | None \<Rightarrow> e)) b
                           (task_budget_lane t) s of
                      None \<Rightarrow> 1 | Some p \<Rightarrow> cv_multiplier p)
               | _ \<Rightarrow> 1)
        in case envelope t of (requests, candidates, seconds) \<Rightarrow>
          Inr \<lparr>bp_demand = \<lparr>d_tasks = 1, d_cost = sg_estimated_cost (sd_signals schedule), d_requests = requests,
                 d_candidates = candidates, d_runtime_seconds = seconds, d_concurrent_tasks = 1\<rparr>,
               bp_context = \<lparr>branch_depth = (case input of None \<Rightarrow> 0 | Some e \<Rightarrow> ev_depth e),
                 bc_resource_keys = normalize_resource_keys resources, lane = task_budget_lane t,
                 branch_soft_multiplier = multiplier\<rparr>\<rparr>))"

end
