(* ===== verification/Runtime_Executor.thy ===== *)
theory Runtime_Executor
  imports Runtime_Wiring
begin

section \<open>Review signals, metrics and the worker executor of the runtime (recon/runtime.py)\<close>

text \<open>
  The classifier of sensitive follow-ups, the review signals of restrictions and gates, the metrics of published
  events, and \<open>RuntimeWorkerExecutor\<close>: the search tier of a task, the yield observation of its execution and the
  update of the convergence of its branch. A worker is a parameter: what it returns or raises, the metrics of what
  it publishes meanwhile, and how it changes the rest of the world \<open>'x\<close>.
\<close>

subsection \<open>Review signals\<close>

definition safe_evidence_fingerprint :: "(string \<Rightarrow> string) \<Rightarrow> event \<Rightarrow> string" where
  "safe_evidence_fingerprint digest e =
     (case metadata_text e ''evidence_fingerprint'' of
        Some raw \<Rightarrow> if strip raw \<noteq> [] then strip raw
                    else digest (join ''|'' [event_id e, event_type_value (ev_type e), ev_source e])
      | None \<Rightarrow> digest (join ''|'' [event_id e, event_type_value (ev_type e), ev_source e]))"

definition event_signal ::
  "(string \<Rightarrow> string) \<Rightarrow> event \<Rightarrow> review_category \<Rightarrow> review_severity \<Rightarrow> rat \<Rightarrow> string \<Rightarrow> string set \<Rightarrow> review_signal" where
  "event_signal digest e category severity least summary tags =
     \<lparr>sig_category = category, sig_severity = severity, sig_confidence = max (ev_confidence e) least,
      sig_summary = summary, sig_source_event_id = Some (event_id e),
      sig_evidence_fingerprint = Some (safe_evidence_fingerprint digest e), sig_tags = tags\<rparr>"

definition is_true :: "event \<Rightarrow> string \<Rightarrow> bool" where
  "is_true e key \<longleftrightarrow> dict_get (ev_metadata e) key = Some (J_bool True)"

definition sensitive_tag :: "string \<Rightarrow> bool" where
  "sensitive_tag t \<longleftrightarrow> contains ''secret'' (lower (strip t)) \<or> contains ''credential'' (lower (strip t))"

definition raw_signals :: "(string \<Rightarrow> string) \<Rightarrow> event \<Rightarrow> review_signal list" where
  "raw_signals digest e =
     (if \<exists>t \<in> ev_tags e. sensitive_tag t
      then [event_signal digest e RC_POSSIBLE_SECRET SEV_HIGH (75/100)
              ''input event contains a redacted possible-secret signal'' {''runtime'', ''redacted''}] else [])
     @ (if is_true e ''private_data''
        then [event_signal digest e RC_PRIVATE_DATA SEV_HIGH (75/100)
                ''input event indicates possible private-data exposure'' {''runtime'', ''redacted''}] else [])
     @ (if is_true e ''auth_boundary''
        then [event_signal digest e RC_AUTH_BOUNDARY SEV_HIGH (70/100)
                ''input event indicates an authentication-boundary follow-up'' {''runtime''}] else [])
     @ (if is_true e ''review_required''
        then [event_signal digest e RC_UNKNOWN_SENSITIVE_CONTENT SEV_MEDIUM (60/100)
                ''upstream event explicitly requested human review before follow-up'' {''runtime''}] else [])"

fun validate_signals :: "review_signal list \<Rightarrow> review_signal list res" where
  "validate_signals [] = Inr []"
| "validate_signals (g # gs) =
     bind_res (validate_signal g) (\<lambda>g'. bind_res (validate_signals gs) (\<lambda>gs'. Inr (g' # gs')))"

definition runtime_review_signals :: "(string \<Rightarrow> string) \<Rightarrow> events \<Rightarrow> task \<Rightarrow> review_signal list res" where
  "runtime_review_signals digest get t =
     (case get (t_input_event_id t) of None \<Rightarrow> Inr [] | Some e \<Rightarrow> validate_signals (raw_signals digest e))"

text \<open>\<open>_restriction_review_signal\<close>: \<open>rule\<close> is the matched rule or the source of the decision.\<close>

definition restriction_review_signal :: "(string \<Rightarrow> string) \<Rightarrow> task \<Rightarrow> string \<Rightarrow> string \<Rightarrow> review_signal res" where
  "restriction_review_signal digest t rule reason =
     validate_signal \<lparr>sig_category = RC_POLICY_AMBIGUITY, sig_severity = SEV_HIGH, sig_confidence = 1,
       sig_summary = ''program restriction '' @ rule @ '': '' @ reason,
       sig_source_event_id = Some (t_input_event_id t),
       sig_evidence_fingerprint = Some (digest (join ''|'' [''restriction'', t_task_id t, rule])),
       sig_tags = {''program-restriction'', lower rule}\<rparr>"

definition lifecycle_review_signal :: "(string \<Rightarrow> string) \<Rightarrow> task \<Rightarrow> string \<Rightarrow> string \<Rightarrow> review_signal res" where
  "lifecycle_review_signal digest t name reason =
     (let gate = (if strip name = [] then ''ExecutionGate'' else strip name) in
      validate_signal \<lparr>sig_category = (if contains ''scope'' (lower gate) then RC_SCOPE_AMBIGUITY else RC_POLICY_AMBIGUITY),
        sig_severity = SEV_HIGH, sig_confidence = 1,
        sig_summary = ''execution gate '' @ gate @ '' requires manual review'',
        sig_source_event_id = Some (t_input_event_id t),
        sig_evidence_fingerprint = Some (digest (join ''|'' [''lifecycle'', t_task_id t, gate, reason])),
        sig_tags = {''lifecycle-review'', lower gate}\<rparr>)"

subsection \<open>Metrics of published events\<close>

record publication_metrics =
  pm_new_assets :: int
  pm_novel_assets :: int
  pm_new_domains :: int
  pm_new_urls :: int
  pm_new_endpoints :: int
  pm_new_vocabulary_tokens :: int
  pm_new_patterns :: int
  pm_observations :: int
  pm_source_ids :: "string set"

definition no_metrics :: publication_metrics where
  "no_metrics = \<lparr>pm_new_assets = 0, pm_novel_assets = 0, pm_new_domains = 0, pm_new_urls = 0, pm_new_endpoints = 0,
     pm_new_vocabulary_tokens = 0, pm_new_patterns = 0, pm_observations = 0, pm_source_ids = {}\<rparr>"

text \<open>\<open>_capture_metrics\<close> for an event that the repository stored, with its flag \<open>asset_created\<close>.\<close>

definition capture_metrics :: "rat \<Rightarrow> event \<Rightarrow> bool \<Rightarrow> publication_metrics \<Rightarrow> publication_metrics" where
  "capture_metrics threshold e asset_created m =
     (let m = m\<lparr>pm_observations := pm_observations m + 1, pm_source_ids := insert (ev_source e) (pm_source_ids m)\<rparr>
      in if \<not> asset_created then m
         else let m = m\<lparr>pm_new_assets := pm_new_assets m + 1,
                        pm_novel_assets := pm_novel_assets m + (if threshold \<le> ev_novelty e then 1 else 0)\<rparr>
              in case ev_type e of
                   EV_DNS_NAME \<Rightarrow> m\<lparr>pm_new_domains := pm_new_domains m + 1\<rparr>
                 | EV_URL \<Rightarrow> m\<lparr>pm_new_urls := pm_new_urls m + 1\<rparr>
                 | EV_API_ENDPOINT \<Rightarrow> m\<lparr>pm_new_endpoints := pm_new_endpoints m + 1\<rparr>
                 | EV_VOCAB_TOKEN \<Rightarrow> m\<lparr>pm_new_vocabulary_tokens := pm_new_vocabulary_tokens m + 1\<rparr>
                 | EV_NAMING_PATTERN \<Rightarrow> m\<lparr>pm_new_patterns := pm_new_patterns m + 1\<rparr>
                 | _ \<Rightarrow> m)"

text \<open>The metrics of a worker that publishes these events, in this order.\<close>

definition published_metrics :: "rat \<Rightarrow> (event \<times> bool) list \<Rightarrow> publication_metrics" where
  "published_metrics threshold = foldl (\<lambda>m (e, created). capture_metrics threshold e created m) no_metrics"

subsection \<open>The executor\<close>

record 'x worker_entry =
  we_run :: "task \<Rightarrow> 'x \<Rightarrow> worker_result res \<times> 'x"
  we_publishes :: "task \<Rightarrow> 'x \<Rightarrow> (event \<times> bool) list"
  we_seconds :: "task \<Rightarrow> 'x \<Rightarrow> rat"
  we_limit :: "(string \<Rightarrow> int) option"

record 'x executor =
  ex_workers :: "(string, 'x worker_entry) dict"
  ex_events :: events
  ex_controller :: conv_controller
  ex_initial_tier :: search_tier
  ex_novel_threshold :: rat
  ex_run_id :: "string option"

record 'x executor_state =
  xs_yields :: yield_store
  xs_convergence :: conv_store
  xs_warnings :: "string list"
  xs_world :: 'x

definition exec_idna :: "'x executor \<Rightarrow> string \<Rightarrow> string option" where
  "exec_idna ex = ym_idna (cc_yield (ex_controller ex))"

definition with_search_tier :: "'x executor \<Rightarrow> 'x worker_entry \<Rightarrow> task \<Rightarrow> conv_store \<Rightarrow> task" where
  "with_search_tier ex w t s =
     (let tier = (case branch_state (exec_idna ex) (ex_events ex) t s of None \<Rightarrow> ex_initial_tier ex | Some p \<Rightarrow> cv_tier p)
      in t\<lparr>t_search_tier := Some (search_tier_value tier),
           t_candidate_limit_hint := map_option (\<lambda>f. f (search_tier_value tier)) (we_limit w)\<rparr>)"

text \<open>\<open>_record_yield\<close>: one attempted unit, one hit if anything new was published, no credits for tokens or patterns.\<close>

definition execution_observation :: "publication_metrics \<Rightarrow> rat \<Rightarrow> yield_outcome \<Rightarrow> string option \<Rightarrow> yield_observation" where
  "execution_observation m seconds outcome run_id =
     \<lparr>yo_id = [], yo_observed_at = 0, yo_run_id = run_id, yo_task_id = None, yo_input_event_id = None,
      yo_target_key = None, yo_branch_id = None, yo_worker = [], yo_action = [], yo_route_rule_id = None,
      yo_input_source = None, yo_source_ids = pm_source_ids m, yo_outcome = outcome, yo_attempted = 1,
      yo_hits = (if 0 < pm_new_assets m then 1 else 0), yo_new_assets = pm_new_assets m,
      yo_novel_assets = pm_novel_assets m, yo_new_domains = pm_new_domains m, yo_new_urls = pm_new_urls m,
      yo_new_endpoints = pm_new_endpoints m, yo_new_vocabulary_tokens = pm_new_vocabulary_tokens m,
      yo_new_patterns = pm_new_patterns m, yo_request_count = 0, yo_runtime_seconds = max seconds 0,
      yo_cost_units = 1, yo_token_credits = [], yo_pattern_credits = [],
      yo_metadata = [(''published_observations'', J_number (of_int (pm_observations m))),
        (''runtime_instrumentation'', J_bool True), (''request_count_exact'', J_bool False)]\<rparr>"

definition record_yield ::
  "'x executor \<Rightarrow> nat \<Rightarrow> time \<Rightarrow> task \<Rightarrow> event option \<Rightarrow> publication_metrics \<Rightarrow> rat \<Rightarrow> yield_outcome
    \<Rightarrow> ('x executor_state, unit) op" where
  "record_yield ex uuid now t input m seconds outcome s =
     (case yield_observation_from_task (exec_idna ex) uuid now t input
             (execution_observation m seconds outcome (ex_run_id ex)) of
        Inl e \<Rightarrow> (Inl e, s)
      | Inr y \<Rightarrow> (Inr (), s\<lparr>xs_yields := snd (yield_append y (xs_yields s))\<rparr>))"

text \<open>\<open>_update_convergence\<close> turns any failure of the evaluation into a warning.\<close>

definition update_convergence ::
  "'x executor \<Rightarrow> time \<Rightarrow> task \<Rightarrow> event option \<Rightarrow> budget_store \<Rightarrow> 'x executor_state \<Rightarrow> 'x executor_state" where
  "update_convergence ex now t input bs s =
     (case (t_branch_id t, input) of
        (Some b, Some _) \<Rightarrow>
          (case ex_events ex b of
             None \<Rightarrow> s
           | Some seed \<Rightarrow>
               let tier = (case conv_get (target_key_for_event (exec_idna ex) seed) b (task_budget_lane t) (xs_convergence s) of
                             None \<Rightarrow> ex_initial_tier ex | Some p \<Rightarrow> cv_tier p)
               in case conv_evaluate (ex_controller ex) seed b (task_budget_lane t) tier now (xs_yields s) bs (xs_convergence s) of
                    (Inr d, c) \<Rightarrow> s\<lparr>xs_convergence := c\<rparr>
                  | (Inl e, c) \<Rightarrow> s\<lparr>xs_convergence := c,
                      xs_warnings := xs_warnings s @ [''convergence update failed for branch '' @ b @ '': '' @ exc_name e
                        @ '': '' @ exc_str e]\<rparr>)
      | _ \<Rightarrow> s)"

fun yield_outcome_of :: "worker_outcome \<Rightarrow> yield_outcome" where
  "yield_outcome_of W_SUCCEEDED = YO_SUCCEEDED"
| "yield_outcome_of W_RETRY = YO_RETRY"
| "yield_outcome_of W_FAILED = YO_FAILED"

text \<open>\<open>execute\<close>. The budget store \<open>bs\<close> is the one during the execution: the reservation of the task is still ACTIVE.
  \<open>except Exception\<close> does not catch a cancellation.\<close>

definition executor_execute ::
  "'x executor \<Rightarrow> nat \<Rightarrow> time \<Rightarrow> budget_store \<Rightarrow> task \<Rightarrow> ('x executor_state, worker_result) op" where
  "executor_execute ex uuid now bs t s =
     (case dict_get (ex_workers ex) (t_worker t) of
        None \<Rightarrow> (Inr \<lparr>wr_outcome = W_FAILED,
                    wr_error = Some (''worker is not registered/enabled: '' @ t_worker t), wr_retry_after_seconds = None\<rparr>, s)
      | Some w \<Rightarrow>
          let input = ex_events ex (t_input_event_id t);
              t' = with_search_tier ex w t (xs_convergence s);
              m = published_metrics (ex_novel_threshold ex) (we_publishes w t' (xs_world s));
              seconds = we_seconds w t' (xs_world s)
          in case we_run w t' (xs_world s) of (r, world) \<Rightarrow>
             let s1 = s\<lparr>xs_world := world\<rparr>
             in case bind_res r validate_worker_result of
                  Inl e \<Rightarrow>
                    if e = CancelledError then (Inl e, s1)
                    else (case record_yield ex uuid now t input m seconds YO_FAILED s1 of
                            (Inl e', s2) \<Rightarrow> (Inl e', s2) | (Inr _, s2) \<Rightarrow> (Inl e, s2))
                | Inr result \<Rightarrow>
                    (case record_yield ex uuid now t input m seconds (yield_outcome_of (wr_outcome result)) s1 of
                       (Inl e', s2) \<Rightarrow> (Inl e', s2)
                     | (Inr _, s2) \<Rightarrow> (Inr result, update_convergence ex now t input bs s2)))"

end
