(* ===== verification/Runtime_Properties.thy ===== *)
theory Runtime_Properties
  imports Runtime_Executor Convergence_Guarantees
begin

section \<open>The collaborators of the runtime\<close>

text \<open>
  Lemmas on the wiring of recon/runtime.py: the lineage walk against a search without its cycle check, metrics and
  observations that the yield model always accepts, gates against the decisions of the controller.
\<close>

declare split_paired_All [simp del] split_paired_Ex [simp del]

subsection \<open>The lineage of an event\<close>

text \<open>The \<open>k\<close>-th ancestor; the event itself is number 0.\<close>

fun ancestor :: "events \<Rightarrow> nat \<Rightarrow> event option \<Rightarrow> event option" where
  "ancestor get 0 e = e"
| "ancestor get (Suc k) e = (case e of None \<Rightarrow> None | Some x \<Rightarrow>
     (case parent_event_id x of None \<Rightarrow> None | Some p \<Rightarrow> ancestor get k (get p)))"

definition direct_at :: "(string \<Rightarrow> string option) \<Rightarrow> events \<Rightarrow> event option \<Rightarrow> nat \<Rightarrow> scope_subject option" where
  "direct_at idna get e k = Option.bind (ancestor get k e) (scope_subject_from_event idna)"

text \<open>The nearest ancestor below \<open>n\<close> with a subject of its own, looked for without remembering what was seen.\<close>

fun nearest_subject :: "(string \<Rightarrow> string option) \<Rightarrow> events \<Rightarrow> nat \<Rightarrow> event option \<Rightarrow> scope_subject option" where
  "nearest_subject idna get 0 e = None"
| "nearest_subject idna get (Suc n) e = (case e of None \<Rightarrow> None | Some x \<Rightarrow>
     (case scope_subject_from_event idna x of Some s \<Rightarrow> Some s | None \<Rightarrow>
       (case parent_event_id x of None \<Rightarrow> None | Some p \<Rightarrow> nearest_subject idna get n (get p))))"

lemma direct_at_simps [simp]:
  "direct_at idna get None k = None"
  "direct_at idna get (Some x) 0 = scope_subject_from_event idna x"
  "direct_at idna get (Some x) (Suc k) = (case parent_event_id x of None \<Rightarrow> None | Some p \<Rightarrow> direct_at idna get (get p) k)"
proof -
  have "ancestor get k None = None" for k by (cases k) simp_all
  then show "direct_at idna get None k = None" by (simp add: direct_at_def)
qed (simp_all add: direct_at_def split: option.split)

lemma nearest_subject_iff:
  "nearest_subject idna get n e = Some s \<longleftrightarrow>
     (\<exists>k < n. direct_at idna get e k = Some s \<and> (\<forall>j < k. direct_at idna get e j = None))"
proof (induction n arbitrary: e)
  case (Suc n)
  show ?case
  proof (cases e)
    case None
    then show ?thesis by simp
  next
    case e: (Some x)
    show ?thesis
    proof (cases "scope_subject_from_event idna x")
      case (Some s')
      then show ?thesis unfolding e Ex_less_Suc2 by (auto simp: All_less_Suc2)
    next
      case None
      with Suc show ?thesis unfolding e Ex_less_Suc2
        by (auto simp: All_less_Suc2 split: option.split)
    qed
  qed
qed simp

text \<open>A repository that finds events under their own identifier.\<close>

definition repository_ok :: "events \<Rightarrow> bool" where
  "repository_ok get \<longleftrightarrow> (\<forall>i e. get i = Some e \<longrightarrow> event_id e = i)"

text \<open>What the walk has seen: events without a subject, each followed by the next one or by one already seen.\<close>

definition walked :: "(string \<Rightarrow> string option) \<Rightarrow> events \<Rightarrow> string set \<Rightarrow> event option \<Rightarrow> bool" where
  "walked idna get seen e \<longleftrightarrow> (\<forall>i \<in> seen. \<exists>x p. get i = Some x \<and> scope_subject_from_event idna x = None
     \<and> parent_event_id x = Some p \<and> (get p = e \<or> (\<exists>y. get p = Some y \<and> event_id y \<in> seen)))"

lemma cycle_barren:
  assumes r: "repository_ok get" and w: "walked idna get seen (Some x)" and x: "event_id x \<in> seen"
  shows "event_id y \<in> seen \<Longrightarrow> get (event_id y) = Some y \<Longrightarrow> nearest_subject idna get n (Some y) = None"
proof (induction n arbitrary: y)
  case (Suc n)
  then obtain p where p: "scope_subject_from_event idna y = None" "parent_event_id y = Some p"
    "get p = Some x \<or> (\<exists>z. get p = Some z \<and> event_id z \<in> seen)"
    using w unfolding walked_def by fastforce
  then obtain z where z: "get p = Some z" "event_id z \<in> seen" using x by blast
  moreover have "get (event_id z) = Some z" using z(1) r by (auto simp: repository_ok_def)
  ultimately show ?case using Suc.IH p(1,2) by simp
qed simp

lemma lineage_is_nearest:
  assumes "repository_ok get"
  shows "walked idna get seen e \<Longrightarrow> (\<And>x. e = Some x \<Longrightarrow> get (event_id x) = Some x)
    \<Longrightarrow> lineage_subject idna get n seen e = nearest_subject idna get n e"
proof (induction n arbitrary: seen e)
  case (Suc n)
  show ?case
  proof (cases e)
    case e: (Some x)
    show ?thesis
    proof (cases "event_id x \<in> seen")
      case True
      with cycle_barren[OF assms, of idna seen x x "Suc n"] Suc.prems show ?thesis by (simp add: e)
    next
      case False
      have "lineage_subject idna get n (insert (event_id x) seen) (get p) = nearest_subject idna get n (get p)"
        if "scope_subject_from_event idna x = None" "parent_event_id x = Some p" for p
      proof (rule Suc.IH)
        show "walked idna get (insert (event_id x) seen) (get p)"
          using Suc.prems that unfolding walked_def e by fastforce
        show "get (event_id y) = Some y" if "get p = Some y" for y using that assms by (auto simp: repository_ok_def)
      qed
      with False show ?thesis by (auto simp: e split: option.split)
    qed
  qed simp
qed simp

subsection \<open>Metrics and observations\<close>

definition metrics_ok :: "publication_metrics \<Rightarrow> bool" where
  "metrics_ok m \<longleftrightarrow> 0 \<le> pm_novel_assets m \<and> pm_novel_assets m \<le> pm_new_assets m \<and> 0 \<le> pm_new_domains m \<and> 0 \<le> pm_new_urls m
     \<and> 0 \<le> pm_new_endpoints m \<and> 0 \<le> pm_new_vocabulary_tokens m \<and> 0 \<le> pm_new_patterns m
     \<and> pm_new_domains m + pm_new_urls m + pm_new_endpoints m + pm_new_vocabulary_tokens m + pm_new_patterns m
         \<le> pm_new_assets m \<and> pm_new_assets m \<le> pm_observations m"

lemma capture_metrics_ok: "metrics_ok m \<Longrightarrow> metrics_ok (capture_metrics threshold e created m)"
  by (cases "ev_type e") (auto simp: metrics_ok_def capture_metrics_def Let_def)

lemma published_metrics_ok: "metrics_ok (published_metrics threshold es)"
proof -
  have "metrics_ok m \<Longrightarrow> metrics_ok (foldl (\<lambda>m (e, created). capture_metrics threshold e created m) m es)" for m
    by (induction es arbitrary: m) (auto simp: capture_metrics_ok case_prod_beta)
  moreover have "metrics_ok no_metrics" by (simp add: metrics_ok_def no_metrics_def)
  ultimately show ?thesis by (simp add: published_metrics_def)
qed

lemma new_id_stripped: "strip (new_yield_observation_id n) = new_yield_observation_id n"
proof (rule strip_no_space)
  have "\<forall>c \<in> set ''yld_''. \<not> is_space c" by (simp add: is_space_def)
  then show "\<forall>c \<in> set (new_yield_observation_id n). \<not> is_space c"
    unfolding new_yield_observation_id_def set_append by (auto dest: uuid_hex_not_space)
qed

lemma strip_set_idem [simp]: "strip_set (strip_set xs) = strip_set xs"
  unfolding strip_set_def by (auto simp: image_iff) (metis strip_idem)

text \<open>The observation of an execution always passes the validator.\<close>

lemma execution_observed:
  assumes "fields_ok t" and "metrics_ok m"
  shows "\<exists>y. yield_observation_from_task idna uuid now t input (execution_observation m seconds outcome rid) = Inr y
    \<and> observation_ok y \<and> yo_id y = new_yield_observation_id uuid \<and> yo_attempted y = 1
    \<and> yo_hits y = (if 0 < pm_new_assets m then 1 else 0) \<and> yo_new_assets y = pm_new_assets m
    \<and> yo_outcome y = outcome \<and> yo_token_credits y = [] \<and> yo_pattern_credits y = []"
proof -
  have "new_yield_observation_id uuid \<noteq> []" by (simp add: new_yield_observation_id_def)
  with assms show ?thesis
    by (auto simp: yield_observation_from_task_def make_yield_observation_def execution_observation_def not_blank_def
        new_id_stripped fields_ok_def nonneg_def metrics_ok_def observation_ok_def)
qed

subsection \<open>The executor\<close>

lemma record_yield_total:
  assumes "fields_ok t" and "metrics_ok m"
  shows "\<exists>y. record_yield ex uuid now t input m seconds outcome s = (Inr (), s\<lparr>xs_yields := snd (yield_append y (xs_yields s))\<rparr>)
    \<and> observation_ok y \<and> yo_id y = new_yield_observation_id uuid \<and> yo_attempted y = 1
    \<and> yo_hits y = (if 0 < pm_new_assets m then 1 else 0) \<and> yo_new_assets y = pm_new_assets m
    \<and> yo_outcome y = outcome \<and> yo_token_credits y = [] \<and> yo_pattern_credits y = []"
  using execution_observed[OF assms, of "exec_idna ex" uuid now input seconds outcome "ex_run_id ex"]
  by (auto simp: record_yield_def)

lemma update_convergence_rest [simp]:
  "xs_yields (update_convergence ex now t input bs s) = xs_yields s"
  "xs_world (update_convergence ex now t input bs s) = xs_world s"
  by (auto simp: update_convergence_def Let_def split: option.splits prod.splits sum.splits)

text \<open>The outcome that the observation of an execution records: FAILED for one that raised.\<close>

definition recorded_outcome :: "worker_result res \<Rightarrow> yield_outcome" where
  "recorded_outcome r = (case bind_res r validate_worker_result of Inl _ \<Rightarrow> YO_FAILED
     | Inr w \<Rightarrow> yield_outcome_of (wr_outcome w))"

lemma executor_spec:
  assumes t: "fields_ok t" and w: "dict_get (ex_workers ex) (t_worker t) = Some w"
    and r: "we_run w (with_search_tier ex w t (xs_convergence s)) (xs_world s) = (r, world)"
    and c: "bind_res r validate_worker_result \<noteq> Inl CancelledError"
  shows "\<exists>y s'. executor_execute ex uuid now bs t s = (bind_res r validate_worker_result, s')
    \<and> xs_yields s' = snd (yield_append y (xs_yields s)) \<and> xs_world s' = world
    \<and> observation_ok y \<and> yo_id y = new_yield_observation_id uuid \<and> yo_attempted y = 1
    \<and> yo_hits y = (if 0 < yo_new_assets y then 1 else 0)
    \<and> yo_outcome y = recorded_outcome r \<and> yo_token_credits y = [] \<and> yo_pattern_credits y = []"
proof -
  let ?t = "with_search_tier ex w t (xs_convergence s)"
  let ?m = "published_metrics (ex_novel_threshold ex) (we_publishes w ?t (xs_world s))"
  let ?s = "s\<lparr>xs_world := world\<rparr>"
  obtain y where y: "record_yield ex uuid now t (ex_events ex (t_input_event_id t)) ?m (we_seconds w ?t (xs_world s))
      (recorded_outcome r) ?s = (Inr (), ?s\<lparr>xs_yields := snd (yield_append y (xs_yields s))\<rparr>)"
    "observation_ok y" "yo_id y = new_yield_observation_id uuid" "yo_attempted y = 1"
    "yo_hits y = (if 0 < pm_new_assets ?m then 1 else 0)" "yo_new_assets y = pm_new_assets ?m"
    "yo_outcome y = recorded_outcome r" "yo_token_credits y = []" "yo_pattern_credits y = []"
    using record_yield_total[OF t published_metrics_ok, of ex uuid now "ex_events ex (t_input_event_id t)"
      "ex_novel_threshold ex" "we_publishes w ?t (xs_world s)" "we_seconds w ?t (xs_world s)" "recorded_outcome r" ?s] by auto
  show ?thesis
  proof (cases "bind_res r validate_worker_result")
    case (Inl e)
    then have "recorded_outcome r = YO_FAILED" by (simp add: recorded_outcome_def)
    with y Inl c w r show ?thesis
      by (intro exI[of _ y] exI[of _ "?s\<lparr>xs_yields := snd (yield_append y (xs_yields s))\<rparr>"]) (simp add: executor_execute_def Let_def)
  next
    case (Inr x)
    then have "recorded_outcome r = yield_outcome_of (wr_outcome x)" by (simp add: recorded_outcome_def)
    with y Inr w r show ?thesis
      by (intro exI[of _ y] exI[of _ "update_convergence ex now t (ex_events ex (t_input_event_id t)) bs
            (?s\<lparr>xs_yields := snd (yield_append y (xs_yields s))\<rparr>)"]) (simp add: executor_execute_def Let_def)
  qed
qed

subsection \<open>Gates\<close>

lemma plain_gate_simps [simp]:
  "plain_gate oc reason None = Inr \<lparr>gd_outcome = oc, gd_reason = reason, gd_review_case_id = None, gd_retry_after_seconds = None\<rparr>"
  "0 \<le> x \<Longrightarrow> plain_gate G_DEFER reason (Some x)
     = Inr \<lparr>gd_outcome = G_DEFER, gd_reason = reason, gd_review_case_id = None, gd_retry_after_seconds = Some x\<rparr>"
  by (simp_all add: plain_gate_def validate_gate_decision_def)

lemma total_seconds_pos: "0 < total_seconds d \<longleftrightarrow> 0 < d"
  by (simp add: total_seconds_def)

lemma convergence_gate_of_state:
  assumes "branch_state idna get t s = Some p"
  shows "\<exists>g. convergence_gate idna get now t s = Inr g
    \<and> gd_outcome g = (if cv_closed p then G_BLOCK else if cooling p now then G_DEFER else G_ALLOW)
    \<and> (gd_outcome g = G_DEFER \<longrightarrow> (\<exists>u. cv_cooldown_until p = Some u \<and> gd_retry_after_seconds g = Some (total_seconds (u - now))))"
  using assms by (auto simp: convergence_gate_def cooling_def total_seconds_pos less_imp_le[of 0 "total_seconds _"] split: option.split)

text \<open>The pending cooldown of the stored state is the one the decision announces.\<close>

lemma decide_cooldown:
  "cd_action (decide c m p i) \<noteq> CA_CLOSE \<Longrightarrow> cv_cooldown_until (cd_after (decide c m p i)) = cd_cooldown_until (decide c m p i)
   \<and> (cd_action (decide c m p i) = CA_COOLDOWN \<longleftrightarrow> cd_cooldown_until (decide c m p i) \<noteq> None)"
  by (cases rule: decide_cases[of p c m i]) (auto simp: branch_defs cooling_def split: option.splits)

end
