(* ===== verification/Runtime_Guarantees.thy ===== *)
theory Runtime_Guarantees
  imports Runtime_Properties Scope_Properties
begin

section \<open>What the wiring of the runtime guarantees\<close>

text \<open>
  The properties of recon/runtime.py that span its components: the subject a task is gated on, the enforcement of
  convergence decisions, the instrumentation of executions, and two consequences of the wiring that the components
  do not show by themselves.
\<close>

declare split_paired_All [simp del] split_paired_Ex [simp del]

subsection \<open>Evaluations and what they store\<close>

lemma evaluate_Inr:
  assumes "conv_evaluate cc seed b bl tier now ys bs s = (Inr d, s')"
  obtains p i where "prior_state (target_key_for_event (ym_idna (cc_yield cc)) seed) b bl tier now s = Inr p"
    and "d = decide (cc_config cc) (cc_maximum_tier cc) p i" and "s' = conv_put (cd_after d) s"
  using assms by (auto simp: conv_evaluate_def Let_def split: if_splits sum.splits)

lemma stored_decision:
  assumes s: "conv_store_ok cc s" and e: "conv_evaluate cc seed b bl tier now ys bs s = (Inr d, s')"
    and t: "target_key_for_event (ym_idna (cc_yield cc)) seed = Some tk" "lower (strip tk) = tk" "tk \<noteq> []" "strip b = b"
  shows "conv_get (Some tk) b bl s' = Some (cd_after d)"
proof -
  from e obtain p i where p: "prior_state (Some tk) b bl tier now s = Inr p"
    "d = decide (cc_config cc) (cc_maximum_tier cc) p i" "s' = conv_put (cd_after d) s"
    by (rule evaluate_Inr) (simp add: t(1))
  have low: "lower tk = tk" using t(2) lower_idem[of "strip tk"] by simp
  have "conv_key (cd_after d) = conv_key p" by (simp add: p(2) conv_key_def decide_identity)
  also have "\<dots> = (Some tk, b, bl)" by (rule prior_key[OF s p(1) t(2) low t(3,4)])
  finally show ?thesis unfolding p(3) by (rule conv_get_put[OF _ low])
qed

subsection \<open>Runs of the executor\<close>

text \<open>A job: the identifier and the time of its observation, the budget store meanwhile, and the task.\<close>

type_synonym job = "nat \<times> time \<times> budget_store \<times> task"

definition executor_run :: "'x executor \<Rightarrow> job list \<Rightarrow> 'x executor_state \<Rightarrow> 'x executor_state" where
  "executor_run ex jobs s = foldl (\<lambda>s (uuid, now, bs, t). snd (executor_execute ex uuid now bs t s)) s jobs"

definition without_credit :: "yield_store \<Rightarrow> bool" where
  "without_credit ys \<longleftrightarrow> list_all (\<lambda>y. yo_token_credits y = [] \<and> yo_pattern_credits y = []) (dict_values ys)"

lemma append_without_credit:
  "without_credit ys \<Longrightarrow> yo_token_credits y = [] \<Longrightarrow> yo_pattern_credits y = [] \<Longrightarrow> without_credit (snd (yield_append y ys))"
  by (cases "dict_get ys (yo_id y)") (auto simp: without_credit_def yield_append_fresh yield_append_known)

lemma execute_yields:
  assumes "fields_ok t"
  shows "xs_yields (snd (executor_execute ex uuid now bs t s)) = xs_yields s
    \<or> (\<exists>y. xs_yields (snd (executor_execute ex uuid now bs t s)) = snd (yield_append y (xs_yields s))
        \<and> observation_ok y \<and> yo_token_credits y = [] \<and> yo_pattern_credits y = [])"
proof (cases "dict_get (ex_workers ex) (t_worker t)")
  case None
  then show ?thesis by (simp add: executor_execute_def)
next
  case (Some w)
  obtain r world where r: "we_run w (with_search_tier ex w t (xs_convergence s)) (xs_world s) = (r, world)" by fastforce
  show ?thesis
  proof (cases "bind_res r validate_worker_result = Inl CancelledError")
    case True
    with Some r show ?thesis by (simp add: executor_execute_def Let_def)
  next
    case False
    from executor_spec[OF assms Some r False, of uuid now bs] obtain y s' where
      "executor_execute ex uuid now bs t s = (bind_res r validate_worker_result, s')"
      "xs_yields s' = snd (yield_append y (xs_yields s))" "observation_ok y" "yo_token_credits y = []" "yo_pattern_credits y = []"
      by blast
    then show ?thesis by (intro disjI2 exI[of _ y]) simp
  qed
qed

lemma executor_run_yields:
  assumes "list_all (\<lambda>(uuid, now, bs, t). fields_ok t) jobs" and "yield_reachable (xs_yields s)" and "without_credit (xs_yields s)"
  shows "yield_reachable (xs_yields (executor_run ex jobs s)) \<and> without_credit (xs_yields (executor_run ex jobs s))"
  using assms
proof (induction jobs arbitrary: s)
  case (Cons j jobs)
  obtain uuid now bs t where j: "j = (uuid, now, bs, t)" by (cases j)
  let ?s = "snd (executor_execute ex uuid now bs t s)"
  have "yield_reachable (xs_yields ?s) \<and> without_credit (xs_yields ?s)"
    using execute_yields[of t ex uuid now bs s] Cons.prems by (auto simp: j intro: yield_reachable.appended append_without_credit)
  with Cons.IH[of ?s] Cons.prems(1) show ?case by (simp add: j executor_run_def)
qed (simp add: executor_run_def)

lemma no_credit_no_feedback:
  assumes "without_credit ys" and "yield_reachable ys"
  shows "wordlist_feedback_for idna seed ys = Inr []"
proof -
  obtain q where q: "make_yield_query (any_query\<lparr>yq_target_key := target_key_for_event idna seed\<rparr>) = Inr q" "query_total q"
    using make_query_plain[of "any_query\<lparr>yq_target_key := target_key_for_event idna seed\<rparr>"] by (auto simp: any_query_def)
  obtain os where os: "yield_query_store q ys = Inr os" using yield_query_store_total[OF q(2)] by blast
  have "set os \<subseteq> set (dict_values ys)"
    using os set_slice_to unfolding yield_query_store_total[OF q(2)] by (fastforce simp: matched_def split: option.splits)
  then have "\<forall>y \<in> set os. yo_token_credits y = []" using assms(1) unfolding without_credit_def list_all_iff by blast
  then have "count_all_tokens os d = d" for d by (induction os arbitrary: d) simp_all
  with q os show ?thesis by (simp add: wordlist_feedback_for_def Let_def)
qed

subsection \<open>A branch of one slot\<close>

definition one_slot_events :: events where
  "one_slot_events i = (if i = ''b'' \<or> i = ''evt_1'' then Some busy_seed else None)"

definition vocab_event :: "string \<Rightarrow> string \<Rightarrow> event" where
  "vocab_event i parent = dns_event\<lparr>event_id := i, ev_type := EV_VOCAB_TOKEN, parent_event_id := Some parent\<rparr>"

text \<open>Two events that are each other's parent.\<close>

definition one_slot_cycle :: events where
  "one_slot_cycle i =
     (if i = ''evt_1'' then Some (vocab_event ''evt_1'' ''evt_2'')
      else if i = ''evt_2'' then Some (vocab_event ''evt_2'' ''evt_1'') else None)"

lemma one_slot_cycle_ok: "repository_ok one_slot_cycle"
  by (simp add: repository_ok_def one_slot_cycle_def vocab_event_def)

lemma one_slot_cycle_barren: "direct_at idna one_slot_cycle (one_slot_cycle i) k = None"
proof (induction k arbitrary: i)
  case 0
  then show ?case by (simp add: one_slot_cycle_def vocab_event_def scope_subject_from_event_def event_url_def)
next
  case (Suc k)
  have "one_slot_cycle i = None \<or> (\<exists>x p. one_slot_cycle i = Some x \<and> parent_event_id x = Some p)"
    by (simp add: one_slot_cycle_def vocab_event_def)
  with Suc show ?case by auto
qed

definition quiet_worker :: "unit worker_entry" where
  "quiet_worker = \<lparr>we_run = (\<lambda>t x. (Inr \<lparr>wr_outcome = W_SUCCEEDED, wr_error = None, wr_retry_after_seconds = None\<rparr>, x)),
     we_publishes = (\<lambda>t x. []), we_seconds = (\<lambda>t x. 1), we_limit = None\<rparr>"

definition one_slot_executor :: "unit executor" where
  "one_slot_executor = \<lparr>ex_workers = [(''dns'', quiet_worker)], ex_events = one_slot_events, ex_controller = busy_controller,
     ex_initial_tier = ST_MICRO, ex_novel_threshold = 7/10, ex_run_id = None\<rparr>"

definition fresh_state :: "unit executor_state" where
  "fresh_state = \<lparr>xs_yields = [], xs_convergence = [], xs_warnings = [], xs_world = ()\<rparr>"

subsection \<open>The properties\<close>

text \<open>the cycle check costs nothing: over a repository that finds events under their own identifiers, the subject a task
  is gated on is the subject of the nearest of its first 24 ancestors that has one of its own; a cyclic lineage
  without one ends in no subject.\<close>

theorem lineage_subject_is_nearest:
  assumes "repository_ok get"
  shows "subject_for idna get t = Some s \<longleftrightarrow>
    (\<exists>k < max_parent_depth. direct_at idna get (get (t_input_event_id t)) k = Some s
       \<and> (\<forall>j < k. direct_at idna get (get (t_input_event_id t)) j = None))"
  using lineage_is_nearest[OF assms, of idna "{}" "get (t_input_event_id t)" max_parent_depth] assms
  by (simp add: subject_for_def nearest_subject_iff walked_def repository_ok_def)

theorem lineage_subject_is_nearest_witness:
  "subject_for (\<lambda>s. None) one_slot_cycle sample_task = None"
proof -
  have "subject_for (\<lambda>s. None) one_slot_cycle sample_task \<noteq> Some s" for s
    using lineage_subject_is_nearest[OF one_slot_cycle_ok, of "\<lambda>s. None" sample_task s] by (simp add: one_slot_cycle_barren)
  then show ?thesis by (cases "subject_for (\<lambda>s. None) one_slot_cycle sample_task") auto
qed

text \<open>C13: convergence decisions are enforced: after an evaluation of a branch, the gate in front of every task of that
  branch and lane BLOCKs exactly when the decision was CLOSE, and DEFERs exactly until the cooldown it announced is
  over; every other decision lets the task pass. The target is in canonical form and the branch identifier has no
  surrounding white space.\<close>

theorem decisions_are_enforced:
  assumes "conv_store_ok cc s" and "conv_evaluate cc seed b (task_budget_lane t) tier now ys bs s = (Inr d, s')"
    and "target_key_for_event (ym_idna (cc_yield cc)) seed = Some tk" and "lower (strip tk) = tk" and "tk \<noteq> []"
    and "strip b = b" and "t_branch_id t = Some b" and "get b = Some seed"
  shows "\<exists>g. convergence_gate (ym_idna (cc_yield cc)) get later t s' = Inr g
    \<and> (gd_outcome g = G_BLOCK \<longleftrightarrow> cd_action d = CA_CLOSE)
    \<and> (gd_outcome g = G_DEFER \<longleftrightarrow> cd_action d = CA_COOLDOWN \<and> later < the (cd_cooldown_until d))
    \<and> (gd_outcome g = G_DEFER \<longrightarrow> gd_retry_after_seconds g = Some (total_seconds (the (cd_cooldown_until d) - later)))
    \<and> (should_dispatch d \<longrightarrow> gd_outcome g = G_ALLOW)"
proof -
  let ?p = "cd_after d"
  have "branch_state (ym_idna (cc_yield cc)) get t s' = Some ?p"
    using stored_decision[OF assms(1-6)] assms(3,7,8) by (simp add: branch_state_def)
  from convergence_gate_of_state[OF this, of later] obtain g where g: "convergence_gate (ym_idna (cc_yield cc)) get later t s' = Inr g"
    "gd_outcome g = (if cv_closed ?p then G_BLOCK else if cooling ?p later then G_DEFER else G_ALLOW)"
    "gd_outcome g = G_DEFER \<longrightarrow> (\<exists>u. cv_cooldown_until ?p = Some u \<and> gd_retry_after_seconds g = Some (total_seconds (u - later)))"
    by blast
  obtain p i where d: "d = decide (cc_config cc) (cc_maximum_tier cc) p i" using assms(2) by (rule evaluate_Inr)
  have c: "cv_closed ?p \<longleftrightarrow> cd_action d = CA_CLOSE" by (simp add: d decide_closed)
  show ?thesis
  proof (cases "cd_action d = CA_CLOSE")
    case True
    with g c show ?thesis by (intro exI[of _ g]) (simp add: should_dispatch_def)
  next
    case False
    with decide_cooldown[of "cc_config cc" "cc_maximum_tier cc" p i]
    have u: "cv_cooldown_until ?p = cd_cooldown_until d" "cd_action d = CA_COOLDOWN \<longleftrightarrow> cd_cooldown_until d \<noteq> None"
      by (simp_all add: d)
    with g c False show ?thesis
      by (intro exI[of _ g]) (auto simp: should_dispatch_def cooling_def split: option.splits)
  qed
qed

text \<open>instrumentation is transparent: whatever a worker does, returns or raises (a cancellation apart), the executor
  passes on its validated result or its error, and adds to a reachable yield store exactly one valid observation of
  one attempted unit with the outcome of the worker, FAILED for an error.\<close>

theorem instrumentation_is_transparent:
  assumes "fields_ok t" and "dict_get (ex_workers ex) (t_worker t) = Some w"
    and "we_run w (with_search_tier ex w t (xs_convergence s)) (xs_world s) = (r, world)"
    and "bind_res r validate_worker_result \<noteq> Inl CancelledError"
    and "yield_reachable (xs_yields s)" and "dict_get (xs_yields s) (new_yield_observation_id uuid) = None"
  shows "\<exists>y s'. executor_execute ex uuid now bs t s = (bind_res r validate_worker_result, s')
    \<and> xs_yields s' = xs_yields s @ [(new_yield_observation_id uuid, y)] \<and> yield_reachable (xs_yields s')
    \<and> xs_world s' = world \<and> observation_ok y \<and> yo_attempted y = 1
    \<and> yo_hits y = (if 0 < yo_new_assets y then 1 else 0) \<and> yo_outcome y = recorded_outcome r"
proof -
  from executor_spec[OF assms(1-4), of uuid now bs] obtain y s' where
    y: "executor_execute ex uuid now bs t s = (bind_res r validate_worker_result, s')"
    "xs_yields s' = snd (yield_append y (xs_yields s))" "xs_world s' = world" "observation_ok y"
    "yo_id y = new_yield_observation_id uuid" "yo_attempted y = 1"
    "yo_hits y = (if 0 < yo_new_assets y then 1 else 0)" "yo_outcome y = recorded_outcome r" by blast
  moreover have "yield_reachable (xs_yields s')" unfolding y(2) by (rule yield_reachable.appended[OF assms(5) y(4)])
  ultimately show ?thesis using assms(6) by (intro exI[of _ y] exI[of _ s']) (simp add: yield_append_fresh)
qed

lemma budget_task_fields: "fields_ok budget_task"
  by (simp add: fields_ok_def budget_task_def default_task_def strip_def is_space_def Tasks.normalize_search_tier_def)

lemma quiet_run: "we_run quiet_worker t x = (Inr \<lparr>wr_outcome = W_SUCCEEDED, wr_error = None, wr_retry_after_seconds = None\<rparr>, x)"
  by (simp add: quiet_worker_def)

lemma quiet_result:
  "bind_res (Inr \<lparr>wr_outcome = W_SUCCEEDED, wr_error = None, wr_retry_after_seconds = None\<rparr>) validate_worker_result
     = Inr \<lparr>wr_outcome = W_SUCCEEDED, wr_error = None, wr_retry_after_seconds = None\<rparr>"
  by (simp add: validate_worker_result_def)

theorem instrumentation_is_transparent_witness:
  "\<exists>y s'. xs_yields (snd (executor_execute one_slot_executor 1 5 empty_budget_store budget_task fresh_state))
     = [(new_yield_observation_id 1, y)] \<and> yo_outcome y = YO_SUCCEEDED"
proof -
  note budget_task_fields
  moreover have "dict_get (ex_workers one_slot_executor) (t_worker budget_task) = Some quiet_worker"
    by (simp add: one_slot_executor_def budget_task_def default_task_def)
  moreover have "bind_res (Inr \<lparr>wr_outcome = W_SUCCEEDED, wr_error = None, wr_retry_after_seconds = None\<rparr>) validate_worker_result
    \<noteq> Inl CancelledError" unfolding quiet_result by simp
  ultimately show ?thesis
    using instrumentation_is_transparent[OF _ _ quiet_run, of budget_task one_slot_executor fresh_state 1 5 empty_budget_store]
      no_observations by (auto simp: fresh_state_def recorded_outcome_def quiet_result[unfolded bind_res_simps])
qed

text \<open>On the one-slot branch of \<^theory_text>\<open>Convergence_Guarantees\<close>, with its slot taken, the gate blocks.\<close>

lemma one_slot_target: "target_key_for_event (ym_idna (cc_yield busy_controller)) busy_seed = Some ''a.example''"
  by (rule busy_target)

lemma canonical_target: "lower (strip ''a.example'') = ''a.example''"
  by code_simp

lemma budget_task_lane: "task_budget_lane budget_task = L_NORMAL"
  by (simp add: task_budget_lane_def is_exploration_work_def budget_task_def default_task_def) code_simp

lemma budget_task_branch: "t_branch_id budget_task = Some ''b''"
  by (simp add: budget_task_def)

lemma one_slot_seed: "one_slot_events ''b'' = Some busy_seed" "one_slot_events (t_input_event_id budget_task) = Some busy_seed"
  by (simp_all add: one_slot_events_def budget_task_def default_task_def)

theorem decisions_are_enforced_witness:
  "\<exists>d s' g. conv_evaluate busy_controller busy_seed ''b'' L_NORMAL ST_MICRO 5 [] budget_sample [] = (Inr d, s')
     \<and> convergence_gate (ym_idna (cc_yield busy_controller)) one_slot_events 9 budget_task s' = Inr g \<and> gd_outcome g = G_BLOCK"
proof -
  have s: "conv_store_ok busy_controller []" by (simp add: conv_store_ok_def)
  obtain d where d: "conv_evaluate busy_controller busy_seed ''b'' L_NORMAL ST_MICRO 5 [] budget_sample [] = (Inr d, conv_put (cd_after d) [])"
    "cd_action d = CA_CLOSE" using evaluate_busy[OF s no_observations, of budget_sample 5] sample_usage by blast
  from decisions_are_enforced[OF s _ one_slot_target canonical_target _ strip_b budget_task_branch, of ST_MICRO 5 "[]" budget_sample d
      "conv_put (cd_after d) []" one_slot_events 9] d show ?thesis
    unfolding budget_task_lane one_slot_seed by blast
qed

lemma busy_commit:
  assumes "budget_inv bs" and u: "usage (''branch:b'', HARD, M_CONCURRENT_TASKS) bs = (0, 1)"
    and "get_reservation (new_reservation_id 7) bs = Some (make_reservation 7 budget_task [busy_check] 0 1000)"
    and "\<forall>u. new_reservation_id u \<noteq> new_reservation_id 7 \<longrightarrow> get_reservation (new_reservation_id u) bs = None"
  shows "\<exists>bs2 dec2 bs3. budget_commit (new_reservation_id 7) bs
      = (Inr (with_state R_COMMITTED (make_reservation 7 budget_task [busy_check] 0 1000)), bs2)
    \<and> budget_reserve busy_manager 8 0 budget_task default_demand default_context 1000 bs2 = (Inr dec2, bs3)
    \<and> bd_outcome dec2 = B_ALLOW"
proof -
  obtain bs2 where bs2: "budget_commit (new_reservation_id 7) bs
      = (Inr (with_state R_COMMITTED (make_reservation 7 budget_task [busy_check] 0 1000)), bs2)"
    "closes R_COMMITTED (make_reservation 7 budget_task [busy_check] 0 1000) bs bs2"
    using commit_spec[OF assms(1,3)] by (auto simp: budget_commit_def make_reservation_def)
  have "new_reservation_id 8 \<noteq> new_reservation_id 7"
    by (simp add: new_reservation_id_def uuid_hex_def upt_rec hex_digit_def)
  then have g: "get_reservation (new_reservation_id 8) bs2 = None"
    using get_closed[OF bs2(2), of "new_reservation_id 8"] assms(4) by (simp add: make_reservation_def)
  have "usage (''branch:b'', HARD, M_CONCURRENT_TASKS) bs2 = (0, 0)"
    using bs2(2) u by (simp add: closes_def usage_def make_reservation_def on_key_def item_key_def busy_check_def is_capacity_def)
  moreover have "budget_inv bs2" using bs2(2) by (simp add: closes_def)
  ultimately obtain dec2 bs3 where "budget_reserve busy_manager 8 0 budget_task default_demand default_context 1000 bs2 = (Inr dec2, bs3)"
    "bd_outcome dec2 = B_ALLOW" using busy_reserve[OF _ g] by blast
  with bs2(1) show ?thesis by blast
qed

lemma fresh_world: "fresh_state\<lparr>xs_world := ()\<rparr> = fresh_state"
  by (simp add: fresh_state_def)

lemma one_slot_execute:
  assumes "usage (''branch:b'', HARD, M_CONCURRENT_TASKS) bs = (0, 1)"
  shows "\<exists>s'. executor_execute one_slot_executor 1 5 bs budget_task fresh_state
       = (Inr \<lparr>wr_outcome = W_SUCCEEDED, wr_error = None, wr_retry_after_seconds = None\<rparr>, s')
     \<and> (\<exists>p. branch_state (exec_idna one_slot_executor) one_slot_events budget_task (xs_convergence s') = Some p \<and> cv_closed p)"
proof -
  let ?e = one_slot_executor
  have ex: "ex_events ?e = one_slot_events" "ex_controller ?e = busy_controller" "ex_initial_tier ?e = ST_MICRO"
    "exec_idna ?e = ym_idna (cc_yield busy_controller)" "dict_get (ex_workers ?e) (t_worker budget_task) = Some quiet_worker"
    by (simp_all add: one_slot_executor_def exec_idna_def budget_task_def default_task_def)
  obtain y where y: "record_yield ?e 1 5 budget_task (Some busy_seed) (published_metrics (ex_novel_threshold ?e) []) 1 YO_SUCCEEDED fresh_state
      = (Inr (), fresh_state\<lparr>xs_yields := snd (yield_append y [])\<rparr>)" "observation_ok y"
    using record_yield_total[OF budget_task_fields published_metrics_ok, of ?e 1 5 "Some busy_seed" "ex_novel_threshold ?e" "[]" 1 YO_SUCCEEDED fresh_state]
    by (auto simp: fresh_state_def)
  have s: "conv_store_ok busy_controller []" by (simp add: conv_store_ok_def)
  obtain d where d: "conv_evaluate busy_controller busy_seed ''b'' L_NORMAL ST_MICRO 5 (snd (yield_append y [])) bs []
      = (Inr d, conv_put (cd_after d) [])"
    "conv_get (Some ''a.example'') ''b'' L_NORMAL (conv_put (cd_after d) []) = Some (cd_after d)" "cv_closed (cd_after d)"
    using evaluate_busy[OF s yield_reachable.appended[OF no_observations y(2)], of bs 5] assms by blast
  have "update_convergence ?e 5 budget_task (Some busy_seed) bs (fresh_state\<lparr>xs_yields := snd (yield_append y [])\<rparr>)
      = fresh_state\<lparr>xs_yields := snd (yield_append y []), xs_convergence := conv_put (cd_after d) []\<rparr>"
    using d(1) by (simp add: update_convergence_def budget_task_branch budget_task_lane ex one_slot_seed one_slot_target
        fresh_state_def conv_get_def)
  then have "executor_execute ?e 1 5 bs budget_task fresh_state
     = (Inr \<lparr>wr_outcome = W_SUCCEEDED, wr_error = None, wr_retry_after_seconds = None\<rparr>,
        fresh_state\<lparr>xs_yields := snd (yield_append y []), xs_convergence := conv_put (cd_after d) []\<rparr>)"
    using y(1) by (simp add: fresh_world executor_execute_def ex(1,5) one_slot_seed Let_def quiet_worker_def quiet_result[unfolded bind_res_simps])
  then show ?thesis using d(2,3)
    by (simp add: branch_state_def budget_task_branch budget_task_lane one_slot_seed one_slot_target ex(4))
qed

text \<open>A sample computation, not a general law: on a branch with a hard limit of one concurrent task, an executor that
  reads the budget while the reservation of its own task is still ACTIVE (the lifecycle commits after the worker) closes
  the branch with its first task: the executor returns its success, the budget manager allows the next task, and the
  convergence gate blocks it.\<close>

lemma one_slot_branch_starves:
  "\<exists>dec bs s' r bs2 dec2 bs3 g.
     budget_reserve busy_manager 7 0 budget_task default_demand default_context 1000 empty_budget_store = (Inr dec, bs)
   \<and> executor_execute one_slot_executor 1 5 bs budget_task fresh_state
       = (Inr \<lparr>wr_outcome = W_SUCCEEDED, wr_error = None, wr_retry_after_seconds = None\<rparr>, s')
   \<and> budget_commit (new_reservation_id 7) bs = (Inr r, bs2)
   \<and> budget_reserve busy_manager 8 0 budget_task default_demand default_context 1000 bs2 = (Inr dec2, bs3)
   \<and> bd_outcome dec2 = B_ALLOW
   \<and> convergence_gate (exec_idna one_slot_executor) one_slot_events 1000000 budget_task (xs_convergence s') = Inr g
   \<and> gd_outcome g = G_BLOCK"
proof -
  let ?k = "(''branch:b'', HARD, M_CONCURRENT_TASKS)"
  have e: "budget_inv empty_budget_store" "usage ?k empty_budget_store = (0, 0)"
    "\<And>u. get_reservation u empty_budget_store = None"
    using reachable_safe[OF budget_reachable.start busy_profile_ok]
    by (auto simp: usage_def empty_budget_store_def dict_default_def get_reservation_def)
  obtain dec bs where bs: "budget_reserve busy_manager 7 0 budget_task default_demand default_context 1000 empty_budget_store = (Inr dec, bs)"
    "budget_inv bs" "usage ?k bs = (0, 1)"
    "get_reservation (new_reservation_id 7) bs = Some (make_reservation 7 budget_task [busy_check] 0 1000)"
    "\<forall>u. new_reservation_id u \<noteq> new_reservation_id 7 \<longrightarrow> get_reservation (new_reservation_id u) bs = None"
    using busy_reserve[OF e(1) e(3) e(2), of 7] e(3) by auto
  obtain bs2 dec2 bs3 where after: "budget_commit (new_reservation_id 7) bs
      = (Inr (with_state R_COMMITTED (make_reservation 7 budget_task [busy_check] 0 1000)), bs2)"
    "budget_reserve busy_manager 8 0 budget_task default_demand default_context 1000 bs2 = (Inr dec2, bs3)" "bd_outcome dec2 = B_ALLOW"
    using busy_commit[OF bs(2-5)] by blast
  obtain s' where s': "executor_execute one_slot_executor 1 5 bs budget_task fresh_state
       = (Inr \<lparr>wr_outcome = W_SUCCEEDED, wr_error = None, wr_retry_after_seconds = None\<rparr>, s')"
    "\<exists>p. branch_state (exec_idna one_slot_executor) one_slot_events budget_task (xs_convergence s') = Some p \<and> cv_closed p"
    using one_slot_execute[OF bs(3)] by blast
  then obtain p where p: "branch_state (exec_idna one_slot_executor) one_slot_events budget_task (xs_convergence s') = Some p" "cv_closed p"
    by blast
  from convergence_gate_of_state[OF p(1), of 1000000] p(2) obtain g where
    "convergence_gate (exec_idna one_slot_executor) one_slot_events 1000000 budget_task (xs_convergence s') = Inr g"
    "gd_outcome g = G_BLOCK" by auto
  with bs(1) s'(1) after show ?thesis by blast
qed

text \<open>Signals that pass the validator and demand review.\<close>

definition sure_signal :: "review_signal \<Rightarrow> bool" where
  "sure_signal g \<longleftrightarrow> sig_confidence g \<le> 1 \<and> 1 / 2 \<le> sig_confidence g \<and> strip (sig_summary g) \<noteq> []
     \<and> sig_category g \<in> rp_review_categories default_review_policy \<and> SEV_MEDIUM \<le> sig_severity g"

lemma sure_signals_valid:
  "list_all sure_signal gs \<Longrightarrow> \<exists>gs'. validate_signals gs = Inr gs' \<and> (gs' = [] \<longleftrightarrow> gs = [])
     \<and> list_all (requires_review default_review_policy) gs'"
proof (induction gs)
  case (Cons g gs)
  then obtain gs' where gs': "validate_signals gs = Inr gs'" "list_all (requires_review default_review_policy) gs'" by auto
  have g: "sure_signal g" using Cons.prems by simp
  then obtain g' where "validate_signal g = Inr g'" "sig_confidence g' = sig_confidence g" "sig_category g' = sig_category g"
    "sig_severity g' = sig_severity g"
    by (auto simp: sure_signal_def validate_signal_def not_blank_def)
  moreover from this g have "requires_review default_review_policy g'"
    by (simp add: sure_signal_def requires_review_def not_less default_review_policy_def dict_default_def)
  ultimately show ?case using gs' by simp
qed simp

lemma valid_event_confidence: "validate_event e = Inr e \<Longrightarrow> 0 \<le> ev_confidence e \<and> ev_confidence e \<le> 1"
  by (auto simp: validate_event_def unit_interval_def bind_res_Inr_iff split: if_splits)

lemma sure_event_signal:
  assumes "ev_confidence e \<le> 1" and "1 / 2 \<le> least" and "least \<le> 1" and "strip summary \<noteq> []" and "SEV_MEDIUM \<le> severity"
    and "category \<in> rp_review_categories default_review_policy"
  shows "sure_signal (event_signal digest e category severity least summary tags)"
  using assms by (simp add: sure_signal_def event_signal_def le_max_iff_disj)

lemma sure_texts:
  "strip ''input event contains a redacted possible-secret signal'' \<noteq> []"
  "strip ''input event indicates possible private-data exposure'' \<noteq> []"
  "strip ''input event indicates an authentication-boundary follow-up'' \<noteq> []"
  "strip ''upstream event explicitly requested human review before follow-up'' \<noteq> []"
  by code_simp+

definition flagged :: "event \<Rightarrow> bool" where
  "flagged e \<longleftrightarrow> (\<exists>t \<in> ev_tags e. sensitive_tag t)
     \<or> list_ex (is_true e) [''private_data'', ''auth_boundary'', ''review_required'']"

text \<open>C37: flagged events are reviewed: a valid event that carries a secret or credential tag, or one of the three metadata
  flags set to true, yields at least one review signal, each of them valid and, whatever the confidence of the event,
  demanding review under the default policy; other events yield none.\<close>

theorem flagged_events_need_review:
  assumes "get (t_input_event_id t) = Some e" and "validate_event e = Inr e"
  shows "\<exists>gs. runtime_review_signals digest get t = Inr gs \<and> (gs \<noteq> [] \<longleftrightarrow> flagged e)
    \<and> list_all (requires_review default_review_policy) gs"
proof -
  have c: "0 \<le> ev_confidence e" "ev_confidence e \<le> 1" using assms(2) valid_event_confidence by blast+
  have v: "\<exists>gs'. validate_signals gs = Inr gs' \<and> (gs' = [] \<longleftrightarrow> gs = []) \<and> list_all (requires_review default_review_policy) gs'"
    if "list_all sure_signal gs" for gs
    using that sure_signals_valid by blast
  have "list_all sure_signal (raw_signals digest e)"
    using c unfolding raw_signals_def list_all_append
    by (simp add: sure_event_signal sure_texts default_review_policy_def less_eq_review_severity_def)
  from v[OF this] assms(1) show ?thesis
    by (auto simp: runtime_review_signals_def flagged_def raw_signals_def split: if_splits)
qed

definition secret_event :: event where
  "secret_event = dns_event\<lparr>ev_tags := {''api-secret''}\<rparr>"

lemma secret_event_valid: "validate_event secret_event = Inr secret_event" "flagged secret_event"
proof -
  have "strip ''a.example'' = ''a.example''" "strip ''seed'' = ''seed''" "sensitive_tag ''api-secret''" by code_simp+
  then show "validate_event secret_event = Inr secret_event" "flagged secret_event"
    by (simp_all add: secret_event_def validate_event_def dns_event_def default_event_def not_blank_def unit_interval_def flagged_def)
qed

theorem flagged_events_need_review_witness:
  "\<exists>gs. runtime_review_signals (\<lambda>s. s) (\<lambda>i. Some secret_event) sample_task = Inr gs \<and> gs \<noteq> []
     \<and> list_all (requires_review default_review_policy) gs"
  using flagged_events_need_review[of "\<lambda>i. Some secret_event" sample_task secret_event "\<lambda>s. s"] secret_event_valid by simp

text \<open>no credit reaches the word list: in every run of the executor, starting without observations, the feedback of
  the word list stays empty, because the instrumentation credits no tokens.\<close>

theorem no_credit_reaches_the_word_list:
  assumes "list_all (\<lambda>(uuid, now, bs, t). fields_ok t) jobs" and "xs_yields s = []"
  shows "wordlist_feedback_for idna seed (xs_yields (executor_run ex jobs s)) = Inr []"
  using executor_run_yields[OF assms(1), of s ex] assms(2) no_observations
  by (auto simp: without_credit_def intro: no_credit_no_feedback)

theorem no_credit_reaches_the_word_list_witness:
  "wordlist_feedback_for (\<lambda>s. None) busy_seed
     (xs_yields (executor_run one_slot_executor [(1, 5, empty_budget_store, budget_task)] fresh_state)) = Inr []"
  by (rule no_credit_reaches_the_word_list) (simp_all add: budget_task_fields fresh_state_def)

end
