(* ===== verification/Surface_Identity.thy ===== *)
theory Surface_Identity
  imports Scope
begin

section \<open>Surface identities (recon/surface/identity.py, models.py)\<close>

text \<open>
  How an event of the store is mapped onto a node of the surface graph: the kind of the node and its canonical
  value. \<open>str.casefold\<close> is that of code points below 256, where it differs from \<open>lower\<close> for the sharp s only
  (the micro sign, which folds to a code point beyond, is kept). The SHA-256 of hashlib is the parameter \<open>digest\<close>.
\<close>

datatype node_kind =
  NK_DOMAIN | NK_DNS_RECORD | NK_IP_ADDRESS | NK_CIDR | NK_ASN | NK_HTTP_SERVICE | NK_NETWORK_SERVICE | NK_ENDPOINT
  | NK_JAVASCRIPT | NK_CERTIFICATE | NK_TECHNOLOGY | NK_FINGERPRINT | NK_FAVICON | NK_PARAMETER | NK_INTELLIGENCE
  | NK_ARTIFACT | NK_MOBILE_ARTIFACT | NK_VULNERABILITY_CANDIDATE | NK_VULNERABILITY_FINDING

fun node_kind_value :: "node_kind \<Rightarrow> string" where
  "node_kind_value NK_DOMAIN = ''DOMAIN''"
| "node_kind_value NK_DNS_RECORD = ''DNS_RECORD''"
| "node_kind_value NK_IP_ADDRESS = ''IP_ADDRESS''"
| "node_kind_value NK_CIDR = ''CIDR''"
| "node_kind_value NK_ASN = ''ASN''"
| "node_kind_value NK_HTTP_SERVICE = ''HTTP_SERVICE''"
| "node_kind_value NK_NETWORK_SERVICE = ''NETWORK_SERVICE''"
| "node_kind_value NK_ENDPOINT = ''ENDPOINT''"
| "node_kind_value NK_JAVASCRIPT = ''JAVASCRIPT''"
| "node_kind_value NK_CERTIFICATE = ''CERTIFICATE''"
| "node_kind_value NK_TECHNOLOGY = ''TECHNOLOGY''"
| "node_kind_value NK_FINGERPRINT = ''FINGERPRINT''"
| "node_kind_value NK_FAVICON = ''FAVICON''"
| "node_kind_value NK_PARAMETER = ''PARAMETER''"
| "node_kind_value NK_INTELLIGENCE = ''INTELLIGENCE''"
| "node_kind_value NK_ARTIFACT = ''ARTIFACT''"
| "node_kind_value NK_MOBILE_ARTIFACT = ''MOBILE_ARTIFACT''"
| "node_kind_value NK_VULNERABILITY_CANDIDATE = ''VULNERABILITY_CANDIDATE''"
| "node_kind_value NK_VULNERABILITY_FINDING = ''VULNERABILITY_FINDING''"

record surface_id =
  si_kind :: node_kind
  si_value :: string

definition identity_material :: "surface_id \<Rightarrow> string" where
  "identity_material i = node_kind_value (si_kind i) @ '':'' @ si_value i"

definition node_id_of :: "(string \<Rightarrow> string) \<Rightarrow> surface_id \<Rightarrow> string" where
  "node_id_of digest i = ''sgn_'' @ take 24 (digest (identity_material i))"

subsection \<open>Normal forms\<close>

definition casefold :: "string \<Rightarrow> string" where
  "casefold s = concat (map (\<lambda>c. if (of_char c :: nat) = 223 then ''ss'' else [lower_char c]) s)"

fun split_words :: "string \<Rightarrow> string list" where
  "split_words [] = []"
| "split_words (c # s) =
     (if is_space c then split_words s
      else case s of
        [] \<Rightarrow> [[c]]
      | d # _ \<Rightarrow> if is_space d then [c] # split_words s
                 else (case split_words s of [] \<Rightarrow> [[c]] | w # ws \<Rightarrow> (c # w) # ws))"

definition rstrip_slashes :: "string \<Rightarrow> string" where
  "rstrip_slashes s = rev (dropWhile (\<lambda>c. c = CHR ''/'') (rev s))"

definition normalize_surface_domain :: "string \<Rightarrow> string" where
  "normalize_surface_domain v =
     (let wildcard = prefix ''*.'' v;
          normalized = rstrip_dots (lower (strip (if wildcard then drop 2 v else v)))
      in if wildcard then ''*.'' @ normalized else normalized)"

definition domain_from_url :: "string \<Rightarrow> string option" where
  "domain_from_url v =
     (case urlsplit v of
        Inl _ \<Rightarrow> None
      | Inr u \<Rightarrow> (case hostname u of None \<Rightarrow> None | Some h \<Rightarrow> Some (rstrip_dots (lower h))))"

definition url_default_port :: "string \<Rightarrow> nat option" where
  "url_default_port scheme = (if scheme = ''https'' then Some 443 else if scheme = ''http'' then Some 80 else None)"

text \<open>The port as it is shown: not at all when absent or the default of the scheme.\<close>

definition shown_port :: "string \<Rightarrow> nat option \<Rightarrow> string" where
  "shown_port scheme p =
     (case p of None \<Rightarrow> [] | Some n \<Rightarrow> if p = url_default_port scheme then [] else '':'' @ numeral 10 n)"

definition service_from_url :: "string \<Rightarrow> string option" where
  "service_from_url v =
     (case urlsplit v of
        Inl _ \<Rightarrow> None
      | Inr u \<Rightarrow>
          (case hostname u of
             None \<Rightarrow> None
           | Some h \<Rightarrow>
               if u_scheme u = [] then None
               else (case port u of
                       Inl _ \<Rightarrow> None
                     | Inr p \<Rightarrow> Some (lower (u_scheme u) @ ''://'' @ rstrip_dots (lower h) @ shown_port (lower (u_scheme u)) p))))"

definition normalize_service :: "string \<Rightarrow> string" where
  "normalize_service v =
     (case service_from_url v of Some s \<Rightarrow> s | None \<Rightarrow> rstrip_slashes (lower (strip v)))"

definition normalize_surface_url :: "string \<Rightarrow> string res" where
  "normalize_surface_url v =
     bind_res (urlsplit v) (\<lambda>u.
       case hostname u of
         None \<Rightarrow> Inr (strip v)
       | Some h \<Rightarrow>
           if u_scheme u = [] then Inr (strip v)
           else bind_res (port u) (\<lambda>p.
             Inr (urlunsplit (lower (u_scheme u)) (rstrip_dots (lower h) @ shown_port (lower (u_scheme u)) p)
                    (or_slash (u_path u)) (u_query u))))"

text \<open>Only a \<open>ValueError\<close> is caught, and nothing else is raised.\<close>

definition normalize_url_if_possible :: "string \<Rightarrow> string" where
  "normalize_url_if_possible v = (case normalize_surface_url v of Inl _ \<Rightarrow> strip v | Inr u \<Rightarrow> u)"

subsection \<open>The identity of an event\<close>

definition asn_value :: "string \<Rightarrow> string" where
  "asn_value v = (if prefix ''AS'' (upper v) then upper v else ''AS'' @ upper v)"

definition surface_identity :: "bool \<Rightarrow> event_type \<Rightarrow> string \<Rightarrow> surface_id option res" where
  "surface_identity include_intelligence ty v =
     (let m = strip v;
          found = (\<lambda>k c. Inr (Some \<lparr>si_kind = k, si_value = c\<rparr>))
      in if m = [] then Inr None
         else case ty of
           EV_PROJECT_NAME \<Rightarrow> if include_intelligence then found NK_INTELLIGENCE (casefold m) else Inr None
         | EV_VOCAB_TOKEN \<Rightarrow> if include_intelligence then found NK_INTELLIGENCE (casefold m) else Inr None
         | EV_NAMING_PATTERN \<Rightarrow> if include_intelligence then found NK_INTELLIGENCE (casefold m) else Inr None
         | EV_POLICY_BLOCK \<Rightarrow> Inr None
         | EV_HUMAN_REVIEW \<Rightarrow> Inr None
         | EV_RELATIONSHIP \<Rightarrow> Inr None
         | EV_HTTP_RESPONSE \<Rightarrow> Inr None
         | EV_URL_PATH \<Rightarrow> Inr None
         | EV_ROOT_DOMAIN \<Rightarrow> found NK_DOMAIN (normalize_surface_domain m)
         | EV_DNS_NAME \<Rightarrow> found NK_DOMAIN (normalize_surface_domain m)
         | EV_CERT_SAN \<Rightarrow> found NK_DOMAIN (normalize_surface_domain m)
         | EV_DNS_RECORD \<Rightarrow> found NK_DNS_RECORD (join '' '' (split_words m))
         | EV_IP_ADDRESS \<Rightarrow> bind_res (parse_address m) (\<lambda>a. found NK_IP_ADDRESS (show_ip a))
         | EV_CIDR \<Rightarrow> bind_res (parse_network m) (\<lambda>n. found NK_CIDR (show_net n))
         | EV_ASN \<Rightarrow> found NK_ASN (asn_value m)
         | EV_HTTP_SERVICE \<Rightarrow> found NK_HTTP_SERVICE (normalize_service m)
         | EV_URL \<Rightarrow> bind_res (normalize_surface_url m) (found NK_ENDPOINT)
         | EV_API_ENDPOINT \<Rightarrow> bind_res (normalize_surface_url m) (found NK_ENDPOINT)
         | EV_JAVASCRIPT \<Rightarrow> found NK_JAVASCRIPT (normalize_url_if_possible m)
         | EV_CERTIFICATE \<Rightarrow> found NK_CERTIFICATE (lower m)
         | EV_TECHNOLOGY \<Rightarrow> found NK_TECHNOLOGY (casefold m)
         | EV_FINGERPRINT \<Rightarrow> found NK_FINGERPRINT (casefold m)
         | EV_FAVICON \<Rightarrow> found NK_FAVICON m
         | EV_PARAMETER_NAME \<Rightarrow> found NK_PARAMETER m
         | EV_ARTIFACT \<Rightarrow> found NK_ARTIFACT (normalize_url_if_possible m)
         | EV_MOBILE_ARTIFACT \<Rightarrow> found NK_MOBILE_ARTIFACT m
         | EV_VULNERABILITY_CANDIDATE \<Rightarrow> found NK_VULNERABILITY_CANDIDATE m
         | EV_VULNERABILITY_FINDING \<Rightarrow> found NK_VULNERABILITY_FINDING m)"

end
