(* ===== verification/Surface_Graph.thy ===== *)
theory Surface_Graph
  imports Surface_Identity Corpus_Tokens Tasks
begin

section \<open>Nodes and edges of the surface graph (recon/surface/models.py, builder.py)\<close>

text \<open>
  The rows the graph is built from, the accumulators of nodes and edges, and the functions that finish them. An
  observation row is an event with the asset it belongs to. \<open>datetime.isoformat\<close> is the parameter \<open>isofmt\<close>; a JSON
  number that is integral is an int of Python.
\<close>

subsection \<open>Rows of the store\<close>

record observation = event +
  ob_asset_id :: string

record relationship_row =
  rl_id :: string
  rl_source_asset_id :: string
  rl_target_asset_id :: string
  rl_type :: string
  rl_confidence :: rat
  rl_first_seen :: time
  rl_last_seen :: time
  rl_first_source_event_id :: "string option"
  rl_metadata :: "(string, json) dict"

record evidence_row =
  er_relationship_id :: "string option"
  er_event_id :: "string option"

subsection \<open>The graph\<close>

datatype discovery_state = DS_CONFIRMED | DS_HYPOTHESIS | DS_HISTORICAL | DS_OBSERVED | DS_STALE

fun discovery_value :: "discovery_state \<Rightarrow> string" where
  "discovery_value DS_CONFIRMED = ''CONFIRMED''"
| "discovery_value DS_HYPOTHESIS = ''HYPOTHESIS''"
| "discovery_value DS_HISTORICAL = ''HISTORICAL''"
| "discovery_value DS_OBSERVED = ''OBSERVED''"
| "discovery_value DS_STALE = ''STALE''"

datatype liveness_state = LS_LIVE | LS_UNVERIFIED | LS_NOT_OBSERVED | LS_UNKNOWN

record evidence_ref =
  ef_event_id :: string
  ef_source :: string
  ef_event_type :: event_type
  ef_first_seen :: time

record surface_node =
  sn_id :: string
  sn_kind :: node_kind
  sn_value :: string
  sn_label :: string
  sn_roles :: "string list"
  sn_scope :: scope_state
  sn_discovery :: discovery_state
  sn_liveness :: liveness_state
  sn_confidence :: rat
  sn_novelty :: rat
  sn_first_seen :: time
  sn_last_seen :: time
  sn_observation_count :: int
  sn_asset_ids :: "string list"
  sn_sources :: "string list"
  sn_tags :: "string list"
  sn_evidence :: "evidence_ref list"
  sn_metadata :: "(string, json) dict"

record surface_edge =
  ge_id :: string
  ge_source :: string
  ge_target :: string
  ge_relation :: string
  ge_confidence :: rat
  ge_first_seen :: time
  ge_last_seen :: time
  ge_supporting :: "string list"
  ge_derived :: bool
  ge_metadata :: "(string, json) dict"

record graph_filter =
  gf_confirmed_only :: bool
  gf_hypotheses :: bool
  gf_historical :: bool
  gf_out_of_scope :: bool
  gf_intelligence :: bool
  gf_provenance :: bool
  gf_root :: "string option"
  gf_max_depth :: "nat option"
  gf_min_confidence :: rat
  gf_max_nodes :: nat
  gf_max_edges :: nat

definition default_graph_filter :: graph_filter where
  "default_graph_filter = \<lparr>gf_confirmed_only = False, gf_hypotheses = True, gf_historical = True,
     gf_out_of_scope = False, gf_intelligence = False, gf_provenance = False, gf_root = None, gf_max_depth = None,
     gf_min_confidence = 0, gf_max_nodes = 100000, gf_max_edges = 250000\<rparr>"

subsection \<open>Counters\<close>

definition count :: "'a \<Rightarrow> ('a, int) dict \<Rightarrow> ('a, int) dict" where
  "count x d = dict_set x (dict_default d x 0 + 1) d"

text \<open>\<open>max(xs, key=f)\<close> and \<open>most_common(1)\<close>: the first of the greatest.\<close>

definition first_max :: "('a \<Rightarrow> 'k::linorder) \<Rightarrow> 'a list \<Rightarrow> 'a" where
  "first_max f xs = hd (sort_desc f xs)"

definition most_common :: "('a, int) dict \<Rightarrow> 'a" where
  "most_common d = fst (first_max snd d)"

subsection \<open>Accumulated nodes\<close>

record node_acc =
  na_identity :: surface_id
  na_values :: "(string, int) dict"
  na_asset_ids :: "string set"
  na_event_types :: "event_type set"
  na_observations :: "observation list"
  na_sources :: "string set"
  na_tags :: "string set"
  na_metadata :: "(string, json) dict"
  na_first_seen :: "time option"
  na_last_seen :: "time option"
  na_confidence :: rat
  na_novelty :: rat
  na_scope_states :: "scope_state set"
  na_coverage :: "(string, (string, int) dict) dict"
  na_http :: "observation list"

definition new_node :: "surface_id \<Rightarrow> node_acc" where
  "new_node i = \<lparr>na_identity = i, na_values = [], na_asset_ids = {}, na_event_types = {}, na_observations = [],
     na_sources = {}, na_tags = {}, na_metadata = [], na_first_seen = None, na_last_seen = None, na_confidence = 0,
     na_novelty = 0, na_scope_states = {}, na_coverage = [], na_http = []\<rparr>"

definition kept_metadata_keys :: "string list" where
  "kept_metadata_keys = [''hostname'', ''port'', ''scheme'', ''url'', ''observed_on'', ''record_type'', ''record_value'',
     ''owner'', ''status_code'', ''title'', ''content_type'', ''location'', ''path'', ''parameter_location'',
     ''target_url'', ''cve_id'', ''template_id'', ''severity'', ''historical'', ''confirmed'',
     ''requires_dns_confirmation'', ''requires_live_confirmation'', ''scope_matched_rule_id'', ''scope_tier'',
     ''sha256'', ''fingerprint'', ''serial_number'', ''not_before'', ''not_after'']"

fun keep_metadata :: "(string \<times> json) list \<Rightarrow> (string, json) dict \<Rightarrow> (string, json) dict" where
  "keep_metadata [] d = d"
| "keep_metadata ((k, v) # rest) d =
     keep_metadata rest (if k \<in> set kept_metadata_keys \<and> v \<noteq> J_null then dict_set k v d else d)"

definition earlier :: "time option \<Rightarrow> time \<Rightarrow> time option" where
  "earlier t u = Some (case t of None \<Rightarrow> u | Some v \<Rightarrow> min v u)"

definition later :: "time option \<Rightarrow> time \<Rightarrow> time option" where
  "later t u = Some (case t of None \<Rightarrow> u | Some v \<Rightarrow> max v u)"

text \<open>What an observation adds in both cases; \<open>aid\<close> is the identifier of its asset row.\<close>

definition measure_node :: "string \<Rightarrow> observation \<Rightarrow> node_acc \<Rightarrow> node_acc" where
  "measure_node aid o' n = n\<lparr>na_asset_ids := insert aid (na_asset_ids n), na_observations := na_observations n @ [o'],
     na_sources := insert (ev_source o') (na_sources n), na_tags := na_tags n \<union> ev_tags o',
     na_first_seen := earlier (na_first_seen n) (first_seen o'), na_last_seen := later (na_last_seen n) (last_seen o'),
     na_confidence := max (na_confidence n) (ev_confidence o'), na_novelty := max (na_novelty n) (ev_novelty o'),
     na_scope_states := insert (ev_scope_state o') (na_scope_states n)\<rparr>"

definition add_observation :: "string \<Rightarrow> observation \<Rightarrow> node_acc \<Rightarrow> node_acc" where
  "add_observation aid o' n =
     (let m = measure_node aid o' n
      in m\<lparr>na_values := count (ev_value o') (na_values n), na_event_types := insert (ev_type o') (na_event_types n),
           na_metadata := keep_metadata (ev_metadata o') (na_metadata n)\<rparr>)"

definition attach_http_response :: "string \<Rightarrow> observation \<Rightarrow> node_acc \<Rightarrow> node_acc" where
  "attach_http_response aid o' n =
     (let m = measure_node aid o' n
      in m\<lparr>na_event_types := insert EV_HTTP_RESPONSE (na_event_types n), na_http := na_http n @ [o']\<rparr>)"

subsection \<open>The states of a node\<close>

definition roles_of :: "event_type set \<Rightarrow> string set \<Rightarrow> string list" where
  "roles_of types tags = sorted_list_of_set
     ((if EV_ROOT_DOMAIN \<in> types then {''ROOT''} else {}) \<union> (if ''seed'' \<in> tags then {''SEED''} else {})
      \<union> (if EV_API_ENDPOINT \<in> types then {''API''} else {})
      \<union> (if ''redirect-target'' \<in> tags then {''REDIRECT_TARGET''} else {}))"

definition has_tag :: "string \<Rightarrow> node_acc \<Rightarrow> bool" where
  "has_tag t n \<longleftrightarrow> t \<in> lower ` na_tags n"

definition is_set :: "string \<Rightarrow> node_acc \<Rightarrow> bool" where
  "is_set key n \<longleftrightarrow> dict_get (na_metadata n) key = Some (J_bool True)"

definition discovery_of :: "node_acc \<Rightarrow> discovery_state" where
  "discovery_of n =
     (if has_tag ''confirmed'' n \<or> is_set ''confirmed'' n then DS_CONFIRMED
      else if has_tag ''historical'' n \<or> is_set ''historical'' n then DS_HISTORICAL
      else if EV_ROOT_DOMAIN \<in> na_event_types n then DS_OBSERVED
      else if has_tag ''hypothesis'' n \<or> is_set ''requires_dns_confirmation'' n \<or> is_set ''requires_live_confirmation'' n
      then DS_HYPOTHESIS else DS_OBSERVED)"

definition liveness_of :: "node_acc \<Rightarrow> liveness_state" where
  "liveness_of n =
     (if has_tag ''confirmed'' n \<and> si_kind (na_identity n) \<in> {NK_HTTP_SERVICE, NK_ENDPOINT} then LS_LIVE
      else if has_tag ''negative'' n then LS_NOT_OBSERVED
      else if discovery_of n \<in> {DS_HYPOTHESIS, DS_HISTORICAL} then LS_UNVERIFIED
      else LS_UNKNOWN)"

definition merged_scope :: "scope_state set \<Rightarrow> scope_state" where
  "merged_scope states =
     (let material = states - {SC_UNKNOWN}
      in if material = {} then SC_UNKNOWN
         else if card material = 1 then the_elem material
         else if SC_OUT_OF_SCOPE \<in> material then SC_AMBIGUOUS
         else if SC_AMBIGUOUS \<in> material then SC_AMBIGUOUS
         else if SC_PASSIVE_ONLY \<in> material then SC_PASSIVE_ONLY
         else SC_IN_SCOPE)"

subsection \<open>HTTP measurements\<close>

definition response_endpoint :: "observation \<Rightarrow> string option" where
  "response_endpoint o' =
     (case metadata_text (event.truncate o') ''url'' of
        None \<Rightarrow> None
      | Some raw \<Rightarrow>
          (case surface_identity False EV_URL raw of
             Inr (Some i) \<Rightarrow> if si_kind i = NK_ENDPOINT then Some (si_value i) else None
           | _ \<Rightarrow> None))"

text \<open>\<open>int(s)\<close> of a text for which \<open>isdigit\<close> holds: the superscripts are refused, and more than 4300 digits.\<close>

definition int_of_digits :: "string \<Rightarrow> int res" where
  "int_of_digits s =
     (if \<not> all_digits s then Inl (ValueError (''invalid literal for int() with base 10: '' @ py_repr s))
      else if 4300 < length s then Inl (ValueError ''Exceeds the limit (4300 digits) for integer string conversion'')
      else Inr (int (digits_value 10 s)))"

definition status_in_range :: "int \<Rightarrow> int option" where
  "status_in_range n = (if 100 \<le> n \<and> n \<le> 599 then Some n else None)"

definition http_status_code :: "observation \<Rightarrow> int option res" where
  "http_status_code o' =
     (case dict_get (ev_metadata o') ''status_code'' of
        Some (J_number x) \<Rightarrow> Inr (if of_int \<lfloor>x\<rfloor> = x then status_in_range \<lfloor>x\<rfloor> else None)
      | Some (J_string s) \<Rightarrow>
          if s \<noteq> [] \<and> list_all isdigit s then bind_res (int_of_digits s) (\<lambda>n. Inr (status_in_range n)) else Inr None
      | _ \<Rightarrow> Inr None)"

definition response_details :: "string list" where
  "response_details = [''title'', ''content_type'', ''content_length'', ''location'', ''webserver'', ''response_time'']"

definition response_method :: "observation \<Rightarrow> string" where
  "response_method o' =
     (case metadata_text (event.truncate o') ''method'' of
        None \<Rightarrow> ''UNKNOWN''
      | Some m \<Rightarrow> if upper (strip m) = [] then ''UNKNOWN'' else upper (strip m))"

fun present_details :: "(string, json) dict \<Rightarrow> string list \<Rightarrow> (string \<times> json) list" where
  "present_details d [] = []"
| "present_details d (k # ks) =
     (case dict_get d k of
        None \<Rightarrow> present_details d ks
      | Some v \<Rightarrow> if v = J_null then present_details d ks else (k, v) # present_details d ks)"

definition http_response_fact :: "(time \<Rightarrow> string) \<Rightarrow> observation \<Rightarrow> (string, json) dict option res" where
  "http_response_fact isofmt o' =
     bind_res (http_status_code o') (\<lambda>status.
       Inr (case (status, response_endpoint o') of
              (Some n, Some url) \<Rightarrow>
                Some ([(''event_id'', J_string (event_id o')), (''url'', J_string url),
                       (''method'', J_string (response_method o')), (''status_code'', J_number (of_int n)),
                       (''status_class'', J_string (numeral 10 (nat (n div 100)) @ ''xx'')),
                       (''observed_at'', J_string (isofmt (last_seen o'))), (''source'', J_string (ev_source o'))]
                      @ present_details (ev_metadata o') response_details)
            | _ \<Rightarrow> None))"

fun http_facts :: "(time \<Rightarrow> string) \<Rightarrow> observation list \<Rightarrow> (string, json) dict list res" where
  "http_facts isofmt [] = Inr []"
| "http_facts isofmt (o' # os) =
     bind_res (http_response_fact isofmt o') (\<lambda>f. bind_res (http_facts isofmt os) (\<lambda>fs.
       Inr (case f of None \<Rightarrow> fs | Some x \<Rightarrow> x # fs)))"

definition http_history_limit :: nat where
  "http_history_limit = 25"

definition field_of :: "(string, json) dict \<Rightarrow> string \<Rightarrow> json" where
  "field_of d k = dict_default d k J_null"

definition http_response_metadata :: "(time \<Rightarrow> string) \<Rightarrow> observation list \<Rightarrow> (string, json) dict res" where
  "http_response_metadata isofmt os =
     bind_res (http_facts isofmt (sort_key (\<lambda>o'. (last_seen o', event_id o')) os)) (\<lambda>history.
       Inr (if history = [] then []
            else let visible = drop (length history - http_history_limit) history; latest = last history
                 in [(''method'', field_of latest ''method''), (''status_code'', field_of latest ''status_code''),
                     (''status_observed_at'', field_of latest ''observed_at''),
                     (''http'', J_object [(''latest'', J_object latest), (''history'', J_list (map J_object visible)),
                        (''history_total'', J_number (of_nat (length history))),
                        (''history_truncated'', J_bool (length visible < length history))])]
                    @ (case dict_get latest ''location'' of None \<Rightarrow> [] | Some v \<Rightarrow> [(''location'', v)])))"

subsection \<open>Coverage\<close>

definition coverage_state :: "(string, int) dict \<Rightarrow> bool \<Rightarrow> string" where
  "coverage_state statuses disabled =
     (let some = (\<lambda>st. dict_default statuses (status_value st) 0 \<noteq> 0)
      in if disabled then ''DISABLED''
         else if statuses = [] then ''NOT_SCHEDULED''
         else if some RUNNING then ''RUNNING''
         else if some REVIEW then ''REVIEW''
         else if some PENDING \<or> some DEFERRED then ''PENDING''
         else if some FAILED then ''FAILED''
         else ''DONE'')"

definition coverage_summary :: "(string, int) dict \<Rightarrow> bool \<Rightarrow> json" where
  "coverage_summary statuses disabled =
     J_object [(''state'', J_string (coverage_state statuses disabled)),
       (''task_counts'', J_object (map (\<lambda>(k, n). (k, J_number (of_int n))) (sort_key fst statuses)))]"

fun expected_workers :: "node_kind \<Rightarrow> string list" where
  "expected_workers NK_DOMAIN = [''dns'', ''http'', ''tls'', ''passive_domains'']"
| "expected_workers NK_IP_ADDRESS = [''http'', ''tls'', ''asn'']"
| "expected_workers NK_HTTP_SERVICE = [''http'', ''tls'', ''crawler'', ''nuclei'']"
| "expected_workers NK_ENDPOINT = [''crawler'', ''parameters'', ''nuclei'']"
| "expected_workers NK_JAVASCRIPT = [''content'', ''javascript'', ''fingerprints'']"
| "expected_workers NK_MOBILE_ARTIFACT = [''mobile'']"
| "expected_workers _ = []"

subsection \<open>Finished nodes\<close>

definition round6 :: "rat \<Rightarrow> rat" where
  "round6 x = of_int (round_half_even (x * 1000000)) / 1000000"

definition evidence_of :: "observation \<Rightarrow> evidence_ref" where
  "evidence_of o' = \<lparr>ef_event_id = event_id o', ef_source = ev_source o', ef_event_type = ev_type o',
     ef_first_seen = first_seen o'\<rparr>"

fun dict_update :: "(string \<times> json) list \<Rightarrow> (string, json) dict \<Rightarrow> (string, json) dict" where
  "dict_update [] d = d"
| "dict_update ((k, v) # rest) d = dict_update rest (dict_set k v d)"

text \<open>Which nodes the filter hides.\<close>

definition filtered_out :: "graph_filter \<Rightarrow> node_acc \<Rightarrow> bool" where
  "filtered_out f n \<longleftrightarrow> na_confidence n < gf_min_confidence f
     \<or> gf_confirmed_only f \<and> discovery_of n \<noteq> DS_CONFIRMED
     \<or> \<not> gf_hypotheses f \<and> discovery_of n = DS_HYPOTHESIS
     \<or> \<not> gf_historical f \<and> discovery_of n = DS_HISTORICAL
     \<or> \<not> gf_out_of_scope f \<and> merged_scope (na_scope_states n) = SC_OUT_OF_SCOPE"

definition node_metadata :: "(time \<Rightarrow> string) \<Rightarrow> string set \<Rightarrow> node_acc \<Rightarrow> (string, json) dict res" where
  "node_metadata isofmt disabled n =
     bind_res (if na_http n = [] then Inr [] else http_response_metadata isofmt (na_http n)) (\<lambda>http.
       let workers = set (map fst (na_coverage n)) \<union> set (expected_workers (si_kind (na_identity n)));
           d = dict_update http (na_metadata n)
       in Inr (if workers = {} then d
               else dict_set ''coverage'' (J_object (map (\<lambda>w. (w,
                      coverage_summary (dict_default (na_coverage n) w []) (w \<in> disabled))) (sorted_list_of_set workers))) d))"

text \<open>SurfaceNode(...) and SurfaceEdge(...) refuse a confidence outside [0, 1].\<close>

definition make_surface_node :: "surface_node \<Rightarrow> surface_node res" where
  "make_surface_node n =
     bind_res (unit_interval ''confidence'' (sn_confidence n)) (\<lambda>_.
     bind_res (unit_interval ''novelty'' (sn_novelty n)) (\<lambda>_.
     if sn_observation_count n < 1 then Inl (ValidationError ''observation_count'') else Inr n))"

definition finish_node ::
  "(string \<Rightarrow> string) \<Rightarrow> (time \<Rightarrow> string) \<Rightarrow> graph_filter \<Rightarrow> string set \<Rightarrow> node_acc \<Rightarrow> surface_node option res" where
  "finish_node digest isofmt f disabled n =
     (if filtered_out f n then Inr None
      else case (na_first_seen n, na_last_seen n) of
        (Some first, Some last') \<Rightarrow>
          bind_res (node_metadata isofmt disabled n) (\<lambda>metadata.
            bind_res (make_surface_node \<lparr>sn_id = node_id_of digest (na_identity n), sn_kind = si_kind (na_identity n),
              sn_value = si_value (na_identity n), sn_label = most_common (na_values n),
              sn_roles = roles_of (na_event_types n) (na_tags n), sn_scope = merged_scope (na_scope_states n),
              sn_discovery = discovery_of n, sn_liveness = liveness_of n, sn_confidence = round6 (na_confidence n),
              sn_novelty = round6 (na_novelty n), sn_first_seen = first, sn_last_seen = last',
              sn_observation_count = int (length (na_observations n)),
              sn_asset_ids = sorted_list_of_set (na_asset_ids n), sn_sources = sorted_list_of_set (na_sources n),
              sn_tags = sorted_list_of_set (na_tags n),
              sn_evidence = (if gf_provenance f then map evidence_of (na_observations n) else []),
              sn_metadata = metadata\<rparr>) (\<lambda>x. Inr (Some x)))
      | _ \<Rightarrow> Inl AssertionError)"

subsection \<open>Accumulated edges\<close>

record edge_acc =
  ea_source :: string
  ea_target :: string
  ea_relation :: string
  ea_confidence :: rat
  ea_first_seen :: time
  ea_last_seen :: time
  ea_supporting :: "string set"
  ea_derived :: bool
  ea_metadata :: "(string, json) dict"

type_synonym edge_accs = "(string \<times> string \<times> string, edge_acc) dict"

definition edge_key :: "edge_acc \<Rightarrow> string \<times> string \<times> string" where
  "edge_key e = (ea_source e, ea_target e, ea_relation e)"

definition combine_edges :: "edge_acc \<Rightarrow> edge_acc \<Rightarrow> edge_acc" where
  "combine_edges old e = old\<lparr>ea_confidence := max (ea_confidence old) (ea_confidence e),
     ea_first_seen := min (ea_first_seen old) (ea_first_seen e), ea_last_seen := max (ea_last_seen old) (ea_last_seen e),
     ea_supporting := ea_supporting old \<union> ea_supporting e, ea_derived := ea_derived old \<and> ea_derived e,
     ea_metadata := dict_update (ea_metadata e) (ea_metadata old)\<rparr>"

text \<open>\<open>_merge_edge\<close>: no edge from a node to itself; the parts of one key are combined.\<close>

definition merge_edge :: "edge_acc \<Rightarrow> edge_accs \<Rightarrow> edge_accs" where
  "merge_edge e d =
     (if ea_source e = ea_target e then d
      else case dict_get d (edge_key e) of
        None \<Rightarrow> dict_set (edge_key e) e d
      | Some old \<Rightarrow> dict_set (edge_key e) (combine_edges old e) d)"

definition finish_edge :: "(string \<Rightarrow> string) \<Rightarrow> edge_acc \<Rightarrow> surface_edge res" where
  "finish_edge digest e =
     bind_res (unit_interval ''confidence'' (round6 (ea_confidence e))) (\<lambda>_. Inr \<lparr>ge_id = ''sge_'' @ take 24 (digest (join ''|'' [ea_source e, ea_relation e, ea_target e])),
     ge_source = ea_source e, ge_target = ea_target e, ge_relation = ea_relation e,
     ge_confidence = round6 (ea_confidence e), ge_first_seen = ea_first_seen e, ge_last_seen = ea_last_seen e,
     ge_supporting = sorted_list_of_set (ea_supporting e), ge_derived = ea_derived e, ge_metadata = ea_metadata e\<rparr>)"

end
