(* ===== verification/Surface_Builder.thy ===== *)
theory Surface_Builder
  imports Surface_Graph
begin

section \<open>Assembly of the surface graph (recon/surface/builder.py)\<close>

text \<open>
  \<open>SurfaceGraphBuilder.build\<close> over the rows of one read transaction. Third-party and platform code is a parameter:
  \<open>public_suffix\<close> (publicsuffix2), \<open>digest\<close> (SHA-256), \<open>isofmt\<close> (datetime.isoformat); the fingerprint of the finished
  graph, a digest of its JSON, is the parameter \<open>fingerprint\<close>.
\<close>

subsection \<open>Observations\<close>

record assembly =
  as_nodes :: "(string, node_acc) dict"
  as_asset_to_node :: "(string, string) dict"
  as_event_to_node :: "(string, string) dict"
  as_excluded :: int
  as_http :: "observation list"

definition empty_assembly :: assembly where
  "empty_assembly = \<lparr>as_nodes = [], as_asset_to_node = [], as_event_to_node = [], as_excluded = 0, as_http = []\<rparr>"

definition exclude :: "assembly \<Rightarrow> assembly" where
  "exclude a = a\<lparr>as_excluded := as_excluded a + 1\<rparr>"

definition place :: "string \<Rightarrow> observation \<Rightarrow> assembly \<Rightarrow> assembly" where
  "place nid o' a = a\<lparr>as_asset_to_node := dict_set (ob_asset_id o') nid (as_asset_to_node a),
     as_event_to_node := dict_set (event_id o') nid (as_event_to_node a)\<rparr>"

definition observe ::
  "(string \<Rightarrow> string) \<Rightarrow> bool \<Rightarrow> string set \<Rightarrow> observation \<Rightarrow> assembly \<Rightarrow> assembly res" where
  "observe digest intelligence assets o' a =
     bind_res (surface_identity intelligence (ev_type o') (ev_value o')) (\<lambda>identity.
       Inr (case identity of
              None \<Rightarrow>
                if ev_type o' = EV_HTTP_RESPONSE \<and> ob_asset_id o' \<in> assets
                then a\<lparr>as_http := as_http a @ [o']\<rparr> else exclude a
            | Some i \<Rightarrow>
                if ob_asset_id o' \<notin> assets then exclude a
                else let nid = node_id_of digest i;
                         n = dict_default (as_nodes a) nid (new_node i)
                     in place nid o' (a\<lparr>as_nodes := dict_set nid (add_observation (ob_asset_id o') o' n) (as_nodes a)\<rparr>)))"

fun observe_all ::
  "(string \<Rightarrow> string) \<Rightarrow> bool \<Rightarrow> string set \<Rightarrow> observation list \<Rightarrow> assembly \<Rightarrow> assembly res" where
  "observe_all digest intelligence assets [] a = Inr a"
| "observe_all digest intelligence assets (o' # os) a =
     bind_res (observe digest intelligence assets o' a) (observe_all digest intelligence assets os)"

text \<open>The nodes of one kind by canonical value; a later one replaces an earlier one of the same value.\<close>

definition by_value :: "node_kind \<Rightarrow> (string, node_acc) dict \<Rightarrow> (string, string) dict" where
  "by_value k nodes = foldl (\<lambda>d (nid, n). if si_kind (na_identity n) = k then dict_set (si_value (na_identity n)) nid d else d)
     [] nodes"

fun attach_responses :: "(string, string) dict \<Rightarrow> observation list \<Rightarrow> assembly \<Rightarrow> assembly res" where
  "attach_responses endpoints [] a = Inr a"
| "attach_responses endpoints (o' # os) a =
     (case Option.bind (response_endpoint o') (dict_get endpoints) of
        None \<Rightarrow> attach_responses endpoints os (exclude a)
      | Some nid \<Rightarrow>
          bind_res (http_status_code o') (\<lambda>status.
            attach_responses endpoints os
              (case (status, dict_get (as_nodes a) nid) of
                 (Some _, Some n) \<Rightarrow>
                   place nid o' (a\<lparr>as_nodes := dict_set nid (attach_http_response (ob_asset_id o') o' n) (as_nodes a)\<rparr>)
               | _ \<Rightarrow> exclude a)))"

definition cover :: "(string, string) dict \<Rightarrow> task \<Rightarrow> (string, node_acc) dict \<Rightarrow> (string, node_acc) dict" where
  "cover event_to_node t nodes =
     (case Option.bind (dict_get event_to_node (t_input_event_id t)) (\<lambda>nid. map_option (Pair nid) (dict_get nodes nid)) of
        None \<Rightarrow> nodes
      | Some (nid, n) \<Rightarrow> dict_set nid (n\<lparr>na_coverage :=
          dict_set (t_worker t) (count (status_value (t_status t)) (dict_default (na_coverage n) (t_worker t) [])) (na_coverage n)\<rparr>) nodes)"

subsection \<open>Stored relationships\<close>

definition given :: "string option \<Rightarrow> string set" where
  "given x = (case x of None \<Rightarrow> {} | Some s \<Rightarrow> if s = [] then {} else {s})"

definition evidence_events :: "evidence_row list \<Rightarrow> string \<Rightarrow> string set" where
  "evidence_events es rid =
     \<Union> ((\<lambda>p. if rid \<in> given (er_relationship_id p) then given (er_event_id p) else {}) ` set es)"

definition json_strings :: "json \<Rightarrow> string set" where
  "json_strings j = (case j of J_list js \<Rightarrow> \<Union> ((\<lambda>x. case x of J_string s \<Rightarrow> {s} | _ \<Rightarrow> {}) ` set js) | _ \<Rightarrow> {})"

definition supporting_events :: "evidence_row list \<Rightarrow> relationship_row \<Rightarrow> string set" where
  "supporting_events es r = evidence_events es (rl_id r)
     \<union> given (rl_first_source_event_id r)
     \<union> json_strings (dict_default (rl_metadata r) ''supporting_event_ids'' (J_list []))"

definition stored_edge :: "(string, string) dict \<Rightarrow> evidence_row list \<Rightarrow> relationship_row \<Rightarrow> edge_acc option" where
  "stored_edge asset_to_node es r =
     (case (dict_get asset_to_node (rl_source_asset_id r), dict_get asset_to_node (rl_target_asset_id r)) of
        (Some s, Some t) \<Rightarrow>
          if s = t then None
          else Some \<lparr>ea_source = s, ea_target = t, ea_relation = rl_type r, ea_confidence = rl_confidence r,
            ea_first_seen = rl_first_seen r, ea_last_seen = rl_last_seen r, ea_supporting = supporting_events es r,
            ea_derived = False, ea_metadata = [(''relationship_id'', J_string (rl_id r))]\<rparr>
      | _ \<Rightarrow> None)"

definition merge_all :: "edge_acc list \<Rightarrow> edge_accs \<Rightarrow> edge_accs" where
  "merge_all es d = foldl (\<lambda>d e. merge_edge e d) d es"

definition optional :: "'a option \<Rightarrow> 'a list" where
  "optional x = (case x of None \<Rightarrow> [] | Some y \<Rightarrow> [y])"

subsection \<open>Derived edges\<close>

definition derived_edge :: "time \<Rightarrow> time \<Rightarrow> rat \<Rightarrow> (string, json) dict \<Rightarrow> string \<Rightarrow> string \<Rightarrow> string \<Rightarrow> edge_acc" where
  "derived_edge earliest latest confidence metadata relation s t =
     \<lparr>ea_source = s, ea_target = t, ea_relation = relation, ea_confidence = confidence, ea_first_seen = earliest,
      ea_last_seen = latest, ea_supporting = {}, ea_derived = True, ea_metadata = metadata\<rparr>"

definition dots :: "string \<Rightarrow> nat" where
  "dots s = length (filter (\<lambda>c. c = CHR ''.'') s)"

definition subdomain_parents :: "(string \<Rightarrow> bool) \<Rightarrow> (string, string) dict \<Rightarrow> string \<Rightarrow> string list" where
  "subdomain_parents public_suffix domains domain =
     filter (\<lambda>c. ends_with domain (''.'' @ c) \<and> \<not> public_suffix c) (map fst domains)"

definition subdomain_edges ::
  "(string \<Rightarrow> bool) \<Rightarrow> time \<Rightarrow> time \<Rightarrow> (string, string) dict \<Rightarrow> edge_acc list" where
  "subdomain_edges public_suffix earliest latest domains =
     [derived_edge earliest latest 1 [(''presentation'', J_string ''dns-suffix'')] ''HAS_SUBDOMAIN''
        (the (dict_get domains (first_max dots (subdomain_parents public_suffix domains domain)))) nid.
      (domain, nid) \<leftarrow> sort_key (\<lambda>d. dots (fst d)) domains,
      subdomain_parents public_suffix domains domain \<noteq> []]"

definition service_edges ::
  "time \<Rightarrow> time \<Rightarrow> (string, string) dict \<Rightarrow> (string, string) dict \<Rightarrow> edge_acc list" where
  "service_edges earliest latest domains services =
     concat (map (\<lambda>(service, nid).
       (case Option.bind (domain_from_url service) (dict_get domains) of
          None \<Rightarrow> []
        | Some d \<Rightarrow> [derived_edge earliest latest 1 [] ''EXPOSES_SERVICE'' d nid])) services)"

definition endpoint_edges ::
  "time \<Rightarrow> time \<Rightarrow> (string, string) dict \<Rightarrow> (string, string) dict \<Rightarrow> (string, string) dict \<Rightarrow> edge_acc list" where
  "endpoint_edges earliest latest domains services endpoints =
     concat (map (\<lambda>(endpoint, nid).
       (case Option.bind (service_from_url endpoint) (dict_get services) of
          Some s \<Rightarrow> [derived_edge earliest latest 1 [] ''HAS_ENDPOINT'' s nid]
        | None \<Rightarrow>
            (case Option.bind (domain_from_url endpoint) (dict_get domains) of
               None \<Rightarrow> []
             | Some d \<Rightarrow> [derived_edge earliest latest (8/10) [] ''HAS_ENDPOINT'' d nid]))) endpoints)"

text \<open>\<open>PurePosixPath(p).parts\<close>: two leading slashes are a root of their own; empty and \<open>.\<close> components vanish.\<close>

definition posix_parts :: "string \<Rightarrow> string list" where
  "posix_parts p =
     (let slashes = length (takeWhile (\<lambda>c. c = CHR ''/'') p);
          names = filter (\<lambda>w. w \<noteq> [] \<and> w \<noteq> ''.'') (split_on CHR ''/'' p)
      in (if slashes = 0 then names else if slashes = 2 then ''//'' # names else ''/'' # names))"

definition is_path_parent :: "string \<Rightarrow> string \<Rightarrow> bool" where
  "is_path_parent parent child \<longleftrightarrow>
     length (posix_parts parent) < length (posix_parts child) \<and> prefix (posix_parts parent) (posix_parts child)"

definition url_path :: "string \<Rightarrow> string" where
  "url_path v = (case urlsplit v of Inl _ \<Rightarrow> [] | Inr u \<Rightarrow> u_path u)"

definition path_parents :: "(string \<times> string) list \<Rightarrow> string \<times> string \<Rightarrow> (string \<times> string) list" where
  "path_parents members e =
     filter (\<lambda>c. snd c \<noteq> snd e \<and> is_path_parent (or_slash (url_path (fst c))) (or_slash (url_path (fst e)))) members"

definition path_edges_of :: "time \<Rightarrow> time \<Rightarrow> (string \<times> string) list \<Rightarrow> edge_acc list" where
  "path_edges_of earliest latest members =
     concat (map (\<lambda>e.
       (let ps = path_parents members e
        in if ps = [] then []
           else let p = first_max (\<lambda>c. length (posix_parts (url_path (fst c)))) ps
                in [derived_edge earliest latest 1 [(''presentation_only'', J_bool True), (''parent_url'', J_string (fst p))]
                      ''HAS_CHILD_PATH'' (snd p) (snd e)])) members)"

text \<open>The endpoints of each service, in the order the services are met.\<close>

fun group_endpoints :: "(string \<times> string) list \<Rightarrow> (string, (string \<times> string) list) dict
    \<Rightarrow> (string, (string \<times> string) list) dict" where
  "group_endpoints [] groups = groups"
| "group_endpoints (e # es) groups =
     (case service_from_url (fst e) of
        None \<Rightarrow> group_endpoints es groups
      | Some s \<Rightarrow> group_endpoints es (dict_set s (dict_default groups s [] @ [e]) groups))"

definition path_edges :: "time \<Rightarrow> time \<Rightarrow> (string, string) dict \<Rightarrow> edge_acc list" where
  "path_edges earliest latest endpoints =
     concat (map (path_edges_of earliest latest) (dict_values (group_endpoints endpoints [])))"

fun relation_for_kind :: "node_kind \<Rightarrow> string" where
  "relation_for_kind NK_DNS_RECORD = ''HAS_DNS_RECORD''"
| "relation_for_kind NK_IP_ADDRESS = ''RESOLVES_TO''"
| "relation_for_kind NK_CIDR = ''BELONGS_TO_CIDR''"
| "relation_for_kind NK_ASN = ''ANNOUNCED_BY_ASN''"
| "relation_for_kind NK_JAVASCRIPT = ''REFERENCES''"
| "relation_for_kind NK_CERTIFICATE = ''PRESENTS_CERTIFICATE''"
| "relation_for_kind NK_TECHNOLOGY = ''USES_TECHNOLOGY''"
| "relation_for_kind NK_FINGERPRINT = ''HAS_FINGERPRINT''"
| "relation_for_kind NK_FAVICON = ''HAS_FINGERPRINT''"
| "relation_for_kind NK_PARAMETER = ''HAS_PARAMETER''"
| "relation_for_kind NK_INTELLIGENCE = ''HAS_INTELLIGENCE''"
| "relation_for_kind NK_ARTIFACT = ''HAS_ARTIFACT''"
| "relation_for_kind NK_MOBILE_ARTIFACT = ''HAS_ARTIFACT''"
| "relation_for_kind NK_VULNERABILITY_CANDIDATE = ''POTENTIALLY_AFFECTED_BY''"
| "relation_for_kind NK_VULNERABILITY_FINDING = ''CONFIRMED_AFFECTED_BY''"
| "relation_for_kind _ = ''RELATED_TO''"

fun truthy :: "json \<Rightarrow> bool" where
  "truthy J_null = False"
| "truthy (J_bool b) = b"
| "truthy (J_number x) = (x \<noteq> 0)"
| "truthy (J_string s) = (s \<noteq> [])"
| "truthy (J_list js) = (js \<noteq> [])"
| "truthy (J_object ms) = (ms \<noteq> [])"

text \<open>One metadata candidate of \<open>_anchor_node\<close>: an endpoint, a service or a domain that exists.\<close>

definition anchor_at ::
  "(string, string) dict \<Rightarrow> (string, string) dict \<Rightarrow> (string, string) dict \<Rightarrow> string \<Rightarrow> string option" where
  "anchor_at domains services endpoints raw =
     (case (case surface_identity False EV_URL raw of Inr (Some i) \<Rightarrow> dict_get endpoints (si_value i) | _ \<Rightarrow> None) of
        Some nid \<Rightarrow> Some nid
      | None \<Rightarrow>
          (case Option.bind (service_from_url raw) (dict_get services) of
             Some nid \<Rightarrow> Some nid
           | None \<Rightarrow> Option.bind (domain_from_url raw) (dict_get domains)))"

fun first_anchor :: "(string \<Rightarrow> string option) \<Rightarrow> (string, json) dict \<Rightarrow> string list \<Rightarrow> string option" where
  "first_anchor look d [] = None"
| "first_anchor look d (k # ks) =
     (case dict_get d k of
        Some (J_string raw) \<Rightarrow> (case look raw of Some nid \<Rightarrow> Some nid | None \<Rightarrow> first_anchor look d ks)
      | _ \<Rightarrow> first_anchor look d ks)"

definition anchor_host :: "(string, json) dict \<Rightarrow> json" where
  "anchor_host d =
     (let h = dict_default d ''hostname'' J_null in if truthy h then h else dict_default d ''owner'' J_null)"

definition anchor_node ::
  "(string, string) dict \<Rightarrow> (string, string) dict \<Rightarrow> (string, string) dict \<Rightarrow> node_acc \<Rightarrow> string option" where
  "anchor_node domains services endpoints n =
     (case first_anchor (anchor_at domains services endpoints) (na_metadata n) [''observed_on'', ''target_url'', ''url''] of
        Some nid \<Rightarrow> Some nid
      | None \<Rightarrow>
          (case anchor_host (na_metadata n) of
             J_string h \<Rightarrow>
               (let normalized = rstrip_dots (lower h)
                in case filter (\<lambda>(service, nid). domain_from_url service = Some normalized) services of
                     [(service, nid)] \<Rightarrow> Some nid
                   | _ \<Rightarrow> dict_get domains normalized)
           | _ \<Rightarrow> None))"

fun observed_parent :: "(string, string) dict \<Rightarrow> string \<Rightarrow> observation list \<Rightarrow> string option" where
  "observed_parent event_to_node nid [] = None"
| "observed_parent event_to_node nid (o' # os) =
     (case dict_get event_to_node (case parent_event_id o' of None \<Rightarrow> [] | Some p \<Rightarrow> p) of
        None \<Rightarrow> observed_parent event_to_node nid os
      | Some p \<Rightarrow> if p \<noteq> nid then Some p else observed_parent event_to_node nid os)"

definition anchor_edge ::
  "time \<Rightarrow> time \<Rightarrow> (string, string) dict \<Rightarrow> (string, string) dict \<Rightarrow> (string, string) dict \<Rightarrow> (string, string) dict
    \<Rightarrow> string \<times> node_acc \<Rightarrow> edge_acc option" where
  "anchor_edge earliest latest event_to_node domains services endpoints = (\<lambda>(nid, n).
     if si_kind (na_identity n) \<in> {NK_DOMAIN, NK_HTTP_SERVICE, NK_ENDPOINT} then None
     else case (case anchor_node domains services endpoints n of
                  Some a \<Rightarrow> Some a | None \<Rightarrow> observed_parent event_to_node nid (na_observations n)) of
       None \<Rightarrow> None
     | Some a \<Rightarrow> Some \<lparr>ea_source = a, ea_target = nid, ea_relation = relation_for_kind (si_kind (na_identity n)),
         ea_confidence = na_confidence n,
         ea_first_seen = (case na_first_seen n of None \<Rightarrow> earliest | Some t \<Rightarrow> t),
         ea_last_seen = (case na_last_seen n of None \<Rightarrow> latest | Some t \<Rightarrow> t),
         ea_supporting = event_id ` set (na_observations n), ea_derived = True,
         ea_metadata = [(''presentation'', J_string ''metadata-anchor'')]\<rparr>)"

text \<open>\<open>min\<close> and \<open>max\<close> of the times that are known; \<open>min([])\<close> raises.\<close>

definition known_times :: "(node_acc \<Rightarrow> time option) \<Rightarrow> (string, node_acc) dict \<Rightarrow> time list" where
  "known_times f nodes = map the (filter (\<lambda>t. t \<noteq> None) (map (f \<circ> snd) nodes))"

definition derive_edges ::
  "(string \<Rightarrow> bool) \<Rightarrow> (string, node_acc) dict \<Rightarrow> (string, string) dict \<Rightarrow> edge_acc list res" where
  "derive_edges public_suffix nodes event_to_node =
     (if nodes = [] then Inr []
      else if known_times na_first_seen nodes = [] \<or> known_times na_last_seen nodes = []
      then Inl (ValueError ''iterable argument is empty'')
      else let earliest = Min (set (known_times na_first_seen nodes)); latest = Max (set (known_times na_last_seen nodes));
               domains = filter (\<lambda>(v, nid). \<not> prefix ''*.'' v) (by_value NK_DOMAIN nodes);
               services = by_value NK_HTTP_SERVICE nodes; endpoints = by_value NK_ENDPOINT nodes
           in Inr (subdomain_edges public_suffix earliest latest domains
                   @ service_edges earliest latest domains services
                   @ endpoint_edges earliest latest domains services endpoints
                   @ path_edges earliest latest endpoints
                   @ concat (map (\<lambda>x. optional (anchor_edge earliest latest event_to_node domains services endpoints x)) nodes)))"

end
