(* ===== verification/Surface_Snapshot.thy ===== *)
theory Surface_Snapshot
  imports Surface_Builder
begin

section \<open>The snapshot of the surface graph (recon/surface/builder.py, models.py)\<close>

text \<open>
  The last part of \<open>SurfaceGraphBuilder.build\<close>: filters, limits, roots, the subgraph within a depth of the roots, and
  the snapshot.
\<close>

subsection \<open>The subgraph within a depth\<close>

definition outgoing :: "surface_edge list \<Rightarrow> string \<Rightarrow> string list" where
  "outgoing es s = map ge_target (filter (\<lambda>e. ge_source e = s) es)"

type_synonym depths = "(string, nat) dict"

text \<open>The inner loop of the search: targets that have no depth yet get one and join the queue.\<close>

fun enqueue_targets :: "nat \<Rightarrow> string list \<Rightarrow> string list \<Rightarrow> depths \<Rightarrow> string list \<times> depths" where
  "enqueue_targets d [] queue depths = (queue, depths)"
| "enqueue_targets d (t # ts) queue depths =
     (if dict_get depths t = None then enqueue_targets d ts (queue @ [t]) (dict_set t d depths)
      else enqueue_targets d ts queue depths)"

definition unseen :: "surface_edge list \<Rightarrow> depths \<Rightarrow> string set" where
  "unseen es depths = {t \<in> ge_target ` set es. dict_get depths t = None}"

lemma finite_unseen [simp]: "finite (unseen es depths)"
  by (simp add: unseen_def)

lemma enqueue_targets_progress:
  "set ts \<subseteq> ge_target ` set es \<Longrightarrow>
   enqueue_targets d ts queue depths = (queue, depths)
   \<or> card (unseen es (snd (enqueue_targets d ts queue depths))) < card (unseen es depths)"
proof (induction ts arbitrary: queue depths)
  case (Cons t ts)
  show ?case
  proof (cases "dict_get depths t")
    case None
    have "unseen es (dict_set t d depths) \<subset> unseen es depths" using Cons.prems None by (auto simp: unseen_def)
    then have "card (unseen es (dict_set t d depths)) < card (unseen es depths)" by (rule psubset_card_mono[OF finite_unseen])
    moreover have "card (unseen es (snd (enqueue_targets d ts (queue @ [t]) (dict_set t d depths)))) \<le> card (unseen es (dict_set t d depths))"
      using Cons.IH[of "queue @ [t]" "dict_set t d depths"] Cons.prems by auto
    ultimately show ?thesis using None by simp
  next
    case (Some x)
    with Cons show ?thesis by simp
  qed
qed simp

function search_depths :: "surface_edge list \<Rightarrow> nat \<Rightarrow> string list \<Rightarrow> depths \<Rightarrow> depths" where
  "search_depths es limit [] depths = depths"
| "search_depths es limit (s # queue) depths =
     (if limit \<le> dict_default depths s 0 then search_depths es limit queue depths
      else case enqueue_targets (dict_default depths s 0 + 1) (outgoing es s) queue depths of
        (queue', depths') \<Rightarrow> search_depths es limit queue' depths')"
  by pat_completeness auto
termination
proof (relation "measures [\<lambda>(es, limit, queue, depths). card (unseen es depths), \<lambda>(es, limit, queue, depths). length queue]")
  fix es limit s queue and depths :: depths and queue' depths'
  assume p: "(queue', depths') = enqueue_targets (dict_default depths s 0 + 1) (outgoing es s) queue depths"
  have "set (outgoing es s) \<subseteq> ge_target ` set es" by (auto simp: outgoing_def)
  from enqueue_targets_progress[OF this, of "dict_default depths s 0 + 1" queue depths]
  have "(queue', depths') = (queue, depths) \<or> card (unseen es depths') < card (unseen es depths)"
    unfolding p[symmetric] by simp
  then show "((es, limit, queue', depths'), es, limit, s # queue, depths)
      \<in> measures [\<lambda>(es, limit, queue, depths). card (unseen es depths), \<lambda>(es, limit, queue, depths). length queue]"
    by (elim disjE) simp_all
qed simp_all

definition within_depth_of :: "surface_edge list \<Rightarrow> string list \<Rightarrow> nat \<Rightarrow> string set" where
  "within_depth_of es roots limit = set (map fst (search_depths es limit roots (foldl (\<lambda>d r. dict_set r 0 d) [] roots)))"

definition bounded_subgraph ::
  "surface_node list \<Rightarrow> surface_edge list \<Rightarrow> string list \<Rightarrow> nat option \<Rightarrow> surface_node list \<times> surface_edge list" where
  "bounded_subgraph nodes es roots max_depth =
     (case max_depth of
        None \<Rightarrow> (nodes, es)
      | Some limit \<Rightarrow>
          if roots = [] then (nodes, es)
          else let visible = within_depth_of es roots limit
               in (filter (\<lambda>n. sn_id n \<in> visible) nodes,
                   filter (\<lambda>e. ge_source e \<in> visible \<and> ge_target e \<in> visible) es))"

subsection \<open>The snapshot\<close>

record graph_statistics =
  gs_node_count :: int
  gs_edge_count :: int
  gs_considered :: int
  gs_excluded :: int
  gs_by_kind :: "(string, int) dict"
  gs_by_state :: "(string, int) dict"

record graph_snapshot =
  gn_target_id :: string
  gn_generated_at :: time
  gn_fingerprint :: string
  gn_roots :: "string list"
  gn_nodes :: "surface_node list"
  gn_edges :: "surface_edge list"
  gn_statistics :: graph_statistics
  gn_warnings :: "string list"

fun finish_all :: "('a \<Rightarrow> 'b res) \<Rightarrow> 'a list \<Rightarrow> 'b list res" where
  "finish_all f [] = Inr []"
| "finish_all f (x # xs) = bind_res (f x) (\<lambda>y. bind_res (finish_all f xs) (\<lambda>ys. Inr (y # ys)))"

definition joins :: "string set \<Rightarrow> surface_edge \<Rightarrow> bool" where
  "joins ids e \<longleftrightarrow> ge_source e \<in> ids \<and> ge_target e \<in> ids"

definition node_ids :: "surface_node list \<Rightarrow> string set" where
  "node_ids ns = sn_id ` set ns"

definition limit_nodes :: "nat \<Rightarrow> surface_node list \<Rightarrow> surface_edge list \<Rightarrow> surface_node list \<times> surface_edge list \<times> string list" where
  "limit_nodes n nodes es =
     (if n < length nodes
      then (take n nodes, filter (joins (node_ids (take n nodes))) es,
            [''node limit applied: '' @ numeral 10 n @ '' of '' @ numeral 10 (length nodes)])
      else (nodes, es, []))"

definition limit_edges :: "nat \<Rightarrow> surface_edge list \<Rightarrow> surface_edge list \<times> string list" where
  "limit_edges n es =
     (if n < length es
      then (take n es, [''edge limit applied: '' @ numeral 10 n @ '' of '' @ numeral 10 (length es)])
      else (es, []))"

definition roots_of :: "string option \<Rightarrow> surface_node list \<Rightarrow> string list" where
  "roots_of wanted nodes = map sn_id (filter (\<lambda>n. ''ROOT'' \<in> set (sn_roles n)
     \<and> (case wanted of None \<Rightarrow> True | Some r \<Rightarrow> sn_value n = rstrip_dots (lower r))) nodes)"

definition tally :: "('a \<Rightarrow> string) \<Rightarrow> 'a list \<Rightarrow> (string, int) dict" where
  "tally f xs = sort_key fst (foldl (\<lambda>d x. count (f x) d) [] xs)"

text \<open>The nodes and edges after the accumulation.\<close>

record graph_parameters =
  gp_digest :: "string \<Rightarrow> string"
  gp_isofmt :: "time \<Rightarrow> string"
  gp_public_suffix :: "string \<Rightarrow> bool"
  gp_fingerprint :: "surface_node list \<Rightarrow> surface_edge list \<Rightarrow> string list \<Rightarrow> string"

definition finish_graph ::
  "graph_parameters \<Rightarrow> graph_filter \<Rightarrow> string set \<Rightarrow> (string, node_acc) dict \<Rightarrow> edge_accs
    \<Rightarrow> (surface_node list \<times> surface_edge list) res" where
  "finish_graph gp f disabled nodes edges =
     bind_res (finish_all (finish_node (gp_digest gp) (gp_isofmt gp) f disabled) (dict_values nodes)) (\<lambda>found.
       let ns = concat (map optional found)
       in bind_res (finish_all (finish_edge (gp_digest gp))
                     (filter (\<lambda>e. ea_source e \<in> node_ids ns \<and> ea_target e \<in> node_ids ns) (dict_values edges))) (\<lambda>es.
          Inr (sort_key (\<lambda>n. (node_kind_value (sn_kind n), sn_value n, sn_id n)) ns,
               sort_key (\<lambda>e. (ge_source e, ge_relation e, ge_target e)) es)))"

definition build_snapshot ::
  "graph_parameters \<Rightarrow> graph_filter \<Rightarrow> string \<Rightarrow> time \<Rightarrow> int \<Rightarrow> int \<Rightarrow> surface_node list \<Rightarrow> surface_edge list
    \<Rightarrow> graph_snapshot" where
  "build_snapshot gp f target_id now considered excluded all_nodes all_edges =
     (case limit_nodes (gf_max_nodes f) all_nodes all_edges of (nodes, es, w1) \<Rightarrow>
      case limit_edges (gf_max_edges f) es of (es, w2) \<Rightarrow>
      let roots = roots_of (gf_root f) nodes;
          w3 = (case gf_root f of
                  Some r \<Rightarrow> if roots = [] then [''requested root not found: '' @ r] else []
                | None \<Rightarrow> [])
      in case bounded_subgraph nodes es roots (gf_max_depth f) of (nodes, es) \<Rightarrow>
         \<lparr>gn_target_id = target_id, gn_generated_at = now, gn_fingerprint = gp_fingerprint gp nodes es roots,
          gn_roots = roots, gn_nodes = nodes, gn_edges = es,
          gn_statistics = \<lparr>gs_node_count = int (length nodes), gs_edge_count = int (length es),
            gs_considered = considered, gs_excluded = excluded,
            gs_by_kind = tally (\<lambda>n. node_kind_value (sn_kind n)) nodes,
            gs_by_state = tally (\<lambda>n. discovery_value (sn_discovery n)) nodes\<rparr>,
          gn_warnings = w1 @ w2 @ w3\<rparr>)"

record graph_rows =
  gr_assets :: "string set"
  gr_observations :: "observation list"
  gr_relationships :: "relationship_row list"
  gr_evidence :: "evidence_row list"
  gr_tasks :: "task list"

text \<open>\<open>build\<close>; \<open>order_by(first_seen, event_id)\<close> sorts the observations.\<close>

definition accumulate ::
  "graph_parameters \<Rightarrow> graph_filter \<Rightarrow> graph_rows \<Rightarrow> ((string, node_acc) dict \<times> edge_accs \<times> int) res" where
  "accumulate gp f rows =
     bind_res (observe_all (gp_digest gp) (gf_intelligence f) (gr_assets rows)
                (sort_key (\<lambda>o'. (first_seen o', event_id o')) (gr_observations rows)) empty_assembly) (\<lambda>a.
     bind_res (attach_responses (by_value NK_ENDPOINT (as_nodes a)) (as_http a) a) (\<lambda>a.
       let nodes = foldl (\<lambda>ns t. cover (as_event_to_node a) t ns) (as_nodes a) (gr_tasks rows);
           stored = concat (map (\<lambda>r. optional (stored_edge (as_asset_to_node a) (gr_evidence rows) r)) (gr_relationships rows))
       in bind_res (derive_edges (gp_public_suffix gp) nodes (as_event_to_node a)) (\<lambda>derived.
            Inr (nodes, merge_all (stored @ derived) [], as_excluded a))))"

definition build_graph ::
  "graph_parameters \<Rightarrow> graph_filter \<Rightarrow> string set \<Rightarrow> string \<Rightarrow> time \<Rightarrow> graph_rows \<Rightarrow> graph_snapshot res" where
  "build_graph gp f disabled target_id now rows =
     bind_res (accumulate gp f rows) (\<lambda>(nodes, edges, excluded).
     bind_res (finish_graph gp f disabled nodes edges) (\<lambda>(ns, es).
       Inr (build_snapshot gp f target_id now (int (length (gr_observations rows))) excluded ns es)))"

end
