(* ===== verification/Surface_Tree.thy ===== *)
theory Surface_Tree
  imports Surface_Snapshot
begin

section \<open>The tree projection of a snapshot (recon/surface/tree.py)\<close>

text \<open>
  \<open>build_tree_projection\<close>: every edge is the child edge of its target or a reference, and a depth-first visit that
  remembers the nodes it has expanded writes the forest. A node met again becomes a \<open>$ref\<close>. The visit is a nested
  recursion; it ends because the set of nodes not yet expanded shrinks. The interpreter's recursion limit is not
  modelled.
\<close>

subsection \<open>Ranks\<close>

definition relation_priorities :: "(string, int) dict" where
  "relation_priorities = [(''HAS_SUBDOMAIN'', 10), (''EXPOSES_SERVICE'', 20), (''HAS_CHILD_PATH'', 25),
     (''HAS_ENDPOINT'', 30), (''HAS_DNS_RECORD'', 40), (''RESOLVES_TO'', 41), (''ALIASES_TO'', 42),
     (''PRESENTS_CERTIFICATE'', 50), (''CERTIFICATE_NAMES'', 51), (''USES_TECHNOLOGY'', 60), (''HAS_PARAMETER'', 61),
     (''REFERENCES'', 62), (''HAS_FINGERPRINT'', 63), (''POTENTIALLY_AFFECTED_BY'', 70),
     (''CONFIRMED_AFFECTED_BY'', 71), (''RELATED_TO'', 90)]"

type_synonym node_index = "(string, surface_node) dict"

definition value_in :: "node_index \<Rightarrow> string \<Rightarrow> string" where
  "value_in nodes nid = (case dict_get nodes nid of None \<Rightarrow> [] | Some n \<Rightarrow> sn_value n)"

definition parent_rank :: "node_index \<Rightarrow> surface_edge \<Rightarrow> int \<times> string \<times> string" where
  "parent_rank nodes e =
     (if ge_relation e = ''HAS_CHILD_PATH'' then 15 else dict_default relation_priorities (ge_relation e) 80,
      value_in nodes (ge_source e), ge_source e)"

definition child_rank :: "node_index \<Rightarrow> surface_edge \<Rightarrow> int \<times> string \<times> string" where
  "child_rank nodes e =
     (dict_default relation_priorities (ge_relation e) 80, value_in nodes (ge_target e), ge_target e)"

subsection \<open>Child edges and references\<close>

definition index_nodes :: "surface_node list \<Rightarrow> node_index" where
  "index_nodes ns = foldl (\<lambda>d n. dict_set (sn_id n) n d) [] ns"

definition incoming :: "surface_edge list \<Rightarrow> string \<Rightarrow> surface_edge list" where
  "incoming es t = filter (\<lambda>e. ge_target e = t) es"

text \<open>\<open>min(candidates, key=...)\<close>, the first of the least.\<close>

definition primary_edge :: "node_index \<Rightarrow> surface_edge list \<Rightarrow> string \<Rightarrow> surface_edge option" where
  "primary_edge nodes es t =
     (case sort_key (parent_rank nodes) (incoming es t) of [] \<Rightarrow> None | e # _ \<Rightarrow> Some e)"

definition child_edges :: "node_index \<Rightarrow> surface_edge list \<Rightarrow> string \<Rightarrow> surface_edge list" where
  "child_edges nodes es s = sort_key (child_rank nodes)
     (filter (\<lambda>e. ge_source e = s \<and> primary_edge nodes es (ge_target e) = Some e) es)"

definition related_edges :: "node_index \<Rightarrow> surface_edge list \<Rightarrow> string \<Rightarrow> surface_edge list" where
  "related_edges nodes es s = sort_key (child_rank nodes)
     (filter (\<lambda>e. ge_source e = s \<and> primary_edge nodes es (ge_target e) \<noteq> Some e) es)"

fun extend_roots :: "surface_edge list \<Rightarrow> surface_node list \<Rightarrow> string list \<Rightarrow> string list" where
  "extend_roots es [] roots = roots"
| "extend_roots es (n # ns) roots =
     extend_roots es ns (if incoming es (sn_id n) = [] \<and> sn_id n \<notin> set roots then roots @ [sn_id n] else roots)"

subsection \<open>The visit\<close>

text \<open>One entry of the tree; \<open>ti_relation\<close> is None at the top.\<close>

datatype tree_item =
    Tree_ref (ti_relation: "string option") (ref_id: string) (ref_label: string)
  | Tree_node (ti_relation: "string option") (ti_node: surface_node) (ti_children: "tree_item list")
      (ti_references: "(string \<times> string \<times> string) list")

definition child_list :: "node_index \<Rightarrow> surface_edge list \<Rightarrow> string \<Rightarrow> (string \<times> string option) list" where
  "child_list nodes es nid = map (\<lambda>e. (ge_target e, Some (ge_relation e))) (child_edges nodes es nid)"

definition reference_list :: "node_index \<Rightarrow> surface_edge list \<Rightarrow> string \<Rightarrow> (string \<times> string \<times> string) list" where
  "reference_list nodes es nid =
     concat (map (\<lambda>e. (case dict_get nodes (ge_target e) of
                         None \<Rightarrow> [] | Some n \<Rightarrow> [(ge_target e, sn_label n, ge_relation e)])) (related_edges nodes es nid))"

text \<open>The visits of a list of nodes, in order, from the set of nodes expanded so far.\<close>

function visit_each ::
  "node_index \<Rightarrow> surface_edge list \<Rightarrow> string set \<Rightarrow> (string \<times> string option) list \<Rightarrow> string set
    \<Rightarrow> (tree_item list \<times> string set) res" where
  "visit_each nodes es ancestry [] seen = Inr ([], seen)"
| "visit_each nodes es ancestry ((nid, rel) # rest) seen =
     (case dict_get nodes nid of
        None \<Rightarrow> Inl (KeyError nid)
      | Some n \<Rightarrow>
          if nid \<in> seen \<or> nid \<in> ancestry
          then (case visit_each nodes es ancestry rest seen of
                  Inl e \<Rightarrow> Inl e
                | Inr (ts, seen') \<Rightarrow> Inr (Tree_ref rel nid (sn_label n) # ts, seen'))
          else (case visit_each nodes es (insert nid ancestry) (child_list nodes es nid) (insert nid seen) of
                  Inl e \<Rightarrow> Inl e
                | Inr (cs, seen') \<Rightarrow>
                    (case visit_each nodes es ancestry rest seen' of
                       Inl e \<Rightarrow> Inl e
                     | Inr (ts, seen'') \<Rightarrow> Inr (Tree_node rel n cs (reference_list nodes es nid) # ts, seen''))))"
  by pat_completeness auto

lemma visit_each_grows:
  "visit_each_dom (nodes, es, anc, xs, seen) \<Longrightarrow> visit_each nodes es anc xs seen = Inr (ts, seen') \<Longrightarrow> seen \<subseteq> seen'"
proof (induction nodes es anc xs seen arbitrary: ts seen' rule: visit_each.pinduct)
  case (1 nodes es ancestry seen)
  then show ?case by (simp add: visit_each.psimps)
next
  case (2 nodes es ancestry nid rel rest seen)
  show ?case
  proof (cases "nid \<in> seen \<or> nid \<in> ancestry")
    case True
    with 2 show ?thesis
      by (auto simp: visit_each.psimps(2)[OF 2(1)] split: option.splits sum.splits prod.splits)
  next
    case False
    with 2(5) obtain n cs s1 ts2 where d: "dict_get nodes nid = Some n"
      and c: "visit_each nodes es (insert nid ancestry) (child_list nodes es nid) (insert nid seen) = Inr (cs, s1)"
      and r: "visit_each nodes es ancestry rest s1 = Inr (ts2, seen')"
      by (auto simp: visit_each.psimps(2)[OF 2(1)] split: option.splits sum.splits prod.splits)
    from 2(3)[OF d False c] 2(4)[OF d False c refl r] show ?thesis by blast
  qed
qed

definition unvisited :: "node_index \<Rightarrow> string set \<Rightarrow> string set" where
  "unvisited nodes seen = set (map fst nodes) - seen"

lemma unvisited_insert: "dict_get nodes nid = Some n \<Longrightarrow> nid \<notin> seen \<Longrightarrow>
    card (unvisited nodes (insert nid seen)) < card (unvisited nodes seen)"
proof (rule psubset_card_mono)
  assume "dict_get nodes nid = Some n" "nid \<notin> seen"
  then have "nid \<in> unvisited nodes seen" by (force simp: unvisited_def dest: map_of_SomeD)
  then show "unvisited nodes (insert nid seen) \<subset> unvisited nodes seen" by (auto simp: unvisited_def)
qed (simp add: unvisited_def)

termination visit_each
proof (relation "measures [\<lambda>(nodes, es, anc, xs, seen). card (unvisited nodes seen), \<lambda>(nodes, es, anc, xs, seen). length xs]")
  fix nodes :: node_index and es ancestry nid rel rest seen n x
  assume "dict_get nodes nid = Some n" "\<not> (nid \<in> seen \<or> nid \<in> ancestry)"
  then show "((nodes, es, insert nid ancestry, child_list nodes es nid, insert nid seen), nodes, es, ancestry, (nid, rel) # rest, seen)
      \<in> measures [\<lambda>(nodes, es, anc, xs, seen). card (unvisited nodes seen), \<lambda>(nodes, es, anc, xs, seen). length xs]"
    by (simp add: unvisited_insert)
next
  fix nodes :: node_index and es ancestry nid rel rest seen n p cs seen'
  assume d: "dict_get nodes nid = Some n" "\<not> (nid \<in> seen \<or> nid \<in> ancestry)"
    and v: "visit_each nodes es (insert nid ancestry) (child_list nodes es nid) (insert nid seen) = Inr p"
    and p: "(cs, seen') = p"
    and dom: "visit_each_dom (nodes, es, insert nid ancestry, child_list nodes es nid, insert nid seen)"
  have "insert nid seen \<subseteq> seen'" using visit_each_grows[OF dom v[folded p]] .
  then have "card (unvisited nodes seen') \<le> card (unvisited nodes (insert nid seen))"
    by (intro card_mono) (auto simp: unvisited_def)
  with unvisited_insert[of nodes nid n seen] d
  show "((nodes, es, ancestry, rest, seen'), nodes, es, ancestry, (nid, rel) # rest, seen)
      \<in> measures [\<lambda>(nodes, es, anc, xs, seen). card (unvisited nodes seen), \<lambda>(nodes, es, anc, xs, seen). length xs]"
    by auto
qed simp_all

text \<open>The nodes no visit has reached yet, each as a tree of its own.\<close>

fun visit_rest :: "node_index \<Rightarrow> surface_edge list \<Rightarrow> surface_node list \<Rightarrow> string set \<Rightarrow> tree_item list res" where
  "visit_rest nodes es [] seen = Inr []"
| "visit_rest nodes es (n # ns) seen =
     (if sn_id n \<in> seen then visit_rest nodes es ns seen
      else bind_res (visit_each nodes es {} [(sn_id n, None)] seen) (\<lambda>(ts, seen').
           bind_res (visit_rest nodes es ns seen') (\<lambda>rest. Inr (ts @ rest))))"

definition build_forest :: "surface_node list \<Rightarrow> surface_edge list \<Rightarrow> string list \<Rightarrow> tree_item list res" where
  "build_forest ns es roots =
     (let nodes = index_nodes ns
      in bind_res (visit_each nodes es {} (map (\<lambda>r. (r, None))
           (filter (\<lambda>r. dict_get nodes r \<noteq> None) (extend_roots es ns roots))) {}) (\<lambda>(ts, seen).
         bind_res (visit_rest nodes es ns seen) (\<lambda>rest. Inr (ts @ rest))))"

record tree_projection =
  tp_schema_version :: int
  tp_target_id :: string
  tp_generated_at :: string
  tp_fingerprint :: string
  tp_statistics :: graph_statistics
  tp_warnings :: "string list"
  tp_tree :: "tree_item list"

definition build_tree_projection :: "(time \<Rightarrow> string) \<Rightarrow> graph_snapshot \<Rightarrow> tree_projection res" where
  "build_tree_projection isofmt g =
     bind_res (build_forest (gn_nodes g) (gn_edges g) (gn_roots g)) (\<lambda>forest.
       Inr \<lparr>tp_schema_version = 1, tp_target_id = gn_target_id g, tp_generated_at = isofmt (gn_generated_at g),
            tp_fingerprint = gn_fingerprint g, tp_statistics = gn_statistics g, tp_warnings = gn_warnings g,
            tp_tree = forest\<rparr>)"

end
