(* ===== verification/Tree_Guarantees.thy ===== *)
theory Tree_Guarantees
  imports Surface_Tree
begin

section \<open>Guarantees of the tree projection\<close>

declare split_paired_All [simp del] split_paired_Ex [simp del]

text \<open>The nodes a forest expands, in order, and the edges it shows: below a node, or among its references.\<close>

fun expanded :: "tree_item \<Rightarrow> string list" where
  "expanded (Tree_ref rel i l) = []"
| "expanded (Tree_node rel n cs refs) = sn_id n # concat (map expanded cs)"

fun item_id :: "tree_item \<Rightarrow> string" where
  "item_id (Tree_ref rel i l) = i"
| "item_id (Tree_node rel n cs refs) = sn_id n"

definition relation_text :: "string option \<Rightarrow> string" where
  "relation_text r = (case r of None \<Rightarrow> [] | Some t \<Rightarrow> t)"

fun shown_edges :: "tree_item \<Rightarrow> (string \<times> string \<times> string) list" where
  "shown_edges (Tree_ref rel i l) = []"
| "shown_edges (Tree_node rel n cs refs) =
     map (\<lambda>c. (sn_id n, relation_text (ti_relation c), item_id c)) cs
     @ map (\<lambda>(t, l, r). (sn_id n, r, t)) refs @ concat (map shown_edges cs)"

definition edge_triple :: "surface_edge \<Rightarrow> string \<times> string \<times> string" where
  "edge_triple e = (ge_source e, ge_relation e, ge_target e)"

text \<open>A snapshot's graph: the nodes have different identifiers and every edge joins two of them.\<close>

definition graph_ok :: "surface_node list \<Rightarrow> surface_edge list \<Rightarrow> bool" where
  "graph_ok ns es \<longleftrightarrow> distinct (map sn_id ns) \<and> list_all (joins (node_ids ns)) es"

subsection \<open>The index of the nodes\<close>

lemma index_snoc: "dict_get (index_nodes (ns @ [n])) = (dict_get (index_nodes ns))(sn_id n \<mapsto> n)"
  by (simp add: index_nodes_def)

lemma index_known: "i \<in> node_ids ns \<Longrightarrow> \<exists>n. dict_get (index_nodes ns) i = Some n"
  by (induction ns rule: rev_induct) (auto simp: index_snoc node_ids_def)

lemma index_unknown: "dict_get (index_nodes ns) i = Some n \<Longrightarrow> sn_id n = i \<and> n \<in> set ns"
  by (induction ns rule: rev_induct) (auto simp: index_snoc index_nodes_def split: if_splits)

lemma index_iff: "dict_get (index_nodes ns) i \<noteq> None \<longleftrightarrow> i \<in> node_ids ns"
  using index_known[of i ns] index_unknown[of ns i] by (auto simp: node_ids_def)

subsection \<open>The edges of one node\<close>

definition edges_from :: "surface_edge list \<Rightarrow> string \<Rightarrow> (string \<times> string \<times> string) multiset" where
  "edges_from es s = mset (map edge_triple (filter (\<lambda>e. ge_source e = s) es))"

definition edges_of :: "surface_edge list \<Rightarrow> string list \<Rightarrow> (string \<times> string \<times> string) multiset" where
  "edges_of es ids = sum_list (map (edges_from es) ids)"

lemma edges_of_simps [simp]:
  "edges_of es [] = {#}" "edges_of es (i # js) = edges_from es i + edges_of es js"
  "edges_of es (ks @ js) = edges_of es ks + edges_of es js"
  by (simp_all add: edges_of_def)

lemma edges_of_all:
  "distinct ids \<Longrightarrow> ge_source ` set es \<subseteq> set ids \<Longrightarrow> edges_of es ids = mset (map edge_triple es)"
proof -
  assume d: "distinct ids" and s: "ge_source ` set es \<subseteq> set ids"
  have "edges_of es ids = mset (map edge_triple (filter (\<lambda>e. ge_source e \<in> set ids) es))"
    if "distinct ids" for ids using that
  proof (induction ids)
    case (Cons i js)
    have "mset (filter (\<lambda>e. ge_source e \<in> set (i # js)) es)
        = mset (filter (\<lambda>e. ge_source e = i) es) + mset (filter (\<lambda>e. ge_source e \<in> set js) es)"
      using Cons.prems by (induction es) auto
    with Cons show ?case by (simp add: edges_from_def)
  qed simp
  moreover have "filter (\<lambda>e. ge_source e \<in> set ids) es = es" using s by (intro filter_True) auto
  ultimately show ?thesis using d by metis
qed

lemma reference_list_graph:
  assumes "graph_ok ns es"
  shows "map (\<lambda>(t, l, r). (s, r, t)) (reference_list (index_nodes ns) es s) = map edge_triple (related_edges (index_nodes ns) es s)"
proof -
  have "e \<in> set es \<Longrightarrow> \<exists>n. dict_get (index_nodes ns) (ge_target e) = Some n" for e
    using assms index_known[of "ge_target e" ns] by (auto simp: graph_ok_def list_all_iff joins_def)
  moreover have "e \<in> set (related_edges (index_nodes ns) es s) \<Longrightarrow> e \<in> set es \<and> ge_source e = s" for e
    by (auto simp: related_edges_def)
  ultimately have "\<forall>e \<in> set (related_edges (index_nodes ns) es s). \<exists>n. dict_get (index_nodes ns) (ge_target e) = Some n \<and> ge_source e = s"
    by blast
  moreover have "\<forall>e \<in> set xs. \<exists>n. dict_get (index_nodes ns) (ge_target e) = Some n \<and> ge_source e = s \<Longrightarrow>
      map (\<lambda>(t, l, r). (s, r, t)) (concat (map (\<lambda>e. (case dict_get (index_nodes ns) (ge_target e) of
         None \<Rightarrow> [] | Some n \<Rightarrow> [(ge_target e, sn_label n, ge_relation e)])) xs)) = map edge_triple xs" for xs
    by (induction xs) (auto simp: edge_triple_def)
  ultimately show ?thesis unfolding reference_list_def by blast
qed

lemma child_and_related:
  "mset (map edge_triple (child_edges nodes es s)) + mset (map edge_triple (related_edges nodes es s)) = edges_from es s"
proof -
  have "mset (filter (\<lambda>e. ge_source e = s \<and> P e) es) + mset (filter (\<lambda>e. ge_source e = s \<and> \<not> P e) es)
      = mset (filter (\<lambda>e. ge_source e = s) es)" for P
    by (induction es) auto
  from this[of "\<lambda>e. primary_edge nodes es (ge_target e) = Some e"]
  show ?thesis by (simp add: child_edges_def related_edges_def edges_from_def mset_map flip: image_mset_union)
qed

subsection \<open>The visit\<close>

definition shown :: "tree_item list \<Rightarrow> (string \<times> string \<times> string) multiset" where
  "shown ts = mset (concat (map shown_edges ts))"

definition opened :: "tree_item list \<Rightarrow> string list" where
  "opened ts = concat (map expanded ts)"

lemma shown_simps [simp]:
  "shown [] = {#}" "shown (t # ts) = mset (shown_edges t) + shown ts" "shown (ts @ us) = shown ts + shown us"
  by (simp_all add: shown_def)

lemma opened_simps [simp]:
  "opened [] = []" "opened (t # ts) = expanded t @ opened ts" "opened (ts @ us) = opened ts @ opened us"
  by (simp_all add: opened_def)

text \<open>What a list of visits produces.\<close>

definition visited ::
  "surface_edge list \<Rightarrow> string set \<Rightarrow> (string \<times> string option) list \<Rightarrow> string set \<Rightarrow> tree_item list \<Rightarrow> string set \<Rightarrow> bool" where
  "visited es ids xs seen ts seen' \<longleftrightarrow>
     map (\<lambda>t. (item_id t, ti_relation t)) ts = xs \<and> seen' = seen \<union> set (opened ts) \<and> distinct (opened ts)
     \<and> set (opened ts) \<inter> seen = {} \<and> set (opened ts) \<subseteq> ids \<and> fst ` set xs \<subseteq> seen' \<and> shown ts = edges_of es (opened ts)"

lemma child_list_known: "graph_ok ns es \<Longrightarrow> fst ` set (child_list (index_nodes ns) es i) \<subseteq> node_ids ns"
  by (auto simp: child_list_def child_edges_def graph_ok_def list_all_iff joins_def)

lemma shown_node:
  assumes "graph_ok ns es" and n: "dict_get (index_nodes ns) i = Some n"
    and cs: "visited es (node_ids ns) (child_list (index_nodes ns) es i) seen cs seen'"
  shows "mset (shown_edges (Tree_node rel n cs (reference_list (index_nodes ns) es i))) = edges_from es i + edges_of es (opened cs)"
proof -
  have i: "sn_id n = i" using index_unknown[OF n] by simp
  have xs: "map (\<lambda>t. (item_id t, ti_relation t)) cs = child_list (index_nodes ns) es i"
    and sh: "shown cs = edges_of es (opened cs)" using cs by (simp_all add: visited_def)
  have "map (\<lambda>c. (i, relation_text (ti_relation c), item_id c)) cs
      = map (\<lambda>(t, r). (i, relation_text r, t)) (map (\<lambda>t. (item_id t, ti_relation t)) cs)" by simp
  also have "\<dots> = map (\<lambda>e. (i, ge_relation e, ge_target e)) (child_edges (index_nodes ns) es i)"
    by (simp add: xs child_list_def relation_text_def)
  also have "\<dots> = map edge_triple (child_edges (index_nodes ns) es i)"
    by (rule map_cong) (auto simp: child_edges_def edge_triple_def)
  finally have ch: "map (\<lambda>c. (i, relation_text (ti_relation c), item_id c)) cs = map edge_triple (child_edges (index_nodes ns) es i)" .
  have "mset (shown_edges (Tree_node rel n cs (reference_list (index_nodes ns) es i)))
      = mset (map edge_triple (child_edges (index_nodes ns) es i)) + mset (map edge_triple (related_edges (index_nodes ns) es i))
        + shown cs"
    by (simp only: shown_edges.simps i ch reference_list_graph[OF assms(1)] mset_append shown_def add.assoc)
  then show ?thesis by (simp only: child_and_related sh)
qed

lemma visited_ref: "visited es ids rest seen ts seen' \<Longrightarrow> nid \<in> seen \<Longrightarrow>
    visited es ids ((nid, rel) # rest) seen (Tree_ref rel nid l # ts) seen'"
  by (auto simp: visited_def)

lemma visited_node:
  assumes "graph_ok ns es" and n: "dict_get (index_nodes ns) nid = Some n" and new: "nid \<notin> seen" "nid \<in> node_ids ns"
    and cs: "visited es (node_ids ns) (child_list (index_nodes ns) es nid) (insert nid seen) cs seen'"
    and ts: "visited es (node_ids ns) rest seen' ts seen''"
  shows "visited es (node_ids ns) ((nid, rel) # rest) seen
    (Tree_node rel n cs (reference_list (index_nodes ns) es nid) # ts) seen''"
proof -
  let ?t = "Tree_node rel n cs (reference_list (index_nodes ns) es nid)"
  have i: "sn_id n = nid" using index_unknown[OF n] by simp
  have e: "opened (?t # ts) = nid # opened cs @ opened ts" by (simp add: i opened_def)
  have seen: "seen' = insert nid seen \<union> set (opened cs)" "seen'' = seen' \<union> set (opened ts)"
    using cs ts by (simp_all add: visited_def)
  have "distinct (opened (?t # ts))" "set (opened (?t # ts)) \<inter> seen = {}" "set (opened (?t # ts)) \<subseteq> node_ids ns"
    unfolding e using cs ts new by (auto simp: visited_def)
  moreover have "shown (?t # ts) = edges_of es (opened (?t # ts))"
    unfolding e shown_simps shown_node[OF assms(1) n cs] using ts by (simp add: visited_def)
  moreover have "map (\<lambda>t. (item_id t, ti_relation t)) (?t # ts) = (nid, rel) # rest" using ts by (simp add: visited_def i)
  moreover have "seen'' = seen \<union> set (opened (?t # ts))" unfolding e by (auto simp: seen)
  moreover have "fst ` set ((nid, rel) # rest) \<subseteq> seen''" using ts by (auto simp: visited_def seen)
  ultimately show ?thesis by (simp only: visited_def)
qed

lemma visit_each_visits:
  "nodes = index_nodes ns \<Longrightarrow> graph_ok ns es \<Longrightarrow> ancestry \<subseteq> seen \<Longrightarrow> fst ` set xs \<subseteq> node_ids ns \<Longrightarrow>
    \<exists>ts seen'. visit_each nodes es ancestry xs seen = Inr (ts, seen') \<and> visited es (node_ids ns) xs seen ts seen'"
proof (induction nodes es ancestry xs seen rule: visit_each.induct)
  case (1 nodes es ancestry seen)
  show ?case by (simp add: visited_def)
next
  case (2 nodes es ancestry nid rel rest seen)
  note g = 2(5) and nodes = 2(4)
  from 2(7) index_known[of nid ns] obtain n where n: "dict_get nodes nid = Some n" by (auto simp: nodes)
  have rest: "fst ` set rest \<subseteq> node_ids ns" and nid: "nid \<in> node_ids ns" using 2(7) by auto
  show ?case
  proof (cases "nid \<in> seen \<or> nid \<in> ancestry")
    case True
    from 2(1)[OF n True nodes g 2(6) rest] obtain ts seen' where
      v: "visit_each nodes es ancestry rest seen = Inr (ts, seen')" "visited es (node_ids ns) rest seen ts seen'" by blast
    have "nid \<in> seen" using True 2(6) by blast
    from visited_ref[OF v(2) this] show ?thesis using True by (simp add: n v(1))
  next
    case False
    have "insert nid ancestry \<subseteq> insert nid seen" using 2(6) by blast
    from 2(2)[OF n False nodes g this] child_list_known[OF g, of nid] obtain cs s1 where
      c: "visit_each nodes es (insert nid ancestry) (child_list nodes es nid) (insert nid seen) = Inr (cs, s1)"
         "visited es (node_ids ns) (child_list nodes es nid) (insert nid seen) cs s1" by (auto simp: nodes)
    have "ancestry \<subseteq> s1" using c(2) 2(6) by (auto simp: visited_def)
    from 2(3)[OF n False c(1) refl nodes g this rest] obtain ts s2 where
      r: "visit_each nodes es ancestry rest s1 = Inr (ts, s2)" "visited es (node_ids ns) rest s1 ts s2" by blast
    have "nid \<notin> seen" using False by blast
    from visited_node[OF g n[unfolded nodes] this nid c(2)[unfolded nodes] r(2)]
    show ?thesis using False by (simp add: n c(1) r(1) flip: nodes)
  qed
qed

subsection \<open>The forest\<close>

definition grown :: "surface_edge list \<Rightarrow> string set \<Rightarrow> string set \<Rightarrow> tree_item list \<Rightarrow> bool" where
  "grown es ids seen ts \<longleftrightarrow> distinct (opened ts) \<and> set (opened ts) \<inter> seen = {} \<and> set (opened ts) \<subseteq> ids
     \<and> shown ts = edges_of es (opened ts)"

lemma grown_append: "grown es ids seen ts \<Longrightarrow> grown es ids (seen \<union> set (opened ts)) us \<Longrightarrow> grown es ids seen (ts @ us)"
  by (auto simp: grown_def)

lemma visited_grown: "visited es ids xs seen ts seen' \<Longrightarrow> grown es ids seen ts \<and> seen' = seen \<union> set (opened ts)"
  by (simp add: visited_def grown_def)

lemma visit_rest_visits:
  assumes g: "graph_ok ns es"
  shows "set ms \<subseteq> set ns \<Longrightarrow> \<exists>ts. visit_rest (index_nodes ns) es ms seen = Inr ts
    \<and> grown es (node_ids ns) seen ts \<and> node_ids ms \<subseteq> seen \<union> set (opened ts)"
proof (induction ms arbitrary: seen)
  case Nil
  show ?case by (simp add: grown_def node_ids_def)
next
  case (Cons m ms)
  then have ms: "set ms \<subseteq> set ns" and m: "sn_id m \<in> node_ids ns" by (auto simp: node_ids_def)
  show ?case
  proof (cases "sn_id m \<in> seen")
    case True
    with Cons.IH[OF ms, of seen] show ?thesis by (auto simp: node_ids_def)
  next
    case False
    from visit_each_visits[OF refl g, of "{}" seen "[(sn_id m, None)]"] m obtain ts s1 where
      v: "visit_each (index_nodes ns) es {} [(sn_id m, None)] seen = Inr (ts, s1)"
         "visited es (node_ids ns) [(sn_id m, None)] seen ts s1" by auto
    from Cons.IH[OF ms, of s1] obtain us where
      u: "visit_rest (index_nodes ns) es ms s1 = Inr us" "grown es (node_ids ns) s1 us" "node_ids ms \<subseteq> s1 \<union> set (opened us)" by blast
    have s1: "grown es (node_ids ns) seen ts" "s1 = seen \<union> set (opened ts)" using visited_grown[OF v(2)] by simp_all
    have "sn_id m \<in> s1" using v(2) by (auto simp: visited_def)
    then have "node_ids (m # ms) \<subseteq> seen \<union> set (opened (ts @ us))" using u(3) by (auto simp: node_ids_def s1(2))
    moreover have "grown es (node_ids ns) seen (ts @ us)" using grown_append[OF s1(1)] u(2) s1(2) by simp
    moreover have "visit_rest (index_nodes ns) es (m # ms) seen = Inr (ts @ us)"
      by (simp only: visit_rest.simps False if_False v(1) u(1) bind_res_simps prod.case)
    ultimately show ?thesis by blast
  qed
qed

lemma build_forest_grows:
  assumes g: "graph_ok ns es"
  shows "\<exists>ts. build_forest ns es roots = Inr ts \<and> grown es (node_ids ns) {} ts \<and> set (opened ts) = node_ids ns"
proof -
  let ?xs = "map (\<lambda>r. (r, None)) (filter (\<lambda>r. dict_get (index_nodes ns) r \<noteq> None) (extend_roots es ns roots)) :: (string \<times> string option) list"
  have "fst ` set ?xs \<subseteq> node_ids ns" using index_iff[of ns] by auto
  from visit_each_visits[OF refl g subset_refl this, of "{}"] obtain ts s1 where
    v: "visit_each (index_nodes ns) es {} ?xs {} = Inr (ts, s1)" "visited es (node_ids ns) ?xs {} ts s1" by blast
  have s1: "grown es (node_ids ns) {} ts" "s1 = {} \<union> set (opened ts)" using visited_grown[OF v(2)] by simp_all
  from visit_rest_visits[OF g subset_refl, of s1] obtain us where
    u: "visit_rest (index_nodes ns) es ns s1 = Inr us" "grown es (node_ids ns) s1 us" "node_ids ns \<subseteq> s1 \<union> set (opened us)" by blast
  have gr: "grown es (node_ids ns) {} (ts @ us)" using grown_append[OF s1(1)] u(2) s1(2) by simp
  moreover have "set (opened (ts @ us)) = node_ids ns" using gr u(3) s1(2) by (auto simp: grown_def)
  moreover have "build_forest ns es roots = Inr (ts @ us)" unfolding build_forest_def Let_def v(1) by (simp add: u(1))
  ultimately show ?thesis by blast
qed

end
