(* ===== verification/Depth_Search.thy ===== *)
theory Depth_Search
  imports Surface_Snapshot
begin

section \<open>The breadth-first search of the bounded subgraph\<close>

declare split_paired_All [simp del] split_paired_Ex [simp del]

text \<open>The reference: the nodes at most \<open>n\<close> edges away from a root.\<close>

fun reach_within :: "surface_edge list \<Rightarrow> string list \<Rightarrow> nat \<Rightarrow> string set" where
  "reach_within es roots 0 = set roots"
| "reach_within es roots (Suc n) =
     reach_within es roots n \<union> ge_target ` {e \<in> set es. ge_source e \<in> reach_within es roots n}"

lemma reach_within_mono: "m \<le> n \<Longrightarrow> reach_within es roots m \<subseteq> reach_within es roots n"
  by (induction n) (auto simp: le_Suc_eq)

lemma outgoing_iff: "t \<in> set (outgoing es s) \<longleftrightarrow> (\<exists>e \<in> set es. ge_source e = s \<and> ge_target e = t)"
  by (auto simp: outgoing_def)

lemma reach_step: "s \<in> reach_within es roots n \<Longrightarrow> t \<in> set (outgoing es s) \<Longrightarrow> t \<in> reach_within es roots (Suc n)"
  by (auto simp: outgoing_iff)

text \<open>What the inner loop does: the targets without a depth get depth \<open>d\<close> and join the queue.\<close>

lemma enqueue_targets_exact:
  "\<exists>new. enqueue_targets d ts queue depths = (queue @ new, snd (enqueue_targets d ts queue depths))
     \<and> set new = {t \<in> set ts. dict_get depths t = None}
     \<and> dict_get (snd (enqueue_targets d ts queue depths)) = (\<lambda>v. if v \<in> set new then Some d else dict_get depths v)"
proof (induction ts arbitrary: queue depths)
  case (Cons t ts)
  show ?case
  proof (cases "dict_get depths t")
    case None
    let ?r = "enqueue_targets d ts (queue @ [t]) (dict_set t d depths)"
    from Cons.IH[of "queue @ [t]" "dict_set t d depths"] obtain new where
      q: "?r = ((queue @ [t]) @ new, snd ?r)" and n: "set new = {u \<in> set ts. dict_get (dict_set t d depths) u = None}"
      and g: "dict_get (snd ?r) = (\<lambda>v. if v \<in> set new then Some d else dict_get (dict_set t d depths) v)" by blast
    have r: "enqueue_targets d (t # ts) queue depths = ?r" using None by simp
    have "set (t # new) = {u \<in> set (t # ts). dict_get depths u = None}" using None by (auto simp: n)
    moreover have "dict_get (snd ?r) = (\<lambda>v. if v \<in> set (t # new) then Some d else dict_get depths v)"
      by (auto simp: g fun_eq_iff)
    moreover have "?r = (queue @ t # new, snd ?r)" using q by simp
    ultimately show ?thesis unfolding r by blast
  next
    case (Some k)
    then have "{u \<in> set (t # ts). dict_get depths u = None} = {u \<in> set ts. dict_get depths u = None}" by auto
    with Cons.IH[of queue depths] Some show ?thesis by simp
  qed
qed (simp add: fun_eq_iff)

subsection \<open>The invariant\<close>

definition depth :: "depths \<Rightarrow> string \<Rightarrow> nat" where
  "depth depths v = dict_default depths v 0"

lemma depth_get: "dict_get depths v = Some k \<Longrightarrow> depth depths v = k"
  by (simp add: depth_def dict_default_def)

definition sound_depths :: "surface_edge list \<Rightarrow> string list \<Rightarrow> nat \<Rightarrow> depths \<Rightarrow> bool" where
  "sound_depths es roots limit depths \<longleftrightarrow>
     (\<forall>v k. dict_get depths v = Some k \<longrightarrow> v \<in> reach_within es roots k \<and> k \<le> limit)
     \<and> (\<forall>r \<in> set roots. dict_get depths r = Some 0)"

definition frontier :: "string list \<Rightarrow> depths \<Rightarrow> bool" where
  "frontier queue depths \<longleftrightarrow> set queue \<subseteq> dom (dict_get depths) \<and> sorted (map (depth depths) queue)
     \<and> (queue \<noteq> [] \<longrightarrow> (\<forall>v k. dict_get depths v = Some k \<longrightarrow> k \<le> depth depths (hd queue) + 1))"

definition closed_depths :: "surface_edge list \<Rightarrow> nat \<Rightarrow> string list \<Rightarrow> depths \<Rightarrow> bool" where
  "closed_depths es limit queue depths \<longleftrightarrow>
     (\<forall>v k. dict_get depths v = Some k \<longrightarrow> v \<notin> set queue \<longrightarrow> k < limit \<longrightarrow>
        (\<forall>t \<in> set (outgoing es v). \<exists>j. dict_get depths t = Some j \<and> j \<le> k + 1))"

definition search_ok :: "surface_edge list \<Rightarrow> string list \<Rightarrow> nat \<Rightarrow> string list \<Rightarrow> depths \<Rightarrow> bool" where
  "search_ok es roots limit queue depths \<longleftrightarrow>
     sound_depths es roots limit depths \<and> frontier queue depths \<and> closed_depths es limit queue depths"

lemma closed_at: "closed_depths es limit queue depths \<Longrightarrow> dict_get depths v = Some k \<Longrightarrow> v \<notin> set queue \<Longrightarrow> k < limit \<Longrightarrow>
    t \<in> set (outgoing es v) \<Longrightarrow> \<exists>j. dict_get depths t = Some j \<and> j \<le> k + 1"
  unfolding closed_depths_def by blast

lemma sorted_constant: "sorted (map (\<lambda>_. c) xs)"
  by (induction xs) auto

lemma frontier_tail: "frontier (s # queue) depths \<Longrightarrow> frontier queue depths"
  unfolding frontier_def by (cases queue) force+

lemma search_skip:
  assumes "search_ok es roots limit (s # queue) depths" "limit \<le> depth depths s"
  shows "search_ok es roots limit queue depths"
proof -
  have "closed_depths es limit queue depths"
    unfolding closed_depths_def
  proof (intro allI impI ballI)
    fix v k t assume v: "dict_get depths v = Some k" "v \<notin> set queue" "k < limit" "t \<in> set (outgoing es v)"
    then have "v \<notin> set (s # queue)" using assms(2) depth_get by force
    with closed_at[of es limit "s # queue" depths v k t] v assms(1)
    show "\<exists>j. dict_get depths t = Some j \<and> j \<le> k + 1" by (simp add: search_ok_def)
  qed
  then show ?thesis using assms by (auto simp: search_ok_def dest: frontier_tail)
qed

lemma search_expand:
  assumes ok: "search_ok es roots limit (s # queue) depths" and below: "depth depths s < limit"
    and e: "enqueue_targets (depth depths s + 1) (outgoing es s) queue depths = (queue', depths')"
  shows "search_ok es roots limit queue' depths'"
proof -
  let ?d = "depth depths s + 1"
  from enqueue_targets_exact[of ?d "outgoing es s" queue depths] e obtain new where
    q: "queue' = queue @ new" and new: "set new = {t \<in> set (outgoing es s). dict_get depths t = None}"
    and D: "dict_get depths' = (\<lambda>v. if v \<in> set new then Some ?d else dict_get depths v)" by auto
  have fr: "frontier (s # queue) depths" and so: "sound_depths es roots limit depths"
    and cl: "closed_depths es limit (s # queue) depths" using ok by (simp_all add: search_ok_def)
  from fr obtain k where k: "dict_get depths s = Some k" by (auto simp: frontier_def)
  have dk: "depth depths s = k" using depth_get[OF k] .
  have s: "s \<in> reach_within es roots k" using so k by (auto simp: sound_depths_def)
  have le: "dict_get depths v = Some j \<Longrightarrow> j \<le> ?d" for v j using fr by (auto simp: frontier_def)
  have "sound_depths es roots limit depths'"
    using so reach_step[OF s] below by (auto simp: sound_depths_def D new dk)
  moreover have "closed_depths es limit queue' depths'"
    unfolding closed_depths_def
  proof (intro allI impI ballI)
    fix v j t assume v: "dict_get depths' v = Some j" "v \<notin> set queue'" "j < limit" "t \<in> set (outgoing es v)"
    then have v': "dict_get depths v = Some j" "v \<notin> set queue" "v \<notin> set new" by (auto simp: D q split: if_splits)
    show "\<exists>i. dict_get depths' t = Some i \<and> i \<le> j + 1"
    proof (cases "v = s")
      case True
      with v' k have "j = k" by simp
      with v(4) True show ?thesis using le[of t] by (cases "dict_get depths t") (auto simp: D new dk)
    next
      case False
      with closed_at[OF cl v'(1) _ v(3,4)] v'(2) obtain i where "dict_get depths t = Some i" "i \<le> j + 1" by auto
      then show ?thesis by (auto simp: D new)
    qed
  qed
  moreover have "frontier queue' depths'"
  proof -
    have old: "v \<in> set queue \<Longrightarrow> depth depths' v = depth depths v \<and> depth depths v \<le> ?d \<and> v \<notin> set new" for v
      using fr le by (force simp: frontier_def D new depth_def dict_default_def split: option.splits)
    have nd: "v \<in> set new \<Longrightarrow> depth depths' v = ?d" for v by (simp add: depth_def dict_default_def D)
    have mp: "map (depth depths') queue' = map (depth depths) queue @ map (\<lambda>_. ?d) new" using old nd by (simp add: q)
    have "sorted (map (depth depths') queue')" unfolding mp using fr old
      by (auto simp: frontier_def sorted_append sorted_constant)
    moreover have "set queue' \<subseteq> dom (dict_get depths')" using fr by (auto simp: frontier_def q D)
    moreover have "queue' \<noteq> [] \<Longrightarrow> depth depths s \<le> depth depths' (hd queue')"
      using fr old nd by (cases queue) (auto simp: frontier_def q)
    then have "queue' \<noteq> [] \<longrightarrow> (\<forall>v j. dict_get depths' v = Some j \<longrightarrow> j \<le> depth depths' (hd queue') + 1)"
      using le by (force simp: D split: if_splits)
    ultimately show ?thesis by (simp add: frontier_def)
  qed
  ultimately show ?thesis by (simp add: search_ok_def)
qed

lemma search_depths_ok:
  "search_ok es roots limit queue depths \<Longrightarrow> search_ok es roots limit [] (search_depths es limit queue depths)"
proof (induction es limit queue depths rule: search_depths.induct)
  case (2 es limit s queue depths)
  show ?case
  proof (cases "limit \<le> depth depths s")
    case True
    with 2(1) search_skip[OF 2(3) True] show ?thesis by (simp add: depth_def)
  next
    case False
    obtain queue' depths' where e: "enqueue_targets (depth depths s + 1) (outgoing es s) queue depths = (queue', depths')"
      by (cases "enqueue_targets (depth depths s + 1) (outgoing es s) queue depths")
    from search_expand[OF 2(3) _ e] False have "search_ok es roots limit queue' depths'" by simp
    with 2(2)[OF _ e[symmetric, unfolded depth_def]] False e show ?thesis by (simp add: depth_def)
  qed
qed simp

lemma search_done:
  assumes "search_ok es roots limit [] depths" "n \<le> limit" "v \<in> reach_within es roots n"
  shows "\<exists>k \<le> n. dict_get depths v = Some k"
  using assms(2,3)
proof (induction n arbitrary: v)
  case 0
  with assms(1) show ?case by (simp add: search_ok_def sound_depths_def)
next
  case (Suc n)
  from Suc.prems consider "v \<in> reach_within es roots n" | e where "e \<in> set es" "ge_source e \<in> reach_within es roots n" "v = ge_target e"
    by auto
  then show ?case
  proof cases
    case 1
    with Suc show ?thesis using le_SucI by fastforce
  next
    case 2
    from Suc.IH[OF _ 2(2)] Suc.prems obtain k where k: "k \<le> n" "dict_get depths (ge_source e) = Some k" by auto
    moreover have "v \<in> set (outgoing es (ge_source e))" using 2 by (auto simp: outgoing_iff)
    ultimately obtain j where "dict_get depths v = Some j" "j \<le> k + 1"
      using assms(1) Suc.prems(1) by (fastforce simp: search_ok_def closed_depths_def)
    with k show ?thesis by (intro exI[of _ j]) simp
  qed
qed

lemma root_depths: "dict_get (foldl (\<lambda>d r. dict_set r (0::nat) d) d roots) = (\<lambda>v. if v \<in> set roots then Some 0 else dict_get d v)"
  by (induction roots arbitrary: d) (auto simp: fun_eq_iff)

lemma within_depth_exact: "within_depth_of es roots limit = reach_within es roots limit"
proof -
  let ?d = "foldl (\<lambda>d r. dict_set r (0::nat) d) [] roots"
  have "sound_depths es roots limit ?d" by (simp add: sound_depths_def root_depths)
  moreover have m: "map (depth ?d) roots = map (\<lambda>_. 0) roots" by (simp add: depth_def dict_default_def root_depths)
  have "frontier roots ?d" unfolding frontier_def m by (auto simp: root_depths sorted_constant split: if_splits)
  moreover have "closed_depths es limit roots ?d" by (auto simp: closed_depths_def root_depths)
  ultimately have ok: "search_ok es roots limit [] (search_depths es limit roots ?d)"
    by (intro search_depths_ok) (simp add: search_ok_def)
  have w: "within_depth_of es roots limit = dom (dict_get (search_depths es limit roots ?d))"
    by (simp add: within_depth_of_def dom_map_of_conv_image_fst)
  show ?thesis
  proof (intro set_eqI iffI)
    fix v assume "v \<in> within_depth_of es roots limit"
    then obtain k where "dict_get (search_depths es limit roots ?d) v = Some k" by (auto simp: w)
    with ok reach_within_mono[of k limit es roots] show "v \<in> reach_within es roots limit"
      by (auto simp: search_ok_def sound_depths_def)
  next
    fix v assume "v \<in> reach_within es roots limit"
    from search_done[OF ok order_refl this] show "v \<in> within_depth_of es roots limit" by (auto simp: w)
  qed
qed

end
