(* ===== verification/Snapshot_Properties.thy ===== *)
theory Snapshot_Properties
  imports Tree_Guarantees Depth_Search Dict_Sum
begin

section \<open>Lemmas on the snapshot\<close>

declare split_paired_All [simp del] split_paired_Ex [simp del]

subsection \<open>The accumulated nodes\<close>

text \<open>Every accumulator stands under the identifier of its identity.\<close>

definition keyed :: "(string \<Rightarrow> string) \<Rightarrow> (string, node_acc) dict \<Rightarrow> bool" where
  "keyed digest d \<longleftrightarrow> dict_ok d \<and> list_all (\<lambda>(k, n). k = node_id_of digest (na_identity n)) d"

lemma keyed_get: "keyed digest d \<Longrightarrow> dict_get d k = Some n \<Longrightarrow> k = node_id_of digest (na_identity n)"
  by (auto simp: keyed_def list_all_iff dest!: map_of_SomeD)

lemma keyed_set: "keyed digest d \<Longrightarrow> k = node_id_of digest (na_identity n) \<Longrightarrow> keyed digest (dict_set k n d)"
  by (auto simp: keyed_def list_all_iff dest!: set_values_dict_set)

lemma measured_identity [simp]:
  "na_identity (add_observation aid x n) = na_identity n" "na_identity (attach_http_response aid x n) = na_identity n"
  by (simp_all add: add_observation_def attach_http_response_def measure_node_def Let_def)

lemma place_nodes [simp]: "as_nodes (place nid x a) = as_nodes a"
  by (simp add: place_def)

lemma exclude_nodes [simp]: "as_nodes (exclude a) = as_nodes a"
  by (simp add: exclude_def)

lemma default_node: "keyed digest d \<Longrightarrow>
    node_id_of digest (na_identity (dict_default d (node_id_of digest i) (new_node i))) = node_id_of digest i"
  by (auto simp: dict_default_def new_node_def split: option.split dest: keyed_get)

lemma observe_keyed:
  assumes k: "keyed digest (as_nodes a)" and o: "observe digest intel assets x a = Inr a'"
  shows "keyed digest (as_nodes a')"
proof -
  from o obtain identity where a': "a' = (case identity of
      None \<Rightarrow> if ev_type x = EV_HTTP_RESPONSE \<and> ob_asset_id x \<in> assets then a\<lparr>as_http := as_http a @ [x]\<rparr> else exclude a
    | Some i \<Rightarrow> if ob_asset_id x \<notin> assets then exclude a
        else let nid = node_id_of digest i; n = dict_default (as_nodes a) nid (new_node i)
             in place nid x (a\<lparr>as_nodes := dict_set nid (add_observation (ob_asset_id x) x n) (as_nodes a)\<rparr>))"
    unfolding observe_def bind_res_Inr_iff by blast
  show ?thesis unfolding a' using k by (auto simp: Let_def default_node intro!: keyed_set split: option.split)
qed

lemma observe_all_keyed:
  "keyed digest (as_nodes a) \<Longrightarrow> observe_all digest intel assets os a = Inr a' \<Longrightarrow> keyed digest (as_nodes a')"
  by (induction os arbitrary: a) (auto simp: bind_res_Inr_iff dest: observe_keyed)

lemma attach_keyed:
  "keyed digest (as_nodes a) \<Longrightarrow> attach_responses endpoints os a = Inr a' \<Longrightarrow> keyed digest (as_nodes a')"
proof (induction endpoints os a rule: attach_responses.induct)
  case (2 endpoints x os a)
  show ?case
  proof (cases "Option.bind (response_endpoint x) (dict_get endpoints)")
    case None
    with 2 show ?thesis by simp
  next
    case (Some nid)
    with 2(4) obtain status where st: "http_status_code x = Inr status"
      and r: "attach_responses endpoints os (case (status, dict_get (as_nodes a) nid) of
          (Some _, Some n) \<Rightarrow> place nid x (a\<lparr>as_nodes := dict_set nid (attach_http_response (ob_asset_id x) x n) (as_nodes a)\<rparr>)
        | _ \<Rightarrow> exclude a) = Inr a'"
      by (auto simp: bind_res_Inr_iff)
    show ?thesis
      by (rule 2(2)[OF Some st _ r[simplified]]) (use 2(3) in \<open>auto split: option.split intro!: keyed_set dest: keyed_get\<close>)
  qed
qed simp

lemma cover_keyed: "keyed digest d \<Longrightarrow> keyed digest (cover e2n t d)"
  by (auto simp: cover_def bind_eq_Some_conv split: option.split prod.split intro!: keyed_set dest: keyed_get)

lemma cover_all_keyed: "keyed digest d \<Longrightarrow> keyed digest (foldl (\<lambda>ns t. cover e2n t ns) d ts)"
  by (induction ts arbitrary: d) (simp_all add: cover_keyed)

text \<open>Every accumulated edge stands under its key and joins two different nodes.\<close>

definition edges_ok :: "edge_accs \<Rightarrow> bool" where
  "edges_ok d \<longleftrightarrow> dict_ok d \<and> list_all (\<lambda>(k, e). k = edge_key e \<and> ea_source e \<noteq> ea_target e) d"

lemma combined_key [simp]:
  "ea_source (combine_edges old e) = ea_source old" "ea_target (combine_edges old e) = ea_target old"
  "edge_key (combine_edges old e) = edge_key old"
  by (simp_all add: combine_edges_def edge_key_def)

lemma merge_edge_ok: "edges_ok d \<Longrightarrow> edges_ok (merge_edge e d)"
  unfolding edges_ok_def merge_edge_def list_all_iff
  by (auto split: option.split dest!: set_values_dict_set map_of_SomeD)

lemma merge_all_ok: "edges_ok d \<Longrightarrow> edges_ok (merge_all es d)"
  unfolding merge_all_def by (induction es arbitrary: d) (simp_all add: merge_edge_ok)

lemma accumulate_ok:
  assumes "accumulate gp f rows = Inr (nodes, edges, x)"
  shows "keyed (gp_digest gp) nodes \<and> edges_ok edges"
proof -
  from assms obtain a b derived where
    o: "observe_all (gp_digest gp) (gf_intelligence f) (gr_assets rows)
          (sort_key (\<lambda>o'. (first_seen o', event_id o')) (gr_observations rows)) empty_assembly = Inr a"
    and r: "attach_responses (by_value NK_ENDPOINT (as_nodes a)) (as_http a) a = Inr b"
    and n: "nodes = foldl (\<lambda>ns t. cover (as_event_to_node b) t ns) (as_nodes b) (gr_tasks rows)"
    and e: "edges = merge_all (concat (map (\<lambda>r. optional (stored_edge (as_asset_to_node b) (gr_evidence rows) r)) (gr_relationships rows)) @ derived) []"
    unfolding accumulate_def Let_def by (auto simp: bind_res_Inr_iff)
  have "keyed (gp_digest gp) (as_nodes empty_assembly)" by (simp add: keyed_def empty_assembly_def)
  then have "keyed (gp_digest gp) nodes" unfolding n by (intro cover_all_keyed attach_keyed[OF _ r] observe_all_keyed[OF _ o])
  moreover have "edges_ok edges" unfolding e by (rule merge_all_ok) (simp add: edges_ok_def)
  ultimately show ?thesis ..
qed

subsection \<open>The finished graph\<close>

lemma finish_all_Inr: "finish_all f xs = Inr ys \<longleftrightarrow> list_all2 (\<lambda>x y. f x = Inr y) xs ys"
  by (induction xs arbitrary: ys) (auto simp: bind_res_Inr_iff list_all2_Cons1)

text \<open>What the filter leaves visible. A finished node shows its confidence rounded to six digits, so the
  minimum is compared at that precision.\<close>

definition displays :: "graph_filter \<Rightarrow> surface_node \<Rightarrow> bool" where
  "displays f n \<longleftrightarrow> round6 (gf_min_confidence f) \<le> sn_confidence n
     \<and> (gf_confirmed_only f \<longrightarrow> sn_discovery n = DS_CONFIRMED)
     \<and> (sn_discovery n = DS_HYPOTHESIS \<longrightarrow> gf_hypotheses f) \<and> (sn_discovery n = DS_HISTORICAL \<longrightarrow> gf_historical f)
     \<and> (sn_scope n = SC_OUT_OF_SCOPE \<longrightarrow> gf_out_of_scope f)"

lemma round6_mono: "x \<le> y \<Longrightarrow> round6 x \<le> round6 y"
  by (simp add: round6_def divide_right_mono round_half_even_mono)

lemma finish_node_some: "finish_node digest isofmt f disabled n = Inr (Some s) \<Longrightarrow>
    sn_id s = node_id_of digest (na_identity n) \<and> displays f s"
  by (auto simp: finish_node_def filtered_out_def displays_def make_surface_node_def bind_res_Inr_iff not_less
      intro: round6_mono split: if_splits option.splits)

lemma finished_nodes:
  assumes "keyed digest d" and "finish_all (finish_node digest isofmt f disabled) (dict_values d) = Inr found"
  shows "distinct (map sn_id (concat (map optional found))) \<and> list_all (displays f) (concat (map optional found))
    \<and> set (map sn_id (concat (map optional found))) \<subseteq> set (map fst d)"
  using assms
proof (induction d arbitrary: found)
  case (Cons p d)
  obtain k n where p: "p = (k, n)" by (cases p)
  from Cons.prems(2) obtain y ys where y: "finish_node digest isofmt f disabled n = Inr y" "found = y # ys"
    and ys: "finish_all (finish_node digest isofmt f disabled) (dict_values d) = Inr ys"
    by (auto simp: p bind_res_Inr_iff)
  have k: "k = node_id_of digest (na_identity n)" "k \<notin> set (map fst d)" "keyed digest d"
    using Cons.prems(1) by (auto simp: keyed_def p)
  define zs where "zs = concat (map optional ys)"
  have z: "distinct (map sn_id zs)" "list_all (displays f) zs" "sn_id ` set zs \<subseteq> set (map fst d)"
    using Cons.IH[OF k(3) ys] by (simp_all add: zs_def)
  show ?case
  proof (cases y)
    case None
    then have "concat (map optional found) = zs" by (simp add: y(2) optional_def zs_def)
    with z show ?thesis by (auto simp: p)
  next
    case (Some s)
    with y(1) finish_node_some[of digest isofmt f disabled n s] k(1) have s: "sn_id s = k" "displays f s" by simp_all
    have "concat (map optional found) = s # zs" by (simp add: y(2) Some optional_def zs_def)
    with z s k(2) show ?thesis by (auto simp: p)
  qed
qed (simp add: keyed_def)

lemma finish_edge_some: "finish_edge digest e = Inr s \<Longrightarrow> edge_triple s = (ea_source e, ea_relation e, ea_target e)
    \<and> ge_source s = ea_source e \<and> ge_target s = ea_target e"
  by (auto simp: finish_edge_def bind_res_Inr_iff edge_triple_def)

lemma finished_edges:
  "list_all2 (\<lambda>x y. finish_edge digest x = Inr y) es fs \<Longrightarrow>
   map edge_triple fs = map (\<lambda>e. (ea_source e, ea_relation e, ea_target e)) es"
  by (induction rule: list_all2_induct) (auto simp: finish_edge_some)

lemma distinct_filter_edges:
  assumes "edges_ok d"
  shows "distinct (map (\<lambda>e. (ea_source e, ea_relation e, ea_target e)) (filter P (dict_values d)))"
proof -
  have "map edge_key (dict_values d) = map fst d"
    using assms by (induction d) (auto simp: edges_ok_def)
  then have "distinct (map edge_key (dict_values d))" using assms by (simp add: edges_ok_def del: map_map)
  then have "distinct (map (\<lambda>e. (ea_source e, ea_relation e, ea_target e)) (dict_values d))"
    by (auto simp: distinct_map inj_on_def edge_key_def comp_def)
  then show ?thesis by (rule distinct_map_filter)
qed

text \<open>The graph between the two halves of \<open>build\<close>, and at its end.\<close>

definition graph_sound :: "graph_filter \<Rightarrow> surface_node list \<Rightarrow> surface_edge list \<Rightarrow> bool" where
  "graph_sound f ns es \<longleftrightarrow> graph_ok ns es \<and> list_all (displays f) ns \<and> distinct (map edge_triple es)
     \<and> list_all (\<lambda>e. ge_source e \<noteq> ge_target e) es"

lemma finish_graph_sound:
  assumes k: "keyed (gp_digest gp) nodes" and e: "edges_ok edges" and g: "finish_graph gp f disabled nodes edges = Inr (ns, es)"
  shows "graph_sound f ns es"
proof -
  from g obtain found fs where
    n: "finish_all (finish_node (gp_digest gp) (gp_isofmt gp) f disabled) (dict_values nodes) = Inr found"
    and fs: "finish_all (finish_edge (gp_digest gp)) (filter (\<lambda>e. ea_source e \<in> node_ids (concat (map optional found))
               \<and> ea_target e \<in> node_ids (concat (map optional found))) (dict_values edges)) = Inr fs"
    and ns: "ns = sort_key (\<lambda>n. (node_kind_value (sn_kind n), sn_value n, sn_id n)) (concat (map optional found))"
    and es: "es = sort_key (\<lambda>e. (ge_source e, ge_relation e, ge_target e)) fs"
    unfolding finish_graph_def Let_def by (auto simp: bind_res_Inr_iff)
  let ?P = "\<lambda>e. ea_source e \<in> node_ids (concat (map optional found)) \<and> ea_target e \<in> node_ids (concat (map optional found))"
  have tr: "map edge_triple fs = map (\<lambda>e. (ea_source e, ea_relation e, ea_target e)) (filter ?P (dict_values edges))"
    using fs by (intro finished_edges) (simp add: finish_all_Inr)
  have ids: "node_ids ns = node_ids (concat (map optional found))" by (simp add: ns node_ids_def)
  have "distinct (map edge_triple fs)" unfolding tr using distinct_filter_edges[OF e] .
  then have d: "distinct (map edge_triple es)" unfolding es by (simp add: distinct_map)
  have "\<exists>a \<in> set (filter ?P (dict_values edges)). edge_triple x = (ea_source a, ea_relation a, ea_target a)" if "x \<in> set es" for x
  proof -
    have "edge_triple x \<in> set (map edge_triple fs)" using that by (simp add: es)
    then show ?thesis unfolding tr by auto
  qed
  then have "joins (node_ids ns) x \<and> ge_source x \<noteq> ge_target x" if "x \<in> set es" for x
    using that e by (fastforce simp: joins_def ids edge_triple_def edges_ok_def list_all_iff)
  then have "list_all (joins (node_ids ns)) es" "list_all (\<lambda>e. ge_source e \<noteq> ge_target e) es"
    by (simp_all add: list_all_iff)
  moreover have "distinct (map sn_id ns)" "list_all (displays f) ns"
    using finished_nodes[OF k n] by (simp_all add: ns distinct_map list_all_iff)
  ultimately show ?thesis using d by (simp add: graph_sound_def graph_ok_def)
qed

end
