(* ===== verification/Snapshot_Guarantees.thy ===== *)
theory Snapshot_Guarantees
  imports Snapshot_Properties
begin

section \<open>Guarantees of the surface graph\<close>

declare split_paired_All [simp del] split_paired_Ex [simp del]

subsection \<open>The limits\<close>

lemma distinct_take_map: "distinct (map f xs) \<Longrightarrow> distinct (map f (take n xs))"
  by (metis distinct_take take_map)

lemma limited_nodes_sound:
  assumes g: "graph_sound f ns es" and l: "limit_nodes n ns es = (ns', es', w)"
  shows "graph_sound f ns' es' \<and> length ns' \<le> n"
proof (cases "n < length ns")
  case True
  then have ns: "ns' = take n ns" and es: "es' = filter (joins (node_ids (take n ns))) es"
    using l by (auto simp: limit_nodes_def)
  from g have "distinct (map sn_id ns')" "distinct (map edge_triple es')"
    by (auto simp: graph_sound_def graph_ok_def ns es intro: distinct_take_map distinct_map_filter)
  moreover have "list_all (joins (node_ids ns')) es'" by (simp add: ns es list_all_iff)
  moreover have "list_all (displays f) ns'" "list_all (\<lambda>e. ge_source e \<noteq> ge_target e) es'"
    using g by (auto simp: graph_sound_def ns es list_all_iff dest: in_set_takeD)
  ultimately show ?thesis by (simp add: graph_sound_def graph_ok_def) (simp add: ns)
next
  case False
  with l g show ?thesis by (simp add: limit_nodes_def)
qed

lemma limited_edges_sound:
  assumes g: "graph_sound f ns es" and l: "limit_edges n es = (es', w)"
  shows "graph_sound f ns es' \<and> length es' \<le> n"
proof -
  have "es' = take n es \<or> es' = es \<and> length es \<le> n" using l by (auto simp: limit_edges_def split: if_splits)
  then have t: "es' = take n es" by auto
  from g show ?thesis
    by (auto simp: graph_sound_def graph_ok_def t list_all_iff intro: distinct_take_map dest: in_set_takeD)
qed

lemma bounded_sound:
  assumes g: "graph_sound f ns es" and r: "set roots \<subseteq> node_ids ns" and b: "bounded_subgraph ns es roots d = (ns', es')"
  shows "graph_sound f ns' es' \<and> set roots \<subseteq> node_ids ns' \<and> length ns' \<le> length ns \<and> length es' \<le> length es"
proof (cases "d = None \<or> roots = []")
  case True
  then have "ns' = ns \<and> es' = es" using b by (auto simp: bounded_subgraph_def split: option.splits)
  with g r show ?thesis by simp
next
  case False
  then obtain k where d: "d = Some k" by auto
  let ?V = "reach_within es roots k"
  have ns: "ns' = filter (\<lambda>n. sn_id n \<in> ?V) ns" and es: "es' = filter (\<lambda>e. ge_source e \<in> ?V \<and> ge_target e \<in> ?V) es"
    using b False by (simp_all add: bounded_subgraph_def d within_depth_exact Let_def)
  have "set roots \<subseteq> ?V" using reach_within_mono[of 0 k es roots] by simp
  then have "set roots \<subseteq> node_ids ns'" using r by (force simp: node_ids_def ns)
  moreover from g have "graph_sound f ns' es'"
    by (auto simp: graph_sound_def graph_ok_def ns es list_all_iff joins_def node_ids_def intro!: distinct_map_filter)
  ultimately show ?thesis by (simp add: ns es)
qed

text \<open>A snapshot: its graph is sound, its roots are nodes of it, its limits and its counts are kept.\<close>

definition snapshot_ok :: "graph_filter \<Rightarrow> graph_snapshot \<Rightarrow> bool" where
  "snapshot_ok f g \<longleftrightarrow> graph_sound f (gn_nodes g) (gn_edges g) \<and> set (gn_roots g) \<subseteq> node_ids (gn_nodes g)
     \<and> length (gn_nodes g) \<le> gf_max_nodes f \<and> length (gn_edges g) \<le> gf_max_edges f
     \<and> gs_node_count (gn_statistics g) = int (length (gn_nodes g))
     \<and> gs_edge_count (gn_statistics g) = int (length (gn_edges g))"

lemma build_snapshot_ok:
  assumes g: "graph_sound f ns es"
  shows "snapshot_ok f (build_snapshot gp f tid now c x ns es)"
proof -
  obtain ns1 es1 w1 where l1: "limit_nodes (gf_max_nodes f) ns es = (ns1, es1, w1)" by (cases "limit_nodes (gf_max_nodes f) ns es")
  obtain es2 w2 where l2: "limit_edges (gf_max_edges f) es1 = (es2, w2)" by (cases "limit_edges (gf_max_edges f) es1")
  obtain ns3 es3 where l3: "bounded_subgraph ns1 es2 (roots_of (gf_root f) ns1) (gf_max_depth f) = (ns3, es3)"
    by (cases "bounded_subgraph ns1 es2 (roots_of (gf_root f) ns1) (gf_max_depth f)")
  from limited_nodes_sound[OF g l1] have g1: "graph_sound f ns1 es1" "length ns1 \<le> gf_max_nodes f" by simp_all
  from limited_edges_sound[OF g1(1) l2] have g2: "graph_sound f ns1 es2" "length es2 \<le> gf_max_edges f" by simp_all
  have "set (roots_of (gf_root f) ns1) \<subseteq> node_ids ns1" by (auto simp: roots_of_def node_ids_def)
  from bounded_sound[OF g2(1) this l3] g1(2) g2(2)
  show ?thesis by (simp add: snapshot_ok_def build_snapshot_def l1 l2 l3 Let_def)
qed

lemma built_snapshot_ok:
  assumes b: "build_graph gp f disabled tid now rows = Inr g"
  shows "snapshot_ok f g"
proof -
  from b obtain nodes edges x ns es where a: "accumulate gp f rows = Inr (nodes, edges, x)"
    and fin: "finish_graph gp f disabled nodes edges = Inr (ns, es)"
    and g: "g = build_snapshot gp f tid now (int (length (gr_observations rows))) x ns es"
    by (auto simp: build_graph_def bind_res_Inr_iff)
  from accumulate_ok[OF a] have "keyed (gp_digest gp) nodes" "edges_ok edges" by simp_all
  from finish_graph_sound[OF this fin] show ?thesis unfolding g by (rule build_snapshot_ok)
qed

lemma built_graph_ok: "build_graph gp f disabled tid now rows = Inr g \<Longrightarrow> graph_ok (gn_nodes g) (gn_edges g)"
  using built_snapshot_ok by (simp add: snapshot_ok_def graph_sound_def)

lemma projected:
  assumes "graph_ok (gn_nodes g) (gn_edges g)"
  shows "\<exists>p. build_tree_projection isofmt g = Inr p \<and> distinct (opened (tp_tree p))
    \<and> set (opened (tp_tree p)) = node_ids (gn_nodes g) \<and> shown (tp_tree p) = mset (map edge_triple (gn_edges g))"
proof -
  from build_forest_grows[OF assms, of "gn_roots g"] obtain ts where
    ts: "build_forest (gn_nodes g) (gn_edges g) (gn_roots g) = Inr ts" "grown (gn_edges g) (node_ids (gn_nodes g)) {} ts"
        "set (opened ts) = node_ids (gn_nodes g)" by blast
  have "ge_source ` set (gn_edges g) \<subseteq> set (opened ts)"
    using assms by (auto simp: ts(3) graph_ok_def list_all_iff joins_def)
  from edges_of_all[OF _ this] ts(2) have "shown ts = mset (map edge_triple (gn_edges g))" by (simp add: grown_def)
  with ts show ?thesis by (simp add: build_tree_projection_def grown_def)
qed

subsection \<open>A sample\<close>

text \<open>A parameter and a favicon, seen once each and related both ways.\<close>

definition seen_name :: "event_type \<Rightarrow> time \<Rightarrow> string \<Rightarrow> string \<Rightarrow> observation" where
  "seen_name ty t eid v = \<lparr>event_id = eid, ev_type = ty, ev_value = v, ev_source = ''dns'', parent_event_id = None,
     first_seen = t, last_seen = t, ev_scope_state = SC_IN_SCOPE, ev_confidence = 1, ev_novelty = 0, ev_depth = 0,
     ev_tags = {}, ev_metadata = [], ob_asset_id = v\<rparr>"

definition related_names :: "string \<Rightarrow> string \<Rightarrow> string \<Rightarrow> relationship_row" where
  "related_names i s t = \<lparr>rl_id = i, rl_source_asset_id = s, rl_target_asset_id = t, rl_type = ''ALIASES_TO'',
     rl_confidence = 1, rl_first_seen = 0, rl_last_seen = 1, rl_first_source_event_id = None, rl_metadata = []\<rparr>"

definition sample_rows :: graph_rows where
  "sample_rows = \<lparr>gr_assets = {''q'', ''f''},
     gr_observations = [seen_name EV_PARAMETER_NAME 1 ''1'' ''q'', seen_name EV_FAVICON 2 ''2'' ''f''],
     gr_relationships = [related_names ''r1'' ''q'' ''f'', related_names ''r2'' ''f'' ''q''],
     gr_evidence = [], gr_tasks = []\<rparr>"

definition sample_graph_parameters :: graph_parameters where
  "sample_graph_parameters = \<lparr>gp_digest = (\<lambda>s. s), gp_isofmt = (\<lambda>t. ''t''), gp_public_suffix = (\<lambda>d. d = ''io''),
     gp_fingerprint = (\<lambda>ns es rs. ''f'')\<rparr>"

definition sample_snapshot :: "graph_snapshot res" where
  "sample_snapshot = build_graph sample_graph_parameters default_graph_filter {} ''t'' 2 sample_rows"

definition is_ok :: "'a res \<Rightarrow> bool" where
  "is_ok r = (case r of Inl _ \<Rightarrow> False | Inr _ \<Rightarrow> True)"

lemma is_ok_iff: "is_ok r \<longleftrightarrow> (\<exists>x. r = Inr x)"
  by (cases r) (simp_all add: is_ok_def)

definition chain_edge :: "string \<Rightarrow> string \<Rightarrow> surface_edge" where
  "chain_edge s t = \<lparr>ge_id = [], ge_source = s, ge_target = t, ge_relation = ''RELATED_TO'', ge_confidence = 1,
     ge_first_seen = 0, ge_last_seen = 0, ge_supporting = [], ge_derived = False, ge_metadata = []\<rparr>"

lemma sample_identities:
  "surface_identity b EV_PARAMETER_NAME ''q'' = Inr (Some \<lparr>si_kind = NK_PARAMETER, si_value = ''q''\<rparr>)"
  "surface_identity b EV_FAVICON ''f'' = Inr (Some \<lparr>si_kind = NK_FAVICON, si_value = ''f''\<rparr>)"
proof -
  have "strip ''q'' = ''q''" "strip ''f'' = ''f''" by code_simp+
  then show "surface_identity b EV_PARAMETER_NAME ''q'' = Inr (Some \<lparr>si_kind = NK_PARAMETER, si_value = ''q''\<rparr>)"
    "surface_identity b EV_FAVICON ''f'' = Inr (Some \<lparr>si_kind = NK_FAVICON, si_value = ''f''\<rparr>)"
    by (simp_all add: surface_identity_def Let_def)
qed

lemma sample_ids:
  "node_id_of (\<lambda>s. s) \<lparr>si_kind = NK_PARAMETER, si_value = ''q''\<rparr> = ''sgn_PARAMETER:q''"
  "node_id_of (\<lambda>s. s) \<lparr>si_kind = NK_FAVICON, si_value = ''f''\<rparr> = ''sgn_FAVICON:f''"
  by (simp_all add: node_id_of_def identity_material_def)

lemma round6_bounds: "round6 0 = 0" "round6 1 = 1"
  by code_simp+

lemmas sample_defs = sample_snapshot_def sample_rows_def sample_graph_parameters_def default_graph_filter_def
  empty_assembly_def seen_name_def related_names_def sample_identities sample_ids round6_bounds

lemmas accumulation_defs = accumulate_def observe_def place_def dict_default_def Let_def add_observation_def
  measure_node_def new_node_def earlier_def later_def Surface_Graph.count_def derive_edges_def known_times_def
  by_value_def subdomain_edges_def service_edges_def endpoint_edges_def path_edges_def anchor_edge_def
  anchor_node_def anchor_host_def optional_def stored_edge_def supporting_events_def evidence_events_def given_def
  json_strings_def merge_all_def merge_edge_def edge_key_def

lemmas finishing_defs = build_graph_def finish_graph_def finish_node_def filtered_out_def make_surface_node_def
  discovery_of_def has_tag_def is_set_def merged_scope_def finish_edge_def node_metadata_def unit_interval_def
  node_ids_def

lemma sample_built: "\<exists>g. sample_snapshot = Inr g"
proof -
  have "is_ok sample_snapshot" by (simp add: sample_defs accumulation_defs finishing_defs is_ok_def)
  then show ?thesis by (simp add: is_ok_iff)
qed

subsection \<open>Properties\<close>

text \<open>C34: a snapshot that is built is a graph: its nodes have different identifiers, every edge joins two different nodes
  of it and no two edges have the same source, relation and target; every node is one the filter shows (its
  confidence reaches the minimum, both rounded to six digits, and none is unconfirmed, a hypothesis, historical or out of
  scope unless the filter admits that); the roots are nodes of it; and neither limit is exceeded, so the
  statistics count exactly what is listed.\<close>

theorem snapshot_sound: "build_graph gp f disabled tid now rows = Inr g \<Longrightarrow> snapshot_ok f g"
  by (rule built_snapshot_ok)

theorem snapshot_sound_witness: "\<exists>g. sample_snapshot = Inr g \<and> snapshot_ok default_graph_filter g"
  using sample_built unfolding sample_snapshot_def by (blast intro: snapshot_sound)

text \<open>C35: with a depth limit and a root, the snapshot keeps exactly the nodes that a path of at most that many edges
  joins to a root, and the edges between them: the breadth-first search of the code equals the reference that adds the
  successors of the set once per step.\<close>

theorem depth_limit_exact:
  "roots \<noteq> [] \<Longrightarrow> bounded_subgraph ns es roots (Some d) =
     (filter (\<lambda>n. sn_id n \<in> reach_within es roots d) ns,
      filter (\<lambda>e. ge_source e \<in> reach_within es roots d \<and> ge_target e \<in> reach_within es roots d) es)"
  by (simp add: bounded_subgraph_def within_depth_exact Let_def)

theorem depth_limit_exact_witness:
  "snd (bounded_subgraph [] [chain_edge ''a'' ''b'', chain_edge ''b'' ''c''] [''a''] (Some 1)) = [chain_edge ''a'' ''b'']"
  unfolding depth_limit_exact[of "[''a'']", OF list.distinct(2)]
  by (simp add: chain_edge_def image_iff conj_disj_distribR ex_disj_distrib)

text \<open>C33: the tree projection of a snapshot that is built always ends, raises nothing, and expands every node of the
  snapshot exactly once, whatever cycles its edges form; every other mention of a node is a reference to one that is
  expanded.\<close>

theorem projection_expands_every_node:
  "build_graph gp f disabled tid now rows = Inr g \<Longrightarrow>
   \<exists>p. build_tree_projection isofmt g = Inr p \<and> distinct (opened (tp_tree p))
     \<and> set (opened (tp_tree p)) = node_ids (gn_nodes g)"
  using projected[OF built_graph_ok] by blast

theorem projection_expands_every_node_witness:
  "\<exists>g p. sample_snapshot = Inr g \<and> build_tree_projection (\<lambda>t. ''t'') g = Inr p \<and> distinct (opened (tp_tree p))
     \<and> set (opened (tp_tree p)) = node_ids (gn_nodes g)"
  using sample_built projection_expands_every_node unfolding sample_snapshot_def by blast

text \<open>C36: the tree projection loses no edge and invents none: the edges it shows, as a child of a node or among its
  references, are those of the snapshot, each as often as it occurs there.\<close>

theorem projection_shows_every_edge:
  "build_graph gp f disabled tid now rows = Inr g \<Longrightarrow>
   \<exists>p. build_tree_projection isofmt g = Inr p \<and> shown (tp_tree p) = mset (map edge_triple (gn_edges g))"
  using projected[OF built_graph_ok] by blast

theorem projection_shows_every_edge_witness:
  "\<exists>g p. sample_snapshot = Inr g \<and> build_tree_projection (\<lambda>t. ''t'') g = Inr p
     \<and> shown (tp_tree p) = mset (map edge_triple (gn_edges g))"
  using sample_built projection_shows_every_edge unfolding sample_snapshot_def by blast

end
