(* ===== verification/Confidence.thy ===== *)
theory Confidence
  imports Surface_Identity
begin

section \<open>Confidence aggregation (recon/intelligence/confidence.py)\<close>

text \<open>
  How strongly a set of evidence supports that an observation is real: exact repeats are dropped, the observations
  of one measurement channel are collapsed into a group, groups that share a source family or a causal origin are
  discounted, and what is left is combined by noisy-or, the contradictions against the support. Numbers are exact
  rationals; sets whose elements the code sorts or counts are lists without repetition.
\<close>

fun map_res :: "('a \<Rightarrow> 'b res) \<Rightarrow> 'a list \<Rightarrow> 'b list res" where
  "map_res f [] = Inr []"
| "map_res f (x # xs) = bind_res (f x) (\<lambda>y. bind_res (map_res f xs) (\<lambda>ys. Inr (y # ys)))"

lemma map_res_Inr: "(\<And>x. x \<in> set xs \<Longrightarrow> f x = Inr (g x)) \<Longrightarrow> map_res f xs = Inr (map g xs)"
  by (induction xs) simp_all

subsection \<open>Evidence\<close>

datatype polarity = CP_SUPPORTS | CP_CONTRADICTS

fun polarity_value :: "polarity \<Rightarrow> string" where
  "polarity_value CP_SUPPORTS = ''SUPPORTS''"
| "polarity_value CP_CONTRADICTS = ''CONTRADICTS''"

datatype evidence_class =
    EC_USER_SEED | EC_ACTIVE_CONFIRMATION | EC_ACTIVE_DIFFERENTIAL | EC_PASSIVE_OBSERVATION | EC_STATIC_EXTRACTION
  | EC_HISTORICAL_OBSERVATION | EC_GENERATED_HYPOTHESIS | EC_CORRELATION | EC_REVIEW_SIGNAL | EC_OTHER

fun evidence_class_value :: "evidence_class \<Rightarrow> string" where
  "evidence_class_value EC_USER_SEED = ''USER_SEED''"
| "evidence_class_value EC_ACTIVE_CONFIRMATION = ''ACTIVE_CONFIRMATION''"
| "evidence_class_value EC_ACTIVE_DIFFERENTIAL = ''ACTIVE_DIFFERENTIAL''"
| "evidence_class_value EC_PASSIVE_OBSERVATION = ''PASSIVE_OBSERVATION''"
| "evidence_class_value EC_STATIC_EXTRACTION = ''STATIC_EXTRACTION''"
| "evidence_class_value EC_HISTORICAL_OBSERVATION = ''HISTORICAL_OBSERVATION''"
| "evidence_class_value EC_GENERATED_HYPOTHESIS = ''GENERATED_HYPOTHESIS''"
| "evidence_class_value EC_CORRELATION = ''CORRELATION''"
| "evidence_class_value EC_REVIEW_SIGNAL = ''REVIEW_SIGNAL''"
| "evidence_class_value EC_OTHER = ''OTHER''"

record confidence_evidence =
  ce_id :: string
  ce_subject :: string
  ce_polarity :: polarity
  ce_class :: evidence_class
  ce_source :: string
  ce_family :: string
  ce_provider :: string
  ce_independence :: string
  ce_upstream :: "string option"
  ce_confidence :: rat
  ce_reliability :: rat
  ce_observed_at :: time
  ce_tags :: "string set"
  ce_metadata :: "(string, json) dict"

definition make_confidence_evidence :: "confidence_evidence \<Rightarrow> confidence_evidence res" where
  "make_confidence_evidence i =
     bind_res (not_blank ''must not be blank'' (ce_id i)) (\<lambda>eid.
     bind_res (not_blank ''must not be blank'' (ce_subject i)) (\<lambda>subject.
     bind_res (not_blank ''must not be blank'' (ce_source i)) (\<lambda>source.
     bind_res (not_blank ''must not be blank'' (ce_family i)) (\<lambda>family.
     bind_res (not_blank ''must not be blank'' (ce_provider i)) (\<lambda>provider.
     bind_res (not_blank ''must not be blank'' (ce_independence i)) (\<lambda>independence.
     bind_res (unit_interval ''confidence'' (ce_confidence i)) (\<lambda>_.
     bind_res (unit_interval ''reliability'' (ce_reliability i)) (\<lambda>_.
     Inr (i\<lparr>ce_id := eid, ce_subject := subject, ce_source := source, ce_family := family, ce_provider := provider,
       ce_independence := independence, ce_upstream := opt_text (ce_upstream i),
       ce_tags := (\<lambda>t. lower (strip t)) ` {t \<in> ce_tags i. strip t \<noteq> []}\<rparr>)))))))))"

subsection \<open>Groups and assessments\<close>

record confidence_group =
  cg_independence :: string
  cg_upstream :: "string option"
  cg_polarity :: polarity
  cg_families :: "string list"
  cg_providers :: "string list"
  cg_classes :: "evidence_class list"
  cg_ids :: "string list"
  cg_raw :: rat
  cg_factor :: rat
  cg_effective :: rat
  cg_repeats :: int

definition make_confidence_group :: "confidence_group \<Rightarrow> confidence_group res" where
  "make_confidence_group g =
     bind_res (unit_interval ''raw_strength'' (cg_raw g)) (\<lambda>_.
     bind_res (unit_interval ''dependency_factor'' (cg_factor g)) (\<lambda>_.
     bind_res (unit_interval ''effective_strength'' (cg_effective g)) (\<lambda>_.
     if cg_repeats g < 1 then Inl (ValidationError ''repeated_observations'') else Inr g)))"

record confidence_assessment =
  ca_subject :: string
  ca_prior :: rat
  ca_confidence :: rat
  ca_support :: rat
  ca_contradiction :: rat
  ca_conflict :: rat
  ca_supporting_groups :: int
  ca_contradicting_groups :: int
  ca_family_diversity :: int
  ca_provider_diversity :: int
  ca_evidence_count :: int
  ca_group_count :: int
  ca_groups :: "confidence_group list"
  ca_explanation :: string

definition make_confidence_assessment :: "confidence_assessment \<Rightarrow> confidence_assessment res" where
  "make_confidence_assessment a =
     bind_res (not_blank ''must not be blank'' (ca_subject a)) (\<lambda>subject.
     bind_res (not_blank ''must not be blank'' (ca_explanation a)) (\<lambda>explanation.
     bind_res (unit_interval ''prior'' (ca_prior a)) (\<lambda>_.
     bind_res (unit_interval ''confidence'' (ca_confidence a)) (\<lambda>_.
     bind_res (unit_interval ''support_strength'' (ca_support a)) (\<lambda>_.
     bind_res (unit_interval ''contradiction_strength'' (ca_contradiction a)) (\<lambda>_.
     bind_res (unit_interval ''conflict_score'' (ca_conflict a)) (\<lambda>_.
     if list_ex (\<lambda>n. n < 0) [ca_supporting_groups a, ca_contradicting_groups a, ca_family_diversity a,
          ca_provider_diversity a, ca_evidence_count a, ca_group_count a]
     then Inl (ValidationError ''greater_than_equal'')
     else Inr (a\<lparr>ca_subject := subject, ca_explanation := explanation\<rparr>))))))))"

subsection \<open>Configuration\<close>

record confidence_config =
  cc_default_prior :: rat
  cc_priors :: "(event_type, rat) dict"
  cc_class_weights :: "(evidence_class, rat) dict"
  cc_repeat_discount :: rat
  cc_family_discount :: rat
  cc_upstream_discount :: rat
  cc_contradiction_impact :: rat
  cc_hypothesis_multiplier :: rat
  cc_historical_multiplier :: rat
  cc_correlation_ceiling :: rat

definition default_event_type_priors :: "(event_type, rat) dict" where
  "default_event_type_priors =
     [(EV_ROOT_DOMAIN, 45/100), (EV_DNS_NAME, 10/100), (EV_DNS_RECORD, 12/100), (EV_IP_ADDRESS, 10/100),
      (EV_ASN, 10/100), (EV_CIDR, 10/100), (EV_URL, 8/100), (EV_URL_PATH, 8/100), (EV_HTTP_SERVICE, 12/100),
      (EV_HTTP_RESPONSE, 15/100), (EV_CERTIFICATE, 12/100), (EV_CERT_SAN, 8/100), (EV_FAVICON, 10/100),
      (EV_TECHNOLOGY, 10/100), (EV_FINGERPRINT, 8/100), (EV_JAVASCRIPT, 8/100), (EV_API_ENDPOINT, 8/100),
      (EV_PARAMETER_NAME, 8/100), (EV_ARTIFACT, 8/100), (EV_MOBILE_ARTIFACT, 20/100), (EV_PROJECT_NAME, 8/100),
      (EV_VOCAB_TOKEN, 6/100), (EV_NAMING_PATTERN, 6/100), (EV_VULNERABILITY_CANDIDATE, 18/100),
      (EV_VULNERABILITY_FINDING, 55/100), (EV_RELATIONSHIP, 8/100), (EV_POLICY_BLOCK, 90/100),
      (EV_HUMAN_REVIEW, 15/100)]"

definition default_class_weights :: "(evidence_class, rat) dict" where
  "default_class_weights =
     [(EC_USER_SEED, 99/100), (EC_ACTIVE_CONFIRMATION, 1), (EC_ACTIVE_DIFFERENTIAL, 90/100),
      (EC_PASSIVE_OBSERVATION, 78/100), (EC_STATIC_EXTRACTION, 72/100), (EC_HISTORICAL_OBSERVATION, 62/100),
      (EC_GENERATED_HYPOTHESIS, 40/100), (EC_CORRELATION, 34/100), (EC_REVIEW_SIGNAL, 70/100), (EC_OTHER, 55/100)]"

definition default_confidence_config :: confidence_config where
  "default_confidence_config =
     \<lparr>cc_default_prior = 10/100, cc_priors = default_event_type_priors, cc_class_weights = default_class_weights,
      cc_repeat_discount = 15/100, cc_family_discount = 55/100, cc_upstream_discount = 40/100,
      cc_contradiction_impact = 92/100, cc_hypothesis_multiplier = 55/100, cc_historical_multiplier = 90/100,
      cc_correlation_ceiling = 45/100\<rparr>"

fun units_in_range :: "string \<Rightarrow> rat list \<Rightarrow> unit res" where
  "units_in_range msg [] = Inr ()"
| "units_in_range msg (x # xs) = bind_res (unit_interval msg x) (\<lambda>_. units_in_range msg xs)"

definition make_confidence_config :: "confidence_config \<Rightarrow> confidence_config res" where
  "make_confidence_config c =
     bind_res (units_in_range ''0..1'' [cc_default_prior c, cc_repeat_discount c, cc_family_discount c,
       cc_upstream_discount c, cc_contradiction_impact c, cc_hypothesis_multiplier c, cc_historical_multiplier c,
       cc_correlation_ceiling c]) (\<lambda>_.
     bind_res (units_in_range ''prior must be between 0 and 1'' (dict_values (cc_priors c))) (\<lambda>_.
     bind_res (units_in_range ''class weight must be 0..1'' (dict_values (cc_class_weights c))) (\<lambda>_. Inr c)))"

subsection \<open>Strength\<close>

definition clamp_unit :: "rat \<Rightarrow> rat" where
  "clamp_unit x = min 1 (max 0 x)"

definition combine_noisy_or :: "rat list \<Rightarrow> rat" where
  "combine_noisy_or values =
     (if values = [] then 0
      else clamp_unit (1 - foldl (\<lambda>product v. product * (1 - clamp_unit v)) 1 values))"

text \<open>The fallback weight is looked up before the class is: a table without \<open>OTHER\<close> raises for every class.\<close>

definition evidence_raw_strength :: "confidence_config \<Rightarrow> confidence_evidence \<Rightarrow> rat res" where
  "evidence_raw_strength cfg i =
     (case dict_get (cc_class_weights cfg) EC_OTHER of
        None \<Rightarrow> Inl (KeyError ''OTHER'')
      | Some fallback \<Rightarrow>
          let strength = ce_confidence i * ce_reliability i * dict_default (cc_class_weights cfg) (ce_class i) fallback;
              strength = (if ce_class i = EC_CORRELATION then min strength (cc_correlation_ceiling cfg) else strength)
          in Inr (clamp_unit strength))"

subsection \<open>Groups\<close>

type_synonym group_key = "string \<times> polarity"

definition group_key_of :: "confidence_evidence \<Rightarrow> group_key" where
  "group_key_of i = (ce_independence i, ce_polarity i)"

definition add_member ::
  "confidence_evidence \<Rightarrow> (group_key, confidence_evidence list) dict \<Rightarrow> (group_key, confidence_evidence list) dict" where
  "add_member i d = dict_set (group_key_of i) (dict_default d (group_key_of i) [] @ [i]) d"

definition group_evidence :: "confidence_evidence list \<Rightarrow> (group_key, confidence_evidence list) dict" where
  "group_evidence xs = foldl (\<lambda>d i. add_member i d) [] xs"

fun present :: "'a option list \<Rightarrow> 'a list" where
  "present [] = []"
| "present (None # xs) = present xs"
| "present (Some x # xs) = x # present xs"

definition only_upstream :: "string option list \<Rightarrow> string option" where
  "only_upstream ups = (case remdups (present ups) of [u] \<Rightarrow> Some u | _ \<Rightarrow> None)"

definition group_strength :: "confidence_config \<Rightarrow> rat list \<Rightarrow> rat" where
  "group_strength cfg strengths =
     (let strongest = hd strengths;
          bonus = combine_noisy_or (map (\<lambda>s. s * cc_repeat_discount cfg) (tl strengths))
      in strongest + (1 - strongest) * bonus)"

definition order_members :: "(rat \<times> confidence_evidence) list \<Rightarrow> (rat \<times> confidence_evidence) list" where
  "order_members ms = sort_key (\<lambda>m. (- fst m, ce_id (snd m))) ms"

definition collapse_group ::
  "confidence_config \<Rightarrow> group_key \<times> confidence_evidence list \<Rightarrow> confidence_group res" where
  "collapse_group cfg kms =
     (case kms of ((independence, pol), members) \<Rightarrow>
      bind_res (map_res (evidence_raw_strength cfg) members) (\<lambda>ss.
        let ms = order_members (zip ss members);
            ordered = map snd ms;
            strength = group_strength cfg (map fst ms)
        in make_confidence_group
             \<lparr>cg_independence = independence, cg_upstream = only_upstream (map ce_upstream ordered), cg_polarity = pol,
              cg_families = sort (remdups (map ce_family ordered)),
              cg_providers = sort (remdups (map ce_provider ordered)),
              cg_classes = sort_key evidence_class_value (remdups (map ce_class ordered)),
              cg_ids = map ce_id ordered,
              cg_raw = clamp_unit strength, cg_factor = 1, cg_effective = clamp_unit strength,
              cg_repeats = int (length ordered)\<rparr>))"

definition collapse_evidence_groups ::
  "confidence_config \<Rightarrow> confidence_evidence list \<Rightarrow> confidence_group list res" where
  "collapse_evidence_groups cfg evidence =
     bind_res (map_res (collapse_group cfg) (group_evidence evidence)) (\<lambda>gs.
       Inr (sort_key (\<lambda>g. (polarity_value (cg_polarity g), - cg_raw g, cg_independence g)) gs))"

subsection \<open>Dependency discounts\<close>

type_synonym counter = "(string, nat) dict"

definition count_of :: "counter \<Rightarrow> string \<Rightarrow> nat" where
  "count_of c k = dict_default c k 0"

definition bump :: "string \<Rightarrow> counter \<Rightarrow> counter" where
  "bump k c = dict_set k (count_of c k + 1) c"

definition dependency_factor :: "confidence_config \<Rightarrow> counter \<Rightarrow> counter \<Rightarrow> confidence_group \<Rightarrow> rat" where
  "dependency_factor cfg families upstreams g =
     (if list_ex (\<lambda>f. 0 < count_of families f) (cg_families g) then cc_family_discount cfg else 1)
     * (case cg_upstream g of None \<Rightarrow> 1 | Some u \<Rightarrow> if 0 < count_of upstreams u then cc_upstream_discount cfg else 1)"

fun discount_groups ::
  "confidence_config \<Rightarrow> counter \<Rightarrow> counter \<Rightarrow> confidence_group list \<Rightarrow> confidence_group list" where
  "discount_groups cfg families upstreams [] = []"
| "discount_groups cfg families upstreams (g # gs) =
     (let factor = dependency_factor cfg families upstreams g
      in g\<lparr>cg_factor := factor, cg_effective := clamp_unit (cg_raw g * factor)\<rparr>
         # discount_groups cfg (fold bump (cg_families g) families)
             (case cg_upstream g of None \<Rightarrow> upstreams | Some u \<Rightarrow> bump u upstreams) gs)"

definition discount_polarity :: "confidence_config \<Rightarrow> confidence_group list \<Rightarrow> polarity \<Rightarrow> confidence_group list" where
  "discount_polarity cfg gs p =
     discount_groups cfg [] [] (sort_key (\<lambda>g. (- cg_raw g, cg_independence g)) (filter (\<lambda>g. cg_polarity g = p) gs))"

definition apply_dependency_discounts :: "confidence_config \<Rightarrow> confidence_group list \<Rightarrow> confidence_group list" where
  "apply_dependency_discounts cfg gs =
     sort_key (\<lambda>g. (polarity_value (cg_polarity g), - cg_effective g, cg_independence g))
       (discount_polarity cfg gs CP_SUPPORTS @ discount_polarity cfg gs CP_CONTRADICTS)"

subsection \<open>The assessment\<close>

text \<open>\<open>f"{x:.3f}"\<close> for a number that is not negative.\<close>

definition show_fixed3 :: "rat \<Rightarrow> string" where
  "show_fixed3 x =
     (let n = nat (round_half_even (x * 1000))
      in numeral 10 (n div 1000) @ ''.''
         @ map (\<lambda>d. char_of (48 + d)) [n div 100 mod 10, n div 10 mod 10, n mod 10])"

definition show_count :: "int \<Rightarrow> string" where
  "show_count n = numeral 10 (nat n)"

definition build_confidence_explanation :: "rat \<Rightarrow> int \<Rightarrow> int \<Rightarrow> int \<Rightarrow> rat \<Rightarrow> string" where
  "build_confidence_explanation confidence supporting contradicting families conflict =
     (if supporting = 0 \<and> contradicting = 0 then ''no normalized evidence beyond the configured prior''
      else join ''; ''
        ([show_count supporting @ '' supporting independent group(s)'',
          show_count families @ '' source family/families'']
         @ (if contradicting \<noteq> 0 then [show_count contradicting @ '' contradicting group(s)''] else [])
         @ (if 35/100 \<le> conflict then [''material evidence conflict''] else [])
         @ [''aggregate confidence '' @ show_fixed3 confidence]))"

fun dedupe_evidence ::
  "confidence_config \<Rightarrow> string \<Rightarrow> confidence_evidence list \<Rightarrow> (string, confidence_evidence) dict
    \<Rightarrow> (string, confidence_evidence) dict res" where
  "dedupe_evidence cfg subject [] d = Inr d"
| "dedupe_evidence cfg subject (i # xs) d =
     (if ce_subject i \<noteq> subject then dedupe_evidence cfg subject xs d
      else case dict_get d (ce_id i) of
          None \<Rightarrow> dedupe_evidence cfg subject xs (dict_set (ce_id i) i d)
        | Some existing \<Rightarrow>
            bind_res (evidence_raw_strength cfg i) (\<lambda>s.
            bind_res (evidence_raw_strength cfg existing) (\<lambda>t.
              dedupe_evidence cfg subject xs (if t < s then dict_set (ce_id i) i d else d))))"

definition strengths_of :: "polarity \<Rightarrow> confidence_group list \<Rightarrow> rat list" where
  "strengths_of p gs = map cg_effective (filter (\<lambda>g. cg_polarity g = p) gs)"

definition assessment_of ::
  "confidence_config \<Rightarrow> string \<Rightarrow> event_type \<Rightarrow> confidence_evidence list \<Rightarrow> confidence_group list
    \<Rightarrow> confidence_assessment" where
  "assessment_of cfg subject ty evidence gs =
     (let support = combine_noisy_or (strengths_of CP_SUPPORTS gs);
          contradiction = combine_noisy_or (strengths_of CP_CONTRADICTS gs);
          prior = dict_default (cc_priors cfg) ty (cc_default_prior cfg);
          after_support = prior + (1 - prior) * support;
          final = clamp_unit (after_support * (1 - contradiction * cc_contradiction_impact cfg));
          families = remdups (map ce_family evidence);
          providers = remdups (map ce_provider evidence);
          supporting = int (length (filter (\<lambda>g. cg_polarity g = CP_SUPPORTS) gs));
          contradicting = int (length (filter (\<lambda>g. cg_polarity g = CP_CONTRADICTS) gs));
          conflict = min support contradiction
      in \<lparr>ca_subject = subject, ca_prior = prior, ca_confidence = final, ca_support = support,
          ca_contradiction = contradiction, ca_conflict = conflict, ca_supporting_groups = supporting,
          ca_contradicting_groups = contradicting, ca_family_diversity = int (length families),
          ca_provider_diversity = int (length providers), ca_evidence_count = int (length evidence),
          ca_group_count = int (length gs), ca_groups = gs,
          ca_explanation = build_confidence_explanation final supporting contradicting (int (length families)) conflict\<rparr>)"

definition assess_confidence ::
  "confidence_config \<Rightarrow> string \<Rightarrow> event_type \<Rightarrow> confidence_evidence list \<Rightarrow> confidence_assessment res" where
  "assess_confidence cfg subject ty evidence =
     bind_res (dedupe_evidence cfg subject evidence []) (\<lambda>d.
     bind_res (collapse_evidence_groups cfg (dict_values d)) (\<lambda>gs.
     make_confidence_assessment (assessment_of cfg subject ty (dict_values d) (apply_dependency_discounts cfg gs))))"

section \<open>Evidence of events and the confidence model (recon/intelligence/confidence.py)\<close>

text \<open>
  How an event becomes a piece of evidence: its class, polarity, reliability and the keys of its subject, its
  causal origin and its measurement channel; and \<open>ConfidenceModel\<close>, which asks an evidence provider for what
  storage knows and assesses it together with the event's own evidence. The provider is an argument.
\<close>

subsection \<open>Strings and metadata\<close>

definition normalized_event_tags :: "event \<Rightarrow> string set" where
  "normalized_event_tags e = (\<lambda>t. lower (strip t)) ` {t \<in> ev_tags e. strip t \<noteq> []}"

definition carries_tag :: "string \<Rightarrow> event \<Rightarrow> bool" where
  "carries_tag tag e \<longleftrightarrow> tag \<in> normalized_event_tags e"

text \<open>\<open>event.metadata.get(key) is True\<close>, and a text entry that is not blank.\<close>

definition meta_flag :: "string \<Rightarrow> event \<Rightarrow> bool" where
  "meta_flag key e \<longleftrightarrow> dict_get (ev_metadata e) key = Some (J_bool True)"

definition text_value :: "json option \<Rightarrow> string option" where
  "text_value v = (case v of Some (J_string s) \<Rightarrow> if strip s = [] then None else Some (strip s) | _ \<Rightarrow> None)"

definition meta_text :: "string \<Rightarrow> event \<Rightarrow> string option" where
  "meta_text key e = text_value (dict_get (ev_metadata e) key)"

fun first_string_metadata :: "event \<Rightarrow> string list \<Rightarrow> string option" where
  "first_string_metadata e [] = None"
| "first_string_metadata e (k # ks) =
     (case meta_text k e of Some v \<Rightarrow> Some v | None \<Rightarrow> first_string_metadata e ks)"

text \<open>\<open>s.split(marker, 1)[0]\<close>.\<close>

fun until_marker :: "string \<Rightarrow> string \<Rightarrow> string" where
  "until_marker marker [] = []"
| "until_marker marker (c # s) = (if prefix marker (c # s) then [] else c # until_marker marker s)"

definition confidence_source_family :: "string \<Rightarrow> string" where
  "confidence_source_family source =
     (let normalized = lower (strip source)
      in if normalized = [] then ''unknown''
         else let family = before CHR '':'' normalized in if family = [] then ''unknown'' else family)"

definition confidence_source_provider :: "string \<Rightarrow> string" where
  "confidence_source_provider source =
     (let normalized = lower (strip source)
      in if normalized = [] then ''unknown''
         else let parts = filter (\<lambda>p. p \<noteq> []) (split_on CHR '':'' normalized)
              in if length parts \<le> 1 then (if parts \<noteq> [] then hd parts else ''unknown'')
                 else join '':'' (take 2 parts))"

definition normalize_dnsish :: "string \<Rightarrow> string" where
  "normalize_dnsish v =
     (let normalized = rstrip_dots (lower (strip v))
      in if prefix ''*.'' normalized then drop 2 normalized else normalized)"

text \<open>\<open>urlunsplit((scheme, netloc, path, query, ""))\<close> when the network location may be empty: the slashes are kept for
  the schemes the standard library lists.\<close>

definition uses_netloc :: "string list" where
  "uses_netloc = [''ftp'', ''http'', ''gopher'', ''nntp'', ''telnet'', ''imap'', ''wais'', ''file'', ''mms'', ''https'',
     ''shttp'', ''snews'', ''prospero'', ''rtsp'', ''rtsps'', ''rtspu'', ''rsync'', ''svn'', ''svn+ssh'', ''sftp'',
     ''nfs'', ''git'', ''git+ssh'', ''ws'', ''wss'', ''itms-services'']"

definition unsplit_url :: "string \<Rightarrow> string \<Rightarrow> string \<Rightarrow> string \<Rightarrow> string" where
  "unsplit_url scheme netloc path query =
     (if netloc \<noteq> [] then urlunsplit scheme netloc path query
      else scheme @ '':''
        @ (if take 2 path = ''//'' then ''//'' @ path
           else if scheme \<in> set uses_netloc \<and> (path = [] \<or> hd path = CHR ''/'') then ''//'' @ path
           else path)
        @ (if query = [] then [] else ''?'' @ query))"

text \<open>Only the split is guarded: an invalid port raises out of the function.\<close>

definition normalize_urlish :: "string \<Rightarrow> string res" where
  "normalize_urlish v =
     (let raw = strip v
      in case urlsplit raw of
           Inl _ \<Rightarrow> Inr (lower raw)
         | Inr u \<Rightarrow>
             if u_scheme u = [] \<or> u_netloc u = [] then Inr (lower raw)
             else
               let host = (case hostname u of None \<Rightarrow> [] | Some h \<Rightarrow> lower h);
                   scheme = lower (u_scheme u)
               in bind_res (port u) (\<lambda>p.
                    let netloc = (case p of
                          None \<Rightarrow> host
                        | Some n \<Rightarrow> if scheme = ''http'' \<and> n = 80 \<or> scheme = ''https'' \<and> n = 443 then host
                                    else host @ '':'' @ numeral 10 n)
                    in Inr (unsplit_url scheme netloc (if u_path u = [] then ''/'' else u_path u) (u_query u))))"

definition normalize_hashish :: "string \<Rightarrow> string" where
  "normalize_hashish v = filter (\<lambda>c. c \<in> set ''0123456789abcdef'') (lower (strip v))"

text \<open>The markers in the order the code tries them; the first that occurs decides.\<close>

fun marked_owner :: "string \<Rightarrow> string list \<Rightarrow> string option option" where
  "marked_owner v [] = None"
| "marked_owner v (m # ms) =
     (if contains m v
      then let candidate = strip (until_marker m v)
           in Some (if candidate = [] then None else Some (normalize_dnsish candidate))
      else marked_owner v ms)"

definition owner_of_value :: "string \<Rightarrow> string option" where
  "owner_of_value v =
     (case marked_owner v ['' RCODE '', '' A NODATA'', '' AAAA NODATA'', '' CNAME NODATA''] of
        Some owner \<Rightarrow> owner
      | None \<Rightarrow> let pieces = split_words v
                in if 3 \<le> length pieces then Some (normalize_dnsish (hd pieces)) else None)"

definition dns_record_owner :: "event \<Rightarrow> string option" where
  "dns_record_owner e =
     (case meta_text ''owner'' e of
        Some owner \<Rightarrow> Some (normalize_dnsish owner)
      | None \<Rightarrow> owner_of_value (strip (ev_value e)))"

fun first_listed_text :: "json list \<Rightarrow> string option" where
  "first_listed_text [] = None"
| "first_listed_text (v # vs) = (case text_value (Some v) of Some s \<Rightarrow> Some s | None \<Rightarrow> first_listed_text vs)"

definition first_certificate_fingerprint :: "event \<Rightarrow> string option" where
  "first_certificate_fingerprint e =
     (case meta_text ''fingerprint_sha256'' e of
        Some direct \<Rightarrow> Some (normalize_hashish direct)
      | None \<Rightarrow>
          (case dict_get (ev_metadata e) ''surface_state'' of
             Some (J_object surface) \<Rightarrow>
               (case dict_get surface ''certificate_fingerprints'' of
                  Some (J_string s) \<Rightarrow> map_option normalize_hashish (text_value (Some (J_string s)))
                | Some (J_list vs) \<Rightarrow> map_option normalize_hashish (first_listed_text vs)
                | _ \<Rightarrow> None)
           | _ \<Rightarrow> None))"

subsection \<open>Class, polarity and reliability\<close>

definition event_is_confirmed :: "event \<Rightarrow> bool" where
  "event_is_confirmed e \<longleftrightarrow> carries_tag ''confirmed'' e \<or> carries_tag ''vhost-confirmed'' e
     \<or> meta_flag ''confirmed'' e \<or> meta_flag ''active_confirmation'' e"

definition event_is_historical :: "event \<Rightarrow> bool" where
  "event_is_historical e \<longleftrightarrow> carries_tag ''historical'' e \<or> carries_tag ''archive'' e
     \<or> confidence_source_family (ev_source e) \<in> {''archives'', ''archive''}
     \<or> dict_get (ev_metadata e) ''archive_observed_at'' \<noteq> None"

definition event_is_hypothesis :: "event \<Rightarrow> bool" where
  "event_is_hypothesis e \<longleftrightarrow> carries_tag ''hypothesis'' e \<or> meta_flag ''hypothesis'' e
     \<or> meta_flag ''requires_dns_confirmation'' e \<or> meta_flag ''requires_scope_reclassification'' e"

definition classify_event_evidence :: "event \<Rightarrow> evidence_class" where
  "classify_event_evidence e =
     (let family = confidence_source_family (ev_source e)
      in if ev_type e = EV_ROOT_DOMAIN \<and> (carries_tag ''seed'' e \<or> family \<in> {''seed'', ''user'', ''manual''})
         then EC_USER_SEED
         else if carries_tag ''negative'' e \<or> meta_flag ''negative'' e then EC_ACTIVE_CONFIRMATION
         else if event_is_confirmed e \<and> (carries_tag ''vhost-confirmed'' e \<or> carries_tag ''differential'' e \<or> family = ''vhost'')
         then EC_ACTIVE_DIFFERENTIAL
         else if event_is_confirmed e \<and> family \<in> {''dns'', ''http'', ''tls'', ''crawler'', ''parameters'', ''content''}
         then EC_ACTIVE_CONFIRMATION
         else if event_is_historical e then EC_HISTORICAL_OBSERVATION
         else if event_is_hypothesis e then EC_GENERATED_HYPOTHESIS
         else if ev_type e = EV_VULNERABILITY_FINDING \<and> carries_tag ''nuclei-match'' e \<and> family = ''nuclei''
         then EC_ACTIVE_DIFFERENTIAL
         else if ev_type e = EV_FINGERPRINT \<or> family = ''fingerprints'' then EC_CORRELATION
         else if ev_type e = EV_HUMAN_REVIEW then EC_REVIEW_SIGNAL
         else if family \<in> {''javascript'', ''mobile'', ''vocabulary'', ''patterns''} \<or> carries_tag ''local-static-analysis'' e
         then EC_STATIC_EXTRACTION
         else if family \<in> {''archives'', ''archive'', ''subfinder'', ''asn'', ''passive''} then EC_PASSIVE_OBSERVATION
         else if ev_type e \<in> {EV_CERT_SAN, EV_TECHNOLOGY, EV_PARAMETER_NAME, EV_PROJECT_NAME, EV_VOCAB_TOKEN,
                               EV_NAMING_PATTERN} then EC_STATIC_EXTRACTION
         else EC_OTHER)"

definition classify_event_polarity :: "event \<Rightarrow> polarity" where
  "classify_event_polarity e =
     (if carries_tag ''negative'' e \<or> carries_tag ''nxdomain'' e \<or> carries_tag ''nodata'' e \<or> meta_flag ''negative'' e
      then CP_CONTRADICTS else CP_SUPPORTS)"

definition event_reliability_modifier :: "event \<Rightarrow> evidence_class \<Rightarrow> confidence_config \<Rightarrow> rat" where
  "event_reliability_modifier e cls cfg =
     (let r = 1;
          r = (if event_is_hypothesis e then r * cc_hypothesis_multiplier cfg else r);
          r = (if event_is_historical e then r * cc_historical_multiplier cfg else r);
          r = (if cls = EC_CORRELATION then r * (90/100) else r);
          r = (if ev_type e = EV_HUMAN_REVIEW \<and> carries_tag ''possible-secret'' e then r * (75/100) else r)
      in clamp_unit r)"

subsection \<open>Keys\<close>

definition typed_key :: "event \<Rightarrow> string" where
  "typed_key e = lower (event_type_value (ev_type e)) @ '':'' @ lower (strip (ev_value e))"

definition confidence_subject_key :: "event \<Rightarrow> string res" where
  "confidence_subject_key e =
     (case meta_text ''confidence_subject_key'' e of
        Some explicit \<Rightarrow> Inr (lower explicit)
      | None \<Rightarrow>
          if ev_type e \<in> {EV_DNS_NAME, EV_CERT_SAN} then Inr (''dns:'' @ normalize_dnsish (ev_value e))
          else if ev_type e = EV_DNS_RECORD
          then Inr (case dns_record_owner e of Some owner \<Rightarrow> ''dns:'' @ owner | None \<Rightarrow> typed_key e)
          else if ev_type e = EV_IP_ADDRESS then Inr (''ip:'' @ lower (strip (ev_value e)))
          else if ev_type e \<in> {EV_URL, EV_API_ENDPOINT, EV_JAVASCRIPT}
          then bind_res (normalize_urlish (ev_value e)) (\<lambda>u. Inr (''url:'' @ u))
          else if ev_type e = EV_HTTP_SERVICE
          then bind_res (normalize_urlish (ev_value e)) (\<lambda>u. Inr (''http-service:'' @ u))
          else if ev_type e = EV_HTTP_RESPONSE
          then (case first_string_metadata e [''url'', ''service_url'', ''observed_on''] of
                  Some url \<Rightarrow> bind_res (normalize_urlish url) (\<lambda>u. Inr (''http-response:'' @ u))
                | None \<Rightarrow> Inr (typed_key e))
          else if ev_type e = EV_CERTIFICATE
          then Inr (case first_certificate_fingerprint e of Some f \<Rightarrow> ''certificate:'' @ f | None \<Rightarrow> typed_key e)
          else Inr (typed_key e))"

definition explicit_upstream_key :: "event \<Rightarrow> string option \<Rightarrow> evidence_class \<Rightarrow> string option" where
  "explicit_upstream_key e causal_root cls =
     (case meta_text ''confidence_upstream_key'' e of
        Some explicit \<Rightarrow> Some explicit
      | None \<Rightarrow>
          (case opt_text causal_root of
             Some r \<Rightarrow> Some r
           | None \<Rightarrow> if cls \<in> {EC_ACTIVE_CONFIRMATION, EC_ACTIVE_DIFFERENTIAL, EC_USER_SEED} then None
                     else parent_event_id e))"

definition explicit_independence_key ::
  "event \<Rightarrow> string \<Rightarrow> string \<Rightarrow> string option \<Rightarrow> evidence_class \<Rightarrow> string" where
  "explicit_independence_key e subject provider upstream cls =
     (case meta_text ''confidence_independence_key'' e of
        Some explicit \<Rightarrow> explicit
      | None \<Rightarrow>
          if cls \<in> {EC_ACTIVE_CONFIRMATION, EC_ACTIVE_DIFFERENTIAL} then ''measurement:'' @ provider @ '':'' @ subject
          else (case upstream of
                  Some u \<Rightarrow> ''derived:'' @ provider @ '':'' @ u
                | None \<Rightarrow> ''source:'' @ provider @ '':'' @ subject))"

text \<open>\<open>subject_key or confidence_subject_key(event)\<close>.\<close>

definition subject_or_key :: "string option \<Rightarrow> event \<Rightarrow> string res" where
  "subject_or_key subject e =
     (case subject of Some s \<Rightarrow> if s \<noteq> [] then Inr s else confidence_subject_key e | None \<Rightarrow> confidence_subject_key e)"

definition event_to_confidence_evidence ::
  "confidence_config \<Rightarrow> string option \<Rightarrow> string option \<Rightarrow> event \<Rightarrow> confidence_evidence res" where
  "event_to_confidence_evidence cfg subject_key causal_root e =
     bind_res (subject_or_key subject_key e) (\<lambda>subject.
     let cls = classify_event_evidence e;
         pol = classify_event_polarity e;
         source = strip (ev_source e);
         provider = confidence_source_provider source;
         upstream = explicit_upstream_key e causal_root cls
     in make_confidence_evidence
          \<lparr>ce_id = event_id e, ce_subject = subject, ce_polarity = pol, ce_class = cls, ce_source = source,
           ce_family = confidence_source_family source, ce_provider = provider,
           ce_independence = explicit_independence_key e subject provider upstream cls, ce_upstream = upstream,
           ce_confidence = ev_confidence e, ce_reliability = event_reliability_modifier e cls cfg,
           ce_observed_at = last_seen e, ce_tags = ev_tags e,
           ce_metadata = [(''event_type'', J_string (event_type_value (ev_type e))),
             (''confirmed'', J_bool (event_is_confirmed e)), (''historical'', J_bool (event_is_historical e)),
             (''hypothesis'', J_bool (event_is_hypothesis e)), (''negative'', J_bool (pol = CP_CONTRADICTS))]\<rparr>)"

subsection \<open>Providers and the model\<close>

type_synonym confidence_provider = "event \<Rightarrow> string \<Rightarrow> confidence_evidence list res"

definition empty_provider :: confidence_provider where
  "empty_provider e subject = Inr []"

definition static_provider :: "confidence_evidence list \<Rightarrow> confidence_provider" where
  "static_provider evidence e subject = Inr (filter (\<lambda>i. ce_subject i = subject) evidence)"

definition model_assess ::
  "confidence_provider \<Rightarrow> confidence_config \<Rightarrow> string option \<Rightarrow> string option \<Rightarrow> event \<Rightarrow> confidence_assessment res" where
  "model_assess provider cfg subject_key causal_root e =
     bind_res (subject_or_key subject_key e) (\<lambda>subject.
     bind_res (provider e subject) (\<lambda>external.
     bind_res (event_to_confidence_evidence cfg (Some subject) causal_root e) (\<lambda>own.
     assess_confidence cfg subject (ev_type e) (own # external))))"

definition group_summary :: "confidence_group \<Rightarrow> json" where
  "group_summary g = J_object
     [(''independence_key'', J_string (cg_independence g)),
      (''upstream_key'', case cg_upstream g of None \<Rightarrow> J_null | Some u \<Rightarrow> J_string u),
      (''polarity'', J_string (polarity_value (cg_polarity g))),
      (''source_families'', J_list (map J_string (cg_families g))),
      (''source_providers'', J_list (map J_string (cg_providers g))),
      (''evidence_classes'', J_list (map (\<lambda>c. J_string (evidence_class_value c)) (cg_classes g))),
      (''evidence_ids'', J_list (map J_string (cg_ids g))),
      (''raw_strength'', J_number (cg_raw g)),
      (''dependency_factor'', J_number (cg_factor g)),
      (''effective_strength'', J_number (cg_effective g)),
      (''repeated_observations'', J_number (of_int (cg_repeats g)))]"

definition confidence_assessment_summary :: "confidence_assessment \<Rightarrow> (string \<times> json) list" where
  "confidence_assessment_summary a =
     [(''subject_key'', J_string (ca_subject a)),
      (''prior'', J_number (ca_prior a)),
      (''confidence'', J_number (ca_confidence a)),
      (''support_strength'', J_number (ca_support a)),
      (''contradiction_strength'', J_number (ca_contradiction a)),
      (''conflict_score'', J_number (ca_conflict a)),
      (''supporting_groups'', J_number (of_int (ca_supporting_groups a))),
      (''contradicting_groups'', J_number (of_int (ca_contradicting_groups a))),
      (''source_family_diversity'', J_number (of_int (ca_family_diversity a))),
      (''source_provider_diversity'', J_number (of_int (ca_provider_diversity a))),
      (''evidence_count'', J_number (of_int (ca_evidence_count a))),
      (''independent_group_count'', J_number (of_int (ca_group_count a))),
      (''explanation'', J_string (ca_explanation a)),
      (''groups'', J_list (map group_summary (ca_groups a))),
      (''scope_inference'', J_bool False),
      (''ownership_inference'', J_bool False)]"

definition model_apply ::
  "confidence_provider \<Rightarrow> confidence_config \<Rightarrow> string option \<Rightarrow> string option \<Rightarrow> event \<Rightarrow> event res" where
  "model_apply provider cfg subject_key causal_root e =
     bind_res (model_assess provider cfg subject_key causal_root e) (\<lambda>a.
     Inr (e\<lparr>ev_confidence := ca_confidence a,
            ev_metadata := dict_set ''confidence_assessment'' (J_object (confidence_assessment_summary a)) (ev_metadata e)\<rparr>))"

end
