(* ===== verification/Confidence_Properties.thy ===== *)
theory Confidence_Properties
  imports Confidence
begin

section \<open>Properties of the confidence aggregation\<close>

text \<open>
  The arithmetic of noisy-or, the strength of evidence, and what deduplication, grouping and the dependency
  discounts do to it: every number of an assessment stays in the unit interval, exact repeats and the order of the
  evidence do not count, and dependent evidence never counts for more than independent evidence would.
\<close>

subsection \<open>Noisy-or\<close>

named_theorems unit_intros \<open>membership in the unit interval\<close>

definition unit :: "rat \<Rightarrow> bool" where
  "unit x \<longleftrightarrow> 0 \<le> x \<and> x \<le> 1"

lemma unit_clamp [simp, unit_intros]: "unit (clamp_unit x)"
  by (simp add: unit_def clamp_unit_def)

lemma clamp_id [simp]: "unit x \<Longrightarrow> clamp_unit x = x"
  by (simp add: unit_def clamp_unit_def)

lemma unit_01 [simp, unit_intros]: "unit 0" "unit 1"
  by (simp_all add: unit_def)

lemma unit_mult [simp, unit_intros]: "unit x \<Longrightarrow> unit y \<Longrightarrow> unit (x * y)"
  by (simp add: unit_def mult_le_one)

lemma unit_compl [simp, unit_intros]: "unit x \<Longrightarrow> unit (1 - x)"
  by (simp add: unit_def)

lemma unit_or: "unit x \<Longrightarrow> unit y \<Longrightarrow> unit (x + (1 - x) * y)"
proof -
  assume "unit x" "unit y"
  then have "unit (1 - (1 - x) * (1 - y))" by (intro unit_intros)
  then show ?thesis by (simp add: algebra_simps)
qed

lemma unit_min [simp, unit_intros]: "unit x \<Longrightarrow> unit y \<Longrightarrow> unit (min x y)"
  by (simp add: unit_def min_def)

lemma unit_prod: "list_all unit xs \<Longrightarrow> unit (prod_list (map (\<lambda>v. 1 - v) xs))"
  by (induction xs) (simp_all add: unit_mult)

lemma foldl_prod:
  fixes a :: rat
  shows "foldl (\<lambda>p v. p * g v) a xs = a * prod_list (map g xs)"
  by (induction xs arbitrary: a) (simp_all add: algebra_simps)

lemma noisy_or_prod:
  assumes "list_all unit xs"
  shows "combine_noisy_or xs = 1 - prod_list (map (\<lambda>v. 1 - v) xs)"
proof -
  have "map (\<lambda>v. 1 - clamp_unit v) xs = map (\<lambda>v. 1 - v) xs" using assms by (induction xs) simp_all
  then have "combine_noisy_or xs = (if xs = [] then 0 else clamp_unit (1 - prod_list (map (\<lambda>v. 1 - v) xs)))"
    by (simp only: combine_noisy_or_def foldl_prod mult_1)
  moreover have "unit (1 - prod_list (map (\<lambda>v. 1 - v) xs))" using unit_prod[OF assms] by simp
  ultimately show ?thesis by simp
qed

lemma unit_noisy_or [simp, unit_intros]: "unit (combine_noisy_or xs)"
  by (simp add: combine_noisy_or_def)

lemma noisy_or_Nil [simp]: "combine_noisy_or [] = 0"
  by (simp add: combine_noisy_or_def)

lemma noisy_or_Cons: "unit x \<Longrightarrow> list_all unit xs \<Longrightarrow> combine_noisy_or (x # xs) = x + (1 - x) * combine_noisy_or xs"
  by (simp add: noisy_or_prod algebra_simps)

lemma noisy_or_append:
  "list_all unit xs \<Longrightarrow> list_all unit ys \<Longrightarrow>
     1 - combine_noisy_or (xs @ ys) = (1 - combine_noisy_or xs) * (1 - combine_noisy_or ys)"
  by (simp add: noisy_or_prod)

lemma noisy_or_mset: "mset xs = mset ys \<Longrightarrow> combine_noisy_or xs = combine_noisy_or ys"
proof -
  assume eq: "mset xs = mset ys"
  then have "mset (map (\<lambda>v. 1 - clamp_unit v) xs) = mset (map (\<lambda>v. 1 - clamp_unit v) ys)" by simp
  then have "prod_list (map (\<lambda>v. 1 - clamp_unit v) xs) = prod_list (map (\<lambda>v. 1 - clamp_unit v) ys)"
    by (metis prod_mset_prod_list)
  moreover have "xs = [] \<longleftrightarrow> ys = []" using eq by auto
  ultimately show ?thesis by (simp add: combine_noisy_or_def foldl_prod)
qed

lemma or_left: "unit x \<Longrightarrow> unit y \<Longrightarrow> x \<le> x + (1 - x) * y"
  by (simp add: unit_def)

lemma or_right: "unit x \<Longrightarrow> unit y \<Longrightarrow> y \<le> x + (1 - x) * y"
proof -
  assume "unit x" "unit y"
  then have "0 \<le> x * (1 - y)" by (simp add: unit_def)
  then show ?thesis by (simp add: algebra_simps)
qed

lemma or_mono: "unit x \<Longrightarrow> unit y \<Longrightarrow> unit x' \<Longrightarrow> unit y' \<Longrightarrow> x \<le> x' \<Longrightarrow> y \<le> y' \<Longrightarrow> x + (1 - x) * y \<le> x' + (1 - x') * y'"
proof -
  assume a: "unit x" "unit y" "unit x'" "unit y'" "x \<le> x'" "y \<le> y'"
  then have "(1 - x') * (1 - y') \<le> (1 - x) * (1 - y)" by (intro mult_mono) (auto simp: unit_def)
  then show ?thesis by (simp add: algebra_simps)
qed

lemma noisy_or_ge:
  assumes "list_all unit xs" "x \<in> set xs"
  shows "x \<le> combine_noisy_or xs"
  using assms
proof (induction xs)
  case (Cons y ys)
  then have u: "unit y" "list_all unit ys" by simp_all
  show ?case
  proof (cases "x = y")
    case True
    then show ?thesis using or_left[OF u(1) unit_noisy_or] by (simp add: noisy_or_Cons[OF u])
  next
    case False
    then have "x \<le> combine_noisy_or ys" using Cons by simp
    also have "\<dots> \<le> y + (1 - y) * combine_noisy_or ys" by (rule or_right[OF u(1) unit_noisy_or])
    finally show ?thesis by (simp add: noisy_or_Cons[OF u])
  qed
qed simp

lemma noisy_or_mono:
  "list_all2 (\<lambda>a b. unit a \<and> unit b \<and> a \<le> b) xs ys \<Longrightarrow> combine_noisy_or xs \<le> combine_noisy_or ys"
proof (induction rule: list_all2_induct)
  case (Cons x xs y ys)
  then have u: "list_all unit xs" "list_all unit ys"
    by (auto simp: list_all_iff list_all2_conv_all_nth in_set_conv_nth)
  show ?case using Cons u by (auto simp: noisy_or_Cons intro!: or_mono)
qed simp

lemma noisy_or_map_mono:
  "(\<And>x. x \<in> set xs \<Longrightarrow> unit (f x) \<and> unit (g x) \<and> f x \<le> g x) \<Longrightarrow> combine_noisy_or (map f xs) \<le> combine_noisy_or (map g xs)"
  by (rule noisy_or_mono) (simp add: list_all2_map1 list_all2_map2 list.rel_refl_strong)

lemma noisy_or_concat:
  assumes "\<forall>xs \<in> set xss. list_all unit xs"
  shows "combine_noisy_or (concat xss) = combine_noisy_or (map combine_noisy_or xss)"
  using assms
proof (induction xss)
  case (Cons xs xss)
  then have u: "list_all unit xs" "list_all unit (concat xss)" "list_all unit (map combine_noisy_or xss)"
    by (auto simp: list_all_iff)
  have "1 - combine_noisy_or (xs @ concat xss) = (1 - combine_noisy_or xs) * (1 - combine_noisy_or (concat xss))"
    by (rule noisy_or_append[OF u(1,2)])
  also have "\<dots> = (1 - combine_noisy_or xs) * (1 - combine_noisy_or (map combine_noisy_or xss))" using Cons by simp
  finally have "combine_noisy_or (xs @ concat xss)
      = 1 - (1 - combine_noisy_or xs) * (1 - combine_noisy_or (map combine_noisy_or xss))" by simp
  also have "\<dots> = combine_noisy_or (combine_noisy_or xs # map combine_noisy_or xss)"
    by (simp add: noisy_or_Cons[OF unit_noisy_or u(3)] algebra_simps)
  finally show ?case by simp
qed simp

subsection \<open>Strength of evidence\<close>

text \<open>A configuration the constructor accepts that has a weight for \<open>OTHER\<close>, and evidence whose numbers are in range.\<close>

definition config_ok :: "confidence_config \<Rightarrow> bool" where
  "config_ok cfg \<longleftrightarrow> make_confidence_config cfg = Inr cfg \<and> dict_get (cc_class_weights cfg) EC_OTHER \<noteq> None"

definition evidence_ok :: "confidence_evidence \<Rightarrow> bool" where
  "evidence_ok i \<longleftrightarrow> unit (ce_confidence i) \<and> unit (ce_reliability i)"

definition strength_of :: "confidence_config \<Rightarrow> confidence_evidence \<Rightarrow> rat" where
  "strength_of cfg i = (case evidence_raw_strength cfg i of Inl _ \<Rightarrow> 0 | Inr s \<Rightarrow> s)"

lemma unit_interval_Inr: "unit_interval m x = Inr u \<longleftrightarrow> unit x"
  by (simp add: unit_interval_def unit_def)

lemma unit_interval_ok: "unit x \<Longrightarrow> unit_interval m x = Inr ()"
  by (simp add: unit_interval_def unit_def)

lemma units_in_range_Inr: "units_in_range m xs = Inr u \<longleftrightarrow> list_all unit xs"
  by (induction xs) (simp_all add: unit_interval_Inr bind_res_Inr_iff)

lemma config_okD:
  assumes "config_ok cfg"
  shows "unit (cc_default_prior cfg)" "unit (cc_repeat_discount cfg)" "unit (cc_family_discount cfg)"
    "unit (cc_upstream_discount cfg)" "unit (cc_contradiction_impact cfg)" "unit (cc_correlation_ceiling cfg)"
    "list_all unit (dict_values (cc_priors cfg))" "list_all unit (dict_values (cc_class_weights cfg))"
    "\<exists>w. dict_get (cc_class_weights cfg) EC_OTHER = Some w"
  using assms
  by (auto simp: config_ok_def make_confidence_config_def bind_res_Inr_iff units_in_range_Inr simp del: units_in_range.simps)

lemma unit_dict_default:
  assumes "list_all unit (dict_values d)" "unit v"
  shows "unit (dict_default d k v)"
  using assms by (auto simp: dict_default_def list_all_iff split: option.splits dest!: map_of_SomeD)

lemma unit_prior [unit_intros]: "config_ok cfg \<Longrightarrow> unit (dict_default (cc_priors cfg) ty (cc_default_prior cfg))"
  by (simp add: config_okD unit_dict_default)

lemma raw_strength_Inr: "config_ok cfg \<Longrightarrow> evidence_raw_strength cfg i = Inr (strength_of cfg i)"
  using config_okD(9)[of cfg] by (auto simp: strength_of_def evidence_raw_strength_def Let_def)

lemma unit_strength [simp, unit_intros]: "unit (strength_of cfg i)"
  by (auto simp: strength_of_def evidence_raw_strength_def Let_def split: option.splits)

lemma map_raw_strength: "config_ok cfg \<Longrightarrow> map_res (evidence_raw_strength cfg) xs = Inr (map (strength_of cfg) xs)"
  by (intro map_res_Inr raw_strength_Inr)

subsection \<open>Deduplication\<close>

definition relevant :: "string \<Rightarrow> confidence_evidence list \<Rightarrow> confidence_evidence list" where
  "relevant subject = filter (\<lambda>i. ce_subject i = subject)"

definition keep_stronger ::
  "confidence_config \<Rightarrow> confidence_evidence \<Rightarrow> (string, confidence_evidence) dict \<Rightarrow> (string, confidence_evidence) dict"
where
  "keep_stronger cfg i d =
     (case dict_get d (ce_id i) of
        None \<Rightarrow> dict_set (ce_id i) i d
      | Some j \<Rightarrow> if strength_of cfg j < strength_of cfg i then dict_set (ce_id i) i d else d)"

lemma dedupe_fold:
  "config_ok cfg \<Longrightarrow> dedupe_evidence cfg s xs d = Inr (fold (keep_stronger cfg) (relevant s xs) d)"
  by (induction xs arbitrary: d) (auto simp: relevant_def keep_stronger_def raw_strength_Inr split: option.split)

lemma keep_stronger_ok [simp]: "dict_ok d \<Longrightarrow> dict_ok (keep_stronger cfg i d)"
  by (auto simp: keep_stronger_def split: option.split)

lemma fold_keep_ok [simp]: "dict_ok d \<Longrightarrow> dict_ok (fold (keep_stronger cfg) xs d)"
  by (induction xs arbitrary: d) auto

text \<open>What a dictionary holds for an identifier is at least as strong as \<open>i\<close>.\<close>

definition holds_at_least ::
  "confidence_config \<Rightarrow> (string, confidence_evidence) dict \<Rightarrow> confidence_evidence \<Rightarrow> bool" where
  "holds_at_least cfg d i \<longleftrightarrow> (\<exists>j. dict_get d (ce_id i) = Some j \<and> strength_of cfg i \<le> strength_of cfg j)"

lemma keep_holds_self: "holds_at_least cfg (keep_stronger cfg i d) i"
  by (auto simp: holds_at_least_def keep_stronger_def split: option.split)

lemma keep_holds_mono: "holds_at_least cfg d j \<Longrightarrow> holds_at_least cfg (keep_stronger cfg i d) j"
  by (auto simp: holds_at_least_def keep_stronger_def split: option.split)

lemma fold_keep_mono: "holds_at_least cfg d j \<Longrightarrow> holds_at_least cfg (fold (keep_stronger cfg) xs d) j"
  by (induction xs arbitrary: d) (auto simp: keep_holds_mono)

lemma fold_keep_holds: "i \<in> set xs \<Longrightarrow> holds_at_least cfg (fold (keep_stronger cfg) xs d) i"
  by (induction xs arbitrary: d) (auto simp: fold_keep_mono keep_holds_self)

lemma keep_noop: "holds_at_least cfg d i \<Longrightarrow> keep_stronger cfg i d = d"
  by (auto simp: holds_at_least_def keep_stronger_def)

lemma fold_keep_noop: "\<forall>i \<in> set xs. holds_at_least cfg d i \<Longrightarrow> fold (keep_stronger cfg) xs d = d"
  by (induction xs) (auto simp: keep_noop)

lemma dedupe_repeats:
  assumes "config_ok cfg" "set ys \<subseteq> set xs"
  shows "dedupe_evidence cfg s (xs @ ys) [] = dedupe_evidence cfg s xs []"
proof -
  have "\<forall>i \<in> set (relevant s ys). i \<in> set (relevant s xs)" using assms(2) by (auto simp: relevant_def)
  then show ?thesis
    by (simp add: dedupe_fold[OF assms(1)] relevant_def fold_keep_noop fold_keep_holds)
qed

text \<open>With distinct identifiers nothing is dropped and the order is kept.\<close>

lemma fold_keep_distinct:
  assumes "distinct (map ce_id xs)" "\<forall>i \<in> set xs. dict_get d (ce_id i) = None"
  shows "dict_values (fold (keep_stronger cfg) xs d) = dict_values d @ xs"
  using assms
proof (induction xs arbitrary: d)
  case (Cons i xs)
  then have "keep_stronger cfg i d = d @ [(ce_id i, i)]" by (simp add: keep_stronger_def dict_set_fresh)
  moreover have "\<forall>j \<in> set xs. dict_get (d @ [(ce_id i, i)]) (ce_id j) = None"
  proof
    fix j assume j: "j \<in> set xs"
    then have "ce_id j \<noteq> ce_id i" using Cons.prems(1) by (metis distinct.simps(2) image_eqI list.set_map list.simps(9))
    then show "dict_get (d @ [(ce_id i, i)]) (ce_id j) = None" using Cons.prems(2) j by (simp add: map_add_def)
  qed
  ultimately show ?case using Cons by simp
qed simp

text \<open>What survives is relevant evidence, one item of each identifier.\<close>

definition keyed_by_id :: "(string, confidence_evidence) dict \<Rightarrow> bool" where
  "keyed_by_id d \<longleftrightarrow> dict_ok d \<and> (\<forall>k i. dict_get d k = Some i \<longrightarrow> ce_id i = k)"

lemma keyed_keep: "keyed_by_id d \<Longrightarrow> keyed_by_id (keep_stronger cfg i d)"
  by (auto simp: keyed_by_id_def keep_stronger_def simp del: map_of_eq_Some_iff split: option.splits if_splits)

lemma keyed_fold_keep: "keyed_by_id d \<Longrightarrow> keyed_by_id (fold (keep_stronger cfg) xs d)"
  by (induction xs arbitrary: d) (simp_all add: keyed_keep)

lemma keyed_Nil [simp]: "keyed_by_id []"
  by (simp add: keyed_by_id_def)

lemma keyed_distinct: "keyed_by_id d \<Longrightarrow> distinct (map ce_id (dict_values d))"
proof -
  assume k: "keyed_by_id d"
  have "ce_id (snd kv) = fst kv" if "kv \<in> set d" for kv
  proof -
    have "dict_get d (fst kv) = Some (snd kv)" using k that unfolding keyed_by_id_def by (metis dict_mem_get prod.collapse)
    then show ?thesis using k unfolding keyed_by_id_def by blast
  qed
  then have "map ce_id (dict_values d) = map fst d" by (simp add: comp_def)
  with k show ?thesis unfolding keyed_by_id_def by metis
qed

lemma fold_keep_values:
  "set (dict_values (fold (keep_stronger cfg) xs d)) \<subseteq> set (dict_values d) \<union> set xs"
proof (induction xs arbitrary: d)
  case (Cons i xs)
  have "set (dict_values (keep_stronger cfg i d)) \<subseteq> insert i (set (dict_values d))"
    using dict_values_set_subset[of "ce_id i" i d] by (simp add: keep_stronger_def subset_insertI split: option.split)
  with Cons[of "keep_stronger cfg i d"] show ?case by (simp only: fold.simps comp_def list.set) blast
qed simp

subsection \<open>Grouping\<close>

lemma group_dict_ok [simp]: "dict_ok (group_evidence xs)"
  unfolding group_evidence_def by (induction xs rule: rev_induct) (simp_all add: add_member_def)

lemma group_snoc: "group_evidence (xs @ [i]) = add_member i (group_evidence xs)"
  by (simp add: group_evidence_def)

lemma group_default: "dict_default (group_evidence xs) k [] = filter (\<lambda>i. group_key_of i = k) xs"
proof (induction xs rule: rev_induct)
  case (snoc i xs)
  then show ?case by (cases "k = group_key_of i") (simp_all add: group_snoc add_member_def)
qed (simp add: group_evidence_def dict_default_def)

lemma group_keys: "fst ` set (group_evidence xs) = group_key_of ` set xs"
proof (induction xs rule: rev_induct)
  case (snoc i xs)
  then show ?case by (simp add: group_snoc add_member_def dom_update)
qed (simp add: group_evidence_def)

lemma group_get:
  "dict_get (group_evidence xs) k =
     (let ms = filter (\<lambda>i. group_key_of i = k) xs in if ms = [] then None else Some ms)"
proof (cases "k \<in> group_key_of ` set xs")
  case True
  then obtain ms where "dict_get (group_evidence xs) k = Some ms"
    using group_keys[of xs] by (metis map_of_eq_None_iff not_Some_eq)
  moreover from this have "ms = filter (\<lambda>i. group_key_of i = k) xs"
    using group_default[of xs k] by (simp add: dict_default_def)
  ultimately show ?thesis using True by (auto simp: Let_def filter_empty_conv)
next
  case False
  then have "dict_get (group_evidence xs) k = None" using group_keys[of xs] by (simp add: map_of_eq_None_iff)
  then show ?thesis using False by (auto simp: Let_def filter_empty_conv)
qed

lemma group_mem:
  "(k, ms) \<in> set (group_evidence xs) \<longleftrightarrow> ms = filter (\<lambda>i. group_key_of i = k) xs \<and> ms \<noteq> []"
  unfolding dict_mem_get[OF group_dict_ok] group_get by (auto simp: Let_def)

lemma group_members: "mset (concat (map snd (group_evidence xs))) = mset xs"
proof (induction xs rule: rev_induct)
  case (snoc i xs)
  have "mset (concat (map snd (add_member i d))) = add_mset i (mset (concat (map snd d)))" if "dict_ok d" for d
    using that
  proof (induction d)
    case (Cons kv d)
    show ?case
    proof (cases "fst kv = group_key_of i")
      case True
      then show ?thesis by (cases kv) (simp add: add_member_def dict_default_def)
    next
      case False
      have "add_member i (kv # d) = kv # add_member i d"
        using False by (cases kv) (simp add: add_member_def dict_default_def)
      then show ?thesis using Cons by simp
    qed
  qed (simp add: add_member_def dict_default_def)
  from this[OF group_dict_ok] show ?case using snoc by (simp add: group_snoc)
qed (simp add: group_evidence_def)

end
