(* ===== verification/Confidence_Guarantees.thy ===== *)
theory Confidence_Guarantees
  imports Confidence_Properties
begin

section \<open>What an assessment guarantees\<close>

text \<open>
  The groups of a set of evidence as a total function, the bounds of the discounted strengths, and the properties
  of a whole assessment, on evidence whose numbers are in range and a configuration the constructor accepts.
\<close>

subsection \<open>Groups as a total function\<close>

lemma sort_key_map: "sort_key f (map g xs) = map g (sort_key (\<lambda>x. f (g x)) xs)"
proof -
  have ins: "insort_key f (g x) (map g ys) = map g (insort_key (\<lambda>x. f (g x)) x ys)" for x ys
    by (induction ys) simp_all
  show ?thesis by (induction xs) (simp_all add: ins)
qed

definition strongest_first :: "confidence_config \<Rightarrow> confidence_evidence list \<Rightarrow> confidence_evidence list" where
  "strongest_first cfg = sort_key (\<lambda>i. (- strength_of cfg i, ce_id i))"

lemma order_members_strength:
  "order_members (zip (map (strength_of cfg) ms) ms) = map (\<lambda>i. (strength_of cfg i, i)) (strongest_first cfg ms)"
proof -
  have "zip (map (strength_of cfg) ms) ms = map (\<lambda>i. (strength_of cfg i, i)) ms" by (induction ms) simp_all
  then show ?thesis by (simp add: order_members_def strongest_first_def sort_key_map)
qed

lemma set_strongest_first [simp]: "set (strongest_first cfg ms) = set ms"
  by (simp add: strongest_first_def)

lemma length_strongest_first [simp]: "length (strongest_first cfg ms) = length ms"
  by (simp add: strongest_first_def)

lemma strongest_first_Nil_iff [simp]: "strongest_first cfg ms = [] \<longleftrightarrow> ms = []"
  using length_strongest_first[of cfg ms] by (metis length_0_conv)

lemma mset_strongest_first [simp]: "mset (strongest_first cfg ms) = mset ms"
  by (simp add: strongest_first_def)

lemma strongest_first_hd: "i \<in> set ms \<Longrightarrow> strength_of cfg i \<le> strength_of cfg (hd (strongest_first cfg ms))"
  using sort_key_hd_min[of i ms "\<lambda>i. (- strength_of cfg i, ce_id i)"]
  by (auto simp: strongest_first_def less_eq_prod_def)

lemma strongest_first_perm:
  assumes "mset ms = mset ms'" "distinct (map ce_id ms)"
  shows "strongest_first cfg ms = strongest_first cfg ms'"
proof -
  have "inj_on ce_id (set ms)" using assms(2) by (simp add: distinct_map)
  then have "inj_on (\<lambda>i. (- strength_of cfg i, ce_id i)) (set ms)" by (auto simp: inj_on_def)
  then show ?thesis unfolding strongest_first_def by (intro sort_key_inj_key_eq) (simp_all add: assms(1))
qed

definition group_of ::
  "confidence_config \<Rightarrow> group_key \<times> confidence_evidence list \<Rightarrow> confidence_group" where
  "group_of cfg kms =
     (let ordered = strongest_first cfg (snd kms); strength = group_strength cfg (map (strength_of cfg) ordered)
      in \<lparr>cg_independence = fst (fst kms), cg_upstream = only_upstream (map ce_upstream ordered),
          cg_polarity = snd (fst kms), cg_families = sort (remdups (map ce_family ordered)),
          cg_providers = sort (remdups (map ce_provider ordered)),
          cg_classes = sort_key evidence_class_value (remdups (map ce_class ordered)),
          cg_ids = map ce_id ordered, cg_raw = clamp_unit strength, cg_factor = 1,
          cg_effective = clamp_unit strength, cg_repeats = int (length ordered)\<rparr>)"

lemma group_of_simps [simp]:
  "cg_independence (group_of cfg kms) = fst (fst kms)"
  "cg_polarity (group_of cfg kms) = snd (fst kms)"
  "cg_raw (group_of cfg kms) = clamp_unit (group_strength cfg (map (strength_of cfg) (strongest_first cfg (snd kms))))"
  by (simp_all add: group_of_def Let_def)

lemma collapse_group_Inr:
  "config_ok cfg \<Longrightarrow> snd kms \<noteq> [] \<Longrightarrow> collapse_group cfg kms = Inr (group_of cfg kms)"
  by (cases kms; cases "fst kms")
    (auto simp: collapse_group_def group_of_def map_raw_strength order_members_strength make_confidence_group_def
      unit_interval_def Let_def comp_def unit_def[symmetric] Suc_le_eq)

definition group_rank :: "confidence_group \<Rightarrow> string \<times> rat \<times> string" where
  "group_rank g = (polarity_value (cg_polarity g), - cg_raw g, cg_independence g)"

lemma collapse_Inr:
  assumes "config_ok cfg"
  shows "collapse_evidence_groups cfg xs = Inr (sort_key group_rank (map (group_of cfg) (group_evidence xs)))"
proof -
  have "map_res (collapse_group cfg) (group_evidence xs) = Inr (map (group_of cfg) (group_evidence xs))"
    by (rule map_res_Inr) (auto intro!: collapse_group_Inr[OF assms] simp: group_mem)
  then show ?thesis by (simp add: collapse_evidence_groups_def group_rank_def[abs_def])
qed

subsection \<open>The order of the evidence does not count\<close>

lemma map_group_of:
  "map (group_of cfg) (group_evidence xs)
     = map (\<lambda>k. group_of cfg (k, filter (\<lambda>i. group_key_of i = k) xs)) (map fst (group_evidence xs))"
proof -
  have "group_of cfg kms = group_of cfg (fst kms, filter (\<lambda>i. group_key_of i = fst kms) xs)"
    if "kms \<in> set (group_evidence xs)" for kms
  proof -
    have "snd kms = filter (\<lambda>i. group_key_of i = fst kms) xs" using that group_mem[of "fst kms" "snd kms" xs] by simp
    then show ?thesis by (metis prod.collapse)
  qed
  then show ?thesis by (simp add: comp_def)
qed

lemma group_of_perm:
  assumes "mset xs = mset ys" "distinct (map ce_id xs)"
  shows "group_of cfg (k, filter P xs) = group_of cfg (k, filter P ys)"
proof -
  have "mset (filter P xs) = mset (filter P ys)" using assms(1) by simp
  moreover have "distinct (map ce_id (filter P xs))" using assms(2) by (rule distinct_map_filter)
  ultimately have "strongest_first cfg (filter P xs) = strongest_first cfg (filter P ys)"
    by (rule strongest_first_perm)
  then show ?thesis by (simp add: group_of_def)
qed

lemma polarity_value_inj: "polarity_value p = polarity_value q \<longleftrightarrow> p = q"
  by (cases p; cases q) simp_all

lemma mset_map_eq: "mset xs = mset ys \<Longrightarrow> mset (map f xs) = mset (map f ys)"
  by simp

lemma collapse_perm:
  assumes cfg: "config_ok cfg" and eq: "mset xs = mset ys" and dist: "distinct (map ce_id xs)"
  shows "collapse_evidence_groups cfg xs = collapse_evidence_groups cfg ys"
proof -
  let ?g = "\<lambda>xs k. group_of cfg (k, filter (\<lambda>i. group_key_of i = k) xs)"
  let ?ks = "\<lambda>xs. map fst (group_evidence xs)"
  have "set (?ks xs) = set (?ks ys)" using group_keys[of xs] group_keys[of ys] mset_eq_setD[OF eq] by simp
  then have ks: "mset (?ks xs) = mset (?ks ys)" 
    using set_eq_iff_mset_eq_distinct[OF group_dict_ok group_dict_ok] by blast
  have fn: "?g xs = ?g ys" by (intro ext group_of_perm eq dist)
  have m: "mset (map (group_of cfg) (group_evidence xs)) = mset (map (group_of cfg) (group_evidence ys))"
  proof -
    have "mset (map (group_of cfg) (group_evidence xs)) = mset (map (?g xs) (?ks xs))" by (simp only: map_group_of)
    also have "\<dots> = mset (map (?g xs) (?ks ys))" using ks by (rule mset_map_eq)
    also have "\<dots> = mset (map (?g ys) (?ks ys))" by (simp only: fn)
    also have "\<dots> = mset (map (group_of cfg) (group_evidence ys))" by (simp only: map_group_of)
    finally show ?thesis .
  qed
  have inj: "inj_on group_rank (set (map (group_of cfg) (group_evidence xs)))"
  proof (rule inj_onI)
    fix a b assume ab: "a \<in> set (map (group_of cfg) (group_evidence xs))" "b \<in> set (map (group_of cfg) (group_evidence xs))"
      and r: "group_rank a = group_rank b"
    then obtain k l where "k \<in> set (group_evidence xs)" "l \<in> set (group_evidence xs)"
      and kl: "a = group_of cfg k" "b = group_of cfg l" by auto
    moreover have "fst k = fst l" using r kl by (simp add: group_rank_def polarity_value_inj prod_eq_iff)
    ultimately show "a = b" using group_mem by (metis prod.collapse)
  qed
  show ?thesis unfolding collapse_Inr[OF cfg] sort_key_eq_sort_key[OF m inj] ..
qed

lemma dedupe_distinct:
  assumes "config_ok cfg" "distinct (map ce_id (relevant subject xs))"
  shows "\<exists>d. dedupe_evidence cfg subject xs [] = Inr d \<and> dict_values d = relevant subject xs"
  using fold_keep_distinct[OF assms(2), of "[]" cfg] by (simp add: dedupe_fold[OF assms(1)])

lemma length_remdups_mset: "mset xs = mset ys \<Longrightarrow> length (remdups (map f xs)) = length (remdups (map f ys))"
  by (metis length_remdups_card_conv list.set_map mset_eq_setD)

lemma assessment_perm:
  "mset xs = mset ys \<Longrightarrow> assessment_of cfg subject ty xs gs = assessment_of cfg subject ty ys gs"
  by (simp add: assessment_of_def Let_def length_remdups_mset[of xs ys] mset_eq_length[of xs ys])

subsection \<open>Discounts\<close>

lemma unit_factor: "config_ok cfg \<Longrightarrow> unit (dependency_factor cfg fs us g)"
  by (auto simp: dependency_factor_def config_okD split: option.split)

text \<open>What discounting does to one group: only its factor and its effective strength change.\<close>

definition discounted :: "confidence_group \<Rightarrow> confidence_group \<Rightarrow> bool" where
  "discounted g h \<longleftrightarrow> (\<exists>f. unit f \<and> h = g\<lparr>cg_factor := f, cg_effective := clamp_unit (cg_raw g * f)\<rparr>)"

lemma discounted_fields:
  "discounted g h \<Longrightarrow> cg_polarity h = cg_polarity g \<and> cg_independence h = cg_independence g \<and> cg_raw h = cg_raw g"
  by (auto simp: discounted_def)

lemma discounted_le: "discounted g h \<Longrightarrow> unit (cg_raw g) \<Longrightarrow> unit (cg_effective h) \<and> cg_effective h \<le> cg_raw g"
  by (auto simp: discounted_def) (simp add: unit_def mult_left_le)

lemma discount_groups_rel: "config_ok cfg \<Longrightarrow> list_all2 discounted gs (discount_groups cfg fs us gs)"
proof (induction gs arbitrary: fs us)
  case (Cons g gs)
  have "discounted g (g\<lparr>cg_factor := dependency_factor cfg fs us g,
    cg_effective := clamp_unit (cg_raw g * dependency_factor cfg fs us g)\<rparr>)"
    using unit_factor[OF Cons.prems] by (auto simp: discounted_def)
  then show ?case using Cons by (simp add: Let_def)
qed simp

definition ranked :: "confidence_group list \<Rightarrow> polarity \<Rightarrow> confidence_group list" where
  "ranked gs p = sort_key (\<lambda>g. (- cg_raw g, cg_independence g)) (filter (\<lambda>g. cg_polarity g = p) gs)"

lemma discount_polarity_rel: "config_ok cfg \<Longrightarrow> list_all2 discounted (ranked gs p) (discount_polarity cfg gs p)"
  unfolding discount_polarity_def ranked_def by (rule discount_groups_rel)

lemma set_ranked [simp]: "set (ranked gs p) = {g \<in> set gs. cg_polarity g = p}"
  by (simp add: ranked_def)

lemma discount_polarity_mem:
  assumes "config_ok cfg" "h \<in> set (discount_polarity cfg gs p)"
  shows "\<exists>g \<in> set gs. cg_polarity g = p \<and> discounted g h"
  using discount_polarity_rel[OF assms(1), of gs p] assms(2)
  by (auto simp: list_all2_conv_all_nth in_set_conv_nth[of h]) (metis (mono_tags, lifting) mem_Collect_eq nth_mem set_ranked)

text \<open>The strengths that count for one polarity are those of its discounted groups.\<close>

lemma strengths_mset:
  assumes "config_ok cfg"
  shows "mset (strengths_of p (apply_dependency_discounts cfg gs)) = mset (map cg_effective (discount_polarity cfg gs p))"
proof -
  have pol: "cg_polarity h = q" if "h \<in> set (discount_polarity cfg gs q)" for h q
    using discount_polarity_mem[OF assms that] discounted_fields by auto
  have keep: "filter (\<lambda>g. cg_polarity g = p) (discount_polarity cfg gs q) = (if q = p then discount_polarity cfg gs q else [])" for q
    using pol by (auto simp: filter_empty_conv intro: filter_True)
  have "mset (filter (\<lambda>g. cg_polarity g = p) (apply_dependency_discounts cfg gs)) = mset (discount_polarity cfg gs p)"
    unfolding mset_filter apply_dependency_discounts_def mset_sort mset_append filter_union_mset
    by (simp only: mset_filter[symmetric] keep) (cases p; simp)
  then show ?thesis by (simp add: strengths_of_def)
qed

lemma discounts_length: "config_ok cfg \<Longrightarrow> length (apply_dependency_discounts cfg gs) = length gs"
proof -
  assume "config_ok cfg"
  then have "length (discount_polarity cfg gs p) = length (filter (\<lambda>g. cg_polarity g = p) gs)" for p
    using list_all2_lengthD[OF discount_polarity_rel[of cfg gs p]] by (simp add: ranked_def)
  moreover have "length (filter (\<lambda>g. cg_polarity g = CP_SUPPORTS) gs)
    + length (filter (\<lambda>g. cg_polarity g = CP_CONTRADICTS) gs) = length gs"
    by (induction gs) (auto intro: polarity.exhaust)
  ultimately show ?thesis by (simp add: apply_dependency_discounts_def)
qed

text \<open>The strongest group of a polarity is never discounted.\<close>

lemma first_not_discounted:
  "ranked gs p = g # rest \<Longrightarrow> unit (cg_raw g) \<Longrightarrow> cg_raw g \<in> set (map cg_effective (discount_polarity cfg gs p))"
  by (auto simp: discount_polarity_def ranked_def[symmetric] Let_def dependency_factor_def count_of_def dict_default_def
      list_ex_iff split: option.splits)

definition polarity_strength :: "confidence_config \<Rightarrow> confidence_group list \<Rightarrow> polarity \<Rightarrow> rat" where
  "polarity_strength cfg gs p = combine_noisy_or (strengths_of p (apply_dependency_discounts cfg gs))"

lemma polarity_strength_eq:
  "config_ok cfg \<Longrightarrow> polarity_strength cfg gs p = combine_noisy_or (map cg_effective (discount_polarity cfg gs p))"
  unfolding polarity_strength_def by (rule noisy_or_mset) (rule strengths_mset)

lemma polarity_strength_le:
  assumes "config_ok cfg" "\<forall>g \<in> set gs. unit (cg_raw g)"
  shows "polarity_strength cfg gs p \<le> combine_noisy_or (map cg_raw (filter (\<lambda>g. cg_polarity g = p) gs))"
proof -
  have "list_all2 (\<lambda>a b. unit a \<and> unit b \<and> a \<le> b) (map cg_effective (discount_polarity cfg gs p)) (map cg_raw (ranked gs p))"
    using discount_polarity_rel[OF assms(1), of gs p] assms(2)
    by (auto simp: list_all2_conv_all_nth dest!: discounted_le) (metis (mono_tags, lifting) assms(2) discounted_le mem_Collect_eq nth_mem set_ranked)+
  then have "polarity_strength cfg gs p \<le> combine_noisy_or (map cg_raw (ranked gs p))"
    unfolding polarity_strength_eq[OF assms(1)] by (rule noisy_or_mono)
  also have "\<dots> = combine_noisy_or (map cg_raw (filter (\<lambda>g. cg_polarity g = p) gs))"
    by (rule noisy_or_mset) (simp add: ranked_def)
  finally show ?thesis .
qed

lemma polarity_strength_ge:
  assumes "config_ok cfg" "\<forall>g \<in> set gs. unit (cg_raw g)" "g \<in> set gs" "cg_polarity g = p"
  shows "cg_raw g \<le> polarity_strength cfg gs p"
proof -
  have mem: "g \<in> set (ranked gs p)" using assms by simp
  then obtain h rest where r: "ranked gs p = h # rest" by (cases "ranked gs p") auto
  have "cg_raw g \<le> cg_raw h"
    using sort_key_hd_min[of g "filter (\<lambda>g. cg_polarity g = p) gs" "\<lambda>g. (- cg_raw g, cg_independence g)"] assms r
    by (auto simp: ranked_def less_eq_prod_def)
  moreover have "h \<in> set gs" using r set_ranked[of gs p] by (metis (mono_tags, lifting) list.set_intros(1) mem_Collect_eq)
  moreover have "list_all unit (map cg_effective (discount_polarity cfg gs p))"
    using discount_polarity_mem[OF assms(1)] discounted_le assms(2) by (fastforce simp: list_all_iff)
  ultimately show ?thesis
    using noisy_or_ge[OF _ first_not_discounted[OF r]] assms(1,2) by (fastforce simp: polarity_strength_eq)
qed

subsection \<open>The strength of a group\<close>

lemma group_strength_bounds:
  assumes "config_ok cfg" "ss \<noteq> []" "list_all unit ss"
  shows "unit (group_strength cfg ss)" "hd ss \<le> group_strength cfg ss" "group_strength cfg ss \<le> combine_noisy_or ss"
proof -
  obtain x xs where ss: "ss = x # xs" "unit x" "list_all unit xs" using assms(2,3) by (cases ss) auto
  let ?d = "cc_repeat_discount cfg" and ?b = "combine_noisy_or (map (\<lambda>s. s * cc_repeat_discount cfg) xs)"
  have d: "unit ?d" using config_okD[OF assms(1)] by blast
  have gs: "group_strength cfg ss = x + (1 - x) * ?b" by (simp add: group_strength_def ss)
  show "unit (group_strength cfg ss)" unfolding gs by (intro unit_or ss unit_noisy_or)
  show "hd ss \<le> group_strength cfg ss" unfolding gs using or_left[OF ss(2) unit_noisy_or] by (simp add: ss(1))
  have "?b \<le> combine_noisy_or (map (\<lambda>s. s) xs)"
    using ss(3) d by (intro noisy_or_map_mono) (auto simp: list_all_iff unit_def mult_left_le mult_le_one)
  then have "x + (1 - x) * ?b \<le> x + (1 - x) * combine_noisy_or xs" by (intro or_mono ss) simp_all
  then have "group_strength cfg ss \<le> x + (1 - x) * combine_noisy_or xs" by (simp only: gs)
  then show "group_strength cfg ss \<le> combine_noisy_or ss" by (simp only: ss(1) noisy_or_Cons[OF ss(2,3)])
qed

lemma strengths_unit [simp]: "list_all unit (map (strength_of cfg) ms)"
  by (simp add: list_all_iff)

lemma group_of_bounds:
  assumes "config_ok cfg" "snd kms \<noteq> []"
  shows "i \<in> set (snd kms) \<Longrightarrow> strength_of cfg i \<le> cg_raw (group_of cfg kms)"
    and "cg_raw (group_of cfg kms) \<le> combine_noisy_or (map (strength_of cfg) (snd kms))"
proof -
  let ?ss = "map (strength_of cfg) (strongest_first cfg (snd kms))"
  have ne: "?ss \<noteq> []" using assms(2) by simp
  note b = group_strength_bounds[OF assms(1) ne strengths_unit]
  show "strength_of cfg i \<le> cg_raw (group_of cfg kms)" if "i \<in> set (snd kms)"
    using strongest_first_hd[OF that, of cfg] b assms(2) by (simp add: hd_map)
  have "combine_noisy_or ?ss = combine_noisy_or (map (strength_of cfg) (snd kms))" by (rule noisy_or_mset) simp
  then show "cg_raw (group_of cfg kms) \<le> combine_noisy_or (map (strength_of cfg) (snd kms))" using b by simp
qed

definition groups_of :: "confidence_config \<Rightarrow> confidence_evidence list \<Rightarrow> confidence_group list" where
  "groups_of cfg xs = sort_key group_rank (map (group_of cfg) (group_evidence xs))"

lemma set_groups_of: "set (groups_of cfg xs) = group_of cfg ` set (group_evidence xs)"
  by (simp add: groups_of_def)

lemma groups_of_unit: "\<forall>g \<in> set (groups_of cfg xs). unit (cg_raw g)"
  by (auto simp: set_groups_of)

lemma group_nonempty: "kms \<in> set (group_evidence xs) \<Longrightarrow> snd kms \<noteq> []"
  using group_mem[of "fst kms" "snd kms" xs] by (metis prod.collapse)

lemma support_ge_each:
  assumes "config_ok cfg" "i \<in> set xs" "ce_polarity i = p"
  shows "strength_of cfg i \<le> polarity_strength cfg (groups_of cfg xs) p"
proof -
  let ?k = "group_key_of i" and ?ms = "filter (\<lambda>j. group_key_of j = group_key_of i) xs"
  have i: "i \<in> set ?ms" using assms(2) by simp
  then have mem: "(?k, ?ms) \<in> set (group_evidence xs)" unfolding group_mem by (auto simp: filter_empty_conv)
  have "strength_of cfg i \<le> cg_raw (group_of cfg (?k, ?ms))"
    using group_of_bounds(1)[OF assms(1), of "(?k, ?ms)" i] group_nonempty[OF mem] i by simp
  also have "\<dots> \<le> polarity_strength cfg (groups_of cfg xs) p"
    using mem by (intro polarity_strength_ge assms(1) groups_of_unit) (auto simp: set_groups_of group_key_of_def assms(3))
  finally show ?thesis .
qed

lemma members_polarity:
  assumes "kms \<in> set (group_evidence xs)" "j \<in> set (snd kms)"
  shows "ce_polarity j = snd (fst kms)"
proof -
  have "snd kms = filter (\<lambda>i. group_key_of i = fst kms) xs"
    using assms(1) group_mem[of "fst kms" "snd kms" xs] by (metis prod.collapse)
  then have "group_key_of j = fst kms" using assms(2) by simp
  then show ?thesis by (metis group_key_of_def snd_conv)
qed

lemma filter_concat_groups:
  "\<forall>kms \<in> set d. \<forall>j \<in> set (snd kms). ce_polarity j = snd (fst kms) \<Longrightarrow>
     filter (\<lambda>i. ce_polarity i = p) (concat (map snd d)) = concat (map snd (filter (\<lambda>kms. snd (fst kms) = p) d))"
  by (induction d) (auto simp: filter_empty_conv intro: filter_True)

lemma support_le_independent:
  assumes "config_ok cfg"
  shows "polarity_strength cfg (groups_of cfg xs) p
    \<le> combine_noisy_or (map (strength_of cfg) (filter (\<lambda>i. ce_polarity i = p) xs))"
proof -
  let ?d = "filter (\<lambda>kms. snd (fst kms) = p) (group_evidence xs)"
  have "polarity_strength cfg (groups_of cfg xs) p
      \<le> combine_noisy_or (map cg_raw (filter (\<lambda>g. cg_polarity g = p) (groups_of cfg xs)))"
    by (rule polarity_strength_le[OF assms groups_of_unit])
  also have "\<dots> = combine_noisy_or (map (\<lambda>kms. cg_raw (group_of cfg kms)) ?d)"
    by (rule noisy_or_mset) (simp add: groups_of_def filter_mset_image_mset multiset.map_comp comp_def)
  also have "\<dots> \<le> combine_noisy_or (map (\<lambda>kms. combine_noisy_or (map (strength_of cfg) (snd kms))) ?d)"
    using group_of_bounds(2)[OF assms] group_nonempty[of _ xs] by (intro noisy_or_map_mono) fastforce
  also have "\<dots> = combine_noisy_or (concat (map (\<lambda>kms. map (strength_of cfg) (snd kms)) ?d))"
    by (subst noisy_or_concat) (simp_all add: comp_def)
  also have "concat (map (\<lambda>kms. map (strength_of cfg) (snd kms)) ?d) = map (strength_of cfg) (concat (map snd ?d))"
    by (simp add: map_concat comp_def)
  also have "concat (map snd ?d) = filter (\<lambda>i. ce_polarity i = p) (concat (map snd (group_evidence xs)))"
    by (rule filter_concat_groups[symmetric]) (simp add: members_polarity)
  also have "combine_noisy_or (map (strength_of cfg) \<dots>)
      = combine_noisy_or (map (strength_of cfg) (filter (\<lambda>i. ce_polarity i = p) xs))"
    using group_members[of xs] by (intro noisy_or_mset) (simp del: mset_concat)
  finally show ?thesis .
qed

lemma no_evidence_of_polarity:
  assumes "config_ok cfg" "\<forall>i \<in> set xs. ce_polarity i \<noteq> p"
  shows "polarity_strength cfg (groups_of cfg xs) p = 0"
proof -
  have "filter (\<lambda>i. ce_polarity i = p) xs = []" using assms(2) by (simp add: filter_empty_conv)
  then have "polarity_strength cfg (groups_of cfg xs) p \<le> 0" using support_le_independent[OF assms(1), of xs p] by simp
  moreover have "unit (polarity_strength cfg (groups_of cfg xs) p)" by (simp add: polarity_strength_def)
  ultimately show ?thesis by (simp add: unit_def)
qed

subsection \<open>The assessment as a function of the surviving evidence\<close>

definition survivors :: "confidence_config \<Rightarrow> string \<Rightarrow> confidence_evidence list \<Rightarrow> confidence_evidence list" where
  "survivors cfg subject xs = dict_values (fold (keep_stronger cfg) (relevant subject xs) [])"

lemma survivors_subset: "set (survivors cfg subject xs) \<subseteq> set (relevant subject xs)"
  using fold_keep_values[of cfg "relevant subject xs" "[]"] by (simp add: survivors_def)

lemma survivors_distinct: "distinct (map ce_id (relevant subject xs)) \<Longrightarrow> survivors cfg subject xs = relevant subject xs"
  using fold_keep_distinct[of "relevant subject xs" "[]" cfg] by (simp add: survivors_def)

lemma fold_keep_keys: "fst ` set (fold (keep_stronger cfg) xs d) = fst ` set d \<union> ce_id ` set xs"
proof (induction xs arbitrary: d)
  case (Cons i xs)
  have "fst ` set (keep_stronger cfg i d) = insert (ce_id i) (fst ` set d)"
    by (auto simp: keep_stronger_def dom_update insert_absorb dest: map_of_SomeD simp del: map_of_eq_Some_iff
        split: option.split) (metis fst_conv image_eqI map_of_SomeD)+
  with Cons[of "keep_stronger cfg i d"] show ?case by simp
qed simp

lemma survivors_count: "length (survivors cfg subject xs) = card (ce_id ` set (relevant subject xs))"
proof -
  let ?d = "fold (keep_stronger cfg) (relevant subject xs) []"
  have "length ?d = card (fst ` set ?d)"
    using distinct_card[of "map fst ?d"] fold_keep_ok[of "[]" cfg "relevant subject xs"] by simp
  then show ?thesis by (simp add: survivors_def fold_keep_keys)
qed

lemma strip_nonblank: "c \<in> set s \<Longrightarrow> \<not> is_space c \<Longrightarrow> strip s \<noteq> []"
proof
  assume c: "c \<in> set s" "\<not> is_space c" and e: "strip s = []"
  have "c \<in> set (dropWhile is_space s)"
    using c by (metis UnE set_append set_takeWhileD takeWhile_dropWhile_id)
  moreover have "\<forall>x \<in> set (dropWhile is_space s). is_space x" using e by (simp add: strip_def dropWhile_eq_Nil_conv)
  ultimately show False using c by blast
qed

lemma set_join: "p \<in> set ps \<Longrightarrow> set p \<subseteq> set (join sep ps)"
  by (induction sep ps rule: join.induct) auto

lemma explanation_nonblank: "strip (build_confidence_explanation c a b f x) \<noteq> []"
proof (cases "a = 0 \<and> b = 0")
  case True
  then show ?thesis
    by (intro strip_nonblank[of "CHR ''n''"]) (simp_all add: build_confidence_explanation_def is_space_def)
next
  case False
  let ?p = "''aggregate confidence '' @ show_fixed3 c"
  have "set ?p \<subseteq> set (build_confidence_explanation c a b f x)"
    unfolding build_confidence_explanation_def if_not_P[OF False] by (intro set_join) simp
  then have "CHR ''a'' \<in> set (build_confidence_explanation c a b f x)" by auto
  then show ?thesis by (intro strip_nonblank[of "CHR ''a''"]) (simp_all add: is_space_def)
qed

definition raw_assessment ::
  "confidence_config \<Rightarrow> string \<Rightarrow> event_type \<Rightarrow> confidence_evidence list \<Rightarrow> confidence_assessment" where
  "raw_assessment cfg subject ty xs =
     assessment_of cfg subject ty (survivors cfg subject xs)
       (apply_dependency_discounts cfg (groups_of cfg (survivors cfg subject xs)))"

lemma raw_assessment_simps:
  "ca_support (raw_assessment cfg subject ty xs) = polarity_strength cfg (groups_of cfg (survivors cfg subject xs)) CP_SUPPORTS"
  "ca_contradiction (raw_assessment cfg subject ty xs)
     = polarity_strength cfg (groups_of cfg (survivors cfg subject xs)) CP_CONTRADICTS"
  "ca_prior (raw_assessment cfg subject ty xs) = dict_default (cc_priors cfg) ty (cc_default_prior cfg)"
  "ca_evidence_count (raw_assessment cfg subject ty xs) = int (length (survivors cfg subject xs))"
  by (simp_all add: raw_assessment_def assessment_of_def Let_def polarity_strength_def)

lemma raw_assessment_confidence:
  "ca_confidence (raw_assessment cfg subject ty xs) =
     (let a = raw_assessment cfg subject ty xs
      in clamp_unit ((ca_prior a + (1 - ca_prior a) * ca_support a) * (1 - ca_contradiction a * cc_contradiction_impact cfg)))"
  by (simp add: raw_assessment_def assessment_of_def Let_def)

lemma assess_raw:
  assumes "config_ok cfg"
  shows "assess_confidence cfg subject ty xs = make_confidence_assessment (raw_assessment cfg subject ty xs)"
  by (simp add: assess_confidence_def dedupe_fold[OF assms] collapse_Inr[OF assms] raw_assessment_def survivors_def groups_of_def)

lemma assess_Inr:
  assumes "config_ok cfg" "strip subject \<noteq> []"
  shows "\<exists>expl. assess_confidence cfg subject ty xs
    = Inr ((raw_assessment cfg subject ty xs)\<lparr>ca_subject := strip subject, ca_explanation := expl\<rparr>)"
  unfolding assess_raw[OF assms(1)] make_confidence_assessment_def raw_assessment_def
  using assms unit_prior[OF assms(1), of ty]
  by (simp add: assessment_of_def Let_def not_blank_def explanation_nonblank unit_interval_ok)

text \<open>Any assessment that is made is the raw one up to its texts.\<close>

lemma assess_raw_fields:
  assumes "config_ok cfg" "assess_confidence cfg subject ty xs = Inr a"
  shows "ca_confidence a = ca_confidence (raw_assessment cfg subject ty xs)"
    "ca_prior a = ca_prior (raw_assessment cfg subject ty xs)"
    "ca_support a = ca_support (raw_assessment cfg subject ty xs)"
    "ca_contradiction a = ca_contradiction (raw_assessment cfg subject ty xs)"
  using assms(2) unfolding assess_raw[OF assms(1)] make_confidence_assessment_def
  by (auto simp: bind_res_Inr_iff split: if_splits)

subsection \<open>Properties of every assessment\<close>

lemma config_ok_default: "config_ok default_confidence_config"
  by (simp add: config_ok_def make_confidence_config_def default_confidence_config_def default_event_type_priors_def
      default_class_weights_def unit_interval_def)

definition sample_evidence :: "string \<Rightarrow> polarity \<Rightarrow> rat \<Rightarrow> confidence_evidence" where
  "sample_evidence i p c =
     \<lparr>ce_id = i, ce_subject = ''dns:a.example'', ce_polarity = p, ce_class = EC_ACTIVE_CONFIRMATION, ce_source = ''dns:8.8.8.8'',
      ce_family = ''dns'', ce_provider = ''dns:8.8.8.8'', ce_independence = ''measurement:'' @ i, ce_upstream = None,
      ce_confidence = c, ce_reliability = 1, ce_observed_at = 0, ce_tags = {}, ce_metadata = []\<rparr>"

lemma sample_evidence_simps [simp]:
  "ce_id (sample_evidence i p c) = i" "ce_subject (sample_evidence i p c) = ''dns:a.example''"
  "ce_polarity (sample_evidence i p c) = p"
  by (simp_all add: sample_evidence_def)

lemma confidence_bounds:
  assumes "config_ok cfg" "a = raw_assessment cfg subject ty xs"
  shows "ca_confidence a = (ca_prior a + (1 - ca_prior a) * ca_support a) * (1 - ca_contradiction a * cc_contradiction_impact cfg)"
    and "unit (ca_confidence a)" "unit (ca_prior a)" "unit (ca_support a)" "unit (ca_contradiction a)"
    and "ca_prior a * (1 - cc_contradiction_impact cfg) \<le> ca_confidence a"
    and "ca_confidence a \<le> ca_prior a + (1 - ca_prior a) * ca_support a"
proof -
  let ?i = "cc_contradiction_impact cfg"
  let ?s = "ca_prior a + (1 - ca_prior a) * ca_support a"
  show u: "unit (ca_prior a)" "unit (ca_support a)" "unit (ca_contradiction a)"
    using unit_prior[OF assms(1)] by (simp_all add: assms(2) raw_assessment_simps polarity_strength_def)
  have i: "unit ?i" using config_okD[OF assms(1)] by blast
  have s: "unit ?s" using u by (intro unit_or)
  have "unit (?s * (1 - ca_contradiction a * ?i))" by (intro unit_intros s u i)
  then show c: "ca_confidence a = ?s * (1 - ca_contradiction a * ?i)"
    unfolding assms(2) raw_assessment_confidence Let_def by (rule clamp_id)
  then show "unit (ca_confidence a)" using \<open>unit (?s * _)\<close> by simp
  have "ca_contradiction a * ?i \<le> ?i" using u i by (simp add: unit_def mult_left_le_one_le)
  then have "ca_prior a * (1 - ?i) \<le> ?s * (1 - ca_contradiction a * ?i)"
    using or_left[OF u(1,2)] u s i by (intro mult_mono) (auto simp: unit_def)
  then show "ca_prior a * (1 - ?i) \<le> ca_confidence a" by (simp only: c)
  have "?s * (1 - ca_contradiction a * ?i) \<le> ?s * 1"
    using s u i by (intro mult_left_mono) (auto simp: unit_def)
  then show "ca_confidence a \<le> ?s" by (simp add: c)
qed

text \<open>C17: An assessment is always made, and its confidence is a number between 0 and 1: contradictions never push it
  below the prior scaled by the contradiction impact, nor anything above what the support alone would give. Without
  evidence on the subject it is the prior, and the evidence counted is one item of each identifier.\<close>
theorem assessment_sound:
  assumes "config_ok cfg" and "strip subject \<noteq> []"
  shows "\<exists>a. assess_confidence cfg subject ty xs = Inr a
    \<and> 0 \<le> ca_confidence a \<and> ca_confidence a \<le> 1
    \<and> ca_prior a * (1 - cc_contradiction_impact cfg) \<le> ca_confidence a
    \<and> ca_confidence a \<le> ca_prior a + (1 - ca_prior a) * ca_support a
    \<and> ((\<forall>i \<in> set xs. ce_subject i \<noteq> subject) \<longrightarrow> ca_confidence a = ca_prior a)
    \<and> ca_evidence_count a = int (card (ce_id ` {i \<in> set xs. ce_subject i = subject}))"
proof -
  let ?r = "raw_assessment cfg subject ty xs"
  obtain e where e: "assess_confidence cfg subject ty xs = Inr (?r\<lparr>ca_subject := strip subject, ca_explanation := e\<rparr>)"
    using assess_Inr[OF assms] by blast
  note b = confidence_bounds[OF assms(1) refl[of ?r]]
  have none: "ca_confidence ?r = ca_prior ?r" if "\<forall>i \<in> set xs. ce_subject i \<noteq> subject"
  proof -
    have "survivors cfg subject xs = []" using that survivors_subset[of cfg subject xs] by (auto simp: relevant_def)
    then have "ca_support ?r = 0" "ca_contradiction ?r = 0"
      using no_evidence_of_polarity[OF assms(1), of "[]"] by (simp_all add: raw_assessment_simps)
    then show ?thesis using b(1) by simp
  qed
  show ?thesis unfolding e using b none by (simp add: unit_def raw_assessment_simps survivors_count relevant_def)
qed

lemma assessment_sound_witness:
  "\<exists>a. assess_confidence default_confidence_config ''dns:a.example'' EV_DNS_NAME [sample_evidence ''e1'' CP_SUPPORTS (1/2)] = Inr a
    \<and> 0 \<le> ca_confidence a \<and> ca_confidence a \<le> 1"
  using assessment_sound[OF config_ok_default, of "''dns:a.example''" EV_DNS_NAME "[sample_evidence ''e1'' CP_SUPPORTS (1/2)]"]
  by (auto simp: strip_def is_space_def)

text \<open>Evidence that was already counted changes nothing: appending any of the evidence again gives the same
  assessment.\<close>
theorem assessment_ignores_repeats:
  assumes "config_ok cfg" and "set ys \<subseteq> set xs"
  shows "assess_confidence cfg subject ty (xs @ ys) = assess_confidence cfg subject ty xs"
  by (simp add: assess_confidence_def dedupe_repeats[OF assms])

lemma assessment_ignores_repeats_witness:
  "assess_confidence default_confidence_config ''dns:a.example'' EV_DNS_NAME
     ([sample_evidence ''e1'' CP_SUPPORTS (1/2), sample_evidence ''e2'' CP_CONTRADICTS (1/4)]
      @ [sample_evidence ''e2'' CP_CONTRADICTS (1/4)])
   = assess_confidence default_confidence_config ''dns:a.example'' EV_DNS_NAME
     [sample_evidence ''e1'' CP_SUPPORTS (1/2), sample_evidence ''e2'' CP_CONTRADICTS (1/4)]"
  by (rule assessment_ignores_repeats[OF config_ok_default]) simp

text \<open>C18: The order in which a provider supplies the evidence does not count: on evidence of distinct identifiers a
  permutation gives the same assessment, group by group.\<close>
theorem assessment_order_irrelevant:
  assumes "config_ok cfg" and "mset xs = mset ys" and "distinct (map ce_id xs)"
  shows "assess_confidence cfg subject ty xs = assess_confidence cfg subject ty ys"
proof -
  have d: "distinct (map ce_id (relevant subject xs))" using assms(3) by (simp add: relevant_def distinct_map_filter)
  have eq: "mset (relevant subject xs) = mset (relevant subject ys)" using assms(2) by (simp add: relevant_def)
  then have d': "distinct (map ce_id (relevant subject ys))" using d by (metis mset_eq_imp_distinct_iff mset_map)
  have "groups_of cfg (relevant subject xs) = groups_of cfg (relevant subject ys)"
    using collapse_perm[OF assms(1) eq d] by (simp add: collapse_Inr[OF assms(1)] groups_of_def)
  then show ?thesis
    by (simp add: assess_raw[OF assms(1)] raw_assessment_def survivors_distinct[OF d] survivors_distinct[OF d']
        assessment_perm[OF eq])
qed

lemma assessment_order_irrelevant_witness:
  "assess_confidence default_confidence_config ''dns:a.example'' EV_DNS_NAME
     [sample_evidence ''e1'' CP_SUPPORTS (1/2), sample_evidence ''e2'' CP_CONTRADICTS (1/4)]
   = assess_confidence default_confidence_config ''dns:a.example'' EV_DNS_NAME
     [sample_evidence ''e2'' CP_CONTRADICTS (1/4), sample_evidence ''e1'' CP_SUPPORTS (1/2)]"
  by (rule assessment_order_irrelevant[OF config_ok_default]) simp_all

text \<open>C19: Dependent evidence counts for something, but never for more than independent evidence: the support (and
  likewise the contradiction) is at least the strength of every single piece of evidence of its polarity and at most
  the noisy-or of all of them.\<close>
theorem dependence_never_inflates:
  assumes "config_ok cfg" and "distinct (map ce_id (filter (\<lambda>i. ce_subject i = subject) xs))"
    and "assess_confidence cfg subject ty xs = Inr a"
  shows "(\<forall>i \<in> set xs. ce_subject i = subject \<longrightarrow>
        strength_of cfg i \<le> (if ce_polarity i = CP_SUPPORTS then ca_support a else ca_contradiction a))
    \<and> ca_support a \<le> combine_noisy_or (map (strength_of cfg) (filter (\<lambda>i. ce_polarity i = CP_SUPPORTS)
        (filter (\<lambda>i. ce_subject i = subject) xs)))
    \<and> ca_contradiction a \<le> combine_noisy_or (map (strength_of cfg) (filter (\<lambda>i. ce_polarity i = CP_CONTRADICTS)
        (filter (\<lambda>i. ce_subject i = subject) xs)))"
proof -
  let ?xs = "filter (\<lambda>i. ce_subject i = subject) xs"
  have s: "survivors cfg subject xs = ?xs" using survivors_distinct[of subject xs cfg] assms(2) by (simp add: relevant_def)
  have f: "ca_support a = polarity_strength cfg (groups_of cfg ?xs) CP_SUPPORTS"
    "ca_contradiction a = polarity_strength cfg (groups_of cfg ?xs) CP_CONTRADICTS"
    by (simp_all add: assess_raw_fields[OF assms(1,3)] raw_assessment_simps s)
  have "strength_of cfg i \<le> (if ce_polarity i = CP_SUPPORTS then ca_support a else ca_contradiction a)"
    if "i \<in> set xs" "ce_subject i = subject" for i
    using that support_ge_each[OF assms(1), of i ?xs "ce_polarity i"] by (cases "ce_polarity i") (simp_all add: f)
  then show ?thesis unfolding f using support_le_independent[OF assms(1)] by blast
qed

lemma dependence_never_inflates_witness:
  "\<exists>a. assess_confidence default_confidence_config ''dns:a.example'' EV_DNS_NAME
       [sample_evidence ''e1'' CP_SUPPORTS (1/2), sample_evidence ''e2'' CP_SUPPORTS (1/4)] = Inr a
     \<and> 1/2 \<le> ca_support a"
proof -
  let ?xs = "[sample_evidence ''e1'' CP_SUPPORTS (1/2), sample_evidence ''e2'' CP_SUPPORTS (1/4)]"
  obtain a where a: "assess_confidence default_confidence_config ''dns:a.example'' EV_DNS_NAME ?xs = Inr a"
    using assess_Inr[OF config_ok_default, of "''dns:a.example''"] by (fastforce simp: strip_def is_space_def)
  have "strength_of default_confidence_config (sample_evidence ''e1'' CP_SUPPORTS (1/2)) = 1/2"
    by (simp add: strength_of_def evidence_raw_strength_def default_confidence_config_def default_class_weights_def
        sample_evidence_def dict_default_def clamp_unit_def)
  then show ?thesis using dependence_never_inflates[OF config_ok_default _ a] a by auto
qed

subsection \<open>The model over an evidence provider\<close>

text \<open>What the model may expect of a provider: it answers with evidence on the subject it was asked for.\<close>

locale evidence_source =
  fixes provider :: confidence_provider
  assumes on_subject: "provider e subject = Inr xs \<Longrightarrow> i \<in> set xs \<Longrightarrow> ce_subject i = subject"
begin

lemma nothing_filtered: "provider e subject = Inr xs \<Longrightarrow> relevant subject xs = xs"
  using on_subject by (auto simp: relevant_def intro: filter_True)

end

interpretation no_evidence: evidence_source empty_provider
  by unfold_locales (simp add: empty_provider_def)

interpretation stored_evidence: evidence_source "static_provider evidence" for evidence
  by unfold_locales (auto simp: static_provider_def)

lemma stored_evidence_all_used: "static_provider evidence e subject = Inr xs \<Longrightarrow> relevant subject xs = xs"
  by (rule stored_evidence.nothing_filtered)

text \<open>Evidence of one polarity moves the confidence in one direction only.\<close>

lemma one_sided:
  assumes "config_ok cfg" "assess_confidence cfg subject ty xs = Inr a"
  shows "(\<forall>i \<in> set (relevant subject xs). ce_polarity i = CP_SUPPORTS) \<Longrightarrow> ca_prior a \<le> ca_confidence a"
    and "(\<forall>i \<in> set (relevant subject xs). ce_polarity i = CP_CONTRADICTS) \<Longrightarrow> ca_confidence a \<le> ca_prior a"
proof -
  let ?r = "raw_assessment cfg subject ty xs"
  note b = confidence_bounds[OF assms(1) refl[of ?r]]
  note f = assess_raw_fields[OF assms]
  have none: "polarity_strength cfg (groups_of cfg (survivors cfg subject xs)) p = 0"
    if "\<forall>i \<in> set (relevant subject xs). ce_polarity i \<noteq> p" for p
    using no_evidence_of_polarity[OF assms(1)] that survivors_subset[of cfg subject xs] by blast
  show "ca_prior a \<le> ca_confidence a" if "\<forall>i \<in> set (relevant subject xs). ce_polarity i = CP_SUPPORTS"
  proof -
    have "ca_contradiction ?r = 0" using that by (simp add: raw_assessment_simps none)
    then show ?thesis using b(1) or_left[OF b(3,4)] by (simp add: f)
  qed
  show "ca_confidence a \<le> ca_prior a" if "\<forall>i \<in> set (relevant subject xs). ce_polarity i = CP_CONTRADICTS"
  proof -
    have "ca_support ?r = 0" using that by (simp add: raw_assessment_simps none)
    then show ?thesis using b(7) by (simp add: f)
  qed
qed

lemma own_evidence:
  assumes "event_to_confidence_evidence cfg sk cr e = Inr own"
  shows "ce_polarity own = classify_event_polarity e" "ce_id own = strip (event_id e)"
  using assms by (auto simp: event_to_confidence_evidence_def make_confidence_evidence_def bind_res_Inr_iff not_blank_Inr Let_def)

text \<open>A negative observation never raises the confidence above the prior, and any other never lowers it below: what
  \<open>ConfidenceModel.assess\<close> answers for an event moves one way only, as long as the stored evidence on the subject
  has the polarity of the event.\<close>
theorem event_moves_confidence_one_way:
  assumes "config_ok cfg" and "model_assess provider cfg subject_key causal_root e = Inr a"
    and "\<And>subject xs i. provider e subject = Inr xs \<Longrightarrow> i \<in> set xs \<Longrightarrow> ce_polarity i = classify_event_polarity e"
  shows "if classify_event_polarity e = CP_CONTRADICTS then ca_confidence a \<le> ca_prior a else ca_prior a \<le> ca_confidence a"
proof -
  obtain subject xs own where p: "provider e subject = Inr xs"
    and o: "event_to_confidence_evidence cfg (Some subject) causal_root e = Inr own"
    and a: "assess_confidence cfg subject (ev_type e) (own # xs) = Inr a"
    using assms(2) unfolding model_assess_def bind_res_Inr_iff by blast
  have "\<forall>i \<in> set (relevant subject (own # xs)). ce_polarity i = classify_event_polarity e"
    using assms(3)[OF p] own_evidence(1)[OF o] by (auto simp: relevant_def)
  then show ?thesis using one_sided[OF assms(1) a] by (cases "classify_event_polarity e") simp_all
qed

definition negative_event :: event where
  "negative_event =
     \<lparr>event_id = ''evt_1'', ev_type = EV_DNS_NAME, ev_value = ''gone.example'', ev_source = ''dns:8.8.8.8'',
      parent_event_id = None, first_seen = 0, last_seen = 0, ev_scope_state = SC_UNKNOWN,
      ev_confidence = 1, ev_novelty = 0, ev_depth = 0, ev_tags = {''nxdomain''}, ev_metadata = []\<rparr>"

lemma independence_nonblank:
  assumes "meta_text ''confidence_independence_key'' e = None"
  shows "strip (explicit_independence_key e subject provider upstream cls) \<noteq> []"
proof -
  have "CHR ''e'' \<in> set (explicit_independence_key e subject provider upstream cls)"
    using assms by (auto simp: explicit_independence_key_def split: option.splits)
  then show ?thesis by (rule strip_nonblank) (simp add: is_space_def)
qed

lemma negative_event_texts:
  "strip (event_id negative_event) = ''evt_1''" "strip (ev_source negative_event) = ''dns:8.8.8.8''"
  "strip ''dns:8.8.8.8'' = ''dns:8.8.8.8''" "strip ''dns:gone.example'' = ''dns:gone.example''"
  "strip (confidence_source_family ''dns:8.8.8.8'') = ''dns''"
  "strip (confidence_source_provider ''dns:8.8.8.8'') = ''dns:8.8.8.8''"
  "unit (ev_confidence negative_event)" "meta_text ''confidence_independence_key'' negative_event = None"
  by (simp_all add: negative_event_def meta_text_def text_value_def unit_def confidence_source_family_def
      confidence_source_provider_def strip_def is_space_def lower_def lower_char_def before_def)

lemma negative_event_assessed: "\<exists>a. model_assess empty_provider default_confidence_config (Some ''dns:gone.example'') None negative_event = Inr a"
proof -
  let ?cfg = default_confidence_config and ?s = "''dns:gone.example''"
  have "\<exists>own. event_to_confidence_evidence ?cfg (Some ?s) None negative_event = Inr own"
    unfolding event_to_confidence_evidence_def make_confidence_evidence_def Let_def
    using independence_nonblank[of negative_event] negative_event_texts
    by (simp add: subject_or_key_def not_blank_def unit_interval_ok event_reliability_modifier_def Let_def)
  then obtain own where o: "event_to_confidence_evidence ?cfg (Some ?s) None negative_event = Inr own" by blast
  have "strip ?s \<noteq> []" by (simp add: strip_def is_space_def)
  then obtain x where "assess_confidence ?cfg ?s (ev_type negative_event) [own] = Inr x"
    using assess_Inr[OF config_ok_default] by blast
  then show ?thesis using o by (simp add: model_assess_def subject_or_key_def empty_provider_def)
qed

lemma event_moves_confidence_one_way_witness:
  "\<exists>a. model_assess empty_provider default_confidence_config (Some ''dns:gone.example'') None negative_event = Inr a
    \<and> ca_confidence a \<le> ca_prior a"
proof -
  obtain a where a: "model_assess empty_provider default_confidence_config (Some ''dns:gone.example'') None negative_event = Inr a"
    using negative_event_assessed by blast
  have "classify_event_polarity negative_event = CP_CONTRADICTS"
    by (simp add: classify_event_polarity_def carries_tag_def normalized_event_tags_def negative_event_def
        strip_def is_space_def lower_def lower_char_def)
  then show ?thesis
    using event_moves_confidence_one_way[OF config_ok_default a] a by (simp add: empty_provider_def)
qed

subsection \<open>Boundary behaviour\<close>

text \<open>The discounts depend on the rank of a group, so one more supporting group can lower the confidence: a third group
  that shares the family of one and the causal origin of another, and is stronger than both, discounts both.\<close>

definition linked_group :: "string \<Rightarrow> string \<Rightarrow> string \<Rightarrow> rat \<Rightarrow> confidence_group" where
  "linked_group key family upstream strength =
     \<lparr>cg_independence = key, cg_upstream = Some upstream, cg_polarity = CP_SUPPORTS, cg_families = [family],
      cg_providers = [family], cg_classes = [EC_ACTIVE_CONFIRMATION], cg_ids = [key], cg_raw = strength, cg_factor = 1,
      cg_effective = strength, cg_repeats = 1\<rparr>"

lemma linked_group_simps [simp]:
  "cg_independence (linked_group k f u s) = k" "cg_upstream (linked_group k f u s) = Some u"
  "cg_polarity (linked_group k f u s) = CP_SUPPORTS" "cg_families (linked_group k f u s) = [f]"
  "cg_raw (linked_group k f u s) = s"
  by (simp_all add: linked_group_def)

lemma more_support_can_lower_confidence:
  defines "few \<equiv> [linked_group ''a'' ''dns'' ''u'' (1/2), linked_group ''b'' ''http'' ''v'' (1/2)]"
  shows "polarity_strength default_confidence_config few CP_SUPPORTS = 3/4"
    and "polarity_strength default_confidence_config (linked_group ''c'' ''dns'' ''v'' (51/100) # few) CP_SUPPORTS = 3579/5000"
  unfolding few_def polarity_strength_eq[OF config_ok_default]
  by (simp_all add: discount_polarity_def dependency_factor_def count_of_def bump_def dict_default_def
      combine_noisy_or_def clamp_unit_def default_confidence_config_def)

text \<open>The split is guarded, the port is not: the key of a URL whose port is invalid raises.\<close>

lemma invalid_port_raises:
  assumes "ev_type e = EV_URL" and "meta_text ''confidence_subject_key'' e = None"
    and "urlsplit (strip (ev_value e)) = Inr u" and "u_scheme u \<noteq> []" and "u_netloc u \<noteq> []" and "port u = Inl x"
  shows "confidence_subject_key e = Inl x"
  using assms by (simp add: confidence_subject_key_def normalize_urlish_def Let_def)

text \<open>A table of class weights without \<open>OTHER\<close> is accepted by the constructor, and fails on the first evidence.\<close>

lemma missing_fallback_raises:
  assumes "dict_get (cc_class_weights cfg) EC_OTHER = None"
  shows "evidence_raw_strength cfg i = Inl (KeyError ''OTHER'')"
  using assms by (simp add: evidence_raw_strength_def)

end
