(* ===== verification/Novelty.thy ===== *)
theory Novelty
  imports Confidence
begin

section \<open>Novelty scoring (recon/intelligence/novelty.py)\<close>

text \<open>
  How new an observation is against what is already known: signals that raise or lower the baseline of the event
  type, each kept as a factor of the explanation, combined by noisy-or. Numbers are exact rationals; \<open>novelty_math\<close>
  holds \<open>math.log1p\<close> and \<open>math.log\<close>, whose values are not rational, and the text of a number in \<open>str\<close>. The two
  regular expressions are written out as the scans that \<open>finditer\<close> makes with them.
\<close>

record novelty_math =
  nm_log1p :: "rat \<Rightarrow> rat"
  nm_log :: "rat \<Rightarrow> rat"
  nm_show_number :: "rat \<Rightarrow> string"

subsection \<open>Factors\<close>

datatype novelty_kind =
    NK_EVENT_TYPE_BASELINE | NK_FIRST_OBSERVATION | NK_LOW_OBSERVATION_COUNT | NK_REPEATED_OBSERVATION
  | NK_HISTORICAL_ONLY | NK_LIVE_AFTER_HISTORICAL | NK_NEW_HOST | NK_NEW_URL | NK_NEW_ENDPOINT | NK_NEW_CERT_SAN
  | NK_NEW_JAVASCRIPT | NK_NEW_ASSET | NK_RESURRECTED_HOST | NK_REAPPEARED_ASSET | NK_DISAPPEARED_HOST
  | NK_DISAPPEARED_ASSET | NK_IP_CHANGED | NK_STATUS_CHANGED | NK_TITLE_CHANGED | NK_BODY_HASH_CHANGED
  | NK_CERTIFICATE_CHANGED | NK_SCOPE_CHANGED | NK_STATE_CHANGED | NK_ENVIRONMENT_SIGNAL | NK_API_VERSION_SIGNAL
  | NK_RARE_FINGERPRINT | NK_COMMON_FINGERPRINT | NK_RARE_TECH_STACK | NK_COMMON_TECH_STACK | NK_RARE_NAMING
  | NK_COMMON_NAMING | NK_STATIC_SURFACE | NK_CDN_SURFACE | NK_MARKETING_SURFACE

fun novelty_kind_value :: "novelty_kind \<Rightarrow> string" where
  "novelty_kind_value NK_EVENT_TYPE_BASELINE = ''EVENT_TYPE_BASELINE''"
| "novelty_kind_value NK_FIRST_OBSERVATION = ''FIRST_OBSERVATION''"
| "novelty_kind_value NK_LOW_OBSERVATION_COUNT = ''LOW_OBSERVATION_COUNT''"
| "novelty_kind_value NK_REPEATED_OBSERVATION = ''REPEATED_OBSERVATION''"
| "novelty_kind_value NK_HISTORICAL_ONLY = ''HISTORICAL_ONLY''"
| "novelty_kind_value NK_LIVE_AFTER_HISTORICAL = ''LIVE_AFTER_HISTORICAL''"
| "novelty_kind_value NK_NEW_HOST = ''NEW_HOST''"
| "novelty_kind_value NK_NEW_URL = ''NEW_URL''"
| "novelty_kind_value NK_NEW_ENDPOINT = ''NEW_ENDPOINT''"
| "novelty_kind_value NK_NEW_CERT_SAN = ''NEW_CERT_SAN''"
| "novelty_kind_value NK_NEW_JAVASCRIPT = ''NEW_JAVASCRIPT''"
| "novelty_kind_value NK_NEW_ASSET = ''NEW_ASSET''"
| "novelty_kind_value NK_RESURRECTED_HOST = ''RESURRECTED_HOST''"
| "novelty_kind_value NK_REAPPEARED_ASSET = ''REAPPEARED_ASSET''"
| "novelty_kind_value NK_DISAPPEARED_HOST = ''DISAPPEARED_HOST''"
| "novelty_kind_value NK_DISAPPEARED_ASSET = ''DISAPPEARED_ASSET''"
| "novelty_kind_value NK_IP_CHANGED = ''IP_CHANGED''"
| "novelty_kind_value NK_STATUS_CHANGED = ''STATUS_CHANGED''"
| "novelty_kind_value NK_TITLE_CHANGED = ''TITLE_CHANGED''"
| "novelty_kind_value NK_BODY_HASH_CHANGED = ''BODY_HASH_CHANGED''"
| "novelty_kind_value NK_CERTIFICATE_CHANGED = ''CERTIFICATE_CHANGED''"
| "novelty_kind_value NK_SCOPE_CHANGED = ''SCOPE_CHANGED''"
| "novelty_kind_value NK_STATE_CHANGED = ''STATE_CHANGED''"
| "novelty_kind_value NK_ENVIRONMENT_SIGNAL = ''ENVIRONMENT_SIGNAL''"
| "novelty_kind_value NK_API_VERSION_SIGNAL = ''API_VERSION_SIGNAL''"
| "novelty_kind_value NK_RARE_FINGERPRINT = ''RARE_FINGERPRINT''"
| "novelty_kind_value NK_COMMON_FINGERPRINT = ''COMMON_FINGERPRINT''"
| "novelty_kind_value NK_RARE_TECH_STACK = ''RARE_TECH_STACK''"
| "novelty_kind_value NK_COMMON_TECH_STACK = ''COMMON_TECH_STACK''"
| "novelty_kind_value NK_RARE_NAMING = ''RARE_NAMING''"
| "novelty_kind_value NK_COMMON_NAMING = ''COMMON_NAMING''"
| "novelty_kind_value NK_STATIC_SURFACE = ''STATIC_SURFACE''"
| "novelty_kind_value NK_CDN_SURFACE = ''CDN_SURFACE''"
| "novelty_kind_value NK_MARKETING_SURFACE = ''MARKETING_SURFACE''"

datatype factor_direction = FD_POSITIVE | FD_NEGATIVE | FD_NEUTRAL

record novelty_factor =
  nf_kind :: novelty_kind
  nf_direction :: factor_direction
  nf_weight :: rat
  nf_value :: rat
  nf_reason :: string
  nf_metadata :: "(string, json) dict"

definition make_novelty_factor :: "novelty_factor \<Rightarrow> novelty_factor res" where
  "make_novelty_factor f =
     bind_res (unit_interval ''weight'' (nf_weight f)) (\<lambda>_.
     bind_res (unit_interval ''value'' (nf_value f)) (\<lambda>_.
     bind_res (not_blank ''novelty factor reason must not be blank'' (nf_reason f)) (\<lambda>reason.
     Inr (f\<lparr>nf_reason := reason\<rparr>))))"

definition contribution :: "novelty_factor \<Rightarrow> rat" where
  "contribution f =
     (case nf_direction f of
        FD_NEGATIVE \<Rightarrow> - (nf_weight f * nf_value f)
      | FD_NEUTRAL \<Rightarrow> 0
      | FD_POSITIVE \<Rightarrow> nf_weight f * nf_value f)"

subsection \<open>History\<close>

record novelty_history =
  nh_subject :: string
  nh_observations :: int
  nh_live :: int
  nh_historical :: int
  nh_families :: int
  nh_first_seen :: "time option"
  nh_previous_seen :: "time option"
  nh_last_seen :: "time option"
  nh_changes :: "string list"
  nh_fingerprints :: "string list"
  nh_fingerprint_peers :: int
  nh_fingerprint_known :: bool
  nh_technology_peers :: int
  nh_technology_known :: bool
  nh_naming :: "rat option"
  nh_historical_only :: bool
  nh_live_after :: bool
  nh_metadata :: "(string, json) dict"

definition new_history :: "string \<Rightarrow> novelty_history" where
  "new_history subject =
     \<lparr>nh_subject = subject, nh_observations = 0, nh_live = 0, nh_historical = 0, nh_families = 0, nh_first_seen = None,
      nh_previous_seen = None, nh_last_seen = None, nh_changes = [], nh_fingerprints = [], nh_fingerprint_peers = 0,
      nh_fingerprint_known = False, nh_technology_peers = 0, nh_technology_known = False, nh_naming = None,
      nh_historical_only = False, nh_live_after = False, nh_metadata = []\<rparr>"

text \<open>\<open>tuple(sorted({...}))\<close> over the texts that are not blank.\<close>

definition sorted_texts :: "(string \<Rightarrow> string) \<Rightarrow> string list \<Rightarrow> string list" where
  "sorted_texts f vs = sort (remdups (map (\<lambda>v. f (strip v)) (filter (\<lambda>v. strip v \<noteq> []) vs)))"

definition make_novelty_history :: "novelty_history \<Rightarrow> novelty_history res" where
  "make_novelty_history h =
     bind_res (not_blank ''subject_key must not be blank'' (nh_subject h)) (\<lambda>subject.
     if list_ex (\<lambda>n. n < 0) [nh_observations h, nh_live h, nh_historical h, nh_families h, nh_fingerprint_peers h,
          nh_technology_peers h] then Inl (ValidationError ''greater_than_equal'')
     else bind_res (case nh_naming h of None \<Rightarrow> Inr () | Some x \<Rightarrow> unit_interval ''naming_frequency'' x) (\<lambda>_.
     if nh_observations h < nh_live h
     then Inl (ValidationError ''live_observation_count cannot exceed observation_count'')
     else if nh_observations h < nh_historical h
     then Inl (ValidationError ''historical_observation_count cannot exceed observation_count'')
     else Inr (h\<lparr>nh_subject := subject, nh_changes := sorted_texts upper (nh_changes h),
            nh_fingerprints := sorted_texts (\<lambda>s. s) (nh_fingerprints h)\<rparr>)))"

text \<open>What is read of a snapshot change: the text of its type, and its fingerprint when that is a string.\<close>

record surface_change =
  sc_change_type :: "string option"
  sc_fingerprint :: "string option"

fun add_changes :: "surface_change list \<Rightarrow> string list \<times> string list \<Rightarrow> string list \<times> string list" where
  "add_changes [] acc = acc"
| "add_changes (c # cs) (types, fps) =
     (case sc_change_type c of
        None \<Rightarrow> add_changes cs (types, fps)
      | Some raw \<Rightarrow>
          let ty = upper (strip raw);
              types' = (if ty \<noteq> [] then types @ [ty] else types);
              fps' = (case opt_text (sc_fingerprint c) of None \<Rightarrow> fps | Some f \<Rightarrow> fps @ [f])
          in add_changes cs (types', fps'))"

definition history_with_surface_changes :: "novelty_history \<Rightarrow> surface_change list \<Rightarrow> novelty_history res" where
  "history_with_surface_changes h cs =
     (case add_changes cs (nh_changes h, nh_fingerprints h) of
        (types, fps) \<Rightarrow>
          make_novelty_history (h\<lparr>nh_changes := sort (remdups types), nh_fingerprints := sort (remdups fps)\<rparr>))"

subsection \<open>Configuration\<close>

record novelty_config =
  nc_default_baseline :: rat
  nc_baselines :: "(event_type, rat) dict"
  nc_first :: rat
  nc_low :: rat
  nc_historical_only :: rat
  nc_live_after :: rat
  nc_environment :: rat
  nc_api_version :: rat
  nc_rare_fingerprint :: rat
  nc_rare_technology :: rat
  nc_rare_naming :: rat
  nc_repeated :: rat
  nc_common_fingerprint :: rat
  nc_common_technology :: rat
  nc_common_naming :: rat
  nc_static :: rat
  nc_cdn :: rat
  nc_marketing :: rat
  nc_change_weights :: "(string, rat) dict"

definition default_baselines :: "(event_type, rat) dict" where
  "default_baselines =
     [(EV_ROOT_DOMAIN, 15/100), (EV_DNS_NAME, 38/100), (EV_DNS_RECORD, 24/100), (EV_IP_ADDRESS, 22/100),
      (EV_ASN, 12/100), (EV_CIDR, 16/100), (EV_URL, 38/100), (EV_URL_PATH, 28/100), (EV_HTTP_SERVICE, 34/100),
      (EV_HTTP_RESPONSE, 24/100), (EV_CERTIFICATE, 32/100), (EV_CERT_SAN, 44/100), (EV_FAVICON, 30/100),
      (EV_TECHNOLOGY, 18/100), (EV_FINGERPRINT, 30/100), (EV_JAVASCRIPT, 42/100), (EV_API_ENDPOINT, 52/100),
      (EV_PARAMETER_NAME, 35/100), (EV_ARTIFACT, 40/100), (EV_MOBILE_ARTIFACT, 45/100), (EV_PROJECT_NAME, 34/100),
      (EV_VOCAB_TOKEN, 16/100), (EV_NAMING_PATTERN, 32/100), (EV_VULNERABILITY_CANDIDATE, 58/100),
      (EV_VULNERABILITY_FINDING, 82/100), (EV_RELATIONSHIP, 18/100), (EV_POLICY_BLOCK, 5/100),
      (EV_HUMAN_REVIEW, 20/100)]"

definition default_change_weights :: "(string, rat) dict" where
  "default_change_weights =
     [(''NEW_HOST'', 58/100), (''NEW_URL'', 48/100), (''NEW_ENDPOINT'', 70/100), (''NEW_CERT_SAN'', 58/100),
      (''NEW_JAVASCRIPT'', 52/100), (''NEW_ASSET'', 45/100), (''RESURRECTED_HOST'', 78/100),
      (''REAPPEARED_ASSET'', 68/100), (''DISAPPEARED_HOST'', 48/100), (''DISAPPEARED_ASSET'', 40/100),
      (''IP_CHANGED'', 44/100), (''STATUS_CHANGED'', 28/100), (''TITLE_CHANGED'', 24/100),
      (''BODY_HASH_CHANGED'', 42/100), (''CERTIFICATE_CHANGED'', 48/100), (''SCOPE_CHANGED'', 34/100),
      (''STATE_CHANGED'', 20/100)]"

definition default_novelty_config :: novelty_config where
  "default_novelty_config =
     \<lparr>nc_default_baseline = 30/100, nc_baselines = default_baselines, nc_first = 34/100, nc_low = 16/100,
      nc_historical_only = 24/100, nc_live_after = 38/100, nc_environment = 20/100, nc_api_version = 12/100,
      nc_rare_fingerprint = 24/100, nc_rare_technology = 14/100, nc_rare_naming = 18/100, nc_repeated = 42/100,
      nc_common_fingerprint = 28/100, nc_common_technology = 16/100, nc_common_naming = 14/100, nc_static = 16/100,
      nc_cdn = 18/100, nc_marketing = 14/100, nc_change_weights = default_change_weights\<rparr>"

fun upper_keys :: "(string, rat) dict \<Rightarrow> (string, rat) dict \<Rightarrow> (string, rat) dict" where
  "upper_keys [] d = d"
| "upper_keys ((k, v) # kvs) d = upper_keys kvs (dict_set (upper (strip k)) v d)"

definition config_weights :: "novelty_config \<Rightarrow> rat list" where
  "config_weights c =
     [nc_default_baseline c, nc_first c, nc_low c, nc_historical_only c, nc_live_after c, nc_environment c,
      nc_api_version c, nc_rare_fingerprint c, nc_rare_technology c, nc_rare_naming c, nc_repeated c,
      nc_common_fingerprint c, nc_common_technology c, nc_common_naming c, nc_static c, nc_cdn c, nc_marketing c]"

definition make_novelty_config :: "novelty_config \<Rightarrow> novelty_config res" where
  "make_novelty_config c =
     bind_res (units_in_range ''0..1'' (config_weights c)) (\<lambda>_.
     bind_res (units_in_range ''baseline must be between 0 and 1'' (dict_values (nc_baselines c))) (\<lambda>_.
     bind_res (units_in_range ''change weight must be 0..1'' (dict_values (nc_change_weights c))) (\<lambda>_.
     Inr (c\<lparr>nc_change_weights := upper_keys (nc_change_weights c) []\<rparr>))))"

section \<open>The novelty of an event (recon/intelligence/novelty.py)\<close>

text \<open>
  The identity of a subject, the scans of its texts, the signals in the order the code adds them, and the assessment;
  \<open>NoveltyModel\<close> with the history provider as an argument. Adding a signal only appends to the lists of factors and
  strengths, so the signals are a list and one fold adds them.
\<close>

subsection \<open>Subjects\<close>

definition canonical_http_url :: "string \<Rightarrow> string option res" where
  "canonical_http_url v =
     (case urlsplit v of
        Inl _ \<Rightarrow> Inr None
      | Inr u \<Rightarrow>
          let scheme = lower (u_scheme u)
          in if scheme \<noteq> ''http'' \<and> scheme \<noteq> ''https'' then Inr None
             else case hostname u of
                 None \<Rightarrow> Inr None
               | Some h \<Rightarrow>
                   let name = rstrip_dots (lower h)
                   in bind_res (port u) (\<lambda>p.
                        let host = (case p of
                              None \<Rightarrow> name
                            | Some n \<Rightarrow> if scheme = ''http'' \<and> n = 80 \<or> scheme = ''https'' \<and> n = 443 then name
                                        else name @ '':'' @ numeral 10 n)
                        in Inr (Some (unsplit_url scheme host (if u_path u = [] then ''/'' else u_path u) (u_query u)))))"

definition novelty_subject_key :: "event \<Rightarrow> string res" where
  "novelty_subject_key e =
     (let v = strip (ev_value e); ty = event_type_value (ev_type e) @ '':''
      in if ev_type e \<in> {EV_DNS_NAME, EV_CERT_SAN}
         then (let n = rstrip_dots (lower v) in Inr (ty @ (if prefix ''*.'' n then drop 2 n else n)))
         else if ev_type e \<in> {EV_URL, EV_API_ENDPOINT, EV_JAVASCRIPT, EV_HTTP_SERVICE}
         then bind_res (canonical_http_url v) (\<lambda>u.
                Inr (ty @ (case u of Some c \<Rightarrow> if c = [] then v else c | None \<Rightarrow> v)))
         else Inr (ty @ v))"

subsection \<open>Scans\<close>

definition separator :: "char \<Rightarrow> bool" where
  "separator c \<longleftrightarrow> c \<in> {CHR ''.'', CHR ''_'', CHR ''/'', CHR ''-''}"

text \<open>\<open>(?:$|[._/-])\<close> after a word: the end, the end before a final line feed, or a separator, which is consumed.\<close>

definition ends_token :: "string \<Rightarrow> bool" where
  "ends_token rest \<longleftrightarrow> rest = [] \<or> rest = [CHR 0x0A] \<or> separator (hd rest)"

definition after_token :: "string \<Rightarrow> string" where
  "after_token rest = (if rest = [] \<or> rest = [CHR 0x0A] then rest else tl rest)"

definition environment_words :: "string list" where
  "environment_words = [''prod'', ''production'', ''prd'', ''stage'', ''staging'', ''stg'', ''preprod'', ''pre-prod'',
     ''preproduction'', ''dev'', ''development'', ''test'', ''testing'', ''qa'', ''uat'', ''sandbox'', ''demo'',
     ''beta'', ''alpha'', ''canary'', ''preview'']"

definition environment_at :: "string \<Rightarrow> string option" where
  "environment_at s = find (\<lambda>w. prefix w s \<and> ends_token (drop (length w) s)) environment_words"

definition version_at :: "string \<Rightarrow> string option" where
  "version_at s =
     (case s of
        [] \<Rightarrow> None
      | c # ds \<Rightarrow>
          let n = takeWhile (\<lambda>d. 48 \<le> char_code d \<and> char_code d \<le> 57) ds
          in if c = CHR ''v'' \<and> 1 \<le> length n \<and> length n \<le> 4 \<and> ends_token (drop (length n) ds) then Some (c # n) else None)"

text \<open>\<open>finditer\<close>: a word starts at the beginning of the text or after a separator that no earlier match consumed.\<close>

function scan_tokens :: "(string \<Rightarrow> string option) \<Rightarrow> bool \<Rightarrow> string \<Rightarrow> string list" where
  "scan_tokens word_at start s =
     (case (if start then word_at s else None) of
        Some w \<Rightarrow> w # scan_tokens word_at False (after_token (drop (length w) s))
      | None \<Rightarrow>
          (case s of
             [] \<Rightarrow> []
           | c # s' \<Rightarrow>
               (case (if separator c then word_at s' else None) of
                  Some w \<Rightarrow> w # scan_tokens word_at False (after_token (drop (length w) s'))
                | None \<Rightarrow> scan_tokens word_at False s')))"
  by pat_completeness auto
termination scan_tokens
  by (relation "measure (\<lambda>(_, start, s). 2 * length s + (if start then 1 else 0))")
    (auto simp: after_token_def split: if_splits)

declare scan_tokens.simps [simp del]

text \<open>The value of the event and the texts of its metadata, when they are not too long.\<close>

fun meta_texts :: "event \<Rightarrow> string list \<Rightarrow> string list" where
  "meta_texts e [] = []"
| "meta_texts e (k # ks) =
     (case dict_get (ev_metadata e) k of
        Some (J_string v) \<Rightarrow> if length v \<le> 4096 then v # meta_texts e ks else meta_texts e ks
      | _ \<Rightarrow> meta_texts e ks)"

definition found_tokens :: "(string \<Rightarrow> string option) \<Rightarrow> string list \<Rightarrow> string list" where
  "found_tokens word_at candidates =
     sort (remdups (concat (map (\<lambda>c. map lower (scan_tokens word_at True (lower c))) candidates)))"

definition environment_signals :: "event \<Rightarrow> string list" where
  "environment_signals e = found_tokens environment_at
     (ev_value e # meta_texts e [''hostname'', ''url'', ''path'', ''seed_domain'', ''host_header'', ''subject''])"

definition api_version_signals :: "event \<Rightarrow> string list" where
  "api_version_signals e =
     (if ev_type e \<notin> {EV_API_ENDPOINT, EV_URL, EV_URL_PATH, EV_JAVASCRIPT} then []
      else found_tokens version_at (ev_value e # meta_texts e [''path'']))"

text \<open>\<open>str\<close> of a metadata entry, and the words of a text.\<close>

fun repr_json :: "novelty_math \<Rightarrow> json \<Rightarrow> string" where
  "repr_json m J_null = ''None''"
| "repr_json m (J_bool b) = (if b then ''True'' else ''False'')"
| "repr_json m (J_number x) = nm_show_number m x"
| "repr_json m (J_string s) = py_repr s"
| "repr_json m (J_list vs) = ''['' @ join '', '' (map (repr_json m) vs) @ '']''"
| "repr_json m (J_object kvs) = CHR 0x7B # join '', '' (map (\<lambda>kv. py_repr (fst kv) @ '': '' @ repr_json m (snd kv)) kvs) @ [CHR 0x7D]"

definition str_entry :: "novelty_math \<Rightarrow> event \<Rightarrow> string \<Rightarrow> string" where
  "str_entry m e k =
     (case dict_get (ev_metadata e) k of None \<Rightarrow> [] | Some (J_string s) \<Rightarrow> s | Some j \<Rightarrow> repr_json m j)"

definition alnum :: "char \<Rightarrow> bool" where
  "alnum c \<longleftrightarrow> 97 \<le> char_code c \<and> char_code c \<le> 122 \<or> 48 \<le> char_code c \<and> char_code c \<le> 57"

fun word_runs :: "string \<Rightarrow> string list" where
  "word_runs [] = [[]]"
| "word_runs (c # s) =
     (if alnum c then (c # hd (word_runs s)) # tl (word_runs s) else [] # word_runs s)"

definition word_tokens :: "string \<Rightarrow> string list" where
  "word_tokens s = filter (\<lambda>t. t \<noteq> []) (word_runs s)"

definition surface_text :: "novelty_math \<Rightarrow> event \<Rightarrow> string" where
  "surface_text m e = join '' '' [lower (strip (ev_source e)), lower (strip (ev_value e)),
     join '' '' (sorted_list_of_set (normalized_event_tags e)),
     lower (str_entry m e ''role''), lower (str_entry m e ''surface_role'')]"

definition low_novelty_surface_roles :: "novelty_math \<Rightarrow> event \<Rightarrow> string list" where
  "low_novelty_surface_roles m e =
     (let tokens = word_tokens (surface_text m e); any = (\<lambda>ws. list_ex (\<lambda>w. w \<in> set tokens) ws)
      in (if any [''static'', ''assets'', ''images'', ''img'', ''media'']
             \<and> ev_type e \<in> {EV_DNS_NAME, EV_URL, EV_URL_PATH, EV_HTTP_SERVICE, EV_HTTP_RESPONSE, EV_JAVASCRIPT}
          then [''static''] else [])
       @ (if any [''cdn'', ''edge''] then [''cdn''] else [])
       @ (if any [''marketing'', ''blog'', ''landing'', ''press'', ''news''] then [''marketing''] else []))"

definition event_is_historical_only :: "event \<Rightarrow> novelty_history \<Rightarrow> bool" where
  "event_is_historical_only e h =
     (let source = lower (strip (ev_source e));
          historical = carries_tag ''historical'' e \<or> carries_tag ''archive'' e \<or> carries_tag ''archived'' e
            \<or> prefix ''archives'' source \<or> prefix ''archive'' source
            \<or> contains ''wayback'' source \<or> contains ''commoncrawl'' source
      in if \<not> historical then False else nh_live h \<le> 0)"

subsection \<open>Strengths\<close>

definition clamp_score :: "rat \<Rightarrow> rat" where
  "clamp_score x = min 1 (max 0 x)"

definition probability_union :: "rat list \<Rightarrow> rat" where
  "probability_union values = clamp_score (1 - foldl (\<lambda>remaining v. remaining * (1 - clamp_score v)) 1 values)"

definition repetition_penalty_value :: "novelty_math \<Rightarrow> int \<Rightarrow> rat" where
  "repetition_penalty_value m n =
     (if n \<le> 3 then 0 else clamp_score (nm_log1p m (of_int (n - 3)) / nm_log m 128))"

definition peer_commonness :: "novelty_math \<Rightarrow> int \<Rightarrow> int \<Rightarrow> rat" where
  "peer_commonness m peers pivot =
     (if peers < pivot then 0 else clamp_score (nm_log1p m (of_int (peers - pivot + 1)) / nm_log m 128))"

definition novelty_factor_for_change :: "string \<Rightarrow> novelty_kind option" where
  "novelty_factor_for_change change =
     find (\<lambda>k. novelty_kind_value k = upper (strip change))
       [NK_NEW_HOST, NK_NEW_URL, NK_NEW_ENDPOINT, NK_NEW_CERT_SAN, NK_NEW_JAVASCRIPT, NK_NEW_ASSET,
        NK_RESURRECTED_HOST, NK_REAPPEARED_ASSET, NK_DISAPPEARED_HOST, NK_DISAPPEARED_ASSET, NK_IP_CHANGED,
        NK_STATUS_CHANGED, NK_TITLE_CHANGED, NK_BODY_HASH_CHANGED, NK_CERTIFICATE_CHANGED, NK_SCOPE_CHANGED,
        NK_STATE_CHANGED]"

section \<open>Novelty assessments (recon/intelligence/novelty.py)\<close>

text \<open>The signals of an event against its history, the assessment, and \<open>NoveltyModel\<close>.\<close>

subsection \<open>Signals\<close>

text \<open>One call of \<open>add_positive\<close> or \<open>add_negative\<close>.\<close>

record novelty_signal =
  ng_direction :: factor_direction
  ng_kind :: novelty_kind
  ng_weight :: rat
  ng_value :: rat
  ng_reason :: string
  ng_metadata :: "(string, json) dict"

abbreviation positive_signal ::
  "novelty_kind \<Rightarrow> rat \<Rightarrow> rat \<Rightarrow> string \<Rightarrow> (string, json) dict \<Rightarrow> novelty_signal" where
  "positive_signal k w v r m \<equiv>
     \<lparr>ng_direction = FD_POSITIVE, ng_kind = k, ng_weight = w, ng_value = v, ng_reason = r, ng_metadata = m\<rparr>"

abbreviation negative_signal ::
  "novelty_kind \<Rightarrow> rat \<Rightarrow> rat \<Rightarrow> string \<Rightarrow> (string, json) dict \<Rightarrow> novelty_signal" where
  "negative_signal k w v r m \<equiv>
     \<lparr>ng_direction = FD_NEGATIVE, ng_kind = k, ng_weight = w, ng_value = v, ng_reason = r, ng_metadata = m\<rparr>"

definition count_json :: "string \<Rightarrow> int \<Rightarrow> (string, json) dict" where
  "count_json key n = [(key, J_number (of_int n))]"

definition observation_signals :: "novelty_math \<Rightarrow> novelty_config \<Rightarrow> novelty_history \<Rightarrow> novelty_signal list" where
  "observation_signals m cfg h =
     (if nh_observations h \<le> 0
      then [positive_signal NK_FIRST_OBSERVATION (nc_first cfg) 1 ''subject has no prior normalized observations'' []]
      else if nh_observations h \<le> 3
      then [positive_signal NK_LOW_OBSERVATION_COUNT (nc_low cfg) (of_int (4 - nh_observations h) / 3)
              ''subject has only a small prior observation history'' (count_json ''observation_count'' (nh_observations h))]
      else [negative_signal NK_REPEATED_OBSERVATION (nc_repeated cfg) (repetition_penalty_value m (nh_observations h))
              ''repeated observations reduce marginal novelty'' (count_json ''observation_count'' (nh_observations h))])"

definition historical_signals :: "novelty_config \<Rightarrow> event \<Rightarrow> novelty_history \<Rightarrow> novelty_signal list" where
  "historical_signals cfg e h =
     (if nh_historical_only h \<or> event_is_historical_only e h
      then [positive_signal NK_HISTORICAL_ONLY (nc_historical_only cfg) 1
              ''asset is known only from historical/passive history'' []] else [])
     @ (if nh_live_after h
        then [positive_signal NK_LIVE_AFTER_HISTORICAL (nc_live_after cfg) 1
                ''asset moved from historical-only evidence to live observation'' []] else [])"

fun change_signals :: "novelty_config \<Rightarrow> string list \<Rightarrow> novelty_signal list" where
  "change_signals cfg [] = []"
| "change_signals cfg (ty # types) =
     (case dict_get (nc_change_weights cfg) ty of
        None \<Rightarrow> change_signals cfg types
      | Some w \<Rightarrow>
          (case novelty_factor_for_change ty of
             None \<Rightarrow> change_signals cfg types
           | Some k \<Rightarrow> positive_signal k w 1 (''snapshot/history reports '' @ ty) [(''change_type'', J_string ty)]
                       # change_signals cfg types))"

definition vocabulary_signals :: "novelty_config \<Rightarrow> event \<Rightarrow> novelty_signal list" where
  "vocabulary_signals cfg e =
     (let hits = environment_signals e; versions = api_version_signals e
      in (if hits \<noteq> []
          then [positive_signal NK_ENVIRONMENT_SIGNAL (nc_environment cfg) (min 1 (55/100 + 15/100 * of_nat (length hits)))
                  ''target naming contains non-production/environment vocabulary''
                  [(''tokens'', J_list (map J_string hits))]] else [])
       @ (if versions \<noteq> []
          then [positive_signal NK_API_VERSION_SIGNAL (nc_api_version cfg) (min 1 (6/10 + 1/10 * of_nat (length versions)))
                  ''API version vocabulary is present'' [(''versions'', J_list (map J_string versions))]] else []))"

definition peer_signals :: "novelty_math \<Rightarrow> novelty_config \<Rightarrow> novelty_history \<Rightarrow> novelty_signal list" where
  "peer_signals m cfg h =
     (if nh_fingerprint_known h
      then let peers = nh_fingerprint_peers h
           in if peers \<le> 1
              then [positive_signal NK_RARE_FINGERPRINT (nc_rare_fingerprint cfg) 1
                      ''fingerprint is unique or nearly unique among target peers'' (count_json ''peer_count'' peers)]
              else if 8 \<le> peers
              then [negative_signal NK_COMMON_FINGERPRINT (nc_common_fingerprint cfg) (peer_commonness m peers 8)
                      ''fingerprint is shared by many target peers'' (count_json ''peer_count'' peers)]
              else []
      else [])
     @ (if nh_technology_known h
        then let peers = nh_technology_peers h
             in if peers \<le> 2
                then [positive_signal NK_RARE_TECH_STACK (nc_rare_technology cfg) 1
                        ''technology combination is uncommon among target peers'' (count_json ''peer_count'' peers)]
                else if 12 \<le> peers
                then [negative_signal NK_COMMON_TECH_STACK (nc_common_technology cfg) (peer_commonness m peers 12)
                        ''technology combination is common among target peers'' (count_json ''peer_count'' peers)]
                else []
        else [])"

definition naming_signals :: "novelty_config \<Rightarrow> novelty_history \<Rightarrow> novelty_signal list" where
  "naming_signals cfg h =
     (case nh_naming h of
        None \<Rightarrow> []
      | Some frequency \<Rightarrow>
          if frequency \<le> 8/100
          then [positive_signal NK_RARE_NAMING (nc_rare_naming cfg) (clamp_score ((8/100 - frequency) / (8/100)))
                  ''hostname/path vocabulary is rare in the target genome'' [(''naming_frequency'', J_number frequency)]]
          else if 55/100 \<le> frequency
          then [negative_signal NK_COMMON_NAMING (nc_common_naming cfg) (clamp_score ((frequency - 55/100) / (45/100)))
                  ''hostname/path vocabulary is common in the target genome'' [(''naming_frequency'', J_number frequency)]]
          else [])"

definition surface_signals :: "novelty_math \<Rightarrow> novelty_config \<Rightarrow> event \<Rightarrow> novelty_signal list" where
  "surface_signals m cfg e =
     (let roles = low_novelty_surface_roles m e
      in (if ''static'' \<in> set roles
          then [negative_signal NK_STATIC_SURFACE (nc_static cfg) 1
                  ''observation appears to be a routine static-asset surface'' []] else [])
       @ (if ''cdn'' \<in> set roles
          then [negative_signal NK_CDN_SURFACE (nc_cdn cfg) 1
                  ''observation appears to be a routine CDN edge/static surface'' []] else [])
       @ (if ''marketing'' \<in> set roles
          then [negative_signal NK_MARKETING_SURFACE (nc_marketing cfg) 1
                  ''observation appears to be a routine marketing/content surface'' []] else []))"

definition novelty_signals :: "novelty_math \<Rightarrow> novelty_config \<Rightarrow> event \<Rightarrow> novelty_history \<Rightarrow> novelty_signal list" where
  "novelty_signals m cfg e h =
     observation_signals m cfg h @ historical_signals cfg e h @ change_signals cfg (nh_changes h)
     @ vocabulary_signals cfg e @ peer_signals m cfg h @ naming_signals cfg h @ surface_signals m cfg e"

text \<open>The factor of a signal, and the strength it adds to the positive or the negative list.\<close>

definition signal_factor :: "novelty_signal \<Rightarrow> novelty_factor res" where
  "signal_factor g = make_novelty_factor
     \<lparr>nf_kind = ng_kind g, nf_direction = ng_direction g, nf_weight = ng_weight g, nf_value = clamp_score (ng_value g),
      nf_reason = ng_reason g, nf_metadata = ng_metadata g\<rparr>"

definition strengths_for :: "factor_direction \<Rightarrow> novelty_signal list \<Rightarrow> rat list" where
  "strengths_for d gs =
     map (\<lambda>g. clamp_score (ng_weight g * clamp_score (ng_value g))) (filter (\<lambda>g. ng_direction g = d) gs)"

subsection \<open>The assessment\<close>

record novelty_assessment =
  na_subject :: string
  na_novelty :: rat
  na_baseline :: rat
  na_positive :: rat
  na_negative :: rat
  na_observations :: int
  na_families :: int
  na_factors :: "novelty_factor list"
  na_explanation :: string

definition make_novelty_assessment :: "novelty_assessment \<Rightarrow> novelty_assessment res" where
  "make_novelty_assessment a =
     bind_res (not_blank ''must not be blank'' (na_subject a)) (\<lambda>subject.
     bind_res (not_blank ''must not be blank'' (na_explanation a)) (\<lambda>explanation.
     bind_res (unit_interval ''novelty'' (na_novelty a)) (\<lambda>_.
     bind_res (unit_interval ''baseline'' (na_baseline a)) (\<lambda>_.
     bind_res (unit_interval ''positive_union'' (na_positive a)) (\<lambda>_.
     bind_res (unit_interval ''negative_union'' (na_negative a)) (\<lambda>_.
     if na_observations a < 0 \<or> na_families a < 0 then Inl (ValidationError ''greater_than_equal'')
     else Inr (a\<lparr>na_subject := subject, na_explanation := explanation\<rparr>)))))))"

definition leading_kinds :: "novelty_factor list \<Rightarrow> string" where
  "leading_kinds fs =
     (let names = join '', '' (map (\<lambda>f. novelty_kind_value (nf_kind f)) (take 4 fs))
      in if names = [] then ''none'' else names)"

definition novelty_explanation ::
  "event \<Rightarrow> rat \<Rightarrow> rat \<Rightarrow> novelty_factor list \<Rightarrow> novelty_history \<Rightarrow> string" where
  "novelty_explanation e novelty baseline factors h =
     (let positives = sort_desc contribution
            (filter (\<lambda>f. nf_direction f = FD_POSITIVE \<and> 0 < contribution f) factors);
          negatives = sort_desc (\<lambda>f. \<bar>contribution f\<bar>)
            (filter (\<lambda>f. nf_direction f = FD_NEGATIVE \<and> contribution f < 0) factors)
      in ''novelty='' @ show_fixed3 novelty @ ''; baseline='' @ show_fixed3 baseline @ ''; observations=''
         @ show_count (nh_observations h) @ ''; positive='' @ leading_kinds positives @ ''; negative=''
         @ leading_kinds negatives @ ''; event_type='' @ event_type_value (ev_type e)
         @ ''. Novelty measures difference from known surface only; it is not severity or authorization.'')"

definition baseline_factor :: "event \<Rightarrow> rat \<Rightarrow> novelty_factor" where
  "baseline_factor e baseline =
     \<lparr>nf_kind = NK_EVENT_TYPE_BASELINE, nf_direction = FD_NEUTRAL, nf_weight = 1, nf_value = baseline,
      nf_reason = event_type_value (ev_type e) @ '' baseline novelty'', nf_metadata = []\<rparr>"

definition assess_novelty ::
  "novelty_math \<Rightarrow> novelty_config \<Rightarrow> novelty_history \<Rightarrow> event \<Rightarrow> novelty_assessment res" where
  "assess_novelty m cfg h e =
     bind_res (novelty_subject_key e) (\<lambda>subject.
     if nh_subject h \<noteq> subject then Inl (ValueError ''history subject_key does not match Event'')
     else
       let baseline = dict_default (nc_baselines cfg) (ev_type e) (nc_default_baseline cfg);
           gs = novelty_signals m cfg e h
       in bind_res (make_novelty_factor (baseline_factor e baseline)) (\<lambda>first.
          bind_res (map_res signal_factor gs) (\<lambda>rest.
          let positive_union = probability_union (strengths_for FD_POSITIVE gs);
              negative_union = probability_union (strengths_for FD_NEGATIVE gs);
              raised = baseline + (1 - baseline) * positive_union;
              novelty = clamp_score (raised * (1 - negative_union))
          in make_novelty_assessment
               \<lparr>na_subject = subject, na_novelty = novelty, na_baseline = baseline, na_positive = positive_union,
                na_negative = negative_union, na_observations = nh_observations h, na_families = nh_families h,
                na_factors = first # rest,
                na_explanation = novelty_explanation e novelty baseline (first # rest) h\<rparr>)))"

definition novelty_summary :: "novelty_assessment \<Rightarrow> (string \<times> json) list" where
  "novelty_summary a =
     [(''score'', J_number (na_novelty a)), (''baseline'', J_number (na_baseline a)),
      (''positive_union'', J_number (na_positive a)), (''negative_union'', J_number (na_negative a)),
      (''observation_count'', J_number (of_int (na_observations a))),
      (''distinct_source_families'', J_number (of_int (na_families a))),
      (''factor_kinds'', J_list (map (\<lambda>f. J_string (novelty_kind_value (nf_kind f)))
         (filter (\<lambda>f. nf_direction f \<noteq> FD_NEUTRAL) (na_factors a)))),
      (''severity_inference'', J_bool False), (''scope_inference'', J_bool False)]"

definition event_with_novelty :: "bool \<Rightarrow> event \<Rightarrow> novelty_assessment \<Rightarrow> event res" where
  "event_with_novelty include_metadata e a =
     bind_res (novelty_subject_key e) (\<lambda>subject.
     if na_subject a \<noteq> subject then Inl (ValueError ''assessment does not belong to supplied Event'')
     else Inr (e\<lparr>ev_novelty := na_novelty a,
       ev_metadata := (if include_metadata then dict_set ''novelty_assessment'' (J_object (novelty_summary a)) (ev_metadata e)
                       else ev_metadata e)\<rparr>))"

subsection \<open>Providers and the model\<close>

type_synonym history_provider = "event \<Rightarrow> string \<Rightarrow> novelty_history res"

definition empty_history_provider :: history_provider where
  "empty_history_provider e subject = make_novelty_history (new_history subject)"

definition histories_by_subject :: "novelty_history list \<Rightarrow> (string, novelty_history) dict" where
  "histories_by_subject hs = fold (\<lambda>h d. dict_set (nh_subject h) h d) hs []"

text \<open>The default of \<open>dict.get\<close> is built before the lookup, so a blank subject raises in any case.\<close>

definition static_history_provider :: "novelty_history list \<Rightarrow> history_provider" where
  "static_history_provider hs e subject =
     bind_res (make_novelty_history (new_history subject)) (\<lambda>fresh.
     Inr (dict_default (histories_by_subject hs) subject fresh))"

definition novelty_model_assess ::
  "novelty_math \<Rightarrow> history_provider \<Rightarrow> novelty_config \<Rightarrow> event \<Rightarrow> novelty_assessment res" where
  "novelty_model_assess m provider cfg e =
     bind_res (novelty_subject_key e) (\<lambda>subject.
     bind_res (provider e subject) (\<lambda>h.
     if nh_subject h \<noteq> subject
     then Inl (ValueError ''NoveltyHistoryProvider returned history for a different subject'')
     else assess_novelty m cfg h e))"

definition novelty_model_score :: "novelty_math \<Rightarrow> history_provider \<Rightarrow> novelty_config \<Rightarrow> event \<Rightarrow> rat res" where
  "novelty_model_score m provider cfg e = bind_res (novelty_model_assess m provider cfg e) (\<lambda>a. Inr (na_novelty a))"

definition scored_event ::
  "novelty_math \<Rightarrow> history_provider \<Rightarrow> novelty_config \<Rightarrow> bool \<Rightarrow> event \<Rightarrow> event res" where
  "scored_event m provider cfg include_metadata e =
     bind_res (novelty_model_assess m provider cfg e) (event_with_novelty include_metadata e)"

end
