(* ===== verification/Novelty_Guarantees.thy ===== *)
theory Novelty_Guarantees
  imports Novelty Confidence_Guarantees
begin

section \<open>What a novelty assessment guarantees\<close>

text \<open>
  Every signal is a factor the constructor accepts, so an assessment is always made and stays in the unit interval;
  seeing a subject more often never makes it more novel; the scans report words that stand between separators; and a
  scored event differs from the event in its novelty and one entry of its metadata. The logarithm is only assumed to
  be monotone, and positive at 128.
\<close>

subsection \<open>Noisy-or and the logarithm\<close>

lemma clamp_score_unit [simp]: "clamp_score x = clamp_unit x"
  by (simp add: clamp_score_def clamp_unit_def)

lemma union_noisy_or [simp]: "probability_union xs = combine_noisy_or xs"
  by (cases "xs = []") (simp_all add: probability_union_def combine_noisy_or_def)

definition monotone_log :: "novelty_math \<Rightarrow> bool" where
  "monotone_log m \<longleftrightarrow> (\<forall>x y. 0 \<le> x \<longrightarrow> x \<le> y \<longrightarrow> nm_log1p m x \<le> nm_log1p m y) \<and> 0 < nm_log m 128"

lemma clamp_mono: "x \<le> y \<Longrightarrow> clamp_unit x \<le> clamp_unit y"
  by (auto simp: clamp_unit_def)

lemma repetition_mono:
  assumes "monotone_log m" "n \<le> n'"
  shows "repetition_penalty_value m n \<le> repetition_penalty_value m n'"
proof (cases "n \<le> 3")
  case True
  then show ?thesis by (simp add: repetition_penalty_value_def clamp_unit_def)
next
  case False
  then have "nm_log1p m (of_int (n - 3)) \<le> nm_log1p m (of_int (n' - 3))"
    using assms by (simp add: monotone_log_def)
  then have "nm_log1p m (of_int (n - 3)) / nm_log m 128 \<le> nm_log1p m (of_int (n' - 3)) / nm_log m 128"
    using assms(1) by (intro divide_right_mono) (simp_all add: monotone_log_def)
  with False assms(2) show ?thesis by (simp add: repetition_penalty_value_def clamp_mono)
qed

lemma repetition_unit [simp]: "unit (repetition_penalty_value m n)"
  by (simp add: repetition_penalty_value_def)

subsection \<open>Every signal is accepted\<close>

definition novelty_config_ok :: "novelty_config \<Rightarrow> bool" where
  "novelty_config_ok cfg \<longleftrightarrow> list_all unit (config_weights cfg) \<and> list_all unit (dict_values (nc_baselines cfg))
     \<and> list_all unit (dict_values (nc_change_weights cfg))"

lemma upper_keys_values: "set (dict_values (upper_keys kvs d)) \<subseteq> set (dict_values kvs) \<union> set (dict_values d)"
proof (induction kvs d rule: upper_keys.induct)
  case (2 k v kvs d)
  then show ?case using dict_values_set_subset[of "upper (strip k)" v d] by auto
qed simp

lemma made_config_ok: "make_novelty_config c = Inr cfg \<Longrightarrow> novelty_config_ok cfg"
proof -
  assume "make_novelty_config c = Inr cfg"
  then have w: "list_all unit (config_weights c)" "list_all unit (dict_values (nc_baselines c))"
    "list_all unit (dict_values (nc_change_weights c))"
    and cfg: "cfg = c\<lparr>nc_change_weights := upper_keys (nc_change_weights c) []\<rparr>"
    unfolding make_novelty_config_def bind_res_Inr_iff units_in_range_Inr by auto
  have "list_all unit (dict_values (upper_keys (nc_change_weights c) []))"
    using w(3) upper_keys_values[of "nc_change_weights c" "[]"] unfolding list_all_iff by fastforce
  then show ?thesis using w by (simp add: novelty_config_ok_def cfg config_weights_def)
qed

definition signal_ok :: "novelty_signal \<Rightarrow> bool" where
  "signal_ok g \<longleftrightarrow> unit (ng_weight g) \<and> CHR ''e'' \<in> set (ng_reason g)"

lemma signal_factor_Inr: "signal_ok g \<Longrightarrow> \<exists>f. signal_factor g = Inr f"
  using strip_nonblank[of "CHR ''e''" "ng_reason g"]
  by (auto simp: signal_ok_def signal_factor_def make_novelty_factor_def unit_interval_ok not_blank_def is_space_def)

lemma change_signals_ok:
  assumes "novelty_config_ok cfg"
  shows "list_all signal_ok (change_signals cfg tys)"
proof (induction tys)
  case (Cons ty tys)
  have "unit w" if "dict_get (nc_change_weights cfg) ty = Some w" for w
    using assms map_of_SomeD[OF that] by (force simp: novelty_config_ok_def list_all_iff)
  with Cons show ?case by (auto simp: signal_ok_def split: option.splits)
qed simp

lemma novelty_signals_ok: "novelty_config_ok cfg \<Longrightarrow> list_all signal_ok (novelty_signals m cfg e h)"
proof -
  assume ok: "novelty_config_ok cfg"
  then have w: "unit (nc_first cfg)" "unit (nc_low cfg)" "unit (nc_repeated cfg)" "unit (nc_historical_only cfg)"
    "unit (nc_live_after cfg)" "unit (nc_environment cfg)" "unit (nc_api_version cfg)" "unit (nc_rare_fingerprint cfg)"
    "unit (nc_rare_technology cfg)" "unit (nc_rare_naming cfg)" "unit (nc_common_fingerprint cfg)"
    "unit (nc_common_technology cfg)" "unit (nc_common_naming cfg)" "unit (nc_static cfg)" "unit (nc_cdn cfg)"
    "unit (nc_marketing cfg)"
    by (simp_all add: novelty_config_ok_def config_weights_def)
  have "list_all signal_ok (observation_signals m cfg h)" using w(1-3) by (simp add: observation_signals_def signal_ok_def)
  moreover have "list_all signal_ok (historical_signals cfg e h)" using w(4,5) by (simp add: historical_signals_def signal_ok_def)
  moreover have "list_all signal_ok (vocabulary_signals cfg e)" using w(6,7) by (simp add: vocabulary_signals_def signal_ok_def Let_def)
  moreover have "list_all signal_ok (peer_signals m cfg h)" using w(8,9,11,12) by (simp add: peer_signals_def signal_ok_def Let_def)
  moreover have "list_all signal_ok (naming_signals cfg h)"
    using w(10,13) by (simp add: naming_signals_def signal_ok_def split: option.split)
  moreover have "list_all signal_ok (surface_signals m cfg e)" using w(14-16) by (simp add: surface_signals_def signal_ok_def Let_def)
  ultimately show ?thesis by (simp add: novelty_signals_def change_signals_ok[OF ok])
qed

lemma map_res_total: "\<forall>x \<in> set xs. \<exists>y. f x = Inr y \<Longrightarrow> \<exists>ys. map_res f xs = Inr ys \<and> length ys = length xs"
  by (induction xs) auto

lemma strengths_for_unit [simp]: "list_all unit (strengths_for d gs)"
  by (simp add: strengths_for_def list_all_iff)

lemma strengths_for_append [simp]: "strengths_for d (gs @ hs) = strengths_for d gs @ strengths_for d hs"
  by (simp add: strengths_for_def)

subsection \<open>The assessment\<close>

definition baseline_of :: "novelty_config \<Rightarrow> event \<Rightarrow> rat" where
  "baseline_of cfg e = dict_default (nc_baselines cfg) (ev_type e) (nc_default_baseline cfg)"

lemma baseline_unit: "novelty_config_ok cfg \<Longrightarrow> unit (baseline_of cfg e)"
  unfolding baseline_of_def by (rule unit_dict_default) (simp_all add: novelty_config_ok_def config_weights_def)

definition combined :: "rat \<Rightarrow> rat \<Rightarrow> rat \<Rightarrow> rat" where
  "combined b p n = (b + (1 - b) * p) * (1 - n)"

lemma combined_unit: "unit b \<Longrightarrow> unit p \<Longrightarrow> unit n \<Longrightarrow> unit (combined b p n)"
  unfolding combined_def by (intro unit_mult unit_or unit_compl)

lemma combined_mono:
  assumes "unit b" "unit p" "unit p'" "unit n" "unit n'" "p \<le> p'" "n' \<le> n"
  shows "combined b p n \<le> combined b p' n'"
proof -
  have "b + (1 - b) * p \<le> b + (1 - b) * p'" using assms by (intro or_mono) auto
  moreover have "unit (b + (1 - b) * p')" using assms by (intro unit_or)
  ultimately show ?thesis unfolding combined_def using assms by (intro mult_mono) (auto simp: unit_def)
qed

lemma assess_fields:
  assumes "assess_novelty m cfg h e = Inr a" "novelty_config_ok cfg"
  shows "na_novelty a = combined (na_baseline a) (na_positive a) (na_negative a)"
    "na_baseline a = baseline_of cfg e"
    "na_positive a = combine_noisy_or (strengths_for FD_POSITIVE (novelty_signals m cfg e h))"
    "na_negative a = combine_noisy_or (strengths_for FD_NEGATIVE (novelty_signals m cfg e h))"
    "na_subject a = strip (nh_subject h)" "novelty_subject_key e = Inr (nh_subject h)"
proof -
  have c: "clamp_unit (combined (baseline_of cfg e) (combine_noisy_or xs) (combine_noisy_or ys))
      = combined (baseline_of cfg e) (combine_noisy_or xs) (combine_noisy_or ys)" for xs ys
    by (intro clamp_id combined_unit baseline_unit assms(2) unit_noisy_or)
  show "na_novelty a = combined (na_baseline a) (na_positive a) (na_negative a)"
    "na_baseline a = baseline_of cfg e"
    "na_positive a = combine_noisy_or (strengths_for FD_POSITIVE (novelty_signals m cfg e h))"
    "na_negative a = combine_noisy_or (strengths_for FD_NEGATIVE (novelty_signals m cfg e h))"
    "na_subject a = strip (nh_subject h)" "novelty_subject_key e = Inr (nh_subject h)"
    using assms(1) c
    by (auto simp: assess_novelty_def make_novelty_assessment_def bind_res_Inr_iff Let_def not_blank_Inr baseline_of_def[symmetric]
        combined_def[symmetric] split: if_splits)
qed

lemma assess_novelty_Inr:
  assumes "novelty_config_ok cfg" "make_novelty_history h0 = Inr h" "novelty_subject_key e = Inr (nh_subject h)"
  shows "\<exists>a. assess_novelty m cfg h e = Inr a"
proof -
  let ?gs = "novelty_signals m cfg e h"
  have "\<forall>g \<in> set ?gs. \<exists>f. signal_factor g = Inr f"
    using novelty_signals_ok[OF assms(1)] signal_factor_Inr by (auto simp: list_all_iff)
  then obtain fs where fs: "map_res signal_factor ?gs = Inr fs" using map_res_total by blast
  have b: "unit (baseline_of cfg e)" by (rule baseline_unit[OF assms(1)])
  have "strip (event_type_value (ev_type e) @ '' baseline novelty'') \<noteq> []"
    by (rule strip_nonblank[of "CHR ''e''"]) (simp_all add: is_space_def)
  then have "\<exists>f. make_novelty_factor (baseline_factor e (baseline_of cfg e)) = Inr f"
    by (simp add: make_novelty_factor_def baseline_factor_def unit_interval_ok b not_blank_def)
  then obtain f where f: "make_novelty_factor (baseline_factor e (baseline_of cfg e)) = Inr f" by blast
  have "strip (novelty_explanation e x y ffs h) \<noteq> []" for x y ffs
    by (rule strip_nonblank[of "CHR ''n''"]) (simp_all add: novelty_explanation_def is_space_def Let_def)
  moreover have "strip (nh_subject h) \<noteq> []" "0 \<le> nh_observations h" "0 \<le> nh_families h"
    using assms(2) by (auto simp: make_novelty_history_def bind_res_Inr_iff not_blank_Inr split: if_splits)
  ultimately show ?thesis
    by (simp add: assess_novelty_def assms(3) f fs make_novelty_assessment_def not_blank_def unit_interval_ok b Let_def
        baseline_of_def[symmetric])
qed

subsection \<open>Observations and the scans\<close>

lemma noisy_or_join:
  "list_all unit xs \<Longrightarrow> list_all unit ys \<Longrightarrow>
     combine_noisy_or (xs @ ys) = combine_noisy_or xs + (1 - combine_noisy_or xs) * combine_noisy_or ys"
  using noisy_or_append[of xs ys] by (simp add: algebra_simps)

lemma strengths_join:
  "combine_noisy_or (strengths_for d (gs @ hs))
     = combine_noisy_or (strengths_for d gs) + (1 - combine_noisy_or (strengths_for d gs)) * combine_noisy_or (strengths_for d hs)"
  unfolding strengths_for_append by (rule noisy_or_join) simp_all

lemma noisy_or_single: "unit x \<Longrightarrow> combine_noisy_or [x] = x"
  by (simp add: noisy_or_Cons)

definition rarity :: "novelty_config \<Rightarrow> int \<Rightarrow> rat" where
  "rarity cfg n = (if n \<le> 0 then nc_first cfg else if n \<le> 3 then nc_low cfg * (of_int (4 - n) / 3) else 0)"

lemma few_unit: "\<not> n \<le> 0 \<Longrightarrow> n \<le> 3 \<Longrightarrow> unit (of_int (4 - n) / 3)"
proof -
  assume "\<not> n \<le> 0" "n \<le> 3"
  then have "0 \<le> (of_int (4 - n) :: rat)" "(of_int (4 - n) :: rat) \<le> of_int 3" unfolding of_int_le_iff by simp_all
  then show ?thesis by (simp add: unit_def)
qed

lemma observation_positive:
  assumes "unit (nc_first cfg)" "unit (nc_low cfg)"
  shows "combine_noisy_or (strengths_for FD_POSITIVE (observation_signals m cfg h)) = rarity cfg (nh_observations h)"
proof (cases "nh_observations h \<le> 0 \<or> 3 < nh_observations h")
  case True
  then show ?thesis using assms
    by (auto simp: observation_signals_def strengths_for_def rarity_def noisy_or_single)
next
  case False
  then have u: "unit (of_int (4 - nh_observations h) / 3)" by (intro few_unit) auto
  then have "unit (nc_low cfg * (of_int (4 - nh_observations h) / 3))" using assms by (intro unit_mult)
  with False u show ?thesis by (simp add: observation_signals_def strengths_for_def rarity_def noisy_or_single)
qed

lemma rarity_antitone:
  assumes "unit (nc_first cfg)" "unit (nc_low cfg)" "nc_low cfg \<le> nc_first cfg" "n \<le> n'"
  shows "rarity cfg n' \<le> rarity cfg n"
proof (cases "0 < n' \<and> n' \<le> 3")
  case True
  let ?v = "\<lambda>k. (of_int (4 - k) :: rat) / 3"
  have u: "unit (?v n')" using True by (intro few_unit) auto
  show ?thesis
  proof (cases "n \<le> 0")
    case True
    have "nc_low cfg * ?v n' \<le> nc_low cfg" using u assms(2) unfolding unit_def by (intro mult_left_le) blast+
    then show ?thesis using True \<open>0 < n' \<and> n' \<le> 3\<close> assms(3) by (simp add: rarity_def)
  next
    case False
    have "?v n' \<le> ?v n" using assms(4) by simp
    then have "nc_low cfg * ?v n' \<le> nc_low cfg * ?v n" using assms(2) by (intro mult_left_mono) (auto simp: unit_def)
    then show ?thesis using False True assms(4) by (simp add: rarity_def)
  qed
next
  case False
  have "0 \<le> rarity cfg n" using assms few_unit[of n] by (auto simp: rarity_def unit_def)
  then show ?thesis using False assms(4) by (auto simp: rarity_def)
qed

lemma observation_positive_antitone:
  assumes "unit (nc_first cfg)" "unit (nc_low cfg)" "nc_low cfg \<le> nc_first cfg" "n \<le> n'"
  shows "combine_noisy_or (strengths_for FD_POSITIVE (observation_signals m cfg (h\<lparr>nh_observations := n'\<rparr>)))
    \<le> combine_noisy_or (strengths_for FD_POSITIVE (observation_signals m cfg (h\<lparr>nh_observations := n\<rparr>)))"
  by (simp add: observation_positive[OF assms(1,2)] rarity_antitone[OF assms])

lemma observation_negative:
  assumes "unit (nc_repeated cfg)"
  shows "combine_noisy_or (strengths_for FD_NEGATIVE (observation_signals m cfg h))
    = nc_repeated cfg * repetition_penalty_value m (nh_observations h)"
  using assms
  by (simp add: observation_signals_def strengths_for_def noisy_or_single) (simp add: repetition_penalty_value_def)

lemma observation_negative_mono:
  assumes "unit (nc_repeated cfg)" "monotone_log m" "n \<le> n'"
  shows "combine_noisy_or (strengths_for FD_NEGATIVE (observation_signals m cfg (h\<lparr>nh_observations := n\<rparr>)))
    \<le> combine_noisy_or (strengths_for FD_NEGATIVE (observation_signals m cfg (h\<lparr>nh_observations := n'\<rparr>)))"
  using repetition_mono[OF assms(2,3)] assms(1)
  by (simp add: observation_negative unit_def mult_left_mono)

lemma units_in_range_ok: "list_all unit xs \<Longrightarrow> units_in_range msg xs = Inr ()"
  by (induction xs) (simp_all add: unit_interval_ok)

subsection \<open>Properties\<close>

definition sample_math :: novelty_math where
  "sample_math = \<lparr>nm_log1p = (\<lambda>x. x), nm_log = (\<lambda>_. 7), nm_show_number = (\<lambda>_. [])\<rparr>"

lemma sample_math_monotone: "monotone_log sample_math"
  by (simp add: monotone_log_def sample_math_def)

lemma default_novelty_config_ok: "novelty_config_ok default_novelty_config"
  by (simp add: novelty_config_ok_def config_weights_def default_novelty_config_def default_baselines_def
      default_change_weights_def unit_def)

lemma made_default_config: "make_novelty_config default_novelty_config = Inr default_novelty_config"
proof -
  have "upper_keys default_change_weights [] = default_change_weights" by code_simp
  then show ?thesis using default_novelty_config_ok
    by (simp add: make_novelty_config_def novelty_config_ok_def units_in_range_ok default_novelty_config_def)
qed

definition sample_host :: event where
  "sample_host =
     \<lparr>event_id = ''evt_2'', ev_type = EV_DNS_NAME, ev_value = ''stage.a.example'', ev_source = ''dns:8.8.8.8'',
      parent_event_id = None, first_seen = 0, last_seen = 0, ev_scope_state = SC_UNKNOWN,
      ev_confidence = 1, ev_novelty = 0, ev_depth = 0, ev_tags = {}, ev_metadata = []\<rparr>"

definition seen_times :: "int \<Rightarrow> novelty_history" where
  "seen_times n = (new_history ''DNS_NAME:stage.a.example'')\<lparr>nh_observations := n\<rparr>"

lemma sample_host_key: "novelty_subject_key sample_host = Inr (nh_subject (seen_times n))"
  by (simp add: seen_times_def new_history_def novelty_subject_key_def sample_host_def strip_def is_space_def lower_def
      lower_char_def rstrip_dots_def Let_def)

lemma sample_history_made: "0 \<le> n \<Longrightarrow> make_novelty_history (seen_times n) = Inr (seen_times n)"
  by (simp add: seen_times_def new_history_def make_novelty_history_def not_blank_def strip_def is_space_def sorted_texts_def)

text \<open>C20: An assessment of an event against a history of its subject is always made, and its novelty lies between 0 and 1:
  the positive signals raise the baseline of the event type within the headroom that is left, the negative ones only
  lower what results, and no positive signal lifts it above what the negative ones leave.\<close>
theorem novelty_sound:
  assumes "make_novelty_config c = Inr cfg" and "make_novelty_history h0 = Inr h"
    and "novelty_subject_key e = Inr (nh_subject h)"
  shows "\<exists>a. assess_novelty m cfg h e = Inr a
    \<and> 0 \<le> na_novelty a \<and> na_novelty a \<le> 1
    \<and> na_baseline a * (1 - na_negative a) \<le> na_novelty a
    \<and> na_novelty a \<le> na_baseline a + (1 - na_baseline a) * na_positive a
    \<and> na_novelty a \<le> 1 - na_negative a"
proof -
  have ok: "novelty_config_ok cfg" by (rule made_config_ok[OF assms(1)])
  obtain a where a: "assess_novelty m cfg h e = Inr a" using assess_novelty_Inr[OF ok assms(2,3)] by blast
  note f = assess_fields[OF a ok]
  have u: "unit (na_baseline a)" "unit (na_positive a)" "unit (na_negative a)" using baseline_unit[OF ok] by (simp_all add: f(2-4))
  have "unit (na_novelty a)" unfolding f(1) by (intro combined_unit u)
  moreover have "combined (na_baseline a) 0 (na_negative a) \<le> na_novelty a"
    unfolding f(1) using u by (intro combined_mono) (auto simp: unit_def)
  moreover have "na_novelty a \<le> combined (na_baseline a) (na_positive a) 0"
    unfolding f(1) using u by (intro combined_mono) (auto simp: unit_def)
  moreover have "na_novelty a \<le> combined (na_baseline a) 1 (na_negative a)"
    unfolding f(1) using u by (intro combined_mono) (auto simp: unit_def)
  ultimately show ?thesis using a by (simp add: combined_def unit_def)
qed

lemma novelty_sound_witness:
  "\<exists>a. assess_novelty sample_math default_novelty_config (seen_times 0) sample_host = Inr a
    \<and> 0 \<le> na_novelty a \<and> na_novelty a \<le> 1"
  using novelty_sound[OF made_default_config sample_history_made[of 0] sample_host_key, of sample_math] by auto

text \<open>C21: Seeing a subject more often never makes it more novel: with the rest of the history and the event as they are,
  a larger number of observations gives at most the same novelty, whenever the weight of a few observations does not
  exceed the weight of the first.\<close>
theorem repetition_lowers_novelty:
  assumes "make_novelty_config c = Inr cfg" and "nc_low cfg \<le> nc_first cfg" and "monotone_log m" and "n \<le> n'"
    and "assess_novelty m cfg (h\<lparr>nh_observations := n\<rparr>) e = Inr a"
    and "assess_novelty m cfg (h\<lparr>nh_observations := n'\<rparr>) e = Inr a'"
  shows "na_novelty a' \<le> na_novelty a"
proof -
  have ok: "novelty_config_ok cfg" by (rule made_config_ok[OF assms(1)])
  let ?rest = "historical_signals cfg e h @ change_signals cfg (nh_changes h) @ vocabulary_signals cfg e
    @ peer_signals m cfg h @ naming_signals cfg h @ surface_signals m cfg e"
  have gs: "novelty_signals m cfg e (h\<lparr>nh_observations := k\<rparr>)
      = observation_signals m cfg (h\<lparr>nh_observations := k\<rparr>) @ ?rest" for k
    by (simp add: novelty_signals_def historical_signals_def event_is_historical_only_def peer_signals_def naming_signals_def)
  have w: "unit (nc_first cfg)" "unit (nc_low cfg)" "unit (nc_repeated cfg)"
    using ok by (simp_all add: novelty_config_ok_def config_weights_def)
  let ?p = "\<lambda>k. combine_noisy_or (strengths_for FD_POSITIVE (observation_signals m cfg (h\<lparr>nh_observations := k\<rparr>)))"
  let ?n = "\<lambda>k. combine_noisy_or (strengths_for FD_NEGATIVE (observation_signals m cfg (h\<lparr>nh_observations := k\<rparr>)))"
  have p: "?p n' \<le> ?p n" by (rule observation_positive_antitone[OF w(1,2) assms(2,4)])
  have q: "?n n \<le> ?n n'" by (rule observation_negative_mono[OF w(3) assms(3,4)])
  note f = assess_fields[OF assms(5) ok] and f' = assess_fields[OF assms(6) ok]
  have b: "unit (baseline_of cfg e)" by (rule baseline_unit[OF ok])
  have join: "combine_noisy_or (strengths_for d (observation_signals m cfg (h\<lparr>nh_observations := k\<rparr>) @ ?rest))
      = combine_noisy_or (strengths_for d (observation_signals m cfg (h\<lparr>nh_observations := k\<rparr>)))
        + (1 - combine_noisy_or (strengths_for d (observation_signals m cfg (h\<lparr>nh_observations := k\<rparr>))))
          * combine_noisy_or (strengths_for d ?rest)" for d k
    by (rule strengths_join)
  have "na_positive a' \<le> na_positive a"
    unfolding f(3) f'(3) gs join by (intro or_mono unit_noisy_or p) simp
  moreover have "na_negative a \<le> na_negative a'"
    unfolding f(4) f'(4) gs join by (intro or_mono unit_noisy_or q) simp
  moreover have "unit (na_positive x)" "unit (na_negative x)" if "x = a \<or> x = a'" for x
    using that by (auto simp: f(3,4) f'(3,4))
  ultimately show ?thesis unfolding f(1,2) f'(1,2) using b by (intro combined_mono) auto
qed

lemma repetition_lowers_novelty_witness:
  "\<exists>a a'. assess_novelty sample_math default_novelty_config (seen_times 1) sample_host = Inr a
    \<and> assess_novelty sample_math default_novelty_config (seen_times 5) sample_host = Inr a'
    \<and> na_novelty a' \<le> na_novelty a"
proof -
  have low: "nc_low default_novelty_config \<le> nc_first default_novelty_config" by (simp add: default_novelty_config_def)
  have *: "\<exists>a. assess_novelty sample_math default_novelty_config (seen_times k) sample_host = Inr a" if "0 \<le> k" for k
    by (rule assess_novelty_Inr[OF default_novelty_config_ok sample_history_made[OF that] sample_host_key])
  obtain a a' where a: "assess_novelty sample_math default_novelty_config ((seen_times 0)\<lparr>nh_observations := 1\<rparr>) sample_host = Inr a"
    "assess_novelty sample_math default_novelty_config ((seen_times 0)\<lparr>nh_observations := 5\<rparr>) sample_host = Inr a'"
    using *[of 1] *[of 5] by (auto simp: seen_times_def)
  then show ?thesis
    using repetition_lowers_novelty[OF made_default_config low sample_math_monotone _ a] by (auto simp: seen_times_def)
qed

subsection \<open>Scans and scored events\<close>

text \<open>A word finder answers with a word at the beginning of the text that ends there.\<close>

definition word_finder :: "(string \<Rightarrow> string option) \<Rightarrow> bool" where
  "word_finder f \<longleftrightarrow> (\<forall>s w. f s = Some w \<longrightarrow> prefix w s \<and> ends_token (drop (length w) s))"

lemma environment_finder: "word_finder environment_at"
  by (auto simp: word_finder_def environment_at_def find_Some_iff)

lemma version_finder: "word_finder version_at"
  by (auto simp: word_finder_def version_at_def Let_def takeWhile_is_prefix split: list.splits if_splits)

lemma after_token_suffix: "\<exists>skipped. rest = skipped @ after_token rest"
  by (cases rest) (auto simp: after_token_def)

text \<open>What the scan finds in the rest of a text it finds in the text.\<close>

definition found_at :: "bool \<Rightarrow> string \<Rightarrow> string \<Rightarrow> bool" where
  "found_at start w s \<longleftrightarrow> (\<exists>before after. s = before @ w @ after \<and> ends_token after
     \<and> (if before = [] then start else separator (last before)))"

lemma found_later: "found_at False w s \<Longrightarrow> found_at start w (skipped @ s)"
proof -
  assume "found_at False w s"
  then obtain before after where "s = before @ w @ after" "ends_token after" "before \<noteq> []" "separator (last before)"
    by (auto simp: found_at_def split: if_splits)
  then show ?thesis unfolding found_at_def by (intro exI[of _ "skipped @ before"] exI[of _ after]) simp
qed

lemma found_after:
  assumes "found_at False w (after_token (drop n s))"
  shows "found_at start w (skipped @ s)"
proof -
  obtain t where "drop n s = t @ after_token (drop n s)" using after_token_suffix by blast
  then have "s = (take n s @ t) @ after_token (drop n s)" by (metis append_assoc append_take_drop_id)
  then show ?thesis using found_later[OF assms] by (metis append_assoc)
qed

lemma found_here:
  assumes "word_finder f" "f s = Some w" "if skipped = [] then start else separator (last skipped)"
  shows "found_at start w (skipped @ s)"
proof -
  have "s = w @ drop (length w) s" "ends_token (drop (length w) s)"
    using assms(1,2) unfolding word_finder_def prefix_def by (metis append_eq_conv_conj)+
  then show ?thesis unfolding found_at_def using assms(3) by (intro exI[of _ skipped] exI[of _ "drop (length w) s"]) auto
qed

lemma scan_sound:
  "word_finder f \<Longrightarrow> w \<in> set (scan_tokens f start s) \<Longrightarrow> found_at start w s"
proof (induction f start s rule: scan_tokens.induct)
  case (1 f start s)
  show ?case
  proof (cases "if start then f s else None")
    case (Some v)
    then have v: "start" "f s = Some v" by (auto split: if_splits)
    then consider "w = v" | "w \<in> set (scan_tokens f False (after_token (drop (length v) s)))"
      using 1(5) by (subst (asm) scan_tokens.simps) auto
    then show ?thesis
    proof cases
      case 1
      then show ?thesis using found_here[OF \<open>word_finder f\<close> v(2), of "[]" start] v(1) by simp
    next
      case 2
      then show ?thesis using found_after[OF 1(3)[OF Some \<open>word_finder f\<close>], of start "[]"] by simp
    qed
  next
    case None
    show ?thesis
    proof (cases s)
      case Nil
      then show ?thesis using 1(5) None by (subst (asm) scan_tokens.simps) auto
    next
      case (Cons c s')
      show ?thesis
      proof (cases "if separator c then f s' else None")
        case inner: (Some v)
        then have v: "separator c" "f s' = Some v" by (auto split: if_splits)
        consider "w = v" | "w \<in> set (scan_tokens f False (after_token (drop (length v) s')))"
          using 1(5) None Cons inner by (subst (asm) scan_tokens.simps) auto
        then show ?thesis
        proof cases
          case 1
          then show ?thesis using found_here[OF \<open>word_finder f\<close> v(2), of "[c]" start] v(1) Cons by simp
        next
          case 2
          then show ?thesis using found_after[OF 1(2)[OF None Cons inner \<open>word_finder f\<close>], of start "[c]"] Cons by simp
        qed
      next
        case inner: None
        have "w \<in> set (scan_tokens f False s')" using 1(5) None Cons inner by (subst (asm) scan_tokens.simps) auto
        then show ?thesis using found_later[OF 1(1)[OF None Cons inner \<open>word_finder f\<close>], of start "[c]"] Cons by simp
      qed
    qed
  qed
qed

text \<open>Every environment word an event is credited with stands alone in one of its texts.\<close>

theorem environment_words_stand_alone:
  assumes "w \<in> set (environment_signals e)"
  shows "\<exists>t \<in> set (ev_value e # meta_texts e [''hostname'', ''url'', ''path'', ''seed_domain'', ''host_header'', ''subject'']).
    \<exists>v. w = lower v \<and> found_at True v (lower t)"
  using assms scan_sound[OF environment_finder] by (fastforce simp: environment_signals_def found_tokens_def)

text \<open>Two words that share a separator are not both found: the match of the first consumes it.\<close>

lemma neighbouring_words_lost: "scan_tokens environment_at True ''dev-test.example'' = [''dev'']"
  by code_simp

text \<open>A scored event differs from the event in its novelty, which is in range, and one entry of its metadata.\<close>

theorem scored_event_keeps_event:
  assumes "make_novelty_config c = Inr cfg" and "scored_event m provider cfg include_metadata e = Inr f"
  shows "0 \<le> ev_novelty f \<and> ev_novelty f \<le> 1
    \<and> f = e\<lparr>ev_novelty := ev_novelty f, ev_metadata := ev_metadata f\<rparr>
    \<and> (\<forall>k. k \<noteq> ''novelty_assessment'' \<longrightarrow> dict_get (ev_metadata f) k = dict_get (ev_metadata e) k)"
proof -
  have ok: "novelty_config_ok cfg" by (rule made_config_ok[OF assms(1)])
  obtain a h where a: "assess_novelty m cfg h e = Inr a" and f: "event_with_novelty include_metadata e a = Inr f"
    using assms(2) by (auto simp: scored_event_def novelty_model_assess_def bind_res_Inr_iff split: if_splits)
  have "unit (na_novelty a)"
    unfolding assess_fields(1)[OF a ok] by (intro combined_unit) (simp_all add: assess_fields[OF a ok] baseline_unit[OF ok])
  then show ?thesis using f
    by (auto simp: event_with_novelty_def bind_res_Inr_iff unit_def split: if_splits)
qed

end
