(* ===== verification/Spec2Isabelle.thy ===== *)
theory Spec2Isabelle
  imports Queue_Properties Budget_Guarantees Rate_Guarantees Router_Properties Scheduler_Properties
    Restrictions_Properties Review_Properties Execution_Guarantees Scope_Guarantees Seed_Guarantees
    Identity_Properties Yield_Guarantees Convergence_Guarantees Runtime_Guarantees Snapshot_Guarantees
    Confidence_Guarantees Novelty_Guarantees
begin

text \<open>
  \<^bold>\<open>Night Scout: the coordinator.\<close> Night Scout is a reconnaissance coordinator: workers discover assets,
  every discovery is an event, rules turn events into tasks, and a scheduler and a lifecycle decide which
  task runs, when, against what, and at whose expense. This development models the part of it that makes
  those decisions: the packages \<open>recon/core\<close> and \<open>recon/policy\<close>, the two modules of \<open>recon/intelligence\<close> that
  steer the search (yield and convergence) and the two that say how sure and how new a discovery is (confidence and novelty), the parts of \<open>recon/runtime.py\<close> that connect them, and the surface
  graph (\<open>recon/surface\<close>) that presents what was found.

  \<^bold>\<open>How the parts interact.\<close> An event (\<open>core/events.py\<close>) is expanded by the router (\<open>core/router.py\<close>) into
  tasks that are put into the task queue (\<open>core/queue.py\<close>). The scheduler (\<open>core/scheduler.py\<close>) ranks the
  ready tasks. The lifecycle (\<open>core/lifecycle.py\<close>) admits one: it asks the gates, among them the scope gate
  (\<open>policy/scope.py\<close>), the restrictions gate (\<open>policy/restrictions.py\<close>) and the review gate
  (\<open>policy/review_gate.py\<close>), reserves budget (\<open>core/budgets.py\<close>) and claims the task; then it runs the worker
  under heartbeats, settles the budget and finishes the task. Workers pace their requests with the rate
  limiter (\<open>policy/rate_limit.py\<close>) and identify themselves with the headers of \<open>policy/request_identity.py\<close>.
  Discovery starts from the seeds that \<open>policy/seeds.py\<close> derives from the scope rules. The runtime wraps every
  worker in an executor (\<open>runtime.py\<close>) that records what an execution yielded
  (\<open>intelligence/yield_model.py\<close>) and then lets the convergence controller (\<open>intelligence/convergence.py\<close>) judge
  the branch; its gate in front of the lifecycle blocks or defers the tasks of a branch that was closed or
  paused, the budget planner applies its multiplier, and the scheduler receives the yield estimates as signals.

  \<^bold>\<open>Theories and code.\<close>
  \<^item> \<^theory_text>\<open>Prelude\<close>: exceptions as values, state-passing operations (\<open>bind_op\<close>), dictionaries as association
    lists in insertion order, strings, time in microseconds, sorting.
  \<^item> Queue: \<^theory_text>\<open>Tasks\<close> (TaskStatus, Task and its validators), \<^theory_text>\<open>Task_Store\<close> (InMemoryTaskStore), \<^theory_text>\<open>Task_Queue\<close>
    (every method of TaskQueue); \<^theory_text>\<open>Cas_Store\<close> is the compare-and-swap interface between queue and store;
    \<^theory_text>\<open>Queue_Refinement\<close> is the task state machine the methods implement and the simulation,
    \<^theory_text>\<open>Queue_Machine\<close> every run of the queue, \<^theory_text>\<open>Ready_List\<close> the fair ready list, \<^theory_text>\<open>Queue_Properties\<close> the
    properties.
  \<^item> Budgets: \<^theory_text>\<open>Budgets\<close> (demands, caps, profiles, the compiled checks), \<^theory_text>\<open>Budget_Store\<close> (InMemoryBudgetStore),
    \<^theory_text>\<open>Budget_Manager\<close>, with \<^theory_text>\<open>Dict_Sum\<close> and \<^theory_text>\<open>Lease_Store\<close> (the interface of the two lease-keeping stores);
    \<^theory_text>\<open>Budget_Properties\<close> and \<^theory_text>\<open>Budget_Guarantees\<close>.
  \<^item> Rate limits: \<^theory_text>\<open>Rate_Limits\<close> (rules, profiles, the in-memory token buckets), \<^theory_text>\<open>Rate_Limiter\<close>, \<^theory_text>\<open>Fnmatch\<close>
    (the shell patterns of the standard library); \<^theory_text>\<open>Rate_Store_Proofs\<close>, \<^theory_text>\<open>Rate_Properties\<close>, \<^theory_text>\<open>Rate_Guarantees\<close>.
  \<^item> \<^theory_text>\<open>Events\<close>, \<^theory_text>\<open>Router\<close>, \<^theory_text>\<open>Router_Properties\<close>; \<^theory_text>\<open>Scheduler\<close>, \<^theory_text>\<open>Scheduler_Properties\<close>.
  \<^item> Policy: \<^theory_text>\<open>Gates\<close> (the decision a gate returns), \<^theory_text>\<open>Precedence\<close> (the interface of the rule engines),
    \<^theory_text>\<open>Restrictions\<close> and \<^theory_text>\<open>Restrictions_Properties\<close>, \<^theory_text>\<open>Review_Gate\<close> and \<^theory_text>\<open>Review_Properties\<close>, \<^theory_text>\<open>Scope\<close>,
    \<^theory_text>\<open>Scope_Properties\<close> and \<^theory_text>\<open>Scope_Guarantees\<close> over \<^theory_text>\<open>Ip_Addr\<close>, \<^theory_text>\<open>Ip_Properties\<close> and \<^theory_text>\<open>Url\<close>, the parts of
    ipaddress, urllib.parse and the idna codec that scope.py uses.
  \<^item> Lifecycle: \<^theory_text>\<open>Lifecycle\<close> (admission, execution, crash recovery), \<^theory_text>\<open>Lifecycle_Properties\<close> (frames),
    \<^theory_text>\<open>Admission_Guarantees\<close>, \<^theory_text>\<open>Execution_Properties\<close>, \<^theory_text>\<open>Execution_Guarantees\<close>.
  \<^item> Seeds and headers: \<^theory_text>\<open>Seeds\<close>, \<^theory_text>\<open>Seed_Properties\<close>, \<^theory_text>\<open>Seed_Guarantees\<close>; \<^theory_text>\<open>Request_Identity\<close>,
    \<^theory_text>\<open>Identity_Properties\<close>.
  \<^item> Yield: \<^theory_text>\<open>Corpus_Tokens\<close> (identity of tokens and names, the target of an event), \<^theory_text>\<open>Yield_Model\<close> (credits,
    observations, queries), \<^theory_text>\<open>Yield_Estimates\<close> (the store and its aggregates), \<^theory_text>\<open>Yield_Trends\<close> (estimates of
    queries and tasks), \<^theory_text>\<open>Yield_Feedback\<close> (branch trends, the feedback adapters); \<^theory_text>\<open>Yield_Properties\<close>,
    \<^theory_text>\<open>Yield_Guarantees\<close>.
  \<^item> Convergence: \<^theory_text>\<open>Convergence\<close> (pressures, states, the decision), \<^theory_text>\<open>Convergence_Properties\<close> (runs of decisions),
    \<^theory_text>\<open>Budget_Pressure\<close> (what the inspector sees against what the budget manager refuses),
    \<^theory_text>\<open>Convergence_Guarantees\<close>.
  \<^item> Confidence: \<^theory_text>\<open>Confidence\<close> (evidence, groups, discounts, the assessment; the evidence and the keys of an
    event, the providers, the model), \<^theory_text>\<open>Confidence_Properties\<close> (noisy-or, deduplication, grouping),
    \<^theory_text>\<open>Confidence_Guarantees\<close>.
  \<^item> Novelty: \<^theory_text>\<open>Novelty\<close> (factors, histories, configuration; subjects, the scans of the regular expressions,
    strengths; the signals, the assessment, the model), \<^theory_text>\<open>Novelty_Guarantees\<close>.
  \<^item> Runtime: \<^theory_text>\<open>Runtime_Wiring\<close> (subjects, lanes, gates, the budget plan), \<^theory_text>\<open>Runtime_Executor\<close> (review signals,
    metrics, the worker executor), \<^theory_text>\<open>Runtime_Properties\<close>, \<^theory_text>\<open>Runtime_Guarantees\<close>.
  \<^item> Surface: \<^theory_text>\<open>Surface_Identity\<close>, \<^theory_text>\<open>Surface_Graph\<close> (accumulated and finished nodes and edges),
    \<^theory_text>\<open>Surface_Builder\<close> (observations, stored and derived edges), \<^theory_text>\<open>Surface_Snapshot\<close> (limits, depth, the whole
    build), \<^theory_text>\<open>Surface_Tree\<close> (the tree projection); \<^theory_text>\<open>Tree_Guarantees\<close>, \<^theory_text>\<open>Depth_Search\<close>,
    \<^theory_text>\<open>Snapshot_Properties\<close>, \<^theory_text>\<open>Snapshot_Guarantees\<close>.
\<close>

text \<open>
  \<^bold>\<open>Conventions of the model.\<close> A method is a function from its arguments and the state to a result and the new
  state; a raised exception is a value of \<open>py_error\<close> on the left of a sum. Classes are records, enumerations
  datatypes; a pydantic model is a record with a validating constructor. Time is an integer number of
  microseconds, and each operation takes the clock readings and the random identifiers it draws as
  arguments, so nothing is assumed about a clock unless a theorem says so. Numbers that the code keeps as
  floats (costs, rates, tokens, scores) are exact rationals: the properties hold up to rounding, and where
  the code compares with a tolerance of 1e-9 so does the model. Strings hold code points below 256.

  \<^bold>\<open>Concurrency.\<close> Every store method of the code runs under one asyncio lock without suspending in between, so it
  is one step. The coroutines of the lifecycle do suspend: \<open>environment\<close> gives, for every suspension point,
  an arbitrary function on the whole state that stands for whatever the other coroutines did meanwhile.
  Theorems state what they need of it (\<open>keeps_store\<close>: it keeps the store well formed; \<open>keeps_budgets\<close>: it
  leaves the budget alone; a preorder of allowed moves). Executor, planner, gates, review coordinator and
  attempt observer are parameters of the model. How a worker ends and at which readings heartbeats fire
  before that is an input of an execution.

  \<^bold>\<open>Termination and fuel.\<close> Every definition is a total function. The waiting loop of the rate limiter takes the
  list of the clock readings of its attempts; the batch selection of the scheduler recurses on the number
  of decisions still queued and needs no fuel. The breadth-first search of the surface graph ends because the
  edge targets without a depth become fewer, or the queue shorter; the visit of the tree, a nested recursion,
  because the nodes not yet expanded become fewer. The scan of a regular expression ends because what is left of
  the text becomes shorter. The lineage of a task is followed for
  \<open>max_parent_depth\<close> events, as in the code.

  \<^bold>\<open>What the lemmas show.\<close> The queue refines a state machine on tasks; fencing tokens make a worker that lost
  its claim powerless, the recovery sweep gives back exactly the expired tasks, and the lifecycle inherits both. Reserved budget is the sum of the active
  reservations, caps hold in every run, and each reservation is settled once; a refused admission holds
  none, a finished execution has paid. Token buckets grant at most burst plus rate times elapsed time. The
  gates return what their documentation tables say; the rule engines pick the greatest matching rule, and
  the order of registration is irrelevant. A dispatched task passed every gate, the budget and the claim;
  a baseline violation or an asset out of scope is never dispatched to an active worker. Planned seeds are
  authorised and no rule is dropped silently; identification headers inject nothing and round-trip. Yield
  estimates lie in their ranges without the clamping the code adds; a branch is closed only on evidence, closes
  when its yield stays low, and climbs tiers only by productive streaks; what the controller decided is what the
  gate enforces. A confidence is a probability that neither the order nor the repetition of evidence changes, and
  dependent evidence never counts for more than independent evidence would; novelty stays in range and does not grow
  with repetition. A snapshot of the surface is a simple graph within its limits, its depth limit is reachability in
  that many steps, and the tree projection expands every node once and shows every edge once.

  \<^bold>\<open>Interfaces.\<close> \<open>cas_store\<close>, \<open>lease_store\<close>, \<open>precedence\<close> and \<open>evidence_source\<close> are locales; each is interpreted
  on the model's own definitions (the task store; the budget and the rate store; the descriptor, restriction and
  scope rules; the two evidence providers).

  \<^bold>\<open>Not modelled.\<close> The workers (\<open>recon/workers\<close>) run external tools and parse their output; of them only the four
  normalisers of names and tokens that the yield model calls are here. \<open>recon/storage\<close>, \<open>surface/projector.py\<close> and
  \<open>surface/rebuild.py\<close> are SQL over an ORM; the graph builder is modelled from the rows of one read. The rest of
  \<open>recon/intelligence\<close> (word lists, naming patterns, vocabulary, vulnerabilities, genomes) is text mining and
  ranking over files and stored observations. The rest of \<open>runtime.py\<close>, and \<open>cli.py\<close>, \<open>tooling.py\<close>, \<open>userenv.py\<close>,
  \<open>resources.py\<close> and \<open>recon/exporters\<close>, wire and print files, processes and the terminal. \<open>core/redaction.py\<close>
  rests on the backtracking of regular expressions and on the release of urllib. The demand of a worker's envelope, read
  from the YAML configuration, is a parameter of the budget plan. Of the modelled files, logging, asyncio task
  bookkeeping, the interpreter's recursion limit, the overflow of dates, the range validators of result models that
  the code fills with already bounded numbers (the pressures of a budget) and the digest of a whole graph (a parameter) are left out.
\<close>

end
